(* ===== verification/Prelude.thy ===== *)
theory Prelude
  imports Main "HOL-Library.Word"
begin

text \<open>
  Shared vocabulary of the development: the machine integers of
  \<^verbatim>\<open>src/common/Defines.h\<close>, the collections of rewrite rules the component
  theories fill, and the generic lemmas on lists, words and folds they share.

  Unsigned fields are words, so that their arithmetic wraps as in the program. Signed
  fields are \<open>int\<close>; every store into a signed field of width \<open>w\<close> goes through
  \<open>i16\<close>, \<open>i32\<close> or \<open>i64\<close>, the two's complement reading of the stored bits.
\<close>

section \<open>Collections of rules\<close>

named_theorems net_simps \<open>unfolding rules of the buffer and packet operations\<close>
named_theorems tile_simps \<open>unfolding rules of the tile map queries\<close>
named_theorems jps_simps \<open>unfolding rules of the path search\<close>
named_theorems list_heap_simps \<open>unfolding rules of the intrusive list operations\<close>
named_theorems theater_simps \<open>unfolding rules of the theater and its manager\<close>

section \<open>Machine integers\<close>

type_synonym u8 = "8 word"
type_synonym u16 = "16 word"
type_synonym u32 = "32 word"
type_synonym NSTime = int

definition i16 :: "int \<Rightarrow> int" where
  "i16 x = signed_take_bit 15 x"

definition i32 :: "int \<Rightarrow> int" where
  "i32 x = signed_take_bit 31 x"

definition i64 :: "int \<Rightarrow> int" where
  "i64 x = signed_take_bit 63 x"

definition int32_range :: "int \<Rightarrow> bool" where
  "int32_range x \<longleftrightarrow> - 2147483648 \<le> x \<and> x \<le> 2147483647"

lemma i16_id: "- 32768 \<le> x \<Longrightarrow> x \<le> 32767 \<Longrightarrow> i16 x = x"
  unfolding i16_def by (rule signed_take_bit_int_eq_self) simp_all

lemma i32_id: "int32_range x \<Longrightarrow> i32 x = x"
  unfolding i32_def int32_range_def by (rule signed_take_bit_int_eq_self) simp_all

lemma i32_nonneg: "0 \<le> x \<Longrightarrow> x \<le> 2147483647 \<Longrightarrow> i32 x = x"
  by (intro i32_id) (simp add: int32_range_def)

lemma i64_id: "- 9223372036854775808 \<le> x \<Longrightarrow> x \<le> 9223372036854775807 \<Longrightarrow> i64 x = x"
  unfolding i64_def by (rule signed_take_bit_int_eq_self) simp_all

lemma i32_range: "int32_range (i32 x)"
  using signed_take_bit_int_greater_eq_minus_exp [of 31 x] signed_take_bit_int_less_exp [of 31 x]
  by (simp add: i32_def int32_range_def)

section \<open>Words\<close>

lemma unat_u16_of_nat: "n < 65536 \<Longrightarrow> unat (of_nat n :: u16) = n"
  by (simp add: unat_of_nat take_bit_nat_eq_self)

lemma unat_u8_less: "unat (x :: u8) < 256"
  using unsigned_less [of x] by simp

lemma unat_u16_less: "unat (x :: u16) < 65536"
  using unsigned_less [of x] by simp

lemma uint_u16_le: "uint (x :: u16) \<le> 65535"
  using uint_bounded [of x] by simp

lemma unat_u32_less: "unat (x :: u32) < 4294967296"
  using unsigned_less [of x] by simp

lemma unat_u16_plus:
  "unat (x :: u16) + unat y < 65536 \<Longrightarrow> unat (x + y) = unat x + unat y"
  by (simp add: unat_word_ariths)

lemma unat_u16_minus: "y \<le> (x :: u16) \<Longrightarrow> unat (x - y) = unat x - unat y"
  by (rule unat_sub)

lemma unat_u32_plus:
  "unat (x :: u32) + unat y < 4294967296 \<Longrightarrow> unat (x + y) = unat x + unat y"
  by (simp add: unat_word_ariths)

section \<open>Lists\<close>

definition write_at :: "nat \<Rightarrow> 'a list \<Rightarrow> 'a list \<Rightarrow> 'a list" where
  \<comment> \<open>the array \<open>st\<close> after \<open>xs\<close> was copied to its positions \<open>p, p + 1, \<dots>\<close>\<close>
  "write_at p xs st = take p st @ xs @ drop (p + length xs) st"

lemma length_write_at [simp]:
  "p + length xs \<le> length st \<Longrightarrow> length (write_at p xs st) = length st"
  by (simp add: write_at_def)

lemma take_write_at [simp]:
  "p + length xs \<le> length st \<Longrightarrow> take (p + length xs) (write_at p xs st) = take p st @ xs"
  by (simp add: write_at_def)

lemma take_write_at_low: "q \<le> p \<Longrightarrow> p \<le> length st \<Longrightarrow> take q (write_at p xs st) = take q st"
  by (simp add: write_at_def min_def)

lemma sum_list_snoc: "sum_list (xs @ [x]) = sum_list xs + (x :: 'a :: comm_monoid_add)"
  by simp

lemma list_all_take_dropI: "list_all P xs \<Longrightarrow> list_all P (take n xs) \<and> list_all P (drop n xs)"
  by (metis append_take_drop_id list_all_append)

lemma fold_invariant:
  assumes "P s" and "\<And>x s. x \<in> set xs \<Longrightarrow> P s \<Longrightarrow> P (f x s)"
  shows "P (fold f xs s)"
  using assms by (induction xs arbitrary: s) auto

text \<open>
  A fold establishes, one element after the other, a property that the later elements keep.
\<close>

lemma fold_establishes:
  assumes "sorted_wrt R xs" and "P s"
    and step: "\<And>ys x zs s. xs = ys @ x # zs \<Longrightarrow> P s \<Longrightarrow> \<forall>y\<in>set ys. Q y s \<Longrightarrow> P (f x s) \<and> Q x (f x s)"
    and keep: "\<And>x y s. x \<in> set xs \<Longrightarrow> y \<in> set xs \<Longrightarrow> R x y \<Longrightarrow> P s \<Longrightarrow> Q x s \<Longrightarrow> Q x (f y s)"
  shows "P (fold f xs s) \<and> (\<forall>x\<in>set xs. Q x (fold f xs s))"
proof -
  have "P (fold f ys s) \<and> (\<forall>x\<in>set ys. Q x (fold f ys s))" if "xs = ys @ zs" for ys zs
    using that
  proof (induction ys arbitrary: zs rule: rev_induct)
    case Nil
    then show ?case using assms(2) by simp
  next
    case (snoc x ys)
    then have IH: "P (fold f ys s)" "\<forall>y\<in>set ys. Q y (fold f ys s)" by auto
    have "R y x" if "y \<in> set ys" for y using assms(1) snoc.prems that by (auto simp: sorted_wrt_append)
    then show ?case using step [of ys x zs, OF _ IH] IH keep snoc.prems by auto
  qed
  then show ?thesis by simp
qed

lemma fold_nested: "fold (\<lambda>r. fold (f r) cs) rs s = fold (\<lambda>(r, c). f r c) (List.product rs cs) s"
  by (induction rs arbitrary: s) (simp_all add: fold_map comp_def)

lemma sorted_wrt_product:
  assumes "sorted_wrt A rs" and "sorted_wrt B cs"
  shows "sorted_wrt (\<lambda>(r, c) (r', c'). A r r' \<or> r = r' \<and> B c c') (List.product rs cs)"
  using assms(1)
proof (induction rs)
  case (Cons r rs)
  have "sorted_wrt (\<lambda>(r, c) (r', c'). A r r' \<or> r = r' \<and> B c c') (map (Pair r) cs)"
    using assms(2) by (auto simp: sorted_wrt_map intro: sorted_wrt_mono_rel)
  then show ?case using Cons by (auto simp: sorted_wrt_append)
qed simp

lemma rev_upt_map: "rev [0..<n] = map (\<lambda>i. n - Suc i) [0..<n]"
  by (rule nth_equalityI) (auto simp: rev_nth)

end
