(* ===== verification/Timers.thy ===== *)
theory Timers
  imports Prelude
begin

text \<open>
  The two timers of \<^verbatim>\<open>src/common/utilities/Timer.h\<close>. \<^verbatim>\<open>IntervalTimer\<close>
  fires periodically and can carry the overshoot of one period into the next;
  \<^verbatim>\<open>DelayTimer\<close> counts a delay down. The fields are \<^verbatim>\<open>NSTime\<close>
  (\<^verbatim>\<open>int32\<close>), stored through \<open>i32\<close>.
\<close>

section \<open>IntervalTimer\<close>

record interval_timer =
  it_interval :: NSTime
  it_current :: NSTime
  it_remainder :: NSTime
  it_makeUpForLostTime :: bool

definition interval_new :: "bool \<Rightarrow> interval_timer" where
  "interval_new makeUp =
     \<lparr>it_interval = 0, it_current = 0, it_remainder = 0, it_makeUpForLostTime = makeUp\<rparr>"

definition interval_update :: "NSTime \<Rightarrow> interval_timer \<Rightarrow> interval_timer" where
  "interval_update diff t =
     (if it_interval t \<le> 0 then t else t\<lparr>it_current := i32 (it_current t + diff)\<rparr>)"

definition interval_passed :: "interval_timer \<Rightarrow> bool" where
  "interval_passed t =
     (if it_interval t \<le> 0 then False
      else it_interval t \<le> i32 (it_current t + it_remainder t))"

definition interval_setPassed :: "interval_timer \<Rightarrow> interval_timer" where
  "interval_setPassed t = t\<lparr>it_current := it_interval t, it_remainder := 0\<rparr>"

definition interval_reset :: "interval_timer \<Rightarrow> interval_timer" where
  "interval_reset t =
     (let t1 =
        (if it_makeUpForLostTime t
         then let s = i32 (it_current t + it_remainder t)
              in (if it_interval t < s then t\<lparr>it_remainder := i32 (s - it_interval t)\<rparr>
                  else t\<lparr>it_remainder := 0\<rparr>)
         else t)
      in t1\<lparr>it_current := 0\<rparr>)"

definition interval_setInterval :: "NSTime \<Rightarrow> interval_timer \<Rightarrow> interval_timer" where
  "interval_setInterval interval t =
     t\<lparr>it_remainder := 0, it_current := 0, it_interval := interval\<rparr>"

text \<open>
  How the program polls a timer (for instance \<^verbatim>\<open>WorldSession::update\<close>): advance it,
  and when it has passed, act and reset it. \<open>interval_run\<close> counts the firings over a
  sequence of ticks.
\<close>

definition interval_poll :: "NSTime \<Rightarrow> interval_timer \<Rightarrow> bool \<times> interval_timer" where
  "interval_poll diff t =
     (let t1 = interval_update diff t
      in if interval_passed t1 then (True, interval_reset t1) else (False, t1))"

fun interval_run :: "NSTime list \<Rightarrow> interval_timer \<Rightarrow> nat \<times> interval_timer" where
  "interval_run [] t = (0, t)"
| "interval_run (d # ds) t =
     (let (fired, t1) = interval_poll d t; (n, t2) = interval_run ds t1
      in (if fired then Suc n else n, t2))"

definition interval_ok :: "interval_timer \<Rightarrow> bool" where
  "interval_ok t \<longleftrightarrow> 0 < it_interval t \<and> it_makeUpForLostTime t
     \<and> 0 \<le> it_current t \<and> 0 \<le> it_remainder t
     \<and> int32_range (it_current t + it_remainder t)"

lemma interval_poll_balance:
  assumes "interval_ok t" and "0 \<le> d"
    and "int32_range (it_current t + it_remainder t + d)"
    and "interval_poll d t = (fired, t')"
  shows "interval_ok t' \<and> it_interval t' = it_interval t
    \<and> it_current t + it_remainder t + d =
        (if fired then it_interval t else 0) + it_current t' + it_remainder t'"
proof -
  have cur: "i32 (it_current t + d) = it_current t + d"
    using assms(1-3) by (intro i32_id) (auto simp: interval_ok_def int32_range_def)
  have tot: "i32 (it_current t + d + it_remainder t) = it_current t + d + it_remainder t"
    using assms(3) by (intro i32_id) (simp add: algebra_simps)
  show ?thesis
  proof (cases "it_interval t \<le> it_current t + d + it_remainder t")
    case True
    have "i32 (it_current t + d + it_remainder t - it_interval t)
        = it_current t + d + it_remainder t - it_interval t"
      using assms(1-3) True by (intro i32_id) (auto simp: interval_ok_def int32_range_def)
    with True cur tot assms show ?thesis
      by (auto simp: interval_poll_def interval_update_def interval_passed_def interval_reset_def
          interval_ok_def int32_range_def Let_def)
  next
    case False
    with cur tot assms show ?thesis
      by (auto simp: interval_poll_def interval_update_def interval_passed_def interval_reset_def
          interval_ok_def int32_range_def Let_def algebra_simps)
  qed
qed

lemma interval_run_balance:
  assumes "interval_ok t" and "list_all (\<lambda>d. 0 \<le> d) ds"
    and "int32_range (it_current t + it_remainder t + sum_list ds)"
    and "interval_run ds t = (n, t')"
  shows "interval_ok t' \<and> it_interval t' = it_interval t
    \<and> it_current t + it_remainder t + sum_list ds =
        int n * it_interval t + it_current t' + it_remainder t'"
  using assms
proof (induction ds arbitrary: t n t')
  case Nil
  then show ?case by auto
next
  case (Cons d ds)
  obtain fired t1 where p: "interval_poll d t = (fired, t1)" by fastforce
  obtain m t2 where r: "interval_run ds t1 = (m, t2)" by fastforce
  have nonneg: "0 \<le> d" "0 \<le> sum_list ds" "list_all (\<lambda>d. 0 \<le> d) ds"
    using Cons.prems(2) by (auto simp: list_all_iff intro!: sum_list_nonneg)
  have rng: "int32_range (it_current t + it_remainder t + d)"
    using Cons.prems(1,3) nonneg by (auto simp: int32_range_def interval_ok_def)
  note b = interval_poll_balance [OF Cons.prems(1) nonneg(1) rng p]
  have "int32_range (it_current t1 + it_remainder t1 + sum_list ds)"
    using b Cons.prems(1,3) nonneg by (auto simp: int32_range_def interval_ok_def split: if_splits)
  with b r nonneg have
    "interval_ok t2 \<and> it_interval t2 = it_interval t1
      \<and> it_current t1 + it_remainder t1 + sum_list ds =
          int m * it_interval t1 + it_current t2 + it_remainder t2"
    by (intro Cons.IH) auto
  with b p r Cons.prems(4) show ?case
    by (auto split: if_splits simp: algebra_simps)
qed

text \<open>
  C18: A polled interval timer that makes up for lost time loses none: over any sequence
  of non-negative ticks whose total fits \<^verbatim>\<open>int32\<close>, the number of firings times the
  interval, plus what the timer still holds, is exactly the time that went by.
\<close>

theorem interval_timer_no_lost_time:
  assumes "interval_ok t" and "list_all (\<lambda>d. 0 \<le> d) ds"
    and "int32_range (it_current t + it_remainder t + sum_list ds)"
    and "interval_run ds t = (n, t')"
  shows "it_current t + it_remainder t + sum_list ds =
           int n * it_interval t + it_current t' + it_remainder t'"
  using interval_run_balance [OF assms] by blast

theorem interval_timer_no_lost_time_witness:
  "\<exists>n t'. interval_run [2, 5, 0] (interval_setInterval 3 (interval_new True)) = (n, t')
     \<and> n = 2 \<and> 7 = int n * 3 + it_current t' + it_remainder t'"
proof -
  let ?t = "interval_setInterval 3 (interval_new True)"
  let ?t' = "?t\<lparr>it_remainder := 1\<rparr>"
  have ok: "interval_ok ?t"
    by (simp add: interval_ok_def interval_setInterval_def interval_new_def int32_range_def)
  have run: "interval_run [2, 5, 0] ?t = (2, ?t')"
    by (simp add: interval_poll_def interval_update_def interval_passed_def interval_reset_def
        interval_setInterval_def interval_new_def i32_id int32_range_def Let_def)
  show ?thesis
    using interval_timer_no_lost_time [OF ok _ _ run] run
    by (auto simp: interval_setInterval_def interval_new_def int32_range_def)
qed

section \<open>DelayTimer\<close>

record delay_timer =
  dt_duration :: NSTime
  dt_current :: NSTime

definition delay_new :: delay_timer where
  "delay_new = \<lparr>dt_duration = 0, dt_current = 0\<rparr>"

definition delay_update :: "NSTime \<Rightarrow> delay_timer \<Rightarrow> delay_timer" where
  "delay_update diff t =
     (if dt_current t \<le> 0 then t else t\<lparr>dt_current := i32 (dt_current t - diff)\<rparr>)"

definition delay_passed :: "delay_timer \<Rightarrow> bool" where
  "delay_passed t = (dt_current t \<le> 0)"

definition delay_setPassed :: "delay_timer \<Rightarrow> delay_timer" where
  "delay_setPassed t = t\<lparr>dt_current := 0\<rparr>"

definition delay_reset :: "delay_timer \<Rightarrow> delay_timer" where
  "delay_reset t = t\<lparr>dt_current := dt_duration t\<rparr>"

definition delay_setDuration :: "NSTime \<Rightarrow> delay_timer \<Rightarrow> delay_timer" where
  "delay_setDuration duration t = t\<lparr>dt_current := duration, dt_duration := duration\<rparr>"

definition delay_getRemainder :: "delay_timer \<Rightarrow> NSTime" where
  "delay_getRemainder t = max 0 (dt_current t)"

definition delay_getElapsed :: "delay_timer \<Rightarrow> NSTime" where
  "delay_getElapsed t = i32 (dt_duration t - delay_getRemainder t)"

lemma delay_update_nonneg:
  assumes "0 \<le> d" "int32_range d" "int32_range (dt_current t)"
  shows "dt_current (delay_update d t) = (if dt_current t \<le> 0 then dt_current t else dt_current t - d)"
    and "int32_range (dt_current (delay_update d t))"
    and "dt_duration (delay_update d t) = dt_duration t"
  using assms by (auto simp: delay_update_def int32_range_def i32_id)

lemma delay_run_passed_iff:
  assumes "list_all (\<lambda>d. 0 \<le> d \<and> int32_range d) ds" and "int32_range (dt_current t)"
  shows "delay_passed (fold delay_update ds t) \<longleftrightarrow> dt_current t \<le> sum_list ds"
  using assms
proof (induction ds arbitrary: t)
  case Nil
  then show ?case by (simp add: delay_passed_def)
next
  case (Cons d ds)
  then have d: "0 \<le> d" "int32_range d" and ds: "list_all (\<lambda>d. 0 \<le> d \<and> int32_range d) ds"
    by auto
  have "0 \<le> sum_list ds" using ds by (auto simp: list_all_iff intro!: sum_list_nonneg)
  then show ?case
    using Cons.IH [OF ds, of "delay_update d t"] delay_update_nonneg [OF d Cons.prems(2)] d
    by auto
qed

text \<open>
  A delay timer that was reset has passed after a sequence of non-negative ticks exactly
  when the ticks add up to its duration: it neither fires early nor misses its time.
\<close>

theorem delay_timer_passes_exactly:
  assumes "int32_range (dt_duration t)" and "list_all (\<lambda>d. 0 \<le> d \<and> int32_range d) ds"
  shows "delay_passed (fold delay_update ds (delay_reset t)) \<longleftrightarrow> dt_duration t \<le> sum_list ds"
  using delay_run_passed_iff [OF assms(2), of "delay_reset t"] assms(1)
  by (simp add: delay_reset_def)

theorem delay_timer_passes_exactly_witness:
  "delay_passed (fold delay_update [2, 3] (delay_reset (delay_setDuration 5 delay_new)))
   \<and> \<not> delay_passed (fold delay_update [2, 2] (delay_reset (delay_setDuration 5 delay_new)))"
  using delay_timer_passes_exactly [of "delay_setDuration 5 delay_new" "[2, 3]"]
    delay_timer_passes_exactly [of "delay_setDuration 5 delay_new" "[2, 2]"]
  by (simp add: delay_setDuration_def delay_new_def int32_range_def)

end
