(* ===== verification/Message_Buffer.thy ===== *)
theory Message_Buffer
  imports Prelude
begin

text \<open>
  \<^verbatim>\<open>MessageBuffer\<close> of \<^verbatim>\<open>src/common/networking/MessageBuffer.h\<close>: a byte vector
  with a read and a write position (both \<^verbatim>\<open>uint16\<close>), the storage that packets are
  written to before they are sent and read from after they arrived. A write through the write
  pointer that would leave the vector is the error \<open>OutOfBounds\<close>; the integer division by
  an empty vector's size is \<open>DivisionByZero\<close>.
\<close>

datatype net_error = PacketException | AssertionFailed | OutOfBounds | DivisionByZero

section \<open>State and operations\<close>

record message_buffer =
  mb_rpos :: u16
  mb_wpos :: u16
  mb_storage :: "u8 list"
  mb_timestamp :: int

definition mb_default :: message_buffer where
  "mb_default = \<lparr>mb_rpos = 0, mb_wpos = 0, mb_storage = [], mb_timestamp = 0\<rparr>"

definition mb_resize :: "u16 \<Rightarrow> message_buffer \<Rightarrow> message_buffer" where
  "mb_resize newSize mb =
     mb\<lparr>mb_storage := take (unat newSize) (mb_storage mb)
          @ replicate (unat newSize - length (mb_storage mb)) 0\<rparr>"

definition mb_new :: "u16 \<Rightarrow> message_buffer" where
  "mb_new bufferSize = mb_resize bufferSize mb_default"

definition mb_copy :: "message_buffer \<Rightarrow> message_buffer \<Rightarrow> message_buffer" where
  "mb_copy right this =
     this\<lparr>mb_rpos := mb_rpos right, mb_wpos := mb_wpos right, mb_storage := mb_storage right,
          mb_timestamp := mb_timestamp right\<rparr>"

definition mb_move :: "message_buffer \<Rightarrow> message_buffer \<Rightarrow> message_buffer \<times> message_buffer" where
  \<comment> \<open>the pair of the new \<^verbatim>\<open>*this\<close> and the new \<^verbatim>\<open>right\<close>\<close>
  "mb_move right this =
     (this\<lparr>mb_storage := mb_storage right, mb_rpos := mb_rpos right, mb_wpos := mb_wpos right,
           mb_timestamp := mb_timestamp right\<rparr>,
      right\<lparr>mb_storage := [], mb_rpos := mb_rpos this, mb_wpos := mb_wpos this,
            mb_timestamp := mb_timestamp this\<rparr>)"

definition mb_readCompleted :: "u16 \<Rightarrow> message_buffer \<Rightarrow> message_buffer" where
  "mb_readCompleted bytes mb = mb\<lparr>mb_rpos := mb_rpos mb + bytes\<rparr>"

definition mb_writeCompleted :: "u16 \<Rightarrow> message_buffer \<Rightarrow> message_buffer" where
  "mb_writeCompleted bytes mb = mb\<lparr>mb_wpos := mb_wpos mb + bytes\<rparr>"

definition mb_getActiveSize :: "message_buffer \<Rightarrow> u16" where
  "mb_getActiveSize mb = mb_wpos mb - mb_rpos mb"

definition mb_getRemainingSpace :: "message_buffer \<Rightarrow> u16" where
  "mb_getRemainingSpace mb = of_nat (length (mb_storage mb)) - mb_wpos mb"

definition mb_getBufferSize :: "message_buffer \<Rightarrow> u16" where
  "mb_getBufferSize mb = of_nat (length (mb_storage mb))"

definition mb_reset :: "message_buffer \<Rightarrow> message_buffer" where
  "mb_reset mb = mb\<lparr>mb_wpos := 0, mb_rpos := 0\<rparr>"

definition mb_normalize :: "message_buffer \<Rightarrow> message_buffer" where
  "mb_normalize mb =
     (if mb_rpos mb \<noteq> 0
      then let st = (if mb_rpos mb \<noteq> mb_wpos mb
                     then write_at 0 (take (unat (mb_getActiveSize mb))
                            (drop (unat (mb_rpos mb)) (mb_storage mb))) (mb_storage mb)
                     else mb_storage mb)
           in mb\<lparr>mb_storage := st, mb_wpos := mb_wpos mb - mb_rpos mb, mb_rpos := 0\<rparr>
      else mb)"

definition mb_ensureFreeSpace :: "u16 \<Rightarrow> message_buffer \<Rightarrow> net_error + message_buffer" where
  "mb_ensureFreeSpace expectSize mb =
     (let mb1 = mb_normalize mb; size = length (mb_storage mb1)
      in if mb_getRemainingSpace mb1 < expectSize
         then if size = 0 then Inl DivisionByZero
              else let newSize =
                     ((unat expectSize + unat (mb_getActiveSize mb1) + size - 1) div size) * size
                   in Inr (mb1\<lparr>mb_storage := take newSize (mb_storage mb1)
                             @ replicate (newSize - size) 0\<rparr>)
         else Inr mb1)"

text \<open>
  The two ways the program fills and empties a buffer by pointer: \<open>mb_put\<close> copies bytes to
  the write pointer (\<^verbatim>\<open>memcpy\<close> or a completed socket read), \<open>mb_peek\<close> reads from
  the read pointer.
\<close>

definition mb_put :: "u8 list \<Rightarrow> message_buffer \<Rightarrow> net_error + message_buffer" where
  "mb_put bytes mb =
     (if unat (mb_wpos mb) + length bytes \<le> length (mb_storage mb)
      then Inr (mb\<lparr>mb_storage := write_at (unat (mb_wpos mb)) bytes (mb_storage mb)\<rparr>)
      else Inl OutOfBounds)"

definition mb_peek :: "nat \<Rightarrow> message_buffer \<Rightarrow> net_error + u8 list" where
  "mb_peek n mb =
     (if unat (mb_rpos mb) + n \<le> length (mb_storage mb)
      then Inr (take n (drop (unat (mb_rpos mb)) (mb_storage mb)))
      else Inl OutOfBounds)"

section \<open>Invariant and content\<close>

definition mb_ok :: "message_buffer \<Rightarrow> bool" where
  "mb_ok mb \<longleftrightarrow> mb_rpos mb \<le> mb_wpos mb \<and> unat (mb_wpos mb) \<le> length (mb_storage mb)
     \<and> length (mb_storage mb) < 65536"

definition mb_active :: "message_buffer \<Rightarrow> u8 list" where
  \<comment> \<open>the bytes written and not yet read\<close>
  "mb_active mb = drop (unat (mb_rpos mb)) (take (unat (mb_wpos mb)) (mb_storage mb))"

lemma mb_new_ok [simp]: "mb_ok (mb_new n)" "mb_active (mb_new n) = []"
  "length (mb_storage (mb_new n)) = unat n" "mb_rpos (mb_new n) = 0" "mb_wpos (mb_new n) = 0"
  using unat_u16_less [of n]
  by (auto simp: mb_new_def mb_resize_def mb_default_def mb_ok_def mb_active_def)

lemma mb_ok_rpos_wpos: "mb_ok mb \<Longrightarrow> unat (mb_rpos mb) \<le> unat (mb_wpos mb)"
  by (simp add: mb_ok_def word_le_nat_alt)

lemma unat_active_size:
  "mb_ok mb \<Longrightarrow> unat (mb_getActiveSize mb) = unat (mb_wpos mb) - unat (mb_rpos mb)"
  by (simp add: mb_ok_def mb_getActiveSize_def unat_u16_minus)

lemma length_mb_active: "mb_ok mb \<Longrightarrow> length (mb_active mb) = unat (mb_getActiveSize mb)"
  by (simp add: mb_ok_def mb_active_def unat_active_size)

lemma unat_remaining_space:
  "mb_ok mb \<Longrightarrow> unat (mb_getRemainingSpace mb) = length (mb_storage mb) - unat (mb_wpos mb)"
  by (simp add: mb_ok_def mb_getRemainingSpace_def unat_u16_minus word_le_nat_alt unat_u16_of_nat)

lemma mb_put_ok:
  assumes "mb_ok mb" and "length bytes \<le> unat (mb_getRemainingSpace mb)" and "unat n = length bytes"
  shows "\<exists>mb'. mb_put bytes mb = Inr mb' \<and> mb_ok (mb_writeCompleted n mb')
    \<and> mb_active (mb_writeCompleted n mb') = mb_active mb @ bytes
    \<and> mb_wpos (mb_writeCompleted n mb') = mb_wpos mb + n
    \<and> mb_rpos (mb_writeCompleted n mb') = mb_rpos mb
    \<and> length (mb_storage (mb_writeCompleted n mb')) = length (mb_storage mb)"
proof -
  let ?mb' = "mb\<lparr>mb_storage := write_at (unat (mb_wpos mb)) bytes (mb_storage mb)\<rparr>"
  have fits: "unat (mb_wpos mb) + length bytes \<le> length (mb_storage mb)"
    using assms(1,2) unat_remaining_space [OF assms(1)] by (auto simp: mb_ok_def)
  then have w: "unat (mb_wpos mb + n) = unat (mb_wpos mb) + length bytes"
    using assms by (subst unat_u16_plus) (auto simp: mb_ok_def)
  have "mb_rpos mb \<le> mb_wpos mb + n"
    using assms(1) w by (simp add: mb_ok_def word_le_nat_alt)
  then show ?thesis
    using assms fits w mb_ok_rpos_wpos [OF assms(1)]
    by (auto simp: mb_put_def mb_writeCompleted_def mb_ok_def mb_active_def)
qed

lemma mb_normalize_storage:
  assumes "mb_ok mb"
  shows "mb_ok (mb_normalize mb)" and "mb_rpos (mb_normalize mb) = 0"
    and "mb_active (mb_normalize mb) = mb_active mb"
    and "length (mb_storage (mb_normalize mb)) = length (mb_storage mb)"
proof -
  have le: "unat (mb_rpos mb) \<le> unat (mb_wpos mb)" "unat (mb_wpos mb) \<le> length (mb_storage mb)"
    using assms mb_ok_rpos_wpos by (auto simp: mb_ok_def)
  have act: "unat (mb_wpos mb - mb_rpos mb) = unat (mb_wpos mb) - unat (mb_rpos mb)"
    using assms by (simp add: mb_ok_def unat_u16_minus)
  show "mb_rpos (mb_normalize mb) = 0" by (simp add: mb_normalize_def Let_def)
  show "length (mb_storage (mb_normalize mb)) = length (mb_storage mb)"
    using le act by (simp add: mb_normalize_def Let_def mb_getActiveSize_def)
  show "mb_ok (mb_normalize mb)"
    using assms le act by (auto simp: mb_normalize_def Let_def mb_ok_def mb_getActiveSize_def)
  show "mb_active (mb_normalize mb) = mb_active mb"
    using assms le act
    by (auto simp: mb_normalize_def Let_def mb_active_def mb_getActiveSize_def write_at_def
        min_def drop_take)
qed

lemma mb_ensureFreeSpace_grows:
  assumes "mb_ok mb" and "mb_storage mb \<noteq> []"
    and "unat expectSize + unat (mb_getActiveSize mb) + length (mb_storage mb) \<le> 65536"
  shows "\<exists>mb'. mb_ensureFreeSpace expectSize mb = Inr mb' \<and> mb_ok mb'
    \<and> mb_active mb' = mb_active mb \<and> expectSize \<le> mb_getRemainingSpace mb'
    \<and> mb_rpos mb' = 0 \<and> length (mb_storage mb) \<le> length (mb_storage mb')
    \<and> (length (mb_storage mb') = length (mb_storage mb)
       \<or> length (mb_storage mb) < unat expectSize + unat (mb_getActiveSize mb)
         \<and> length (mb_storage mb') < unat expectSize + unat (mb_getActiveSize mb) + length (mb_storage mb))"
proof -
  define mb1 where "mb1 = mb_normalize mb"
  define size where "size = length (mb_storage mb1)"
  define need where "need = unat expectSize + unat (mb_getActiveSize mb1)"
  note n = mb_normalize_storage [OF assms(1)]
  have ok1: "mb_ok mb1" and r0: "mb_rpos mb1 = 0" and act1: "mb_active mb1 = mb_active mb"
    and size: "size = length (mb_storage mb)" "0 < size"
    using n assms(2) by (auto simp: mb1_def size_def)
  have as: "mb_getActiveSize mb1 = mb_getActiveSize mb"
    using length_mb_active [OF ok1] length_mb_active [OF assms(1)] act1
    by (simp add: word_unat_eq_iff)
  have w1: "unat (mb_wpos mb1) = unat (mb_getActiveSize mb1)"
    using unat_active_size [OF ok1] r0 by simp
  show ?thesis
  proof (cases "mb_getRemainingSpace mb1 < expectSize")
    case False
    then show ?thesis
      using ok1 r0 act1 size size_def
      by (auto simp: mb_ensureFreeSpace_def Let_def mb1_def [symmetric])
  next
    case True
    define newSize where "newSize = ((need + size - 1) div size) * size"
    have "newSize + (need + size - 1) mod size = need + size - 1"
      unfolding newSize_def by (rule div_mult_mod_eq)
    moreover have "(need + size - 1) mod size < size" using size(2) by simp
    ultimately have ge: "need \<le> newSize" and lt: "newSize \<le> need + size - 1"
      using size(2) by linarith+
    have "size - unat (mb_wpos mb1) < unat expectSize"
      using True unat_remaining_space [OF ok1] by (simp add: word_less_nat_alt size_def)
    then have more: "size < need" and grow: "size \<le> newSize" using ge w1 by (simp_all add: need_def)
    have small: "newSize < 65536" using lt assms(3) as size by (simp add: need_def)
    define mb' where "mb' = mb1\<lparr>mb_storage := mb_storage mb1 @ replicate (newSize - size) 0\<rparr>"
    have res: "mb_ensureFreeSpace expectSize mb = Inr mb'"
      using True size grow
      by (simp add: mb_ensureFreeSpace_def Let_def mb1_def [symmetric] size_def [symmetric] mb'_def
          newSize_def need_def)
    have "length (mb_storage mb') = newSize"
      using grow by (simp add: mb'_def size_def [symmetric])
    then have ok': "mb_ok mb'"
      using ok1 small grow by (auto simp: mb_ok_def mb'_def size_def)
    have "mb_active mb' = mb_active mb"
      using ok1 act1 by (simp add: mb'_def mb_active_def mb_ok_def)
    moreover have "expectSize \<le> mb_getRemainingSpace mb'"
      using unat_remaining_space [OF ok'] \<open>length (mb_storage mb') = newSize\<close> ge w1
      by (simp add: word_le_nat_alt mb'_def need_def)
    ultimately show ?thesis
      using res ok' r0 \<open>length (mb_storage mb') = newSize\<close> more lt grow size as
      by (auto simp: mb'_def need_def)
  qed
qed

text \<open>
  C17: \<^verbatim>\<open>ensureFreeSpace\<close> keeps its promise: on a well-formed non-empty buffer, for a
  request that keeps the grown vector within the 16-bit positions, it succeeds, the unread
  bytes are unchanged, the read position is back at the start, and the requested space is free.
\<close>

theorem ensure_free_space_correct:
  assumes "mb_ok mb" and "mb_storage mb \<noteq> []"
    and "unat expectSize + unat (mb_getActiveSize mb) + length (mb_storage mb) \<le> 65536"
  shows "\<exists>mb'. mb_ensureFreeSpace expectSize mb = Inr mb' \<and> mb_ok mb'
    \<and> mb_active mb' = mb_active mb \<and> expectSize \<le> mb_getRemainingSpace mb' \<and> mb_rpos mb' = 0"
  using mb_ensureFreeSpace_grows [OF assms] by blast

theorem ensure_free_space_correct_witness:
  "\<exists>mb'. mb_ensureFreeSpace 5 \<lparr>mb_rpos = 1, mb_wpos = 3, mb_storage = [7, 8, 9, 0], mb_timestamp = 0\<rparr>
      = Inr mb' \<and> mb_active mb' = [8, 9] \<and> 5 \<le> mb_getRemainingSpace mb'"
  using ensure_free_space_correct
    [of "\<lparr>mb_rpos = 1, mb_wpos = 3, mb_storage = [7, 8, 9, 0], mb_timestamp = 0\<rparr>" 5]
  by (auto simp: mb_ok_def mb_getActiveSize_def mb_active_def)

text \<open>
  A default constructed buffer cannot be grown: any request for space divides by the size of
  the empty vector.
\<close>

lemma ensure_free_space_default_divides_by_zero:
  "expectSize \<noteq> 0 \<Longrightarrow> mb_ensureFreeSpace expectSize mb_default = Inl DivisionByZero"
  by (simp add: mb_ensureFreeSpace_def mb_default_def mb_normalize_def mb_getRemainingSpace_def Let_def
      word_neq_0_conv)

end
