(* ===== verification/Basic_Packet.thy ===== *)
theory Basic_Packet
  imports Message_Buffer
begin

unbundle bit_operations_syntax

text \<open>
  \<^verbatim>\<open>BasicPacket\<close> of \<^verbatim>\<open>src/common/networking/BasicPacket.h\<close>: the unit of the
  game protocol, a four byte header (body size and opcode, big endian) and a body. The number
  of message types, a template argument of the class, is the parameter \<open>num\<close>. A protobuf
  message is its serialised bytes: \<^verbatim>\<open>ByteSizeLong\<close> is their number and
  \<^verbatim>\<open>SerializeWithCachedSizesToArray\<close> copies them; \<^verbatim>\<open>ParseFromArray\<close> is
  the parameter \<open>parse\<close>. A fresh array has unspecified content, which no operation reads
  before it is written; it is zero here.
\<close>

section \<open>State and operations\<close>

definition HEADER_BYTE_SIZE :: u16 where "HEADER_BYTE_SIZE = 4"
definition MAX_BODY_BYTE_SIZE :: u16 where "MAX_BODY_BYTE_SIZE = 8192"
definition INVALID_OPCODE :: u16 where "INVALID_OPCODE = 0"
definition DEFAULT_BUFFER_SIZE :: nat where "DEFAULT_BUFFER_SIZE = 1024"

record basic_packet =
  pk_bodySize :: u16
  pk_opcode :: u16
  pk_bufferSize :: u16
  pk_buffer :: "u8 list option"
  pk_timestamp :: int

definition pk_new :: "u16 \<Rightarrow> basic_packet" where
  "pk_new opcode =
     \<lparr>pk_bodySize = 0, pk_opcode = opcode, pk_bufferSize = 0, pk_buffer = None, pk_timestamp = 0\<rparr>"

definition pk_default :: basic_packet where
  "pk_default = pk_new INVALID_OPCODE"

definition pk_move :: "basic_packet \<Rightarrow> basic_packet \<Rightarrow> basic_packet \<times> basic_packet" where
  \<comment> \<open>all five fields are swapped: the new \<^verbatim>\<open>*this\<close> and the new \<^verbatim>\<open>right\<close>\<close>
  "pk_move right this = (right, this)"

definition pk_hasBody :: "basic_packet \<Rightarrow> bool" where
  "pk_hasBody pk = (0 < pk_bodySize pk)"

definition pk_getByteSize :: "basic_packet \<Rightarrow> u16" where
  "pk_getByteSize pk = HEADER_BYTE_SIZE + pk_bodySize pk"

definition pk_deallocBuffer :: "basic_packet \<Rightarrow> basic_packet" where
  "pk_deallocBuffer pk = pk\<lparr>pk_buffer := None\<rparr>"

definition pk_realSize :: "u16 \<Rightarrow> u16" where
  "pk_realSize sz =
     (if DEFAULT_BUFFER_SIZE < unat sz
      then of_nat (((unat sz + DEFAULT_BUFFER_SIZE - 1) div DEFAULT_BUFFER_SIZE) * DEFAULT_BUFFER_SIZE)
      else of_nat DEFAULT_BUFFER_SIZE)"

definition pk_allocBufferIfNeeded :: "u16 \<Rightarrow> basic_packet \<Rightarrow> basic_packet" where
  "pk_allocBufferIfNeeded sz pk =
     (if pk_buffer pk \<noteq> None \<and> sz \<le> pk_bufferSize pk then pk
      else let pk1 = pk_deallocBuffer pk; realSize = pk_realSize sz
           in pk1\<lparr>pk_bufferSize := realSize, pk_buffer := Some (replicate (unat realSize) 0)\<rparr>)"

definition pk_store :: "u8 list \<Rightarrow> basic_packet \<Rightarrow> net_error + basic_packet" where
  \<comment> \<open>copying bytes to \<^verbatim>\<open>getBodyPointer()\<close>\<close>
  "pk_store bytes pk =
     (case pk_buffer pk of
        None \<Rightarrow> Inl OutOfBounds
      | Some buf \<Rightarrow> if length bytes \<le> length buf then Inr (pk\<lparr>pk_buffer := Some (write_at 0 bytes buf)\<rparr>)
                   else Inl OutOfBounds)"

definition pk_load :: "basic_packet \<Rightarrow> net_error + u8 list" where
  \<comment> \<open>reading \<^verbatim>\<open>getBodyBytes()\<close> bytes from \<^verbatim>\<open>getBodyPointer()\<close>\<close>
  "pk_load pk =
     (case pk_buffer pk of
        None \<Rightarrow> Inl OutOfBounds
      | Some buf \<Rightarrow> if unat (pk_bodySize pk) \<le> length buf then Inr (take (unat (pk_bodySize pk)) buf)
                   else Inl OutOfBounds)"

definition pk_pack :: "u8 list \<Rightarrow> basic_packet \<Rightarrow> net_error + basic_packet" where
  "pk_pack message pk =
     (let pk1 = pk\<lparr>pk_bodySize := of_nat (length message)\<rparr>;
          pk2 = pk_allocBufferIfNeeded (pk_bodySize pk1) pk1
      in pk_store message pk2)"

definition pk_unpack :: "(u8 list \<Rightarrow> 'm option) \<Rightarrow> 'm \<Rightarrow> basic_packet \<Rightarrow> net_error + 'm" where
  "pk_unpack parse message pk =
     (if pk_hasBody pk
      then (case pk_load pk of
              Inl e \<Rightarrow> Inl e
            | Inr bytes \<Rightarrow> (case parse bytes of None \<Rightarrow> Inl PacketException | Some m \<Rightarrow> Inr m))
      else Inr message)"

definition pk_header :: "basic_packet \<Rightarrow> u8 list" where
  "pk_header pk =
     [ucast (0xFF AND drop_bit 8 (pk_bodySize pk)), ucast (0xFF AND pk_bodySize pk),
      ucast (0xFF AND drop_bit 8 (pk_opcode pk)), ucast (0xFF AND pk_opcode pk)]"

definition pk_encodeHeader :: "basic_packet \<Rightarrow> net_error + u8 list" where
  "pk_encodeHeader pk = (if pk_opcode pk = INVALID_OPCODE then Inl AssertionFailed else Inr (pk_header pk))"

definition pk_write :: "basic_packet \<Rightarrow> message_buffer \<Rightarrow> net_error + message_buffer" where
  "pk_write pk buff =
     (case pk_encodeHeader pk of
        Inl e \<Rightarrow> Inl e
      | Inr header \<Rightarrow>
          (case mb_put header buff of
             Inl e \<Rightarrow> Inl e
           | Inr buff1 \<Rightarrow>
               let buff2 = mb_writeCompleted HEADER_BYTE_SIZE buff1
               in if pk_hasBody pk
                  then (case pk_load pk of
                          Inl e \<Rightarrow> Inl e
                        | Inr body \<Rightarrow>
                            (case mb_put body buff2 of
                               Inl e \<Rightarrow> Inl e
                             | Inr buff3 \<Rightarrow> Inr (mb_writeCompleted (pk_bodySize pk) buff3)))
                  else Inr buff2))"

definition pk_be16 :: "u8 \<Rightarrow> u8 \<Rightarrow> u16" where
  "pk_be16 hi lo = (push_bit 8 (ucast hi) AND 0xFF00) OR (ucast lo AND 0xFF)"

definition pk_decodeHeader ::
    "nat \<Rightarrow> basic_packet \<Rightarrow> message_buffer \<Rightarrow> net_error + basic_packet \<times> message_buffer" where
  "pk_decodeHeader num pk buff =
     (case mb_peek 4 buff of
        Inl e \<Rightarrow> Inl e
      | Inr bs \<Rightarrow>
          let size = pk_be16 (bs ! 0) (bs ! 1); opcode = pk_be16 (bs ! 2) (bs ! 3)
          in if MAX_BODY_BYTE_SIZE < size then Inl PacketException
             else if num \<le> unat opcode then Inl PacketException
             else Inr (pk\<lparr>pk_bodySize := size, pk_opcode := opcode\<rparr>,
                       mb_readCompleted HEADER_BYTE_SIZE buff))"

definition pk_readBody ::
    "basic_packet \<Rightarrow> message_buffer \<Rightarrow> net_error + basic_packet \<times> message_buffer" where
  "pk_readBody pk buff =
     (if \<not> pk_hasBody pk then Inr (pk, buff)
      else let pk1 = pk_allocBufferIfNeeded (pk_bodySize pk) pk
           in (case mb_peek (unat (pk_bodySize pk1)) buff of
                 Inl e \<Rightarrow> Inl e
               | Inr bytes \<Rightarrow>
                   (case pk_store bytes pk1 of
                      Inl e \<Rightarrow> Inl e
                    | Inr pk2 \<Rightarrow> Inr (pk2, mb_readCompleted (pk_bodySize pk2) buff))))"

section \<open>Invariant and content\<close>

definition pk_ok :: "basic_packet \<Rightarrow> bool" where
  "pk_ok pk \<longleftrightarrow> (\<forall>buf. pk_buffer pk = Some buf \<longrightarrow> length buf = unat (pk_bufferSize pk))
     \<and> (pk_hasBody pk \<longrightarrow> (\<exists>buf. pk_buffer pk = Some buf \<and> unat (pk_bodySize pk) \<le> length buf))"

definition pk_body :: "basic_packet \<Rightarrow> u8 list" where
  "pk_body pk = (case pk_buffer pk of None \<Rightarrow> [] | Some buf \<Rightarrow> take (unat (pk_bodySize pk)) buf)"

definition pk_bytes :: "basic_packet \<Rightarrow> u8 list" where
  \<comment> \<open>the packet as it travels\<close>
  "pk_bytes pk = pk_header pk @ pk_body pk"

lemma length_pk_header [simp]: "length (pk_header pk) = 4"
  by (simp add: pk_header_def)

lemma pk_body_empty: "\<not> pk_hasBody pk \<Longrightarrow> pk_body pk = []"
  by (auto simp: pk_hasBody_def pk_body_def word_neq_0_conv [symmetric] split: option.splits)

lemma pk_load_ok: "pk_ok pk \<Longrightarrow> pk_hasBody pk \<Longrightarrow> pk_load pk = Inr (pk_body pk)"
  by (auto simp: pk_ok_def pk_load_def pk_body_def)

lemma length_pk_body: "pk_ok pk \<Longrightarrow> length (pk_body pk) = unat (pk_bodySize pk)"
  by (cases "pk_hasBody pk")
     (auto simp: pk_ok_def pk_body_def pk_hasBody_def word_neq_0_conv [symmetric] split: option.splits)

lemma length_pk_bytes: "pk_ok pk \<Longrightarrow> length (pk_bytes pk) = 4 + unat (pk_bodySize pk)"
  by (simp add: pk_bytes_def length_pk_body)

lemma pk_new_ok [simp]: "pk_ok (pk_new opcode)" "pk_body (pk_new opcode) = []"
  by (auto simp: pk_ok_def pk_new_def pk_hasBody_def pk_body_def)

lemma unat_pk_realSize:
  assumes "unat sz \<le> 64512"
  shows "unat sz \<le> unat (pk_realSize sz)"
proof -
  let ?n = "((unat sz + 1023) div 1024) * 1024"
  have "unat sz \<le> ?n" "?n < 65536" using assms by arith+
  then have n: "unat (of_nat ?n :: u16) = ?n" by (intro unat_u16_of_nat)
  show ?thesis
  proof (cases "1024 < unat sz")
    case True
    then have "pk_realSize sz = of_nat ?n"
      by (simp add: pk_realSize_def DEFAULT_BUFFER_SIZE_def add.commute del: of_nat_mult)
    with n \<open>unat sz \<le> ?n\<close> show ?thesis by presburger
  next
    case False
    then show ?thesis by (simp add: pk_realSize_def DEFAULT_BUFFER_SIZE_def)
  qed
qed

lemma pk_alloc_ok:
  assumes "pk_ok (pk\<lparr>pk_bodySize := 0\<rparr>)" and "unat sz \<le> 64512"
  shows "\<exists>buf. pk_buffer (pk_allocBufferIfNeeded sz pk) = Some buf
    \<and> length buf = unat (pk_bufferSize (pk_allocBufferIfNeeded sz pk)) \<and> unat sz \<le> length buf"
    and "pk_bodySize (pk_allocBufferIfNeeded sz pk) = pk_bodySize pk"
    and "pk_opcode (pk_allocBufferIfNeeded sz pk) = pk_opcode pk"
  using assms unat_pk_realSize [OF assms(2)]
  by (auto simp: pk_allocBufferIfNeeded_def pk_deallocBuffer_def pk_ok_def Let_def word_le_nat_alt)

lemma pk_ok_bodySize_0: "pk_ok pk \<Longrightarrow> pk_ok (pk\<lparr>pk_bodySize := n, pk_bodySize := 0\<rparr>)"
  by (auto simp: pk_ok_def pk_hasBody_def)

lemma pk_be16_header: "pk_be16 (ucast (0xFF AND drop_bit 8 x)) (ucast (0xFF AND x)) = x"
proof -
  have masks: "(0xFF :: u16) = mask 8" "(0xFF00 :: u16) = push_bit 8 (mask 8)"
    by (simp_all add: mask_eq_exp_minus_1)
  show ?thesis
    unfolding pk_be16_def masks by (rule bit_word_eqI) (auto simp: bit_simps)
qed

lemma pk_pack_spec:
  assumes "pk_ok pk" and "length message \<le> 64512"
  shows "\<exists>pk'. pk_pack message pk = Inr pk' \<and> pk_ok pk' \<and> pk_body pk' = message
    \<and> pk_opcode pk' = pk_opcode pk \<and> unat (pk_bodySize pk') = length message"
proof -
  let ?n = "of_nat (length message) :: u16"
  have n: "unat ?n = length message" using assms(2) by (simp add: unat_u16_of_nat)
  obtain buf where
    "pk_buffer (pk_allocBufferIfNeeded ?n (pk\<lparr>pk_bodySize := ?n\<rparr>)) = Some buf"
    "length buf = unat (pk_bufferSize (pk_allocBufferIfNeeded ?n (pk\<lparr>pk_bodySize := ?n\<rparr>)))"
    "length message \<le> length buf"
    using pk_alloc_ok(1) [of "pk\<lparr>pk_bodySize := ?n\<rparr>" ?n] pk_ok_bodySize_0 [OF assms(1)] n assms(2)
    by auto
  then show ?thesis
    using n pk_alloc_ok(2,3) [of "pk\<lparr>pk_bodySize := ?n\<rparr>" ?n] pk_ok_bodySize_0 [OF assms(1)] assms(2)
    by (auto simp: pk_pack_def pk_store_def Let_def pk_ok_def pk_body_def write_at_def)
qed

lemma pk_write_spec:
  assumes "mb_ok buff" and "pk_ok pk" and "pk_opcode pk \<noteq> INVALID_OPCODE"
    and "4 + unat (pk_bodySize pk) \<le> unat (mb_getRemainingSpace buff)"
  shows "\<exists>buff'. pk_write pk buff = Inr buff' \<and> mb_ok buff' \<and> mb_active buff' = mb_active buff @ pk_bytes pk
    \<and> length (mb_storage buff') = length (mb_storage buff)"
proof -
  obtain b1 where b1: "mb_put (pk_header pk) buff = Inr b1"
    "mb_ok (mb_writeCompleted HEADER_BYTE_SIZE b1)"
    "mb_active (mb_writeCompleted HEADER_BYTE_SIZE b1) = mb_active buff @ pk_header pk"
    "mb_wpos (mb_writeCompleted HEADER_BYTE_SIZE b1) = mb_wpos buff + HEADER_BYTE_SIZE"
    "length (mb_storage (mb_writeCompleted HEADER_BYTE_SIZE b1)) = length (mb_storage buff)"
    using mb_put_ok [OF assms(1), of "pk_header pk" HEADER_BYTE_SIZE] assms(4)
    by (auto simp: HEADER_BYTE_SIZE_def)
  let ?b2 = "mb_writeCompleted HEADER_BYTE_SIZE b1"
  have room: "unat (mb_wpos buff) + 4 + unat (pk_bodySize pk) \<le> length (mb_storage buff)"
    using assms(1,4) unat_remaining_space [OF assms(1)] by (auto simp: mb_ok_def)
  then have w2: "unat (mb_wpos ?b2) = unat (mb_wpos buff) + 4"
    using b1(4) assms(1) unat_u16_plus [of "mb_wpos buff" HEADER_BYTE_SIZE]
    by (auto simp: HEADER_BYTE_SIZE_def mb_ok_def)
  show ?thesis
  proof (cases "pk_hasBody pk")
    case False
    with b1 assms(3) show ?thesis
      by (simp add: pk_write_def pk_encodeHeader_def Let_def pk_bytes_def pk_body_empty)
  next
    case True
    have "length (pk_body pk) \<le> unat (mb_getRemainingSpace ?b2)"
      using room w2 b1(2,5) by (simp add: unat_remaining_space length_pk_body [OF assms(2)])
    then obtain b3 where "mb_put (pk_body pk) ?b2 = Inr b3" "mb_ok (mb_writeCompleted (pk_bodySize pk) b3)"
      "mb_active (mb_writeCompleted (pk_bodySize pk) b3) = mb_active ?b2 @ pk_body pk"
      "length (mb_storage (mb_writeCompleted (pk_bodySize pk) b3)) = length (mb_storage ?b2)"
      using mb_put_ok [OF b1(2) _ length_pk_body [OF assms(2), symmetric]] by blast
    with b1 True assms(2,3) show ?thesis
      by (simp add: pk_write_def pk_encodeHeader_def Let_def pk_bytes_def pk_load_ok)
  qed
qed

section \<open>Reading what was written\<close>

lemma mb_peek_active:
  assumes "mb_ok buff" and "mb_active buff = xs @ rest"
  shows "mb_peek (length xs) buff = Inr xs"
    and "unat n = length xs \<Longrightarrow> mb_ok (mb_readCompleted n buff)"
    and "unat n = length xs \<Longrightarrow> mb_active (mb_readCompleted n buff) = rest"
    and "unat n = length xs \<Longrightarrow> length rest = unat (mb_wpos buff) - unat (mb_rpos (mb_readCompleted n buff))"
proof -
  let ?r = "unat (mb_rpos buff)" and ?w = "unat (mb_wpos buff)"
  have le: "?r \<le> ?w" "?w \<le> length (mb_storage buff)"
    using assms(1) mb_ok_rpos_wpos by (auto simp: mb_ok_def)
  have len: "length xs + length rest = ?w - ?r"
    using arg_cong [OF assms(2), of length] le by (simp add: mb_active_def)
  have "take (length xs) (mb_active buff) = xs" using assms(2) by simp
  then have "take (length xs) (drop ?r (mb_storage buff)) = xs"
    using len by (simp add: mb_active_def drop_take)
  then show "mb_peek (length xs) buff = Inr xs"
    using le len by (auto simp: mb_peek_def)
  assume n: "unat n = length xs"
  have r: "unat (mb_rpos buff + n) = ?r + length xs"
    using n le len unat_u16_less [of "mb_wpos buff"] unat_u16_plus [of "mb_rpos buff" n] by linarith
  show "mb_ok (mb_readCompleted n buff)"
    using assms(1) r le len by (auto simp: mb_ok_def mb_readCompleted_def word_le_nat_alt)
  have "drop (length xs) (mb_active buff) = rest" using assms(2) by simp
  then show "mb_active (mb_readCompleted n buff) = rest"
    using r by (simp add: mb_active_def mb_readCompleted_def add.commute)
  show "length rest = ?w - unat (mb_rpos (mb_readCompleted n buff))"
    using r len by (simp add: mb_readCompleted_def)
qed

lemma pk_decodeHeader_spec:
  assumes "mb_ok buff" and "mb_active buff = pk_header pk @ rest"
    and "pk_bodySize pk \<le> MAX_BODY_BYTE_SIZE" and "unat (pk_opcode pk) < num"
  shows "pk_decodeHeader num pk0 buff =
     Inr (pk0\<lparr>pk_bodySize := pk_bodySize pk, pk_opcode := pk_opcode pk\<rparr>, mb_readCompleted HEADER_BYTE_SIZE buff)"
proof -
  have "mb_peek 4 buff = Inr (pk_header pk)"
    using mb_peek_active(1) [OF assms(1,2)] by simp
  then show ?thesis
    using assms(3,4) by (simp add: pk_decodeHeader_def pk_header_def pk_be16_header Let_def not_less)
qed

lemma pk_readBody_spec:
  assumes "mb_ok buff" and "mb_active buff = body @ rest" and "length body = unat (pk_bodySize pk)"
    and "pk_ok (pk\<lparr>pk_bodySize := 0\<rparr>)" and "pk_bodySize pk \<le> MAX_BODY_BYTE_SIZE"
  shows "\<exists>pk' buff'. pk_readBody pk buff = Inr (pk', buff') \<and> pk_ok pk' \<and> pk_body pk' = body
    \<and> pk_opcode pk' = pk_opcode pk \<and> mb_ok buff' \<and> mb_active buff' = rest"
proof (cases "pk_hasBody pk")
  case False
  then have "pk_bodySize pk = 0" by (simp add: pk_hasBody_def word_gt_0)
  with False assms show ?thesis
    by (auto simp: pk_readBody_def pk_body_empty pk_ok_def pk_hasBody_def)
next
  case True
  have small: "unat (pk_bodySize pk) \<le> 64512"
    using assms(5) by (simp add: word_le_nat_alt MAX_BODY_BYTE_SIZE_def)
  note al = pk_alloc_ok [OF assms(4) small]
  obtain buf where buf: "pk_buffer (pk_allocBufferIfNeeded (pk_bodySize pk) pk) = Some buf"
    "length buf = unat (pk_bufferSize (pk_allocBufferIfNeeded (pk_bodySize pk) pk))"
    "length body \<le> length buf"
    using al(1) assms(3) by auto
  note pe = mb_peek_active [OF assms(1,2)]
  show ?thesis
    using True buf al(2,3) pe(1) pe(2,3) [of "pk_bodySize pk"] assms(3)
    by (auto simp: pk_readBody_def Let_def pk_store_def pk_ok_def pk_body_def write_at_def)
qed

text \<open>
  C6: Wire round trip: a packet with a valid opcode and a body of at most
  \<^verbatim>\<open>MAX_BODY_BYTE_SIZE\<close> bytes that is written to an empty buffer with room for it is
  read back by \<^verbatim>\<open>decodeHeader\<close> and \<^verbatim>\<open>readBody\<close> with the same opcode and
  body, and every byte is consumed.
\<close>

theorem packet_wire_roundtrip:
  assumes "pk_ok pk" and "pk_opcode pk \<noteq> INVALID_OPCODE" and "unat (pk_opcode pk) < num"
    and "pk_bodySize pk \<le> MAX_BODY_BYTE_SIZE" and "pk_ok pk0"
    and "mb_ok buff" and "mb_active buff = []"
    and "4 + unat (pk_bodySize pk) \<le> unat (mb_getRemainingSpace buff)"
  shows "\<exists>b1 p2 b2 p3 b3. pk_write pk buff = Inr b1 \<and> pk_decodeHeader num pk0 b1 = Inr (p2, b2)
    \<and> pk_readBody p2 b2 = Inr (p3, b3) \<and> pk_opcode p3 = pk_opcode pk \<and> pk_body p3 = pk_body pk
    \<and> mb_active b3 = []"
proof -
  obtain b1 where b1: "pk_write pk buff = Inr b1" "mb_ok b1" "mb_active b1 = pk_header pk @ pk_body pk"
    using pk_write_spec [OF assms(6,1,2,8)] assms(7) by (auto simp: pk_bytes_def)
  let ?p2 = "pk0\<lparr>pk_bodySize := pk_bodySize pk, pk_opcode := pk_opcode pk\<rparr>"
  let ?b2 = "mb_readCompleted HEADER_BYTE_SIZE b1"
  note dec = pk_decodeHeader_spec [OF b1(2,3) assms(4,3)]
  have "unat HEADER_BYTE_SIZE = length (pk_header pk)"
    by (simp add: HEADER_BYTE_SIZE_def)
  then have b2: "mb_ok ?b2" "mb_active ?b2 = pk_body pk @ []"
    using mb_peek_active(2,3) [OF b1(2,3)] by auto
  have "pk_ok (?p2\<lparr>pk_bodySize := 0\<rparr>)"
    using assms(5) by (auto simp: pk_ok_def pk_hasBody_def)
  then show ?thesis
    using pk_readBody_spec [OF b2, of ?p2] length_pk_body [OF assms(1)] assms(4) b1(1) dec
    by fastforce
qed

theorem packet_wire_roundtrip_witness:
  "\<exists>b1 p2 b2 p3 b3.
     pk_write \<lparr>pk_bodySize = 2, pk_opcode = 3, pk_bufferSize = 2, pk_buffer = Some [5, 6], pk_timestamp = 0\<rparr>
       (mb_new 16) = Inr b1
     \<and> pk_decodeHeader 10 pk_default b1 = Inr (p2, b2) \<and> pk_readBody p2 b2 = Inr (p3, b3)
     \<and> pk_opcode p3 = 3 \<and> pk_body p3 = [5, 6] \<and> mb_active b3 = []"
  using packet_wire_roundtrip
    [of "\<lparr>pk_bodySize = 2, pk_opcode = 3, pk_bufferSize = 2, pk_buffer = Some [5, 6], pk_timestamp = 0\<rparr>"
        10 pk_default "mb_new 16"]
  by (simp add: pk_ok_def [of "\<lparr>pk_bodySize = _, pk_opcode = _, pk_bufferSize = _, pk_buffer = _, pk_timestamp = _\<rparr>"]
      pk_hasBody_def pk_body_def [of "\<lparr>pk_bodySize = _, pk_opcode = _, pk_bufferSize = _, pk_buffer = _, pk_timestamp = _\<rparr>"]
      INVALID_OPCODE_def MAX_BODY_BYTE_SIZE_def pk_default_def unat_remaining_space)

text \<open>
  \<^verbatim>\<open>pack\<close> writes outside its buffer for messages of 64513 to 65535 bytes: the
  size rounded up to a multiple of \<^verbatim>\<open>DEFAULT_BUFFER_SIZE\<close> is 65536, which is stored as
  0 in the 16-bit \<^verbatim>\<open>realSize\<close>, so an empty array is allocated.
\<close>

theorem pack_overflows_small_buffer:
  assumes "64512 < length message" and "length message < 65536"
  shows "pk_pack message (pk_new opcode) = Inl OutOfBounds"
proof -
  let ?n = "of_nat (length message) :: u16"
  have n: "unat ?n = length message" using assms(2) by (rule unat_u16_of_nat)
  have "(length message + 1023) div 1024 = 64"
    by (rule div_nat_eqI) (use assms in simp_all)
  moreover have "pk_realSize ?n = of_nat ((length message + 1023) div 1024 * 1024)"
    using n assms by (simp add: pk_realSize_def DEFAULT_BUFFER_SIZE_def add.commute del: of_nat_mult)
  moreover have "(of_nat (64 * 1024) :: u16) = 0"
    by (simp only: word_unat_eq_iff unat_of_nat take_bit_eq_mod) simp
  ultimately have "pk_realSize ?n = 0" by presburger
  then show ?thesis
    using assms by (auto simp: pk_pack_def pk_new_def pk_allocBufferIfNeeded_def pk_deallocBuffer_def pk_store_def Let_def)
qed

theorem pack_overflows_small_buffer_witness:
  "pk_pack (replicate 65000 1) (pk_new 5) = Inl OutOfBounds"
proof (rule pack_overflows_small_buffer)
  have "length (replicate 65000 (1 :: u8)) = 65000" by (rule length_replicate)
  then show "64512 < length (replicate 65000 (1 :: u8))" "length (replicate 65000 (1 :: u8)) < 65536"
    by linarith+
qed

end
