(* ===== verification/Queues.thy ===== *)
theory Queues
  imports Prelude
begin

text \<open>
  The two thread-safe queues of \<^verbatim>\<open>src/common/containers\<close>. Every operation of
  \<^verbatim>\<open>ConcurrentQueue\<close> and \<^verbatim>\<open>BlockingQueue\<close> runs under the queue's
  mutex, so the calls of all threads form one sequence of atomic operations; the model has
  one function per operation on the queue's state, and the interleavings are the sequences
  of operations. What clients rely on is the locale \<open>fifo_queue\<close>, interpreted below by
  both classes.
\<close>

section \<open>The contract\<close>

datatype 'a queue_op = QAdd 'a | QNext

locale fifo_queue =
  fixes items :: "'q \<Rightarrow> 'a list"
    and live :: "'q \<Rightarrow> bool"
    and add :: "'a \<Rightarrow> 'q \<Rightarrow> 'q"
    and take_next :: "'q \<Rightarrow> 'a option \<times> 'q"
  assumes items_add: "live q \<Longrightarrow> items (add x q) = items q @ [x]"
    and live_add: "live q \<Longrightarrow> live (add x q)"
    and next_Nil: "live q \<Longrightarrow> items q = [] \<Longrightarrow> take_next q = (None, q)"
    and next_Cons: "live q \<Longrightarrow> items q = x # xs \<Longrightarrow>
          fst (take_next q) = Some x \<and> items (snd (take_next q)) = xs \<and> live (snd (take_next q))"
begin

text \<open>Any interleaving of producers and consumers, with the values the consumers received.\<close>

fun run :: "'a queue_op list \<Rightarrow> 'q \<Rightarrow> 'a list \<times> 'q" where
  "run [] q = ([], q)"
| "run (QAdd x # ops) q = run ops (add x q)"
| "run (QNext # ops) q =
     (case take_next q of
        (None, q') \<Rightarrow> run ops q'
      | (Some x, q') \<Rightarrow> (case run ops q' of (ys, q'') \<Rightarrow> (x # ys, q'')))"

fun added :: "'a queue_op list \<Rightarrow> 'a list" where
  "added [] = []"
| "added (QAdd x # ops) = x # added ops"
| "added (QNext # ops) = added ops"

lemma run_fifo:
  "live q \<Longrightarrow> fst (run ops q) @ items (snd (run ops q)) = items q @ added ops
     \<and> live (snd (run ops q))"
proof (induction ops arbitrary: q rule: added.induct)
  case 1
  then show ?case by simp
next
  case (2 x ops)
  then show ?case using "2.IH" [OF live_add [OF "2.prems"]] by (simp add: items_add)
next
  case (3 ops)
  show ?case
  proof (cases "items q")
    case Nil
    with 3 show ?thesis by (simp add: next_Nil)
  next
    case (Cons x xs)
    obtain q' where n: "take_next q = (Some x, q')" "items q' = xs" "live q'"
      using next_Cons [OF "3.prems" Cons] by (cases "take_next q") auto
    show ?thesis
      using "3.IH" [OF n(3)] n Cons by (auto split: prod.splits)
  qed
qed

text \<open>The loop \<^verbatim>\<open>while (queue.next(x)) \<dots>\<close>: with enough turns it empties the queue.\<close>

fun drain :: "nat \<Rightarrow> 'q \<Rightarrow> 'a list \<times> 'q" where
  "drain 0 q = ([], q)"
| "drain (Suc n) q =
     (case take_next q of
        (None, q') \<Rightarrow> ([], q')
      | (Some x, q') \<Rightarrow> (case drain n q' of (ys, q'') \<Rightarrow> (x # ys, q'')))"

lemma drain_all:
  "live q \<Longrightarrow> length (items q) \<le> n \<Longrightarrow>
     fst (drain n q) = items q \<and> items (snd (drain n q)) = []"
proof (induction n arbitrary: q)
  case 0
  then show ?case by simp
next
  case (Suc n)
  show ?case
  proof (cases "items q")
    case Nil
    with Suc.prems show ?thesis by (simp add: next_Nil)
  next
    case (Cons x xs)
    obtain q' where n: "take_next q = (Some x, q')" "items q' = xs" "live q'"
      using next_Cons [OF Suc.prems(1) Cons] by (cases "take_next q") auto
    show ?thesis
      using Suc.IH [of q'] n Cons Suc.prems(2) by (auto split: prod.splits)
  qed
qed

end

section \<open>ConcurrentQueue\<close>

record 'a concurrent_queue =
  cq_container :: "'a list"

definition cq_new :: "'a concurrent_queue" where
  "cq_new = \<lparr>cq_container = []\<rparr>"

definition cq_next :: "'a concurrent_queue \<Rightarrow> 'a option \<times> 'a concurrent_queue" where
  "cq_next q = (case cq_container q of [] \<Rightarrow> (None, q) | x # xs \<Rightarrow> (Some x, q\<lparr>cq_container := xs\<rparr>))"

definition cq_add :: "'a \<Rightarrow> 'a concurrent_queue \<Rightarrow> 'a concurrent_queue" where
  "cq_add x q = q\<lparr>cq_container := cq_container q @ [x]\<rparr>"

definition cq_clear :: "'a concurrent_queue \<Rightarrow> 'a concurrent_queue" where
  "cq_clear q = q\<lparr>cq_container := []\<rparr>"

definition cq_empty :: "'a concurrent_queue \<Rightarrow> bool" where
  "cq_empty q = (cq_container q = [])"

definition cq_size :: "'a concurrent_queue \<Rightarrow> nat" where
  "cq_size q = length (cq_container q)"

interpretation cq: fifo_queue cq_container "\<lambda>_. True" cq_add cq_next
  by unfold_locales (auto simp: cq_add_def cq_next_def split: list.splits)

lemma cq_next_None [simp]: "cq_next q = (None, q') \<longleftrightarrow> cq_container q = [] \<and> q' = q"
  by (auto simp: cq_next_def split: list.splits)

lemma cq_next_Some:
  "cq_next q = (Some x, q') \<longleftrightarrow>
     (\<exists>xs. cq_container q = x # xs \<and> q' = q\<lparr>cq_container := xs\<rparr>)"
  by (auto simp: cq_next_def split: list.splits)

section \<open>BlockingQueue\<close>

text \<open>
  \<^verbatim>\<open>waitAndPop\<close> sleeps on the condition variable while the queue is empty and not shut
  down. \<open>Blocked\<close> is the outcome of a call that would still be asleep in the given state;
  a wake-up is a later call in a later state. \<^verbatim>\<open>cancel\<close> also returns the elements it
  released with \<^verbatim>\<open>deleteElement\<close>.
\<close>

record 'a blocking_queue =
  bq_queue :: "'a list"
  bq_shutdown :: bool

datatype 'a wait_result = Blocked | Refused | Popped 'a

definition bq_new :: "'a blocking_queue" where
  "bq_new = \<lparr>bq_queue = [], bq_shutdown = False\<rparr>"

definition bq_push :: "'a \<Rightarrow> 'a blocking_queue \<Rightarrow> 'a blocking_queue" where
  "bq_push x q = q\<lparr>bq_queue := bq_queue q @ [x]\<rparr>"

definition bq_empty :: "'a blocking_queue \<Rightarrow> bool" where
  "bq_empty q = (bq_queue q = [])"

definition bq_size :: "'a blocking_queue \<Rightarrow> nat" where
  "bq_size q = length (bq_queue q)"

definition bq_pop :: "'a blocking_queue \<Rightarrow> 'a option \<times> 'a blocking_queue" where
  "bq_pop q =
     (if bq_queue q = [] \<or> bq_shutdown q then (None, q)
      else (Some (hd (bq_queue q)), q\<lparr>bq_queue := tl (bq_queue q)\<rparr>))"

definition bq_waitAndPop :: "'a blocking_queue \<Rightarrow> 'a wait_result \<times> 'a blocking_queue" where
  "bq_waitAndPop q =
     (if bq_queue q = [] \<and> \<not> bq_shutdown q then (Blocked, q)
      else if bq_queue q = [] \<or> bq_shutdown q then (Refused, q)
      else (Popped (hd (bq_queue q)), q\<lparr>bq_queue := tl (bq_queue q)\<rparr>))"

fun bq_cancel_loop :: "'a list \<Rightarrow> 'a list \<Rightarrow> 'a list" where
  "bq_cancel_loop deleted [] = deleted"
| "bq_cancel_loop deleted (x # xs) = bq_cancel_loop (deleted @ [x]) xs"

definition bq_cancel :: "'a blocking_queue \<Rightarrow> 'a list \<times> 'a blocking_queue" where
  "bq_cancel q = (bq_cancel_loop [] (bq_queue q), q\<lparr>bq_queue := [], bq_shutdown := True\<rparr>)"

interpretation bq: fifo_queue bq_queue "\<lambda>q. \<not> bq_shutdown q" bq_push bq_pop
  by unfold_locales (auto simp: bq_push_def bq_pop_def)

lemma bq_cancel_loop_all: "bq_cancel_loop ds xs = ds @ xs"
  by (induction xs arbitrary: ds) auto

lemma bq_waitAndPop_pop:
  "bq_queue q \<noteq> [] \<Longrightarrow> \<not> bq_shutdown q \<Longrightarrow>
     bq_waitAndPop q = (Popped (the (fst (bq_pop q))), snd (bq_pop q))"
  by (simp add: bq_waitAndPop_def bq_pop_def)

fun bq_step :: "'a queue_op \<Rightarrow> 'a blocking_queue \<Rightarrow> 'a blocking_queue" where
  "bq_step (QAdd x) q = bq_push x q"
| "bq_step QNext q = snd (bq_waitAndPop q)"

lemma bq_shutdown_stays: "bq_shutdown q \<Longrightarrow> bq_shutdown (fold bq_step ops q)"
proof (rule fold_invariant [where P = bq_shutdown])
  fix op and q' :: "'a blocking_queue"
  assume "bq_shutdown q'"
  then show "bq_shutdown (bq_step op q')"
    by (cases op) (auto simp: bq_push_def bq_waitAndPop_def)
qed

text \<open>
  C14: Whatever the threads do to a \<^verbatim>\<open>ConcurrentQueue\<close>, in any interleaving, nothing
  is lost, duplicated or reordered: the elements handed out, followed by those still queued,
  are the initial elements followed by the added ones.
\<close>

theorem concurrent_queue_linearizes:
  "fst (cq.run ops q) @ cq_container (snd (cq.run ops q)) = cq_container q @ cq.added ops"
  using cq.run_fifo [where q = q and ops = ops] by simp

text \<open>
  \<^verbatim>\<open>BlockingQueue::cancel\<close> releases exactly the queued elements, and after it no
  consumer sleeps and none receives an element, whatever is still pushed: every later
  \<^verbatim>\<open>waitAndPop\<close> returns false.
\<close>

theorem blocking_queue_cancel:
  assumes "bq_cancel q = (deleted, q')"
  shows "deleted = bq_queue q \<and> bq_empty q'
    \<and> fst (bq_waitAndPop (fold bq_step ops q')) = Refused"
proof -
  have "deleted = bq_queue q" "bq_empty q'" "bq_shutdown q'"
    using assms by (auto simp: bq_cancel_def bq_cancel_loop_all bq_empty_def)
  moreover have "bq_shutdown (fold bq_step ops q')"
    by (rule bq_shutdown_stays) fact
  ultimately show ?thesis by (simp add: bq_waitAndPop_def)
qed

theorem blocking_queue_cancel_witness:
  "fst (bq_waitAndPop (fold bq_step [QAdd (3 :: nat), QNext]
     (snd (bq_cancel (bq_push 1 bq_new))))) = Refused"
  using blocking_queue_cancel [of "bq_push 1 bq_new" "[1 :: nat]"
      "\<lparr>bq_queue = [], bq_shutdown = True\<rparr>" "[QAdd 3, QNext]"]
  by (simp add: bq_cancel_def bq_push_def bq_new_def)

end
