(* ===== verification/Net_Socket.thy ===== *)
theory Net_Socket
  imports Basic_Packet Queues
begin

text \<open>
  \<^verbatim>\<open>Socket\<close> of \<^verbatim>\<open>src/common/networking/Socket.h\<close>: queued packets are merged
  into message buffers and sent (\<^verbatim>\<open>update\<close>, \<^verbatim>\<open>addToWriteQueue\<close>,
  \<^verbatim>\<open>processWriteQueue\<close>), arriving bytes become packets (\<^verbatim>\<open>readHeader\<close>,
  \<^verbatim>\<open>readBody\<close>). The asynchronous reads and writes of Boost.Asio complete with a whole
  buffer or an error; each completion handler is one operation of the model. What
  \<^verbatim>\<open>onReceivedData\<close> leaves in \<^verbatim>\<open>m_readPacket\<close>, which it may move out, is the
  parameter \<open>residue\<close>.
\<close>

section \<open>State\<close>

definition MESSAGE_BUFFER_SIZE :: u16 where "MESSAGE_BUFFER_SIZE = 4096"
definition SEND_QUEUE_UNLIMITED :: int where "SEND_QUEUE_UNLIMITED = 0"

record socket =
  sk_readPacket :: basic_packet
  sk_readBuffer :: message_buffer
  sk_sendQueueLimit :: int
  sk_writeQueueSize :: int
  sk_packetQueue :: "basic_packet concurrent_queue"
  sk_writeQueue :: "message_buffer list"
  sk_isWritingAsync :: bool
  sk_isClosed :: bool

definition sk_new :: socket where
  "sk_new = \<lparr>sk_readPacket = pk_default, sk_readBuffer = mb_new MESSAGE_BUFFER_SIZE,
     sk_sendQueueLimit = SEND_QUEUE_UNLIMITED, sk_writeQueueSize = 0, sk_packetQueue = cq_new,
     sk_writeQueue = [], sk_isWritingAsync = False, sk_isClosed = False\<rparr>"

definition sk_setSendQueueLimit :: "int \<Rightarrow> socket \<Rightarrow> socket" where
  "sk_setSendQueueLimit limit s = s\<lparr>sk_sendQueueLimit := limit\<rparr>"

definition sk_closeSocket :: "socket \<Rightarrow> socket" where
  "sk_closeSocket s = s\<lparr>sk_isClosed := True\<rparr>"

section \<open>Sending\<close>

definition sk_queuePacket :: "basic_packet \<Rightarrow> socket \<Rightarrow> socket" where
  "sk_queuePacket packet s =
     (if sk_isClosed s then s else s\<lparr>sk_packetQueue := cq_add packet (sk_packetQueue s)\<rparr>)"

definition sk_processWriteQueue :: "socket \<Rightarrow> socket" where
  \<comment> \<open>starts the asynchronous write of the front buffer\<close>
  "sk_processWriteQueue s = (if sk_isWritingAsync s then s else s\<lparr>sk_isWritingAsync := True\<rparr>)"

definition sk_addToWriteQueue :: "message_buffer \<Rightarrow> socket \<Rightarrow> socket \<times> message_buffer" where
  \<comment> \<open>the socket and what is left in the argument, which is moved from unless the queue is full\<close>
  "sk_addToWriteQueue buff s =
     (if sk_sendQueueLimit s \<noteq> SEND_QUEUE_UNLIMITED \<and> sk_sendQueueLimit s \<le> sk_writeQueueSize s
      then (sk_closeSocket s, buff)
      else let (queued, left) = mb_move buff mb_default;
               s1 = s\<lparr>sk_writeQueueSize := i32 (sk_writeQueueSize s + uint (mb_getBufferSize buff)),
                      sk_writeQueue := sk_writeQueue s @ [queued]\<rparr>
           in (sk_processWriteQueue s1, left))"

definition sk_writeCompleted :: "socket \<Rightarrow> net_error + u8 list \<times> socket" where
  \<comment> \<open>the handler of a write that succeeded, with the bytes that went to the peer\<close>
  "sk_writeCompleted s =
     (case sk_writeQueue s of
        [] \<Rightarrow> Inl OutOfBounds
      | buff # rest \<Rightarrow>
          let s1 = s\<lparr>sk_isWritingAsync := False,
                     sk_writeQueueSize := i32 (sk_writeQueueSize s - uint (mb_getBufferSize buff)),
                     sk_writeQueue := rest\<rparr>
          in Inr (mb_active buff, if rest \<noteq> [] then sk_processWriteQueue s1 else s1))"

definition sk_sendPacket ::
    "basic_packet \<Rightarrow> message_buffer \<Rightarrow> socket \<Rightarrow> net_error + message_buffer \<times> socket" where
  \<comment> \<open>one turn of the loop of \<^verbatim>\<open>update\<close>\<close>
  "sk_sendPacket packet buff s =
     (let (s1, buff1) =
        (if mb_getRemainingSpace buff < pk_getByteSize packet \<and> 0 < mb_getActiveSize buff
         then let (s', left) = sk_addToWriteQueue buff s in (s', mb_resize MESSAGE_BUFFER_SIZE left)
         else (s, buff))
      in if pk_getByteSize packet \<le> mb_getRemainingSpace buff1
         then (case pk_write packet buff1 of Inl e \<Rightarrow> Inl e | Inr buff2 \<Rightarrow> Inr (buff2, s1))
         else (case pk_write packet (mb_new (pk_getByteSize packet)) of
                 Inl e \<Rightarrow> Inl e
               | Inr largeBuf \<Rightarrow> Inr (buff1, fst (sk_addToWriteQueue largeBuf s1))))"

lemma sk_addToWriteQueue_frame [simp]:
  "sk_packetQueue (fst (sk_addToWriteQueue b s)) = sk_packetQueue s"
  "sk_sendQueueLimit (fst (sk_addToWriteQueue b s)) = sk_sendQueueLimit s"
  by (auto simp: sk_addToWriteQueue_def sk_closeSocket_def sk_processWriteQueue_def mb_move_def Let_def)

lemma sk_sendPacket_frame:
  "sk_sendPacket packet buff s = Inr (buff', s') \<Longrightarrow> sk_packetQueue s' = sk_packetQueue s"
  by (auto simp: sk_sendPacket_def Let_def split_beta split: if_splits sum.splits)

function sk_updateLoop :: "message_buffer \<Rightarrow> socket \<Rightarrow> net_error + bool \<times> message_buffer \<times> socket" where
  \<comment> \<open>the flag tells whether the function returned from inside the loop\<close>
  "sk_updateLoop buff s =
     (case cq_next (sk_packetQueue s) of
        (None, _) \<Rightarrow> Inr (False, buff, s)
      | (Some packet, q) \<Rightarrow>
          if sk_isClosed s then Inr (True, buff, s\<lparr>sk_packetQueue := q\<rparr>)
          else (case sk_sendPacket packet buff (s\<lparr>sk_packetQueue := q\<rparr>) of
                  Inl e \<Rightarrow> Inl e
                | Inr (buff', s') \<Rightarrow> sk_updateLoop buff' s'))"
  by pat_completeness auto
termination
  by (relation "measure (\<lambda>(buff, s). length (cq_container (sk_packetQueue s)))")
     (auto simp: cq_next_def dest!: sk_sendPacket_frame split: list.splits)

declare sk_updateLoop.simps [simp del]

definition sk_update :: "socket \<Rightarrow> net_error + socket" where
  "sk_update s =
     (if cq_empty (sk_packetQueue s) then Inr s
      else (case sk_updateLoop (mb_new MESSAGE_BUFFER_SIZE) s of
              Inl e \<Rightarrow> Inl e
            | Inr (returned, buff, s') \<Rightarrow>
                if \<not> returned \<and> 0 < mb_getActiveSize buff
                then Inr (fst (sk_addToWriteQueue buff s')) else Inr s'))"

section \<open>What is sent\<close>

definition sk_pending :: "socket \<Rightarrow> u8 list" where
  \<comment> \<open>the bytes queued for the peer, in order\<close>
  "sk_pending s = concat (map mb_active (sk_writeQueue s))"

definition pk_sendable :: "basic_packet \<Rightarrow> bool" where
  "pk_sendable pk \<longleftrightarrow> pk_ok pk \<and> pk_opcode pk \<noteq> INVALID_OPCODE \<and> unat (pk_bodySize pk) \<le> 65531"

definition sk_unlimited :: "socket \<Rightarrow> bool" where
  "sk_unlimited s \<longleftrightarrow> sk_sendQueueLimit s = SEND_QUEUE_UNLIMITED \<and> \<not> sk_isClosed s"

lemma unat_pk_getByteSize:
  "pk_sendable pk \<Longrightarrow> unat (pk_getByteSize pk) = 4 + unat (pk_bodySize pk)"
  using unat_u16_plus [of HEADER_BYTE_SIZE "pk_bodySize pk"]
  by (simp add: pk_sendable_def pk_getByteSize_def HEADER_BYTE_SIZE_def)

lemma mb_resize_moved: "mb_resize n (snd (mb_move buff mb_default)) = mb_new n"
  by (simp add: mb_move_def mb_new_def mb_resize_def mb_default_def)

lemma sk_addToWriteQueue_unlimited:
  assumes "sk_unlimited s"
  shows "sk_pending (fst (sk_addToWriteQueue buff s)) = sk_pending s @ mb_active buff"
    and "sk_unlimited (fst (sk_addToWriteQueue buff s))"
    and "snd (sk_addToWriteQueue buff s) = snd (mb_move buff mb_default)"
  using assms
  by (auto simp: sk_unlimited_def sk_addToWriteQueue_def sk_processWriteQueue_def sk_pending_def
      mb_move_def mb_active_def Let_def)

lemma sk_sendPacket_sends:
  assumes "sk_unlimited s" and "mb_ok buff" and "pk_sendable packet"
  shows "\<exists>buff' s'. sk_sendPacket packet buff s = Inr (buff', s') \<and> mb_ok buff' \<and> sk_unlimited s'
    \<and> sk_pending s' @ mb_active buff' = sk_pending s @ mb_active buff @ pk_bytes packet
    \<and> sk_packetQueue s' = sk_packetQueue s"
proof -
  define full where "full = (mb_getRemainingSpace buff < pk_getByteSize packet \<and> 0 < mb_getActiveSize buff)"
  define s1 where "s1 = (if full then fst (sk_addToWriteQueue buff s) else s)"
  define b1 where "b1 = (if full then mb_new MESSAGE_BUFFER_SIZE else buff)"
  have s1: "sk_unlimited s1" "mb_ok b1" "sk_pending s1 @ mb_active b1 = sk_pending s @ mb_active buff"
    "sk_packetQueue s1 = sk_packetQueue s"
    using assms(1,2) sk_addToWriteQueue_unlimited [OF assms(1)] by (auto simp: s1_def b1_def)
  have eq: "sk_sendPacket packet buff s =
      (if pk_getByteSize packet \<le> mb_getRemainingSpace b1
       then (case pk_write packet b1 of Inl e \<Rightarrow> Inl e | Inr b2 \<Rightarrow> Inr (b2, s1))
       else (case pk_write packet (mb_new (pk_getByteSize packet)) of
               Inl e \<Rightarrow> Inl e
             | Inr largeBuf \<Rightarrow> Inr (b1, fst (sk_addToWriteQueue largeBuf s1))))"
    using sk_addToWriteQueue_unlimited(3) [OF assms(1), of buff]
    by (cases full)
       (simp_all add: sk_sendPacket_def full_def [symmetric] s1_def b1_def split_beta mb_resize_moved
          split: sum.split)
  note byteSize = unat_pk_getByteSize [OF assms(3)]
  have pk: "pk_ok packet" "pk_opcode packet \<noteq> INVALID_OPCODE" using assms(3) by (auto simp: pk_sendable_def)
  show ?thesis
  proof (cases "pk_getByteSize packet \<le> mb_getRemainingSpace b1")
    case True
    then have room: "4 + unat (pk_bodySize packet) \<le> unat (mb_getRemainingSpace b1)"
      using byteSize by (simp add: word_le_nat_alt)
    with pk_write_spec [OF s1(2) pk room] eq True s1 show ?thesis by auto
  next
    case False
    let ?large = "mb_new (pk_getByteSize packet)"
    have "4 + unat (pk_bodySize packet) \<le> unat (mb_getRemainingSpace ?large)"
      using byteSize by (simp add: unat_remaining_space)
    then obtain l where l: "pk_write packet ?large = Inr l" "mb_active l = pk_bytes packet"
      using pk_write_spec [OF mb_new_ok(1) pk, of "pk_getByteSize packet"] by auto
    have "mb_active b1 = []"
    proof (cases full)
      case True
      then show ?thesis by (simp add: b1_def)
    next
      case f: False
      then have "mb_getActiveSize buff = 0"
        using False by (auto simp: full_def b1_def not_le word_gt_0)
      then show ?thesis using f length_mb_active [OF assms(2)] by (simp add: b1_def)
    qed
    then show ?thesis
      using eq False l s1 sk_addToWriteQueue_unlimited [OF s1(1), of l] by auto
  qed
qed

lemma sk_updateLoop_sends:
  assumes "sk_unlimited s" and "mb_ok buff" and "list_all pk_sendable (cq_container (sk_packetQueue s))"
  shows "\<exists>buff' s'. sk_updateLoop buff s = Inr (False, buff', s') \<and> mb_ok buff' \<and> sk_unlimited s'
    \<and> sk_pending s' @ mb_active buff' =
        sk_pending s @ mb_active buff @ concat (map pk_bytes (cq_container (sk_packetQueue s)))
    \<and> cq_container (sk_packetQueue s') = []"
  using assms
proof (induction "cq_container (sk_packetQueue s)" arbitrary: buff s)
  case Nil
  then show ?case by (subst sk_updateLoop.simps) (auto simp: cq_next_def)
next
  case (Cons packet rest)
  let ?s = "s\<lparr>sk_packetQueue := (sk_packetQueue s)\<lparr>cq_container := rest\<rparr>\<rparr>"
  have nx: "cq_next (sk_packetQueue s) = (Some packet, (sk_packetQueue s)\<lparr>cq_container := rest\<rparr>)"
    using Cons.hyps(2) [symmetric] by (simp add: cq_next_def)
  have un: "sk_unlimited ?s" using Cons.prems(1) by (simp add: sk_unlimited_def)
  have pks: "pk_sendable packet" "list_all pk_sendable rest"
    using Cons.prems(3) Cons.hyps(2) by (metis list.pred_inject(2))+
  obtain b1 s1 where one: "sk_sendPacket packet buff ?s = Inr (b1, s1)" "mb_ok b1" "sk_unlimited s1"
    "sk_pending s1 @ mb_active b1 = sk_pending s @ mb_active buff @ pk_bytes packet"
    "sk_packetQueue s1 = sk_packetQueue ?s"
    using sk_sendPacket_sends [OF un Cons.prems(2) pks(1)] by (auto simp: sk_pending_def)
  have step: "sk_updateLoop buff s = sk_updateLoop b1 s1"
    using Cons.prems(1) nx one(1) by (subst sk_updateLoop.simps) (simp add: sk_unlimited_def)
  show ?case
    using Cons.hyps(1) [of s1 b1] one pks(2) step Cons.hyps(2) [symmetric]
    by (simp flip: append_assoc)
qed

lemma sk_update_sends:
  assumes "sk_unlimited s" and "list_all pk_sendable (cq_container (sk_packetQueue s))"
  shows "\<exists>s'. sk_update s = Inr s' \<and> sk_unlimited s'
    \<and> sk_pending s' = sk_pending s @ concat (map pk_bytes (cq_container (sk_packetQueue s)))
    \<and> cq_container (sk_packetQueue s') = []"
proof (cases "cq_empty (sk_packetQueue s)")
  case True
  then show ?thesis using assms by (auto simp: sk_update_def cq_empty_def)
next
  case False
  obtain b s1 where l: "sk_updateLoop (mb_new MESSAGE_BUFFER_SIZE) s = Inr (False, b, s1)" "mb_ok b"
    "sk_unlimited s1" "cq_container (sk_packetQueue s1) = []"
    "sk_pending s1 @ mb_active b = sk_pending s @ concat (map pk_bytes (cq_container (sk_packetQueue s)))"
    using sk_updateLoop_sends [OF assms(1) mb_new_ok(1) assms(2)] by fastforce
  show ?thesis
  proof (cases "0 < mb_getActiveSize b")
    case True
    then show ?thesis
      using False l sk_addToWriteQueue_unlimited [OF l(3), of b] by (simp add: sk_update_def)
  next
    case none: False
    then have "mb_active b = []"
      using length_mb_active [OF l(2)] by (simp add: word_gt_0)
    then show ?thesis using False l none by (simp add: sk_update_def)
  qed
qed

text \<open>
  C7: \<^verbatim>\<open>Socket::update\<close> on an open socket without a queue limit sends everything: the
  bytes queued for the peer grow by exactly the encodings of the queued packets in their
  order, however they are merged into buffers; no write leaves a buffer, and no packet stays
  behind.
\<close>

theorem socket_update_sends_all:
  assumes "sk_unlimited s" and "list_all pk_sendable (cq_container (sk_packetQueue s))"
  shows "\<exists>s'. sk_update s = Inr s'
    \<and> sk_pending s' = sk_pending s @ concat (map pk_bytes (cq_container (sk_packetQueue s)))
    \<and> cq_container (sk_packetQueue s') = []"
  using sk_update_sends [OF assms] by blast

theorem socket_update_sends_all_witness:
  "\<exists>s'. sk_update (sk_queuePacket (pk_new 7) (sk_queuePacket (pk_new 2) sk_new)) = Inr s'
    \<and> sk_pending s' = pk_bytes (pk_new 2) @ pk_bytes (pk_new 7)"
  using socket_update_sends_all [of "sk_queuePacket (pk_new 7) (sk_queuePacket (pk_new 2) sk_new)"]
  by (auto simp: sk_queuePacket_def sk_new_def cq_add_def cq_new_def sk_unlimited_def sk_pending_def
      pk_sendable_def INVALID_OPCODE_def pk_new_def [of 2] pk_new_def [of 7] pk_ok_def pk_hasBody_def)

section \<open>The send queue limit\<close>

definition sk_bufferTotal :: "socket \<Rightarrow> int" where
  "sk_bufferTotal s = sum_list (map (\<lambda>b. uint (mb_getBufferSize b)) (sk_writeQueue s))"

text \<open>
  The accounting of \<^verbatim>\<open>m_writeQueueSize\<close>, and the flag of a write in progress: a write
  is under way exactly while buffers are queued.
\<close>

definition sk_queue_ok :: "socket \<Rightarrow> bool" where
  "sk_queue_ok s \<longleftrightarrow> sk_writeQueueSize s = sk_bufferTotal s
     \<and> (sk_isWritingAsync s \<longleftrightarrow> sk_writeQueue s \<noteq> [])
     \<and> sk_bufferTotal s < sk_sendQueueLimit s + 65535
     \<and> 0 < sk_sendQueueLimit s \<and> sk_sendQueueLimit s \<le> 2147418112"

lemma sk_bufferTotal_nonneg: "0 \<le> sk_bufferTotal s"
  by (auto simp: sk_bufferTotal_def intro!: sum_list_nonneg)

lemma sk_addToWriteQueue_queue_ok:
  assumes "sk_queue_ok s"
  shows "sk_queue_ok (fst (sk_addToWriteQueue buff s))"
proof (cases "sk_sendQueueLimit s \<le> sk_writeQueueSize s")
  case True
  then show ?thesis
    using assms
    by (auto simp: sk_queue_ok_def sk_addToWriteQueue_def sk_closeSocket_def SEND_QUEUE_UNLIMITED_def
        sk_bufferTotal_def)
next
  case False
  let ?n = "uint (mb_getBufferSize buff)"
  have n: "0 \<le> ?n" "?n \<le> 65535" using uint_u16_le by simp_all
  have size: "sk_writeQueueSize s = sk_bufferTotal s" using assms by (simp add: sk_queue_ok_def)
  have "sk_bufferTotal s + ?n \<le> 2147483647"
    using assms False n by (simp add: sk_queue_ok_def)
  then have "i32 (sk_writeQueueSize s + ?n) = sk_bufferTotal s + ?n"
    unfolding size using n(1) sk_bufferTotal_nonneg [of s]
    by (intro i32_id) (unfold int32_range_def, linarith)
  then show ?thesis
    using assms False n
    by (auto simp: sk_queue_ok_def sk_addToWriteQueue_def sk_processWriteQueue_def mb_move_def
        mb_getBufferSize_def sk_bufferTotal_def Let_def)
qed

lemma sk_writeCompleted_queue_ok:
  assumes "sk_queue_ok s" and "sk_writeCompleted s = Inr (bytes, s')"
  shows "sk_queue_ok s'"
proof -
  obtain b rest where q: "sk_writeQueue s = b # rest"
    using assms(2) by (auto simp: sk_writeCompleted_def split: list.splits)
  let ?n = "uint (mb_getBufferSize b)"
  have total: "sk_bufferTotal s = ?n + sum_list (map (\<lambda>b. uint (mb_getBufferSize b)) rest)"
    by (simp add: sk_bufferTotal_def q)
  have "0 \<le> sum_list (map (\<lambda>b. uint (mb_getBufferSize b)) rest)" "0 \<le> uint (mb_getBufferSize b)"
    by (auto intro!: sum_list_nonneg)
  then have "i32 (sk_writeQueueSize s - ?n) = sum_list (map (\<lambda>b. uint (mb_getBufferSize b)) rest)"
    using assms(1) total unfolding sk_queue_ok_def
    by (subst i32_id) (unfold int32_range_def, linarith+)
  moreover have "sum_list (map (\<lambda>b. uint (mb_getBufferSize b)) rest) < sk_sendQueueLimit s + 65535"
    using assms(1) total uint_ge_0 [of "mb_getBufferSize b"] unfolding sk_queue_ok_def by linarith
  ultimately show ?thesis
    using assms q total
    by (auto simp: sk_queue_ok_def sk_writeCompleted_def sk_processWriteQueue_def sk_bufferTotal_def
        Let_def split: if_splits)
qed

lemma sk_sendPacket_queue_ok:
  "sk_queue_ok s \<Longrightarrow> sk_sendPacket packet buff s = Inr (buff', s') \<Longrightarrow> sk_queue_ok s'"
  by (auto simp: sk_sendPacket_def Let_def split_beta sk_addToWriteQueue_queue_ok split: if_splits sum.splits)

lemma sk_queue_ok_packetQueue [simp]:
  "sk_queue_ok (s\<lparr>sk_packetQueue := q\<rparr>) = sk_queue_ok s"
  by (simp add: sk_queue_ok_def sk_bufferTotal_def)

lemma sk_updateLoop_queue_ok:
  "sk_queue_ok s \<Longrightarrow> sk_updateLoop buff s = Inr (returned, buff', s') \<Longrightarrow> sk_queue_ok s'"
proof (induction buff s rule: sk_updateLoop.induct)
  case (1 buff s)
  obtain p q where n: "cq_next (sk_packetQueue s) = (p, q)" by fastforce
  show ?case
  proof (cases "p = None \<or> sk_isClosed s")
    case True
    with "1.prems" n show ?thesis by (subst (asm) sk_updateLoop.simps) (auto split: option.splits)
  next
    case False
    then obtain packet where p: "p = Some packet" and not_closed: "\<not> sk_isClosed s" by auto
    then obtain b1 s1 where one: "sk_sendPacket packet buff (s\<lparr>sk_packetQueue := q\<rparr>) = Inr (b1, s1)"
      and rest: "sk_updateLoop b1 s1 = Inr (returned, buff', s')"
      using "1.prems"(2) n by (subst (asm) sk_updateLoop.simps) (auto split: sum.splits)
    show ?thesis
      using "1.IH" [OF n [symmetric] p not_closed one refl] sk_sendPacket_queue_ok [OF _ one] "1.prems"(1) rest by simp
  qed
qed

text \<open>
  C11: With a positive send queue limit, \<^verbatim>\<open>update\<close> and the completion of writes keep
  \<^verbatim>\<open>m_writeQueueSize\<close> equal to the bytes of the queued buffers, a write is in progress
  exactly while buffers are queued, and the queue never exceeds the limit by more than one
  buffer.
\<close>

theorem socket_send_queue_bounded:
  assumes "sk_queue_ok s"
  shows "(sk_update s = Inr s' \<longrightarrow> sk_queue_ok s')
    \<and> (sk_writeCompleted s = Inr (bytes, s') \<longrightarrow> sk_queue_ok s')"
proof -
  have "sk_queue_ok s'" if u: "sk_update s = Inr s'"
  proof (cases "cq_empty (sk_packetQueue s)")
    case True
    then show ?thesis using u assms by (simp add: sk_update_def)
  next
    case False
    then obtain r b s1 where "sk_updateLoop (mb_new MESSAGE_BUFFER_SIZE) s = Inr (r, b, s1)"
      "s' = (if \<not> r \<and> 0 < mb_getActiveSize b then fst (sk_addToWriteQueue b s1) else s1)"
      using u by (auto simp: sk_update_def split: sum.splits if_splits)
    then show ?thesis
      using sk_updateLoop_queue_ok [OF assms] sk_addToWriteQueue_queue_ok by auto
  qed
  then show ?thesis using sk_writeCompleted_queue_ok [OF assms] by blast
qed

theorem socket_send_queue_bounded_witness:
  "\<exists>s'. sk_writeCompleted (fst (sk_addToWriteQueue (mb_new 4) (sk_setSendQueueLimit 8192 sk_new))) = Inr ([], s')
     \<and> sk_queue_ok s' \<and> sk_writeQueueSize s' = 0"
proof -
  define s where "s = fst (sk_addToWriteQueue (mb_new 4) (sk_setSendQueueLimit 8192 sk_new))"
  have "sk_queue_ok (sk_setSendQueueLimit 8192 sk_new)"
    by (simp add: sk_queue_ok_def sk_setSendQueueLimit_def sk_new_def sk_bufferTotal_def)
  then have ok: "sk_queue_ok s" unfolding s_def by (rule sk_addToWriteQueue_queue_ok)
  have "\<exists>s'. sk_writeCompleted s = Inr ([], s') \<and> sk_writeQueueSize s' = 0"
    by (simp add: s_def sk_writeCompleted_def sk_addToWriteQueue_def sk_setSendQueueLimit_def sk_new_def
        SEND_QUEUE_UNLIMITED_def mb_move_def mb_new_def mb_default_def mb_resize_def mb_getBufferSize_def
        mb_getActiveSize_def mb_active_def sk_processWriteQueue_def i32_def Let_def)
  then show ?thesis using socket_send_queue_bounded [OF ok] unfolding s_def by blast
qed

section \<open>Receiving\<close>

datatype read_wait = AwaitHeader | AwaitBody | NoRead

definition sk_readHeader :: "socket \<Rightarrow> socket" where
  \<comment> \<open>starts the asynchronous read of the next header\<close>
  "sk_readHeader s = s\<lparr>sk_readBuffer := mb_reset (sk_readBuffer s)\<rparr>"

definition sk_readBody :: "socket \<Rightarrow> net_error + socket" where
  \<comment> \<open>starts the asynchronous read of the body announced by the header\<close>
  "sk_readBody s =
     (case mb_ensureFreeSpace (pk_bodySize (sk_readPacket s)) (sk_readBuffer s) of
        Inl e \<Rightarrow> Inl e
      | Inr buff \<Rightarrow> Inr (s\<lparr>sk_readBuffer := buff\<rparr>))"

definition sk_arrived :: "u8 list \<Rightarrow> nat \<Rightarrow> socket \<Rightarrow> net_error + message_buffer" where
  \<comment> \<open>a read of \<open>n\<close> bytes completed: \<^verbatim>\<open>NS_ASSERT\<close> of the number, then \<^verbatim>\<open>writeCompleted\<close>\<close>
  "sk_arrived bytes n s =
     (if length bytes \<noteq> n then Inl AssertionFailed
      else (case mb_put bytes (sk_readBuffer s) of
              Inl e \<Rightarrow> Inl e
            | Inr buff \<Rightarrow> Inr (mb_writeCompleted (of_nat (length bytes)) buff)))"

definition sk_headerRead ::
    "nat \<Rightarrow> (basic_packet \<Rightarrow> basic_packet) \<Rightarrow> u8 list \<Rightarrow> socket
     \<Rightarrow> net_error + basic_packet list \<times> read_wait \<times> socket" where
  "sk_headerRead num residue bytes s =
     (case sk_arrived bytes (unat HEADER_BYTE_SIZE) s of
        Inl e \<Rightarrow> Inl e
      | Inr buff \<Rightarrow>
          (case pk_decodeHeader num (sk_readPacket s) buff of
             Inl PacketException \<Rightarrow> Inr ([], NoRead, sk_closeSocket (s\<lparr>sk_readBuffer := buff\<rparr>))
           | Inl e \<Rightarrow> Inl e
           | Inr (packet, buff') \<Rightarrow>
               let s1 = s\<lparr>sk_readPacket := packet, sk_readBuffer := buff'\<rparr>
               in if pk_hasBody packet
                  then (case sk_readBody s1 of Inl e \<Rightarrow> Inl e | Inr s2 \<Rightarrow> Inr ([], AwaitBody, s2))
                  else Inr ([packet], AwaitHeader, sk_readHeader (s1\<lparr>sk_readPacket := residue packet\<rparr>))))"

definition sk_bodyRead ::
    "(basic_packet \<Rightarrow> basic_packet) \<Rightarrow> u8 list \<Rightarrow> socket \<Rightarrow> net_error + basic_packet list \<times> socket" where
  "sk_bodyRead residue bytes s =
     (case sk_arrived bytes (unat (pk_bodySize (sk_readPacket s))) s of
        Inl e \<Rightarrow> Inl e
      | Inr buff \<Rightarrow>
          (case pk_readBody (sk_readPacket s) buff of
             Inl e \<Rightarrow> Inl e
           | Inr (packet, buff') \<Rightarrow>
               Inr ([packet], sk_readHeader (s\<lparr>sk_readPacket := residue packet, sk_readBuffer := buff'\<rparr>))))"

text \<open>
  The reads driven by an incoming byte stream: a read completes when the bytes it asks for are
  there, however they were segmented. The result is the packets delivered, the bytes of an
  incomplete read, and what the socket waits for.
\<close>

function sk_receive ::
    "nat \<Rightarrow> (basic_packet \<Rightarrow> basic_packet) \<Rightarrow> read_wait \<Rightarrow> u8 list \<Rightarrow> socket
     \<Rightarrow> net_error + basic_packet list \<times> u8 list \<times> socket" where
  "sk_receive num residue NoRead stream s = Inr ([], stream, s)"
| "sk_receive num residue AwaitHeader stream s =
     (if length stream < 4 then Inr ([], stream, s)
      else (case sk_headerRead num residue (take 4 stream) s of
              Inl e \<Rightarrow> Inl e
            | Inr (ps, wait, s1) \<Rightarrow>
                (case sk_receive num residue wait (drop 4 stream) s1 of
                   Inl e \<Rightarrow> Inl e
                 | Inr (qs, rest, s2) \<Rightarrow> Inr (ps @ qs, rest, s2))))"
| "sk_receive num residue AwaitBody stream s =
     (let n = unat (pk_bodySize (sk_readPacket s))
      in if length stream < n then Inr ([], stream, s)
         else (case sk_bodyRead residue (take n stream) s of
                 Inl e \<Rightarrow> Inl e
               | Inr (ps, s1) \<Rightarrow>
                   (case sk_receive num residue AwaitHeader (drop n stream) s1 of
                      Inl e \<Rightarrow> Inl e
                    | Inr (qs, rest, s2) \<Rightarrow> Inr (ps @ qs, rest, s2))))"
  by pat_completeness auto
termination
  by (relation "measure (\<lambda>(num, residue, wait, stream, s).
        2 * length stream + (if wait = AwaitBody then 1 else 0))") auto

declare sk_receive.simps [simp del]

definition pk_receivable :: "nat \<Rightarrow> basic_packet \<Rightarrow> bool" where
  "pk_receivable num pk \<longleftrightarrow> pk_ok pk \<and> pk_bodySize pk \<le> MAX_BODY_BYTE_SIZE \<and> unat (pk_opcode pk) < num"

definition sk_ready :: "socket \<Rightarrow> bool" where
  \<comment> \<open>between two packets: the read buffer is reset and large enough for a header\<close>
  "sk_ready s \<longleftrightarrow> mb_ok (sk_readBuffer s) \<and> mb_rpos (sk_readBuffer s) = 0 \<and> mb_wpos (sk_readBuffer s) = 0
     \<and> 4 \<le> length (mb_storage (sk_readBuffer s)) \<and> length (mb_storage (sk_readBuffer s)) \<le> 16384
     \<and> pk_ok (sk_readPacket s)"

definition residue_ok :: "(basic_packet \<Rightarrow> basic_packet) \<Rightarrow> bool" where
  \<comment> \<open>the handler leaves the packet or moves it out, which leaves an empty one\<close>
  "residue_ok residue \<longleftrightarrow> (\<forall>pk. residue pk = pk \<or> residue pk = pk_default)"

lemma residue_okD: "residue_ok residue \<Longrightarrow> pk_ok pk \<Longrightarrow> pk_ok (residue pk)"
  by (metis residue_ok_def pk_new_ok(1) pk_default_def)

lemma sk_arrived_spec:
  assumes "mb_ok (sk_readBuffer s)" and "mb_active (sk_readBuffer s) = []"
    and "length bytes \<le> unat (mb_getRemainingSpace (sk_readBuffer s))"
  shows "\<exists>buff. sk_arrived bytes (length bytes) s = Inr buff \<and> mb_ok buff \<and> mb_active buff = bytes
    \<and> length (mb_storage buff) = length (mb_storage (sk_readBuffer s))"
proof -
  have "length bytes < 65536" using assms(3) unat_u16_less [of "mb_getRemainingSpace (sk_readBuffer s)"] by simp
  then have "unat (of_nat (length bytes) :: u16) = length bytes" by (rule unat_u16_of_nat)
  from mb_put_ok [OF assms(1,3) this] assms(2) show ?thesis
    by (auto simp: sk_arrived_def)
qed

lemma sk_readHeader_ready:
  assumes "mb_ok (sk_readBuffer s)" and "4 \<le> length (mb_storage (sk_readBuffer s))"
    and "length (mb_storage (sk_readBuffer s)) \<le> 16384" and "pk_ok (sk_readPacket s)"
  shows "sk_ready (sk_readHeader s)"
  using assms by (auto simp: sk_ready_def sk_readHeader_def mb_reset_def mb_ok_def)

lemma sk_headerRead_spec:
  assumes "sk_ready s" and "pk_receivable num pk"
  defines "p \<equiv> (sk_readPacket s)\<lparr>pk_bodySize := pk_bodySize pk, pk_opcode := pk_opcode pk\<rparr>"
  shows "\<exists>buff. mb_ok buff \<and> mb_active buff = []
    \<and> length (mb_storage buff) = length (mb_storage (sk_readBuffer s))
    \<and> sk_headerRead num residue (pk_header pk) s =
        (let s1 = s\<lparr>sk_readPacket := p, sk_readBuffer := buff\<rparr>
         in if pk_hasBody p
            then (case sk_readBody s1 of Inl e \<Rightarrow> Inl e | Inr s2 \<Rightarrow> Inr ([], AwaitBody, s2))
            else Inr ([p], AwaitHeader, sk_readHeader (s1\<lparr>sk_readPacket := residue p\<rparr>)))"
proof -
  have ok: "mb_ok (sk_readBuffer s)" and "mb_active (sk_readBuffer s) = []"
    and "length (pk_header pk) \<le> unat (mb_getRemainingSpace (sk_readBuffer s))"
    using assms(1) by (auto simp: sk_ready_def mb_active_def unat_remaining_space)
  then obtain b where b: "sk_arrived (pk_header pk) (length (pk_header pk)) s = Inr b" "mb_ok b"
    "mb_active b = pk_header pk @ []" "length (mb_storage b) = length (mb_storage (sk_readBuffer s))"
    using sk_arrived_spec by fastforce
  have h: "unat HEADER_BYTE_SIZE = length (pk_header pk)" by (simp add: HEADER_BYTE_SIZE_def)
  have "pk_decodeHeader num (sk_readPacket s) b = Inr (p, mb_readCompleted HEADER_BYTE_SIZE b)"
    unfolding p_def using assms(2) by (intro pk_decodeHeader_spec [OF b(2,3)]) (auto simp: pk_receivable_def)
  then show ?thesis
    using b h mb_peek_active(2,3) [OF b(2,3) h]
    by (intro exI [of _ "mb_readCompleted HEADER_BYTE_SIZE b"])
       (simp add: sk_headerRead_def mb_readCompleted_def)
qed

lemma sk_bodyRead_spec:
  assumes "mb_ok (sk_readBuffer s)" and "mb_active (sk_readBuffer s) = []"
    and "length body \<le> unat (mb_getRemainingSpace (sk_readBuffer s))"
    and "length body = unat (pk_bodySize (sk_readPacket s))"
    and "pk_ok ((sk_readPacket s)\<lparr>pk_bodySize := 0\<rparr>)" and "pk_bodySize (sk_readPacket s) \<le> MAX_BODY_BYTE_SIZE"
    and "4 \<le> length (mb_storage (sk_readBuffer s))" and "length (mb_storage (sk_readBuffer s)) \<le> 16384"
    and "residue_ok residue"
  shows "\<exists>pk' s'. sk_bodyRead residue body s = Inr ([pk'], s') \<and> sk_ready s' \<and> pk_body pk' = body
    \<and> pk_opcode pk' = pk_opcode (sk_readPacket s) \<and> sk_isClosed s' = sk_isClosed s"
proof -
  obtain b where b: "sk_arrived body (unat (pk_bodySize (sk_readPacket s))) s = Inr b" "mb_ok b"
    "mb_active b = body @ []" "length (mb_storage b) = length (mb_storage (sk_readBuffer s))"
    using sk_arrived_spec [OF assms(1-3)] assms(4) by auto
  obtain pk' b' where r: "pk_readBody (sk_readPacket s) b = Inr (pk', b')" "pk_ok pk'" "pk_body pk' = body"
    "pk_opcode pk' = pk_opcode (sk_readPacket s)" "mb_ok b'"
    using pk_readBody_spec [OF b(2,3) assms(4-6)] by blast
  have "length (mb_storage b') = length (mb_storage b)"
    using r(1) by (auto simp: pk_readBody_def mb_readCompleted_def Let_def split: if_splits sum.splits)
  then have "sk_ready (sk_readHeader (s\<lparr>sk_readPacket := residue pk', sk_readBuffer := b'\<rparr>))"
    using r b assms(7,8) residue_okD [OF assms(9) r(2)] by (intro sk_readHeader_ready) auto
  then show ?thesis
    using b r by (auto simp: sk_bodyRead_def sk_readHeader_def)
qed

lemma sk_receive_one:
  assumes "sk_ready s" and "pk_receivable num pk" and "residue_ok residue"
  shows "\<exists>pk' s'. sk_receive num residue AwaitHeader (pk_bytes pk @ rest) s =
      (case sk_receive num residue AwaitHeader rest s' of
         Inl e \<Rightarrow> Inl e | Inr (qs, r, s2) \<Rightarrow> Inr (pk' # qs, r, s2))
    \<and> sk_ready s' \<and> pk_opcode pk' = pk_opcode pk \<and> pk_body pk' = pk_body pk \<and> sk_isClosed s' = sk_isClosed s"
proof -
  define p where "p = (sk_readPacket s)\<lparr>pk_bodySize := pk_bodySize pk, pk_opcode := pk_opcode pk\<rparr>"
  have pk: "pk_ok pk" "pk_bodySize pk \<le> MAX_BODY_BYTE_SIZE" using assms(2) by (auto simp: pk_receivable_def)
  have small: "unat (pk_bodySize pk) \<le> 8192"
    using pk(2) by (simp add: word_le_nat_alt MAX_BODY_BYTE_SIZE_def)
  have p0: "pk_ok (p\<lparr>pk_bodySize := 0\<rparr>)"
    using assms(1) by (auto simp: p_def sk_ready_def pk_ok_def pk_hasBody_def)
  have split: "take 4 (pk_bytes pk @ rest) = pk_header pk" "drop 4 (pk_bytes pk @ rest) = pk_body pk @ rest"
    "\<not> length (pk_bytes pk @ rest) < 4"
    by (simp_all add: pk_bytes_def)
  obtain buff where buff: "mb_ok buff" "mb_active buff = []"
    "length (mb_storage buff) = length (mb_storage (sk_readBuffer s))"
    and hd: "sk_headerRead num residue (pk_header pk) s =
        (let s1 = s\<lparr>sk_readPacket := p, sk_readBuffer := buff\<rparr>
         in if pk_hasBody p
            then (case sk_readBody s1 of Inl e \<Rightarrow> Inl e | Inr s2 \<Rightarrow> Inr ([], AwaitBody, s2))
            else Inr ([p], AwaitHeader, sk_readHeader (s1\<lparr>sk_readPacket := residue p\<rparr>)))"
    using sk_headerRead_spec [OF assms(1,2)] unfolding p_def by blast
  have len: "4 \<le> length (mb_storage buff)" "length (mb_storage buff) \<le> 16384"
    using buff(3) assms(1) by (auto simp: sk_ready_def)
  let ?s1 = "s\<lparr>sk_readPacket := p, sk_readBuffer := buff\<rparr>"
  show ?thesis
  proof (cases "pk_hasBody p")
    case False
    then have b0: "pk_bodySize pk = 0" by (simp add: p_def pk_hasBody_def word_gt_0)
    then have "pk_ok p" using p0 by (simp add: p_def pk_ok_def pk_hasBody_def)
    then have "sk_ready (sk_readHeader (?s1\<lparr>sk_readPacket := residue p\<rparr>))"
      using buff len residue_okD [OF assms(3)] by (intro sk_readHeader_ready) auto
    moreover have "pk_body pk = []" "pk_body p = []"
      using b0 False by (auto simp: pk_body_empty pk_hasBody_def)
    ultimately show ?thesis
      using False hd split
      by (intro exI [of _ p] exI [of _ "sk_readHeader (?s1\<lparr>sk_readPacket := residue p\<rparr>)"])
         (simp add: sk_receive.simps(2) [of _ _ "pk_bytes pk @ rest"] p_def sk_readHeader_def split: sum.split)
  next
    case True
    have as0: "unat (mb_getActiveSize buff) = 0" using length_mb_active [OF buff(1)] buff(2) by simp
    have "mb_storage buff \<noteq> []" using len by auto
    from mb_ensureFreeSpace_grows [OF buff(1) this, of "pk_bodySize pk"] as0 small len
    obtain b' where e: "mb_ensureFreeSpace (pk_bodySize pk) buff = Inr b'" "mb_ok b'"
      "mb_active b' = []" "pk_bodySize pk \<le> mb_getRemainingSpace b'" "4 \<le> length (mb_storage b')"
      "length (mb_storage b') \<le> 16384"
      using buff(2) by auto
    let ?s2 = "?s1\<lparr>sk_readBuffer := b'\<rparr>"
    have lb: "length (pk_body pk) = unat (pk_bodySize pk)" by (rule length_pk_body [OF pk(1)])
    obtain pk' s' where body: "sk_bodyRead residue (pk_body pk) ?s2 = Inr ([pk'], s')" "sk_ready s'"
      "pk_body pk' = pk_body pk" "pk_opcode pk' = pk_opcode pk" "sk_isClosed s' = sk_isClosed s"
      using sk_bodyRead_spec [of ?s2 "pk_body pk" residue] e p0 lb pk(2) assms(3)
      by (auto simp: p_def word_le_nat_alt)
    have "sk_receive num residue AwaitBody (pk_body pk @ rest) ?s2 =
        (case sk_receive num residue AwaitHeader rest s' of
           Inl e \<Rightarrow> Inl e | Inr (qs, r, s2) \<Rightarrow> Inr (pk' # qs, r, s2))"
      using body(1) lb by (simp add: sk_receive.simps(3) p_def split: sum.split)
    moreover have "sk_headerRead num residue (pk_header pk) s = Inr ([], AwaitBody, ?s2)"
      using hd True e(1) by (simp add: sk_readBody_def p_def)
    ultimately show ?thesis
      using split body
      by (intro exI [of _ pk'] exI [of _ s'])
         (simp add: sk_receive.simps(2) [of _ _ "pk_bytes pk @ rest"] split: sum.splits)
  qed
qed

definition same_message :: "basic_packet \<Rightarrow> basic_packet \<Rightarrow> bool" where
  "same_message a b \<longleftrightarrow> pk_opcode a = pk_opcode b \<and> pk_body a = pk_body b"

lemma sk_receive_all:
  assumes "sk_ready s" and "list_all (pk_receivable num) pks" and "residue_ok residue" and "length rest < 4"
  shows "\<exists>qs s'. sk_receive num residue AwaitHeader (concat (map pk_bytes pks) @ rest) s = Inr (qs, rest, s')
    \<and> list_all2 same_message qs pks \<and> sk_ready s' \<and> sk_isClosed s' = sk_isClosed s"
  using assms
proof (induction pks arbitrary: s)
  case Nil
  then show ?case by (simp add: sk_receive.simps(2))
next
  case (Cons pk pks)
  obtain pk' s1 where one: "sk_receive num residue AwaitHeader (pk_bytes pk @ concat (map pk_bytes pks) @ rest) s =
      (case sk_receive num residue AwaitHeader (concat (map pk_bytes pks) @ rest) s1 of
         Inl e \<Rightarrow> Inl e | Inr (qs, r, s2) \<Rightarrow> Inr (pk' # qs, r, s2))"
    "sk_ready s1" "same_message pk' pk" "sk_isClosed s1 = sk_isClosed s"
    using sk_receive_one [of s num pk residue "concat (map pk_bytes pks) @ rest"] Cons.prems
    by (auto simp: same_message_def)
  obtain qs s' where "sk_receive num residue AwaitHeader (concat (map pk_bytes pks) @ rest) s1 = Inr (qs, rest, s')"
    "list_all2 same_message qs pks" "sk_ready s'" "sk_isClosed s' = sk_isClosed s1"
    using Cons.IH [OF one(2)] Cons.prems by auto
  with one show ?case by auto
qed

text \<open>
  C10: Framing: from the bytes of any sequence of receivable packets, in whatever pieces
  they arrive, followed by an incomplete header, the read handlers deliver exactly these
  messages in order, keep the incomplete rest, and leave the socket open and ready.
\<close>

theorem socket_receives_stream:
  assumes "sk_ready s" and "list_all (pk_receivable num) pks" and "residue_ok residue" and "length rest < 4"
  shows "\<exists>qs s'. sk_receive num residue AwaitHeader (concat (map pk_bytes pks) @ rest) s = Inr (qs, rest, s')
    \<and> list_all2 same_message qs pks \<and> sk_ready s' \<and> sk_isClosed s' = sk_isClosed s"
  using sk_receive_all [OF assms] .

lemma sk_new_ready: "sk_ready sk_new"
  by (simp add: sk_ready_def sk_new_def MESSAGE_BUFFER_SIZE_def pk_default_def)

theorem socket_receives_stream_witness:
  "\<exists>qs s'. sk_receive 20 (\<lambda>_. pk_default) AwaitHeader (concat (map pk_bytes [pk_new 2, pk_new 7]) @ [1]) sk_new
     = Inr (qs, [1], s') \<and> list_all2 same_message qs [pk_new 2, pk_new 7]"
  using socket_receives_stream [OF sk_new_ready, of 20 "[pk_new 2, pk_new 7]" "\<lambda>_. pk_default" "[1]"]
  by (auto simp: pk_receivable_def residue_ok_def pk_new_def [of 2] pk_new_def [of 7] pk_ok_def pk_hasBody_def
      MAX_BODY_BYTE_SIZE_def)

text \<open>
  C12: A header that announces a body above \<^verbatim>\<open>MAX_BODY_BYTE_SIZE\<close> or an opcode that
  is no message type closes the socket: nothing is delivered and nothing more is read.
\<close>

theorem socket_rejects_bad_header:
  assumes "sk_ready s" and "length bytes = 4"
    and "MAX_BODY_BYTE_SIZE < pk_be16 (bytes ! 0) (bytes ! 1) \<or> num \<le> unat (pk_be16 (bytes ! 2) (bytes ! 3))"
  shows "\<exists>s'. sk_receive num residue AwaitHeader (bytes @ stream) s = Inr ([], stream, s') \<and> sk_isClosed s'"
proof -
  have "mb_ok (sk_readBuffer s)" "mb_active (sk_readBuffer s) = []"
    "length bytes \<le> unat (mb_getRemainingSpace (sk_readBuffer s))"
    using assms(1,2) by (auto simp: sk_ready_def mb_active_def unat_remaining_space)
  then obtain b where b: "sk_arrived bytes (length bytes) s = Inr b" "mb_ok b" "mb_active b = bytes @ []"
    using sk_arrived_spec by fastforce
  have "pk_decodeHeader num (sk_readPacket s) b = Inl PacketException"
    using mb_peek_active(1) [OF b(2,3)] assms(2,3) by (auto simp: pk_decodeHeader_def Let_def)
  then have "sk_headerRead num residue bytes s = Inr ([], NoRead, sk_closeSocket (s\<lparr>sk_readBuffer := b\<rparr>))"
    using b(1) assms(2) by (simp add: sk_headerRead_def HEADER_BYTE_SIZE_def)
  then show ?thesis
    using assms(2) by (simp add: sk_receive.simps sk_closeSocket_def)
qed

theorem socket_rejects_bad_header_witness:
  "\<exists>s'. sk_receive 20 (\<lambda>_. pk_default) AwaitHeader ([0x20, 1, 0, 5] @ [9]) sk_new = Inr ([], [9], s') \<and> sk_isClosed s'"
  by (rule socket_rejects_bad_header [OF sk_new_ready])
     (simp_all add: pk_be16_def MAX_BODY_BYTE_SIZE_def)

end
