(* ===== verification/Linked_List.thy ===== *)
theory Linked_List
  imports Prelude
begin

text \<open>
  The intrusive doubly linked list of \<^verbatim>\<open>src/worldserver/game/dynamic/LinkedList.h\<close>.
  Elements are addresses; the two pointers of every element are a store from addresses to
  optional addresses, so aliasing and dangling neighbours are visible. A list head owns two
  sentinel elements, \<^verbatim>\<open>iFirst\<close> and \<^verbatim>\<open>iLast\<close>. An operation that would follow a
  null pointer returns \<open>None\<close>. The predicate \<open>dll\<close> says which list of addresses a head
  stands for, and the operations are proved against it.
\<close>

section \<open>The pointer store\<close>

type_synonym addr = nat

record list_heap =
  iNext :: "addr \<Rightarrow> addr option"
  iPrev :: "addr \<Rightarrow> addr option"

definition set_next :: "addr \<Rightarrow> addr option \<Rightarrow> list_heap \<Rightarrow> list_heap" where
  "set_next e v h = h\<lparr>iNext := (iNext h)(e := v)\<rparr>"

definition set_prev :: "addr \<Rightarrow> addr option \<Rightarrow> list_heap \<Rightarrow> list_heap" where
  "set_prev e v h = h\<lparr>iPrev := (iPrev h)(e := v)\<rparr>"

lemma heap_upd_simps [list_heap_simps]:
  "iNext (set_next e v h) = (iNext h)(e := v)" "iPrev (set_next e v h) = iPrev h"
  "iPrev (set_prev e v h) = (iPrev h)(e := v)" "iNext (set_prev e v h) = iNext h"
  by (simp_all add: set_next_def set_prev_def)

section \<open>LinkedListElement\<close>

definition ll_hasNext :: "list_heap \<Rightarrow> addr \<Rightarrow> bool" where
  "ll_hasNext h e = (case iNext h e of None \<Rightarrow> False | Some n \<Rightarrow> iNext h n \<noteq> None)"

definition ll_hasPrev :: "list_heap \<Rightarrow> addr \<Rightarrow> bool" where
  "ll_hasPrev h e = (case iPrev h e of None \<Rightarrow> False | Some p \<Rightarrow> iPrev h p \<noteq> None)"

definition ll_isInList :: "list_heap \<Rightarrow> addr \<Rightarrow> bool" where
  "ll_isInList h e = (iNext h e \<noteq> None \<and> iPrev h e \<noteq> None)"

definition ll_next :: "list_heap \<Rightarrow> addr \<Rightarrow> addr option" where
  "ll_next h e = (if ll_hasNext h e then iNext h e else None)"

definition ll_prev :: "list_heap \<Rightarrow> addr \<Rightarrow> addr option" where
  "ll_prev h e = (if ll_hasPrev h e then iPrev h e else None)"

definition ll_delink :: "addr \<Rightarrow> list_heap \<Rightarrow> list_heap" where
  "ll_delink e h =
     (case (iNext h e, iPrev h e) of
        (Some n, Some p) \<Rightarrow>
          let h1 = set_prev n (Some p) h;
              h2 = set_next p (Some n) h1;
              h3 = set_next e None h2
          in set_prev e None h3
      | _ \<Rightarrow> h)"

definition ll_insertBefore :: "addr \<Rightarrow> addr \<Rightarrow> list_heap \<Rightarrow> list_heap option" where
  "ll_insertBefore this pElem h =
     (let h1 = set_next pElem (Some this) h;
          h2 = set_prev pElem (iPrev h1 this) h1
      in case iPrev h2 this of
           None \<Rightarrow> None
         | Some p \<Rightarrow> let h3 = set_next p (Some pElem) h2 in Some (set_prev this (Some pElem) h3))"

definition ll_insertAfter :: "addr \<Rightarrow> addr \<Rightarrow> list_heap \<Rightarrow> list_heap option" where
  "ll_insertAfter this pElem h =
     (let h1 = set_prev pElem (Some this) h;
          h2 = set_next pElem (iNext h1 this) h1
      in case iNext h2 this of
           None \<Rightarrow> None
         | Some n \<Rightarrow> let h3 = set_prev n (Some pElem) h2 in Some (set_next this (Some pElem) h3))"

section \<open>LinkedListHead\<close>

record list_head =
  iFirst :: addr
  iLast :: addr
  iSize :: u32

definition ll_head_init :: "list_head \<Rightarrow> list_heap \<Rightarrow> list_heap" where
  \<comment> \<open>the constructors of the head and of its two elements\<close>
  "ll_head_init lh h =
     (let h1 = set_prev (iFirst lh) None (set_next (iFirst lh) None h);
          h2 = set_prev (iLast lh) None (set_next (iLast lh) None h1)
      in set_prev (iLast lh) (Some (iFirst lh)) (set_next (iFirst lh) (Some (iLast lh)) h2))"

definition ll_isEmpty :: "list_heap \<Rightarrow> list_head \<Rightarrow> bool" where
  "ll_isEmpty h lh = (case iNext h (iFirst lh) of None \<Rightarrow> True | Some e \<Rightarrow> \<not> ll_isInList h e)"

definition ll_getFirst :: "list_heap \<Rightarrow> list_head \<Rightarrow> addr option" where
  "ll_getFirst h lh = (if ll_isEmpty h lh then None else iNext h (iFirst lh))"

definition ll_getLast :: "list_heap \<Rightarrow> list_head \<Rightarrow> addr option" where
  "ll_getLast h lh = (if ll_isEmpty h lh then None else iPrev h (iLast lh))"

definition ll_insertFirst :: "list_head \<Rightarrow> addr \<Rightarrow> list_heap \<Rightarrow> list_heap option" where
  "ll_insertFirst lh pElem h = ll_insertAfter (iFirst lh) pElem h"

definition ll_insertLast :: "list_head \<Rightarrow> addr \<Rightarrow> list_heap \<Rightarrow> list_heap option" where
  "ll_insertLast lh pElem h = ll_insertBefore (iLast lh) pElem h"

text \<open>
  The loop over the elements, as in \<^verbatim>\<open>getSize\<close> and in the \<^verbatim>\<open>Iterator\<close> loops of the
  clients: from an element along \<^verbatim>\<open>next()\<close> until it is null. On a cyclic store it does
  not return, which is \<open>None\<close>.
\<close>

partial_function (option) ll_walk :: "list_heap \<Rightarrow> addr option \<Rightarrow> addr list \<Rightarrow> addr list option" where
  "ll_walk h e acc =
     (case e of None \<Rightarrow> Some acc | Some a \<Rightarrow> ll_walk h (ll_next h a) (acc @ [a]))"

partial_function (option) ll_countLoop :: "list_heap \<Rightarrow> addr option \<Rightarrow> u32 \<Rightarrow> u32 option" where
  "ll_countLoop h e result =
     (case e of None \<Rightarrow> Some result | Some a \<Rightarrow> ll_countLoop h (ll_next h a) (result + 1))"

definition ll_getSize :: "list_heap \<Rightarrow> list_head \<Rightarrow> u32 option" where
  "ll_getSize h lh = (if iSize lh = 0 then ll_countLoop h (ll_getFirst h lh) 0 else Some (iSize lh))"

definition ll_incSize :: "list_head \<Rightarrow> list_head" where
  "ll_incSize lh = lh\<lparr>iSize := iSize lh + 1\<rparr>"

definition ll_decSize :: "list_head \<Rightarrow> list_head" where
  "ll_decSize lh = lh\<lparr>iSize := iSize lh - 1\<rparr>"

section \<open>What a store represents\<close>

fun linked :: "list_heap \<Rightarrow> addr list \<Rightarrow> bool" where
  "linked h (x # y # zs) = (iNext h x = Some y \<and> iPrev h y = Some x \<and> linked h (y # zs))"
| "linked h _ = True"

definition nodes :: "list_head \<Rightarrow> addr list \<Rightarrow> addr list" where
  "nodes lh xs = iFirst lh # xs @ [iLast lh]"

definition dll :: "list_heap \<Rightarrow> list_head \<Rightarrow> addr list \<Rightarrow> bool" where
  "dll h lh xs \<longleftrightarrow> distinct (nodes lh xs) \<and> linked h (nodes lh xs)
     \<and> iPrev h (iFirst lh) = None \<and> iNext h (iLast lh) = None"

lemma linked_split: "linked h (xs @ y # zs) \<longleftrightarrow> linked h (xs @ [y]) \<and> linked h (y # zs)"
proof (induction xs)
  case Nil
  then show ?case by (cases zs) auto
next
  case (Cons x xs)
  then show ?case by (cases xs) auto
qed

lemma linked_cong:
  assumes "linked h xs"
    and "\<And>x. x \<in> set (butlast xs) \<Longrightarrow> iNext h' x = iNext h x"
    and "\<And>x. x \<in> set (tl xs) \<Longrightarrow> iPrev h' x = iPrev h x"
  shows "linked h' xs"
  using assms
proof (induction xs rule: induct_list012)
  case (3 x y zs)
  from 3 have "linked h' (y # zs)"
    by (intro "3.IH"(2)) (auto dest: in_set_butlastD split: if_splits)
  with 3 show ?case by (auto split: if_splits)
qed auto

text \<open>Changing pointers of elements outside a list does not change the list.\<close>

lemma dll_frame:
  assumes "dll h lh xs"
    and "\<And>x. x \<in> set (nodes lh xs) \<Longrightarrow> iNext h' x = iNext h x \<and> iPrev h' x = iPrev h x"
  shows "dll h' lh xs"
proof -
  have "linked h' (nodes lh xs)"
    by (rule linked_cong [of h]) (use assms in \<open>auto simp: dll_def nodes_def dest: in_set_butlastD\<close>)
  then show ?thesis using assms by (auto simp: dll_def nodes_def)
qed

lemma dll_iSize [simp]: "dll h (lh\<lparr>iSize := n\<rparr>) xs = dll h lh xs"
  by (simp add: dll_def nodes_def)

section \<open>Insertion and removal\<close>

text \<open>The heart of both insertions: an element put between two neighbours.\<close>

definition between :: "addr \<Rightarrow> addr \<Rightarrow> addr \<Rightarrow> list_heap \<Rightarrow> list_heap" where
  "between p e n h =
     set_prev n (Some e) (set_next p (Some e) (set_prev e (Some p) (set_next e (Some n) h)))"

lemma ll_insertAfter_between:
  "iNext h p = Some n \<Longrightarrow> e \<noteq> p \<Longrightarrow> e \<noteq> n \<Longrightarrow> ll_insertAfter p e h = Some (between p e n h)"
  by (auto simp: ll_insertAfter_def between_def Let_def set_next_def set_prev_def fun_upd_twist)

lemma ll_insertBefore_between:
  "iPrev h n = Some p \<Longrightarrow> e \<noteq> p \<Longrightarrow> e \<noteq> n \<Longrightarrow> ll_insertBefore n e h = Some (between p e n h)"
  by (auto simp: ll_insertBefore_def between_def Let_def set_next_def set_prev_def fun_upd_twist)

lemma linked_between:
  assumes "linked h (xs @ p # n # ys)" and "distinct (xs @ p # n # ys)" and "e \<notin> set (xs @ p # n # ys)"
  shows "linked (between p e n h) (xs @ p # e # n # ys)"
proof -
  have l: "linked h (xs @ [p])" "linked h (n # ys)"
    using assms(1) linked_split [of h xs p "n # ys"] by auto
  have "linked (between p e n h) (xs @ [p])"
    by (rule linked_cong [OF l(1)])
       (use assms(2,3) in \<open>auto simp: between_def list_heap_simps butlast_append dest: list.set_sel(2) [rotated]\<close>)
  moreover have "linked (between p e n h) (n # ys)"
    by (rule linked_cong [OF l(2)])
       (use assms(2,3) in \<open>auto simp: between_def list_heap_simps dest: in_set_butlastD split: if_splits\<close>)
  moreover have "e \<noteq> p" "e \<noteq> n" "p \<noteq> n" using assms(2,3) by auto
  ultimately show ?thesis
    by (subst linked_split) (simp add: between_def list_heap_simps)
qed

lemma nodes_split_first: "\<exists>n ys. nodes lh xs = iFirst lh # n # ys \<and> nodes lh (e # xs) = iFirst lh # e # n # ys"
  by (cases xs) (auto simp: nodes_def)

lemma nodes_split_last:
  "\<exists>ws p. nodes lh xs = ws @ [p, iLast lh] \<and> nodes lh (xs @ [e]) = ws @ [p, e, iLast lh]"
  by (cases xs rule: rev_cases) (auto simp: nodes_def)

lemma dll_insertFirst:
  assumes "dll h lh xs" and "e \<notin> set (nodes lh xs)"
  shows "\<exists>n. ll_insertFirst lh e h = Some (between (iFirst lh) e n h) \<and> n \<in> set (nodes lh xs)
    \<and> dll (between (iFirst lh) e n h) lh (e # xs)"
proof -
  obtain n ys where n: "nodes lh xs = [] @ iFirst lh # n # ys" "nodes lh (e # xs) = [] @ iFirst lh # e # n # ys"
    using nodes_split_first [of lh xs e] by auto
  have d: "distinct (nodes lh (e # xs))" using assms by (auto simp: dll_def nodes_def)
  have "linked (between (iFirst lh) e n h) (nodes lh (e # xs))"
    unfolding n(2) by (rule linked_between) (use assms in \<open>auto simp: dll_def n(1)\<close>)
  moreover have "n \<noteq> iFirst lh" "e \<noteq> iFirst lh" "e \<noteq> n" "e \<noteq> iLast lh" "iFirst lh \<noteq> iLast lh"
    using d by (auto simp: n(2), simp_all add: nodes_def)
  moreover have "iNext h (iFirst lh) = Some n" using assms(1) n(1) by (simp add: dll_def)
  ultimately show ?thesis
    using assms(1) d n(1)
    by (intro exI [of _ n])
       (auto simp: ll_insertFirst_def ll_insertAfter_between dll_def, auto simp: between_def list_heap_simps)
qed

lemma dll_insertLast:
  assumes "dll h lh xs" and "e \<notin> set (nodes lh xs)"
  shows "\<exists>p. ll_insertLast lh e h = Some (between p e (iLast lh) h) \<and> p \<in> set (nodes lh xs)
    \<and> dll (between p e (iLast lh) h) lh (xs @ [e])"
proof -
  obtain ws p where n: "nodes lh xs = ws @ p # iLast lh # []" "nodes lh (xs @ [e]) = ws @ p # e # iLast lh # []"
    using nodes_split_last [of lh xs e] by auto
  have d: "distinct (nodes lh (xs @ [e]))" using assms by (auto simp: dll_def nodes_def)
  have "linked (between p e (iLast lh) h) (nodes lh (xs @ [e]))"
    unfolding n(2) by (rule linked_between) (use assms in \<open>auto simp: dll_def n(1)\<close>)
  moreover have "p \<noteq> iLast lh" "e \<noteq> iLast lh" "e \<noteq> p" "e \<noteq> iFirst lh" "iFirst lh \<noteq> iLast lh"
    using d by (auto simp: n(2), simp_all add: nodes_def)
  moreover have "iPrev h (iLast lh) = Some p"
    using assms(1) n(1) linked_split [of h ws p "[iLast lh]"] by (simp add: dll_def)
  ultimately show ?thesis
    using assms(1) d n(1)
    by (intro exI [of _ p])
       (auto simp: ll_insertLast_def ll_insertBefore_between dll_def, auto simp: between_def list_heap_simps)
qed

lemma dll_neighbours:
  assumes "dll h lh (xs @ e # ys)"
  shows "\<exists>as p n bs. nodes lh (xs @ e # ys) = as @ p # e # n # bs \<and> nodes lh (xs @ ys) = as @ p # n # bs
    \<and> iNext h e = Some n \<and> iPrev h e = Some p"
proof -
  obtain as p where p: "iFirst lh # xs = as @ [p]" by (metis list.discI rev_exhaust)
  obtain n bs where n: "ys @ [iLast lh] = n # bs" by (cases ys) auto
  have eq: "nodes lh (xs @ e # ys) = as @ p # e # n # bs" "nodes lh (xs @ ys) = as @ p # n # bs"
    using p n by (simp_all add: nodes_def)
  have "linked h (p # e # n # bs)"
    using assms linked_split [of h as p "e # n # bs"] by (simp add: dll_def eq(1))
  then show ?thesis using eq by auto
qed

lemma linked_delink:
  assumes "linked h (as @ p # e # n # bs)" and "distinct (as @ p # e # n # bs)"
  shows "linked (ll_delink e h) (as @ p # n # bs)"
    and "ll_delink e h = set_prev e None (set_next e None (set_next p (Some n) (set_prev n (Some p) h)))"
proof -
  have l: "linked h (as @ [p])" "linked h (p # e # n # bs)"
    using assms(1) linked_split [of h as p "e # n # bs"] by auto
  show eq: "ll_delink e h = set_prev e None (set_next e None (set_next p (Some n) (set_prev n (Some p) h)))"
    using l(2) by (simp add: ll_delink_def Let_def)
  have "linked (ll_delink e h) (as @ [p])"
    by (rule linked_cong [OF l(1)], unfold eq)
       (use assms(2) in \<open>auto simp: list_heap_simps butlast_append dest: list.set_sel(2) [rotated]\<close>)
  moreover have "linked (ll_delink e h) (n # bs)"
    by (rule linked_cong [of h], unfold eq)
       (use assms(2) l(2) in \<open>auto simp: list_heap_simps dest: in_set_butlastD split: if_splits\<close>)
  ultimately show "linked (ll_delink e h) (as @ p # n # bs)"
    using assms(2) by (subst linked_split) (auto simp: eq list_heap_simps)
qed

lemma dll_delink:
  assumes "dll h lh (xs @ e # ys)"
  shows "dll (ll_delink e h) lh (xs @ ys)" and "\<not> ll_isInList (ll_delink e h) e"
    and "iNext (ll_delink e h) e = None" and "iPrev (ll_delink e h) e = None"
    and "\<And>x. x \<notin> set (nodes lh (xs @ e # ys)) \<Longrightarrow>
           iNext (ll_delink e h) x = iNext h x \<and> iPrev (ll_delink e h) x = iPrev h x"
proof -
  obtain as p n bs where n: "nodes lh (xs @ e # ys) = as @ p # e # n # bs" "nodes lh (xs @ ys) = as @ p # n # bs"
    using dll_neighbours [OF assms] by blast
  have h: "linked h (as @ p # e # n # bs)" "distinct (as @ p # e # n # bs)"
    using assms by (auto simp: dll_def n(1))
  note del = linked_delink [OF h]
  show "iNext (ll_delink e h) e = None" "iPrev (ll_delink e h) e = None" "\<not> ll_isInList (ll_delink e h) e"
    by (auto simp: del(2) list_heap_simps ll_isInList_def)
  show "iNext (ll_delink e h) x = iNext h x \<and> iPrev (ll_delink e h) x = iPrev h x"
    if "x \<notin> set (nodes lh (xs @ e # ys))" for x
    using that by (auto simp: n(1) del(2) list_heap_simps)
  have "n \<noteq> iFirst lh" "p \<noteq> iLast lh" "e \<noteq> iFirst lh" "e \<noteq> iLast lh"
  proof -
    have "iFirst lh \<in> set (as @ [p])"
      using n(2) by (cases as) (auto simp: nodes_def)
    moreover have "last (nodes lh (xs @ ys)) = iLast lh" by (simp add: nodes_def)
    then have "iLast lh \<in> set (n # bs)"
      unfolding n(2) by (metis last_appendR last_ConsR last_in_set list.discI)
    ultimately show "n \<noteq> iFirst lh" "p \<noteq> iLast lh" "e \<noteq> iFirst lh" "e \<noteq> iLast lh"
      using h(2) by auto
  qed
  then show "dll (ll_delink e h) lh (xs @ ys)"
    using del assms h(2) by (auto simp: dll_def n del(2) list_heap_simps)
qed

section \<open>Traversal\<close>

lemma linked_next:
  assumes "linked h (y # ys @ [l])" and "iNext h l = None"
  shows "ll_next h y = (case ys of [] \<Rightarrow> None | z # _ \<Rightarrow> Some z)"
  using assms by (cases ys rule: list.exhaust; cases "tl ys") (auto simp: ll_next_def ll_hasNext_def)

lemma ll_walk_linked:
  assumes "linked h (ys @ [l])" and "iNext h l = None"
  shows "ll_walk h (case ys of [] \<Rightarrow> None | y # _ \<Rightarrow> Some y) acc = Some (acc @ ys)"
  using assms
proof (induction ys arbitrary: acc)
  case Nil
  then show ?case by (simp add: ll_walk.simps)
next
  case (Cons y ys)
  then have "linked h (ys @ [l])" by (cases ys) auto
  then show ?case using Cons linked_next [of h y ys l] by (simp add: ll_walk.simps [of h "Some y"])
qed

lemma ll_countLoop_linked:
  assumes "linked h (ys @ [l])" and "iNext h l = None"
  shows "ll_countLoop h (case ys of [] \<Rightarrow> None | y # _ \<Rightarrow> Some y) c = Some (c + of_nat (length ys))"
  using assms
proof (induction ys arbitrary: c)
  case Nil
  then show ?case by (simp add: ll_countLoop.simps)
next
  case (Cons y ys)
  then have "linked h (ys @ [l])" by (cases ys) auto
  then show ?case
    using Cons linked_next [of h y ys l] by (simp add: ll_countLoop.simps [of h "Some y"] algebra_simps)
qed

lemma dll_getFirst:
  assumes "dll h lh xs"
  shows "ll_getFirst h lh = (case xs of [] \<Rightarrow> None | x # _ \<Rightarrow> Some x)"
  using assms
  by (cases xs; cases "tl xs") (auto simp: dll_def nodes_def ll_getFirst_def ll_isEmpty_def ll_isInList_def)

lemma dll_tail: "dll h lh xs \<Longrightarrow> linked h (xs @ [iLast lh]) \<and> iNext h (iLast lh) = None"
  by (cases xs) (auto simp: dll_def nodes_def)

lemma dll_isEmpty: "dll h lh xs \<Longrightarrow> ll_isEmpty h lh = (xs = [])"
  by (cases xs; cases "tl xs") (auto simp: dll_def nodes_def ll_isEmpty_def ll_isInList_def)

lemma dll_getLast:
  assumes "dll h lh xs"
  shows "ll_getLast h lh = (if xs = [] then None else Some (last xs))"
proof (cases xs rule: rev_cases)
  case Nil
  then show ?thesis using assms by (simp add: ll_getLast_def dll_isEmpty)
next
  case (snoc ys y)
  then have "linked h ((iFirst lh # ys) @ [y, iLast lh])" using assms by (simp add: dll_def nodes_def)
  then have "iPrev h (iLast lh) = Some y" using linked_split [of h "iFirst lh # ys" y "[iLast lh]"] by simp
  then show ?thesis using assms snoc by (simp add: ll_getLast_def dll_isEmpty)
qed

lemma dll_walk: "dll h lh xs \<Longrightarrow> ll_walk h (ll_getFirst h lh) [] = Some xs"
  using dll_tail [of h lh xs] ll_walk_linked [of h xs "iLast lh" "[]"] by (simp add: dll_getFirst)

lemma dll_getSize:
  assumes "dll h lh xs" and "iSize lh = of_nat (length xs)"
  shows "ll_getSize h lh = Some (of_nat (length xs))"
  using assms dll_tail [of h lh xs] ll_countLoop_linked [of h xs "iLast lh" 0]
  by (simp add: ll_getSize_def dll_getFirst)

lemma dll_init: "iFirst lh \<noteq> iLast lh \<Longrightarrow> dll (ll_head_init lh h) lh []"
  by (simp add: dll_def nodes_def ll_head_init_def Let_def list_heap_simps)

lemma dll_isInList: "dll h lh xs \<Longrightarrow> e \<in> set xs \<Longrightarrow> ll_isInList h e"
  using dll_neighbours by (metis ll_isInList_def option.discI split_list)

end
