(* ===== verification/References.thy ===== *)
theory References
  imports Linked_List "HOL-Library.Monad_Syntax"
begin

text \<open>
  The links between game objects: \<^verbatim>\<open>Reference\<close> and \<^verbatim>\<open>RefManager\<close> of
  \<^verbatim>\<open>src/worldserver/game/dynamic/reference/\<close>, with the \<^verbatim>\<open>buildLink\<close> and
  \<^verbatim>\<open>destroyLink\<close> of the grid and launch references (an object is put first into the list
  of its target and the target's counter is adjusted). A reference is a list element, named
  by its address; a manager is a list head, named by a number. The locale \<open>ref_list\<close> states what
  the managers need of the list below them; it is interpreted on the pointer list of
  \<^verbatim>\<open>LinkedList.h\<close>.
\<close>

section \<open>What the managers need of a list\<close>

locale ref_list =
  fixes repr :: "'h \<Rightarrow> 'l \<Rightarrow> addr list \<Rightarrow> bool"
    and own :: "'l \<Rightarrow> addr set"
    and ins :: "'l \<Rightarrow> addr \<Rightarrow> 'h \<Rightarrow> 'h option"
    and del :: "addr \<Rightarrow> 'h \<Rightarrow> 'h"
  assumes repr_distinct: "repr h l xs \<Longrightarrow> distinct xs \<and> set xs \<inter> own l = {}"
    and ins_repr: "repr h l xs \<Longrightarrow> e \<notin> own l \<union> set xs \<Longrightarrow> \<exists>h'. ins l e h = Some h' \<and> repr h' l (e # xs)"
    and ins_frame: "repr h l xs \<Longrightarrow> e \<notin> own l \<union> set xs \<Longrightarrow> ins l e h = Some h' \<Longrightarrow> repr h k ys \<Longrightarrow>
      (own k \<union> set ys) \<inter> insert e (own l \<union> set xs) = {} \<Longrightarrow> repr h' k ys"
    and del_repr: "repr h l (xs @ e # ys) \<Longrightarrow> repr (del e h) l (xs @ ys)"
    and del_frame: "repr h l (xs @ e # ys) \<Longrightarrow> repr h k zs \<Longrightarrow>
      (own k \<union> set zs) \<inter> (own l \<union> set (xs @ e # ys)) = {} \<Longrightarrow> repr (del e h) k zs"
begin

text \<open>A family of lists that share a store, no two of them a cell.\<close>

definition family :: "'h \<Rightarrow> (nat \<Rightarrow> 'l) \<Rightarrow> (nat \<Rightarrow> addr list) \<Rightarrow> bool" where
  "family h L C \<longleftrightarrow> (\<forall>m. repr h (L m) (C m))
     \<and> (\<forall>m k. m \<noteq> k \<longrightarrow> (own (L m) \<union> set (C m)) \<inter> (own (L k) \<union> set (C k)) = {})"

lemma family_repr: "family h L C \<Longrightarrow> repr h (L m) (C m)"
  by (simp add: family_def)

lemma family_apart:
  "family h L C \<Longrightarrow> m \<noteq> k \<Longrightarrow> (own (L m) \<union> set (C m)) \<inter> (own (L k) \<union> set (C k)) = {}"
  by (simp add: family_def)

lemma family_unique: "family h L C \<Longrightarrow> e \<in> set (C m) \<Longrightarrow> e \<in> set (C k) \<Longrightarrow> m = k"
  using family_apart by fastforce

lemma family_ins:
  assumes "family h L C" and new: "\<And>k. e \<notin> own (L k) \<union> set (C k)"
  shows "\<exists>h'. ins (L m) e h = Some h' \<and> family h' L (C(m := e # C m))"
proof -
  obtain h' where h': "ins (L m) e h = Some h'" "repr h' (L m) (e # C m)"
    using ins_repr [OF family_repr [OF assms(1)] new] by blast
  have "repr h' (L k) (C k)" if "k \<noteq> m" for k
    by (rule ins_frame [OF family_repr [OF assms(1)] new h'(1) family_repr [OF assms(1)]])
       (use family_apart [OF assms(1) that] new [of k] in blast)
  moreover have "(own (L a) \<union> set ((C(m := e # C m)) a)) \<inter> (own (L b) \<union> set ((C(m := e # C m)) b)) = {}"
    if "a \<noteq> b" for a b
    using family_apart [OF assms(1) that] new [of a] new [of b] that by (auto split: if_splits)
  ultimately have "family h' L (C(m := e # C m))" using h'(2) unfolding family_def by auto
  with h'(1) show ?thesis by blast
qed

lemma family_del:
  assumes "family h L C" and "C m = xs @ e # ys"
  shows "family (del e h) L (C(m := xs @ ys))"
proof -
  have m: "repr h (L m) (xs @ e # ys)" using family_repr [OF assms(1), of m] assms(2) by simp
  have "repr (del e h) (L k) (C k)" if "k \<noteq> m" for k
    by (rule del_frame [OF m family_repr [OF assms(1)]])
       (use family_apart [OF assms(1) that] assms(2) in simp)
  moreover have "(own (L a) \<union> set ((C(m := xs @ ys)) a)) \<inter> (own (L b) \<union> set ((C(m := xs @ ys)) b)) = {}"
    if "a \<noteq> b" for a b
    using family_apart [OF assms(1) that] that assms(2) by (auto split: if_splits)
  ultimately show ?thesis using del_repr [OF m] unfolding family_def by auto
qed

end

definition head_cells :: "list_head \<Rightarrow> addr set" where
  "head_cells lh = {iFirst lh, iLast lh}"

lemma nodes_cells: "set (nodes lh xs) = head_cells lh \<union> set xs"
  by (auto simp: nodes_def head_cells_def)

lemma between_frame:
  "x \<notin> {p, e, n} \<Longrightarrow> iNext (between p e n h) x = iNext h x \<and> iPrev (between p e n h) x = iPrev h x"
  by (simp add: between_def list_heap_simps)

interpretation rl: ref_list dll head_cells ll_insertFirst ll_delink
proof unfold_locales
  fix h l k e h' and xs ys zs :: "addr list"
  show "distinct xs \<and> set xs \<inter> head_cells l = {}" if "dll h l xs"
    using that by (auto simp: dll_def nodes_def head_cells_def)
  show "\<exists>h'. ll_insertFirst l e h = Some h' \<and> dll h' l (e # xs)"
    if "dll h l xs" "e \<notin> head_cells l \<union> set xs"
    using dll_insertFirst [of h l xs e] that by (auto simp: nodes_cells)
  show "dll h' k ys" if *: "dll h l xs" "e \<notin> head_cells l \<union> set xs" "ll_insertFirst l e h = Some h'"
    "dll h k ys" "(head_cells k \<union> set ys) \<inter> insert e (head_cells l \<union> set xs) = {}"
  proof -
    obtain n where n: "h' = between (iFirst l) e n h" "n \<in> head_cells l \<union> set xs"
      using dll_insertFirst [of h l xs e] * by (auto simp: nodes_cells)
    show ?thesis
      by (rule dll_frame [OF *(4)], unfold n(1), rule between_frame)
         (use n(2) *(5) in \<open>auto simp: nodes_cells head_cells_def\<close>)
  qed
  show "dll (ll_delink e h) l (xs @ ys)" if "dll h l (xs @ e # ys)"
    by (rule dll_delink(1) [OF that])
  show "dll (ll_delink e h) k zs" if *: "dll h l (xs @ e # ys)" "dll h k zs"
    "(head_cells k \<union> set zs) \<inter> (head_cells l \<union> set (xs @ e # ys)) = {}"
    by (rule dll_frame [OF *(2)], rule dll_delink(5) [OF *(1)]) (use *(3) in \<open>auto simp: nodes_cells\<close>)
qed

lemma family_iSize:
  "rl.family h (L(m := (L m)\<lparr>iSize := n\<rparr>)) C = rl.family h L C"
proof -
  have c: "head_cells ((L(m := (L m)\<lparr>iSize := n\<rparr>)) k) = head_cells (L k)" for k
    by (simp add: head_cells_def)
  have d: "dll h ((L(m := (L m)\<lparr>iSize := n\<rparr>)) k) xs = dll h (L k) xs" for k xs by simp
  show ?thesis unfolding rl.family_def c d ..
qed

section \<open>The references and their managers\<close>

record ref_world =
  heap :: list_heap
  heads :: "nat \<Rightarrow> list_head"
  iRefTo :: "addr \<Rightarrow> nat option"
  iRefFrom :: "addr \<Rightarrow> addr option"

definition rf_isValid :: "ref_world \<Rightarrow> addr \<Rightarrow> bool" where
  "rf_isValid w e = (iRefTo w e \<noteq> None \<and> iRefFrom w e \<noteq> None)"

definition rf_getTarget :: "ref_world \<Rightarrow> addr \<Rightarrow> nat option" where
  "rf_getTarget w e = iRefTo w e"

definition rf_getSource :: "ref_world \<Rightarrow> addr \<Rightarrow> addr option" where
  "rf_getSource w e = iRefFrom w e"

definition rf_buildLink :: "addr \<Rightarrow> ref_world \<Rightarrow> ref_world option" where
  "rf_buildLink e w = do {
     m \<leftarrow> rf_getTarget w e;
     h \<leftarrow> ll_insertFirst (heads w m) e (heap w);
     Some (w\<lparr>heap := h, heads := (heads w)(m := ll_incSize (heads w m))\<rparr>) }"

definition rf_destroyLink :: "addr \<Rightarrow> ref_world \<Rightarrow> ref_world option" where
  "rf_destroyLink e w = do {
     m \<leftarrow> rf_getTarget w e;
     Some (w\<lparr>heads := (heads w)(m := ll_decSize (heads w m))\<rparr>) }"

definition rf_unlink :: "addr \<Rightarrow> ref_world \<Rightarrow> ref_world option" where
  "rf_unlink e w =
     (if \<not> rf_isValid w e then Some w
      else do {
        w1 \<leftarrow> rf_destroyLink e w;
        Some (w1\<lparr>heap := ll_delink e (heap w1), iRefTo := (iRefTo w1)(e := None),
                 iRefFrom := (iRefFrom w1)(e := None)\<rparr>) })"

definition rf_link :: "addr \<Rightarrow> nat option \<Rightarrow> addr option \<Rightarrow> ref_world \<Rightarrow> ref_world option" where
  "rf_link e toObj fromObj w =
     (if toObj = None \<or> fromObj = None then None
      else do {
        w1 \<leftarrow> (if rf_isValid w e then rf_unlink e w else Some w);
        rf_buildLink e (w1\<lparr>iRefTo := (iRefTo w1)(e := toObj), iRefFrom := (iRefFrom w1)(e := fromObj)\<rparr>) })"

definition rm_getFirst :: "ref_world \<Rightarrow> nat \<Rightarrow> addr option" where
  "rm_getFirst w m = ll_getFirst (heap w) (heads w m)"

definition rm_getSize :: "ref_world \<Rightarrow> nat \<Rightarrow> u32 option" where
  "rm_getSize w m = ll_getSize (heap w) (heads w m)"

definition rm_iterate :: "ref_world \<Rightarrow> nat \<Rightarrow> addr list option" where
  \<comment> \<open>the elements a loop from \<open>begin()\<close> to \<open>end()\<close> visits\<close>
  "rm_iterate w m = ll_walk (heap w) (rm_getFirst w m) []"

partial_function (option) rm_clearReferences :: "nat \<Rightarrow> ref_world \<Rightarrow> ref_world option" where
  "rm_clearReferences m w =
     (case rm_getFirst w m of
        None \<Rightarrow> Some w
      | Some e \<Rightarrow> Option.bind (rf_unlink e w) (rm_clearReferences m))"

section \<open>The invariant\<close>

text \<open>
  The world \<open>w\<close> represents the lists \<open>C\<close>: every manager's pointers form its list, its counter
  is the length of the list, and a reference is on the list of exactly the manager it points to.
\<close>

definition refs_ok :: "(nat \<Rightarrow> addr list) \<Rightarrow> ref_world \<Rightarrow> bool" where
  "refs_ok C w \<longleftrightarrow> rl.family (heap w) (heads w) C
     \<and> (\<forall>m. iSize (heads w m) = of_nat (length (C m)))
     \<and> (\<forall>e m. iRefTo w e = Some m \<longleftrightarrow> e \<in> set (C m))
     \<and> (\<forall>e. iRefTo w e = None \<longleftrightarrow> iRefFrom w e = None)"

definition without :: "addr \<Rightarrow> (nat \<Rightarrow> addr list) \<Rightarrow> nat \<Rightarrow> addr list" where
  "without e C m = removeAll e (C m)"

lemma without_id: "\<forall>m. e \<notin> set (C m) \<Longrightarrow> without e C = C"
  by (auto simp: without_def)

lemma without_split:
  assumes "rl.family h L C" and "C m = xs @ e # ys"
  shows "without e C = C(m := xs @ ys)"
proof
  fix k
  have "distinct (xs @ e # ys)"
    using rl.family_repr [OF assms(1), of m] rl.repr_distinct assms(2) by metis
  moreover have "e \<notin> set (C k)" if "k \<noteq> m"
    using rl.family_unique [OF assms(1), of e m k] assms(2) that by auto
  ultimately show "without e C k = (C(m := xs @ ys)) k" using assms(2) by (simp add: without_def)
qed

lemma rf_unlink_ok:
  assumes "refs_ok C w"
  shows "\<exists>w'. rf_unlink e w = Some w' \<and> refs_ok (without e C) w' \<and> iRefTo w' = (iRefTo w)(e := None)
    \<and> iRefFrom w' = (iRefFrom w)(e := None) \<and> (\<forall>k. head_cells (heads w' k) = head_cells (heads w k))"
proof (cases "iRefTo w e")
  case None
  then have "without e C = C" using assms without_id [of e C] unfolding refs_ok_def by (metis option.discI)
  moreover have "(iRefTo w)(e := None) = iRefTo w" "(iRefFrom w)(e := None) = iRefFrom w"
    by (rule fun_upd_idem, use None assms in \<open>simp add: refs_ok_def\<close>)+
  ultimately show ?thesis using None assms by (simp add: rf_unlink_def rf_isValid_def)
next
  case (Some m)
  then obtain xs ys where C: "C m = xs @ e # ys" using assms by (metis refs_ok_def split_list)
  have fam: "rl.family (heap w) (heads w) C" using assms by (simp add: refs_ok_def)
  note wo = without_split [OF fam C]
  define w' where "w' = w\<lparr>heads := (heads w)(m := ll_decSize (heads w m)), heap := ll_delink e (heap w),
    iRefTo := (iRefTo w)(e := None), iRefFrom := (iRefFrom w)(e := None)\<rparr>"
  have "rf_isValid w e" using Some assms unfolding refs_ok_def rf_isValid_def by (metis option.discI)
  then have "rf_unlink e w = Some w'"
    using Some by (simp add: rf_unlink_def rf_destroyLink_def rf_getTarget_def w'_def)
  moreover have "rl.family (heap w') (heads w') (without e C)"
    using rl.family_del [OF fam C] by (simp add: w'_def wo ll_decSize_def family_iSize)
  moreover have "\<forall>k. iSize (heads w' k) = of_nat (length (without e C k))"
    using assms C by (simp add: refs_ok_def w'_def wo ll_decSize_def)
  moreover have "\<forall>x k. iRefTo w' x = Some k \<longleftrightarrow> x \<in> set (without e C k)"
    using assms by (simp add: refs_ok_def w'_def without_def)
  moreover have "\<forall>x. iRefTo w' x = None \<longleftrightarrow> iRefFrom w' x = None"
    using assms by (simp add: refs_ok_def w'_def)
  moreover have "\<forall>k. head_cells (heads w' k) = head_cells (heads w k)"
    by (simp add: head_cells_def w'_def ll_decSize_def)
  ultimately show ?thesis by (intro exI [of _ w']) (simp add: refs_ok_def w'_def)
qed

lemma rf_buildLink_ok:
  assumes "refs_ok C w" and "iRefTo w e = None" and "\<And>k. e \<notin> head_cells (heads w k)"
  shows "\<exists>w'. rf_buildLink e (w\<lparr>iRefTo := (iRefTo w)(e := Some m), iRefFrom := (iRefFrom w)(e := Some f)\<rparr>) = Some w'
    \<and> refs_ok (C(m := e # C m)) w' \<and> iRefTo w' = (iRefTo w)(e := Some m) \<and> iRefFrom w' = (iRefFrom w)(e := Some f)"
proof -
  have new: "e \<notin> head_cells (heads w k) \<union> set (C k)" for k
    using assms unfolding refs_ok_def by (metis Un_iff option.discI)
  obtain h' where "ll_insertFirst (heads w m) e (heap w) = Some h'" "rl.family h' (heads w) (C(m := e # C m))"
    using rl.family_ins [of "heap w" "heads w" C e m] assms(1) new by (auto simp: refs_ok_def)
  then show ?thesis
    using assms new by (auto simp: rf_buildLink_def rf_getTarget_def refs_ok_def ll_incSize_def family_iSize)
qed

text \<open>Every manager's size and iteration report its list.\<close>

lemma rm_observe:
  assumes "refs_ok C w"
  shows "rm_getSize w m = Some (of_nat (length (C m)))" and "rm_iterate w m = Some (C m)"
    and "rm_getFirst w m = (case C m of [] \<Rightarrow> None | x # _ \<Rightarrow> Some x)"
proof -
  have d: "dll (heap w) (heads w m) (C m)" "iSize (heads w m) = of_nat (length (C m))"
    using assms by (auto simp: refs_ok_def rl.family_def)
  show "rm_getSize w m = Some (of_nat (length (C m)))" using dll_getSize [OF d] by (simp add: rm_getSize_def)
  show "rm_iterate w m = Some (C m)" using dll_walk [OF d(1)] by (simp add: rm_iterate_def rm_getFirst_def)
  show "rm_getFirst w m = (case C m of [] \<Rightarrow> None | x # _ \<Rightarrow> Some x)"
    using dll_getFirst [OF d(1)] by (simp add: rm_getFirst_def)
qed

lemma rf_link_ok:
  assumes "refs_ok C w" and "\<And>k. e \<notin> head_cells (heads w k)"
  shows "\<exists>w'. rf_link e (Some m) (Some f) w = Some w' \<and> refs_ok ((without e C)(m := e # without e C m)) w'
    \<and> iRefTo w' e = Some m \<and> iRefFrom w' e = Some f"
proof -
  obtain w1 where w1: "(if rf_isValid w e then rf_unlink e w else Some w) = Some w1"
    "refs_ok (without e C) w1" "iRefTo w1 = (iRefTo w)(e := None)" "\<forall>k. head_cells (heads w1 k) = head_cells (heads w k)"
    using rf_unlink_ok [OF assms(1), of e] by (cases "rf_isValid w e") (auto simp: rf_unlink_def)
  obtain w' where "rf_link e (Some m) (Some f) w = Some w'" "refs_ok ((without e C)(m := e # without e C m)) w'"
    "iRefTo w' = (iRefTo w1)(e := Some m)" "iRefFrom w' = (iRefFrom w1)(e := Some f)"
    using rf_buildLink_ok [OF w1(2), where e = e and m = m and f = f] w1 assms(2) by (auto simp: rf_link_def)
  then show ?thesis by auto
qed

section \<open>Properties\<close>

text \<open>
  C8: linking a reference to a manager always succeeds and keeps the world consistent: the
  reference leaves whatever list it was on, becomes the first element of its new target's list,
  appears there once and nowhere else, and all other lists are unchanged.
\<close>

theorem link_moves_reference:
  assumes "refs_ok C w" and "\<And>k. e \<notin> head_cells (heads w k)"
  shows "\<exists>w'. rf_link e (Some m) (Some f) w = Some w'
    \<and> refs_ok ((without e C)(m := e # without e C m)) w'
    \<and> rf_getTarget w' e = Some m \<and> rf_getSource w' e = Some f
    \<and> rm_iterate w' m = Some (e # without e C m)
    \<and> (\<forall>k. k \<noteq> m \<longrightarrow> rm_iterate w' k = Some (without e C k))"
  using rf_link_ok [OF assms, where m = m and f = f]
  by (auto simp: rf_getTarget_def rf_getSource_def rm_observe(2))

text \<open>
  C9: \<open>clearReferences\<close> returns, and afterwards the manager is empty with counter zero, every
  reference it held is unlinked, and the other managers are as they were.
\<close>

theorem clear_references_empties:
  assumes "refs_ok C w"
  shows "\<exists>w'. rm_clearReferences m w = Some w' \<and> refs_ok (C(m := [])) w'
    \<and> rm_getSize w' m = Some 0 \<and> rm_getFirst w' m = None
    \<and> (\<forall>e. iRefTo w' e = (if iRefTo w e = Some m then None else iRefTo w e))"
  using assms
proof (induction "C m" arbitrary: C w)
  case Nil
  then have "C(m := []) = C" by auto
  moreover have "iRefTo w e \<noteq> Some m" for e using Nil by (simp add: refs_ok_def)
  ultimately show ?case
    using Nil rm_observe [OF Nil(2), of m] by (simp add: rm_clearReferences.simps)
next
  case (Cons e es)
  obtain w1 where w1: "rf_unlink e w = Some w1" "refs_ok (without e C) w1" "iRefTo w1 = (iRefTo w)(e := None)"
    using rf_unlink_ok [OF Cons(3), of e] by blast
  have "rl.family (heap w) (heads w) C" using Cons(3) by (simp add: refs_ok_def)
  from without_split [OF this, of m "[]" e es] have wo: "without e C = C(m := es)" using Cons(2) by simp
  have to: "iRefTo w e = Some m" using Cons(2,3) by (metis list.set_intros(1) refs_ok_def)
  have step: "rm_clearReferences m w = rm_clearReferences m w1"
    using rm_observe(3) [OF Cons(3), of m] Cons(2) w1(1) by (simp add: rm_clearReferences.simps [of m w] split: list.splits)
  have "\<exists>w'. rm_clearReferences m w1 = Some w' \<and> refs_ok ((C(m := es))(m := [])) w'
    \<and> rm_getSize w' m = Some 0 \<and> rm_getFirst w' m = None
    \<and> (\<forall>e. iRefTo w' e = (if iRefTo w1 e = Some m then None else iRefTo w1 e))"
    by (rule Cons(1)) (use w1(2) wo in simp_all)
  then show ?case using step w1(3) to by auto
qed

text \<open>A concrete world: the heads at \<open>3 m + 1\<close> and \<open>3 m + 2\<close>, everything else unlinked.\<close>

definition empty_world :: ref_world where
  "empty_world = \<lparr>heap = \<lparr>iNext = (\<lambda>x. if x mod 3 = 1 then Some (x + 1) else None),
                            iPrev = (\<lambda>x. if x mod 3 = 2 then Some (x - 1) else None)\<rparr>,
     heads = (\<lambda>m. \<lparr>iFirst = 3 * m + 1, iLast = 3 * m + 2, iSize = 0\<rparr>),
     iRefTo = (\<lambda>_. None), iRefFrom = (\<lambda>_. None)\<rparr>"

lemma empty_world_ok: "refs_ok (\<lambda>_. []) empty_world"
proof -
  have "(3 * m + 1) mod 3 = 1" "(3 * m + 2) mod 3 = 2" for m :: nat by presburger+
  then show ?thesis
    by (auto simp: refs_ok_def rl.family_def empty_world_def dll_def nodes_def head_cells_def; presburger)
qed

lemma empty_world_free: "e mod 3 = 0 \<Longrightarrow> e \<notin> head_cells (heads empty_world k)"
  by (auto simp: empty_world_def head_cells_def; presburger)

theorem link_moves_reference_witness:
  "\<exists>w'. rf_link 6 (Some 4) (Some 9) empty_world = Some w' \<and> rm_iterate w' 4 = Some [6] \<and> rm_iterate w' 2 = Some []"
  using link_moves_reference [OF empty_world_ok, of 6 4 9] empty_world_free [of 6]
  by (auto simp: without_def)

theorem clear_references_empties_witness:
  "\<exists>w w'. rf_link 6 (Some 4) (Some 9) empty_world = Some w \<and> rm_iterate w 4 = Some [6]
    \<and> rm_clearReferences 4 w = Some w' \<and> rm_getSize w' 4 = Some 0 \<and> iRefTo w' 6 = None"
proof -
  obtain w where w: "rf_link 6 (Some 4) (Some 9) empty_world = Some w" "refs_ok ((\<lambda>_. [])(4 := [6])) w" "iRefTo w 6 = Some 4"
    using rf_link_ok [OF empty_world_ok, of 6 4 9] empty_world_free [of 6] without_id [of 6 "\<lambda>_. []"] by auto
  then show ?thesis using clear_references_empties [OF w(2), of 4] rm_observe(2) [OF w(2), of 4] by auto
qed

end
