(* ===== verification/Tile_Map.thy ===== *)
theory Tile_Map
  imports Prelude
begin

text \<open>
  The tiles of a battle map: the static tile classes of
  \<^verbatim>\<open>src/worldserver/game/maps/MapData.h\<close> and the flags that
  \<^verbatim>\<open>src/worldserver/game/maps/BattleMap.cpp\<close> keeps per tile. Both are arrays indexed
  row by row; \<open>tile_map_ok\<close> says that they have the size of the map, and then every valid
  coordinate is inside them. The sizes, floats in the program that hold whole numbers, are
  \<open>int\<close>. A read outside an array, which the program leaves undefined, is unspecified here too;
  a write outside it is an error value.
\<close>

unbundle bit_operations_syntax

section \<open>Static tiles\<close>

datatype tile_type =
  TILE_TYPE_NONE | TILE_TYPE_PENETRABLE | TILE_TYPE_COLLIDABLE | TILE_TYPE_CONCEALABLE

datatype ground_type = GROUND_TYPE_NONE | GROUND_TYPE_SNOW | GROUND_TYPE_WATER

record map_data =
  md_width :: int
  md_height :: int
  md_tileData :: "tile_type list"
  md_groundData :: "ground_type list"
  md_districtData :: "u32 list"

record tile_coord =
  tc_x :: int
  tc_y :: int

definition md_isValidTileCoord :: "map_data \<Rightarrow> int \<Rightarrow> int \<Rightarrow> bool" where
  "md_isValidTileCoord md x y = (x \<ge> 0 \<and> y \<ge> 0 \<and> x < md_width md \<and> y < md_height md)"

definition md_getTileIndex :: "map_data \<Rightarrow> int \<Rightarrow> int \<Rightarrow> int" where
  "md_getTileIndex md x y = x + y * md_width md"

definition md_isPenetrable :: "map_data \<Rightarrow> int \<Rightarrow> int \<Rightarrow> bool" where
  "md_isPenetrable md x y = (md_tileData md ! nat (md_getTileIndex md x y) = TILE_TYPE_PENETRABLE)"

definition md_isCollidable :: "map_data \<Rightarrow> int \<Rightarrow> int \<Rightarrow> bool" where
  "md_isCollidable md x y = (md_tileData md ! nat (md_getTileIndex md x y) = TILE_TYPE_COLLIDABLE)"

definition md_isConcealable :: "map_data \<Rightarrow> int \<Rightarrow> int \<Rightarrow> bool" where
  "md_isConcealable md x y = (md_tileData md ! nat (md_getTileIndex md x y) = TILE_TYPE_CONCEALABLE)"

definition md_isWall :: "map_data \<Rightarrow> int \<Rightarrow> int \<Rightarrow> bool" where
  "md_isWall md x y = (md_isCollidable md x y \<or> md_isPenetrable md x y)"

definition md_isSnow :: "map_data \<Rightarrow> int \<Rightarrow> int \<Rightarrow> bool" where
  "md_isSnow md x y = (md_groundData md ! nat (md_getTileIndex md x y) = GROUND_TYPE_SNOW)"

definition md_isWater :: "map_data \<Rightarrow> int \<Rightarrow> int \<Rightarrow> bool" where
  "md_isWater md x y = (md_groundData md ! nat (md_getTileIndex md x y) = GROUND_TYPE_WATER)"

definition md_getDistrictId :: "map_data \<Rightarrow> tile_coord \<Rightarrow> u32" where
  "md_getDistrictId md c = md_districtData md ! nat (md_getTileIndex md (tc_x c) (tc_y c))"

definition md_isSameDistrict :: "map_data \<Rightarrow> tile_coord \<Rightarrow> tile_coord \<Rightarrow> bool" where
  "md_isSameDistrict md c1 c2 =
     (if c1 = c2 then True
      else md_districtData md ! nat (md_getTileIndex md (tc_x c1) (tc_y c1))
           = md_districtData md ! nat (md_getTileIndex md (tc_x c2) (tc_y c2)))"

section \<open>Tile flags\<close>

definition TILE_FLAG_NONE :: u16 where "TILE_FLAG_NONE = 0"
definition TILE_FLAG_CLOSED :: u16 where "TILE_FLAG_CLOSED = 1"
definition TILE_FLAG_ITEM_PLACED :: u16 where "TILE_FLAG_ITEM_PLACED = 2"

datatype tile_error = TileOutOfBounds | TileAssertion

record tile_map =
  tm_mapData :: map_data
  tm_tileFlagsSet :: "u16 list"

definition tm_index :: "tile_map \<Rightarrow> int \<Rightarrow> int \<Rightarrow> nat" where
  "tm_index tm x y = nat (md_getTileIndex (tm_mapData tm) x y)"

definition tm_inArray :: "tile_map \<Rightarrow> int \<Rightarrow> int \<Rightarrow> bool" where
  \<comment> \<open>the access \<^verbatim>\<open>m_tileFlagsSet[getTileIndex(x, y)]\<close> is inside the array\<close>
  "tm_inArray tm x y =
     (0 \<le> md_getTileIndex (tm_mapData tm) x y \<and> tm_index tm x y < length (tm_tileFlagsSet tm))"

definition tm_hasTileFlag :: "tile_map \<Rightarrow> int \<Rightarrow> int \<Rightarrow> u16 \<Rightarrow> bool" where
  "tm_hasTileFlag tm x y flag = (tm_tileFlagsSet tm ! tm_index tm x y AND flag \<noteq> 0)"

definition tm_setTileFlags :: "int \<Rightarrow> int \<Rightarrow> u16 \<Rightarrow> tile_map \<Rightarrow> tile_error + tile_map" where
  "tm_setTileFlags x y flags tm =
     (if \<not> tm_inArray tm x y then Inl TileOutOfBounds
      else Inr (tm\<lparr>tm_tileFlagsSet := (tm_tileFlagsSet tm)[tm_index tm x y := flags]\<rparr>))"

definition tm_addTileFlag :: "int \<Rightarrow> int \<Rightarrow> u16 \<Rightarrow> tile_map \<Rightarrow> tile_error + tile_map" where
  "tm_addTileFlag x y flag tm =
     (if \<not> tm_inArray tm x y then Inl TileOutOfBounds
      else if \<not> tm_hasTileFlag tm x y flag
      then Inr (tm\<lparr>tm_tileFlagsSet :=
                     (tm_tileFlagsSet tm)[tm_index tm x y := tm_tileFlagsSet tm ! tm_index tm x y OR flag]\<rparr>)
      else Inr tm)"

definition tm_clearTileFlag :: "int \<Rightarrow> int \<Rightarrow> u16 \<Rightarrow> tile_map \<Rightarrow> tile_error + tile_map" where
  "tm_clearTileFlag x y flag tm =
     (if \<not> tm_inArray tm x y then Inl TileOutOfBounds
      else if tm_hasTileFlag tm x y flag
      then Inr (tm\<lparr>tm_tileFlagsSet :=
                     (tm_tileFlagsSet tm)[tm_index tm x y := tm_tileFlagsSet tm ! tm_index tm x y AND NOT flag]\<rparr>)
      else Inr tm)"

definition tm_getTileFlags :: "tile_map \<Rightarrow> int \<Rightarrow> int \<Rightarrow> u16" where
  "tm_getTileFlags tm x y = tm_tileFlagsSet tm ! tm_index tm x y"

definition tm_isTileClosed :: "tile_map \<Rightarrow> int \<Rightarrow> int \<Rightarrow> bool" where
  "tm_isTileClosed tm x y = tm_hasTileFlag tm x y TILE_FLAG_CLOSED"

definition tm_clearAllTileFlags :: "tile_map \<Rightarrow> tile_map" where
  \<comment> \<open>the fill of \<^verbatim>\<open>prepareForBattle\<close> over \<^verbatim>\<open>width * height\<close> flags\<close>
  "tm_clearAllTileFlags tm =
     (let n = nat (md_width (tm_mapData tm) * md_height (tm_mapData tm))
      in tm\<lparr>tm_tileFlagsSet := replicate n TILE_FLAG_NONE @ drop n (tm_tileFlagsSet tm)\<rparr>)"

section \<open>Well-formed maps\<close>

definition map_data_ok :: "map_data \<Rightarrow> bool" where
  "map_data_ok md \<longleftrightarrow> 0 < md_width md \<and> md_width md \<le> 32767 \<and> 0 < md_height md \<and> md_height md \<le> 32767
     \<and> length (md_tileData md) = nat (md_width md * md_height md)"

definition tile_map_ok :: "tile_map \<Rightarrow> bool" where
  "tile_map_ok tm \<longleftrightarrow> map_data_ok (tm_mapData tm)
     \<and> length (tm_tileFlagsSet tm) = nat (md_width (tm_mapData tm) * md_height (tm_mapData tm))"

lemma tile_index_bounds:
  assumes "md_isValidTileCoord md x y"
  shows "0 \<le> md_getTileIndex md x y" and "md_getTileIndex md x y < md_width md * md_height md"
proof -
  have a: "0 \<le> x" "x < md_width md" "0 \<le> y" "y + 1 \<le> md_height md"
    using assms by (auto simp: md_isValidTileCoord_def)
  then show "0 \<le> md_getTileIndex md x y" by (simp add: md_getTileIndex_def)
  have "(y + 1) * md_width md \<le> md_height md * md_width md" using a by (intro mult_right_mono) auto
  then show "md_getTileIndex md x y < md_width md * md_height md"
    using a by (simp add: md_getTileIndex_def algebra_simps)
qed

text \<open>Distinct valid coordinates have distinct indexes.\<close>

lemma tile_index_inj:
  assumes "md_isValidTileCoord md x y" and "md_isValidTileCoord md x' y'"
    and "md_getTileIndex md x y = md_getTileIndex md x' y'"
  shows "x = x' \<and> y = y'"
proof -
  have a: "0 \<le> x" "x < md_width md" "0 \<le> x'" "x' < md_width md"
    using assms by (auto simp: md_isValidTileCoord_def)
  have "md_getTileIndex md x y mod md_width md = x" "md_getTileIndex md x' y' mod md_width md = x'"
    using a by (simp_all add: md_getTileIndex_def)
  then have "x = x'" using assms(3) by simp
  then show ?thesis using assms(3) a by (simp add: md_getTileIndex_def)
qed

lemma tm_inArray_valid:
  "tile_map_ok tm \<Longrightarrow> md_isValidTileCoord (tm_mapData tm) x y \<Longrightarrow> tm_inArray tm x y"
  using tile_index_bounds [of "tm_mapData tm" x y]
  by (auto simp: tm_inArray_def tile_map_ok_def tm_index_def)

lemma tm_index_inj:
  "md_isValidTileCoord (tm_mapData tm) x y \<Longrightarrow> md_isValidTileCoord (tm_mapData tm) x' y' \<Longrightarrow>
   tm_index tm x y = tm_index tm x' y' \<Longrightarrow> x = x' \<and> y = y'"
  using tile_index_inj [of "tm_mapData tm" x y x' y'] tile_index_bounds(1) [of "tm_mapData tm" x y]
    tile_index_bounds(1) [of "tm_mapData tm" x' y']
  by (simp add: tm_index_def)

lemma flag_or: "(w OR f) AND f = (f :: u16)" "(w AND NOT f) AND f = 0"
  by (auto intro!: bit_word_eqI simp: bit_simps)

text \<open>
  Setting and clearing the closed flag of a valid tile succeeds, changes what
  \<open>tm_isTileClosed\<close> says of that tile and of no other valid tile, and keeps the map well formed.
\<close>

lemma tm_addTileFlag_closed:
  assumes "tile_map_ok tm" and "md_isValidTileCoord (tm_mapData tm) x y"
  shows "\<exists>tm'. tm_addTileFlag x y TILE_FLAG_CLOSED tm = Inr tm' \<and> tile_map_ok tm' \<and> tm_mapData tm' = tm_mapData tm
    \<and> (\<forall>x' y'. md_isValidTileCoord (tm_mapData tm) x' y' \<longrightarrow>
          tm_isTileClosed tm' x' y' = (if x' = x \<and> y' = y then True else tm_isTileClosed tm x' y'))"
  using assms tm_inArray_valid [OF assms] tm_index_inj [OF assms(2)]
  by (auto simp: tm_addTileFlag_def tile_map_ok_def tm_isTileClosed_def tm_hasTileFlag_def tm_inArray_def
      nth_list_update flag_or TILE_FLAG_CLOSED_def tm_index_def)

lemma tm_clearTileFlag_closed:
  assumes "tile_map_ok tm" and "md_isValidTileCoord (tm_mapData tm) x y"
  shows "\<exists>tm'. tm_clearTileFlag x y TILE_FLAG_CLOSED tm = Inr tm' \<and> tile_map_ok tm' \<and> tm_mapData tm' = tm_mapData tm
    \<and> (\<forall>x' y'. md_isValidTileCoord (tm_mapData tm) x' y' \<longrightarrow>
          tm_isTileClosed tm' x' y' = (if x' = x \<and> y' = y then False else tm_isTileClosed tm x' y'))"
  using assms tm_inArray_valid [OF assms] tm_index_inj [OF assms(2)]
  by (auto simp: tm_clearTileFlag_def tile_map_ok_def tm_isTileClosed_def tm_hasTileFlag_def tm_inArray_def
      nth_list_update flag_or tm_index_def)

lemma tm_clearAllTileFlags_none:
  assumes "tile_map_ok tm" and "md_isValidTileCoord (tm_mapData tm) x y"
  shows "\<not> tm_isTileClosed (tm_clearAllTileFlags tm) x y"
  using tile_index_bounds [OF assms(2)] assms(1)
  by (simp add: tm_isTileClosed_def tm_hasTileFlag_def tm_clearAllTileFlags_def Let_def tm_index_def
      TILE_FLAG_NONE_def nth_append tile_map_ok_def)

lemma tm_clearAllTileFlags_ok: "tile_map_ok tm \<Longrightarrow> tile_map_ok (tm_clearAllTileFlags tm)"
  by (simp add: tile_map_ok_def tm_clearAllTileFlags_def Let_def)

end
