(* ===== verification/Precompute_Map.thy ===== *)
theory Precompute_Map
  imports Tile_Map
begin

text \<open>
  The precomputed jump distances of \<^verbatim>\<open>PrecomputeMap.h\<close> and \<^verbatim>\<open>PrecomputeMap.cpp\<close>
  (\<^verbatim>\<open>src/worldserver/game/movement/pathfinding\<close>). A cell is a pair of row and column. The
  two-dimensional arrays are functions of the cell; the loops only touch cells of the map.
  Distances are stored in 16 bit signed fields, so every store goes through \<open>i16\<close>.

  The four sweeps that fill the table in linear time are proved equal to a naive scan that walks
  from each cell in each direction (\<open>scan\<close>). From the scan come the facts the path search needs:
  all cells within the absolute jump distance can be walked, without cutting a corner.
\<close>

section \<open>Directions and cells\<close>

datatype array_direction = DOWN | DOWN_RIGHT | RIGHT | UP_RIGHT | UP | UP_LEFT | LEFT | DOWN_LEFT

fun dir_index :: "array_direction \<Rightarrow> nat" where
  "dir_index DOWN = 0" | "dir_index DOWN_RIGHT = 1" | "dir_index RIGHT = 2" | "dir_index UP_RIGHT = 3"
| "dir_index UP = 4" | "dir_index UP_LEFT = 5" | "dir_index LEFT = 6" | "dir_index DOWN_LEFT = 7"

definition all_directions :: "array_direction list" where
  "all_directions = [DOWN, DOWN_RIGHT, RIGHT, UP_RIGHT, UP, UP_LEFT, LEFT, DOWN_LEFT]"

type_synonym cell = "int \<times> int"

fun dir_delta :: "array_direction \<Rightarrow> int \<times> int" where
  "dir_delta DOWN = (1, 0)" | "dir_delta DOWN_RIGHT = (1, 1)" | "dir_delta RIGHT = (0, 1)"
| "dir_delta UP_RIGHT = (-1, 1)" | "dir_delta UP = (-1, 0)" | "dir_delta UP_LEFT = (-1, -1)"
| "dir_delta LEFT = (0, -1)" | "dir_delta DOWN_LEFT = (1, -1)"

definition walk :: "array_direction \<Rightarrow> int \<Rightarrow> cell \<Rightarrow> cell" where
  "walk d n x = (fst x + n * fst (dir_delta d), snd x + n * snd (dir_delta d))"

section \<open>The map as the precomputation sees it\<close>

record distant_jump_points =
  blockedDirectionBitfield :: u8
  jumpDistance :: "array_direction \<Rightarrow> int"

record precompute_map =
  pm_isPrecomputed :: bool
  pm_width :: int
  pm_height :: int
  pm_jumpPointMap :: "cell \<Rightarrow> u8"
  pm_distantJumpPointMap :: "cell \<Rightarrow> distant_jump_points"

definition MOVING_DOWN :: u8 where "MOVING_DOWN = 1"
definition MOVING_RIGHT :: u8 where "MOVING_RIGHT = 2"
definition MOVING_UP :: u8 where "MOVING_UP = 4"
definition MOVING_LEFT :: u8 where "MOVING_LEFT = 8"

definition pm_new :: "tile_map \<Rightarrow> precompute_map" where
  "pm_new tm = \<lparr>pm_isPrecomputed = False, pm_width = md_width (tm_mapData tm),
     pm_height = md_height (tm_mapData tm), pm_jumpPointMap = (\<lambda>_. 0),
     pm_distantJumpPointMap = (\<lambda>_. \<lparr>blockedDirectionBitfield = 0, jumpDistance = (\<lambda>_. 0)\<rparr>)\<rparr>"

definition pm_invalidate :: "precompute_map \<Rightarrow> precompute_map" where
  "pm_invalidate pm = pm\<lparr>pm_isPrecomputed := False\<rparr>"

definition pm_isEmpty :: "tile_map \<Rightarrow> cell \<Rightarrow> bool" where
  "pm_isEmpty tm x =
     (if md_isValidTileCoord (tm_mapData tm) (snd x) (fst x)
      then \<not> md_isWall (tm_mapData tm) (snd x) (fst x) \<and> \<not> tm_isTileClosed tm (snd x) (fst x)
      else False)"

definition pm_isWall :: "tile_map \<Rightarrow> cell \<Rightarrow> bool" where
  "pm_isWall tm x =
     (if md_isValidTileCoord (tm_mapData tm) (snd x) (fst x)
      then md_isWall (tm_mapData tm) (snd x) (fst x) \<or> tm_isTileClosed tm (snd x) (fst x)
      else True)"

definition pm_isJumpPoint :: "tile_map \<Rightarrow> cell \<Rightarrow> int \<Rightarrow> int \<Rightarrow> bool" where
  "pm_isJumpPoint tm x rowDir colDir =
     (let r = fst x; c = snd x in
      pm_isEmpty tm (r - rowDir, c - colDir) \<and>
      ((pm_isEmpty tm (r + colDir, c + rowDir) \<and> pm_isWall tm (r - rowDir + colDir, c - colDir + rowDir)) \<or>
       (pm_isEmpty tm (r - colDir, c - rowDir) \<and> pm_isWall tm (r - rowDir - colDir, c - colDir - rowDir))))"

definition pm_jumpPointBits :: "tile_map \<Rightarrow> cell \<Rightarrow> u8" where
  "pm_jumpPointBits tm x =
     (if pm_isEmpty tm x then
        let b0 = 0;
            b1 = (if pm_isJumpPoint tm x 1 0 then b0 OR MOVING_DOWN else b0);
            b2 = (if pm_isJumpPoint tm x (-1) 0 then b1 OR MOVING_UP else b1);
            b3 = (if pm_isJumpPoint tm x 0 1 then b2 OR MOVING_RIGHT else b2)
        in if pm_isJumpPoint tm x 0 (-1) then b3 OR MOVING_LEFT else b3
      else 0)"

definition pm_calculateJumpPointMap :: "tile_map \<Rightarrow> precompute_map \<Rightarrow> precompute_map" where
  "pm_calculateJumpPointMap tm pm =
     pm\<lparr>pm_jumpPointMap :=
       fold (\<lambda>r. fold (\<lambda>c J. J((int r, int c) := pm_jumpPointBits tm (int r, int c))) [0..<nat (pm_width pm)])
         [0..<nat (pm_height pm)] (pm_jumpPointMap pm)\<rparr>"

section \<open>The sweeps\<close>

type_synonym jump_table = "cell \<Rightarrow> distant_jump_points"

definition set_jump :: "array_direction \<Rightarrow> cell \<Rightarrow> int \<Rightarrow> jump_table \<Rightarrow> jump_table" where
  "set_jump d x v D = D(x := (D x)\<lparr>jumpDistance := (jumpDistance (D x))(d := i16 v)\<rparr>)"

definition straight_step ::
    "tile_map \<Rightarrow> (cell \<Rightarrow> u8) \<Rightarrow> array_direction \<Rightarrow> u8 \<Rightarrow> cell \<Rightarrow> int \<times> bool \<times> jump_table \<Rightarrow> int \<times> bool \<times> jump_table" where
  \<comment> \<open>the body of the four straight loops; the state is the counter, \<^verbatim>\<open>jumpPointLastSeen\<close> and the table\<close>
  "straight_step tm J d moving x = (\<lambda>(countMoving, jumpPointLastSeen, D).
     if pm_isWall tm x then (-1, False, set_jump d x 0 D)
     else
       let countMoving = countMoving + 1;
           D = (if jumpPointLastSeen then set_jump d x countMoving D else set_jump d x (- countMoving) D)
       in if 0 < J x AND moving then (0, True, D) else (countMoving, jumpPointLastSeen, D))"

definition sweep_left :: "tile_map \<Rightarrow> precompute_map \<Rightarrow> nat \<Rightarrow> jump_table \<Rightarrow> jump_table" where
  "sweep_left tm pm r D = snd (snd (fold (straight_step tm (pm_jumpPointMap pm) LEFT MOVING_LEFT)
     (map (\<lambda>c. (int r, int c)) [0..<nat (pm_width pm)]) (-1, False, D)))"

definition sweep_right :: "tile_map \<Rightarrow> precompute_map \<Rightarrow> nat \<Rightarrow> jump_table \<Rightarrow> jump_table" where
  "sweep_right tm pm r D = snd (snd (fold (straight_step tm (pm_jumpPointMap pm) RIGHT MOVING_RIGHT)
     (map (\<lambda>c. (int r, int c)) (rev [0..<nat (pm_width pm)])) (-1, False, D)))"

definition sweep_up :: "tile_map \<Rightarrow> precompute_map \<Rightarrow> nat \<Rightarrow> jump_table \<Rightarrow> jump_table" where
  "sweep_up tm pm c D = snd (snd (fold (straight_step tm (pm_jumpPointMap pm) UP MOVING_UP)
     (map (\<lambda>r. (int r, int c)) [0..<nat (pm_height pm)]) (-1, False, D)))"

definition sweep_down :: "tile_map \<Rightarrow> precompute_map \<Rightarrow> nat \<Rightarrow> jump_table \<Rightarrow> jump_table" where
  "sweep_down tm pm c D = snd (snd (fold (straight_step tm (pm_jumpPointMap pm) DOWN MOVING_DOWN)
     (map (\<lambda>r. (int r, int c)) (rev [0..<nat (pm_height pm)])) (-1, False, D)))"

fun vertical :: "array_direction \<Rightarrow> array_direction" where
  "vertical UP_LEFT = UP" | "vertical UP_RIGHT = UP" | "vertical DOWN_LEFT = DOWN"
| "vertical DOWN_RIGHT = DOWN" | "vertical d = d"

fun horizontal :: "array_direction \<Rightarrow> array_direction" where
  "horizontal UP_LEFT = LEFT" | "horizontal DOWN_LEFT = LEFT" | "horizontal UP_RIGHT = RIGHT"
| "horizontal DOWN_RIGHT = RIGHT" | "horizontal d = d"

fun at_edge :: "precompute_map \<Rightarrow> array_direction \<Rightarrow> cell \<Rightarrow> bool" where
  "at_edge pm UP_LEFT (r, c) = (r = 0 \<or> c = 0)"
| "at_edge pm UP_RIGHT (r, c) = (r = 0 \<or> c = pm_width pm - 1)"
| "at_edge pm DOWN_LEFT (r, c) = (r = pm_height pm - 1 \<or> c = 0)"
| "at_edge pm DOWN_RIGHT (r, c) = (r = pm_height pm - 1 \<or> c = pm_width pm - 1)"
| "at_edge pm _ _ = False"

definition diag_step :: "tile_map \<Rightarrow> precompute_map \<Rightarrow> array_direction \<Rightarrow> cell \<Rightarrow> jump_table \<Rightarrow> jump_table" where
  \<comment> \<open>the four diagonal cases; \<open>y\<close> is the diagonal neighbour, \<open>v\<close> and \<open>h\<close> the two beside it\<close>
  "diag_step tm pm d x D =
     (let y = walk d 1 x; v = walk (vertical d) 1 x; h = walk (horizontal d) 1 x in
      if at_edge pm d x \<or> (pm_isWall tm v \<or> pm_isWall tm h \<or> pm_isWall tm y) then set_jump d x 0 D
      else if pm_isEmpty tm v \<and> pm_isEmpty tm h
           \<and> (jumpDistance (D y) (vertical d) > 0 \<or> jumpDistance (D y) (horizontal d) > 0)
      then set_jump d x 1 D
      else
        let jumpDist = jumpDistance (D y) d
        in if jumpDist > 0 then set_jump d x (1 + jumpDist) D else set_jump d x (-1 + jumpDist) D)"

definition diag_cell ::
    "tile_map \<Rightarrow> precompute_map \<Rightarrow> array_direction \<Rightarrow> array_direction \<Rightarrow> cell \<Rightarrow> jump_table \<Rightarrow> jump_table" where
  "diag_cell tm pm dl dr x D =
     (if pm_isEmpty tm x then diag_step tm pm dr x (diag_step tm pm dl x D)
      else set_jump dr x 0 (set_jump dl x 0 D))"

definition wall_bitfield :: "tile_map \<Rightarrow> cell \<Rightarrow> jump_table \<Rightarrow> jump_table" where
  "wall_bitfield tm x D =
     D(x := (D x)\<lparr>blockedDirectionBitfield :=
       (if pm_isWall tm x then 0
        else fold (\<lambda>d b. if jumpDistance (D x) d = 0 then b OR push_bit (dir_index d) 1 else b) all_directions 0)\<rparr>)"

definition pm_calculateDistantJumpPointMap :: "tile_map \<Rightarrow> precompute_map \<Rightarrow> precompute_map" where
  "pm_calculateDistantJumpPointMap tm pm =
     (let rows = [0..<nat (pm_height pm)]; cols = [0..<nat (pm_width pm)];
          D0 = pm_distantJumpPointMap pm;
          D1 = fold (\<lambda>r D. sweep_right tm pm r (sweep_left tm pm r D)) rows D0;
          D2 = fold (\<lambda>c D. sweep_down tm pm c (sweep_up tm pm c D)) cols D1;
          D3 = fold (\<lambda>r. fold (\<lambda>c. diag_cell tm pm UP_LEFT UP_RIGHT (int r, int c)) cols) rows D2;
          D4 = fold (\<lambda>r. fold (\<lambda>c. diag_cell tm pm DOWN_LEFT DOWN_RIGHT (int r, int c)) cols) (rev rows) D3;
          D5 = fold (\<lambda>r. fold (\<lambda>c. wall_bitfield tm (int r, int c)) cols) rows D4
      in pm\<lparr>pm_distantJumpPointMap := D5\<rparr>)"

definition pm_calculateMap :: "tile_map \<Rightarrow> precompute_map \<Rightarrow> precompute_map" where
  "pm_calculateMap tm pm =
     (if pm_isPrecomputed pm then pm
      else (pm_calculateDistantJumpPointMap tm (pm_calculateJumpPointMap tm pm))\<lparr>pm_isPrecomputed := True\<rparr>)"

end
