(* ===== verification/Jump_Distances.thy ===== *)
theory Jump_Distances
  imports Precompute_Map
begin

text \<open>
  What the precomputed table means. The reference definition \<open>scan\<close> walks from a cell in one
  direction until it meets a jump point or an obstacle; the sweeps of \<open>Precompute_Map\<close> are
  proved to store exactly its result for every cell and direction.
\<close>

section \<open>The reference scan\<close>

definition diagonal :: "array_direction \<Rightarrow> bool" where
  "diagonal d \<longleftrightarrow> d \<in> {DOWN_RIGHT, UP_RIGHT, UP_LEFT, DOWN_LEFT}"

definition free_step :: "tile_map \<Rightarrow> array_direction \<Rightarrow> cell \<Rightarrow> bool" where
  \<comment> \<open>one step is possible; a diagonal one also needs both cells beside it\<close>
  "free_step tm d x \<longleftrightarrow> pm_isEmpty tm (walk d 1 x)
     \<and> pm_isEmpty tm (walk (vertical d) 1 x) \<and> pm_isEmpty tm (walk (horizontal d) 1 x)"

definition straight_jump_point :: "tile_map \<Rightarrow> array_direction \<Rightarrow> cell \<Rightarrow> bool" where
  "straight_jump_point tm d x = (pm_isEmpty tm x \<and> pm_isJumpPoint tm x (fst (dir_delta d)) (snd (dir_delta d)))"

definition farther :: "int \<Rightarrow> int" where
  "farther k = (if k > 0 then 1 + k else -1 + k)"

fun scan_straight :: "nat \<Rightarrow> tile_map \<Rightarrow> array_direction \<Rightarrow> cell \<Rightarrow> int" where
  "scan_straight 0 tm d x = 0"
| "scan_straight (Suc n) tm d x =
     (if \<not> free_step tm d x then 0
      else if straight_jump_point tm d (walk d 1 x) then 1
      else farther (scan_straight n tm d (walk d 1 x)))"

fun scan_diagonal :: "nat \<Rightarrow> nat \<Rightarrow> tile_map \<Rightarrow> array_direction \<Rightarrow> cell \<Rightarrow> int" where
  "scan_diagonal m 0 tm d x = 0"
| "scan_diagonal m (Suc n) tm d x =
     (if \<not> free_step tm d x then 0
      else if scan_straight m tm (vertical d) (walk d 1 x) > 0 \<or> scan_straight m tm (horizontal d) (walk d 1 x) > 0 then 1
      else farther (scan_diagonal m n tm d (walk d 1 x)))"

definition reach :: "tile_map \<Rightarrow> nat" where
  \<comment> \<open>no walk on the map is longer\<close>
  "reach tm = nat (md_width (tm_mapData tm) + md_height (tm_mapData tm))"

definition scan :: "tile_map \<Rightarrow> array_direction \<Rightarrow> cell \<Rightarrow> int" where
  "scan tm d x =
     (if pm_isWall tm x then 0
      else if diagonal d then scan_diagonal (reach tm) (reach tm) tm d x
      else scan_straight (reach tm) tm d x)"

section \<open>Basic facts\<close>

lemma pm_isWall_not_empty [simp]: "pm_isWall tm x \<longleftrightarrow> \<not> pm_isEmpty tm x"
  by (simp add: pm_isWall_def pm_isEmpty_def)

lemma pm_isEmpty_valid: "pm_isEmpty tm x \<Longrightarrow> 0 \<le> fst x \<and> fst x < md_height (tm_mapData tm)
    \<and> 0 \<le> snd x \<and> snd x < md_width (tm_mapData tm)"
  by (simp add: pm_isEmpty_def md_isValidTileCoord_def split: if_splits)

lemma walk_0 [simp]: "walk d 0 x = x"
  by (simp add: walk_def)

lemma walk_walk: "walk d a (walk d b x) = walk d (a + b) x"
  by (simp add: walk_def algebra_simps)

lemma straight_components [simp]: "\<not> diagonal d \<Longrightarrow> vertical d = d" "\<not> diagonal d \<Longrightarrow> horizontal d = d"
  by (cases d; simp add: diagonal_def)+

lemma diagonal_components [simp]: "\<not> diagonal (vertical d)" "\<not> diagonal (horizontal d)"
  by (cases d; simp add: diagonal_def)+

lemma diagonal_not_component: "diagonal d \<Longrightarrow> vertical e \<noteq> d \<and> horizontal e \<noteq> d"
  by (cases d; cases e; simp add: diagonal_def)

abbreviation jd :: "jump_table \<Rightarrow> cell \<Rightarrow> array_direction \<Rightarrow> int" where
  "jd D x d \<equiv> jumpDistance (D x) d"

lemma jd_set_jump [simp]: "jd (set_jump d x v D) y e = (if y = x \<and> e = d then i16 v else jd D y e)"
  by (simp add: set_jump_def)

section \<open>The straight sweeps\<close>

definition straight_eq :: "tile_map \<Rightarrow> array_direction \<Rightarrow> jump_table \<Rightarrow> cell \<Rightarrow> bool" where
  "straight_eq tm d D x \<longleftrightarrow> jd D x d =
     (if \<not> pm_isEmpty tm x \<or> \<not> pm_isEmpty tm (walk d 1 x) then 0
      else if straight_jump_point tm d (walk d 1 x) then 1
      else farther (jd D (walk d 1 x) d))"

lemma straight_eq_cong:
  "jd D' x d = jd D x d \<Longrightarrow> (pm_isEmpty tm (walk d 1 x) \<Longrightarrow> jd D' (walk d 1 x) d = jd D (walk d 1 x) d) \<Longrightarrow>
   straight_eq tm d D' x = straight_eq tm d D x"
  by (auto simp: straight_eq_def)

text \<open>
  One line of a sweep: \<open>f 0, f 1, \<dots>\<close> are its cells in the order of the loop, each the neighbour in
  direction \<open>d\<close> of the one after it. What the counter and the flag say of the last cell:
\<close>

definition sweep_state :: "tile_map \<Rightarrow> array_direction \<Rightarrow> cell \<Rightarrow> int \<times> bool \<times> jump_table \<Rightarrow> bool" where
  "sweep_state tm d l = (\<lambda>(count, seen, D).
     if \<not> pm_isEmpty tm l then count = -1 \<and> \<not> seen
     else if straight_jump_point tm d l then count = 0 \<and> seen
     else count = abs (jd D l d) \<and> (seen \<longleftrightarrow> jd D l d > 0))"

lemma straight_step_line:
  assumes "straight_step tm J d mv x (count, seen, D) = (count', seen', D')"
    and "(0 < J x AND mv) = straight_jump_point tm d x"
    and "\<not> pm_isEmpty tm (walk d 1 x) \<and> count = -1 \<and> \<not> seen \<or> sweep_state tm d (walk d 1 x) (count, seen, D)"
    and "-1 \<le> count" and "count < 32767" and "walk d 1 x \<noteq> x"
  shows "straight_eq tm d D' x" and "sweep_state tm d x (count', seen', D')" and "-1 \<le> count'" and "count' \<le> count + 1"
    and "\<forall>y e. y \<noteq> x \<or> e \<noteq> d \<longrightarrow> jd D' y e = jd D y e"
proof -
  have "i16 (count + 1) = count + 1" "i16 (- (count + 1)) = - (count + 1)" "i16 0 = 0"
    using assms(4,5) by (auto intro: i16_id)
  note * = this assms
  show "straight_eq tm d D' x"
    using * by (auto simp: straight_step_def straight_eq_def sweep_state_def farther_def Let_def split: if_splits)
  show "sweep_state tm d x (count', seen', D')"
    using * by (auto simp: straight_step_def sweep_state_def Let_def split: if_splits)
  show "-1 \<le> count'" "count' \<le> count + 1" "\<forall>y e. y \<noteq> x \<or> e \<noteq> d \<longrightarrow> jd D' y e = jd D y e"
    using assms by (auto simp: straight_step_def Let_def split: if_splits)
qed

lemma sweep_line:
  assumes n: "n \<le> 32767" and inj: "inj_on f {..<n}"
    and first: "\<not> pm_isEmpty tm (walk d 1 (f 0))"
    and adj: "\<And>i. Suc i < n \<Longrightarrow> walk d 1 (f (Suc i)) = f i"
    and J: "\<And>i. i < n \<Longrightarrow> (0 < J (f i) AND mv) = straight_jump_point tm d (f i)"
    and run: "fold (straight_step tm J d mv) (map f [0..<n]) (-1, False, D) = (count, seen, D')"
  shows "(\<forall>i<n. straight_eq tm d D' (f i)) \<and> (\<forall>y e. y \<notin> f ` {..<n} \<or> e \<noteq> d \<longrightarrow> jd D' y e = jd D y e)"
proof -
  have moves: "walk d 1 x \<noteq> x" for x by (cases d) (auto simp: walk_def prod_eq_iff)
  have "case fold (straight_step tm J d mv) (map f [0..<k]) (-1, False, D) of (count, seen, D') \<Rightarrow>
      (\<forall>i<k. straight_eq tm d D' (f i)) \<and> (\<forall>y e. y \<notin> f ` {..<k} \<or> e \<noteq> d \<longrightarrow> jd D' y e = jd D y e)
      \<and> -1 \<le> count \<and> count < int k \<and> (k = 0 \<longrightarrow> count = -1 \<and> \<not> seen)
      \<and> (\<forall>j. k = Suc j \<longrightarrow> sweep_state tm d (f j) (count, seen, D'))"
    if "k \<le> n" for k
    using that
  proof (induction k)
    case 0
    then show ?case by simp
  next
    case (Suc k)
    obtain c1 s1 D1 where r1: "fold (straight_step tm J d mv) (map f [0..<k]) (-1, False, D) = (c1, s1, D1)"
      by (metis prod_cases3)
    obtain c2 s2 D2 where r2: "straight_step tm J d mv (f k) (c1, s1, D1) = (c2, s2, D2)"
      by (metis prod_cases3)
    have IH: "\<forall>i<k. straight_eq tm d D1 (f i)" "\<forall>y e. y \<notin> f ` {..<k} \<or> e \<noteq> d \<longrightarrow> jd D1 y e = jd D y e"
      "-1 \<le> c1" "c1 < int k" "k = 0 \<longrightarrow> c1 = -1 \<and> \<not> s1"
      "\<forall>j. k = Suc j \<longrightarrow> sweep_state tm d (f j) (c1, s1, D1)"
      using Suc.IH Suc.prems r1 by auto
    have pre: "\<not> pm_isEmpty tm (walk d 1 (f k)) \<and> c1 = -1 \<and> \<not> s1 \<or> sweep_state tm d (walk d 1 (f k)) (c1, s1, D1)"
      using first adj IH(5,6) Suc.prems by (cases k) auto
    have J': "(0 < J (f k) AND mv) = straight_jump_point tm d (f k)" using J Suc.prems by simp
    have "c1 < 32767" using IH(4) Suc.prems n by linarith
    note S = straight_step_line [OF r2 J' pre IH(3) this moves]
    have other: "f k \<noteq> f i" if "i < k" for i
      using inj_onD [OF inj, of k i] that Suc.prems by auto
    have "straight_eq tm d D2 (f i)" if "i < k" for i
    proof -
      have "f k \<noteq> walk d 1 (f i)" if e: "pm_isEmpty tm (walk d 1 (f i))"
        using first e adj [of "i - 1"] other [of "i - 1"] \<open>i < k\<close> Suc.prems by (cases i) auto
      then have "straight_eq tm d D2 (f i) = straight_eq tm d D1 (f i)"
        using S(5) other [OF that] by (intro straight_eq_cong) metis+
      then show ?thesis using IH(1) that by simp
    qed
    then have "\<forall>i<Suc k. straight_eq tm d D2 (f i)" using S(1) less_Suc_eq by metis
    moreover have "\<forall>y e. y \<notin> f ` {..<Suc k} \<or> e \<noteq> d \<longrightarrow> jd D2 y e = jd D y e"
      using S(5) IH(2) by (metis image_insert insertI1 insertI2 lessThan_Suc)
    ultimately show ?case using r1 r2 S(2-4) IH(4) by simp
  qed
  from this [of n] show ?thesis using run by simp
qed

section \<open>All straight sweeps together\<close>

lemma jump_bits:
  "(0 < pm_jumpPointBits tm x AND MOVING_LEFT) = straight_jump_point tm LEFT x"
  "(0 < pm_jumpPointBits tm x AND MOVING_RIGHT) = straight_jump_point tm RIGHT x"
  "(0 < pm_jumpPointBits tm x AND MOVING_UP) = straight_jump_point tm UP x"
  "(0 < pm_jumpPointBits tm x AND MOVING_DOWN) = straight_jump_point tm DOWN x"
  by (simp_all add: pm_jumpPointBits_def straight_jump_point_def Let_def MOVING_LEFT_def MOVING_RIGHT_def
      MOVING_UP_def MOVING_DOWN_def)

definition pm_sized :: "tile_map \<Rightarrow> precompute_map \<Rightarrow> bool" where
  "pm_sized tm pm \<longleftrightarrow> pm_width pm = md_width (tm_mapData tm) \<and> pm_height pm = md_height (tm_mapData tm)"

definition jump_points_ok :: "tile_map \<Rightarrow> precompute_map \<Rightarrow> bool" where
  "jump_points_ok tm pm \<longleftrightarrow> (\<forall>x. 0 \<le> fst x \<longrightarrow> fst x < pm_height pm \<longrightarrow> 0 \<le> snd x \<longrightarrow> snd x < pm_width pm \<longrightarrow>
     pm_jumpPointMap pm x = pm_jumpPointBits tm x)"

lemma calculateJumpPointMap_ok: "jump_points_ok tm (pm_calculateJumpPointMap tm pm)"
proof -
  let ?rc = "List.product [0..<nat (pm_height pm)] [0..<nat (pm_width pm)]"
  let ?f = "\<lambda>(r, c) J. J((int r, int c) := pm_jumpPointBits tm (int r, int c))"
  have "sorted_wrt (\<lambda>_ _. True) ?rc" by (induction ?rc) auto
  then have "\<forall>rc\<in>set ?rc. (\<lambda>(r, c) J. J (int r, int c) = pm_jumpPointBits tm (int r, int c)) rc (fold ?f ?rc J)" for J
    by (rule fold_establishes [where P = "\<lambda>_. True" and f = ?f and s = J
          and Q = "\<lambda>(r, c) J. J (int r, int c) = pm_jumpPointBits tm (int r, int c)", THEN conjunct2]) auto
  then have "fold ?f ?rc J (int r, int c) = pm_jumpPointBits tm (int r, int c)"
    if "r < nat (pm_height pm)" "c < nat (pm_width pm)" for r c J
    using that by (auto simp: set_product)
  then have "fold ?f ?rc J (r, c) = pm_jumpPointBits tm (r, c)"
    if "0 \<le> r" "r < pm_height pm" "0 \<le> c" "c < pm_width pm" for r c J
    using that by (auto elim!: nonneg_int_cases)
  then show ?thesis
    by (simp add: jump_points_ok_def pm_calculateJumpPointMap_def fold_nested)
qed

lemma pm_calculateJumpPointMap_frame [simp]:
  "pm_width (pm_calculateJumpPointMap tm pm) = pm_width pm"
  "pm_height (pm_calculateJumpPointMap tm pm) = pm_height pm"
  "pm_isPrecomputed (pm_calculateJumpPointMap tm pm) = pm_isPrecomputed pm"
  "pm_distantJumpPointMap (pm_calculateJumpPointMap tm pm) = pm_distantJumpPointMap pm"
  by (simp_all add: pm_calculateJumpPointMap_def)

definition pm_ready :: "tile_map \<Rightarrow> precompute_map \<Rightarrow> bool" where
  "pm_ready tm pm \<longleftrightarrow> tile_map_ok tm \<and> pm_sized tm pm \<and> jump_points_ok tm pm"

lemma pm_ready_dims:
  assumes "pm_ready tm pm"
  shows "0 < pm_width pm" "pm_width pm \<le> 32767" "0 < pm_height pm" "pm_height pm \<le> 32767"
  using assms by (auto simp: pm_ready_def tile_map_ok_def map_data_ok_def pm_sized_def)

lemma pm_ready_bounds:
  "pm_ready tm pm \<Longrightarrow> pm_isEmpty tm x \<Longrightarrow> 0 \<le> fst x \<and> fst x < pm_height pm \<and> 0 \<le> snd x \<and> snd x < pm_width pm"
  using pm_isEmpty_valid by (simp add: pm_ready_def pm_sized_def)

lemma pm_ready_bits:
  "pm_ready tm pm \<Longrightarrow> r < nat (pm_height pm) \<Longrightarrow> c < nat (pm_width pm) \<Longrightarrow>
   pm_jumpPointMap pm (int r, int c) = pm_jumpPointBits tm (int r, int c)"
  by (simp add: pm_ready_def jump_points_ok_def)

lemma sweep_left_ok:
  assumes "pm_ready tm pm" and "r < nat (pm_height pm)"
  shows "(\<forall>c<nat (pm_width pm). straight_eq tm LEFT (sweep_left tm pm r D) (int r, int c))
    \<and> (\<forall>y e. fst y \<noteq> int r \<or> e \<noteq> LEFT \<longrightarrow> jd (sweep_left tm pm r D) y e = jd D y e)"
proof -
  obtain ct sn D' where run: "fold (straight_step tm (pm_jumpPointMap pm) LEFT MOVING_LEFT)
      (map (\<lambda>c. (int r, int c)) [0..<nat (pm_width pm)]) (-1, False, D) = (ct, sn, D')" by (metis prod_cases3)
  have "\<not> pm_isEmpty tm (walk LEFT 1 (int r, int 0))"
    using pm_ready_bounds [OF assms(1), of "walk LEFT 1 (int r, int 0)"] by (auto simp: walk_def)
  then have "(\<forall>i<nat (pm_width pm). straight_eq tm LEFT D' (int r, int i))
    \<and> (\<forall>y e. y \<notin> (\<lambda>c. (int r, int c)) ` {..<nat (pm_width pm)} \<or> e \<noteq> LEFT \<longrightarrow> jd D' y e = jd D y e)"
    using pm_ready_dims [OF assms(1)] pm_ready_bits [OF assms] jump_bits(1)
    by (intro sweep_line [OF _ _ _ _ _ run]) (auto simp: walk_def inj_on_def)
  then show ?thesis by (auto simp: sweep_left_def run)
qed

lemma sweep_up_ok:
  assumes "pm_ready tm pm" and "c < nat (pm_width pm)"
  shows "(\<forall>r<nat (pm_height pm). straight_eq tm UP (sweep_up tm pm c D) (int r, int c))
    \<and> (\<forall>y e. snd y \<noteq> int c \<or> e \<noteq> UP \<longrightarrow> jd (sweep_up tm pm c D) y e = jd D y e)"
proof -
  obtain ct sn D' where run: "fold (straight_step tm (pm_jumpPointMap pm) UP MOVING_UP)
      (map (\<lambda>r. (int r, int c)) [0..<nat (pm_height pm)]) (-1, False, D) = (ct, sn, D')" by (metis prod_cases3)
  have "\<not> pm_isEmpty tm (walk UP 1 (int 0, int c))"
    using pm_ready_bounds [OF assms(1), of "walk UP 1 (int 0, int c)"] by (auto simp: walk_def)
  then have "(\<forall>i<nat (pm_height pm). straight_eq tm UP D' (int i, int c))
    \<and> (\<forall>y e. y \<notin> (\<lambda>r. (int r, int c)) ` {..<nat (pm_height pm)} \<or> e \<noteq> UP \<longrightarrow> jd D' y e = jd D y e)"
    using pm_ready_dims [OF assms(1)] pm_ready_bits [OF assms(1) _ assms(2)] jump_bits(3)
    by (intro sweep_line [OF _ _ _ _ _ run]) (auto simp: walk_def inj_on_def)
  then show ?thesis by (auto simp: sweep_up_def run)
qed

lemma sweep_right_ok:
  assumes "pm_ready tm pm" and "r < nat (pm_height pm)"
  shows "(\<forall>c<nat (pm_width pm). straight_eq tm RIGHT (sweep_right tm pm r D) (int r, int c))
    \<and> (\<forall>y e. fst y \<noteq> int r \<or> e \<noteq> RIGHT \<longrightarrow> jd (sweep_right tm pm r D) y e = jd D y e)"
proof -
  let ?n = "nat (pm_width pm)" and ?f = "\<lambda>i. (int r, int (nat (pm_width pm) - Suc i))"
  have l: "map (\<lambda>c. (int r, int c)) (rev [0..<?n]) = map ?f [0..<?n]" unfolding rev_upt_map by simp
  obtain ct sn D' where run: "fold (straight_step tm (pm_jumpPointMap pm) RIGHT MOVING_RIGHT)
      (map ?f [0..<?n]) (-1, False, D) = (ct, sn, D')" by (metis prod_cases3)
  have J: "(0 < pm_jumpPointMap pm (?f i) AND MOVING_RIGHT) = straight_jump_point tm RIGHT (?f i)" if "i < ?n" for i
    using pm_ready_bits [OF assms, of "?n - Suc i"] jump_bits(2) [of tm "?f i"] that by simp
  have "\<not> pm_isEmpty tm (walk RIGHT 1 (?f 0))"
    using pm_ready_bounds [OF assms(1), of "walk RIGHT 1 (?f 0)"] pm_ready_dims [OF assms(1)]
    by (auto simp: walk_def of_nat_diff)
  then have "(\<forall>i<?n. straight_eq tm RIGHT D' (?f i)) \<and> (\<forall>y e. y \<notin> ?f ` {..<?n} \<or> e \<noteq> RIGHT \<longrightarrow> jd D' y e = jd D y e)"
    using pm_ready_dims [OF assms(1)]
    by (intro sweep_line [OF _ _ _ _ J run]) (auto simp: walk_def inj_on_def)
  moreover have "straight_eq tm RIGHT D' (int r, int c)" if "\<forall>i<?n. straight_eq tm RIGHT D' (?f i)" "c < ?n" for c
    using that(1) [rule_format, of "?n - Suc c"] that(2) by simp
  moreover have "y \<notin> ?f ` {..<?n}" if "fst y \<noteq> int r" for y using that by auto
  ultimately show ?thesis unfolding sweep_right_def l run snd_conv by blast
qed

lemma sweep_down_ok:
  assumes "pm_ready tm pm" and "c < nat (pm_width pm)"
  shows "(\<forall>r<nat (pm_height pm). straight_eq tm DOWN (sweep_down tm pm c D) (int r, int c))
    \<and> (\<forall>y e. snd y \<noteq> int c \<or> e \<noteq> DOWN \<longrightarrow> jd (sweep_down tm pm c D) y e = jd D y e)"
proof -
  let ?n = "nat (pm_height pm)" and ?f = "\<lambda>i. (int (nat (pm_height pm) - Suc i), int c)"
  have l: "map (\<lambda>r. (int r, int c)) (rev [0..<?n]) = map ?f [0..<?n]" unfolding rev_upt_map by simp
  obtain ct sn D' where run: "fold (straight_step tm (pm_jumpPointMap pm) DOWN MOVING_DOWN)
      (map ?f [0..<?n]) (-1, False, D) = (ct, sn, D')" by (metis prod_cases3)
  have J: "(0 < pm_jumpPointMap pm (?f i) AND MOVING_DOWN) = straight_jump_point tm DOWN (?f i)" if "i < ?n" for i
    using pm_ready_bits [OF assms(1) _ assms(2), of "?n - Suc i"] jump_bits(4) [of tm "?f i"] that by simp
  have "\<not> pm_isEmpty tm (walk DOWN 1 (?f 0))"
    using pm_ready_bounds [OF assms(1), of "walk DOWN 1 (?f 0)"] pm_ready_dims [OF assms(1)]
    by (auto simp: walk_def of_nat_diff)
  then have "(\<forall>i<?n. straight_eq tm DOWN D' (?f i)) \<and> (\<forall>y e. y \<notin> ?f ` {..<?n} \<or> e \<noteq> DOWN \<longrightarrow> jd D' y e = jd D y e)"
    using pm_ready_dims [OF assms(1)]
    by (intro sweep_line [OF _ _ _ _ J run]) (auto simp: walk_def inj_on_def)
  moreover have "straight_eq tm DOWN D' (int r, int c)" if "\<forall>i<?n. straight_eq tm DOWN D' (?f i)" "r < ?n" for r
    using that(1) [rule_format, of "?n - Suc r"] that(2) by simp
  moreover have "y \<notin> ?f ` {..<?n}" if "snd y \<noteq> int c" for y using that by auto
  ultimately show ?thesis unfolding sweep_down_def l run snd_conv by blast
qed

definition row_eqs :: "tile_map \<Rightarrow> precompute_map \<Rightarrow> nat \<Rightarrow> jump_table \<Rightarrow> bool" where
  "row_eqs tm pm r D \<longleftrightarrow> (\<forall>c<nat (pm_width pm). straight_eq tm LEFT D (int r, int c) \<and> straight_eq tm RIGHT D (int r, int c))"

definition col_eqs :: "tile_map \<Rightarrow> precompute_map \<Rightarrow> nat \<Rightarrow> jump_table \<Rightarrow> bool" where
  "col_eqs tm pm c D \<longleftrightarrow> (\<forall>r<nat (pm_height pm). straight_eq tm UP D (int r, int c) \<and> straight_eq tm DOWN D (int r, int c))"

lemma row_eqs_cong:
  assumes "\<And>y. fst y = int r \<Longrightarrow> jd D' y LEFT = jd D y LEFT" and "\<And>y. fst y = int r \<Longrightarrow> jd D' y RIGHT = jd D y RIGHT"
  shows "row_eqs tm pm r D' = row_eqs tm pm r D"
proof -
  have "straight_eq tm LEFT D' (int r, c) = straight_eq tm LEFT D (int r, c)"
    "straight_eq tm RIGHT D' (int r, c) = straight_eq tm RIGHT D (int r, c)" for c
    using assms by (auto intro!: straight_eq_cong simp: walk_def)
  then show ?thesis by (simp add: row_eqs_def)
qed

lemma col_eqs_cong:
  assumes "\<And>y. snd y = int c \<Longrightarrow> jd D' y UP = jd D y UP" and "\<And>y. snd y = int c \<Longrightarrow> jd D' y DOWN = jd D y DOWN"
  shows "col_eqs tm pm c D' = col_eqs tm pm c D"
proof -
  have "straight_eq tm UP D' (r, int c) = straight_eq tm UP D (r, int c)"
    "straight_eq tm DOWN D' (r, int c) = straight_eq tm DOWN D (r, int c)" for r
    using assms by (auto intro!: straight_eq_cong simp: walk_def)
  then show ?thesis by (simp add: col_eqs_def)
qed

lemma row_pass_ok:
  assumes "pm_ready tm pm" and "r < nat (pm_height pm)"
  shows "row_eqs tm pm r (sweep_right tm pm r (sweep_left tm pm r D))"
    and "fst y \<noteq> int r \<or> e \<notin> {LEFT, RIGHT} \<Longrightarrow> jd (sweep_right tm pm r (sweep_left tm pm r D)) y e = jd D y e"
proof -
  note L = sweep_left_ok [OF assms, of D] and R = sweep_right_ok [OF assms, of "sweep_left tm pm r D"]
  have "straight_eq tm LEFT (sweep_right tm pm r (sweep_left tm pm r D)) x = straight_eq tm LEFT (sweep_left tm pm r D) x" for x
    using R by (intro straight_eq_cong) (simp_all del: split_paired_All)
  then show "row_eqs tm pm r (sweep_right tm pm r (sweep_left tm pm r D))" using L R by (simp add: row_eqs_def)
  show "jd (sweep_right tm pm r (sweep_left tm pm r D)) y e = jd D y e" if "fst y \<noteq> int r \<or> e \<notin> {LEFT, RIGHT}"
    using L R that by (metis insertCI)
qed

lemma col_pass_ok:
  assumes "pm_ready tm pm" and "c < nat (pm_width pm)"
  shows "col_eqs tm pm c (sweep_down tm pm c (sweep_up tm pm c D))"
    and "snd y \<noteq> int c \<or> e \<notin> {UP, DOWN} \<Longrightarrow> jd (sweep_down tm pm c (sweep_up tm pm c D)) y e = jd D y e"
proof -
  note L = sweep_up_ok [OF assms, of D] and R = sweep_down_ok [OF assms, of "sweep_up tm pm c D"]
  have "straight_eq tm UP (sweep_down tm pm c (sweep_up tm pm c D)) x = straight_eq tm UP (sweep_up tm pm c D) x" for x
    using R by (intro straight_eq_cong) (simp_all del: split_paired_All)
  then show "col_eqs tm pm c (sweep_down tm pm c (sweep_up tm pm c D))" using L R by (simp add: col_eqs_def)
  show "jd (sweep_down tm pm c (sweep_up tm pm c D)) y e = jd D y e" if "snd y \<noteq> int c \<or> e \<notin> {UP, DOWN}"
    using L R that by (metis insertCI)
qed

lemma rows_ok:
  assumes "pm_ready tm pm"
  shows "\<forall>r\<in>set [0..<nat (pm_height pm)]. row_eqs tm pm r
    (fold (\<lambda>r D. sweep_right tm pm r (sweep_left tm pm r D)) [0..<nat (pm_height pm)] D)"
proof (rule fold_establishes [where P = "\<lambda>_. True" and R = "(<)" and Q = "row_eqs tm pm"
      and f = "\<lambda>r D. sweep_right tm pm r (sweep_left tm pm r D)", THEN conjunct2])
  fix ys x zs and s :: jump_table
  assume "[0..<nat (pm_height pm)] = ys @ x # zs"
  then have "x \<in> set [0..<nat (pm_height pm)]" by (metis in_set_conv_decomp)
  then show "True \<and> row_eqs tm pm x (sweep_right tm pm x (sweep_left tm pm x s))"
    using row_pass_ok(1) [OF assms] by simp
next
  fix x y and s :: jump_table
  assume *: "y \<in> set [0..<nat (pm_height pm)]" "x < y" "row_eqs tm pm x s"
  have "row_eqs tm pm x (sweep_right tm pm y (sweep_left tm pm y s)) = row_eqs tm pm x s"
    by (rule row_eqs_cong; rule row_pass_ok(2) [OF assms]) (use * in auto)
  then show "row_eqs tm pm x (sweep_right tm pm y (sweep_left tm pm y s))" using * by simp
qed simp_all

lemma cols_ok:
  assumes "pm_ready tm pm" and "\<forall>r\<in>set [0..<nat (pm_height pm)]. row_eqs tm pm r D"
  shows "(\<forall>r\<in>set [0..<nat (pm_height pm)]. row_eqs tm pm r
      (fold (\<lambda>c D. sweep_down tm pm c (sweep_up tm pm c D)) [0..<nat (pm_width pm)] D))
    \<and> (\<forall>c\<in>set [0..<nat (pm_width pm)]. col_eqs tm pm c
      (fold (\<lambda>c D. sweep_down tm pm c (sweep_up tm pm c D)) [0..<nat (pm_width pm)] D))"
proof (rule fold_establishes [where P = "\<lambda>D. \<forall>r\<in>set [0..<nat (pm_height pm)]. row_eqs tm pm r D" and R = "(<)"
      and Q = "col_eqs tm pm" and f = "\<lambda>c D. sweep_down tm pm c (sweep_up tm pm c D)"])
  fix ys x zs and s :: jump_table
  assume *: "[0..<nat (pm_width pm)] = ys @ x # zs" "\<forall>r\<in>set [0..<nat (pm_height pm)]. row_eqs tm pm r s"
  then have "x \<in> set [0..<nat (pm_width pm)]" by (metis in_set_conv_decomp)
  then have x: "x < nat (pm_width pm)" by simp
  have "row_eqs tm pm r (sweep_down tm pm x (sweep_up tm pm x s)) = row_eqs tm pm r s" for r
    by (rule row_eqs_cong; rule col_pass_ok(2) [OF assms(1) x]) simp_all
  then show "(\<forall>r\<in>set [0..<nat (pm_height pm)]. row_eqs tm pm r (sweep_down tm pm x (sweep_up tm pm x s)))
      \<and> col_eqs tm pm x (sweep_down tm pm x (sweep_up tm pm x s))"
    using *(2) col_pass_ok(1) [OF assms(1) x] by simp
next
  fix x y and s :: jump_table
  assume *: "y \<in> set [0..<nat (pm_width pm)]" "x < y" "col_eqs tm pm x s"
  have "col_eqs tm pm x (sweep_down tm pm y (sweep_up tm pm y s)) = col_eqs tm pm x s"
    by (rule col_eqs_cong; rule col_pass_ok(2) [OF assms(1)]) (use * in auto)
  then show "col_eqs tm pm x (sweep_down tm pm y (sweep_up tm pm y s))" using * by simp
qed (use assms(2) in simp_all)

section \<open>The diagonal sweeps\<close>

definition diag_eq :: "tile_map \<Rightarrow> array_direction \<Rightarrow> jump_table \<Rightarrow> cell \<Rightarrow> bool" where
  "diag_eq tm d D x \<longleftrightarrow> jd D x d =
     (if \<not> pm_isEmpty tm x \<or> \<not> free_step tm d x then 0
      else if jd D (walk d 1 x) (vertical d) > 0 \<or> jd D (walk d 1 x) (horizontal d) > 0 then 1
      else farther (jd D (walk d 1 x) d))"

definition room :: "precompute_map \<Rightarrow> array_direction \<Rightarrow> cell \<Rightarrow> int" where
  "room pm d x = (if fst (dir_delta d) = -1 then fst x else pm_height pm - 1 - fst x)"

definition diag_ok :: "tile_map \<Rightarrow> precompute_map \<Rightarrow> array_direction \<Rightarrow> jump_table \<Rightarrow> cell \<Rightarrow> bool" where
  "diag_ok tm pm d D x \<longleftrightarrow> diag_eq tm d D x \<and> abs (jd D x d) \<le> room pm d x"

lemma diag_ok_cong:
  assumes "jd D' x d = jd D x d" and "\<And>e. jd D' (walk d 1 x) e = jd D (walk d 1 x) e"
  shows "diag_ok tm pm d D' x = diag_ok tm pm d D x"
  using assms by (simp add: diag_ok_def diag_eq_def)

lemma at_edge_blocked:
  assumes "pm_ready tm pm" and "at_edge pm d x"
  shows "\<not> free_step tm d x"
proof
  assume "free_step tm d x"
  then have "pm_isEmpty tm (walk (vertical d) 1 x)" "pm_isEmpty tm (walk (horizontal d) 1 x)"
    by (auto simp: free_step_def)
  from this [THEN pm_ready_bounds [OF assms(1)]] assms(2) show False
    by (cases d; cases x) (auto simp: walk_def)
qed

lemma diag_step_frame: "y \<noteq> x \<or> e \<noteq> d \<Longrightarrow> jd (diag_step tm pm d x D) y e = jd D y e"
  unfolding diag_step_def Let_def by (simp split del: if_split add: if_distrib [of "\<lambda>D. jd D y e"]) auto

lemma diag_step_ok:
  assumes "pm_ready tm pm" and "pm_isEmpty tm x" and "diagonal d"
    and "free_step tm d x \<Longrightarrow> abs (jd D (walk d 1 x) d) \<le> room pm d (walk d 1 x)"
  shows "diag_ok tm pm d (diag_step tm pm d x D) x"
proof -
  have y: "walk d 1 x \<noteq> x" using assms(3) by (cases d) (auto simp: walk_def prod_eq_iff diagonal_def)
  have b: "0 \<le> room pm d x" "room pm d x < 32767"
    using pm_ready_bounds [OF assms(1,2)] pm_ready_dims [OF assms(1)] by (auto simp: room_def)
  have "room pm d (walk d 1 x) = room pm d x - 1"
    using assms(3) by (cases d) (auto simp: room_def walk_def diagonal_def)
  then have k: "free_step tm d x \<Longrightarrow> abs (farther (jd D (walk d 1 x) d)) \<le> room pm d x"
    "free_step tm d x \<Longrightarrow> 1 \<le> room pm d x"
    using assms(4) by (auto simp: farther_def)
  have i: "i16 (farther (jd D (walk d 1 x) d)) = farther (jd D (walk d 1 x) d)" if "free_step tm d x"
    using k(1) [OF that] b by (intro i16_id) auto
  have i01: "i16 0 = 0" "i16 1 = 1" by (auto intro: i16_id)
  show "diag_ok tm pm d (diag_step tm pm d x D) x"
  proof (cases "free_step tm d x")
    case True
    then have "\<not> at_edge pm d x" using at_edge_blocked [OF assms(1)] by blast
    then show ?thesis
      using True y i [OF True] i01 k [OF True] assms(2)
      by (auto simp: diag_ok_def diag_eq_def diag_step_def Let_def farther_def free_step_def)
  next
    case False
    then have "at_edge pm d x \<or> (pm_isWall tm (walk (vertical d) 1 x) \<or> pm_isWall tm (walk (horizontal d) 1 x)
        \<or> pm_isWall tm (walk d 1 x))"
      by (auto simp: free_step_def)
    then show ?thesis
      using False y i01 b assms(2) by (auto simp: diag_ok_def diag_eq_def diag_step_def Let_def)
  qed
qed

lemma diag_cell_frame: "y \<noteq> x \<or> e \<notin> {dl, dr} \<Longrightarrow> jd (diag_cell tm pm dl dr x D) y e = jd D y e"
  by (cases "pm_isEmpty tm x") (auto simp: diag_cell_def diag_step_frame)

lemma diag_cell_ok:
  assumes "pm_ready tm pm" and "diagonal dl" and "diagonal dr" and "dl \<noteq> dr"
    and "0 \<le> fst x" and "fst x < pm_height pm"
    and "\<And>d. d \<in> {dl, dr} \<Longrightarrow> free_step tm d x \<Longrightarrow> abs (jd D (walk d 1 x) d) \<le> room pm d (walk d 1 x)"
  shows "diag_ok tm pm dl (diag_cell tm pm dl dr x D) x" and "diag_ok tm pm dr (diag_cell tm pm dl dr x D) x"
proof -
  have m: "walk d 1 x \<noteq> x" for d by (cases d) (auto simp: walk_def prod_eq_iff)
  have b: "0 \<le> room pm d x" for d using assms(5,6) by (simp add: room_def)
  have i0: "i16 0 = 0" by (auto intro: i16_id)
  let ?D = "diag_step tm pm dl x D"
  show "diag_ok tm pm dl (diag_cell tm pm dl dr x D) x" "diag_ok tm pm dr (diag_cell tm pm dl dr x D) x"
  proof (atomize(full), cases "pm_isEmpty tm x")
    case True
    have l: "diag_ok tm pm dl ?D x" by (rule diag_step_ok) (use assms True in auto)
    have f: "jd ?D (walk dr 1 x) e = jd D (walk dr 1 x) e" for e
      by (rule diag_step_frame) (use m in auto)
    have r: "diag_ok tm pm dr (diag_step tm pm dr x ?D) x"
      by (rule diag_step_ok) (use assms True f in auto)
    have "diag_ok tm pm dl (diag_step tm pm dr x ?D) x = diag_ok tm pm dl ?D x"
      by (rule diag_ok_cong; rule diag_step_frame) (use assms(4) m in auto)
    then show "diag_ok tm pm dl (diag_cell tm pm dl dr x D) x \<and> diag_ok tm pm dr (diag_cell tm pm dl dr x D) x"
      using l r True by (simp add: diag_cell_def)
  next
    case False
    then show "diag_ok tm pm dl (diag_cell tm pm dl dr x D) x \<and> diag_ok tm pm dr (diag_cell tm pm dl dr x D) x"
      using assms(4) b i0 by (simp add: diag_cell_def diag_ok_def diag_eq_def)
  qed
qed

text \<open>One diagonal sweep; \<open>A\<close> is the order of the rows, in which the row \<open>r + s\<close> comes before \<open>r\<close>.\<close>

lemma diag_sweep:
  assumes "pm_ready tm pm" and dirs: "diagonal dl" "diagonal dr" "dl \<noteq> dr" "fst (dir_delta dl) = s" "fst (dir_delta dr) = s"
    and rows: "sorted_wrt A rows" "set rows = {..<nat (pm_height pm)}"
    and A: "\<And>r r'. A r r' \<Longrightarrow> r \<noteq> r' \<and> int r' \<noteq> int r + s"
  shows "(\<forall>y e. e \<notin> {dl, dr} \<longrightarrow>
        jd (fold (\<lambda>r. fold (\<lambda>c. diag_cell tm pm dl dr (int r, int c)) [0..<nat (pm_width pm)]) rows D) y e = jd D y e)
    \<and> (\<forall>rc\<in>set (List.product rows [0..<nat (pm_width pm)]). \<forall>d\<in>{dl, dr}. diag_ok tm pm d
        (fold (\<lambda>r. fold (\<lambda>c. diag_cell tm pm dl dr (int r, int c)) [0..<nat (pm_width pm)]) rows D)
        (int (fst rc), int (snd rc)))"
  unfolding fold_nested
proof (rule fold_establishes [where P = "\<lambda>D'. \<forall>y e. e \<notin> {dl, dr} \<longrightarrow> jd D' y e = jd D y e"
      and R = "\<lambda>(r, c) (r', c'). A r r' \<or> r = r' \<and> c < c'"
      and Q = "\<lambda>rc D. \<forall>d\<in>{dl, dr}. diag_ok tm pm d D (int (fst rc), int (snd rc))"
      and f = "\<lambda>(r, c). diag_cell tm pm dl dr (int r, int c)"])
  show "sorted_wrt (\<lambda>(r, c) (r', c'). A r r' \<or> r = r' \<and> c < c') (List.product rows [0..<nat (pm_width pm)])"
    by (rule sorted_wrt_product [OF rows(1)]) simp
next
  have s: "s = 1 \<or> s = -1" using dirs(1,4) by (cases dl) (auto simp: diagonal_def)
  have row: "fst (walk d 1 x) = fst x + s" if "d \<in> {dl, dr}" for d x using that dirs by (auto simp: walk_def)
  show "\<forall>y e. e \<notin> {dl, dr} \<longrightarrow> jd D y e = jd D y e" by simp
  fix ys x zs and D' :: jump_table
  assume xs: "List.product rows [0..<nat (pm_width pm)] = ys @ x # zs"
    and P: "\<forall>y e. e \<notin> {dl, dr} \<longrightarrow> jd D' y e = jd D y e"
    and Q: "\<forall>y\<in>set ys. \<forall>d\<in>{dl, dr}. diag_ok tm pm d D' (int (fst y), int (snd y))"
  obtain r c where x: "x = (r, c)" by (cases x)
  have "x \<in> set (List.product rows [0..<nat (pm_width pm)])" by (simp add: xs)
  then have rc: "r < nat (pm_height pm)" "c < nat (pm_width pm)" using rows by (auto simp: x set_product)
  have so: "sorted_wrt (\<lambda>(r, c) (r', c'). A r r' \<or> r = r' \<and> c < c') (ys @ x # zs)"
    unfolding xs [symmetric] by (rule sorted_wrt_product [OF rows(1)]) simp
  have bound: "abs (jd D' (walk d 1 (int r, int c)) d) \<le> room pm d (walk d 1 (int r, int c))"
    if d: "d \<in> {dl, dr}" and free: "free_step tm d (int r, int c)" for d
  proof -
    let ?y = "walk d 1 (int r, int c)"
    have "pm_isEmpty tm ?y" using free by (simp add: free_step_def)
    from pm_ready_bounds [OF assms(1) this] obtain r' c' where y: "?y = (int r', int c')"
      "r' < nat (pm_height pm)" "c' < nat (pm_width pm)"
      by (cases ?y) (auto elim!: nonneg_int_cases)
    have "(r', c') \<in> set (ys @ x # zs)" unfolding xs [symmetric] using y rows by (auto simp: set_product)
    moreover have r': "int r' = int r + s" using row [OF d, of "(int r, int c)"] y(1) by simp
    then have "(r', c') \<noteq> x" using s x by auto
    moreover have "(r', c') \<notin> set zs" using so r' s x A [of r r'] by (auto simp: sorted_wrt_append)
    ultimately have "(r', c') \<in> set ys" by auto
    then show ?thesis using Q d y(1) by (fastforce simp: diag_ok_def)
  qed
  have fx: "0 \<le> fst (int r, int c)" "fst (int r, int c) < pm_height pm" using rc by auto
  note C = diag_cell_ok [OF assms(1) dirs(1-3) fx, of D', OF bound]
  show "(\<forall>y e. e \<notin> {dl, dr} \<longrightarrow> jd ((case x of (r, c) \<Rightarrow> diag_cell tm pm dl dr (int r, int c)) D') y e = jd D y e)
      \<and> (\<forall>d\<in>{dl, dr}. diag_ok tm pm d ((case x of (r, c) \<Rightarrow> diag_cell tm pm dl dr (int r, int c)) D') (int (fst x), int (snd x)))"
    using C P by (simp add: x diag_cell_frame del: split_paired_All)
next
  have s: "s = 1 \<or> s = -1" using dirs(1,4) by (cases dl) (auto simp: diagonal_def)
  have row: "fst (walk d 1 x) = fst x + s" if "d \<in> {dl, dr}" for d x using that dirs by (auto simp: walk_def)
  fix x y and D' :: jump_table
  assume R: "(\<lambda>(r, c) (r', c'). A r r' \<or> r = r' \<and> c < c') x y"
    and Q: "\<forall>d\<in>{dl, dr}. diag_ok tm pm d D' (int (fst x), int (snd x))"
  obtain r c r' c' where xy: "x = (r, c)" "y = (r', c')" by (cases x; cases y)
  have "(int r', int c') \<noteq> (int r, int c)" "int r' \<noteq> int r + s" using R A [of r r'] s by (auto simp: xy)
  then have f: "jd (diag_cell tm pm dl dr (int r', int c') D') (int r, int c) e = jd D' (int r, int c) e"
    "d \<in> {dl, dr} \<Longrightarrow> jd (diag_cell tm pm dl dr (int r', int c') D') (walk d 1 (int r, int c)) e
       = jd D' (walk d 1 (int r, int c)) e" for d e
    using row [of d "(int r, int c)"] by (auto intro!: diag_cell_frame)
  have "diag_ok tm pm d (diag_cell tm pm dl dr (int r', int c') D') (int r, int c) = diag_ok tm pm d D' (int r, int c)"
    if "d \<in> {dl, dr}" for d
    using f that by (intro diag_ok_cong) auto
  then show "\<forall>d\<in>{dl, dr}. diag_ok tm pm d ((case y of (r, c) \<Rightarrow> diag_cell tm pm dl dr (int r, int c)) D') (int (fst x), int (snd x))"
    using Q by (simp add: xy)
qed

section \<open>The whole table\<close>

definition table_eqs :: "tile_map \<Rightarrow> jump_table \<Rightarrow> bool" where
  "table_eqs tm D \<longleftrightarrow> (\<forall>x. md_isValidTileCoord (tm_mapData tm) (snd x) (fst x) \<longrightarrow>
     (\<forall>d. if diagonal d then diag_eq tm d D x else straight_eq tm d D x)
     \<and> blockedDirectionBitfield (D x) =
         (if pm_isWall tm x then 0
          else fold (\<lambda>d b. if jd D x d = 0 then b OR push_bit (dir_index d) 1 else b) all_directions 0))"

lemma jd_wall_bitfield [simp]: "jumpDistance (wall_bitfield tm x D y) = jumpDistance (D y)"
  by (simp add: wall_bitfield_def)

lemma bitfield_pass_ok:
  fixes rows cols :: "nat list" and tm :: tile_map
  defines "B \<equiv> \<lambda>D. fold (\<lambda>r. fold (\<lambda>c. wall_bitfield tm (int r, int c)) cols) rows D"
  shows "(\<forall>y. jumpDistance (B D y) = jumpDistance (D y))
    \<and> (\<forall>rc\<in>set (List.product rows cols). blockedDirectionBitfield (B D (int (fst rc), int (snd rc))) =
        (if pm_isWall tm (int (fst rc), int (snd rc)) then 0
         else fold (\<lambda>d b. if jd D (int (fst rc), int (snd rc)) d = 0 then b OR push_bit (dir_index d) 1 else b) all_directions 0))"
  unfolding B_def fold_nested
proof (rule fold_establishes [where P = "\<lambda>D'. \<forall>y. jumpDistance (D' y) = jumpDistance (D y)" and R = "\<lambda>_ _. True"
      and Q = "\<lambda>rc D'. blockedDirectionBitfield (D' (int (fst rc), int (snd rc))) =
        (if pm_isWall tm (int (fst rc), int (snd rc)) then 0
         else fold (\<lambda>d b. if jd D (int (fst rc), int (snd rc)) d = 0 then b OR push_bit (dir_index d) 1 else b) all_directions 0)"
      and f = "\<lambda>(r, c). wall_bitfield tm (int r, int c)"])
  show "sorted_wrt (\<lambda>_ _. True) (List.product rows cols)" by (induction "List.product rows cols") auto
qed (auto simp: wall_bitfield_def)

lemma calculateDistantJumpPointMap_eqs:
  assumes "pm_ready tm pm"
  shows "table_eqs tm (pm_distantJumpPointMap (pm_calculateDistantJumpPointMap tm pm))"
proof -
  let ?rows = "[0..<nat (pm_height pm)]" and ?cols = "[0..<nat (pm_width pm)]"
  define D1 where "D1 = fold (\<lambda>r D. sweep_right tm pm r (sweep_left tm pm r D)) ?rows (pm_distantJumpPointMap pm)"
  define D2 where "D2 = fold (\<lambda>c D. sweep_down tm pm c (sweep_up tm pm c D)) ?cols D1"
  define D3 where "D3 = fold (\<lambda>r. fold (\<lambda>c. diag_cell tm pm UP_LEFT UP_RIGHT (int r, int c)) ?cols) ?rows D2"
  define D4 where "D4 = fold (\<lambda>r. fold (\<lambda>c. diag_cell tm pm DOWN_LEFT DOWN_RIGHT (int r, int c)) ?cols) (rev ?rows) D3"
  define D5 where "D5 = fold (\<lambda>r. fold (\<lambda>c. wall_bitfield tm (int r, int c)) ?cols) ?rows D4"
  have res: "pm_distantJumpPointMap (pm_calculateDistantJumpPointMap tm pm) = D5"
    by (simp add: pm_calculateDistantJumpPointMap_def Let_def D1_def D2_def D3_def D4_def D5_def)
  have straights: "\<forall>r\<in>set ?rows. row_eqs tm pm r D2" "\<forall>c\<in>set ?cols. col_eqs tm pm c D2"
    using cols_ok [OF assms rows_ok [OF assms]] unfolding D1_def D2_def by blast+
  have d3: "(\<forall>y e. e \<notin> {UP_LEFT, UP_RIGHT} \<longrightarrow> jd D3 y e = jd D2 y e)
    \<and> (\<forall>rc\<in>set (List.product ?rows ?cols). \<forall>d\<in>{UP_LEFT, UP_RIGHT}. diag_ok tm pm d D3 (int (fst rc), int (snd rc)))"
    unfolding D3_def
    by (rule diag_sweep [where A = "(<)" and s = "-1", OF assms]) (auto simp: diagonal_def)
  have d4: "(\<forall>y e. e \<notin> {DOWN_LEFT, DOWN_RIGHT} \<longrightarrow> jd D4 y e = jd D3 y e)
    \<and> (\<forall>rc\<in>set (List.product (rev ?rows) ?cols). \<forall>d\<in>{DOWN_LEFT, DOWN_RIGHT}. diag_ok tm pm d D4 (int (fst rc), int (snd rc)))"
    unfolding D4_def
    by (rule diag_sweep [where A = "(>)" and s = 1, OF assms]) (auto simp: diagonal_def sorted_wrt_rev)
  have d5: "\<forall>y. jumpDistance (D5 y) = jumpDistance (D4 y)"
    "\<forall>rc\<in>set (List.product ?rows ?cols). blockedDirectionBitfield (D5 (int (fst rc), int (snd rc))) =
        (if pm_isWall tm (int (fst rc), int (snd rc)) then 0
         else fold (\<lambda>d b. if jd D4 (int (fst rc), int (snd rc)) d = 0 then b OR push_bit (dir_index d) 1 else b) all_directions 0)"
    using bitfield_pass_ok [where tm = tm and cols = ?cols and rows = ?rows and D = D4] unfolding D5_def by blast+
  have st: "jd D5 y e = jd D2 y e" if "\<not> diagonal e" for y e
    using that d3 d4 d5(1) by (auto simp: diagonal_def simp del: split_paired_All)
  have up: "jd D5 y e = jd D3 y e" if "e \<notin> {DOWN_LEFT, DOWN_RIGHT}" for y e
    using that d4 d5(1) by (simp del: split_paired_All)
  have eqs: "(if diagonal d then diag_eq tm d D5 (int r, int c) else straight_eq tm d D5 (int r, int c))"
    if rc: "r < nat (pm_height pm)" "c < nat (pm_width pm)" for r c d
  proof (cases "diagonal d")
    case False
    then have "straight_eq tm d D5 (int r, int c) = straight_eq tm d D2 (int r, int c)"
      by (intro straight_eq_cong st)
    moreover have "straight_eq tm d D2 (int r, int c)"
      using False straights rc by (cases d) (auto simp: row_eqs_def col_eqs_def diagonal_def)
    ultimately show ?thesis using False by simp
  next
    case True
    then have u: "d \<in> {UP_LEFT, UP_RIGHT} \<Longrightarrow> diag_eq tm d D5 (int r, int c) = diag_eq tm d D3 (int r, int c)"
      by (auto simp: diag_eq_def up)
    have v: "diag_eq tm d D5 (int r, int c) = diag_eq tm d D4 (int r, int c)"
      using d5(1) by (simp add: diag_eq_def del: split_paired_All)
    have "d \<in> {UP_LEFT, UP_RIGHT} \<Longrightarrow> diag_ok tm pm d D3 (int r, int c)"
      "d \<in> {DOWN_LEFT, DOWN_RIGHT} \<Longrightarrow> diag_ok tm pm d D4 (int r, int c)"
      using d3 d4 rc by (force simp: set_product)+
    then show ?thesis using u v True by (auto simp: diag_ok_def diagonal_def)
  qed
  have bits: "blockedDirectionBitfield (D5 (int r, int c)) =
      (if pm_isWall tm (int r, int c) then 0
       else fold (\<lambda>d b. if jd D5 (int r, int c) d = 0 then b OR push_bit (dir_index d) 1 else b) all_directions 0)"
    if rc: "r < nat (pm_height pm)" "c < nat (pm_width pm)" for r c
    using d5(2) [rule_format, of "(r, c)"] d5(1) rc by (simp add: set_product del: split_paired_All)
  have cells: "\<exists>r c. x = (int r, int c) \<and> r < nat (pm_height pm) \<and> c < nat (pm_width pm)"
    if "md_isValidTileCoord (tm_mapData tm) (snd x) (fst x)" for x
    using that assms by (cases x) (auto simp: md_isValidTileCoord_def pm_ready_def pm_sized_def elim!: nonneg_int_cases)
  show ?thesis unfolding res table_eqs_def
  proof (rule allI, rule impI)
    fix x
    assume "md_isValidTileCoord (tm_mapData tm) (snd x) (fst x)"
    then obtain r c where x: "x = (int r, int c)" and rc: "r < nat (pm_height pm)" "c < nat (pm_width pm)"
      using cells by blast
    show "(\<forall>d. if diagonal d then diag_eq tm d D5 x else straight_eq tm d D5 x)
      \<and> blockedDirectionBitfield (D5 x) = (if pm_isWall tm x then 0
         else fold (\<lambda>d b. if jd D5 x d = 0 then b OR push_bit (dir_index d) 1 else b) all_directions 0)"
      unfolding x using eqs [OF rc] bits [OF rc] by blast
  qed
qed

section \<open>The table is the scan\<close>

definition span :: "tile_map \<Rightarrow> array_direction \<Rightarrow> cell \<Rightarrow> int" where
  \<comment> \<open>the number of cells of the map ahead\<close>
  "span tm d x =
     (if fst (dir_delta d) = -1 then fst x
      else if fst (dir_delta d) = 1 then md_height (tm_mapData tm) - 1 - fst x
      else if snd (dir_delta d) = -1 then snd x else md_width (tm_mapData tm) - 1 - snd x)"

lemma span_walk: "span tm d (walk d 1 x) = span tm d x - 1"
  by (cases d) (simp_all add: span_def walk_def)

lemma span_bounds: "pm_isEmpty tm x \<Longrightarrow> 0 \<le> span tm d x \<and> span tm d x < int (reach tm)"
  using pm_isEmpty_valid [of tm x] by (cases d) (auto simp: span_def reach_def)

lemma free_step_straight: "\<not> diagonal d \<Longrightarrow> free_step tm d x = pm_isEmpty tm (walk d 1 x)"
  by (simp add: free_step_def)

lemma free_step_empty: "free_step tm d x \<Longrightarrow> pm_isEmpty tm (walk d 1 x)"
  by (simp add: free_step_def)

lemma empty_valid: "pm_isEmpty tm x \<Longrightarrow> md_isValidTileCoord (tm_mapData tm) (snd x) (fst x)"
  by (simp add: pm_isEmpty_def split: if_splits)

lemma table_straight:
  "table_eqs tm D \<Longrightarrow> \<not> diagonal d \<Longrightarrow> md_isValidTileCoord (tm_mapData tm) (snd x) (fst x) \<Longrightarrow> straight_eq tm d D x"
  unfolding table_eqs_def by metis

lemma table_diag:
  "table_eqs tm D \<Longrightarrow> diagonal d \<Longrightarrow> md_isValidTileCoord (tm_mapData tm) (snd x) (fst x) \<Longrightarrow> diag_eq tm d D x"
  unfolding table_eqs_def by metis

lemma scan_straight_table:
  assumes "table_eqs tm D" and "\<not> diagonal d" and "pm_isEmpty tm x" and "span tm d x < int n"
  shows "jd D x d = scan_straight n tm d x"
  using assms(3,4)
proof (induction n arbitrary: x)
  case 0
  then show ?case using span_bounds [of tm x d] by simp
next
  case (Suc n)
  have e: "straight_eq tm d D x" by (rule table_straight [OF assms(1,2) empty_valid [OF Suc.prems(1)]])
  have "jd D (walk d 1 x) d = scan_straight n tm d (walk d 1 x)" if "pm_isEmpty tm (walk d 1 x)"
    using Suc.IH [OF that] Suc.prems(2) by (simp add: span_walk)
  then show ?case using e Suc.prems(1) assms(2) by (simp add: straight_eq_def free_step_straight)
qed

lemma scan_diagonal_table:
  assumes "table_eqs tm D" and "diagonal d" and "pm_isEmpty tm x" and "span tm d x < int n"
  shows "jd D x d = scan_diagonal (reach tm) n tm d x"
  using assms(3,4)
proof (induction n arbitrary: x)
  case 0
  then show ?case using span_bounds [of tm x d] by simp
next
  case (Suc n)
  have e: "diag_eq tm d D x" by (rule table_diag [OF assms(1,2) empty_valid [OF Suc.prems(1)]])
  have "jd D (walk d 1 x) d = scan_diagonal (reach tm) n tm d (walk d 1 x)"
    "jd D (walk d 1 x) (vertical d) = scan_straight (reach tm) tm (vertical d) (walk d 1 x)"
    "jd D (walk d 1 x) (horizontal d) = scan_straight (reach tm) tm (horizontal d) (walk d 1 x)"
    if "free_step tm d x"
    using Suc.IH [OF free_step_empty [OF that]] Suc.prems(2) span_bounds [OF free_step_empty [OF that]]
    by (auto simp: span_walk intro!: scan_straight_table [OF assms(1)] free_step_empty [OF that])
  then show ?case using e Suc.prems(1) by (simp add: diag_eq_def)
qed

lemma table_is_scan:
  assumes "table_eqs tm D" and "md_isValidTileCoord (tm_mapData tm) (snd x) (fst x)"
  shows "jd D x d = scan tm d x"
proof (cases "pm_isEmpty tm x")
  case True
  then show ?thesis
    using scan_straight_table [OF assms(1) _ True] scan_diagonal_table [OF assms(1) _ True] span_bounds [OF True]
    by (simp add: scan_def)
next
  case False
  then show ?thesis
    using table_straight [OF assms(1) _ assms(2), of d] table_diag [OF assms(1) _ assms(2), of d]
    by (cases "diagonal d") (auto simp: scan_def straight_eq_def diag_eq_def)
qed

text \<open>All steps within the absolute distance are free.\<close>

lemma table_clear:
  assumes "table_eqs tm D" and "md_isValidTileCoord (tm_mapData tm) (snd x) (fst x)"
    and "0 \<le> i" and "i < abs (jd D x d)"
  shows "free_step tm d (walk d i x)"
  using assms(2-4)
proof (induction "nat (abs (jd D x d))" arbitrary: x i)
  case 0
  then show ?case by simp
next
  case (Suc n)
  have unfolded: "free_step tm d x \<and> (jd D x d = 1 \<or> jd D x d = farther (jd D (walk d 1 x) d))"
    using table_straight [OF assms(1) _ Suc.prems(1), of d] table_diag [OF assms(1) _ Suc.prems(1), of d] Suc.prems
    by (cases "diagonal d") (auto simp: straight_eq_def diag_eq_def free_step_straight split: if_splits)
  show ?case
  proof (cases "i = 0 \<or> jd D x d = 1")
    case True
    then have "i = 0" using Suc.prems by auto
    then show ?thesis using unfolded by simp
  next
    case False
    let ?y = "walk d 1 x"
    have f: "jd D x d = farther (jd D ?y d)" using False unfolded by simp
    then have "abs (jd D ?y d) = abs (jd D x d) - 1" by (auto simp: farther_def split: if_splits)
    then have "free_step tm d (walk d (i - 1) ?y)"
      using Suc False by (intro Suc.hyps(1) empty_valid free_step_empty) (auto simp: unfolded)
    then show ?thesis by (simp add: walk_walk)
  qed
qed

text \<open>Closing or opening a tile has to invalidate the table; \<open>coherent\<close> says that it was.\<close>

definition coherent :: "tile_map \<Rightarrow> precompute_map \<Rightarrow> bool" where
  "coherent tm pm \<longleftrightarrow> tile_map_ok tm \<and> pm_sized tm pm
     \<and> (pm_isPrecomputed pm \<longrightarrow> table_eqs tm (pm_distantJumpPointMap pm))"

lemma calculateMap_coherent:
  assumes "coherent tm pm"
  shows "coherent tm (pm_calculateMap tm pm)" and "pm_isPrecomputed (pm_calculateMap tm pm)"
    and "table_eqs tm (pm_distantJumpPointMap (pm_calculateMap tm pm))"
proof -
  have "table_eqs tm (pm_distantJumpPointMap (pm_calculateDistantJumpPointMap tm (pm_calculateJumpPointMap tm pm)))"
    by (rule calculateDistantJumpPointMap_eqs)
       (use assms in \<open>simp add: coherent_def pm_ready_def pm_sized_def calculateJumpPointMap_ok\<close>)
  then show "table_eqs tm (pm_distantJumpPointMap (pm_calculateMap tm pm))"
    using assms by (simp add: pm_calculateMap_def coherent_def)
  then show "coherent tm (pm_calculateMap tm pm)" "pm_isPrecomputed (pm_calculateMap tm pm)"
    using assms
    by (auto simp: pm_calculateMap_def coherent_def pm_sized_def pm_calculateDistantJumpPointMap_def Let_def)
qed

lemma pm_new_coherent: "tile_map_ok tm \<Longrightarrow> coherent tm (pm_new tm)"
  by (simp add: coherent_def pm_sized_def pm_new_def)

section \<open>Properties\<close>

text \<open>
  C3: \<open>calculateMap\<close> computes, by its sweeps over the map, exactly the distances of the naive scan:
  for every tile and each of the eight directions the stored distance is the number of free steps
  to the next jump point, or minus the number of free steps to the next obstacle.
\<close>

theorem jump_table_equals_scan:
  assumes "tile_map_ok tm" and "pm_sized tm pm" and "\<not> pm_isPrecomputed pm"
    and "md_isValidTileCoord (tm_mapData tm) (snd x) (fst x)"
  shows "jumpDistance (pm_distantJumpPointMap (pm_calculateMap tm pm) x) d = scan tm d x"
  using calculateMap_coherent(3) [of tm pm] assms by (intro table_is_scan) (auto simp: coherent_def)

text \<open>A concrete map of three by three tiles with a wall in the middle.\<close>

definition small_map :: tile_map where
  "small_map = \<lparr>tm_mapData = \<lparr>md_width = 3, md_height = 3,
       md_tileData = [TILE_TYPE_NONE, TILE_TYPE_NONE, TILE_TYPE_NONE,
                      TILE_TYPE_NONE, TILE_TYPE_COLLIDABLE, TILE_TYPE_NONE,
                      TILE_TYPE_NONE, TILE_TYPE_NONE, TILE_TYPE_NONE],
       md_groundData = replicate 9 GROUND_TYPE_SNOW, md_districtData = replicate 9 0\<rparr>,
     tm_tileFlagsSet = replicate 9 0\<rparr>"

lemma small_map_ok: "tile_map_ok small_map"
  by (simp add: small_map_def tile_map_ok_def map_data_ok_def)

theorem jump_table_equals_scan_witness:
  "jumpDistance (pm_distantJumpPointMap (pm_calculateMap small_map (pm_new small_map)) (0, 0)) RIGHT = 2"
proof -
  have "scan small_map RIGHT (0, 0) = 2" by code_simp
  then show ?thesis
    using jump_table_equals_scan [OF small_map_ok, of "pm_new small_map" "(0, 0)" RIGHT]
    by (simp add: pm_sized_def pm_new_def md_isValidTileCoord_def) (simp add: small_map_def)
qed

text \<open>
  C10: a jump never runs into an obstacle. Within the absolute value of the stored distance every
  step in that direction leads to an open tile, and a diagonal step never cuts a corner: the two
  tiles beside it are open as well.
\<close>

theorem jump_distance_is_clear:
  assumes "coherent tm pm" and "md_isValidTileCoord (tm_mapData tm) (snd x) (fst x)"
    and "0 \<le> i" and "i < abs (jumpDistance (pm_distantJumpPointMap (pm_calculateMap tm pm) x) d)"
  shows "pm_isEmpty tm (walk d (i + 1) x)
    \<and> pm_isEmpty tm (walk (vertical d) 1 (walk d i x)) \<and> pm_isEmpty tm (walk (horizontal d) 1 (walk d i x))"
  using table_clear [OF calculateMap_coherent(3) [OF assms(1)] assms(2-4)]
  by (simp add: free_step_def walk_walk add.commute)

theorem jump_distance_is_clear_witness:
  "pm_isEmpty small_map (walk RIGHT 2 (0, 0))"
proof -
  have "scan small_map RIGHT (0, 0) = 2" by code_simp
  moreover have v: "md_isValidTileCoord (tm_mapData small_map) (snd (0, 0)) (fst (0, 0))"
    by (simp add: md_isValidTileCoord_def small_map_def)
  ultimately show ?thesis
    using jump_distance_is_clear [OF pm_new_coherent [OF small_map_ok] v, of 1 RIGHT]
      table_is_scan [OF calculateMap_coherent(3) [OF pm_new_coherent [OF small_map_ok]] v, of RIGHT]
    by simp
qed

end
