(* ===== verification/Battle_Tiles.thy ===== *)
theory Battle_Tiles
  imports Jump_Distances "HOL-Library.AList"
begin

text \<open>
  Opening and closing tiles during a battle
  (\<^verbatim>\<open>src/worldserver/game/maps/BattleMap.cpp\<close>): the closed flag of a tile, the two
  indexes of open points that follow it, and the jump table that has to be computed anew.
  The nested maps of the indexes, from \<open>x - y\<close> to \<open>x + y\<close> to the point, are association lists.
\<close>

section \<open>The index of open points\<close>

type_synonym split_points = "(int \<times> (int \<times> tile_coord) list) list"

definition sp_row :: "split_points \<Rightarrow> int \<Rightarrow> (int \<times> tile_coord) list" where
  \<comment> \<open>\<^verbatim>\<open>m[k]\<close>, which makes an empty row when there is none\<close>
  "sp_row m k = (case map_of m k of None \<Rightarrow> [] | Some row \<Rightarrow> row)"

definition sp_lookup :: "split_points \<Rightarrow> int \<Rightarrow> int \<Rightarrow> tile_coord option" where
  "sp_lookup m k j = map_of (sp_row m k) j"

definition sp_put :: "tile_coord \<Rightarrow> split_points \<Rightarrow> split_points" where
  "sp_put coord m =
     (let xMinusY = tc_x coord - tc_y coord; xPlusY = tc_x coord + tc_y coord
      in AList.update xMinusY (AList.update xPlusY coord (sp_row m xMinusY)) m)"

definition sp_erase :: "tile_coord \<Rightarrow> split_points \<Rightarrow> nat \<times> split_points" where
  \<comment> \<open>the erasure of a point, then of its row when nothing is left; the number tells whether it was there\<close>
  "sp_erase coord m =
     (let xMinusY = tc_x coord - tc_y coord; xPlusY = tc_x coord + tc_y coord;
          row = sp_row m xMinusY;
          nRemoved = (case map_of row xPlusY of None \<Rightarrow> 0 | Some _ \<Rightarrow> 1);
          row' = AList.delete xPlusY row
      in (nRemoved, if row' = [] then AList.delete xMinusY m else AList.update xMinusY row' m))"

lemma split_key_inj:
  "tc_x a - tc_y a = tc_x b - tc_y b \<Longrightarrow> tc_x a + tc_y a = tc_x b + tc_y b \<Longrightarrow> a = (b :: tile_coord)"
  by (intro tile_coord.equality) auto

lemma coord_eq_iff: "a = (b :: tile_coord) \<longleftrightarrow> tc_x a = tc_x b \<and> tc_y a = tc_y b"
  by (auto intro: tile_coord.equality)

lemma sp_lookup_put:
  "sp_lookup (sp_put c m) k j =
     (if k = tc_x c - tc_y c \<and> j = tc_x c + tc_y c then Some c else sp_lookup m k j)"
  by (simp add: sp_lookup_def sp_put_def Let_def sp_row_def update_conv')

lemma sp_lookup_erase:
  "sp_lookup (snd (sp_erase c m)) k j =
     (if k = tc_x c - tc_y c \<and> j = tc_x c + tc_y c then None else sp_lookup m k j)"
proof -
  let ?k = "tc_x c - tc_y c" and ?j = "tc_x c + tc_y c"
  have "map_of (AList.delete ?j (sp_row m ?k)) j = (if j = ?j then None else map_of (sp_row m ?k) j)"
    by (simp add: delete_conv')
  moreover have "AList.delete ?j (sp_row m ?k) = [] \<Longrightarrow> j \<noteq> ?j \<Longrightarrow> map_of (sp_row m ?k) j = None"
    using calculation by (metis map_of.simps(1))
  ultimately show ?thesis
    by (auto simp: sp_lookup_def sp_erase_def Let_def sp_row_def update_conv' delete_conv')
qed

lemma sp_erase_count: "fst (sp_erase c m) > 0 \<longleftrightarrow> sp_lookup m (tc_x c - tc_y c) (tc_x c + tc_y c) \<noteq> None"
  by (simp add: sp_erase_def Let_def sp_lookup_def split: option.split)

definition md_classifyPoints :: "map_data \<Rightarrow> tile_coord list" where
  \<comment> \<open>the order in which \<^verbatim>\<open>classifyTiles\<close> visits the tiles\<close>
  "md_classifyPoints md = [\<lparr>tc_x = x, tc_y = y\<rparr>. x \<leftarrow> [0..md_width md - 1], y \<leftarrow> [0..md_height md - 1]]"

definition md_openPoints :: "map_data \<Rightarrow> tile_coord list" where
  "md_openPoints md = filter (\<lambda>c. \<not> md_isWall md (tc_x c) (tc_y c)) (md_classifyPoints md)"

definition md_unconcealableOpenPoints :: "map_data \<Rightarrow> tile_coord list" where
  "md_unconcealableOpenPoints md =
     filter (\<lambda>c. \<not> md_isWall md (tc_x c) (tc_y c) \<and> \<not> md_isConcealable md (tc_x c) (tc_y c)) (md_classifyPoints md)"

definition md_splitOpenPoints :: "map_data \<Rightarrow> split_points" where
  "md_splitOpenPoints md = fold sp_put (md_openPoints md) []"

definition md_splitUnconcealableOpenPoints :: "map_data \<Rightarrow> split_points" where
  "md_splitUnconcealableOpenPoints md = fold sp_put (md_unconcealableOpenPoints md) []"

lemma sp_lookup_fold_put:
  "sp_lookup (fold sp_put cs m) k j = Some c \<longleftrightarrow>
     (c \<in> set cs \<and> k = tc_x c - tc_y c \<and> j = tc_x c + tc_y c)
     \<or> ((\<forall>c\<in>set cs. \<not> (k = tc_x c - tc_y c \<and> j = tc_x c + tc_y c)) \<and> sp_lookup m k j = Some c)"
proof (induction cs arbitrary: m)
  case (Cons a cs)
  show ?case using Cons by (auto simp: sp_lookup_put dest: split_key_inj)
qed simp

section \<open>The state\<close>

record battle_tiles =
  bt_tiles :: tile_map
  bt_splitOpenPoints :: split_points
  bt_splitUnconcealableOpenPoints :: split_points
  bt_precomputeMap :: precompute_map
  bt_safeZoneCenter :: tile_coord
  bt_isPatrolPointsDirty :: bool

abbreviation bt_mapData :: "battle_tiles \<Rightarrow> map_data" where
  "bt_mapData bt \<equiv> tm_mapData (bt_tiles bt)"

definition SIGHT_DISTANCE_IN_TILES :: int where
  \<comment> \<open>the ceiling of 240 / 32\<close>
  "SIGHT_DISTANCE_IN_TILES = 8"

definition bt_isWithinPatrolArea :: "battle_tiles \<Rightarrow> tile_coord \<Rightarrow> bool" where
  \<comment> \<open>its assertion that the coordinate is valid holds: the area is cut to the map\<close>
  "bt_isWithinPatrolArea bt c =
     (let minX = max 0 (tc_x (bt_safeZoneCenter bt) - SIGHT_DISTANCE_IN_TILES + 1);
          minY = max 0 (tc_y (bt_safeZoneCenter bt) - SIGHT_DISTANCE_IN_TILES + 1);
          maxX = min (md_width (bt_mapData bt) - 1) (tc_x (bt_safeZoneCenter bt) + SIGHT_DISTANCE_IN_TILES);
          maxY = min (md_height (bt_mapData bt) - 1) (tc_y (bt_safeZoneCenter bt) + SIGHT_DISTANCE_IN_TILES)
      in tc_x c \<ge> minX \<and> tc_x c \<le> maxX \<and> tc_y c \<ge> minY \<and> tc_y c \<le> maxY
         \<and> md_isSameDistrict (bt_mapData bt) c (bt_safeZoneCenter bt))"

definition bt_invalidate :: "tile_coord \<Rightarrow> battle_tiles \<Rightarrow> battle_tiles" where
  \<comment> \<open>the common end of opening and closing a tile\<close>
  "bt_invalidate coord bt =
     (let bt1 = bt\<lparr>bt_precomputeMap := pm_invalidate (bt_precomputeMap bt)\<rparr>
      in if bt_isWithinPatrolArea bt1 coord then bt1\<lparr>bt_isPatrolPointsDirty := True\<rparr> else bt1)"

definition bt_clearClosedTileFlag :: "tile_coord \<Rightarrow> battle_tiles \<Rightarrow> tile_error + battle_tiles" where
  "bt_clearClosedTileFlag coord bt =
     (if \<not> tm_inArray (bt_tiles bt) (tc_x coord) (tc_y coord) then Inl TileOutOfBounds
      else if tm_hasTileFlag (bt_tiles bt) (tc_x coord) (tc_y coord) TILE_FLAG_CLOSED then
        (if \<not> (md_isValidTileCoord (bt_mapData bt) (tc_x coord) (tc_y coord)
               \<and> \<not> md_isWall (bt_mapData bt) (tc_x coord) (tc_y coord)) then Inl TileAssertion
         else (case tm_clearTileFlag (tc_x coord) (tc_y coord) TILE_FLAG_CLOSED (bt_tiles bt) of
                 Inl e \<Rightarrow> Inl e
               | Inr tm \<Rightarrow>
                   let bt1 = bt\<lparr>bt_tiles := tm, bt_splitOpenPoints := sp_put coord (bt_splitOpenPoints bt)\<rparr>;
                       bt2 = (if \<not> md_isConcealable (bt_mapData bt) (tc_x coord) (tc_y coord)
                              then bt1\<lparr>bt_splitUnconcealableOpenPoints := sp_put coord (bt_splitUnconcealableOpenPoints bt1)\<rparr>
                              else bt1)
                   in Inr (bt_invalidate coord bt2)))
      else Inr bt)"

definition bt_markClosedTileFlag :: "tile_coord \<Rightarrow> battle_tiles \<Rightarrow> tile_error + battle_tiles" where
  "bt_markClosedTileFlag coord bt =
     (if md_isValidTileCoord (bt_mapData bt) (tc_x coord) (tc_y coord)
         \<and> \<not> md_isWall (bt_mapData bt) (tc_x coord) (tc_y coord)
         \<and> \<not> tm_hasTileFlag (bt_tiles bt) (tc_x coord) (tc_y coord) TILE_FLAG_CLOSED
      then (case tm_addTileFlag (tc_x coord) (tc_y coord) TILE_FLAG_CLOSED (bt_tiles bt) of
              Inl e \<Rightarrow> Inl e
            | Inr tm \<Rightarrow>
                let (nRemoved, points) = sp_erase coord (bt_splitOpenPoints bt);
                    bt1 = bt\<lparr>bt_tiles := tm, bt_splitOpenPoints := points\<rparr>
                in if \<not> nRemoved > 0 then Inl TileAssertion
                   else if \<not> md_isConcealable (bt_mapData bt) (tc_x coord) (tc_y coord) then
                     (let (nRemoved', points') = sp_erase coord (bt_splitUnconcealableOpenPoints bt1)
                      in if \<not> nRemoved' > 0 then Inl TileAssertion
                         else Inr (bt_invalidate coord (bt1\<lparr>bt_splitUnconcealableOpenPoints := points'\<rparr>)))
                   else Inr (bt_invalidate coord bt1))
      else Inr bt)"

definition bt_setTileClosed :: "tile_coord \<Rightarrow> bool \<Rightarrow> battle_tiles \<Rightarrow> tile_error + battle_tiles" where
  "bt_setTileClosed coord isClosed bt =
     (if isClosed then bt_markClosedTileFlag coord bt else bt_clearClosedTileFlag coord bt)"

fun bt_setTilesClosed :: "tile_coord list \<Rightarrow> bool \<Rightarrow> battle_tiles \<Rightarrow> tile_error + battle_tiles" where
  "bt_setTilesClosed [] isClosed bt = Inr bt"
| "bt_setTilesClosed (c # cs) isClosed bt =
     (case bt_setTileClosed c isClosed bt of Inl e \<Rightarrow> Inl e | Inr bt1 \<Rightarrow> bt_setTilesClosed cs isClosed bt1)"

definition bt_setTileAreaClosed :: "tile_coord \<Rightarrow> tile_coord \<Rightarrow> bool \<Rightarrow> battle_tiles \<Rightarrow> tile_error + battle_tiles" where
  "bt_setTileAreaClosed lowBound highBound isClosed =
     bt_setTilesClosed [\<lparr>tc_x = x, tc_y = y\<rparr>. x \<leftarrow> [tc_x lowBound..tc_x highBound], y \<leftarrow> [tc_y lowBound..tc_y highBound]] isClosed"

definition bt_prepareTiles :: "battle_tiles \<Rightarrow> battle_tiles" where
  \<comment> \<open>the part of \<^verbatim>\<open>prepareForBattle\<close> on the tiles\<close>
  "bt_prepareTiles bt =
     bt\<lparr>bt_tiles := tm_clearAllTileFlags (bt_tiles bt),
        bt_splitOpenPoints := md_splitOpenPoints (bt_mapData bt),
        bt_splitUnconcealableOpenPoints := md_splitUnconcealableOpenPoints (bt_mapData bt)\<rparr>"

definition bt_new :: "map_data \<Rightarrow> battle_tiles" where
  \<comment> \<open>the tiles after the constructor of \<^verbatim>\<open>BattleMap\<close> and the first \<^verbatim>\<open>prepareForBattle\<close>\<close>
  "bt_new md =
     (let tm = \<lparr>tm_mapData = md, tm_tileFlagsSet = replicate (nat (md_width md * md_height md)) 0\<rparr>
      in bt_prepareTiles \<lparr>bt_tiles = tm, bt_splitOpenPoints = [], bt_splitUnconcealableOpenPoints = [],
           bt_precomputeMap = pm_new tm, bt_safeZoneCenter = \<lparr>tc_x = 0, tc_y = 0\<rparr>, bt_isPatrolPointsDirty = False\<rparr>)"

section \<open>The invariant\<close>

definition bt_open :: "battle_tiles \<Rightarrow> tile_coord \<Rightarrow> bool" where
  "bt_open bt c \<longleftrightarrow> md_isValidTileCoord (bt_mapData bt) (tc_x c) (tc_y c)
     \<and> \<not> md_isWall (bt_mapData bt) (tc_x c) (tc_y c) \<and> \<not> tm_isTileClosed (bt_tiles bt) (tc_x c) (tc_y c)"

definition indexes :: "split_points \<Rightarrow> (tile_coord \<Rightarrow> bool) \<Rightarrow> bool" where
  "indexes m P \<longleftrightarrow> (\<forall>k j c. sp_lookup m k j = Some c \<longleftrightarrow> P c \<and> k = tc_x c - tc_y c \<and> j = tc_x c + tc_y c)"

definition bt_ok :: "battle_tiles \<Rightarrow> bool" where
  "bt_ok bt \<longleftrightarrow> coherent (bt_tiles bt) (bt_precomputeMap bt)
     \<and> (\<forall>x y. md_isValidTileCoord (bt_mapData bt) x y \<longrightarrow> tm_isTileClosed (bt_tiles bt) x y \<longrightarrow> \<not> md_isWall (bt_mapData bt) x y)
     \<and> indexes (bt_splitOpenPoints bt) (bt_open bt)
     \<and> indexes (bt_splitUnconcealableOpenPoints bt)
         (\<lambda>c. bt_open bt c \<and> \<not> md_isConcealable (bt_mapData bt) (tc_x c) (tc_y c))"

lemma indexes_put: "indexes m P \<Longrightarrow> indexes (sp_put c m) (\<lambda>x. x = c \<or> P x)"
  unfolding indexes_def by (auto simp: sp_lookup_put dest: split_key_inj)

lemma indexes_erase: "indexes m P \<Longrightarrow> indexes (snd (sp_erase c m)) (\<lambda>x. x \<noteq> c \<and> P x)"
  unfolding indexes_def by (auto simp: sp_lookup_erase dest: split_key_inj)

lemma indexes_count: "indexes m P \<Longrightarrow> P c \<Longrightarrow> fst (sp_erase c m) > 0"
  unfolding indexes_def sp_erase_count by blast

lemma indexes_cong: "indexes m P \<Longrightarrow> (\<And>c. P c = Q c) \<Longrightarrow> indexes m Q"
  by (simp add: indexes_def)

lemma indexes_fold_put: "indexes (fold sp_put cs []) (\<lambda>c. c \<in> set cs)"
  unfolding indexes_def sp_lookup_fold_put by (auto simp: sp_lookup_def sp_row_def)

lemma bt_invalidate_frame [simp]:
  "bt_tiles (bt_invalidate c bt) = bt_tiles bt"
  "bt_splitOpenPoints (bt_invalidate c bt) = bt_splitOpenPoints bt"
  "bt_splitUnconcealableOpenPoints (bt_invalidate c bt) = bt_splitUnconcealableOpenPoints bt"
  "bt_precomputeMap (bt_invalidate c bt) = pm_invalidate (bt_precomputeMap bt)"
  by (simp_all add: bt_invalidate_def Let_def)

lemma invalidated_coherent:
  "coherent tm pm \<Longrightarrow> tile_map_ok tm' \<Longrightarrow> tm_mapData tm' = tm_mapData tm \<Longrightarrow> coherent tm' (pm_invalidate pm)"
  by (simp add: coherent_def pm_sized_def pm_invalidate_def)

lemma bt_mark_ok:
  assumes ok: "bt_ok bt" and c: "bt_open bt c"
  shows "\<exists>bt'. bt_markClosedTileFlag c bt = Inr bt' \<and> bt_ok bt' \<and> \<not> pm_isPrecomputed (bt_precomputeMap bt')
    \<and> bt_mapData bt' = bt_mapData bt \<and> (\<forall>d. bt_open bt' d \<longleftrightarrow> bt_open bt d \<and> d \<noteq> c)"
proof -
  have coh: "coherent (bt_tiles bt) (bt_precomputeMap bt)" using ok by (simp add: bt_ok_def)
  have v: "md_isValidTileCoord (bt_mapData bt) (tc_x c) (tc_y c)" using c by (simp add: bt_open_def)
  obtain tm where tm: "tm_addTileFlag (tc_x c) (tc_y c) TILE_FLAG_CLOSED (bt_tiles bt) = Inr tm" "tile_map_ok tm"
    "tm_mapData tm = bt_mapData bt"
    "\<forall>x y. md_isValidTileCoord (bt_mapData bt) x y \<longrightarrow>
       tm_isTileClosed tm x y = (if x = tc_x c \<and> y = tc_y c then True else tm_isTileClosed (bt_tiles bt) x y)"
    using tm_addTileFlag_closed [OF _ v] coh by (auto simp: coherent_def)
  let ?u = "\<not> md_isConcealable (bt_mapData bt) (tc_x c) (tc_y c)"
  define bt' where "bt' = bt_invalidate c (bt\<lparr>bt_tiles := tm, bt_splitOpenPoints := snd (sp_erase c (bt_splitOpenPoints bt)),
    bt_splitUnconcealableOpenPoints := (if ?u then snd (sp_erase c (bt_splitUnconcealableOpenPoints bt))
       else bt_splitUnconcealableOpenPoints bt)\<rparr>)"
  have ix: "indexes (bt_splitOpenPoints bt) (bt_open bt)"
    "indexes (bt_splitUnconcealableOpenPoints bt) (\<lambda>c. bt_open bt c \<and> \<not> md_isConcealable (bt_mapData bt) (tc_x c) (tc_y c))"
    using ok by (auto simp: bt_ok_def)
  have n: "fst (sp_erase c (bt_splitOpenPoints bt)) > 0" "?u \<Longrightarrow> fst (sp_erase c (bt_splitUnconcealableOpenPoints bt)) > 0"
    using indexes_count [OF ix(1)] indexes_count [OF ix(2)] c by auto
  have run: "bt_markClosedTileFlag c bt = Inr bt'"
    using c tm(1) n by (cases ?u) (auto simp: bt_markClosedTileFlag_def bt_open_def tm_isTileClosed_def bt'_def Let_def split_beta)
  have op: "bt_open bt' d \<longleftrightarrow> bt_open bt d \<and> d \<noteq> c" for d
    using tm(3) tm(4) [rule_format, of "tc_x d" "tc_y d"]
    by (cases "d = c") (auto simp: bt_open_def bt'_def coord_eq_iff)
  have "coherent (bt_tiles bt') (bt_precomputeMap bt')"
    using invalidated_coherent [OF coh tm(2,3)] by (simp add: bt'_def)
  moreover have "md_isValidTileCoord (bt_mapData bt') x y \<Longrightarrow> tm_isTileClosed (bt_tiles bt') x y \<Longrightarrow> \<not> md_isWall (bt_mapData bt') x y" for x y
    using ok c tm(3,4) by (auto simp: bt_ok_def bt'_def bt_open_def split: if_splits)
  moreover have "indexes (bt_splitOpenPoints bt') (bt_open bt')"
  proof -
    have "indexes (snd (sp_erase c (bt_splitOpenPoints bt))) (bt_open bt')"
      by (rule indexes_cong [OF indexes_erase [OF ix(1)]]) (use op in auto)
    then show ?thesis by (simp add: bt'_def)
  qed
  moreover have "indexes (bt_splitUnconcealableOpenPoints bt') (\<lambda>d. bt_open bt' d \<and> \<not> md_isConcealable (bt_mapData bt') (tc_x d) (tc_y d))"
  proof (cases ?u)
    case True
    have "indexes (snd (sp_erase c (bt_splitUnconcealableOpenPoints bt))) (\<lambda>d. bt_open bt' d \<and> \<not> md_isConcealable (bt_mapData bt) (tc_x d) (tc_y d))"
      by (rule indexes_cong [OF indexes_erase [OF ix(2)]]) (use op in auto)
    then show ?thesis using True tm(3) by (simp add: bt'_def)
  next
    case False
    have "indexes (bt_splitUnconcealableOpenPoints bt) (\<lambda>d. bt_open bt' d \<and> \<not> md_isConcealable (bt_mapData bt) (tc_x d) (tc_y d))"
      by (rule indexes_cong [OF ix(2)]) (use False op in auto)
    then show ?thesis using False tm(3) by (simp add: bt'_def)
  qed
  ultimately have "bt_ok bt'" by (simp add: bt_ok_def)
  then show ?thesis using run op tm(3) by (auto simp: bt'_def pm_invalidate_def)
qed

lemma bt_clear_ok:
  assumes ok: "bt_ok bt" and v: "md_isValidTileCoord (bt_mapData bt) (tc_x c) (tc_y c)"
    and closed: "tm_isTileClosed (bt_tiles bt) (tc_x c) (tc_y c)"
  shows "\<exists>bt'. bt_clearClosedTileFlag c bt = Inr bt' \<and> bt_ok bt' \<and> \<not> pm_isPrecomputed (bt_precomputeMap bt')
    \<and> bt_mapData bt' = bt_mapData bt \<and> (\<forall>d. bt_open bt' d \<longleftrightarrow> bt_open bt d \<or> d = c)"
proof -
  have coh: "coherent (bt_tiles bt) (bt_precomputeMap bt)" using ok by (simp add: bt_ok_def)
  have w: "\<not> md_isWall (bt_mapData bt) (tc_x c) (tc_y c)" using ok v closed by (auto simp: bt_ok_def)
  obtain tm where tm: "tm_clearTileFlag (tc_x c) (tc_y c) TILE_FLAG_CLOSED (bt_tiles bt) = Inr tm" "tile_map_ok tm"
    "tm_mapData tm = bt_mapData bt"
    "\<forall>x y. md_isValidTileCoord (bt_mapData bt) x y \<longrightarrow>
       tm_isTileClosed tm x y = (if x = tc_x c \<and> y = tc_y c then False else tm_isTileClosed (bt_tiles bt) x y)"
    using tm_clearTileFlag_closed [OF _ v] coh by (auto simp: coherent_def)
  let ?u = "\<not> md_isConcealable (bt_mapData bt) (tc_x c) (tc_y c)"
  define bt' where "bt' = bt_invalidate c (bt\<lparr>bt_tiles := tm, bt_splitOpenPoints := sp_put c (bt_splitOpenPoints bt),
    bt_splitUnconcealableOpenPoints := (if ?u then sp_put c (bt_splitUnconcealableOpenPoints bt)
       else bt_splitUnconcealableOpenPoints bt)\<rparr>)"
  have ix: "indexes (bt_splitOpenPoints bt) (bt_open bt)"
    "indexes (bt_splitUnconcealableOpenPoints bt) (\<lambda>c. bt_open bt c \<and> \<not> md_isConcealable (bt_mapData bt) (tc_x c) (tc_y c))"
    using ok by (auto simp: bt_ok_def)
  have "tm_inArray (bt_tiles bt) (tc_x c) (tc_y c)" using tm_inArray_valid [OF _ v] coh by (simp add: coherent_def)
  then have run: "bt_clearClosedTileFlag c bt = Inr bt'"
    using v w closed tm(1)
    by (cases ?u) (auto simp: bt_clearClosedTileFlag_def tm_isTileClosed_def bt'_def Let_def)
  have op: "bt_open bt' d \<longleftrightarrow> bt_open bt d \<or> d = c" for d
    using tm(3) tm(4) [rule_format, of "tc_x d" "tc_y d"] v w
    by (cases "d = c") (auto simp: bt_open_def bt'_def coord_eq_iff)
  have "coherent (bt_tiles bt') (bt_precomputeMap bt')"
    using invalidated_coherent [OF coh tm(2,3)] by (simp add: bt'_def)
  moreover have "md_isValidTileCoord (bt_mapData bt') x y \<Longrightarrow> tm_isTileClosed (bt_tiles bt') x y \<Longrightarrow> \<not> md_isWall (bt_mapData bt') x y" for x y
    using ok tm(3,4) by (auto simp: bt_ok_def bt'_def split: if_splits)
  moreover have "indexes (bt_splitOpenPoints bt') (bt_open bt')"
  proof -
    have "indexes (sp_put c (bt_splitOpenPoints bt)) (bt_open bt')"
      by (rule indexes_cong [OF indexes_put [OF ix(1)]]) (use op in auto)
    then show ?thesis by (simp add: bt'_def)
  qed
  moreover have "indexes (bt_splitUnconcealableOpenPoints bt') (\<lambda>d. bt_open bt' d \<and> \<not> md_isConcealable (bt_mapData bt') (tc_x d) (tc_y d))"
  proof (cases ?u)
    case True
    have "indexes (sp_put c (bt_splitUnconcealableOpenPoints bt)) (\<lambda>d. bt_open bt' d \<and> \<not> md_isConcealable (bt_mapData bt) (tc_x d) (tc_y d))"
      by (rule indexes_cong [OF indexes_put [OF ix(2)]]) (use True op in auto)
    then show ?thesis using True tm(3) by (simp add: bt'_def)
  next
    case False
    have "indexes (bt_splitUnconcealableOpenPoints bt) (\<lambda>d. bt_open bt' d \<and> \<not> md_isConcealable (bt_mapData bt) (tc_x d) (tc_y d))"
      by (rule indexes_cong [OF ix(2)]) (use False op in auto)
    then show ?thesis using False tm(3) by (simp add: bt'_def)
  qed
  ultimately have "bt_ok bt'" by (simp add: bt_ok_def)
  then show ?thesis using run op tm(3) by (auto simp: bt'_def pm_invalidate_def)
qed

lemma bt_prepareTiles_ok:
  assumes "map_data_ok (bt_mapData bt)" and "tile_map_ok (bt_tiles bt)" and "pm_sized (bt_tiles bt) (bt_precomputeMap bt)"
    and "\<not> pm_isPrecomputed (bt_precomputeMap bt)"
  shows "bt_ok (bt_prepareTiles bt)"
proof -
  have pts: "c \<in> set (md_classifyPoints (bt_mapData bt)) \<longleftrightarrow> md_isValidTileCoord (bt_mapData bt) (tc_x c) (tc_y c)" for c
    by (cases c) (auto simp: md_classifyPoints_def md_isValidTileCoord_def image_iff)
  have d: "tm_mapData (tm_clearAllTileFlags (bt_tiles bt)) = bt_mapData bt"
    by (simp add: tm_clearAllTileFlags_def Let_def)
  have op: "bt_open (bt_prepareTiles bt) c \<longleftrightarrow> c \<in> set (md_openPoints (bt_mapData bt))" for c
    using tm_clearAllTileFlags_none [OF assms(2)] d
    by (auto simp: bt_open_def bt_prepareTiles_def md_openPoints_def pts)
  have "indexes (md_splitOpenPoints (bt_mapData bt)) (bt_open (bt_prepareTiles bt))"
    unfolding md_splitOpenPoints_def by (rule indexes_cong [OF indexes_fold_put]) (simp add: op)
  moreover have "indexes (md_splitUnconcealableOpenPoints (bt_mapData bt)) (\<lambda>c. bt_open (bt_prepareTiles bt) c
      \<and> \<not> md_isConcealable (bt_mapData bt) (tc_x c) (tc_y c))"
    unfolding md_splitUnconcealableOpenPoints_def
    by (rule indexes_cong [OF indexes_fold_put]) (auto simp: op md_unconcealableOpenPoints_def md_openPoints_def)
  moreover have "coherent (tm_clearAllTileFlags (bt_tiles bt)) (bt_precomputeMap bt)"
    using assms(3,4) d tm_clearAllTileFlags_ok [OF assms(2)] by (simp add: coherent_def pm_sized_def)
  ultimately show ?thesis
    using tm_clearAllTileFlags_none [OF assms(2)] by (auto simp: bt_ok_def bt_prepareTiles_def d)
qed

lemma bt_new_ok: "map_data_ok md \<Longrightarrow> bt_ok (bt_new md)"
  unfolding bt_new_def Let_def
  by (rule bt_prepareTiles_ok) (simp_all add: tile_map_ok_def pm_sized_def pm_new_def)

section \<open>Properties\<close>

text \<open>
  C5: opening and closing tiles keeps everything that depends on them consistent. On any tile of
  the map \<open>setTileClosed\<close> succeeds, exactly that tile changes, and only if it is no wall; both indexes
  list exactly the open points again; and the jump table is never used after a change it has not seen.
\<close>

theorem set_tile_closed_consistent:
  assumes "bt_ok bt" and "md_isValidTileCoord (bt_mapData bt) (tc_x c) (tc_y c)"
  shows "\<exists>bt'. bt_setTileClosed c isClosed bt = Inr bt' \<and> bt_ok bt'
    \<and> (\<forall>d. bt_open bt' d \<longleftrightarrow>
          (if d = c then \<not> isClosed \<and> \<not> md_isWall (bt_mapData bt) (tc_x c) (tc_y c) else bt_open bt d))
    \<and> (bt_open bt' \<noteq> bt_open bt \<longrightarrow> \<not> pm_isPrecomputed (bt_precomputeMap bt'))"
proof (cases "isClosed = bt_open bt c \<and> \<not> md_isWall (bt_mapData bt) (tc_x c) (tc_y c)")
  case True
  then show ?thesis
    using bt_mark_ok [OF assms(1), of c] bt_clear_ok [OF assms] assms(2)
    by (cases isClosed) (auto simp: bt_setTileClosed_def bt_open_def [of bt c])
next
  case False
  have "tm_inArray (bt_tiles bt) (tc_x c) (tc_y c)"
    using tm_inArray_valid [OF _ assms(2)] assms(1) by (simp add: bt_ok_def coherent_def)
  then have "bt_setTileClosed c isClosed bt = Inr bt"
    using False assms
    by (cases isClosed) (auto simp: bt_setTileClosed_def bt_markClosedTileFlag_def bt_clearClosedTileFlag_def
        bt_open_def bt_ok_def tm_isTileClosed_def)
  then show ?thesis using False assms by (auto simp: bt_open_def)
qed

theorem set_tile_closed_consistent_witness:
  "\<exists>bt'. bt_setTileClosed \<lparr>tc_x = 2, tc_y = 1\<rparr> True (bt_new (tm_mapData small_map)) = Inr bt'
    \<and> bt_ok bt' \<and> \<not> bt_open bt' \<lparr>tc_x = 2, tc_y = 1\<rparr>"
proof -
  have ok: "bt_ok (bt_new (tm_mapData small_map))"
    using small_map_ok by (intro bt_new_ok) (simp add: tile_map_ok_def)
  have "bt_mapData (bt_new (tm_mapData small_map)) = tm_mapData small_map"
    by (simp add: bt_new_def bt_prepareTiles_def Let_def tm_clearAllTileFlags_def)
  then have "md_isValidTileCoord (bt_mapData (bt_new (tm_mapData small_map)))
      (tc_x \<lparr>tc_x = 2, tc_y = 1\<rparr>) (tc_y \<lparr>tc_x = 2, tc_y = 1\<rparr>)"
    by (simp add: md_isValidTileCoord_def) (simp add: small_map_def)
  from set_tile_closed_consistent [OF ok this, of True] show ?thesis by metis
qed

text \<open>
  \<open>prepareForBattle\<close> opens all tiles again without invalidating the jump table. A tile that was
  closed when the table was computed is open afterwards, but the table, still marked as computed,
  lets no step leave it, although the fresh scan of a direction with a free step is not zero.
\<close>

theorem prepare_keeps_stale_table:
  assumes "bt_ok bt" and "pm_isPrecomputed (bt_precomputeMap bt)"
    and "md_isValidTileCoord (bt_mapData bt) x y" and "tm_isTileClosed (bt_tiles bt) x y"
    and "free_step (bt_tiles (bt_prepareTiles bt)) d (y, x)"
  shows "pm_isEmpty (bt_tiles (bt_prepareTiles bt)) (y, x)
    \<and> pm_isPrecomputed (bt_precomputeMap (bt_prepareTiles bt))
    \<and> jumpDistance (pm_distantJumpPointMap (bt_precomputeMap (bt_prepareTiles bt)) (y, x)) d = 0
    \<and> scan (bt_tiles (bt_prepareTiles bt)) d (y, x) \<noteq> 0"
proof -
  let ?tm = "bt_tiles (bt_prepareTiles bt)"
  have ok: "tile_map_ok (bt_tiles bt)" "table_eqs (bt_tiles bt) (pm_distantJumpPointMap (bt_precomputeMap bt))"
    using assms(1,2) by (auto simp: bt_ok_def coherent_def)
  have d: "tm_mapData ?tm = bt_mapData bt" by (simp add: bt_prepareTiles_def tm_clearAllTileFlags_def Let_def)
  have e: "pm_isEmpty ?tm (y, x)"
    using tm_clearAllTileFlags_none [OF ok(1) assms(3)] assms(1,3,4) d
    by (auto simp: pm_isEmpty_def bt_ok_def bt_prepareTiles_def)
  have "reach ?tm \<noteq> 0" using span_bounds [OF e, of d] by auto
  then obtain n where "reach ?tm = Suc n" by (cases "reach ?tm") auto
  then have "scan ?tm d (y, x) \<noteq> 0"
    using e assms(5) by (auto simp: scan_def farther_def)
  moreover have "pm_isWall (bt_tiles bt) (y, x)" using assms(3,4) by (simp add: pm_isEmpty_def)
  then have "jumpDistance (pm_distantJumpPointMap (bt_precomputeMap bt) (y, x)) d = 0"
    using table_is_scan [OF ok(2), of "(y, x)" d] assms(3) by (simp add: scan_def)
  ultimately show ?thesis using e assms(2) by (simp add: bt_prepareTiles_def)
qed

lemma small_battle:
  "bt_ok (bt_new (tm_mapData small_map))" "bt_mapData (bt_new (tm_mapData small_map)) = tm_mapData small_map"
  "bt_open (bt_new (tm_mapData small_map)) \<lparr>tc_x = 0, tc_y = 0\<rparr>"
proof -
  show "bt_ok (bt_new (tm_mapData small_map))"
    using small_map_ok by (intro bt_new_ok) (simp add: tile_map_ok_def)
  show "bt_mapData (bt_new (tm_mapData small_map)) = tm_mapData small_map"
    by (simp add: bt_new_def bt_prepareTiles_def Let_def tm_clearAllTileFlags_def)
  show "bt_open (bt_new (tm_mapData small_map)) \<lparr>tc_x = 0, tc_y = 0\<rparr>" by code_simp
qed

theorem prepare_keeps_stale_table_witness:
  "\<exists>bt. bt_ok bt \<and> bt_mapData bt = tm_mapData small_map
    \<and> jumpDistance (pm_distantJumpPointMap (bt_precomputeMap (bt_prepareTiles bt)) (0, 0)) RIGHT = 0
    \<and> scan (bt_tiles (bt_prepareTiles bt)) RIGHT (0, 0) \<noteq> 0"
proof -
  obtain bt1 where b1: "bt_ok bt1" "bt_mapData bt1 = tm_mapData small_map" "\<not> bt_open bt1 \<lparr>tc_x = 0, tc_y = 0\<rparr>"
    using bt_mark_ok [OF small_battle(1,3)] small_battle(2) by auto
  define bt where "bt = bt1\<lparr>bt_precomputeMap := pm_calculateMap (bt_tiles bt1) (bt_precomputeMap bt1)\<rparr>"
  have coh: "coherent (bt_tiles bt1) (bt_precomputeMap bt1)" using b1(1) by (simp add: bt_ok_def)
  have w: "md_isValidTileCoord (tm_mapData small_map) x y \<and> \<not> md_isWall (tm_mapData small_map) x y" if "x \<in> {0, 1}" "y = 0" for x y
    using that by (auto simp: md_isValidTileCoord_def md_isWall_def md_isCollidable_def md_isPenetrable_def
        md_getTileIndex_def small_map_def)
  have "bt_open bt = bt_open bt1" by (simp add: bt_def bt_open_def fun_eq_iff)
  then have ok: "bt_ok bt" using b1(1) calculateMap_coherent [OF coh] by (simp add: bt_ok_def bt_def)
  have pre: "pm_isPrecomputed (bt_precomputeMap bt)" using calculateMap_coherent [OF coh] by (simp add: bt_def)
  have v: "md_isValidTileCoord (bt_mapData bt) 0 0" "tm_isTileClosed (bt_tiles bt) 0 0"
    using b1(2,3) w [of 0 0] by (auto simp: bt_def bt_open_def)
  have "tile_map_ok (bt_tiles bt)" using ok by (simp add: bt_ok_def coherent_def)
  moreover have "tm_mapData (tm_clearAllTileFlags (bt_tiles bt)) = tm_mapData small_map"
    using b1(2) by (simp add: bt_def tm_clearAllTileFlags_def Let_def)
  ultimately have "pm_isEmpty (bt_tiles (bt_prepareTiles bt)) (0, 1)"
    using w [of 1 0] tm_clearAllTileFlags_none [of "bt_tiles bt" 1 0] b1(2)
    by (auto simp: pm_isEmpty_def bt_prepareTiles_def bt_def)
  then have f: "free_step (bt_tiles (bt_prepareTiles bt)) RIGHT (0, 0)" by (simp add: free_step_def walk_def)
  show ?thesis using prepare_keeps_stale_table [OF ok pre v f] ok b1(2) by (auto simp: bt_def)
qed

text \<open>
  The two directions of \<open>setTileClosed\<close> treat a coordinate beyond the map differently. Closing
  it is ignored; opening it reads the flags before looking at the coordinate, outside the array.
\<close>

theorem open_beyond_map_out_of_bounds:
  assumes "bt_ok bt" and "md_getTileIndex (bt_mapData bt) (tc_x c) (tc_y c) < 0
    \<or> md_getTileIndex (bt_mapData bt) (tc_x c) (tc_y c) \<ge> md_width (bt_mapData bt) * md_height (bt_mapData bt)"
  shows "bt_setTileClosed c True bt = Inr bt \<and> bt_setTileClosed c False bt = Inl TileOutOfBounds"
proof -
  have "\<not> md_isValidTileCoord (bt_mapData bt) (tc_x c) (tc_y c)"
    using tile_index_bounds [of "bt_mapData bt" "tc_x c" "tc_y c"] assms(2) by auto
  moreover have "\<not> tm_inArray (bt_tiles bt) (tc_x c) (tc_y c)"
    using assms by (auto simp: tm_inArray_def tm_index_def bt_ok_def coherent_def tile_map_ok_def nat_less_iff)
  ultimately show ?thesis by (simp add: bt_setTileClosed_def bt_markClosedTileFlag_def bt_clearClosedTileFlag_def)
qed

theorem open_beyond_map_out_of_bounds_witness:
  "bt_setTileClosed \<lparr>tc_x = 0, tc_y = 3\<rparr> False (bt_new (tm_mapData small_map)) = Inl TileOutOfBounds"
  using open_beyond_map_out_of_bounds [OF small_battle(1), of "\<lparr>tc_x = 0, tc_y = 3\<rparr>"]
  by (simp add: small_battle(2) md_getTileIndex_def) (simp add: small_map_def)

end
