(* ===== verification/Explore_Table.thy ===== *)
theory Explore_Table
  imports Precompute_Map
begin

text \<open>
  The 48 exploration functions of \<^verbatim>\<open>JPSPlus.cpp\<close> and the table of
  \<^verbatim>\<open>ExploreDirections.h\<close>, indexed by the blocked directions of a cell (times eight) plus the
  direction of travel. An exploration function is the list of directions it searches, in its order;
  the search itself is in \<open>JPS_Plus\<close>. The 2048 entries, in sixteen parts, are checked against the
  pruning rule of jump point search.
\<close>

section \<open>The exploration functions\<close>

definition explore_Null :: "array_direction list" where
  "explore_Null = []"

definition explore_D :: "array_direction list" where
  "explore_D = [DOWN]"

definition explore_DR :: "array_direction list" where
  "explore_DR = [DOWN_RIGHT]"

definition explore_R :: "array_direction list" where
  "explore_R = [RIGHT]"

definition explore_UR :: "array_direction list" where
  "explore_UR = [UP_RIGHT]"

definition explore_U :: "array_direction list" where
  "explore_U = [UP]"

definition explore_UL :: "array_direction list" where
  "explore_UL = [UP_LEFT]"

definition explore_L :: "array_direction list" where
  "explore_L = [LEFT]"

definition explore_DL :: "array_direction list" where
  "explore_DL = [DOWN_LEFT]"

definition explore_D_DR :: "array_direction list" where
  "explore_D_DR = [DOWN, DOWN_RIGHT]"

definition explore_DR_R :: "array_direction list" where
  "explore_DR_R = [DOWN_RIGHT, RIGHT]"

definition explore_R_UR :: "array_direction list" where
  "explore_R_UR = [RIGHT, UP_RIGHT]"

definition explore_UR_U :: "array_direction list" where
  "explore_UR_U = [UP_RIGHT, UP]"

definition explore_U_UL :: "array_direction list" where
  "explore_U_UL = [UP, UP_LEFT]"

definition explore_UL_L :: "array_direction list" where
  "explore_UL_L = [UP_LEFT, LEFT]"

definition explore_L_DL :: "array_direction list" where
  "explore_L_DL = [LEFT, DOWN_LEFT]"

definition explore_DL_D :: "array_direction list" where
  "explore_DL_D = [DOWN_LEFT, DOWN]"

definition explore_D_R :: "array_direction list" where
  "explore_D_R = [DOWN, RIGHT]"

definition explore_R_U :: "array_direction list" where
  "explore_R_U = [RIGHT, UP]"

definition explore_U_L :: "array_direction list" where
  "explore_U_L = [UP, LEFT]"

definition explore_L_D :: "array_direction list" where
  "explore_L_D = [LEFT, DOWN]"

definition explore_D_U :: "array_direction list" where
  "explore_D_U = [DOWN, UP]"

definition explore_R_L :: "array_direction list" where
  "explore_R_L = [RIGHT, LEFT]"

definition explore_D_DR_R :: "array_direction list" where
  "explore_D_DR_R = [DOWN, DOWN_RIGHT, RIGHT]"

definition explore_DR_R_UR :: "array_direction list" where
  "explore_DR_R_UR = [DOWN_RIGHT, RIGHT, UP_RIGHT]"

definition explore_R_UR_U :: "array_direction list" where
  "explore_R_UR_U = [RIGHT, UP_RIGHT, UP]"

definition explore_UR_U_UL :: "array_direction list" where
  "explore_UR_U_UL = [UP_RIGHT, UP, UP_LEFT]"

definition explore_U_UL_L :: "array_direction list" where
  "explore_U_UL_L = [UP, UP_LEFT, LEFT]"

definition explore_UL_L_DL :: "array_direction list" where
  "explore_UL_L_DL = [UP_LEFT, LEFT, DOWN_LEFT]"

definition explore_L_DL_D :: "array_direction list" where
  "explore_L_DL_D = [LEFT, DOWN_LEFT, DOWN]"

definition explore_DL_D_DR :: "array_direction list" where
  "explore_DL_D_DR = [DOWN_LEFT, DOWN, DOWN_RIGHT]"

definition explore_D_R_U :: "array_direction list" where
  "explore_D_R_U = [DOWN, RIGHT, UP]"

definition explore_R_U_L :: "array_direction list" where
  "explore_R_U_L = [RIGHT, UP, LEFT]"

definition explore_U_L_D :: "array_direction list" where
  "explore_U_L_D = [UP, LEFT, DOWN]"

definition explore_L_D_R :: "array_direction list" where
  "explore_L_D_R = [LEFT, DOWN, RIGHT]"

definition explore_R_DR_D_L :: "array_direction list" where
  "explore_R_DR_D_L = [RIGHT, DOWN_RIGHT, DOWN, LEFT]"

definition explore_R_D_DL_L :: "array_direction list" where
  "explore_R_D_DL_L = [RIGHT, DOWN, DOWN_LEFT, LEFT]"

definition explore_U_UR_R_D :: "array_direction list" where
  "explore_U_UR_R_D = [UP, UP_RIGHT, RIGHT, DOWN]"

definition explore_U_R_DR_D :: "array_direction list" where
  "explore_U_R_DR_D = [UP, RIGHT, DOWN_RIGHT, DOWN]"

definition explore_L_UL_U_R :: "array_direction list" where
  "explore_L_UL_U_R = [LEFT, UP_LEFT, UP, RIGHT]"

definition explore_L_U_UR_R :: "array_direction list" where
  "explore_L_U_UR_R = [LEFT, UP, UP_RIGHT, RIGHT]"

definition explore_D_DL_L_U :: "array_direction list" where
  "explore_D_DL_L_U = [DOWN, DOWN_LEFT, LEFT, UP]"

definition explore_D_L_UL_U :: "array_direction list" where
  "explore_D_L_UL_U = [DOWN, LEFT, UP_LEFT, UP]"

definition explore_R_DR_D_DL_L :: "array_direction list" where
  "explore_R_DR_D_DL_L = [RIGHT, DOWN_RIGHT, DOWN, DOWN_LEFT, LEFT]"

definition explore_U_UR_R_DR_D :: "array_direction list" where
  "explore_U_UR_R_DR_D = [UP, UP_RIGHT, RIGHT, DOWN_RIGHT, DOWN]"

definition explore_L_UL_U_UR_R :: "array_direction list" where
  "explore_L_UL_U_UR_R = [LEFT, UP_LEFT, UP, UP_RIGHT, RIGHT]"

definition explore_D_DL_L_UL_U :: "array_direction list" where
  "explore_D_DL_L_UL_U = [DOWN, DOWN_LEFT, LEFT, UP_LEFT, UP]"

definition explore_AllDirections :: "array_direction list" where
  "explore_AllDirections = [DOWN, DOWN_LEFT, LEFT, UP_LEFT, UP, UP_RIGHT, RIGHT, DOWN_RIGHT]"

section \<open>The table\<close>

definition explore_entries_0 :: "array_direction list list" where
  "explore_entries_0 = [
     explore_D, explore_D_DR_R, explore_R, explore_R_UR_U, explore_U, explore_U_UL_L, explore_L, explore_L_DL_D,
     explore_Null, explore_R, explore_R, explore_R_UR_U, explore_U, explore_U_UL_L, explore_L, explore_L,
     explore_D, explore_D_R, explore_R, explore_R_UR_U, explore_R_UR_U, explore_U_UL_L, explore_L_DL_D, explore_L_DL_D,
     explore_Null, explore_R, explore_R, explore_R_UR_U, explore_R_UR_U, explore_U_UL_L, explore_L, explore_L,
     explore_D, explore_D, explore_Null, explore_U, explore_U, explore_U_UL_L, explore_L, explore_L_DL_D,
     explore_Null, explore_Null, explore_Null, explore_U, explore_U, explore_U_UL_L, explore_L, explore_L,
     explore_D, explore_D, explore_Null, explore_U, explore_U, explore_U_UL_L, explore_L_DL_D, explore_L_DL_D,
     explore_Null, explore_Null, explore_Null, explore_U, explore_U, explore_U_UL_L, explore_L, explore_L,
     explore_D_DR_R, explore_D_DR_R, explore_R, explore_R_U, explore_U, explore_U_UL_L, explore_U_UL_L, explore_L_DL_D,
     explore_R, explore_R, explore_R, explore_R_U, explore_U, explore_U_UL_L, explore_U_UL_L, explore_L,
     explore_D_R, explore_D_R, explore_R, explore_R_U, explore_R_U, explore_U_UL_L, explore_D_DL_L_UL_U, explore_L_DL_D,
     explore_R, explore_R, explore_R, explore_R_U, explore_R_U, explore_U_UL_L, explore_U_UL_L, explore_L,
     explore_D, explore_D, explore_Null, explore_U, explore_U, explore_U_UL_L, explore_U_UL_L, explore_L_DL_D,
     explore_Null, explore_Null, explore_Null, explore_U, explore_U, explore_U_UL_L, explore_U_UL_L, explore_L,
     explore_D, explore_D, explore_Null, explore_U, explore_U, explore_U_UL_L, explore_D_DL_L_UL_U, explore_L_DL_D,
     explore_Null, explore_Null, explore_Null, explore_U, explore_U, explore_U_UL_L, explore_U_UL_L, explore_L]"

definition explore_entries_1 :: "array_direction list list" where
  "explore_entries_1 = [
     explore_D, explore_D_DR_R, explore_R, explore_R, explore_Null, explore_L, explore_L, explore_L_DL_D,
     explore_Null, explore_R, explore_R, explore_R, explore_Null, explore_L, explore_L, explore_L,
     explore_D, explore_D_R, explore_R, explore_R, explore_R, explore_L, explore_L_DL_D, explore_L_DL_D,
     explore_Null, explore_R, explore_R, explore_R, explore_R, explore_L, explore_L, explore_L,
     explore_D, explore_D, explore_Null, explore_Null, explore_Null, explore_L, explore_L, explore_L_DL_D,
     explore_Null, explore_Null, explore_Null, explore_Null, explore_Null, explore_L, explore_L, explore_L,
     explore_D, explore_D, explore_Null, explore_Null, explore_Null, explore_L, explore_L_DL_D, explore_L_DL_D,
     explore_Null, explore_Null, explore_Null, explore_Null, explore_Null, explore_L, explore_L, explore_L,
     explore_D_DR_R, explore_D_DR_R, explore_R, explore_R, explore_Null, explore_L, explore_L, explore_L_DL_D,
     explore_R, explore_R, explore_R, explore_R, explore_Null, explore_L, explore_L, explore_L,
     explore_D_R, explore_D_R, explore_R, explore_R, explore_R, explore_L, explore_L_DL_D, explore_L_DL_D,
     explore_R, explore_R, explore_R, explore_R, explore_R, explore_L, explore_L, explore_L,
     explore_D, explore_D, explore_Null, explore_Null, explore_Null, explore_L, explore_L, explore_L_DL_D,
     explore_Null, explore_Null, explore_Null, explore_Null, explore_Null, explore_L, explore_L, explore_L,
     explore_D, explore_D, explore_Null, explore_Null, explore_Null, explore_L, explore_L_DL_D, explore_L_DL_D,
     explore_Null, explore_Null, explore_Null, explore_Null, explore_Null, explore_L, explore_L, explore_L]"

definition explore_entries_2 :: "array_direction list list" where
  "explore_entries_2 = [
     explore_L_DL_D, explore_D_DR_R, explore_R_UR_U, explore_R_UR_U, explore_U, explore_U_L, explore_L, explore_L_DL_D,
     explore_L, explore_R, explore_R_UR_U, explore_R_UR_U, explore_U, explore_U_L, explore_L, explore_L,
     explore_L_DL_D, explore_D_R, explore_R_UR_U, explore_R_UR_U, explore_R_UR_U, explore_U_L, explore_L_DL_D, explore_L_DL_D,
     explore_L, explore_R, explore_R_UR_U, explore_R_UR_U, explore_R_UR_U, explore_U_L, explore_L, explore_L,
     explore_L_DL_D, explore_D, explore_U, explore_U, explore_U, explore_U_L, explore_L, explore_L_DL_D,
     explore_L, explore_Null, explore_U, explore_U, explore_U, explore_U_L, explore_L, explore_L,
     explore_L_DL_D, explore_D, explore_U, explore_U, explore_U, explore_U_L, explore_L_DL_D, explore_L_DL_D,
     explore_L, explore_Null, explore_U, explore_U, explore_U, explore_U_L, explore_L, explore_L,
     explore_R_DR_D_DL_L, explore_D_DR_R, explore_R_U, explore_R_U, explore_U, explore_U_L, explore_U_L, explore_L_DL_D,
     explore_R_L, explore_R, explore_R_U, explore_R_U, explore_U, explore_U_L, explore_U_L, explore_L,
     explore_R_D_DL_L, explore_D_R, explore_R_U, explore_R_U, explore_R_U, explore_U_L, explore_D_DL_L_U, explore_L_DL_D,
     explore_R_L, explore_R, explore_R_U, explore_R_U, explore_R_U, explore_U_L, explore_U_L, explore_L,
     explore_L_DL_D, explore_D, explore_U, explore_U, explore_U, explore_U_L, explore_U_L, explore_L_DL_D,
     explore_L, explore_Null, explore_U, explore_U, explore_U, explore_U_L, explore_U_L, explore_L,
     explore_L_DL_D, explore_D, explore_U, explore_U, explore_U, explore_U_L, explore_D_DL_L_U, explore_L_DL_D,
     explore_L, explore_Null, explore_U, explore_U, explore_U, explore_U_L, explore_U_L, explore_L]"

definition explore_entries_3 :: "array_direction list list" where
  "explore_entries_3 = [
     explore_L_DL_D, explore_D_DR_R, explore_R, explore_R, explore_Null, explore_L, explore_L, explore_L_DL_D,
     explore_L, explore_R, explore_R, explore_R, explore_Null, explore_L, explore_L, explore_L,
     explore_L_DL_D, explore_D_R, explore_R, explore_R, explore_R, explore_L, explore_L_DL_D, explore_L_DL_D,
     explore_L, explore_R, explore_R, explore_R, explore_R, explore_L, explore_L, explore_L,
     explore_L_DL_D, explore_D, explore_Null, explore_Null, explore_Null, explore_L, explore_L, explore_L_DL_D,
     explore_L, explore_Null, explore_Null, explore_Null, explore_Null, explore_L, explore_L, explore_L,
     explore_L_DL_D, explore_D, explore_Null, explore_Null, explore_Null, explore_L, explore_L_DL_D, explore_L_DL_D,
     explore_L, explore_Null, explore_Null, explore_Null, explore_Null, explore_L, explore_L, explore_L,
     explore_R_DR_D_DL_L, explore_D_DR_R, explore_R, explore_R, explore_Null, explore_L, explore_L, explore_L_DL_D,
     explore_R_L, explore_R, explore_R, explore_R, explore_Null, explore_L, explore_L, explore_L,
     explore_R_D_DL_L, explore_D_R, explore_R, explore_R, explore_R, explore_L, explore_L_DL_D, explore_L_DL_D,
     explore_R_L, explore_R, explore_R, explore_R, explore_R, explore_L, explore_L, explore_L,
     explore_L_DL_D, explore_D, explore_Null, explore_Null, explore_Null, explore_L, explore_L, explore_L_DL_D,
     explore_L, explore_Null, explore_Null, explore_Null, explore_Null, explore_L, explore_L, explore_L,
     explore_L_DL_D, explore_D, explore_Null, explore_Null, explore_Null, explore_L, explore_L_DL_D, explore_L_DL_D,
     explore_L, explore_Null, explore_Null, explore_Null, explore_Null, explore_L, explore_L, explore_L]"

definition explore_entries_4 :: "array_direction list list" where
  "explore_entries_4 = [
     explore_D, explore_D_DR_R, explore_R, explore_R_UR_U, explore_U, explore_U, explore_Null, explore_D,
     explore_Null, explore_R, explore_R, explore_R_UR_U, explore_U, explore_U, explore_Null, explore_Null,
     explore_D, explore_D_R, explore_R, explore_R_UR_U, explore_R_UR_U, explore_U, explore_D, explore_D,
     explore_Null, explore_R, explore_R, explore_R_UR_U, explore_R_UR_U, explore_U, explore_Null, explore_Null,
     explore_D, explore_D, explore_Null, explore_U, explore_U, explore_U, explore_Null, explore_D,
     explore_Null, explore_Null, explore_Null, explore_U, explore_U, explore_U, explore_Null, explore_Null,
     explore_D, explore_D, explore_Null, explore_U, explore_U, explore_U, explore_D, explore_D,
     explore_Null, explore_Null, explore_Null, explore_U, explore_U, explore_U, explore_Null, explore_Null,
     explore_D_DR_R, explore_D_DR_R, explore_R, explore_R_U, explore_U, explore_U, explore_U, explore_D,
     explore_R, explore_R, explore_R, explore_R_U, explore_U, explore_U, explore_U, explore_Null,
     explore_D_R, explore_D_R, explore_R, explore_R_U, explore_R_U, explore_U, explore_D_U, explore_D,
     explore_R, explore_R, explore_R, explore_R_U, explore_R_U, explore_U, explore_U, explore_Null,
     explore_D, explore_D, explore_Null, explore_U, explore_U, explore_U, explore_U, explore_D,
     explore_Null, explore_Null, explore_Null, explore_U, explore_U, explore_U, explore_U, explore_Null,
     explore_D, explore_D, explore_Null, explore_U, explore_U, explore_U, explore_D_U, explore_D,
     explore_Null, explore_Null, explore_Null, explore_U, explore_U, explore_U, explore_U, explore_Null]"

definition explore_entries_5 :: "array_direction list list" where
  "explore_entries_5 = [
     explore_D, explore_D_DR_R, explore_R, explore_R, explore_Null, explore_Null, explore_Null, explore_D,
     explore_Null, explore_R, explore_R, explore_R, explore_Null, explore_Null, explore_Null, explore_Null,
     explore_D, explore_D_R, explore_R, explore_R, explore_R, explore_Null, explore_D, explore_D,
     explore_Null, explore_R, explore_R, explore_R, explore_R, explore_Null, explore_Null, explore_Null,
     explore_D, explore_D, explore_Null, explore_Null, explore_Null, explore_Null, explore_Null, explore_D,
     explore_Null, explore_Null, explore_Null, explore_Null, explore_Null, explore_Null, explore_Null, explore_Null,
     explore_D, explore_D, explore_Null, explore_Null, explore_Null, explore_Null, explore_D, explore_D,
     explore_Null, explore_Null, explore_Null, explore_Null, explore_Null, explore_Null, explore_Null, explore_Null,
     explore_D_DR_R, explore_D_DR_R, explore_R, explore_R, explore_Null, explore_Null, explore_Null, explore_D,
     explore_R, explore_R, explore_R, explore_R, explore_Null, explore_Null, explore_Null, explore_Null,
     explore_D_R, explore_D_R, explore_R, explore_R, explore_R, explore_Null, explore_D, explore_D,
     explore_R, explore_R, explore_R, explore_R, explore_R, explore_Null, explore_Null, explore_Null,
     explore_D, explore_D, explore_Null, explore_Null, explore_Null, explore_Null, explore_Null, explore_D,
     explore_Null, explore_Null, explore_Null, explore_Null, explore_Null, explore_Null, explore_Null, explore_Null,
     explore_D, explore_D, explore_Null, explore_Null, explore_Null, explore_Null, explore_D, explore_D,
     explore_Null, explore_Null, explore_Null, explore_Null, explore_Null, explore_Null, explore_Null, explore_Null]"

definition explore_entries_6 :: "array_direction list list" where
  "explore_entries_6 = [
     explore_D, explore_D_DR_R, explore_R_UR_U, explore_R_UR_U, explore_U, explore_U, explore_Null, explore_D,
     explore_Null, explore_R, explore_R_UR_U, explore_R_UR_U, explore_U, explore_U, explore_Null, explore_Null,
     explore_D, explore_D_R, explore_R_UR_U, explore_R_UR_U, explore_R_UR_U, explore_U, explore_D, explore_D,
     explore_Null, explore_R, explore_R_UR_U, explore_R_UR_U, explore_R_UR_U, explore_U, explore_Null, explore_Null,
     explore_D, explore_D, explore_U, explore_U, explore_U, explore_U, explore_Null, explore_D,
     explore_Null, explore_Null, explore_U, explore_U, explore_U, explore_U, explore_Null, explore_Null,
     explore_D, explore_D, explore_U, explore_U, explore_U, explore_U, explore_D, explore_D,
     explore_Null, explore_Null, explore_U, explore_U, explore_U, explore_U, explore_Null, explore_Null,
     explore_D_DR_R, explore_D_DR_R, explore_R_U, explore_R_U, explore_U, explore_U, explore_U, explore_D,
     explore_R, explore_R, explore_R_U, explore_R_U, explore_U, explore_U, explore_U, explore_Null,
     explore_D_R, explore_D_R, explore_R_U, explore_R_U, explore_R_U, explore_U, explore_D_U, explore_D,
     explore_R, explore_R, explore_R_U, explore_R_U, explore_R_U, explore_U, explore_U, explore_Null,
     explore_D, explore_D, explore_U, explore_U, explore_U, explore_U, explore_U, explore_D,
     explore_Null, explore_Null, explore_U, explore_U, explore_U, explore_U, explore_U, explore_Null,
     explore_D, explore_D, explore_U, explore_U, explore_U, explore_U, explore_D_U, explore_D,
     explore_Null, explore_Null, explore_U, explore_U, explore_U, explore_U, explore_U, explore_Null]"

definition explore_entries_7 :: "array_direction list list" where
  "explore_entries_7 = [
     explore_D, explore_D_DR_R, explore_R, explore_R, explore_Null, explore_Null, explore_Null, explore_D,
     explore_Null, explore_R, explore_R, explore_R, explore_Null, explore_Null, explore_Null, explore_Null,
     explore_D, explore_D_R, explore_R, explore_R, explore_R, explore_Null, explore_D, explore_D,
     explore_Null, explore_R, explore_R, explore_R, explore_R, explore_Null, explore_Null, explore_Null,
     explore_D, explore_D, explore_Null, explore_Null, explore_Null, explore_Null, explore_Null, explore_D,
     explore_Null, explore_Null, explore_Null, explore_Null, explore_Null, explore_Null, explore_Null, explore_Null,
     explore_D, explore_D, explore_Null, explore_Null, explore_Null, explore_Null, explore_D, explore_D,
     explore_Null, explore_Null, explore_Null, explore_Null, explore_Null, explore_Null, explore_Null, explore_Null,
     explore_D_DR_R, explore_D_DR_R, explore_R, explore_R, explore_Null, explore_Null, explore_Null, explore_D,
     explore_R, explore_R, explore_R, explore_R, explore_Null, explore_Null, explore_Null, explore_Null,
     explore_D_R, explore_D_R, explore_R, explore_R, explore_R, explore_Null, explore_D, explore_D,
     explore_R, explore_R, explore_R, explore_R, explore_R, explore_Null, explore_Null, explore_Null,
     explore_D, explore_D, explore_Null, explore_Null, explore_Null, explore_Null, explore_Null, explore_D,
     explore_Null, explore_Null, explore_Null, explore_Null, explore_Null, explore_Null, explore_Null, explore_Null,
     explore_D, explore_D, explore_Null, explore_Null, explore_Null, explore_Null, explore_D, explore_D,
     explore_Null, explore_Null, explore_Null, explore_Null, explore_Null, explore_Null, explore_Null, explore_Null]"

definition explore_entries_8 :: "array_direction list list" where
  "explore_entries_8 = [
     explore_D, explore_D_DR_R, explore_D_DR_R, explore_R_UR_U, explore_U_UL_L, explore_U_UL_L, explore_L, explore_L_D,
     explore_Null, explore_R, explore_R, explore_R_UR_U, explore_U_UL_L, explore_U_UL_L, explore_L, explore_L,
     explore_D, explore_D_R, explore_D_R, explore_R_UR_U, explore_L_UL_U_UR_R, explore_U_UL_L, explore_L_D, explore_L_D,
     explore_Null, explore_R, explore_R, explore_R_UR_U, explore_L_UL_U_UR_R, explore_U_UL_L, explore_L, explore_L,
     explore_D, explore_D, explore_D, explore_U, explore_U_UL_L, explore_U_UL_L, explore_L, explore_L_D,
     explore_Null, explore_Null, explore_Null, explore_U, explore_U_UL_L, explore_U_UL_L, explore_L, explore_L,
     explore_D, explore_D, explore_D, explore_U, explore_U_UL_L, explore_U_UL_L, explore_L_D, explore_L_D,
     explore_Null, explore_Null, explore_Null, explore_U, explore_U_UL_L, explore_U_UL_L, explore_L, explore_L,
     explore_D_DR_R, explore_D_DR_R, explore_D_DR_R, explore_R_U, explore_U_UL_L, explore_U_UL_L, explore_U_UL_L, explore_L_D,
     explore_R, explore_R, explore_R, explore_R_U, explore_U_UL_L, explore_U_UL_L, explore_U_UL_L, explore_L,
     explore_D_R, explore_D_R, explore_D_R, explore_R_U, explore_L_UL_U_R, explore_U_UL_L, explore_D_L_UL_U, explore_L_D,
     explore_R, explore_R, explore_R, explore_R_U, explore_L_UL_U_R, explore_U_UL_L, explore_U_UL_L, explore_L,
     explore_D, explore_D, explore_D, explore_U, explore_U_UL_L, explore_U_UL_L, explore_U_UL_L, explore_L_D,
     explore_Null, explore_Null, explore_Null, explore_U, explore_U_UL_L, explore_U_UL_L, explore_U_UL_L, explore_L,
     explore_D, explore_D, explore_D, explore_U, explore_U_UL_L, explore_U_UL_L, explore_D_L_UL_U, explore_L_D,
     explore_Null, explore_Null, explore_Null, explore_U, explore_U_UL_L, explore_U_UL_L, explore_U_UL_L, explore_L]"

definition explore_entries_9 :: "array_direction list list" where
  "explore_entries_9 = [
     explore_D, explore_D_DR_R, explore_D_DR_R, explore_R, explore_L, explore_L, explore_L, explore_L_D,
     explore_Null, explore_R, explore_R, explore_R, explore_L, explore_L, explore_L, explore_L,
     explore_D, explore_D_R, explore_D_R, explore_R, explore_R_L, explore_L, explore_L_D, explore_L_D,
     explore_Null, explore_R, explore_R, explore_R, explore_R_L, explore_L, explore_L, explore_L,
     explore_D, explore_D, explore_D, explore_Null, explore_L, explore_L, explore_L, explore_L_D,
     explore_Null, explore_Null, explore_Null, explore_Null, explore_L, explore_L, explore_L, explore_L,
     explore_D, explore_D, explore_D, explore_Null, explore_L, explore_L, explore_L_D, explore_L_D,
     explore_Null, explore_Null, explore_Null, explore_Null, explore_L, explore_L, explore_L, explore_L,
     explore_D_DR_R, explore_D_DR_R, explore_D_DR_R, explore_R, explore_L, explore_L, explore_L, explore_L_D,
     explore_R, explore_R, explore_R, explore_R, explore_L, explore_L, explore_L, explore_L,
     explore_D_R, explore_D_R, explore_D_R, explore_R, explore_R_L, explore_L, explore_L_D, explore_L_D,
     explore_R, explore_R, explore_R, explore_R, explore_R_L, explore_L, explore_L, explore_L,
     explore_D, explore_D, explore_D, explore_Null, explore_L, explore_L, explore_L, explore_L_D,
     explore_Null, explore_Null, explore_Null, explore_Null, explore_L, explore_L, explore_L, explore_L,
     explore_D, explore_D, explore_D, explore_Null, explore_L, explore_L, explore_L_D, explore_L_D,
     explore_Null, explore_Null, explore_Null, explore_Null, explore_L, explore_L, explore_L, explore_L]"

definition explore_entries_10 :: "array_direction list list" where
  "explore_entries_10 = [
     explore_L_D, explore_D_DR_R, explore_U_UR_R_DR_D, explore_R_UR_U, explore_U_L, explore_U_L, explore_L, explore_L_D,
     explore_L, explore_R, explore_R_UR_U, explore_R_UR_U, explore_U_L, explore_U_L, explore_L, explore_L,
     explore_L_D, explore_D_R, explore_U_UR_R_D, explore_R_UR_U, explore_L_U_UR_R, explore_U_L, explore_L_D, explore_L_D,
     explore_L, explore_R, explore_R_UR_U, explore_R_UR_U, explore_L_U_UR_R, explore_U_L, explore_L, explore_L,
     explore_L_D, explore_D, explore_D_U, explore_U, explore_U_L, explore_U_L, explore_L, explore_L_D,
     explore_L, explore_Null, explore_U, explore_U, explore_U_L, explore_U_L, explore_L, explore_L,
     explore_L_D, explore_D, explore_D_U, explore_U, explore_U_L, explore_U_L, explore_L_D, explore_L_D,
     explore_L, explore_Null, explore_U, explore_U, explore_U_L, explore_U_L, explore_L, explore_L,
     explore_R_DR_D_L, explore_D_DR_R, explore_U_R_DR_D, explore_R_U, explore_U_L, explore_U_L, explore_U_L, explore_L_D,
     explore_R_L, explore_R, explore_R_U, explore_R_U, explore_U_L, explore_U_L, explore_U_L, explore_L,
     explore_L_D_R, explore_D_R, explore_D_R_U, explore_R_U, explore_R_U_L, explore_U_L, explore_U_L_D, explore_L_D,
     explore_R_L, explore_R, explore_R_U, explore_R_U, explore_R_U_L, explore_U_L, explore_U_L, explore_L,
     explore_L_D, explore_D, explore_D_U, explore_U, explore_U_L, explore_U_L, explore_U_L, explore_L_D,
     explore_L, explore_Null, explore_U, explore_U, explore_U_L, explore_U_L, explore_U_L, explore_L,
     explore_L_D, explore_D, explore_D_U, explore_U, explore_U_L, explore_U_L, explore_U_L_D, explore_L_D,
     explore_L, explore_Null, explore_U, explore_U, explore_U_L, explore_U_L, explore_U_L, explore_L]"

definition explore_entries_11 :: "array_direction list list" where
  "explore_entries_11 = [
     explore_L_D, explore_D_DR_R, explore_D_DR_R, explore_R, explore_L, explore_L, explore_L, explore_L_D,
     explore_L, explore_R, explore_R, explore_R, explore_L, explore_L, explore_L, explore_L,
     explore_L_D, explore_D_R, explore_D_R, explore_R, explore_R_L, explore_L, explore_L_D, explore_L_D,
     explore_L, explore_R, explore_R, explore_R, explore_R_L, explore_L, explore_L, explore_L,
     explore_L_D, explore_D, explore_D, explore_Null, explore_L, explore_L, explore_L, explore_L_D,
     explore_L, explore_Null, explore_Null, explore_Null, explore_L, explore_L, explore_L, explore_L,
     explore_L_D, explore_D, explore_D, explore_Null, explore_L, explore_L, explore_L_D, explore_L_D,
     explore_L, explore_Null, explore_Null, explore_Null, explore_L, explore_L, explore_L, explore_L,
     explore_R_DR_D_L, explore_D_DR_R, explore_D_DR_R, explore_R, explore_L, explore_L, explore_L, explore_L_D,
     explore_R_L, explore_R, explore_R, explore_R, explore_L, explore_L, explore_L, explore_L,
     explore_L_D_R, explore_D_R, explore_D_R, explore_R, explore_R_L, explore_L, explore_L_D, explore_L_D,
     explore_R_L, explore_R, explore_R, explore_R, explore_R_L, explore_L, explore_L, explore_L,
     explore_L_D, explore_D, explore_D, explore_Null, explore_L, explore_L, explore_L, explore_L_D,
     explore_L, explore_Null, explore_Null, explore_Null, explore_L, explore_L, explore_L, explore_L,
     explore_L_D, explore_D, explore_D, explore_Null, explore_L, explore_L, explore_L_D, explore_L_D,
     explore_L, explore_Null, explore_Null, explore_Null, explore_L, explore_L, explore_L, explore_L]"

definition explore_entries_12 :: "array_direction list list" where
  "explore_entries_12 = [
     explore_D, explore_D_DR_R, explore_D_DR_R, explore_R_UR_U, explore_U, explore_U, explore_Null, explore_D,
     explore_Null, explore_R, explore_R, explore_R_UR_U, explore_U, explore_U, explore_Null, explore_Null,
     explore_D, explore_D_R, explore_D_R, explore_R_UR_U, explore_R_UR_U, explore_U, explore_D, explore_D,
     explore_Null, explore_R, explore_R, explore_R_UR_U, explore_R_UR_U, explore_U, explore_Null, explore_Null,
     explore_D, explore_D, explore_D, explore_U, explore_U, explore_U, explore_Null, explore_D,
     explore_Null, explore_Null, explore_Null, explore_U, explore_U, explore_U, explore_Null, explore_Null,
     explore_D, explore_D, explore_D, explore_U, explore_U, explore_U, explore_D, explore_D,
     explore_Null, explore_Null, explore_Null, explore_U, explore_U, explore_U, explore_Null, explore_Null,
     explore_D_DR_R, explore_D_DR_R, explore_D_DR_R, explore_R_U, explore_U, explore_U, explore_U, explore_D,
     explore_R, explore_R, explore_R, explore_R_U, explore_U, explore_U, explore_U, explore_Null,
     explore_D_R, explore_D_R, explore_D_R, explore_R_U, explore_R_U, explore_U, explore_D_U, explore_D,
     explore_R, explore_R, explore_R, explore_R_U, explore_R_U, explore_U, explore_U, explore_Null,
     explore_D, explore_D, explore_D, explore_U, explore_U, explore_U, explore_U, explore_D,
     explore_Null, explore_Null, explore_Null, explore_U, explore_U, explore_U, explore_U, explore_Null,
     explore_D, explore_D, explore_D, explore_U, explore_U, explore_U, explore_D_U, explore_D,
     explore_Null, explore_Null, explore_Null, explore_U, explore_U, explore_U, explore_U, explore_Null]"

definition explore_entries_13 :: "array_direction list list" where
  "explore_entries_13 = [
     explore_D, explore_D_DR_R, explore_D_DR_R, explore_R, explore_Null, explore_Null, explore_Null, explore_D,
     explore_Null, explore_R, explore_R, explore_R, explore_Null, explore_Null, explore_Null, explore_Null,
     explore_D, explore_D_R, explore_D_R, explore_R, explore_R, explore_Null, explore_D, explore_D,
     explore_Null, explore_R, explore_R, explore_R, explore_R, explore_Null, explore_Null, explore_Null,
     explore_D, explore_D, explore_D, explore_Null, explore_Null, explore_Null, explore_Null, explore_D,
     explore_Null, explore_Null, explore_Null, explore_Null, explore_Null, explore_Null, explore_Null, explore_Null,
     explore_D, explore_D, explore_D, explore_Null, explore_Null, explore_Null, explore_D, explore_D,
     explore_Null, explore_Null, explore_Null, explore_Null, explore_Null, explore_Null, explore_Null, explore_Null,
     explore_D_DR_R, explore_D_DR_R, explore_D_DR_R, explore_R, explore_Null, explore_Null, explore_Null, explore_D,
     explore_R, explore_R, explore_R, explore_R, explore_Null, explore_Null, explore_Null, explore_Null,
     explore_D_R, explore_D_R, explore_D_R, explore_R, explore_R, explore_Null, explore_D, explore_D,
     explore_R, explore_R, explore_R, explore_R, explore_R, explore_Null, explore_Null, explore_Null,
     explore_D, explore_D, explore_D, explore_Null, explore_Null, explore_Null, explore_Null, explore_D,
     explore_Null, explore_Null, explore_Null, explore_Null, explore_Null, explore_Null, explore_Null, explore_Null,
     explore_D, explore_D, explore_D, explore_Null, explore_Null, explore_Null, explore_D, explore_D,
     explore_Null, explore_Null, explore_Null, explore_Null, explore_Null, explore_Null, explore_Null, explore_Null]"

definition explore_entries_14 :: "array_direction list list" where
  "explore_entries_14 = [
     explore_D, explore_D_DR_R, explore_U_UR_R_DR_D, explore_R_UR_U, explore_U, explore_U, explore_Null, explore_D,
     explore_Null, explore_R, explore_R_UR_U, explore_R_UR_U, explore_U, explore_U, explore_Null, explore_Null,
     explore_D, explore_D_R, explore_U_UR_R_D, explore_R_UR_U, explore_R_UR_U, explore_U, explore_D, explore_D,
     explore_Null, explore_R, explore_R_UR_U, explore_R_UR_U, explore_R_UR_U, explore_U, explore_Null, explore_Null,
     explore_D, explore_D, explore_D_U, explore_U, explore_U, explore_U, explore_Null, explore_D,
     explore_Null, explore_Null, explore_U, explore_U, explore_U, explore_U, explore_Null, explore_Null,
     explore_D, explore_D, explore_D_U, explore_U, explore_U, explore_U, explore_D, explore_D,
     explore_Null, explore_Null, explore_U, explore_U, explore_U, explore_U, explore_Null, explore_Null,
     explore_D_DR_R, explore_D_DR_R, explore_U_R_DR_D, explore_R_U, explore_U, explore_U, explore_U, explore_D,
     explore_R, explore_R, explore_R_U, explore_R_U, explore_U, explore_U, explore_U, explore_Null,
     explore_D_R, explore_D_R, explore_D_R_U, explore_R_U, explore_R_U, explore_U, explore_D_U, explore_D,
     explore_R, explore_R, explore_R_U, explore_R_U, explore_R_U, explore_U, explore_U, explore_Null,
     explore_D, explore_D, explore_D_U, explore_U, explore_U, explore_U, explore_U, explore_D,
     explore_Null, explore_Null, explore_U, explore_U, explore_U, explore_U, explore_U, explore_Null,
     explore_D, explore_D, explore_D_U, explore_U, explore_U, explore_U, explore_D_U, explore_D,
     explore_Null, explore_Null, explore_U, explore_U, explore_U, explore_U, explore_U, explore_Null]"

definition explore_entries_15 :: "array_direction list list" where
  "explore_entries_15 = [
     explore_D, explore_D_DR_R, explore_D_DR_R, explore_R, explore_Null, explore_Null, explore_Null, explore_D,
     explore_Null, explore_R, explore_R, explore_R, explore_Null, explore_Null, explore_Null, explore_Null,
     explore_D, explore_D_R, explore_D_R, explore_R, explore_R, explore_Null, explore_D, explore_D,
     explore_Null, explore_R, explore_R, explore_R, explore_R, explore_Null, explore_Null, explore_Null,
     explore_D, explore_D, explore_D, explore_Null, explore_Null, explore_Null, explore_Null, explore_D,
     explore_Null, explore_Null, explore_Null, explore_Null, explore_Null, explore_Null, explore_Null, explore_Null,
     explore_D, explore_D, explore_D, explore_Null, explore_Null, explore_Null, explore_D, explore_D,
     explore_Null, explore_Null, explore_Null, explore_Null, explore_Null, explore_Null, explore_Null, explore_Null,
     explore_D_DR_R, explore_D_DR_R, explore_D_DR_R, explore_R, explore_Null, explore_Null, explore_Null, explore_D,
     explore_R, explore_R, explore_R, explore_R, explore_Null, explore_Null, explore_Null, explore_Null,
     explore_D_R, explore_D_R, explore_D_R, explore_R, explore_R, explore_Null, explore_D, explore_D,
     explore_R, explore_R, explore_R, explore_R, explore_R, explore_Null, explore_Null, explore_Null,
     explore_D, explore_D, explore_D, explore_Null, explore_Null, explore_Null, explore_Null, explore_D,
     explore_Null, explore_Null, explore_Null, explore_Null, explore_Null, explore_Null, explore_Null, explore_Null,
     explore_D, explore_D, explore_D, explore_Null, explore_Null, explore_Null, explore_D, explore_D,
     explore_Null, explore_Null, explore_Null, explore_Null, explore_Null, explore_Null, explore_Null, explore_Null]"

definition exploreDirections :: "array_direction list list" where
  "exploreDirections =
     explore_entries_0 @ explore_entries_1 @ explore_entries_2 @ explore_entries_3 @
     explore_entries_4 @ explore_entries_5 @ explore_entries_6 @ explore_entries_7 @
     explore_entries_8 @ explore_entries_9 @ explore_entries_10 @ explore_entries_11 @ explore_entries_12 @ explore_entries_13 @ explore_entries_14 @ explore_entries_15"

lemmas explore_defs =
  explore_Null_def
  explore_D_def
  explore_DR_def
  explore_R_def
  explore_UR_def
  explore_U_def
  explore_UL_def
  explore_L_def
  explore_DL_def
  explore_D_DR_def
  explore_DR_R_def
  explore_R_UR_def
  explore_UR_U_def
  explore_U_UL_def
  explore_UL_L_def
  explore_L_DL_def
  explore_DL_D_def
  explore_D_R_def
  explore_R_U_def
  explore_U_L_def
  explore_L_D_def
  explore_D_U_def
  explore_R_L_def
  explore_D_DR_R_def
  explore_DR_R_UR_def
  explore_R_UR_U_def
  explore_UR_U_UL_def
  explore_U_UL_L_def
  explore_UL_L_DL_def
  explore_L_DL_D_def
  explore_DL_D_DR_def
  explore_D_R_U_def
  explore_R_U_L_def
  explore_U_L_D_def
  explore_L_D_R_def
  explore_R_DR_D_L_def
  explore_R_D_DL_L_def
  explore_U_UR_R_D_def
  explore_U_R_DR_D_def
  explore_L_UL_U_R_def
  explore_L_U_UR_R_def
  explore_D_DL_L_U_def
  explore_D_L_UL_U_def
  explore_R_DR_D_DL_L_def
  explore_U_UR_R_DR_D_def
  explore_L_UL_U_UR_R_def
  explore_D_DL_L_UL_U_def
  explore_AllDirections_def

section \<open>The pruning rule\<close>

fun next_dir :: "array_direction \<Rightarrow> array_direction" where
  "next_dir DOWN = DOWN_RIGHT" | "next_dir DOWN_RIGHT = RIGHT" | "next_dir RIGHT = UP_RIGHT"
| "next_dir UP_RIGHT = UP" | "next_dir UP = UP_LEFT" | "next_dir UP_LEFT = LEFT"
| "next_dir LEFT = DOWN_LEFT" | "next_dir DOWN_LEFT = DOWN"

fun prev_dir :: "array_direction \<Rightarrow> array_direction" where
  "prev_dir DOWN_RIGHT = DOWN" | "prev_dir RIGHT = DOWN_RIGHT" | "prev_dir UP_RIGHT = RIGHT"
| "prev_dir UP = UP_RIGHT" | "prev_dir UP_LEFT = UP" | "prev_dir LEFT = UP_LEFT"
| "prev_dir DOWN_LEFT = LEFT" | "prev_dir DOWN = DOWN_LEFT"

fun blocked :: "bool list \<Rightarrow> array_direction \<Rightarrow> bool" where
  "blocked [a, b, c, d, e, f, g, h] DOWN = a"
| "blocked [a, b, c, d, e, f, g, h] DOWN_RIGHT = b"
| "blocked [a, b, c, d, e, f, g, h] RIGHT = c"
| "blocked [a, b, c, d, e, f, g, h] UP_RIGHT = d"
| "blocked [a, b, c, d, e, f, g, h] UP = e"
| "blocked [a, b, c, d, e, f, g, h] UP_LEFT = f"
| "blocked [a, b, c, d, e, f, g, h] LEFT = g"
| "blocked [a, b, c, d, e, f, g, h] DOWN_LEFT = h"
| "blocked _ _ = True"

fun is_diagonal :: "array_direction \<Rightarrow> bool" where
  "is_diagonal DOWN = False" | "is_diagonal RIGHT = False" | "is_diagonal UP = False" | "is_diagonal LEFT = False"
| "is_diagonal _ = True"

definition forced :: "bool list \<Rightarrow> (array_direction \<Rightarrow> array_direction) \<Rightarrow> array_direction \<Rightarrow> array_direction list" where
  \<comment> \<open>on one side of a straight move: an obstacle behind forces the turn, and the diagonal if it is open\<close>
  "forced bs turn d =
     (if blocked bs (turn (turn (turn d))) \<and> \<not> blocked bs (turn (turn d))
      then turn (turn d) # (if \<not> blocked bs (turn d) \<and> \<not> blocked bs d then [turn d] else [])
      else [])"

definition prune :: "bool list \<Rightarrow> array_direction \<Rightarrow> array_direction list" where
  "prune bs d =
     (if is_diagonal d
      then (if \<not> blocked bs (next_dir d) then [next_dir d] else [])
         @ (if \<not> blocked bs (prev_dir d) then [prev_dir d] else [])
         @ (if \<not> blocked bs d \<and> \<not> blocked bs (next_dir d) \<and> \<not> blocked bs (prev_dir d) then [d] else [])
      else (if \<not> blocked bs d then [d] else []) @ forced bs next_dir d @ forced bs prev_dir d)"

fun vectors :: "nat \<Rightarrow> bool list list" where
  "vectors 0 = [[]]"
| "vectors (Suc n) = map (\<lambda>v. v @ [False]) (vectors n) @ map (\<lambda>v. v @ [True]) (vectors n)"

definition same_directions :: "array_direction list \<Rightarrow> array_direction list \<Rightarrow> bool" where
  "same_directions xs ys \<longleftrightarrow> list_all (\<lambda>x. x \<in> set ys) xs \<and> list_all (\<lambda>y. y \<in> set xs) ys"

definition pruned :: "bool list list \<Rightarrow> array_direction list list" where
  "pruned vs = concat (map (\<lambda>v. map (prune v) all_directions) vs)"

lemma explore_entries_0_pruned:
  "list_all2 same_directions explore_entries_0 (pruned (map (\<lambda>v. v @ [False, False, False, False]) (vectors 4)))"
  by code_simp

lemma explore_entries_1_pruned:
  "list_all2 same_directions explore_entries_1 (pruned (map (\<lambda>v. v @ [True, False, False, False]) (vectors 4)))"
  by code_simp

lemma explore_entries_2_pruned:
  "list_all2 same_directions explore_entries_2 (pruned (map (\<lambda>v. v @ [False, True, False, False]) (vectors 4)))"
  by code_simp

lemma explore_entries_3_pruned:
  "list_all2 same_directions explore_entries_3 (pruned (map (\<lambda>v. v @ [True, True, False, False]) (vectors 4)))"
  by code_simp

lemma explore_entries_4_pruned:
  "list_all2 same_directions explore_entries_4 (pruned (map (\<lambda>v. v @ [False, False, True, False]) (vectors 4)))"
  by code_simp

lemma explore_entries_5_pruned:
  "list_all2 same_directions explore_entries_5 (pruned (map (\<lambda>v. v @ [True, False, True, False]) (vectors 4)))"
  by code_simp

lemma explore_entries_6_pruned:
  "list_all2 same_directions explore_entries_6 (pruned (map (\<lambda>v. v @ [False, True, True, False]) (vectors 4)))"
  by code_simp

lemma explore_entries_7_pruned:
  "list_all2 same_directions explore_entries_7 (pruned (map (\<lambda>v. v @ [True, True, True, False]) (vectors 4)))"
  by code_simp

lemma explore_entries_8_pruned:
  "list_all2 same_directions explore_entries_8 (pruned (map (\<lambda>v. v @ [False, False, False, True]) (vectors 4)))"
  by code_simp

lemma explore_entries_9_pruned:
  "list_all2 same_directions explore_entries_9 (pruned (map (\<lambda>v. v @ [True, False, False, True]) (vectors 4)))"
  by code_simp

lemma explore_entries_10_pruned:
  "list_all2 same_directions explore_entries_10 (pruned (map (\<lambda>v. v @ [False, True, False, True]) (vectors 4)))"
  by code_simp

lemma explore_entries_11_pruned:
  "list_all2 same_directions explore_entries_11 (pruned (map (\<lambda>v. v @ [True, True, False, True]) (vectors 4)))"
  by code_simp

lemma explore_entries_12_pruned:
  "list_all2 same_directions explore_entries_12 (pruned (map (\<lambda>v. v @ [False, False, True, True]) (vectors 4)))"
  by code_simp

lemma explore_entries_13_pruned:
  "list_all2 same_directions explore_entries_13 (pruned (map (\<lambda>v. v @ [True, False, True, True]) (vectors 4)))"
  by code_simp

lemma explore_entries_14_pruned:
  "list_all2 same_directions explore_entries_14 (pruned (map (\<lambda>v. v @ [False, True, True, True]) (vectors 4)))"
  by code_simp

lemma explore_entries_15_pruned:
  "list_all2 same_directions explore_entries_15 (pruned (map (\<lambda>v. v @ [True, True, True, True]) (vectors 4)))"
  by code_simp

section \<open>The entries by index\<close>

lemma length_vectors: "length (vectors n) = 2 ^ n"
  by (induction n) simp_all

lemma nth_vectors: "m < 2 ^ n \<Longrightarrow> vectors n ! m = map (bit m) [0..<n]"
proof (induction n arbitrary: m)
  case (Suc n)
  show ?case
  proof (cases "m < 2 ^ n")
    case True
    then have "\<not> bit m n" by (simp add: bit_nat_def)
    then show ?thesis using Suc.IH [OF True] True by (simp add: nth_append length_vectors)
  next
    case False
    then obtain k where k: "m = k + 2 ^ n" "k < 2 ^ n" using Suc.prems by (metis add.commute le_Suc_ex less_diff_conv2 linorder_not_less mult_2 power_Suc add_diff_cancel_right')
    have "bit m n" using k by (simp add: bit_nat_def div_add_self2)
    moreover have "bit m i = bit k i" if "i < n" for i
    proof -
      have "m = k + 2 ^ (n - i) * 2 ^ i" using k(1) that by (simp flip: power_add)
      then have "m div 2 ^ i = 2 ^ (n - i) + k div 2 ^ i" by simp
      moreover have "even (2 ^ (n - i) :: nat)" using that by simp
      ultimately show ?thesis by (simp add: bit_nat_def)
    qed
    ultimately show ?thesis
      using Suc.IH [OF k(2)] k by (simp add: nth_append length_vectors)
  qed
qed simp

lemma nth_pruned:
  "i < length vs \<Longrightarrow> j < 8 \<Longrightarrow> pruned vs ! (i * 8 + j) = prune (vs ! i) (all_directions ! j)"
proof (induction vs arbitrary: i)
  case (Cons v vs)
  have l: "length (map (prune v) all_directions) = 8" by (simp add: all_directions_def)
  show ?case
  proof (cases i)
    case 0
    then show ?thesis using Cons.prems l by (simp add: pruned_def nth_append)
  next
    case (Suc k)
    then have "pruned (v # vs) ! (i * 8 + j) = pruned vs ! (k * 8 + j)"
      using l by (simp add: pruned_def nth_append)
    then show ?thesis using Cons Suc by simp
  qed
qed simp

lemma pruned_append: "pruned (xs @ ys) = pruned xs @ pruned ys"
  by (simp add: pruned_def)

lemma vectors_8: "vectors 8 = concat (map (\<lambda>hi. map (\<lambda>v. v @ hi) (vectors 4))
    [[False, False, False, False], [True, False, False, False], [False, True, False, False], [True, True, False, False],
     [False, False, True, False], [True, False, True, False], [False, True, True, False], [True, True, True, False],
     [False, False, False, True], [True, False, False, True], [False, True, False, True], [True, True, False, True],
     [False, False, True, True], [True, False, True, True], [False, True, True, True], [True, True, True, True]])"
  by code_simp

lemmas explore_entries_pruned =
  explore_entries_0_pruned explore_entries_1_pruned explore_entries_2_pruned explore_entries_3_pruned
  explore_entries_4_pruned explore_entries_5_pruned explore_entries_6_pruned explore_entries_7_pruned
  explore_entries_8_pruned explore_entries_9_pruned explore_entries_10_pruned explore_entries_11_pruned
  explore_entries_12_pruned explore_entries_13_pruned explore_entries_14_pruned explore_entries_15_pruned

lemma exploreDirections_pruned: "list_all2 same_directions exploreDirections (pruned (vectors 8))"
  unfolding exploreDirections_def vectors_8 list.map concat.simps pruned_append append_Nil2
  by (intro list_all2_appendI explore_entries_pruned)

lemma blocked_bits: "blocked (map (bit b) [0..<8]) d = bit b (dir_index d)"
  by (cases d) (simp_all add: upt_rec numeral_eq_Suc)

lemma dir_index_nth: "all_directions ! dir_index d = d" and dir_index_less: "dir_index d < 8"
  by (cases d; simp add: all_directions_def)+

lemma explore_index_less: "unat (b :: u8) * 8 + dir_index d < 2048"
proof -
  have "unat b < 256" by (rule unat_u8_less)
  then show ?thesis using dir_index_less [of d] by linarith
qed

text \<open>
  C4: the look-up of an exploration function never leaves the table, and the function found
  searches exactly the directions that jump point search allows after a move in direction \<open>d\<close> into
  a cell with the blocked directions \<open>b\<close>: the natural successors and those that an obstacle forces.
\<close>

theorem explore_table_prunes:
  "unat (b :: u8) * 8 + dir_index d < length exploreDirections
   \<and> set (exploreDirections ! (unat b * 8 + dir_index d)) = set (prune (map (bit b) [0..<8]) d)"
proof -
  have l: "length (pruned (vectors 8)) = 2048"
    by (simp add: pruned_def length_concat comp_def all_directions_def sum_list_triv length_vectors)
  then have i: "unat b * 8 + dir_index d < length exploreDirections"
    using list_all2_lengthD [OF exploreDirections_pruned] explore_index_less [of b d] by simp
  have u: "unat b < 2 ^ 8" using unat_u8_less [of b] by simp
  have "pruned (vectors 8) ! (unat b * 8 + dir_index d) = prune (vectors 8 ! unat b) d"
    using nth_pruned [of "unat b" "vectors 8" "dir_index d"] u dir_index_less [of d] dir_index_nth [of d]
    by (simp add: length_vectors)
  also have "vectors 8 ! unat b = map (bit b) [0..<8]"
    using nth_vectors [OF u] by (simp add: bit_unsigned_iff)
  finally have "same_directions (exploreDirections ! (unat b * 8 + dir_index d)) (prune (map (bit b) [0..<8]) d)"
    using list_all2_nthD [OF exploreDirections_pruned i] by simp
  then show ?thesis using i by (auto simp: same_directions_def list_all_iff)
qed


end
