(* ===== verification/Open_Lists.thy ===== *)
theory Open_Lists
  imports Prelude "HOL-Library.Multiset"
begin

text \<open>
  The two open lists of the path search, \<^verbatim>\<open>FastStack.h\<close> and
  \<^verbatim>\<open>SimpleUnsortedPriorityQueue.h/.cpp\<close>: arrays of a fixed size with a fill counter. A slot that
  was never written is \<open>None\<close>; an access outside the array or to such a slot, undefined in the
  program, is an error value. The locales \<open>open_list\<close> and \<open>cheapest_first\<close> state what the search
  relies on, in terms of the multiset of nodes held; both classes are interpretations.
\<close>

datatype jps_error =
  NodeOutOfRange | StackOverflow | StackUnderflow | QueueOverflow | QueueUnderflow | OutOfFuel

section \<open>The interface\<close>

locale open_list =
  fixes contents :: "'q \<Rightarrow> 'a multiset"
    and ok :: "'q \<Rightarrow> bool"
    and room_for :: "'q \<Rightarrow> nat"
    and is_empty :: "'q \<Rightarrow> bool"
    and add :: "'a \<Rightarrow> 'q \<Rightarrow> jps_error + 'q"
    and pop :: "('a \<Rightarrow> u32) \<Rightarrow> 'q \<Rightarrow> jps_error + 'a \<times> 'q"
    and reset :: "'q \<Rightarrow> 'q"
  assumes empty_contents: "ok q \<Longrightarrow> is_empty q \<longleftrightarrow> contents q = {#}"
    and add_contents: "ok q \<Longrightarrow> size (contents q) < room_for q \<Longrightarrow>
      \<exists>q'. add x q = Inr q' \<and> ok q' \<and> room_for q' = room_for q \<and> contents q' = add_mset x (contents q)"
    and add_safe: "ok q \<Longrightarrow> add x q = Inr q' \<Longrightarrow> ok q' \<and> room_for q' = room_for q \<and> contents q' = add_mset x (contents q)"
    and pop_contents: "ok q \<Longrightarrow> contents q \<noteq> {#} \<Longrightarrow>
      \<exists>x q'. pop cost q = Inr (x, q') \<and> ok q' \<and> room_for q' = room_for q \<and> contents q = add_mset x (contents q')"
    and reset_contents: "ok q \<Longrightarrow> ok (reset q) \<and> room_for (reset q) = room_for q \<and> contents (reset q) = {#}"
begin

text \<open>Elements put in while there is room come out again, each as often as it was put in.\<close>

fun add_all :: "'a list \<Rightarrow> 'q \<Rightarrow> jps_error + 'q" where
  "add_all [] q = Inr q"
| "add_all (x # xs) q = (case add x q of Inl e \<Rightarrow> Inl e | Inr q' \<Rightarrow> add_all xs q')"

fun pop_all :: "nat \<Rightarrow> ('a \<Rightarrow> u32) \<Rightarrow> 'q \<Rightarrow> jps_error + 'a list \<times> 'q" where
  "pop_all 0 cost q = Inr ([], q)"
| "pop_all (Suc n) cost q =
     (case pop cost q of
        Inl e \<Rightarrow> Inl e
      | Inr (x, q') \<Rightarrow> (case pop_all n cost q' of Inl e \<Rightarrow> Inl e | Inr (xs, q'') \<Rightarrow> Inr (x # xs, q'')))"

lemma add_all_contents:
  "ok q \<Longrightarrow> size (contents q) + length xs \<le> room_for q \<Longrightarrow>
   \<exists>q'. add_all xs q = Inr q' \<and> ok q' \<and> contents q' = contents q + mset xs"
proof (induction xs arbitrary: q)
  case (Cons x xs)
  obtain q1 where q1: "add x q = Inr q1" "ok q1" "room_for q1 = room_for q" "contents q1 = add_mset x (contents q)"
    using add_contents [of q x] Cons.prems by auto
  then show ?case using Cons.IH [of q1] Cons.prems by auto
qed simp

lemma pop_all_contents:
  "ok q \<Longrightarrow> n = size (contents q) \<Longrightarrow> \<exists>xs q'. pop_all n cost q = Inr (xs, q') \<and> mset xs = contents q \<and> contents q' = {#}"
proof (induction n arbitrary: q)
  case (Suc n)
  obtain x q1 where q1: "pop cost q = Inr (x, q1)" "ok q1" "contents q = add_mset x (contents q1)"
    using pop_contents [of q cost] Suc.prems by fastforce
  then obtain xs q' where "pop_all n cost q1 = Inr (xs, q')" "mset xs = contents q1" "contents q' = {#}"
    using Suc.IH [of q1] Suc.prems by auto
  then show ?case using q1 by simp
qed auto

lemma round_trip:
  assumes "ok q" and "length xs \<le> room_for q"
  shows "\<exists>q1 ys q2. add_all xs (reset q) = Inr q1 \<and> pop_all (length xs) cost q1 = Inr (ys, q2)
    \<and> mset ys = mset xs \<and> is_empty q1 = (xs = [])"
proof -
  obtain q1 where q1: "add_all xs (reset q) = Inr q1" "ok q1" "contents q1 = mset xs"
    using add_all_contents [of "reset q" xs] reset_contents [OF assms(1)] assms(2) by auto
  then show ?thesis using pop_all_contents [of q1 "length xs" cost] empty_contents [of q1] by auto
qed

end

locale cheapest_first = open_list +
  assumes pop_cheapest: "ok q \<Longrightarrow> pop cost q = Inr (x, q') \<Longrightarrow> y \<in># contents q \<Longrightarrow> cost x \<le> cost y"
begin

text \<open>Emptying such a list yields its elements by increasing cost.\<close>

lemma pop_all_sorted:
  "ok q \<Longrightarrow> n = size (contents q) \<Longrightarrow> pop_all n cost q = Inr (xs, q') \<Longrightarrow> sorted (map cost xs)"
proof (induction n arbitrary: q q' xs)
  case (Suc n)
  obtain x q1 where q1: "pop cost q = Inr (x, q1)" "ok q1" "contents q = add_mset x (contents q1)"
    using pop_contents [of q cost] Suc.prems by fastforce
  obtain ys q2 where ys: "pop_all n cost q1 = Inr (ys, q2)" "mset ys = contents q1"
    using pop_all_contents [of q1 n cost] q1 Suc.prems by auto
  then have xs: "xs = x # ys" using Suc.prems(3) q1(1) by simp
  have "cost x \<le> cost y" if "y \<in> set ys" for y
    using pop_cheapest [OF Suc.prems(1) q1(1), of y] q1(3) ys(2) that by (metis insert_iff set_mset_add_mset_insert set_mset_mset)
  moreover have "sorted (map cost ys)" using Suc.IH [OF q1(2) _ ys(1)] q1 Suc.prems by simp
  ultimately show ?case using xs by auto
qed simp

end

section \<open>FastStack\<close>

record 'a fast_stack =
  fs_nextFreeNode :: nat
  fs_nodeArray :: "'a option list"

definition fs_new :: "nat \<Rightarrow> 'a fast_stack" where
  "fs_new n = \<lparr>fs_nextFreeNode = 0, fs_nodeArray = replicate n None\<rparr>"

definition fs_reset :: "'a fast_stack \<Rightarrow> 'a fast_stack" where
  "fs_reset s = s\<lparr>fs_nextFreeNode := 0\<rparr>"

definition fs_empty :: "'a fast_stack \<Rightarrow> bool" where
  "fs_empty s = (fs_nextFreeNode s = 0)"

definition fs_push :: "'a \<Rightarrow> 'a fast_stack \<Rightarrow> jps_error + 'a fast_stack" where
  "fs_push node s =
     (if fs_nextFreeNode s < length (fs_nodeArray s)
      then Inr (s\<lparr>fs_nodeArray := (fs_nodeArray s)[fs_nextFreeNode s := Some node],
                  fs_nextFreeNode := fs_nextFreeNode s + 1\<rparr>)
      else Inl StackOverflow)"

definition fs_pop :: "'a fast_stack \<Rightarrow> jps_error + 'a \<times> 'a fast_stack" where
  "fs_pop s =
     (if fs_nextFreeNode s = 0 then Inl StackUnderflow
      else (case fs_nodeArray s ! (fs_nextFreeNode s - 1) of
              None \<Rightarrow> Inl StackUnderflow
            | Some node \<Rightarrow> Inr (node, s\<lparr>fs_nextFreeNode := fs_nextFreeNode s - 1\<rparr>)))"

section \<open>SimpleUnsortedPriorityQueue\<close>

record 'a unsorted_queue =
  uq_nextFreeNode :: nat
  uq_nodeArray :: "'a option list"

definition uq_new :: "nat \<Rightarrow> 'a unsorted_queue" where
  "uq_new n = \<lparr>uq_nextFreeNode = 0, uq_nodeArray = replicate n None\<rparr>"

definition uq_reset :: "'a unsorted_queue \<Rightarrow> 'a unsorted_queue" where
  "uq_reset s = s\<lparr>uq_nextFreeNode := 0\<rparr>"

definition uq_empty :: "'a unsorted_queue \<Rightarrow> bool" where
  "uq_empty s = (uq_nextFreeNode s = 0)"

definition uq_add :: "'a \<Rightarrow> 'a unsorted_queue \<Rightarrow> jps_error + 'a unsorted_queue" where
  "uq_add node s =
     (if uq_nextFreeNode s < length (uq_nodeArray s)
      then Inr (s\<lparr>uq_nodeArray := (uq_nodeArray s)[uq_nextFreeNode s := Some node],
                  uq_nextFreeNode := uq_nextFreeNode s + 1\<rparr>)
      else Inl QueueOverflow)"

fun uq_cheapest :: "('a \<Rightarrow> u32) \<Rightarrow> 'a option list \<Rightarrow> nat list \<Rightarrow> u32 \<Rightarrow> nat \<Rightarrow> jps_error + nat" where
  \<comment> \<open>the loop over \<open>i\<close>; the last two arguments are the cheapest cost so far and its index\<close>
  "uq_cheapest cost nodes [] cheapestNodeCost cheapestNodeIndex = Inr cheapestNodeIndex"
| "uq_cheapest cost nodes (i # is) cheapestNodeCost cheapestNodeIndex =
     (case nodes ! i of
        None \<Rightarrow> Inl QueueUnderflow
      | Some node \<Rightarrow>
          if cost node < cheapestNodeCost then uq_cheapest cost nodes is (cost node) i
          else uq_cheapest cost nodes is cheapestNodeCost cheapestNodeIndex)"

definition uq_pop :: "('a \<Rightarrow> u32) \<Rightarrow> 'a unsorted_queue \<Rightarrow> jps_error + 'a \<times> 'a unsorted_queue" where
  "uq_pop cost s =
     (if uq_nextFreeNode s = 0 then Inl QueueUnderflow
      else (case uq_nodeArray s ! 0 of
              None \<Rightarrow> Inl QueueUnderflow
            | Some first \<Rightarrow>
                (case uq_cheapest cost (uq_nodeArray s) [1..<uq_nextFreeNode s] (cost first) 0 of
                   Inl e \<Rightarrow> Inl e
                 | Inr cheapestNodeIndex \<Rightarrow>
                     (case uq_nodeArray s ! cheapestNodeIndex of
                        None \<Rightarrow> Inl QueueUnderflow
                      | Some cheapestNode \<Rightarrow>
                          let last = uq_nextFreeNode s - 1
                          in Inr (cheapestNode,
                               s\<lparr>uq_nextFreeNode := last,
                                 uq_nodeArray := (uq_nodeArray s)[cheapestNodeIndex := uq_nodeArray s ! last]\<rparr>)))))"

section \<open>What the arrays hold\<close>

definition held :: "nat \<Rightarrow> 'a option list \<Rightarrow> 'a multiset" where
  "held n xs = mset (map the (take n xs))"

definition filled :: "nat \<Rightarrow> 'a option list \<Rightarrow> bool" where
  "filled n xs \<longleftrightarrow> n \<le> length xs \<and> (\<forall>i<n. xs ! i \<noteq> None)"

lemma size_held: "filled n xs \<Longrightarrow> size (held n xs) = n"
  by (simp add: filled_def held_def)

lemma held_0 [simp]: "held 0 xs = {#}"
  by (simp add: held_def)

lemma filled_0 [simp]: "filled 0 xs"
  by (simp add: filled_def)

lemma held_append:
  assumes "filled n xs" and "n < length xs"
  shows "held (Suc n) (xs[n := Some x]) = add_mset x (held n xs)" and "filled (Suc n) (xs[n := Some x])"
  using assms by (auto simp: held_def filled_def take_Suc_conv_app_nth nth_list_update less_Suc_eq)

lemma held_Suc: "filled (Suc n) xs \<Longrightarrow> held (Suc n) xs = add_mset (the (xs ! n)) (held n xs) \<and> filled n xs"
  by (auto simp: held_def filled_def take_Suc_conv_app_nth)

lemma in_held: "y \<in># held n xs \<longleftrightarrow> (\<exists>i<n. i < length xs \<and> y = the (xs ! i))"
proof -
  have "y \<in># held n xs \<longleftrightarrow> (\<exists>i<length (take n xs). y = the (take n xs ! i))"
    by (force simp: held_def in_set_conv_nth image_iff)
  then show ?thesis by auto
qed

text \<open>Overwriting slot \<open>i\<close> by the last element and dropping the last removes the element of slot \<open>i\<close>.\<close>

lemma held_remove:
  assumes "filled (Suc n) xs" and "i \<le> n"
  shows "held (Suc n) xs = add_mset (the (xs ! i)) (held n (xs[i := xs ! n]))" and "filled n (xs[i := xs ! n])"
proof -
  show "filled n (xs[i := xs ! n])" using assms by (auto simp: filled_def nth_list_update)
  have n: "n < length xs" using assms(1) by (simp add: filled_def)
  show "held (Suc n) xs = add_mset (the (xs ! i)) (held n (xs[i := xs ! n]))"
  proof (cases "i = n")
    case True
    then show ?thesis using held_Suc [OF assms(1)] by (simp add: held_def)
  next
    case False
    then have i: "i < length (take n xs)" using assms n by simp
    have "mset (map the ((take n xs)[i := xs ! n])) = mset ((map the (take n xs))[i := the (xs ! n)])"
      by (simp add: map_update)
    also have "\<dots> = add_mset (the (xs ! n)) (mset (map the (take n xs)) - {#the (xs ! i)#})"
      using i by (subst mset_update) auto
    finally have "held n (xs[i := xs ! n]) = add_mset (the (xs ! n)) (held n xs - {#the (xs ! i)#})"
      using False assms(2) by (simp add: held_def take_update_swap)
    moreover have "the (xs ! i) \<in># held n xs" using i n by (auto simp: in_held)
    ultimately show ?thesis using held_Suc [OF assms(1)] by simp
  qed
qed

lemma uq_cheapest_ok:
  assumes "filled n xs" and "set is \<subseteq> {..<n}" and "k < n" and "c = cost (the (xs ! k))"
  shows "\<exists>j<n. uq_cheapest cost xs is c k = Inr j \<and> cost (the (xs ! j)) \<le> c \<and> (\<forall>i\<in>set is. cost (the (xs ! j)) \<le> cost (the (xs ! i)))"
  using assms
proof (induction "is" arbitrary: c k)
  case (Cons i "is")
  obtain node where node: "xs ! i = Some node" using Cons.prems by (auto simp: filled_def)
  show ?case
  proof (cases "cost node < c")
    case True
    then show ?thesis using Cons.IH [of i "cost node"] Cons.prems node by fastforce
  next
    case False
    then show ?thesis using Cons.IH [of k c] Cons.prems node by fastforce
  qed
qed auto

lemma uq_pop_ok:
  assumes "filled (uq_nextFreeNode q) (uq_nodeArray q)" and "uq_nextFreeNode q \<noteq> 0"
  shows "\<exists>x q'. uq_pop cost q = Inr (x, q') \<and> filled (uq_nextFreeNode q') (uq_nodeArray q')
    \<and> length (uq_nodeArray q') = length (uq_nodeArray q)
    \<and> held (uq_nextFreeNode q) (uq_nodeArray q) = add_mset x (held (uq_nextFreeNode q') (uq_nodeArray q'))
    \<and> (\<forall>y. y \<in># held (uq_nextFreeNode q) (uq_nodeArray q) \<longrightarrow> cost x \<le> cost y)"
proof -
  obtain n where n: "uq_nextFreeNode q = Suc n" using assms(2) by (cases "uq_nextFreeNode q") auto
  let ?xs = "uq_nodeArray q"
  have f: "filled (Suc n) ?xs" using assms(1) n by simp
  obtain first where first: "?xs ! 0 = Some first" using f by (auto simp: filled_def)
  obtain j where j: "j < Suc n" "uq_cheapest cost ?xs [1..<Suc n] (cost first) 0 = Inr j"
    "cost (the (?xs ! j)) \<le> cost first" "\<forall>i\<in>set [1..<Suc n]. cost (the (?xs ! j)) \<le> cost (the (?xs ! i))"
    using uq_cheapest_ok [OF f, of "[1..<Suc n]" 0 "cost first" cost] first
    by (auto simp del: upt_Suc simp: subset_eq)
  obtain node where node: "?xs ! j = Some node" using f j(1) by (auto simp: filled_def)
  let ?q = "q\<lparr>uq_nextFreeNode := n, uq_nodeArray := ?xs[j := ?xs ! n]\<rparr>"
  have "uq_pop cost q = Inr (node, ?q)"
    using n first j(2) node by (simp add: uq_pop_def Let_def del: upt_Suc)
  moreover have "cost node \<le> cost y" if y: "y \<in># held (Suc n) ?xs" for y
  proof -
    obtain i where "i < Suc n" "y = the (?xs ! i)" using y by (auto simp: in_held)
    then show ?thesis using j(3,4) first node by (cases i) (auto simp del: upt_Suc)
  qed
  ultimately show ?thesis using held_remove [OF f, of j] j(1) n node by auto
qed

section \<open>The interpretations\<close>

abbreviation fs_contents :: "'a fast_stack \<Rightarrow> 'a multiset" where
  "fs_contents s \<equiv> held (fs_nextFreeNode s) (fs_nodeArray s)"

abbreviation fs_ok :: "'a fast_stack \<Rightarrow> bool" where
  "fs_ok s \<equiv> filled (fs_nextFreeNode s) (fs_nodeArray s)"

abbreviation uq_contents :: "'a unsorted_queue \<Rightarrow> 'a multiset" where
  "uq_contents s \<equiv> held (uq_nextFreeNode s) (uq_nodeArray s)"

abbreviation uq_ok :: "'a unsorted_queue \<Rightarrow> bool" where
  "uq_ok s \<equiv> filled (uq_nextFreeNode s) (uq_nodeArray s)"

interpretation fs: open_list fs_contents fs_ok "\<lambda>s. length (fs_nodeArray s)" fs_empty fs_push "\<lambda>_. fs_pop" fs_reset
proof unfold_locales
  fix q q' :: "'a fast_stack" and x :: 'a and cost :: "'a \<Rightarrow> u32"
  assume ok: "fs_ok q"
  show "fs_empty q \<longleftrightarrow> fs_contents q = {#}" using size_held [OF ok] by (auto simp: fs_empty_def)
  show "fs_ok (fs_reset q) \<and> length (fs_nodeArray (fs_reset q)) = length (fs_nodeArray q) \<and> fs_contents (fs_reset q) = {#}"
    by (simp add: fs_reset_def)
  show "\<exists>q'. fs_push x q = Inr q' \<and> fs_ok q' \<and> length (fs_nodeArray q') = length (fs_nodeArray q)
      \<and> fs_contents q' = add_mset x (fs_contents q)" if "size (fs_contents q) < length (fs_nodeArray q)"
    using that ok size_held [OF ok] held_append [OF ok, of x] by (simp add: fs_push_def)
  show "fs_ok q' \<and> length (fs_nodeArray q') = length (fs_nodeArray q) \<and> fs_contents q' = add_mset x (fs_contents q)"
    if "fs_push x q = Inr q'"
    using that ok held_append [OF ok, of x] by (auto simp: fs_push_def split: if_splits)
  show "\<exists>x q'. fs_pop q = Inr (x, q') \<and> fs_ok q' \<and> length (fs_nodeArray q') = length (fs_nodeArray q)
      \<and> fs_contents q = add_mset x (fs_contents q')" if nz: "fs_contents q \<noteq> {#}"
  proof -
    obtain n where n: "fs_nextFreeNode q = Suc n" using nz by (cases "fs_nextFreeNode q") auto
    obtain node where "fs_nodeArray q ! n = Some node" using ok n by (auto simp: filled_def)
    then show ?thesis using held_Suc [of n "fs_nodeArray q"] ok n by (simp add: fs_pop_def)
  qed
qed

interpretation uq: cheapest_first uq_contents uq_ok "\<lambda>s. length (uq_nodeArray s)" uq_empty uq_add uq_pop uq_reset
proof unfold_locales
  fix q q' :: "'a unsorted_queue" and x y :: 'a and cost :: "'a \<Rightarrow> u32"
  assume ok: "uq_ok q"
  show "uq_empty q \<longleftrightarrow> uq_contents q = {#}" using size_held [OF ok] by (auto simp: uq_empty_def)
  show "uq_ok (uq_reset q) \<and> length (uq_nodeArray (uq_reset q)) = length (uq_nodeArray q) \<and> uq_contents (uq_reset q) = {#}"
    by (simp add: uq_reset_def)
  show "\<exists>q'. uq_add x q = Inr q' \<and> uq_ok q' \<and> length (uq_nodeArray q') = length (uq_nodeArray q)
      \<and> uq_contents q' = add_mset x (uq_contents q)" if "size (uq_contents q) < length (uq_nodeArray q)"
    using that ok size_held [OF ok] held_append [OF ok, of x] by (simp add: uq_add_def)
  show "uq_ok q' \<and> length (uq_nodeArray q') = length (uq_nodeArray q) \<and> uq_contents q' = add_mset x (uq_contents q)"
    if "uq_add x q = Inr q'"
    using that ok held_append [OF ok, of x] by (auto simp: uq_add_def split: if_splits)
  show "\<exists>x q'. uq_pop cost q = Inr (x, q') \<and> uq_ok q' \<and> length (uq_nodeArray q') = length (uq_nodeArray q)
      \<and> uq_contents q = add_mset x (uq_contents q')" if "uq_contents q \<noteq> {#}"
  proof -
    have "uq_nextFreeNode q \<noteq> 0" using that held_0 by metis
    then show ?thesis using uq_pop_ok [OF ok, of cost] by auto
  qed
  show "cost x \<le> cost y" if "uq_pop cost q = Inr (x, q')" "y \<in># uq_contents q"
  proof -
    have "uq_nextFreeNode q \<noteq> 0" using that(2) held_0 by (metis empty_iff set_mset_empty)
    then show ?thesis using uq_pop_ok [OF ok, of cost] that by auto
  qed
qed

section \<open>Properties\<close>

text \<open>
  The unsorted array works as a priority queue. Nodes added to an empty queue of sufficient
  size come out again exactly, as many as went in, by increasing cost.
\<close>

theorem unsorted_queue_sorts:
  fixes xs :: "'a list"
  assumes "length xs \<le> n"
  shows "\<exists>q ys q'. uq.add_all xs (uq_new n) = Inr q \<and> uq.pop_all (length xs) cost q = Inr (ys, q')
    \<and> mset ys = mset xs \<and> sorted (map cost ys)"
proof -
  have ok: "uq_ok (uq_new n :: 'a unsorted_queue)" "uq_contents (uq_new n :: 'a unsorted_queue) = {#}"
    "length (uq_nodeArray (uq_new n :: 'a unsorted_queue)) = n"
    by (simp_all add: uq_new_def)
  then obtain q where q: "uq.add_all xs (uq_new n) = Inr q" "uq_ok q" "uq_contents q = mset xs"
    using uq.add_all_contents [of "uq_new n :: 'a unsorted_queue" xs] assms by auto
  then obtain ys q' where "uq.pop_all (length xs) cost q = Inr (ys, q')" "mset ys = mset xs"
    using uq.pop_all_contents [of q "length xs" cost] by auto
  then show ?thesis using q uq.pop_all_sorted [of q "length xs" cost ys q'] by auto
qed

theorem unsorted_queue_sorts_witness:
  "\<exists>q ys q'. uq.add_all [3, 1, 2 :: u32] (uq_new 4) = Inr q \<and> uq.pop_all 3 id q = Inr (ys, q')
    \<and> mset ys = {#1, 2, 3#} \<and> sorted (map id ys)"
proof -
  have m: "mset [3, 1, 2 :: u32] = {#1, 2, 3#}" and l: "length [3, 1, 2 :: u32] = 3" and "length [3, 1, 2 :: u32] \<le> 4"
    by simp_all
  then show ?thesis using unsorted_queue_sorts [of "[3, 1, 2 :: u32]" 4 id] unfolding m l by blast
qed

end
