(* ===== verification/JPS_Plus.thy ===== *)
theory JPS_Plus
  imports Jump_Distances Explore_Table Open_Lists
begin

text \<open>
  The path search of \<^verbatim>\<open>JPSPlus.h\<close> and \<^verbatim>\<open>JPSPlus.cpp\<close>, with the nodes of
  \<^verbatim>\<open>PathfindingNode.h\<close>. A node is named by its cell, so a pointer to a node is a cell, and
  \<^verbatim>\<open>m_mapNodes\<close> is a function of the cell; an address outside the map is the error
  \<open>NodeOutOfRange\<close>. Costs are 32 bit words. The search loop and the walk along the parents take
  fuel; the theorems show that the fuel \<open>getPath\<close> gives them, one more than the number of tiles,
  never runs out.
\<close>

section \<open>Nodes and the search state\<close>

datatype node_status = ON_NONE | ON_OPEN | ON_CLOSED

datatype path_status = PATH_STATUS_WORKING | PATH_STATUS_PATH_FOUND | PATH_STATUS_NO_PATH_EXISTS

record pathfinding_node =
  m_parent :: "cell option"
  m_row :: int
  m_col :: int
  m_givenCost :: u32
  m_finalCost :: u32
  m_iteration :: u32
  m_directionFromParent :: array_direction
  m_listStatus :: node_status

record jps_plus =
  m_width :: int
  m_height :: int
  m_fastStack :: "cell fast_stack"
  m_priorityQueue :: "cell unsorted_queue"
  m_mapNodes :: "cell \<Rightarrow> pathfinding_node"
  m_currentIteration :: u32
  m_goalNode :: cell
  m_goalRow :: int
  m_goalCol :: int

definition FIXED_POINT_MULTIPLIER :: int where "FIXED_POINT_MULTIPLIER = 2378"
definition SQRT_2 :: int where "SQRT_2 = 3363"
definition SQRT_2_MINUS_ONE :: int where "SQRT_2_MINUS_ONE = 985"

definition FIXED_POINT_SHIFT :: "int \<Rightarrow> int" where
  "FIXED_POINT_SHIFT x = x * FIXED_POINT_MULTIPLIER"

definition jp_new :: "precompute_map \<Rightarrow> jps_plus" where
  \<comment> \<open>the goal pointer, null at first, is set by every search before it is used\<close>
  "jp_new pm = \<lparr>m_width = pm_width pm, m_height = pm_height pm, m_fastStack = fs_new 1000,
     m_priorityQueue = uq_new 10000,
     m_mapNodes = (\<lambda>(r, c). \<lparr>m_parent = None, m_row = i16 r, m_col = i16 c, m_givenCost = 0, m_finalCost = 0,
       m_iteration = 0, m_directionFromParent = DOWN, m_listStatus = ON_NONE\<rparr>),
     m_currentIteration = 1, m_goalNode = (0, 0), m_goalRow = 0, m_goalCol = 0\<rparr>"

definition jp_nodeAt :: "jps_plus \<Rightarrow> int \<Rightarrow> int \<Rightarrow> jps_error + cell" where
  \<comment> \<open>the address \<^verbatim>\<open>&m_mapNodes[r][c]\<close>\<close>
  "jp_nodeAt jp r c = (if 0 \<le> r \<and> r < m_height jp \<and> 0 \<le> c \<and> c < m_width jp then Inr (r, c) else Inl NodeOutOfRange)"

definition jp_setNode :: "cell \<Rightarrow> (pathfinding_node \<Rightarrow> pathfinding_node) \<Rightarrow> jps_plus \<Rightarrow> jps_plus" where
  "jp_setNode n f jp = jp\<lparr>m_mapNodes := (m_mapNodes jp)(n := f (m_mapNodes jp n))\<rparr>"

section \<open>Reaching a node\<close>

definition jp_heuristic :: "jps_plus \<Rightarrow> pathfinding_node \<Rightarrow> u32" where
  "jp_heuristic jp node =
     (let diffrow = abs (m_goalRow jp - m_row node); diffcolumn = abs (m_goalCol jp - m_col node)
      in if diffrow \<le> diffcolumn
         then of_int (diffrow * SQRT_2_MINUS_ONE + FIXED_POINT_SHIFT diffcolumn)
         else of_int (diffcolumn * SQRT_2_MINUS_ONE + FIXED_POINT_SHIFT diffrow))"

definition jp_pushNewNode :: "cell \<Rightarrow> cell \<Rightarrow> array_direction \<Rightarrow> u32 \<Rightarrow> jps_plus \<Rightarrow> jps_error + jps_plus" where
  "jp_pushNewNode newSuccessor currentNode parentDirection givenCost jp =
     (let node = m_mapNodes jp newSuccessor in
      if m_iteration node \<noteq> m_currentIteration jp then
        let heuristicCost = jp_heuristic jp node;
            finalCost = givenCost + heuristicCost;
            jp1 = jp_setNode newSuccessor (\<lambda>n. n\<lparr>m_parent := Some currentNode, m_directionFromParent := parentDirection,
                    m_givenCost := givenCost, m_finalCost := finalCost, m_listStatus := ON_OPEN,
                    m_iteration := m_currentIteration jp\<rparr>) jp
        in if m_finalCost (m_mapNodes jp1 newSuccessor) \<le> m_finalCost (m_mapNodes jp1 currentNode)
           then (case fs_push newSuccessor (m_fastStack jp1) of
                   Inl e \<Rightarrow> Inl e | Inr s \<Rightarrow> Inr (jp1\<lparr>m_fastStack := s\<rparr>))
           else (case uq_add newSuccessor (m_priorityQueue jp1) of
                   Inl e \<Rightarrow> Inl e | Inr q \<Rightarrow> Inr (jp1\<lparr>m_priorityQueue := q\<rparr>))
      else if givenCost < m_givenCost node \<and> m_listStatus node = ON_OPEN then
        let heuristicCost = m_finalCost node - m_givenCost node
        in Inr (jp_setNode newSuccessor (\<lambda>n. n\<lparr>m_parent := Some currentNode, m_directionFromParent := parentDirection,
                  m_givenCost := givenCost, m_finalCost := givenCost + heuristicCost\<rparr>) jp)
      else Inr jp)"

definition jp_pushAt :: "int \<Rightarrow> int \<Rightarrow> cell \<Rightarrow> array_direction \<Rightarrow> u32 \<Rightarrow> jps_plus \<Rightarrow> jps_error + jps_plus" where
  \<comment> \<open>\<^verbatim>\<open>pushNewNode(&m_mapNodes[newRow][newCol], \<dots>)\<close>\<close>
  "jp_pushAt newRow newCol currentNode dir givenCost jp =
     (case jp_nodeAt jp newRow newCol of
        Inl e \<Rightarrow> Inl e
      | Inr newSuccessor \<Rightarrow> jp_pushNewNode newSuccessor currentNode dir givenCost jp)"

section \<open>Searching in one direction\<close>

definition jp_searchDown :: "cell \<Rightarrow> int \<Rightarrow> jps_plus \<Rightarrow> jps_error + jps_plus" where
  "jp_searchDown cur jumpDist jp =
     (let row = m_row (m_mapNodes jp cur); col = m_col (m_mapNodes jp cur); given = m_givenCost (m_mapNodes jp cur) in
      if col = m_goalCol jp \<and> row < m_goalRow jp \<and> row + abs jumpDist \<ge> m_goalRow jp
      then jp_pushNewNode (m_goalNode jp) cur DOWN (given + of_int (FIXED_POINT_SHIFT (m_goalRow jp - row))) jp
      else if jumpDist > 0 then jp_pushAt (row + jumpDist) col cur DOWN (given + of_int (FIXED_POINT_SHIFT jumpDist)) jp
      else Inr jp)"

definition jp_searchDownRight :: "cell \<Rightarrow> int \<Rightarrow> jps_plus \<Rightarrow> jps_error + jps_plus" where
  "jp_searchDownRight cur jumpDist jp =
     (let row = m_row (m_mapNodes jp cur); col = m_col (m_mapNodes jp cur); given = m_givenCost (m_mapNodes jp cur);
          smallerDiff = min (m_goalRow jp - row) (m_goalCol jp - col) in
      if row < m_goalRow jp \<and> col < m_goalCol jp \<and> smallerDiff \<le> abs jumpDist
      then jp_pushAt (row + smallerDiff) (col + smallerDiff) cur DOWN_RIGHT (given + of_int (SQRT_2 * smallerDiff)) jp
      else if jumpDist > 0
      then jp_pushAt (row + jumpDist) (col + jumpDist) cur DOWN_RIGHT (given + of_int (SQRT_2 * jumpDist)) jp
      else Inr jp)"

definition jp_searchRight :: "cell \<Rightarrow> int \<Rightarrow> jps_plus \<Rightarrow> jps_error + jps_plus" where
  "jp_searchRight cur jumpDist jp =
     (let row = m_row (m_mapNodes jp cur); col = m_col (m_mapNodes jp cur); given = m_givenCost (m_mapNodes jp cur) in
      if row = m_goalRow jp \<and> col < m_goalCol jp \<and> col + abs jumpDist \<ge> m_goalCol jp
      then jp_pushNewNode (m_goalNode jp) cur RIGHT (given + of_int (FIXED_POINT_SHIFT (m_goalCol jp - col))) jp
      else if jumpDist > 0 then jp_pushAt row (col + jumpDist) cur RIGHT (given + of_int (FIXED_POINT_SHIFT jumpDist)) jp
      else Inr jp)"

definition jp_searchUpRight :: "cell \<Rightarrow> int \<Rightarrow> jps_plus \<Rightarrow> jps_error + jps_plus" where
  "jp_searchUpRight cur jumpDist jp =
     (let row = m_row (m_mapNodes jp cur); col = m_col (m_mapNodes jp cur); given = m_givenCost (m_mapNodes jp cur);
          smallerDiff = min (row - m_goalRow jp) (m_goalCol jp - col) in
      if row > m_goalRow jp \<and> col < m_goalCol jp \<and> smallerDiff \<le> abs jumpDist
      then jp_pushAt (row - smallerDiff) (col + smallerDiff) cur UP_RIGHT (given + of_int (SQRT_2 * smallerDiff)) jp
      else if jumpDist > 0
      then jp_pushAt (row - jumpDist) (col + jumpDist) cur UP_RIGHT (given + of_int (SQRT_2 * jumpDist)) jp
      else Inr jp)"

definition jp_searchUp :: "cell \<Rightarrow> int \<Rightarrow> jps_plus \<Rightarrow> jps_error + jps_plus" where
  "jp_searchUp cur jumpDist jp =
     (let row = m_row (m_mapNodes jp cur); col = m_col (m_mapNodes jp cur); given = m_givenCost (m_mapNodes jp cur) in
      if col = m_goalCol jp \<and> row > m_goalRow jp \<and> row - abs jumpDist \<le> m_goalRow jp
      then jp_pushNewNode (m_goalNode jp) cur UP (given + of_int (FIXED_POINT_SHIFT (row - m_goalRow jp))) jp
      else if jumpDist > 0 then jp_pushAt (row - jumpDist) col cur UP (given + of_int (FIXED_POINT_SHIFT jumpDist)) jp
      else Inr jp)"

definition jp_searchUpLeft :: "cell \<Rightarrow> int \<Rightarrow> jps_plus \<Rightarrow> jps_error + jps_plus" where
  "jp_searchUpLeft cur jumpDist jp =
     (let row = m_row (m_mapNodes jp cur); col = m_col (m_mapNodes jp cur); given = m_givenCost (m_mapNodes jp cur);
          smallerDiff = min (row - m_goalRow jp) (col - m_goalCol jp) in
      if row > m_goalRow jp \<and> col > m_goalCol jp \<and> smallerDiff \<le> abs jumpDist
      then jp_pushAt (row - smallerDiff) (col - smallerDiff) cur UP_LEFT (given + of_int (SQRT_2 * smallerDiff)) jp
      else if jumpDist > 0
      then jp_pushAt (row - jumpDist) (col - jumpDist) cur UP_LEFT (given + of_int (SQRT_2 * jumpDist)) jp
      else Inr jp)"

definition jp_searchLeft :: "cell \<Rightarrow> int \<Rightarrow> jps_plus \<Rightarrow> jps_error + jps_plus" where
  "jp_searchLeft cur jumpDist jp =
     (let row = m_row (m_mapNodes jp cur); col = m_col (m_mapNodes jp cur); given = m_givenCost (m_mapNodes jp cur) in
      if row = m_goalRow jp \<and> col > m_goalCol jp \<and> col - abs jumpDist \<le> m_goalCol jp
      then jp_pushNewNode (m_goalNode jp) cur LEFT (given + of_int (FIXED_POINT_SHIFT (col - m_goalCol jp))) jp
      else if jumpDist > 0 then jp_pushAt row (col - jumpDist) cur LEFT (given + of_int (FIXED_POINT_SHIFT jumpDist)) jp
      else Inr jp)"

definition jp_searchDownLeft :: "cell \<Rightarrow> int \<Rightarrow> jps_plus \<Rightarrow> jps_error + jps_plus" where
  "jp_searchDownLeft cur jumpDist jp =
     (let row = m_row (m_mapNodes jp cur); col = m_col (m_mapNodes jp cur); given = m_givenCost (m_mapNodes jp cur);
          smallerDiff = min (m_goalRow jp - row) (col - m_goalCol jp) in
      if row < m_goalRow jp \<and> col > m_goalCol jp \<and> smallerDiff \<le> abs jumpDist
      then jp_pushAt (row + smallerDiff) (col - smallerDiff) cur DOWN_LEFT (given + of_int (SQRT_2 * smallerDiff)) jp
      else if jumpDist > 0
      then jp_pushAt (row + jumpDist) (col - jumpDist) cur DOWN_LEFT (given + of_int (SQRT_2 * jumpDist)) jp
      else Inr jp)"

fun jp_search :: "array_direction \<Rightarrow> cell \<Rightarrow> int \<Rightarrow> jps_plus \<Rightarrow> jps_error + jps_plus" where
  "jp_search DOWN = jp_searchDown" | "jp_search DOWN_RIGHT = jp_searchDownRight"
| "jp_search RIGHT = jp_searchRight" | "jp_search UP_RIGHT = jp_searchUpRight"
| "jp_search UP = jp_searchUp" | "jp_search UP_LEFT = jp_searchUpLeft"
| "jp_search LEFT = jp_searchLeft" | "jp_search DOWN_LEFT = jp_searchDownLeft"

fun jp_explore :: "array_direction list \<Rightarrow> cell \<Rightarrow> distant_jump_points \<Rightarrow> jps_plus \<Rightarrow> jps_error + jps_plus" where
  \<comment> \<open>an exploration function: its searches in order\<close>
  "jp_explore [] cur djp jp = Inr jp"
| "jp_explore (d # ds) cur djp jp =
     (case jp_search d cur (jumpDistance djp d) jp of Inl e \<Rightarrow> Inl e | Inr jp1 \<Rightarrow> jp_explore ds cur djp jp1)"

section \<open>The search\<close>

definition jp_close :: "cell \<Rightarrow> jps_plus \<Rightarrow> jps_plus" where
  "jp_close n jp = jp_setNode n (\<lambda>n. n\<lparr>m_listStatus := ON_CLOSED\<rparr>) jp"

definition jp_popOpen :: "jps_plus \<Rightarrow> jps_error + cell \<times> jps_plus" where
  "jp_popOpen jp =
     (if \<not> fs_empty (m_fastStack jp)
      then (case fs_pop (m_fastStack jp) of
              Inl e \<Rightarrow> Inl e | Inr (n, s) \<Rightarrow> Inr (n, jp\<lparr>m_fastStack := s\<rparr>))
      else (case uq_pop (\<lambda>n. m_finalCost (m_mapNodes jp n)) (m_priorityQueue jp) of
              Inl e \<Rightarrow> Inl e | Inr (n, q) \<Rightarrow> Inr (n, jp\<lparr>m_priorityQueue := q\<rparr>)))"

fun jp_searchOpen :: "nat \<Rightarrow> precompute_map \<Rightarrow> jps_plus \<Rightarrow> jps_error + path_status \<times> jps_plus" where
  \<comment> \<open>the loop while a node is open\<close>
  "jp_searchOpen 0 pm jp = Inl OutOfFuel"
| "jp_searchOpen (Suc fuel) pm jp =
     (if uq_empty (m_priorityQueue jp) \<and> fs_empty (m_fastStack jp) then Inr (PATH_STATUS_NO_PATH_EXISTS, jp)
      else (case jp_popOpen jp of
              Inl e \<Rightarrow> Inl e
            | Inr (currentNode, jp1) \<Rightarrow>
                if currentNode = m_goalNode jp1 then Inr (PATH_STATUS_PATH_FOUND, jp1)
                else
                  let node = m_mapNodes jp1 currentNode;
                      djp = pm_distantJumpPointMap pm (m_row node, m_col node);
                      index = unat (blockedDirectionBitfield djp) * 8 + dir_index (m_directionFromParent node)
                  in (case jp_explore (exploreDirections ! index) currentNode djp jp1 of
                        Inl e \<Rightarrow> Inl e
                      | Inr jp2 \<Rightarrow> jp_searchOpen fuel pm (jp_close currentNode jp2))))"

definition jp_searchLoop :: "nat \<Rightarrow> precompute_map \<Rightarrow> cell \<Rightarrow> jps_plus \<Rightarrow> jps_error + path_status \<times> jps_plus" where
  "jp_searchLoop fuel pm startNode jp =
     (if startNode = m_goalNode jp then Inr (PATH_STATUS_PATH_FOUND, jp)
      else
        let node = m_mapNodes jp startNode;
            djp = pm_distantJumpPointMap pm (m_row node, m_col node)
        in (case jp_explore explore_AllDirections startNode djp jp of
              Inl e \<Rightarrow> Inl e
            | Inr jp1 \<Rightarrow> jp_searchOpen fuel pm (jp_close startNode jp1)))"

fun jp_followParents :: "nat \<Rightarrow> jps_plus \<Rightarrow> cell \<Rightarrow> tile_coord list \<Rightarrow> jps_error + tile_coord list" where
  "jp_followParents 0 jp curNode finalPath = Inl OutOfFuel"
| "jp_followParents (Suc fuel) jp curNode finalPath =
     (let coord = \<lparr>tc_x = m_col (m_mapNodes jp curNode), tc_y = m_row (m_mapNodes jp curNode)\<rparr>
      in case m_parent (m_mapNodes jp curNode) of
           None \<Rightarrow> Inr finalPath
         | Some p \<Rightarrow> jp_followParents fuel jp p (finalPath @ [coord]))"

definition jp_finalizePath :: "nat \<Rightarrow> jps_plus \<Rightarrow> jps_error + tile_coord list" where
  "jp_finalizePath fuel jp =
     (case jp_followParents fuel jp (m_goalNode jp) [] of Inl e \<Rightarrow> Inl e | Inr finalPath \<Rightarrow> Inr (rev finalPath))"

definition jp_fuel :: "jps_plus \<Rightarrow> nat" where
  "jp_fuel jp = nat (m_width jp * m_height jp) + 1"

definition jp_begin :: "cell \<Rightarrow> cell \<Rightarrow> jps_plus \<Rightarrow> jps_plus" where
  \<comment> \<open>the state of a new search: goal, iteration, empty open lists and the starting node\<close>
  "jp_begin startNode goalNode jp =
     (let jp1 = jp\<lparr>m_goalRow := fst goalNode, m_goalCol := snd goalNode, m_goalNode := goalNode,
                   m_currentIteration := m_currentIteration jp + 1,
                   m_fastStack := fs_reset (m_fastStack jp), m_priorityQueue := uq_reset (m_priorityQueue jp)\<rparr>
      in jp_setNode startNode (\<lambda>n. n\<lparr>m_parent := None, m_givenCost := 0, m_finalCost := 0,
           m_listStatus := ON_OPEN, m_iteration := m_currentIteration jp1\<rparr>) jp1)"

definition jp_getPath ::
    "tile_map \<Rightarrow> tile_coord \<Rightarrow> tile_coord \<Rightarrow> precompute_map \<Rightarrow> jps_plus
     \<Rightarrow> jps_error + bool \<times> tile_coord list \<times> precompute_map \<times> jps_plus" where
  "jp_getPath tm start goal pm jp =
     (let pm1 = pm_calculateMap tm pm in
      case jp_nodeAt jp (tc_y goal) (tc_x goal) of
        Inl e \<Rightarrow> Inl e
      | Inr goalNode \<Rightarrow>
          (case jp_nodeAt jp (tc_y start) (tc_x start) of
             Inl e \<Rightarrow> Inl e
           | Inr startNode \<Rightarrow>
               (case jp_searchLoop (jp_fuel jp) pm1 startNode (jp_begin startNode goalNode jp) of
                  Inl e \<Rightarrow> Inl e
                | Inr (status, jp1) \<Rightarrow>
                    if status = PATH_STATUS_PATH_FOUND then
                      (case jp_finalizePath (jp_fuel jp) jp1 of
                         Inl e \<Rightarrow> Inl e
                       | Inr path \<Rightarrow> Inr (length path > 0, path, pm1, jp1))
                    else Inr (False, [], pm1, jp1))))"

end
