(* ===== verification/Path_Search.thy ===== *)
theory Path_Search
  imports JPS_Plus
begin

text \<open>
  Correctness of the path search: every search ends, it never leaves its arrays except that one of
  the two open lists may be full on a map of more than a thousand tiles, and a path it returns
  leads from the start to the goal by straight and diagonal walks over open tiles.
\<close>

section \<open>Walks\<close>

definition seg :: "tile_map \<Rightarrow> cell \<Rightarrow> cell \<Rightarrow> bool" where
  \<comment> \<open>a straight or diagonal walk over open tiles, without cutting corners\<close>
  "seg tm p q \<longleftrightarrow> (\<exists>d k. 0 < k \<and> q = walk d k p \<and> (\<forall>i. 0 \<le> i \<longrightarrow> i < k \<longrightarrow> free_step tm d (walk d i p)))"

fun chain :: "tile_map \<Rightarrow> cell \<Rightarrow> cell list \<Rightarrow> bool" where
  "chain tm p [] = True"
| "chain tm p (q # qs) = (seg tm p q \<and> chain tm q qs)"

lemma chain_snoc: "chain tm p (qs @ [x]) \<longleftrightarrow> chain tm p qs \<and> seg tm (last (p # qs)) x"
  by (induction qs arbitrary: p) auto

lemma walk_pos_neq: "0 < k \<Longrightarrow> walk d k x \<noteq> x"
  by (cases d) (auto simp: walk_def prod_eq_iff)

lemma seg_neq: "seg tm p q \<Longrightarrow> q \<noteq> p"
  unfolding seg_def by (metis walk_pos_neq)

lemma seg_target: "seg tm p q \<Longrightarrow> pm_isEmpty tm q"
proof -
  assume "seg tm p q"
  then obtain d k where "0 < k" "q = walk d k p" "free_step tm d (walk d (k - 1) p)" by (auto simp: seg_def)
  then show ?thesis using free_step_empty [of tm d "walk d (k - 1) p"] by (simp add: walk_walk)
qed

definition in_grid :: "tile_map \<Rightarrow> cell \<Rightarrow> bool" where
  "in_grid tm x \<longleftrightarrow> md_isValidTileCoord (tm_mapData tm) (snd x) (fst x)"

lemma in_grid_iff: "in_grid tm x \<longleftrightarrow> 0 \<le> fst x \<and> fst x < md_height (tm_mapData tm) \<and> 0 \<le> snd x \<and> snd x < md_width (tm_mapData tm)"
  by (auto simp: in_grid_def md_isValidTileCoord_def)

lemma seg_in_grid: "seg tm p q \<Longrightarrow> in_grid tm q"
  using empty_valid [OF seg_target] by (simp add: in_grid_def)

definition tile_count :: "tile_map \<Rightarrow> nat" where
  "tile_count tm = nat (md_height (tm_mapData tm)) * nat (md_width (tm_mapData tm))"

lemma grid_finite: "finite (Collect (in_grid tm))" and grid_card: "card (Collect (in_grid tm)) = tile_count tm"
proof -
  have "Collect (in_grid tm) = {0..<md_height (tm_mapData tm)} \<times> {0..<md_width (tm_mapData tm)}"
    by (auto simp: in_grid_iff)
  then show "finite (Collect (in_grid tm))" "card (Collect (in_grid tm)) = tile_count tm"
    by (simp_all add: tile_count_def card_cartesian_product)
qed

section \<open>A single search step\<close>

definition nodes_ok :: "tile_map \<Rightarrow> jps_plus \<Rightarrow> bool" where
  "nodes_ok tm jp \<longleftrightarrow> m_width jp = md_width (tm_mapData tm) \<and> m_height jp = md_height (tm_mapData tm)
     \<and> (\<forall>x. in_grid tm x \<longrightarrow> m_row (m_mapNodes jp x) = fst x \<and> m_col (m_mapNodes jp x) = snd x)"

text \<open>
  Whatever the direction, a search either does nothing or reaches one node, at a positive distance
  within the absolute jump distance.
\<close>

lemma reaches_form:
  "X = (if P \<and> g \<le> abs j then f g ca else if j > 0 then f j cb else Y) \<Longrightarrow> (P \<Longrightarrow> 0 < g) \<Longrightarrow>
   X = Y \<or> (\<exists>k c. 0 < k \<and> k \<le> abs (j :: int) \<and> X = f k c)"
  by (auto split: if_splits)

lemma search_reaches:
  assumes "nodes_ok tm jp" and "in_grid tm cur" and "m_goalNode jp = (m_goalRow jp, m_goalCol jp)"
    and "\<And>k. 0 < k \<Longrightarrow> k \<le> abs jdist \<Longrightarrow> in_grid tm (walk d k cur)"
  shows "jp_search d cur jdist jp = Inr jp
    \<or> (\<exists>k cost. 0 < k \<and> k \<le> abs jdist \<and> jp_search d cur jdist jp = jp_pushNewNode (walk d k cur) cur d cost jp)"
proof -
  define f where "f = (\<lambda>k cost. jp_pushNewNode (walk d k cur) cur d cost jp)"
  have rc: "m_row (m_mapNodes jp cur) = fst cur" "m_col (m_mapNodes jp cur) = snd cur"
    using assms(1,2) by (simp_all add: nodes_ok_def del: split_paired_All)
  have at: "jp_pushAt (fst (walk d k cur)) (snd (walk d k cur)) cur d cost jp = f k cost"
    if "0 < k" "k \<le> abs jdist" for k cost
    using assms(4) [OF that] assms(1) by (simp add: jp_pushAt_def jp_nodeAt_def in_grid_iff nodes_ok_def f_def)
  have "jp_search d cur jdist jp = Inr jp \<or> (\<exists>k cost. 0 < k \<and> k \<le> abs jdist \<and> jp_search d cur jdist jp = f k cost)"
  proof (cases d)
    case DOWN
    show ?thesis 
      by (rule reaches_form [where f = f and P = "snd cur = m_goalCol jp \<and> fst cur < m_goalRow jp" and g = "m_goalRow jp - fst cur"
            and ca = "m_givenCost (m_mapNodes jp cur) + of_int (FIXED_POINT_SHIFT (m_goalRow jp - fst cur))"
            and cb = "m_givenCost (m_mapNodes jp cur) + of_int (FIXED_POINT_SHIFT jdist)"])
         (use at [of jdist] assms(3) in \<open>auto simp: DOWN jp_searchDown_def Let_def rc walk_def f_def\<close>)
  next
    case DOWN_RIGHT
    show ?thesis 
      by (rule reaches_form [where f = f and P = "fst cur < m_goalRow jp \<and> snd cur < m_goalCol jp" and g = "min (m_goalRow jp - fst cur) (m_goalCol jp - snd cur)"
            and ca = "m_givenCost (m_mapNodes jp cur) + of_int (SQRT_2 * (min (m_goalRow jp - fst cur) (m_goalCol jp - snd cur)))"
            and cb = "m_givenCost (m_mapNodes jp cur) + of_int (SQRT_2 * jdist)"])
         (use at [of jdist] at [of "min (m_goalRow jp - fst cur) (m_goalCol jp - snd cur)"] in \<open>auto simp: DOWN_RIGHT jp_searchDownRight_def Let_def rc walk_def f_def\<close>)
  next
    case RIGHT
    show ?thesis 
      by (rule reaches_form [where f = f and P = "fst cur = m_goalRow jp \<and> snd cur < m_goalCol jp" and g = "m_goalCol jp - snd cur"
            and ca = "m_givenCost (m_mapNodes jp cur) + of_int (FIXED_POINT_SHIFT (m_goalCol jp - snd cur))"
            and cb = "m_givenCost (m_mapNodes jp cur) + of_int (FIXED_POINT_SHIFT jdist)"])
         (use at [of jdist] assms(3) in \<open>auto simp: RIGHT jp_searchRight_def Let_def rc walk_def f_def\<close>)
  next
    case UP_RIGHT
    show ?thesis 
      by (rule reaches_form [where f = f and P = "fst cur > m_goalRow jp \<and> snd cur < m_goalCol jp" and g = "min (fst cur - m_goalRow jp) (m_goalCol jp - snd cur)"
            and ca = "m_givenCost (m_mapNodes jp cur) + of_int (SQRT_2 * (min (fst cur - m_goalRow jp) (m_goalCol jp - snd cur)))"
            and cb = "m_givenCost (m_mapNodes jp cur) + of_int (SQRT_2 * jdist)"])
         (use at [of jdist] at [of "min (fst cur - m_goalRow jp) (m_goalCol jp - snd cur)"] in \<open>auto simp: UP_RIGHT jp_searchUpRight_def Let_def rc walk_def f_def\<close>)
  next
    case UP
    show ?thesis 
      by (rule reaches_form [where f = f and P = "snd cur = m_goalCol jp \<and> fst cur > m_goalRow jp" and g = "fst cur - m_goalRow jp"
            and ca = "m_givenCost (m_mapNodes jp cur) + of_int (FIXED_POINT_SHIFT (fst cur - m_goalRow jp))"
            and cb = "m_givenCost (m_mapNodes jp cur) + of_int (FIXED_POINT_SHIFT jdist)"])
         (use at [of jdist] assms(3) in \<open>auto simp: UP jp_searchUp_def Let_def rc walk_def f_def\<close>)
  next
    case UP_LEFT
    show ?thesis 
      by (rule reaches_form [where f = f and P = "fst cur > m_goalRow jp \<and> snd cur > m_goalCol jp" and g = "min (fst cur - m_goalRow jp) (snd cur - m_goalCol jp)"
            and ca = "m_givenCost (m_mapNodes jp cur) + of_int (SQRT_2 * (min (fst cur - m_goalRow jp) (snd cur - m_goalCol jp)))"
            and cb = "m_givenCost (m_mapNodes jp cur) + of_int (SQRT_2 * jdist)"])
         (use at [of jdist] at [of "min (fst cur - m_goalRow jp) (snd cur - m_goalCol jp)"] in \<open>auto simp: UP_LEFT jp_searchUpLeft_def Let_def rc walk_def f_def\<close>)
  next
    case LEFT
    show ?thesis 
      by (rule reaches_form [where f = f and P = "fst cur = m_goalRow jp \<and> snd cur > m_goalCol jp" and g = "snd cur - m_goalCol jp"
            and ca = "m_givenCost (m_mapNodes jp cur) + of_int (FIXED_POINT_SHIFT (snd cur - m_goalCol jp))"
            and cb = "m_givenCost (m_mapNodes jp cur) + of_int (FIXED_POINT_SHIFT jdist)"])
         (use at [of jdist] assms(3) in \<open>auto simp: LEFT jp_searchLeft_def Let_def rc walk_def f_def\<close>)
  next
    case DOWN_LEFT
    show ?thesis 
      by (rule reaches_form [where f = f and P = "fst cur < m_goalRow jp \<and> snd cur > m_goalCol jp" and g = "min (m_goalRow jp - fst cur) (snd cur - m_goalCol jp)"
            and ca = "m_givenCost (m_mapNodes jp cur) + of_int (SQRT_2 * (min (m_goalRow jp - fst cur) (snd cur - m_goalCol jp)))"
            and cb = "m_givenCost (m_mapNodes jp cur) + of_int (SQRT_2 * jdist)"])
         (use at [of jdist] at [of "min (m_goalRow jp - fst cur) (snd cur - m_goalCol jp)"] in \<open>auto simp: DOWN_LEFT jp_searchDownLeft_def Let_def rc walk_def f_def\<close>)
  qed
  then show ?thesis by (simp add: f_def)
qed

section \<open>The invariant of a search\<close>

abbreviation opened :: "jps_plus \<Rightarrow> cell multiset" where
  "opened jp \<equiv> fs_contents (m_fastStack jp) + uq_contents (m_priorityQueue jp)"

definition lists_ok :: "jps_plus \<Rightarrow> bool" where
  "lists_ok jp \<longleftrightarrow> fs_ok (m_fastStack jp) \<and> length (fs_nodeArray (m_fastStack jp)) = 1000
     \<and> uq_ok (m_priorityQueue jp) \<and> length (uq_nodeArray (m_priorityQueue jp)) = 10000"

definition before :: "cell list \<Rightarrow> cell \<Rightarrow> cell set" where
  \<comment> \<open>the cells of a list before the first occurrence of a cell\<close>
  "before cl x = set (takeWhile (\<lambda>y. y \<noteq> x) cl)"

text \<open>
  \<open>s\<close> is the starting node, \<open>g\<close> the goal, \<open>it\<close> the number of the search, \<open>cl\<close> the nodes expanded so far, in order, and \<open>cur\<close> the one being expanded,
  if any: its status is not yet closed.
\<close>

definition search_inv :: "tile_map \<Rightarrow> cell \<Rightarrow> cell \<Rightarrow> u32 \<Rightarrow> cell list \<Rightarrow> cell option \<Rightarrow> jps_plus \<Rightarrow> bool" where
  "search_inv tm s g it cl cur jp \<longleftrightarrow> nodes_ok tm jp \<and> lists_ok jp
     \<and> m_goalNode jp = g \<and> g = (m_goalRow jp, m_goalCol jp) \<and> m_currentIteration jp = it
     \<and> distinct cl \<and> s \<in> set cl \<and> m_parent (m_mapNodes jp s) = None
     \<and> (\<forall>x. count (opened jp) x \<le> 1) \<and> (\<forall>x\<in>set cl. x \<notin># opened jp)
     \<and> (\<forall>x\<in>set cl \<union> set_mset (opened jp). in_grid tm x)
     \<and> (\<forall>x. m_iteration (m_mapNodes jp x) = it \<longleftrightarrow> x \<in> set cl \<or> x \<in># opened jp)
     \<and> (\<forall>x. unat (m_iteration (m_mapNodes jp x)) \<le> unat it)
     \<and> (\<forall>x. x \<in># opened jp \<longrightarrow> m_listStatus (m_mapNodes jp x) = ON_OPEN)
     \<and> (\<forall>x\<in>set cl. cur = Some x \<or> m_listStatus (m_mapNodes jp x) = ON_CLOSED)
     \<and> (\<forall>x\<in>set cl \<union> set_mset (opened jp). x \<noteq> s \<longrightarrow>
          (\<exists>p. m_parent (m_mapNodes jp x) = Some p \<and> seg tm p x \<and> p \<in> before cl x))"

lemma before_notin: "x \<notin> set cl \<Longrightarrow> before cl x = set cl"
  unfolding before_def by (metis (mono_tags, lifting) takeWhile_eq_all_conv)

lemma before_subset: "before cl x \<subseteq> set cl"
  by (auto simp: before_def dest: set_takeWhileD)

lemma before_snoc: "x \<in> set cl \<Longrightarrow> before (cl @ [y]) x = before cl x" "x \<notin> set cl \<Longrightarrow> before (cl @ [x]) x = set cl"
proof -
  show "x \<in> set cl \<Longrightarrow> before (cl @ [y]) x = before cl x"
    unfolding before_def by (subst takeWhile_append1) auto
  show "x \<notin> set cl \<Longrightarrow> before (cl @ [x]) x = set cl"
    unfolding before_def by (subst takeWhile_append2) auto
qed

lemma jp_setNode_frame [simp]:
  "m_fastStack (jp_setNode n f jp) = m_fastStack jp" "m_priorityQueue (jp_setNode n f jp) = m_priorityQueue jp"
  "m_width (jp_setNode n f jp) = m_width jp" "m_height (jp_setNode n f jp) = m_height jp"
  "m_currentIteration (jp_setNode n f jp) = m_currentIteration jp" "m_goalNode (jp_setNode n f jp) = m_goalNode jp"
  "m_goalRow (jp_setNode n f jp) = m_goalRow jp" "m_goalCol (jp_setNode n f jp) = m_goalCol jp"
  "m_mapNodes (jp_setNode n f jp) x = (if x = n then f (m_mapNodes jp n) else m_mapNodes jp x)"
  by (simp_all add: jp_setNode_def)

lemma size_set_mset: "\<forall>x. count M x \<le> 1 \<Longrightarrow> size M = card (set_mset M)"
proof -
  assume "\<forall>x. count M x \<le> 1"
  then have "M = mset_set (set_mset M)"
    by (intro multiset_eqI) (metis count_greater_zero_iff count_mset_set(1,3) finite_set_mset le_antisym less_one not_le not_in_iff)
  then show ?thesis by (metis size_mset_set)
qed

text \<open>The expanded and the open nodes are different tiles of the map.\<close>

lemma search_inv_size:
  assumes "search_inv tm s g it cl cur jp" and "in_grid tm x" and "x \<notin> set cl" and "x \<notin># opened jp"
  shows "length cl + size (opened jp) < tile_count tm"
proof -
  have c: "\<forall>x. count (opened jp) x \<le> 1" and dis: "distinct cl" "\<forall>x\<in>set cl. x \<notin># opened jp"
    and grid: "\<forall>x\<in>set cl \<union> set_mset (opened jp). in_grid tm x"
    using assms(1) by (auto simp: search_inv_def simp del: split_paired_All)
  have "length cl + size (opened jp) + 1 = card (insert x (set cl \<union> set_mset (opened jp)))"
    using assms(3,4) dis size_set_mset [OF c] by (subst card_insert_disjoint) (auto simp: card_Un_disjoint distinct_card disjoint_iff)
  also have "\<dots> \<le> card (Collect (in_grid tm))"
    using grid assms(2) by (intro card_mono grid_finite) auto
  finally show ?thesis by (simp add: grid_card)
qed

text \<open>What a search step may do: fill an open list on a large map, or keep the invariant.\<close>

definition outcome :: "tile_map \<Rightarrow> ('a \<Rightarrow> bool) \<Rightarrow> jps_error + 'a \<Rightarrow> bool" where
  "outcome tm P r = (case r of
     Inl e \<Rightarrow> (e = StackOverflow \<or> e = QueueOverflow) \<and> 1000 < tile_count tm
   | Inr x \<Rightarrow> P x)"

lemma outcome_simps [simp]:
  "outcome tm P (Inr x) = P x"
  "outcome tm P (Inl e) = ((e = StackOverflow \<or> e = QueueOverflow) \<and> 1000 < tile_count tm)"
  by (simp_all add: outcome_def)

lemma search_inv_update:
  assumes inv: "search_inv tm s g it cl (Some cur) jp" and "cur \<in> set cl" and "seg tm cur x" and x: "x \<notin> set cl"
    and nodes: "m_mapNodes jp' = (m_mapNodes jp)(x := nd)"
    and nd: "m_row nd = m_row (m_mapNodes jp x)" "m_col nd = m_col (m_mapNodes jp x)" "m_parent nd = Some cur"
      "m_iteration nd = it" "m_listStatus nd = ON_OPEN"
    and same: "lists_ok jp'" "m_width jp' = m_width jp" "m_height jp' = m_height jp" "m_goalNode jp' = m_goalNode jp"
      "m_goalRow jp' = m_goalRow jp" "m_goalCol jp' = m_goalCol jp" "m_currentIteration jp' = m_currentIteration jp"
    and opn: "set_mset (opened jp') = insert x (set_mset (opened jp))" "\<forall>y. count (opened jp') y \<le> 1"
  shows "search_inv tm s g it cl (Some cur) jp'"
proof -
  note I = inv [unfolded search_inv_def]
  have sx: "s \<noteq> x" using I x by auto
  have n: "m_mapNodes jp' y = (if y = x then nd else m_mapNodes jp y)" for y by (simp add: nodes)
  have c1: "nodes_ok tm jp'"
    using I nd(1,2) same(2,3) by (simp add: nodes_ok_def n del: split_paired_All)
  have c2: "\<forall>y\<in>set cl \<union> set_mset (opened jp'). in_grid tm y"
    using I seg_in_grid [OF assms(3)] opn(1) by auto
  have c3: "\<forall>y. m_iteration (m_mapNodes jp' y) = it \<longleftrightarrow> y \<in> set cl \<or> y \<in># opened jp'"
    using I opn(1) nd(4) by (auto simp: n simp del: split_paired_All)
  have c4: "\<forall>y. unat (m_iteration (m_mapNodes jp' y)) \<le> unat it"
    using I nd(4) by (simp add: n del: split_paired_All)
  have c5: "\<forall>y. y \<in># opened jp' \<longrightarrow> m_listStatus (m_mapNodes jp' y) = ON_OPEN"
    using I opn(1) nd(5) by (auto simp: n simp del: split_paired_All)
  have c6: "\<forall>y\<in>set cl. Some cur = Some y \<or> m_listStatus (m_mapNodes jp' y) = ON_CLOSED"
    using I x by (auto simp: n simp del: split_paired_All)
  have c7: "\<forall>y\<in>set cl \<union> set_mset (opened jp'). y \<noteq> s \<longrightarrow>
      (\<exists>p. m_parent (m_mapNodes jp' y) = Some p \<and> seg tm p y \<and> p \<in> before cl y)"
  proof (intro ballI impI)
    fix y assume y: "y \<in> set cl \<union> set_mset (opened jp')" "y \<noteq> s"
    show "\<exists>p. m_parent (m_mapNodes jp' y) = Some p \<and> seg tm p y \<and> p \<in> before cl y"
    proof (cases "y = x")
      case True
      then show ?thesis using nd(3) assms(2,3) before_notin [OF x] by (simp add: n)
    next
      case False
      then have "y \<in> set cl \<union> set_mset (opened jp)" using y(1) opn(1) by auto
      then show ?thesis using I y(2) False by (simp add: n del: split_paired_All)
    qed
  qed
  have c8: "\<forall>y\<in>set cl. y \<notin># opened jp'" using I opn(1) x by auto
  have c9: "m_parent (m_mapNodes jp' s) = None" using I sx by (simp add: n)
  have c10: "m_goalNode jp' = g" "g = (m_goalRow jp', m_goalCol jp')" "m_currentIteration jp' = it" "distinct cl" "s \<in> set cl"
    using I same by auto
  show ?thesis
    unfolding search_inv_def by (intro conjI c1 c2 c3 c4 c5 c6 c7 c8 c9 c10 same(1) opn(2))
qed

lemma push_ok:
  assumes inv: "search_inv tm s g it cl (Some cur) jp" and "cur \<in> set cl" and "seg tm cur x"
  shows "outcome tm (search_inv tm s g it cl (Some cur)) (jp_pushNewNode x cur d cost jp)"
proof -
  note I = inv [unfolded search_inv_def]
  have lists: "lists_ok jp" and it: "m_currentIteration jp = it" using I by auto
  have touched: "m_iteration (m_mapNodes jp x) = it \<longleftrightarrow> x \<in> set cl \<or> x \<in># opened jp"
    using I by (simp del: split_paired_All)
  show ?thesis
  proof (cases "m_iteration (m_mapNodes jp x) = it")
    case False
    then have x: "x \<notin> set cl" "x \<notin># opened jp" using touched by auto
    define nd where "nd = (m_mapNodes jp x)\<lparr>m_parent := Some cur, m_directionFromParent := d, m_givenCost := cost,
      m_finalCost := cost + jp_heuristic jp (m_mapNodes jp x), m_listStatus := ON_OPEN, m_iteration := it\<rparr>"
    define jp1 where "jp1 = jp_setNode x (\<lambda>_. nd) jp"
    have e: "jp_setNode x (\<lambda>n. n\<lparr>m_parent := Some cur, m_directionFromParent := d, m_givenCost := cost,
        m_finalCost := cost + jp_heuristic jp (m_mapNodes jp x), m_listStatus := ON_OPEN,
        m_iteration := m_currentIteration jp\<rparr>) jp = jp1"
      by (simp add: jp1_def nd_def jp_setNode_def it)
    have push: "jp_pushNewNode x cur d cost jp =
      (if m_finalCost (m_mapNodes jp1 x) \<le> m_finalCost (m_mapNodes jp1 cur)
       then (case fs_push x (m_fastStack jp1) of Inl e \<Rightarrow> Inl e | Inr st \<Rightarrow> Inr (jp1\<lparr>m_fastStack := st\<rparr>))
       else (case uq_add x (m_priorityQueue jp1) of Inl e \<Rightarrow> Inl e | Inr q \<Rightarrow> Inr (jp1\<lparr>m_priorityQueue := q\<rparr>)))"
      using False it unfolding jp_pushNewNode_def Let_def e by simp
    have nodes: "m_mapNodes jp1 = (m_mapNodes jp)(x := nd)" by (simp add: jp1_def jp_setNode_def)
    have cnt: "\<forall>y. count (add_mset x (opened jp)) y \<le> 1"
      using I x(2) by (auto simp: not_in_iff simp del: split_paired_All)
    have sz: "size (opened jp) < tile_count tm"
      using search_inv_size [OF inv seg_in_grid [OF assms(3)] x] by simp
    have fs: "outcome tm (search_inv tm s g it cl (Some cur))
      (case fs_push x (m_fastStack jp1) of Inl e \<Rightarrow> Inl e | Inr st \<Rightarrow> Inr (jp1\<lparr>m_fastStack := st\<rparr>))"
    proof (cases "fs_push x (m_fastStack jp1)")
      case (Inl e)
      then show ?thesis
        using lists sz size_held [of "fs_nextFreeNode (m_fastStack jp)" "fs_nodeArray (m_fastStack jp)"] by (auto simp: jp1_def lists_ok_def fs_push_def split: if_splits)
    next
      case (Inr st)
      then have st: "fs_ok st" "length (fs_nodeArray st) = 1000" "fs_contents st = add_mset x (fs_contents (m_fastStack jp))"
        using fs.add_safe [of "m_fastStack jp" x st] lists by (auto simp: jp1_def lists_ok_def)
      have "search_inv tm s g it cl (Some cur) (jp1\<lparr>m_fastStack := st\<rparr>)"
        by (rule search_inv_update [OF assms x(1), where nd = nd])
           (use st lists cnt in \<open>auto simp: nodes nd_def jp1_def lists_ok_def\<close>)
      then show ?thesis using Inr by simp
    qed
    have uq: "outcome tm (search_inv tm s g it cl (Some cur))
      (case uq_add x (m_priorityQueue jp1) of Inl e \<Rightarrow> Inl e | Inr q \<Rightarrow> Inr (jp1\<lparr>m_priorityQueue := q\<rparr>))"
    proof (cases "uq_add x (m_priorityQueue jp1)")
      case (Inl e)
      then show ?thesis
        using lists sz size_held [of "uq_nextFreeNode (m_priorityQueue jp)" "uq_nodeArray (m_priorityQueue jp)"] by (auto simp: jp1_def lists_ok_def uq_add_def split: if_splits)
    next
      case (Inr q)
      then have q: "uq_ok q" "length (uq_nodeArray q) = 10000" "uq_contents q = add_mset x (uq_contents (m_priorityQueue jp))"
        using uq.add_safe [of "m_priorityQueue jp" x q] lists by (auto simp: jp1_def lists_ok_def)
      have "search_inv tm s g it cl (Some cur) (jp1\<lparr>m_priorityQueue := q\<rparr>)"
        by (rule search_inv_update [OF assms x(1), where nd = nd])
           (use q lists cnt in \<open>auto simp: nodes nd_def jp1_def lists_ok_def\<close>)
      then show ?thesis using Inr by simp
    qed
    show ?thesis using fs uq by (simp add: push)
  next
    case True
    show ?thesis
    proof (cases "cost < m_givenCost (m_mapNodes jp x) \<and> m_listStatus (m_mapNodes jp x) = ON_OPEN")
      case False
      then show ?thesis using True it inv by (auto simp: jp_pushNewNode_def Let_def)
    next
      case less: True
      have "x \<notin> set cl" using I less seg_neq [OF assms(3)] by (auto simp del: split_paired_All)
      then have x: "x \<notin> set cl" "x \<in># opened jp" using touched True by auto
      have cnt: "\<forall>y. count (opened jp) y \<le> 1" using I by (simp del: split_paired_All)
      have "search_inv tm s g it cl (Some cur) (jp_setNode x (\<lambda>n. n\<lparr>m_parent := Some cur, m_directionFromParent := d,
          m_givenCost := cost, m_finalCost := cost + (m_finalCost (m_mapNodes jp x) - m_givenCost (m_mapNodes jp x))\<rparr>) jp)"
        by (rule search_inv_update [OF assms x(1), where nd = "(m_mapNodes jp x)\<lparr>m_parent := Some cur,
              m_directionFromParent := d, m_givenCost := cost,
              m_finalCost := cost + (m_finalCost (m_mapNodes jp x) - m_givenCost (m_mapNodes jp x))\<rparr>"])
           (use x True less lists cnt in \<open>auto simp: jp_setNode_def lists_ok_def\<close>)
      then show ?thesis using True less it by (simp add: jp_pushNewNode_def Let_def)
    qed
  qed
qed

lemma explore_ok:
  assumes tab: "table_eqs tm D" and "search_inv tm s g it cl (Some cur) jp" and cur: "cur \<in> set cl" and djp: "djp = D cur"
  shows "outcome tm (search_inv tm s g it cl (Some cur)) (jp_explore ds cur djp jp)"
  using assms(2)
proof (induction ds arbitrary: jp)
  case (Cons d ds)
  have I: "nodes_ok tm jp" "in_grid tm cur" "m_goalNode jp = (m_goalRow jp, m_goalCol jp)"
    using Cons.prems cur by (auto simp: search_inv_def simp del: split_paired_All)
  have seg: "seg tm cur (walk d k cur)" if "0 < k" "k \<le> abs (jumpDistance djp d)" for k
    unfolding seg_def
    using that table_clear [OF tab I(2) [unfolded in_grid_def], of _ d] djp by (intro exI [of _ d] exI [of _ k]) auto
  have "jp_search d cur (jumpDistance djp d) jp = Inr jp \<or> (\<exists>k cost. 0 < k \<and> k \<le> abs (jumpDistance djp d)
      \<and> jp_search d cur (jumpDistance djp d) jp = jp_pushNewNode (walk d k cur) cur d cost jp)"
    by (rule search_reaches [OF I]) (rule seg_in_grid [OF seg])
  then have "outcome tm (search_inv tm s g it cl (Some cur)) (jp_search d cur (jumpDistance djp d) jp)"
  proof (elim disjE exE conjE)
    assume "jp_search d cur (jumpDistance djp d) jp = Inr jp"
    then show ?thesis using Cons.prems by simp
  next
    fix k cost
    assume "0 < k" "k \<le> abs (jumpDistance djp d)"
      and run: "jp_search d cur (jumpDistance djp d) jp = jp_pushNewNode (walk d k cur) cur d cost jp"
    then show ?thesis unfolding run by (intro push_ok [OF Cons.prems cur] seg)
  qed
  then show ?case using Cons.IH by (auto split: sum.splits)
qed simp

lemma pop_ok:
  assumes "search_inv tm s g it cl None jp" and "opened jp \<noteq> {#}"
  shows "\<exists>x jp'. jp_popOpen jp = Inr (x, jp') \<and> x \<in># opened jp \<and> search_inv tm s g it (cl @ [x]) (Some x) jp'"
proof -
  note I = assms(1) [unfolded search_inv_def]
  have lists: "lists_ok jp" using I by simp
  obtain x jp' where pop: "jp_popOpen jp = Inr (x, jp')" "opened jp = add_mset x (opened jp')" "lists_ok jp'"
    "m_mapNodes jp' = m_mapNodes jp" "m_width jp' = m_width jp" "m_height jp' = m_height jp" "m_goalNode jp' = m_goalNode jp"
    "m_goalRow jp' = m_goalRow jp" "m_goalCol jp' = m_goalCol jp" "m_currentIteration jp' = m_currentIteration jp"
  proof (cases "fs_contents (m_fastStack jp) = {#}")
    case False
    then obtain y st where "fs_pop (m_fastStack jp) = Inr (y, st)" "fs_ok st"
      "length (fs_nodeArray st) = 1000" "fs_contents (m_fastStack jp) = add_mset y (fs_contents st)"
      using fs.pop_contents [of "m_fastStack jp"] lists by (auto simp: lists_ok_def)
    then show ?thesis
      using that [of y "jp\<lparr>m_fastStack := st\<rparr>"] False fs.empty_contents [of "m_fastStack jp"] lists
      by (simp add: jp_popOpen_def lists_ok_def)
  next
    case True
    then have "uq_contents (m_priorityQueue jp) \<noteq> {#}" using assms(2) by simp
    then obtain y q where "uq_pop (\<lambda>n. m_finalCost (m_mapNodes jp n)) (m_priorityQueue jp) = Inr (y, q)" "uq_ok q"
      "length (uq_nodeArray q) = 10000" "uq_contents (m_priorityQueue jp) = add_mset y (uq_contents q)"
      using uq.pop_contents [of "m_priorityQueue jp" "\<lambda>n. m_finalCost (m_mapNodes jp n)"] lists by (auto simp: lists_ok_def)
    then show ?thesis
      using that [of y "jp\<lparr>m_priorityQueue := q\<rparr>"] True fs.empty_contents [of "m_fastStack jp"] lists
      by (simp add: jp_popOpen_def lists_ok_def)
  qed
  have x: "x \<in># opened jp" "x \<notin> set cl" using pop(2) I by auto
  have cnt: "count (opened jp) y = (if y = x then 1 else 0) + count (opened jp') y" for y by (simp add: pop(2))
  have c1: "nodes_ok tm jp'" using I pop by (simp add: nodes_ok_def)
  have c2: "\<forall>y. count (opened jp') y \<le> 1" using I cnt by (metis add_leD2)
  have "count (opened jp) x \<le> 1" using I by (simp del: split_paired_All)
  then have "count (opened jp') x = 0" using cnt [of x] by simp
  then have nx: "x \<notin># opened jp'" by (simp add: not_in_iff)
  have c3: "\<forall>y\<in>set (cl @ [x]). y \<notin># opened jp'" using I nx pop(2) by auto
  have c4: "\<forall>y\<in>set (cl @ [x]) \<union> set_mset (opened jp'). in_grid tm y" using I pop(2) by auto
  have st: "y \<in> set (cl @ [x]) \<or> y \<in># opened jp' \<longleftrightarrow> y \<in> set cl \<or> y \<in># opened jp" for y using pop(2) by auto
  have c5: "\<forall>y. m_iteration (m_mapNodes jp' y) = it \<longleftrightarrow> y \<in> set (cl @ [x]) \<or> y \<in># opened jp'"
    unfolding st pop(4) using I by blast
  have c6: "\<forall>y. unat (m_iteration (m_mapNodes jp' y)) \<le> unat it" unfolding pop(4) using I by blast
  have c7: "\<forall>y. y \<in># opened jp' \<longrightarrow> m_listStatus (m_mapNodes jp' y) = ON_OPEN"
    unfolding pop(4) using I pop(2) by (metis add_mset_remove_trivial in_diffD)
  have c8: "\<forall>y\<in>set (cl @ [x]). Some x = Some y \<or> m_listStatus (m_mapNodes jp' y) = ON_CLOSED"
    unfolding pop(4) using I by auto
  have c9: "\<forall>y\<in>set (cl @ [x]) \<union> set_mset (opened jp'). y \<noteq> s \<longrightarrow>
      (\<exists>p. m_parent (m_mapNodes jp' y) = Some p \<and> seg tm p y \<and> p \<in> before (cl @ [x]) y)"
  proof (intro ballI impI)
    fix y assume y: "y \<in> set (cl @ [x]) \<union> set_mset (opened jp')" "y \<noteq> s"
    then have "y \<in> set cl \<union> set_mset (opened jp)" using st [of y] by auto
    then obtain p where p: "m_parent (m_mapNodes jp y) = Some p" "seg tm p y" "p \<in> before cl y" using I y(2) by blast
    have "p \<in> before (cl @ [x]) y"
      using p(3) before_snoc(1) [of y cl x] before_notin [of y cl] before_notin [of y "cl @ [x]"]
      by (cases "y \<in> set cl"; cases "y = x") (auto simp: before_snoc)
    then show "\<exists>p. m_parent (m_mapNodes jp' y) = Some p \<and> seg tm p y \<and> p \<in> before (cl @ [x]) y"
      using p pop(4) by auto
  qed
  have c10: "m_goalNode jp' = g" "g = (m_goalRow jp', m_goalCol jp')" "m_currentIteration jp' = it" "distinct (cl @ [x])"
    "s \<in> set (cl @ [x])" "m_parent (m_mapNodes jp' s) = None"
    using I pop x by auto
  have "search_inv tm s g it (cl @ [x]) (Some x) jp'"
    unfolding search_inv_def by (intro conjI c1 c2 c3 c4 c5 c6 c7 c8 c9 c10 pop(3))
  then show ?thesis using pop(1) x(1) by blast
qed

lemma jp_close_frame [simp]:
  "m_fastStack (jp_close n jp) = m_fastStack jp" "m_priorityQueue (jp_close n jp) = m_priorityQueue jp"
  "m_width (jp_close n jp) = m_width jp" "m_height (jp_close n jp) = m_height jp"
  "m_currentIteration (jp_close n jp) = m_currentIteration jp" "m_goalNode (jp_close n jp) = m_goalNode jp"
  "m_goalRow (jp_close n jp) = m_goalRow jp" "m_goalCol (jp_close n jp) = m_goalCol jp"
  by (simp_all add: jp_close_def)

lemma close_ok:
  assumes "search_inv tm s g it cl (Some x) jp" and "x \<in> set cl"
  shows "search_inv tm s g it cl None (jp_close x jp)"
proof -
  note I = assms(1) [unfolded search_inv_def]
  have o: "opened (jp_close x jp) = opened jp" by (simp add: jp_close_def)
  have n: "m_mapNodes (jp_close x jp) y = (m_mapNodes jp y)\<lparr>m_listStatus := (if y = x then ON_CLOSED else m_listStatus (m_mapNodes jp y))\<rparr>" for y
    by (simp add: jp_close_def)
  have nx: "x \<notin># opened jp" using I assms(2) by blast
  have c1: "nodes_ok tm (jp_close x jp)" "lists_ok (jp_close x jp)" "m_goalNode (jp_close x jp) = g"
    "g = (m_goalRow (jp_close x jp), m_goalCol (jp_close x jp))" "m_currentIteration (jp_close x jp) = it"
    using I by (simp_all add: nodes_ok_def lists_ok_def n del: split_paired_All)
  have c2: "\<forall>y. y \<in># opened jp \<longrightarrow> m_listStatus (m_mapNodes (jp_close x jp) y) = ON_OPEN"
    using I nx by (auto simp: n simp del: split_paired_All)
  have c3: "\<forall>y\<in>set cl. None = Some y \<or> m_listStatus (m_mapNodes (jp_close x jp) y) = ON_CLOSED"
    using I by (auto simp: n simp del: split_paired_All)
  have same: "m_parent (m_mapNodes (jp_close x jp) y) = m_parent (m_mapNodes jp y)"
    "m_iteration (m_mapNodes (jp_close x jp) y) = m_iteration (m_mapNodes jp y)" for y by (simp_all add: n)
  show ?thesis
    unfolding search_inv_def o same using I by (intro conjI c1 c2 c3) blast+
qed

lemma expanded_le:
  assumes "search_inv tm s g it cl cur jp"
  shows "length cl \<le> tile_count tm"
proof -
  have "distinct cl" "set cl \<subseteq> Collect (in_grid tm)" using assms by (auto simp: search_inv_def simp del: split_paired_All)
  then show ?thesis using card_mono [OF grid_finite, of "set cl" tm] by (simp add: distinct_card grid_card)
qed

definition search_result :: "tile_map \<Rightarrow> cell \<Rightarrow> cell \<Rightarrow> u32 \<Rightarrow> path_status \<times> jps_plus \<Rightarrow> bool" where
  "search_result tm s g it = (\<lambda>(status, jp). \<exists>cl cur. search_inv tm s g it cl cur jp
     \<and> (status = PATH_STATUS_PATH_FOUND \<and> g \<in> set cl
       \<or> status = PATH_STATUS_NO_PATH_EXISTS \<and> m_iteration (m_mapNodes jp g) \<noteq> it))"

lemma node_cell:
  "search_inv tm s g it cl cur jp \<Longrightarrow> x \<in> set cl \<Longrightarrow> (m_row (m_mapNodes jp x), m_col (m_mapNodes jp x)) = x"
  by (simp add: search_inv_def nodes_ok_def del: split_paired_All)

lemma searchOpen_ok:
  assumes tab: "table_eqs tm (pm_distantJumpPointMap pm)"
    and "search_inv tm s g it cl None jp" and "tile_count tm < fuel + length cl" and "g \<notin> set cl"
  shows "outcome tm (search_result tm s g it) (jp_searchOpen fuel pm jp)"
  using assms(2,3,4)
proof (induction fuel arbitrary: cl jp)
  case 0
  then show ?case using expanded_le [OF 0(1)] by simp
next
  case (Suc fuel)
  have lists: "lists_ok jp" using Suc.prems by (simp add: search_inv_def)
  show ?case
  proof (cases "opened jp = {#}")
    case True
    then have "uq_empty (m_priorityQueue jp)" "fs_empty (m_fastStack jp)"
      using lists uq.empty_contents fs.empty_contents by (auto simp: lists_ok_def)
    moreover have "m_iteration (m_mapNodes jp g) \<noteq> it"
      using Suc.prems(1,3) True by (simp add: search_inv_def del: split_paired_All)
    ultimately show ?thesis using Suc.prems(1) by (auto simp: search_result_def)
  next
    case False
    then have ne: "\<not> (uq_empty (m_priorityQueue jp) \<and> fs_empty (m_fastStack jp))"
      using lists uq.empty_contents fs.empty_contents by (auto simp: lists_ok_def)
    obtain x jp1 where pop: "jp_popOpen jp = Inr (x, jp1)" "search_inv tm s g it (cl @ [x]) (Some x) jp1"
      using pop_ok [OF Suc.prems(1) False] by blast
    have g: "m_goalNode jp1 = g" using pop(2) by (simp add: search_inv_def)
    show ?thesis
    proof (cases "x = g")
      case True
      then show ?thesis using pop ne g by (auto simp: search_result_def)
    next
      case False
      define djp where "djp = pm_distantJumpPointMap pm (m_row (m_mapNodes jp1 x), m_col (m_mapNodes jp1 x))"
      define ds where "ds = exploreDirections ! (unat (blockedDirectionBitfield djp) * 8 + dir_index (m_directionFromParent (m_mapNodes jp1 x)))"
      have "djp = pm_distantJumpPointMap pm x" unfolding djp_def using node_cell [OF pop(2), of x] by simp
      then have ex: "outcome tm (search_inv tm s g it (cl @ [x]) (Some x)) (jp_explore ds x djp jp1)"
        using explore_ok [OF tab pop(2)] by simp
      have run: "jp_searchOpen (Suc fuel) pm jp = (case jp_explore ds x djp jp1 of Inl e \<Rightarrow> Inl e
        | Inr jp2 \<Rightarrow> jp_searchOpen fuel pm (jp_close x jp2))"
        by (subst jp_searchOpen.simps, subst if_not_P [OF ne]) (simp add: pop(1) False g Let_def djp_def ds_def)
      show ?thesis
      proof (cases "jp_explore ds x djp jp1")
        case (Inl e)
        then show ?thesis using ex run by simp
      next
        case (Inr jp2)
        then have "search_inv tm s g it (cl @ [x]) None (jp_close x jp2)" using ex close_ok by simp
        from Suc.IH [OF this] show ?thesis using Suc.prems(2,3) False run Inr by simp
      qed
    qed
  qed
qed

section \<open>The path\<close>

lemma takeWhile_shorter:
  "p \<in> set (takeWhile (\<lambda>y. y \<noteq> x) ys) \<Longrightarrow> length (takeWhile (\<lambda>y. y \<noteq> p) ys) < length (takeWhile (\<lambda>y. y \<noteq> x) ys)"
proof (induction ys)
  case (Cons a ys)
  show ?case
  proof (cases "a = x")
    case True
    then show ?thesis using Cons.prems by simp
  next
    case False
    then show ?thesis using Cons by (cases "a = p") simp_all
  qed
qed simp

lemma before_shrinks:
  assumes "p \<in> before cl x"
  shows "length (takeWhile (\<lambda>y. y \<noteq> p) cl) < length (takeWhile (\<lambda>y. y \<noteq> x) cl)"
  using assms unfolding before_def by (rule takeWhile_shorter)

definition coord_of :: "cell \<Rightarrow> tile_coord" where
  "coord_of x = \<lparr>tc_x = snd x, tc_y = fst x\<rparr>"

lemma followParents_ok:
  assumes "search_inv tm s g it cl cur jp" and "x \<in> set cl" and "length (takeWhile (\<lambda>y. y \<noteq> x) cl) < fuel"
  shows "\<exists>path. jp_followParents fuel jp x acc = Inr (acc @ rev (map coord_of path)) \<and> chain tm s path
    \<and> last (s # path) = x \<and> (path = [] \<longleftrightarrow> x = s)"
  using assms(2,3)
proof (induction fuel arbitrary: x acc)
  case (Suc fuel)
  note I = assms(1) [unfolded search_inv_def]
  have c: "\<lparr>tc_x = m_col (m_mapNodes jp x), tc_y = m_row (m_mapNodes jp x)\<rparr> = coord_of x"
    unfolding coord_of_def using node_cell [OF assms(1) Suc.prems(1)] by (metis fst_conv snd_conv)
  show ?case
  proof (cases "x = s")
    case True
    then show ?thesis using I by (intro exI [of _ "[]"]) (simp add: Let_def)
  next
    case False
    then obtain p where p: "m_parent (m_mapNodes jp x) = Some p" "seg tm p x" "p \<in> before cl x"
      using I Suc.prems(1) by blast
    have "length (takeWhile (\<lambda>y. y \<noteq> p) cl) < fuel" using before_shrinks [OF p(3)] Suc.prems(2) by simp
    then obtain path where path: "jp_followParents fuel jp p (acc @ [coord_of x]) = Inr ((acc @ [coord_of x]) @ rev (map coord_of path))"
      "chain tm s path" "last (s # path) = p" "path = [] \<longleftrightarrow> p = s"
      using Suc.IH [of p "acc @ [coord_of x]"] p(3) before_subset by blast
    then have "jp_followParents (Suc fuel) jp x acc = Inr (acc @ rev (map coord_of (path @ [x])))"
      using p(1) c by (simp add: Let_def)
    moreover have "chain tm s (path @ [x])" using path(2,3) p(2) by (simp add: chain_snoc)
    ultimately show ?thesis using False by (intro exI [of _ "path @ [x]"]) simp
  qed
qed simp

section \<open>Whole searches\<close>

text \<open>The state between two searches: no node is marked with a search number still to come.\<close>

definition jp_idle :: "tile_map \<Rightarrow> jps_plus \<Rightarrow> bool" where
  "jp_idle tm jp \<longleftrightarrow> nodes_ok tm jp \<and> lists_ok jp
     \<and> (\<forall>x. unat (m_iteration (m_mapNodes jp x)) \<le> unat (m_currentIteration jp))"

lemma jp_new_idle: "tile_map_ok tm \<Longrightarrow> pm_sized tm pm \<Longrightarrow> jp_idle tm (jp_new pm)"
  by (auto simp: jp_idle_def nodes_ok_def lists_ok_def jp_new_def pm_sized_def in_grid_iff tile_map_ok_def map_data_ok_def
      fs_new_def uq_new_def intro!: i16_id)

lemma search_inv_idle: "search_inv tm s g it cl cur jp \<Longrightarrow> jp_idle tm jp \<and> m_currentIteration jp = it"
  by (simp add: search_inv_def jp_idle_def del: split_paired_All)

lemma begin_ok:
  assumes "jp_idle tm jp" and "unat (m_currentIteration jp) < 4294967295" and "in_grid tm s"
  shows "search_inv tm s g (m_currentIteration jp + 1) [s] (Some s) (jp_begin s g jp)"
proof -
  let ?it = "m_currentIteration jp + 1"
  have u: "unat ?it = unat (m_currentIteration jp) + 1"
    using assms(2) unat_u32_plus [of "m_currentIteration jp" 1] by simp
  have old: "\<forall>x. unat (m_iteration (m_mapNodes jp x)) < unat ?it"
    using assms(1) u by (simp add: jp_idle_def less_Suc_eq_le del: split_paired_All)
  then have old': "\<forall>x. m_iteration (m_mapNodes jp x) \<noteq> ?it" by (metis less_irrefl)
  have l: "lists_ok jp" "nodes_ok tm jp" using assms(1) by (auto simp: jp_idle_def)
  have op: "opened (jp_begin s g jp) = {#}"
    by (simp add: jp_begin_def Let_def fs_reset_def uq_reset_def)
  have n: "m_mapNodes (jp_begin s g jp) x = (if x = s then (m_mapNodes jp s)\<lparr>m_parent := None, m_givenCost := 0,
      m_finalCost := 0, m_listStatus := ON_OPEN, m_iteration := ?it\<rparr> else m_mapNodes jp x)" for x
    by (simp add: jp_begin_def Let_def)
  have c1: "nodes_ok tm (jp_begin s g jp)"
    using l(2) unfolding nodes_ok_def n by (simp add: jp_begin_def Let_def del: split_paired_All)
  have c2: "lists_ok (jp_begin s g jp)"
    using l(1) by (simp add: lists_ok_def jp_begin_def Let_def fs_reset_def uq_reset_def)
  show ?thesis
    unfolding search_inv_def op n using c1 c2 old old' assms(3)
    by (simp add: jp_begin_def Let_def less_imp_le del: split_paired_All)
qed

lemma searchLoop_ok:
  assumes "table_eqs tm (pm_distantJumpPointMap pm)" and "search_inv tm s g it [s] (Some s) jp" and "tile_count tm \<le> fuel"
  shows "outcome tm (search_result tm s g it) (jp_searchLoop fuel pm s jp)"
proof (cases "s = g")
  case True
  have "m_goalNode jp = g" using assms(2) by (simp add: search_inv_def)
  moreover have "search_result tm s g it (PATH_STATUS_PATH_FOUND, jp)"
    unfolding search_result_def using assms(2) True by auto
  ultimately show ?thesis using True by (simp add: jp_searchLoop_def)
next
  case False
  have g: "m_goalNode jp = g" using assms(2) by (simp add: search_inv_def)
  define djp where "djp = pm_distantJumpPointMap pm (m_row (m_mapNodes jp s), m_col (m_mapNodes jp s))"
  have "djp = pm_distantJumpPointMap pm s" unfolding djp_def using node_cell [OF assms(2), of s] by simp
  then have ex: "outcome tm (search_inv tm s g it [s] (Some s)) (jp_explore explore_AllDirections s djp jp)"
    using explore_ok [OF assms(1,2)] by simp
  have run: "jp_searchLoop fuel pm s jp = (case jp_explore explore_AllDirections s djp jp of Inl e \<Rightarrow> Inl e
    | Inr jp2 \<Rightarrow> jp_searchOpen fuel pm (jp_close s jp2))"
    using False g by (simp add: jp_searchLoop_def Let_def djp_def)
  show ?thesis
  proof (cases "jp_explore explore_AllDirections s djp jp")
    case (Inl e)
    then show ?thesis using ex run by simp
  next
    case (Inr jp2)
    then have "search_inv tm s g it [s] None (jp_close s jp2)" using ex close_ok by simp
    from searchOpen_ok [OF assms(1) this] show ?thesis using assms(3) False run Inr by simp
  qed
qed

lemma jp_fuel_count: "nodes_ok tm jp \<Longrightarrow> tile_map_ok tm \<Longrightarrow> jp_fuel jp = tile_count tm + 1"
  by (simp add: jp_fuel_def nodes_ok_def tile_count_def tile_map_ok_def map_data_ok_def nat_mult_distrib mult.commute)

text \<open>What a finished search says and leaves behind.\<close>

definition path_result ::
    "tile_map \<Rightarrow> tile_coord \<Rightarrow> tile_coord \<Rightarrow> u32 \<Rightarrow> bool \<times> tile_coord list \<times> precompute_map \<times> jps_plus \<Rightarrow> bool" where
  "path_result tm start goal it = (\<lambda>(found, path, pm, jp).
     (\<exists>cells. path = map coord_of cells \<and> chain tm (tc_y start, tc_x start) cells
        \<and> (found \<longrightarrow> last cells = (tc_y goal, tc_x goal)))
     \<and> (found \<longleftrightarrow> path \<noteq> []) \<and> (found \<or> start = goal \<or> m_iteration (m_mapNodes jp (tc_y goal, tc_x goal)) \<noteq> it)
     \<and> coherent tm pm \<and> jp_idle tm jp \<and> m_currentIteration jp = it)"

lemma getPath_ok:
  assumes coh: "coherent tm pm" and idle: "jp_idle tm jp" and fresh: "unat (m_currentIteration jp) < 4294967295"
    and s: "md_isValidTileCoord (tm_mapData tm) (tc_x start) (tc_y start)"
    and g: "md_isValidTileCoord (tm_mapData tm) (tc_x goal) (tc_y goal)"
  shows "outcome tm (path_result tm start goal (m_currentIteration jp + 1)) (jp_getPath tm start goal pm jp)"
proof -
  let ?s = "(tc_y start, tc_x start)" and ?g = "(tc_y goal, tc_x goal)" and ?it = "m_currentIteration jp + 1"
  let ?pm = "pm_calculateMap tm pm"
  have nk: "nodes_ok tm jp" and ok: "tile_map_ok tm" using idle coh by (auto simp: jp_idle_def coherent_def)
  have grid: "in_grid tm ?s" "in_grid tm ?g" using s g by (auto simp: in_grid_def)
  have at: "jp_nodeAt jp (tc_y start) (tc_x start) = Inr ?s" "jp_nodeAt jp (tc_y goal) (tc_x goal) = Inr ?g"
    using grid nk by (auto simp: jp_nodeAt_def in_grid_iff nodes_ok_def)
  note fuel = jp_fuel_count [OF nk ok]
  note coh' = calculateMap_coherent [OF coh]
  have loop: "outcome tm (search_result tm ?s ?g ?it) (jp_searchLoop (jp_fuel jp) ?pm ?s (jp_begin ?s ?g jp))"
    by (rule searchLoop_ok [OF coh'(3) begin_ok [OF idle fresh grid(1)]]) (simp add: fuel)
  show ?thesis
  proof (cases "jp_searchLoop (jp_fuel jp) ?pm ?s (jp_begin ?s ?g jp)")
    case (Inl e)
    then show ?thesis using loop at by (simp add: jp_getPath_def Let_def)
  next
    case (Inr r)
    obtain status jp1 where r: "r = (status, jp1)" by (cases r)
    from loop obtain cl cur where inv: "search_inv tm ?s ?g ?it cl cur jp1"
      and st: "status = PATH_STATUS_PATH_FOUND \<and> ?g \<in> set cl
        \<or> status = PATH_STATUS_NO_PATH_EXISTS \<and> m_iteration (m_mapNodes jp1 ?g) \<noteq> ?it"
      unfolding Inr r by (auto simp: search_result_def)
    show ?thesis
    proof (cases "status = PATH_STATUS_PATH_FOUND")
      case False
      then show ?thesis
        using Inr r at coh'(1) search_inv_idle [OF inv] st by (simp add: jp_getPath_def Let_def path_result_def)
    next
      case True
      then have gcl: "?g \<in> set cl" using st by simp
      have gn: "m_goalNode jp1 = ?g" using inv by (simp add: search_inv_def)
      have "length (takeWhile (\<lambda>y. y \<noteq> ?g) cl) < jp_fuel jp"
        using length_takeWhile_le [of "\<lambda>y. y \<noteq> ?g" cl] expanded_le [OF inv] fuel by simp
      from followParents_ok [OF inv gcl this, of "[]"] obtain cells where
        cells: "jp_followParents (jp_fuel jp) jp1 ?g [] = Inr (rev (map coord_of cells))" "chain tm ?s cells"
          "last (?s # cells) = ?g" by auto
      have "jp_finalizePath (jp_fuel jp) jp1 = Inr (map coord_of cells)"
        using cells(1) gn by (simp add: jp_finalizePath_def)
      then have "jp_getPath tm start goal pm jp = Inr (cells \<noteq> [], map coord_of cells, ?pm, jp1)"
        using Inr r True at by (simp add: jp_getPath_def Let_def)
      then show ?thesis
        using cells coh'(1) search_inv_idle [OF inv] by (auto simp: path_result_def split: if_splits)
    qed
  qed
qed

section \<open>Searches that succeed\<close>

text \<open>Once a node is reached in a search it stays reached.\<close>

abbreviation reached :: "jps_plus \<Rightarrow> cell \<Rightarrow> bool" where
  "reached jp x \<equiv> m_iteration (m_mapNodes jp x) = m_currentIteration jp"

lemma push_reaches:
  assumes "jp_pushNewNode x cur d cost jp = Inr jp'"
  shows "reached jp' x" and "reached jp y \<Longrightarrow> reached jp' y" and "m_currentIteration jp' = m_currentIteration jp"
  using assms by (auto simp: jp_pushNewNode_def Let_def split: if_splits sum.splits)

definition keeps :: "jps_plus \<Rightarrow> cell \<Rightarrow> jps_error + jps_plus \<Rightarrow> bool" where
  "keeps jp y r \<longleftrightarrow> (\<forall>jp'. r = Inr jp' \<longrightarrow> (reached jp y \<longrightarrow> reached jp' y) \<and> m_currentIteration jp' = m_currentIteration jp)"

lemma keeps_simps [simp]:
  "keeps jp y (Inr jp)" "keeps jp y (jp_pushNewNode x cur d c jp)" "keeps jp y (jp_pushAt r k cur d c jp)"
proof -
  show push: "keeps jp y (jp_pushNewNode x cur d c jp)" for x
    unfolding keeps_def using push_reaches(2,3) by blast
  show "keeps jp y (jp_pushAt r k cur d c jp)"
    using push by (cases "jp_nodeAt jp r k") (simp_all add: jp_pushAt_def keeps_def)
qed (simp add: keeps_def)

lemma search_keeps: "keeps jp y (jp_search d cur j jp)"
  by (cases d) (simp_all add: jp_searchDown_def jp_searchDownRight_def jp_searchRight_def jp_searchUpRight_def
      jp_searchUp_def jp_searchUpLeft_def jp_searchLeft_def jp_searchDownLeft_def Let_def)

lemma explore_keeps:
  "jp_explore ds cur djp jp = Inr jp' \<Longrightarrow> (reached jp y \<longrightarrow> reached jp' y) \<and> m_currentIteration jp' = m_currentIteration jp"
proof (induction ds arbitrary: jp)
  case (Cons d ds)
  then obtain jp1 where "jp_search d cur (jumpDistance djp d) jp = Inr jp1" "jp_explore ds cur djp jp1 = Inr jp'"
    by (auto split: sum.splits)
  then show ?case using search_keeps [of jp y d cur "jumpDistance djp d"] Cons.IH [of jp1] by (auto simp: keeps_def)
qed simp

lemma close_keeps [simp]: "m_iteration (m_mapNodes (jp_close n jp) x) = m_iteration (m_mapNodes jp x)"
  by (simp add: jp_close_def)

lemma popOpen_keeps: "jp_popOpen jp = Inr (x, jp') \<Longrightarrow> m_mapNodes jp' = m_mapNodes jp \<and> m_currentIteration jp' = m_currentIteration jp"
  by (auto simp: jp_popOpen_def split: if_splits sum.splits)

lemma searchOpen_keeps:
  "jp_searchOpen fuel pm jp = Inr (status, jp') \<Longrightarrow> reached jp y \<Longrightarrow> reached jp' y \<and> m_currentIteration jp' = m_currentIteration jp"
proof (induction fuel arbitrary: jp)
  case (Suc fuel)
  then show ?case
    using popOpen_keeps [of jp] explore_keeps [of _ _ _ _ _ y]
    by (fastforce simp: Let_def split: if_splits sum.splits)
qed simp

text \<open>A goal within the jump distance is reached by the search in its direction.\<close>

lemma search_sees_goal:
  assumes "m_row (m_mapNodes jp cur) = fst cur" and "m_col (m_mapNodes jp cur) = snd cur"
    and "m_goalNode jp = (m_goalRow jp, m_goalCol jp)" and "m_goalNode jp = walk d k cur" and "0 < k" and "k \<le> abs j"
    and "jp_search d cur j jp = Inr jp'"
  shows "reached jp' (m_goalNode jp)"
proof -
  have g: "m_goalRow jp = fst (walk d k cur)" "m_goalCol jp = snd (walk d k cur)"
    using assms(3,4) by (metis fst_conv, metis snd_conv)
  have at: "jp_pushAt (m_goalRow jp) (m_goalCol jp) cur d c jp = Inr jp' \<Longrightarrow> reached jp' (m_goalNode jp)" for c
    using push_reaches(1) assms(3) by (fastforce simp: jp_pushAt_def jp_nodeAt_def split: if_splits)
  have pn: "jp_pushNewNode (m_goalNode jp) cur d c jp = Inr jp' \<Longrightarrow> reached jp' (m_goalNode jp)" for c
    by (rule push_reaches(1))
  have "\<exists>c. jp_pushAt (m_goalRow jp) (m_goalCol jp) cur d c jp = Inr jp' \<or> jp_pushNewNode (m_goalNode jp) cur d c jp = Inr jp'"
    using assms(1,2,5-7) g
    by (cases d) (auto simp: walk_def jp_searchDown_def jp_searchDownRight_def jp_searchRight_def jp_searchUpRight_def
        jp_searchUp_def jp_searchUpLeft_def jp_searchLeft_def jp_searchDownLeft_def Let_def)
  then show ?thesis using at pn by blast
qed

lemma explore_sees_goal:
  assumes "table_eqs tm D" and "search_inv tm s g it cl (Some cur) jp" and "cur \<in> set cl" and "djp = D cur"
    and "d \<in> set ds" and "g = walk d k cur" and "0 < k" and "k \<le> abs (jumpDistance djp d)"
    and "jp_explore ds cur djp jp = Inr jp'"
  shows "m_iteration (m_mapNodes jp' g) = it"
  using assms(2,5,9)
proof (induction ds arbitrary: jp)
  case (Cons e ds)
  obtain jp1 where run: "jp_search e cur (jumpDistance djp e) jp = Inr jp1" "jp_explore ds cur djp jp1 = Inr jp'"
    using Cons.prems(3) by (auto split: sum.splits)
  have I: "nodes_ok tm jp" "in_grid tm cur" "m_goalNode jp = (m_goalRow jp, m_goalCol jp)" "m_goalNode jp = g"
    "m_currentIteration jp = it"
    using Cons.prems(1) assms(3) by (auto simp: search_inv_def simp del: split_paired_All)
  have rc: "m_row (m_mapNodes jp cur) = fst cur" "m_col (m_mapNodes jp cur) = snd cur"
    using I(1,2) by (simp_all add: nodes_ok_def del: split_paired_All)
  show ?case
  proof (cases "e = d")
    case True
    then have "reached jp1 g"
      using search_sees_goal [OF rc I(3), of d k "jumpDistance djp d" jp1] run(1) assms(6-8) I(4) by simp
    then show ?thesis
      using explore_keeps [OF run(2), of g] search_keeps [of jp g e cur "jumpDistance djp e"] run(1) I(5) by (simp add: keeps_def)
  next
    case False
    have "outcome tm (search_inv tm s g it cl (Some cur)) (jp_explore [e] cur djp jp)"
      by (rule explore_ok [OF assms(1) Cons.prems(1) assms(3,4)])
    then have "search_inv tm s g it cl (Some cur) jp1" using run(1) by simp
    from Cons.IH [OF this _ run(2)] show ?thesis using Cons.prems(2) False by simp
  qed
qed simp

lemma getPath_in_view:
  assumes coh: "coherent tm pm" and idle: "jp_idle tm jp" and fresh: "unat (m_currentIteration jp) < 4294967295"
    and s: "md_isValidTileCoord (tm_mapData tm) (tc_x start) (tc_y start)"
    and g: "md_isValidTileCoord (tm_mapData tm) (tc_x goal) (tc_y goal)"
    and goal: "(tc_y goal, tc_x goal) = walk d k (tc_y start, tc_x start)" "0 < k"
    and near: "k \<le> abs (jumpDistance (pm_distantJumpPointMap (pm_calculateMap tm pm) (tc_y start, tc_x start)) d)"
    and run: "jp_getPath tm start goal pm jp = Inr (found, path, pm', jp')"
  shows "m_iteration (m_mapNodes jp' (tc_y goal, tc_x goal)) = m_currentIteration jp + 1"
proof -
  let ?s = "(tc_y start, tc_x start)" and ?g = "(tc_y goal, tc_x goal)" and ?it = "m_currentIteration jp + 1"
  let ?pm = "pm_calculateMap tm pm" and ?jp = "jp_begin ?s ?g jp"
  have ne: "?g \<noteq> ?s" using goal walk_pos_neq by metis
  have gs: "in_grid tm ?s" using s by (simp add: in_grid_def)
  have inv: "search_inv tm ?s ?g ?it [?s] (Some ?s) ?jp" by (rule begin_ok [OF idle fresh gs])
  then have gn: "m_goalNode ?jp = ?g" "m_currentIteration ?jp = ?it" by (simp_all add: search_inv_def)
  obtain status where loop: "jp_searchLoop (jp_fuel jp) ?pm ?s ?jp = Inr (status, jp')"
    using run by (auto simp: jp_getPath_def jp_nodeAt_def Let_def split: if_splits sum.splits)
  define djp where "djp = pm_distantJumpPointMap ?pm (m_row (m_mapNodes ?jp ?s), m_col (m_mapNodes ?jp ?s))"
  have djp: "djp = pm_distantJumpPointMap ?pm ?s" unfolding djp_def using node_cell [OF inv, of ?s] by simp
  obtain jp1 where ex: "jp_explore explore_AllDirections ?s djp ?jp = Inr jp1"
    and rest: "jp_searchOpen (jp_fuel jp) ?pm (jp_close ?s jp1) = Inr (status, jp')"
    using loop ne gn(1) by (auto simp: jp_searchLoop_def Let_def djp_def split: sum.splits)
  have all: "d \<in> set explore_AllDirections" by (cases d) (simp_all add: explore_AllDirections_def)
  have "m_iteration (m_mapNodes jp1 ?g) = ?it"
    by (rule explore_sees_goal [OF calculateMap_coherent(3) [OF coh] inv _ djp all goal _ ex]) (use near djp in simp_all)
  then have "reached (jp_close ?s jp1) ?g" using explore_keeps [OF ex, of ?g] gn(2) by simp
  from searchOpen_keeps [OF rest this] show ?thesis using explore_keeps [OF ex, of ?g] gn(2) by simp
qed

section \<open>Properties\<close>

definition cell_of :: "tile_coord \<Rightarrow> cell" where
  "cell_of c = (tc_y c, tc_x c)"

lemma cell_of_coord_of [simp]: "cell_of (coord_of x) = x" "coord_of (cell_of c) = c"
  by (simp_all add: cell_of_def coord_of_def)

lemma chain_last_open: "chain tm p cells \<Longrightarrow> cells \<noteq> [] \<Longrightarrow> pm_isEmpty tm (last cells)"
proof (induction cells arbitrary: p)
  case (Cons q qs)
  show ?case
  proof (cases "qs = []")
    case True
    then show ?thesis using Cons.prems seg_target [of tm p q] by simp
  next
    case False
    then show ?thesis using Cons.IH [of q] Cons.prems by simp
  qed
qed simp

text \<open>
  C1: a search between two tiles of the map always ends, and it ends well. If it reports a path, the
  path leads to the goal, the goal is an open tile, and each leg, from the start on, is a straight or
  diagonal walk over open tiles that cuts no corner; otherwise the path is empty. The only other
  outcome is that one of the two open lists, of 1000 and 10000 entries, is full, which a map of at
  most 1000 tiles excludes; no other access leaves its array. The state is ready for the next search.
\<close>

theorem path_search_correct:
  assumes "coherent tm pm" and "jp_idle tm jp" and "unat (m_currentIteration jp) < 4294967295"
    and "md_isValidTileCoord (tm_mapData tm) (tc_x start) (tc_y start)"
    and "md_isValidTileCoord (tm_mapData tm) (tc_x goal) (tc_y goal)"
  shows "case jp_getPath tm start goal pm jp of
      Inl e \<Rightarrow> e \<in> {StackOverflow, QueueOverflow} \<and> 1000 < tile_count tm
    | Inr (found, path, pm', jp') \<Rightarrow>
        (if found then path \<noteq> [] \<and> last path = goal \<and> pm_isEmpty tm (cell_of goal) \<and> chain tm (cell_of start) (map cell_of path)
         else path = [])
        \<and> coherent tm pm' \<and> jp_idle tm jp' \<and> m_currentIteration jp' = m_currentIteration jp + 1"
proof (cases "jp_getPath tm start goal pm jp")
  case (Inl e)
  then show ?thesis using getPath_ok [OF assms] by auto
next
  case (Inr r)
  obtain found path pm' jp' where r: "r = (found, path, pm', jp')" by (cases r)
  obtain cells where cells: "path = map coord_of cells" "chain tm (cell_of start) cells" "found \<longrightarrow> last cells = cell_of goal"
    "found \<longleftrightarrow> path \<noteq> []" "coherent tm pm'" "jp_idle tm jp'" "m_currentIteration jp' = m_currentIteration jp + 1"
    using getPath_ok [OF assms] Inr r by (auto simp: path_result_def cell_of_def)
  have "map cell_of path = cells" by (simp add: cells(1) comp_def)
  moreover have "last path = goal" "pm_isEmpty tm (cell_of goal)" if found
    using that cells chain_last_open [OF cells(2)] by (auto simp: last_map)
  ultimately show ?thesis using cells by (auto simp: Inr r)
qed


lemma small_map_search:
  "coherent small_map (pm_new small_map)" "jp_idle small_map (jp_new (pm_new small_map))"
  "m_currentIteration (jp_new (pm_new small_map)) = 1" "tile_count small_map = 9"
proof -
  show "coherent small_map (pm_new small_map)" by (rule pm_new_coherent [OF small_map_ok])
  show "jp_idle small_map (jp_new (pm_new small_map))"
    by (rule jp_new_idle [OF small_map_ok]) (simp add: pm_sized_def pm_new_def)
qed (simp_all add: jp_new_def tile_count_def small_map_def)

theorem path_search_correct_witness:
  "\<exists>found path pm' jp'. jp_getPath small_map \<lparr>tc_x = 0, tc_y = 0\<rparr> \<lparr>tc_x = 2, tc_y = 2\<rparr> (pm_new small_map) (jp_new (pm_new small_map))
       = Inr (found, path, pm', jp')
     \<and> (found \<and> last path = \<lparr>tc_x = 2, tc_y = 2\<rparr> \<and> chain small_map (0, 0) (map cell_of path) \<or> path = [])"
proof -
  have v: "md_isValidTileCoord (tm_mapData small_map) (tc_x \<lparr>tc_x = i, tc_y = i\<rparr>) (tc_y \<lparr>tc_x = i, tc_y = i\<rparr>)" if "i = 0 \<or> i = 2" for i
    using that by (auto simp: small_map_def md_isValidTileCoord_def)
  show ?thesis
    using path_search_correct [OF small_map_search(1,2) _ v v, of 0 2] small_map_search(3,4)
    by (cases "jp_getPath small_map \<lparr>tc_x = 0, tc_y = 0\<rparr> \<lparr>tc_x = 2, tc_y = 2\<rparr> (pm_new small_map) (jp_new (pm_new small_map))")
       (auto simp: cell_of_def split: if_splits)
qed


end
