(* ===== verification/World_Session.thy ===== *)
theory World_Session
  imports Timers Queues "HOL-Library.Signed_Division"
begin

text \<open>
  A client's session, \<^verbatim>\<open>WorldSession.h\<close> and \<^verbatim>\<open>WorldSession.cpp\<close>, with the opcodes and the
  handler table of \<^verbatim>\<open>Opcode.h\<close> and \<^verbatim>\<open>OpcodeHandler.cpp\<close> and the entry points of
  \<^verbatim>\<open>WorldSocket.cpp\<close>. The socket is \<open>None\<close> after it was released and \<open>Some b\<close> otherwise, where
  \<open>b\<close> tells whether it is open. What a session sends is appended to \<open>ws_sent\<close>; the messages it
  sends itself are small, so packing them cannot fail. Player and theater are addresses. The
  packet handlers are a parameter \<open>run\<close> of the dispatch, except that the two handlers which touch
  only the session, its player and its theater pointer are modelled here. An assertion that fails,
  or a null pointer that is dereferenced, is an error value: the server ends there.
\<close>

section \<open>Opcodes and handlers\<close>

datatype opcode =
    MSG_NULL | SMSG_AUTH_CHALLENGE | CMSG_AUTH_PROOF | SMSG_AUTH_VERDICT | CMSG_PLAYER_LOGIN
  | CMSG_PLAYER_LOGOUT | SMSG_THEATER_INFO | CMSG_JOIN_THEATER | SMSG_WAIT_FOR_PLAYERS
  | SMSG_UPDATE_OBJECT | SMSG_DESTROY_OBJECT | CMSG_QUERY_CHARACTER_INFO | SMSG_CHARACTER_INFO
  | MSG_MOVE_START | MSG_MOVE_SYNC | MSG_MOVE_HEARTBEAT | MSG_MOVE_TURN | MSG_MOVE_STOP
  | CMSG_ATTACK | SMSG_LAUNCH_RESULT | MSG_CHARGE_START | MSG_CHARGE_STOP | MSG_STAMINA_SYNC
  | SMSG_MODIFY_STAMINA | SMSG_DEATH_MESSAGE | SMSG_TIME_SYNC_REQ | CMSG_TIME_SYNC_RESP
  | MSG_PING | MSG_PONG | CMSG_QUERY_WORLD_STATUS | SMSG_WORLD_STATUS
  | CMSG_QUERY_THEATER_STATUS_LIST | SMSG_THEATER_STATUS_LIST | CMSG_SMILEY_CHAT
  | CMSG_QUERY_PLAYER_STATUS_LIST | SMSG_PLAYER_STATUS_LIST | CMSG_GM_COMMAND | SMSG_TRANSPORT
  | SMSG_FLASH_MESSAGE | SMSG_PLAYER_ACTION_MESSAGE | SMSG_REWARD_MESSAGE | SMSG_BATTLE_UPDATE
  | SMSG_BATTLE_RESULT | SMSG_RELOCATE_LOCATOR | SMSG_ITEM_PICKUP_RESULT | CMSG_USE_ITEM
  | SMSG_ITEM_USE_RESULT | SMSG_ITEM_APPLICATION_UPDATE | SMSG_ITEM_APPLICATION_UPDATE_ALL
  | SMSG_ITEM_COOLDOWN_LIST | SMSG_ITEM_ACTION_MESSAGE

datatype session_status = STATUS_AUTHED | STATUS_LOGGEDIN

datatype opcode_handler =
    handlePlayerLogin | handlePlayerLogout | handleJoinTheater | handleQueryCharacterInfo
  | handleMovementInfo | handleAttackInfo | handleStaminaInfo | handleQueryWorldStatus
  | handleQueryTheaterStatusList | handleSmileyChat | handleQueryPlayerStatusList
  | handleGMCommand | handleUseItem

fun gOpcodeHandlerTable :: "opcode \<Rightarrow> (session_status \<times> opcode_handler) option" where
  "gOpcodeHandlerTable CMSG_PLAYER_LOGIN = Some (STATUS_AUTHED, handlePlayerLogin)"
| "gOpcodeHandlerTable CMSG_PLAYER_LOGOUT = Some (STATUS_LOGGEDIN, handlePlayerLogout)"
| "gOpcodeHandlerTable CMSG_JOIN_THEATER = Some (STATUS_AUTHED, handleJoinTheater)"
| "gOpcodeHandlerTable CMSG_QUERY_CHARACTER_INFO = Some (STATUS_LOGGEDIN, handleQueryCharacterInfo)"
| "gOpcodeHandlerTable MSG_MOVE_START = Some (STATUS_LOGGEDIN, handleMovementInfo)"
| "gOpcodeHandlerTable MSG_MOVE_SYNC = Some (STATUS_LOGGEDIN, handleMovementInfo)"
| "gOpcodeHandlerTable MSG_MOVE_HEARTBEAT = Some (STATUS_LOGGEDIN, handleMovementInfo)"
| "gOpcodeHandlerTable MSG_MOVE_TURN = Some (STATUS_LOGGEDIN, handleMovementInfo)"
| "gOpcodeHandlerTable MSG_MOVE_STOP = Some (STATUS_LOGGEDIN, handleMovementInfo)"
| "gOpcodeHandlerTable CMSG_ATTACK = Some (STATUS_LOGGEDIN, handleAttackInfo)"
| "gOpcodeHandlerTable MSG_CHARGE_START = Some (STATUS_LOGGEDIN, handleStaminaInfo)"
| "gOpcodeHandlerTable MSG_CHARGE_STOP = Some (STATUS_LOGGEDIN, handleStaminaInfo)"
| "gOpcodeHandlerTable MSG_STAMINA_SYNC = Some (STATUS_LOGGEDIN, handleStaminaInfo)"
| "gOpcodeHandlerTable CMSG_QUERY_WORLD_STATUS = Some (STATUS_LOGGEDIN, handleQueryWorldStatus)"
| "gOpcodeHandlerTable CMSG_QUERY_THEATER_STATUS_LIST = Some (STATUS_LOGGEDIN, handleQueryTheaterStatusList)"
| "gOpcodeHandlerTable CMSG_SMILEY_CHAT = Some (STATUS_LOGGEDIN, handleSmileyChat)"
| "gOpcodeHandlerTable CMSG_QUERY_PLAYER_STATUS_LIST = Some (STATUS_LOGGEDIN, handleQueryPlayerStatusList)"
| "gOpcodeHandlerTable CMSG_GM_COMMAND = Some (STATUS_LOGGEDIN, handleGMCommand)"
| "gOpcodeHandlerTable CMSG_USE_ITEM = Some (STATUS_LOGGEDIN, handleUseItem)"
| "gOpcodeHandlerTable _ = None"

section \<open>The session\<close>

definition REQUIRES_ALLOW_PLAYER_TO_RESTORE :: u32 where "REQUIRES_ALLOW_PLAYER_TO_RESTORE = 1"
definition SESSION_TIMEOUT_NEVER :: NSTime where "SESSION_TIMEOUT_NEVER = 0"
definition TIME_SYNC_INTERVAL :: NSTime where "TIME_SYNC_INTERVAL = 10000"

datatype auth_result = AUTH_OK | AUTH_WAIT_QUEUE | AUTH_SESSION_EXPIRED

record theater_info =
  ti_mapId :: u16
  ti_theaterId :: u32
  ti_combatGrade :: u8
  ti_safezoneCenter :: "int \<times> int"
  ti_safezoneRadius :: int
  ti_battleDuration :: NSTime
  ti_requestBattleEndAd :: bool
  ti_enableAppReviewMode :: bool

datatype session_message =
    AuthVerdict auth_result int u8 u32
  | TimeSyncReq int
  | TheaterInfo theater_info

datatype session_error = AssertionFailed | NullDereference

record latencies =
  LATENCY_LATEST :: NSTime
  LATENCY_AVG :: NSTime
  LATENCY_MIN :: NSTime
  LATENCY_MAX :: NSTime

type_synonym player_ref = nat
type_synonym theater_ref = nat

record 'body world_session =
  ws_sessionId :: u32
  ws_theater :: "theater_ref option"
  ws_socket :: "bool option"
  ws_recvQueue :: "(opcode \<times> 'body) concurrent_queue"
  ws_isInQueue :: bool
  ws_isLoggingOut :: bool
  ws_isLogoutAfterDisconnected :: bool
  ws_isAuthed :: bool
  ws_playerId :: string
  ws_originalPlayerId :: string
  ws_player :: "player_ref option"
  ws_gmLevel :: u8
  ws_requiredCapabilities :: u32
  ws_latencies :: latencies
  ws_totalLatency :: u32
  ws_latencyCounter :: u32
  ws_timeSyncTimer :: interval_timer
  ws_timeSyncClient :: int
  ws_timeSyncServer :: int
  ws_timeSyncCounter :: int
  ws_timeoutTimer :: NSTime
  ws_timeoutTime :: NSTime
  ws_sent :: "session_message list"

definition ws_new :: "'body world_session" where
  \<comment> \<open>for an open socket\<close>
  "ws_new = \<lparr>ws_sessionId = 0, ws_theater = None, ws_socket = Some True, ws_recvQueue = cq_new, ws_isInQueue = False,
     ws_isLoggingOut = False, ws_isLogoutAfterDisconnected = False, ws_isAuthed = False, ws_playerId = [],
     ws_originalPlayerId = [], ws_player = None, ws_gmLevel = 0, ws_requiredCapabilities = 0,
     ws_latencies = \<lparr>LATENCY_LATEST = 0, LATENCY_AVG = 0, LATENCY_MIN = 0, LATENCY_MAX = 0\<rparr>,
     ws_totalLatency = 0, ws_latencyCounter = 0, ws_timeSyncTimer = interval_new False, ws_timeSyncClient = 0,
     ws_timeSyncServer = 0, ws_timeSyncCounter = 0, ws_timeoutTimer = 0, ws_timeoutTime = SESSION_TIMEOUT_NEVER,
     ws_sent = []\<rparr>"

definition ws_isConnected :: "'body world_session \<Rightarrow> bool" where
  "ws_isConnected s = (ws_socket s = Some True)"

definition ws_hasGMPermission :: "'body world_session \<Rightarrow> bool" where
  "ws_hasGMPermission s = (ws_gmLevel s > 0)"

definition ws_isRequiresCapability :: "u32 \<Rightarrow> 'body world_session \<Rightarrow> bool" where
  "ws_isRequiresCapability capability s = (and (ws_requiredCapabilities s) capability \<noteq> 0)"

definition ws_addToRecvQueue :: "opcode \<times> 'body \<Rightarrow> 'body world_session \<Rightarrow> 'body world_session" where
  "ws_addToRecvQueue newPacket s = s\<lparr>ws_recvQueue := cq_add newPacket (ws_recvQueue s)\<rparr>"

definition ws_packAndSend :: "session_message \<Rightarrow> 'body world_session \<Rightarrow> 'body world_session" where
  "ws_packAndSend message s =
     (if \<not> ws_isConnected s then s else s\<lparr>ws_sent := ws_sent s @ [message]\<rparr>)"

definition ws_kickPlayer :: "'body world_session \<Rightarrow> 'body world_session" where
  "ws_kickPlayer s =
     (if ws_isLoggingOut s then s
      else s\<lparr>ws_socket := map_option (\<lambda>_. False) (ws_socket s), ws_isLoggingOut := True\<rparr>)"

section \<open>Timeout\<close>

definition ws_resetTimeoutTimer :: "'body world_session \<Rightarrow> 'body world_session" where
  "ws_resetTimeoutTimer s = s\<lparr>ws_timeoutTimer := ws_timeoutTime s\<rparr>"

definition ws_setTimeout :: "NSTime \<Rightarrow> 'body world_session \<Rightarrow> 'body world_session" where
  "ws_setTimeout time s = ws_resetTimeoutTimer (s\<lparr>ws_timeoutTime := time\<rparr>)"

definition ws_updateTimeoutTimer :: "NSTime \<Rightarrow> 'body world_session \<Rightarrow> 'body world_session" where
  "ws_updateTimeoutTimer diff s =
     (if ws_timeoutTimer s \<le> 0 then s else s\<lparr>ws_timeoutTimer := i32 (ws_timeoutTimer s - diff)\<rparr>)"

definition ws_isSessionTimedOut :: "'body world_session \<Rightarrow> bool" where
  "ws_isSessionTimedOut s = (ws_timeoutTime s > 0 \<and> ws_timeoutTimer s \<le> 0)"

section \<open>Latency\<close>

definition ws_setLatency :: "NSTime \<Rightarrow> 'body world_session \<Rightarrow> 'body world_session" where
  "ws_setLatency latency s =
     (let l = ws_latencies s;
          l1 = l\<lparr>LATENCY_LATEST := latency,
                 LATENCY_MIN := (if LATENCY_MIN l > 0 then min latency (LATENCY_MIN l) else latency),
                 LATENCY_MAX := max latency (LATENCY_MAX l)\<rparr>
      in s\<lparr>ws_latencies := l1, ws_totalLatency := ws_totalLatency s + of_int latency,
           ws_latencyCounter := ws_latencyCounter s + 1\<rparr>)"

definition ws_updateAvgLatency :: "'body world_session \<Rightarrow> 'body world_session" where
  "ws_updateAvgLatency s =
     (if ws_latencyCounter s = 0 then s
      else
        let l = ws_latencies s;
            avg = i32 (uint (ws_totalLatency s div ws_latencyCounter s));
            avg1 = (if LATENCY_AVG l > 0 then i32 (LATENCY_AVG l + avg) sdiv 2 else avg)
        in s\<lparr>ws_latencies := l\<lparr>LATENCY_AVG := avg1\<rparr>, ws_latencyCounter := 0, ws_totalLatency := 0\<rparr>)"

section \<open>Clock synchronisation\<close>

definition ws_resetTimeSync :: "'body world_session \<Rightarrow> 'body world_session" where
  "ws_resetTimeSync s =
     s\<lparr>ws_timeSyncTimer := interval_setInterval TIME_SYNC_INTERVAL (ws_timeSyncTimer s),
       ws_timeSyncClient := 0, ws_timeSyncServer := 0, ws_timeSyncCounter := 0\<rparr>"

definition ws_sendTimeSync :: "int \<Rightarrow> 'body world_session \<Rightarrow> 'body world_session" where
  \<comment> \<open>\<open>now\<close> is the value of \<^verbatim>\<open>getUptimeMillis()\<close>\<close>
  "ws_sendTimeSync now s =
     (let s1 = s\<lparr>ws_timeSyncServer := now, ws_timeSyncCounter := i32 (ws_timeSyncCounter s + 1)\<rparr>
      in ws_packAndSend (TimeSyncReq (ws_timeSyncCounter s1)) s1)"

definition ws_updateClientTime :: "int \<Rightarrow> int \<Rightarrow> int \<Rightarrow> 'body world_session \<Rightarrow> 'body world_session" where
  "ws_updateClientTime now counter time s =
     (if counter \<noteq> ws_timeSyncCounter s then s
      else
        let latency = i32 (now - ws_timeSyncServer s);
            clientTime = i32 (time + latency sdiv 2)
        in s\<lparr>ws_timeSyncClient := now - clientTime\<rparr>)"

definition ws_getClientNowTimeMillis :: "int \<Rightarrow> 'body world_session \<Rightarrow> NSTime" where
  "ws_getClientNowTimeMillis now s = i32 (now - ws_timeSyncClient s)"

section \<open>Verdicts of the theater manager\<close>

definition ws_sendAuthVerdict :: "auth_result \<Rightarrow> int \<Rightarrow> 'body world_session \<Rightarrow> 'body world_session" where
  "ws_sendAuthVerdict r waitPos s = ws_packAndSend (AuthVerdict r waitPos (ws_gmLevel s) (ws_sessionId s)) s"

definition ws_onSessionAccepted :: "int \<Rightarrow> 'body world_session \<Rightarrow> 'body world_session" where
  "ws_onSessionAccepted now s =
     (let s1 = s\<lparr>ws_isInQueue := False, ws_isAuthed := True,
                 ws_isLogoutAfterDisconnected := \<not> ws_isRequiresCapability REQUIRES_ALLOW_PLAYER_TO_RESTORE s\<rparr>
      in ws_sendAuthVerdict AUTH_OK 0 (ws_sendTimeSync now (ws_resetTimeSync s1)))"

definition ws_onSessionRestored ::
    "int \<Rightarrow> 'body world_session \<Rightarrow> 'body world_session \<Rightarrow> 'body world_session \<times> 'body world_session" where
  \<comment> \<open>\<^verbatim>\<open>onSessionAccepted(oldSession)\<close>; returns the new and the old session, whose players are swapped\<close>
  "ws_onSessionRestored now s old =
     (let s1 = s\<lparr>ws_player := ws_player old, ws_theater := ws_theater old,
                 ws_latencyCounter := ws_latencyCounter old, ws_totalLatency := ws_totalLatency old,
                 ws_latencies := ws_latencies old, ws_playerId := ws_playerId old,
                 ws_originalPlayerId := ws_originalPlayerId old, ws_gmLevel := ws_gmLevel old\<rparr>;
          s2 = (ws_setTimeout (ws_timeoutTime old) s1)\<lparr>ws_requiredCapabilities := ws_requiredCapabilities old\<rparr>
      in (ws_onSessionAccepted now s2, old\<lparr>ws_player := ws_player s\<rparr>))"

definition ws_onSessionExpired :: "'body world_session \<Rightarrow> 'body world_session" where
  "ws_onSessionExpired s = ws_sendAuthVerdict AUTH_SESSION_EXPIRED 0 s"

definition ws_onSessionQueued :: "int \<Rightarrow> 'body world_session \<Rightarrow> 'body world_session" where
  "ws_onSessionQueued position s = ws_sendAuthVerdict AUTH_WAIT_QUEUE position (s\<lparr>ws_isInQueue := True\<rparr>)"

definition ws_onSessionAcceptedByTheater :: "theater_ref \<Rightarrow> theater_info \<Rightarrow> 'body world_session \<Rightarrow> 'body world_session" where
  \<comment> \<open>\<open>info\<close> is the message \<^verbatim>\<open>sendTheaterInfo\<close> builds from the theater's map\<close>
  "ws_onSessionAcceptedByTheater t info s = ws_packAndSend (TheaterInfo info) (s\<lparr>ws_theater := Some t\<rparr>)"

section \<open>Dispatch and update\<close>

text \<open>
  The player, the theaters and the maps are outside of the session; they are the type \<open>'w\<close>, and what a
  session does with them when its player leaves is a record of operations.
\<close>

record 'w session_env =
  se_cleanupBeforeDelete :: "player_ref \<Rightarrow> 'w \<Rightarrow> 'w"
  se_removePlayerFromQueue :: "theater_ref \<Rightarrow> player_ref \<Rightarrow> 'w \<Rightarrow> 'w"
  se_removeSession :: "theater_ref \<Rightarrow> u32 \<Rightarrow> 'w \<Rightarrow> bool \<times> 'w"
  se_removePlayerFromMap :: "player_ref \<Rightarrow> 'w \<Rightarrow> 'w"

type_synonym ('body, 'w) session_step = "'body world_session \<times> 'w \<Rightarrow> session_error + 'body world_session \<times> 'w"

definition ws_logoutPlayer :: "'w session_env \<Rightarrow> ('body, 'w) session_step" where
  "ws_logoutPlayer env sw =
     (let (s, w) = sw in
      case ws_player s of
        None \<Rightarrow> Inr (s, w)
      | Some p \<Rightarrow>
          let s1 = ws_updateAvgLatency s;
              w1 = se_cleanupBeforeDelete env p w;
              (removed, w2) =
                (case ws_theater s1 of
                   None \<Rightarrow> (True, w1)
                 | Some t \<Rightarrow> se_removeSession env t (ws_sessionId s1) (se_removePlayerFromQueue env t p w1))
          in if \<not> removed then Inl AssertionFailed
             else Inr (s1\<lparr>ws_player := None\<rparr>, se_removePlayerFromMap env p w2))"

definition ws_handlePlayerLogout :: "'w session_env \<Rightarrow> ('body, 'w) session_step" where
  "ws_handlePlayerLogout env sw = (case ws_player (fst sw) of None \<Rightarrow> Inr sw | Some p \<Rightarrow> ws_logoutPlayer env sw)"

definition ws_handleJoinTheater ::
    "(theater_ref \<Rightarrow> player_ref \<Rightarrow> ('body, 'w) session_step) \<Rightarrow> ('body, 'w) session_step" where
  \<comment> \<open>\<open>join\<close> is the work on theater and player once both are there\<close>
  "ws_handleJoinTheater join sw =
     (case ws_theater (fst sw) of
        None \<Rightarrow> Inl AssertionFailed
      | Some t \<Rightarrow> (case ws_player (fst sw) of None \<Rightarrow> Inl NullDereference | Some p \<Rightarrow> join t p sw))"

definition ws_allowed :: "session_status \<Rightarrow> 'body world_session \<Rightarrow> bool" where
  "ws_allowed st s = (case st of STATUS_AUTHED \<Rightarrow> ws_isAuthed s | STATUS_LOGGEDIN \<Rightarrow> ws_player s \<noteq> None)"

type_synonym ('body, 'w) handlers = "opcode_handler \<Rightarrow> 'body \<Rightarrow> ('body, 'w) session_step"

definition ws_dispatch :: "('body, 'w) handlers \<Rightarrow> opcode \<times> 'body \<Rightarrow> ('body, 'w) session_step" where
  \<comment> \<open>a \<^verbatim>\<open>PacketException\<close> ends the handler only, so it is one of the ways \<open>run\<close> may return\<close>
  "ws_dispatch run packet sw =
     (case gOpcodeHandlerTable (fst packet) of
        None \<Rightarrow> Inr sw
      | Some (st, handler) \<Rightarrow> if ws_allowed st (fst sw) then run handler (snd packet) sw else Inr sw)"

fun ws_dispatchAll :: "('body, 'w) handlers \<Rightarrow> (opcode \<times> 'body) list \<Rightarrow> ('body, 'w) session_step" where
  "ws_dispatchAll run [] sw = Inr sw"
| "ws_dispatchAll run (p # ps) sw =
     (case ws_dispatch run p sw of Inl e \<Rightarrow> Inl e | Inr sw1 \<Rightarrow> ws_dispatchAll run ps sw1)"

definition ws_checkTimeout :: "NSTime \<Rightarrow> 'body world_session \<Rightarrow> 'body world_session" where
  "ws_checkTimeout diff s =
     (let s1 = ws_updateTimeoutTimer diff s in if ws_isSessionTimedOut s1 then ws_kickPlayer s1 else s1)"

definition ws_finishUpdate ::
    "'w session_env \<Rightarrow> int \<Rightarrow> NSTime \<Rightarrow> 'body world_session \<times> 'w \<Rightarrow> session_error + bool \<times> 'body world_session \<times> 'w" where
  "ws_finishUpdate env now diff sw =
     (let (s, w) = sw in
      if \<not> ws_isConnected s then
        (if ws_player s = None \<or> ws_isLoggingOut s \<or> ws_isLogoutAfterDisconnected s
         then (case ws_logoutPlayer env (s\<lparr>ws_socket := None\<rparr>, w) of Inl e \<Rightarrow> Inl e | Inr sw1 \<Rightarrow> Inr (False, sw1))
         else Inr (True, s, w))
      else if ws_player s \<noteq> None then
        (let s1 = s\<lparr>ws_timeSyncTimer := interval_update diff (ws_timeSyncTimer s)\<rparr>
         in if interval_passed (ws_timeSyncTimer s1)
            then (let s2 = ws_sendTimeSync now s1
                  in Inr (True, s2\<lparr>ws_timeSyncTimer := interval_reset (ws_timeSyncTimer s2)\<rparr>, w))
            else Inr (True, s1, w))
      else Inr (True, s, w))"

definition ws_update ::
    "('body, 'w) handlers \<Rightarrow> 'w session_env \<Rightarrow> int \<Rightarrow> NSTime \<Rightarrow> 'body world_session \<times> 'w \<Rightarrow>
     session_error + bool \<times> 'body world_session \<times> 'w" where
  "ws_update run env now diff sw =
     (let s1 = ws_checkTimeout diff (fst sw)
      in case ws_dispatchAll run (cq_container (ws_recvQueue s1)) (s1\<lparr>ws_recvQueue := cq_clear (ws_recvQueue s1)\<rparr>, snd sw) of
           Inl e \<Rightarrow> Inl e
         | Inr sw2 \<Rightarrow> ws_finishUpdate env now diff sw2)"

section \<open>Messages handled by the socket thread\<close>

text \<open>
  \<^verbatim>\<open>WorldSocket::onReceivedData\<close> answers three messages at once and queues the others. The
  fields of a message are arguments here, as protobuf decodes them. The session pointer of the
  socket is \<open>None\<close> before the authentication and after the socket was closed.
\<close>

definition wk_handleAuthProof ::
    "string \<Rightarrow> u32 \<Rightarrow> u32 \<Rightarrow> string \<Rightarrow> string \<Rightarrow> 'body world_session" where
  \<comment> \<open>the session it creates and hands to the theater manager\<close>
  "wk_handleAuthProof credentials sessionId requiredCapabilities playerId originalPlayerId =
     (let gmLevel = (if credentials = ''GM'' then 1 else 0);
          s = ws_new\<lparr>ws_playerId := playerId, ws_originalPlayerId := originalPlayerId\<rparr>;
          s1 = (if sessionId > 0 then s\<lparr>ws_sessionId := sessionId\<rparr> else s)
      in s1\<lparr>ws_gmLevel := gmLevel, ws_requiredCapabilities := requiredCapabilities\<rparr>)"

definition wk_handlePing :: "NSTime \<Rightarrow> 'body world_session option \<Rightarrow> 'body world_session option" where
  \<comment> \<open>without the pong, which the socket sends itself\<close>
  "wk_handlePing latency session =
     map_option (\<lambda>s. let s1 = ws_resetTimeoutTimer s in if latency > 0 then ws_setLatency latency s1 else s1) session"

definition wk_handleTimeSyncResp :: "int \<Rightarrow> int \<Rightarrow> int \<Rightarrow> 'body world_session option \<Rightarrow> 'body world_session option" where
  "wk_handleTimeSyncResp now counter time session = map_option (ws_updateClientTime now counter time) session"

section \<open>Timeouts\<close>

lemma timeout_run:
  assumes "list_all (\<lambda>d. 0 \<le> d \<and> d \<le> 2147483647) ds" and "ws_timeoutTimer s \<le> 2147483647" and "0 < ws_timeoutTimer s"
  shows "ws_timeoutTimer (fold ws_updateTimeoutTimer ds s) \<le> 0 \<longleftrightarrow> ws_timeoutTimer s \<le> sum_list ds"
  using assms
proof (induction ds arbitrary: s)
  case (Cons d ds)
  have nonneg: "0 \<le> sum_list ds" using Cons.prems(1) by (auto simp: list_all_iff intro!: sum_list_nonneg)
  have step: "ws_timeoutTimer (ws_updateTimeoutTimer d s) = ws_timeoutTimer s - d"
    using Cons.prems i32_id [of "ws_timeoutTimer s - d"] by (simp add: ws_updateTimeoutTimer_def int32_range_def)
  show ?case
  proof (cases "d < ws_timeoutTimer s")
    case True
    then show ?thesis using Cons.IH [of "ws_updateTimeoutTimer d s"] Cons.prems by (simp add: step algebra_simps)
  next
    case False
    then have "ws_timeoutTimer (ws_updateTimeoutTimer d s) \<le> 0" by (simp add: step)
    then have "ws_timeoutTimer (fold ws_updateTimeoutTimer ds (ws_updateTimeoutTimer d s)) \<le> 0"
      by (rule fold_invariant [where P = "\<lambda>s. ws_timeoutTimer s \<le> 0"]) (simp add: ws_updateTimeoutTimer_def)
    then show ?thesis using False nonneg by simp
  qed
qed simp

lemma timeout_time_kept: "ws_timeoutTime (fold ws_updateTimeoutTimer ds s) = ws_timeoutTime s"
  by (rule fold_invariant [where P = "\<lambda>s'. ws_timeoutTime s' = ws_timeoutTime s"]) (simp_all add: ws_updateTimeoutTimer_def)

text \<open>
  A session times out exactly when the time since its timer was set adds up to the timeout,
  whatever the length of the single updates; the timeout \<^verbatim>\<open>SESSION_TIMEOUT_NEVER\<close> never expires.
\<close>

theorem session_timeout_exact:
  assumes "0 \<le> time" and "time \<le> 2147483647" and "list_all (\<lambda>d. 0 \<le> d \<and> d \<le> 2147483647) ds"
  shows "ws_isSessionTimedOut (fold ws_updateTimeoutTimer ds (ws_setTimeout time s))
    \<longleftrightarrow> time \<noteq> SESSION_TIMEOUT_NEVER \<and> time \<le> sum_list ds"
  using assms timeout_run [of ds "ws_setTimeout time s"]
  by (auto simp: ws_isSessionTimedOut_def timeout_time_kept ws_setTimeout_def ws_resetTimeoutTimer_def SESSION_TIMEOUT_NEVER_def)

theorem session_timeout_exact_witness:
  "ws_isSessionTimedOut (fold ws_updateTimeoutTimer [20000, 39999, 1] (ws_setTimeout 60000 (ws_new :: unit world_session)))
   \<and> \<not> ws_isSessionTimedOut (fold ws_updateTimeoutTimer [20000, 39999] (ws_setTimeout 60000 (ws_new :: unit world_session)))"
  using session_timeout_exact [of 60000 "[20000, 39999, 1]" ws_new] session_timeout_exact [of 60000 "[20000, 39999]" ws_new]
  by (simp add: SESSION_TIMEOUT_NEVER_def)

section \<open>The end of a session\<close>

definition ws_closing :: "'body world_session \<Rightarrow> bool" where
  "ws_closing s \<longleftrightarrow> ws_isLoggingOut s \<and> \<not> ws_isConnected s"

definition ws_ok :: "'body world_session \<Rightarrow> bool" where
  \<comment> \<open>a session that is logging out has closed its socket\<close>
  "ws_ok s \<longleftrightarrow> (ws_isLoggingOut s \<longrightarrow> \<not> ws_isConnected s)"

lemma kick_closes: "ws_ok s \<Longrightarrow> ws_closing (ws_kickPlayer s)"
  by (cases "ws_socket s") (auto simp: ws_kickPlayer_def ws_closing_def ws_ok_def ws_isConnected_def)

lemma updateAvgLatency_frame [simp]:
  "ws_player (ws_updateAvgLatency s) = ws_player s" "ws_socket (ws_updateAvgLatency s) = ws_socket s"
  "ws_isLoggingOut (ws_updateAvgLatency s) = ws_isLoggingOut s" "ws_theater (ws_updateAvgLatency s) = ws_theater s"
  by (simp_all add: ws_updateAvgLatency_def Let_def)

lemma logout_frame:
  "ws_logoutPlayer env (s, w) = Inr (s', w') \<Longrightarrow> ws_player s' = None \<and> ws_socket s' = ws_socket s \<and> ws_isLoggingOut s' = ws_isLoggingOut s"
  by (auto simp: ws_logoutPlayer_def Let_def split: option.splits prod.splits if_splits)

lemma dispatch_cases:
  assumes "ws_dispatch run p sw = Inr sw'"
  obtains "sw' = sw" | h b where "run h b sw = Inr sw'"
proof (cases "gOpcodeHandlerTable (fst p)")
  case None
  then show ?thesis using assms that(1) by (simp add: ws_dispatch_def)
next
  case (Some e)
  show ?thesis
  proof (cases "ws_allowed (fst e) (fst sw)")
    case True
    then have "run (snd e) (snd p) sw = Inr sw'" using assms Some by (simp add: ws_dispatch_def case_prod_beta)
    then show ?thesis by (rule that(2))
  next
    case False
    then have "sw' = sw" using assms Some by (simp add: ws_dispatch_def case_prod_beta)
    then show ?thesis by (rule that(1))
  qed
qed

lemma dispatchAll_invariant:
  assumes "\<And>h b sw sw'. run h b sw = Inr sw' \<Longrightarrow> P sw \<Longrightarrow> P sw'" and "P sw" and "ws_dispatchAll run ps sw = Inr sw'"
  shows "P sw'"
  using assms(2,3)
proof (induction ps arbitrary: sw)
  case (Cons p ps)
  then obtain sw1 where s1: "ws_dispatch run p sw = Inr sw1" "ws_dispatchAll run ps sw1 = Inr sw'" by (auto split: sum.splits)
  from s1(1) have "P sw1"
  proof (cases rule: dispatch_cases)
    case 1
    then show ?thesis using Cons.prems(1) by simp
  next
    case (2 h b)
    then show ?thesis by (rule assms(1)) (rule Cons.prems(1))
  qed
  then show ?case using Cons.IH s1(2) by blast
qed simp

text \<open>
  C19: a session that times out is kicked and dropped in the same update: if no handler brings the
  server down or reopens a closed connection, the update says that the session is over, its player
  is logged out and its socket released.
\<close>

theorem timed_out_session_dropped:
  assumes "ws_ok s" and "ws_isSessionTimedOut (ws_updateTimeoutTimer diff s)"
    and "\<And>h b t t'. run h b t = Inr t' \<Longrightarrow> ws_closing (fst t) \<Longrightarrow> ws_closing (fst t')"
    and "ws_update run env now diff (s, w) = Inr (alive, s', w')"
  shows "\<not> alive \<and> ws_player s' = None \<and> ws_socket s' = None"
proof -
  let ?s = "ws_updateTimeoutTimer diff s"
  let ?t = "(ws_checkTimeout diff s)\<lparr>ws_recvQueue := cq_clear (ws_recvQueue (ws_checkTimeout diff s))\<rparr>"
  have "ws_ok ?s" using assms(1) by (simp add: ws_ok_def ws_isConnected_def ws_updateTimeoutTimer_def)
  then have "ws_closing (ws_checkTimeout diff s)"
    using assms(2) kick_closes by (simp add: ws_checkTimeout_def)
  then have c: "ws_closing (fst (?t, w))"
    by (simp add: ws_closing_def ws_isConnected_def)
  obtain s2 w2 where run: "ws_dispatchAll run (cq_container (ws_recvQueue (ws_checkTimeout diff s))) (?t, w) = Inr (s2, w2)"
    and fin: "ws_finishUpdate env now diff (s2, w2) = Inr (alive, s', w')"
    using assms(4) by (auto simp: ws_update_def Let_def split: sum.splits)
  have "ws_closing s2" using dispatchAll_invariant [where P = "\<lambda>sw. ws_closing (fst sw)", OF assms(3) c run] by simp
  then show ?thesis using fin by (auto simp: ws_finishUpdate_def ws_closing_def split: sum.splits dest!: logout_frame)
qed

definition quiet_env :: "'w session_env" where
  "quiet_env = \<lparr>se_cleanupBeforeDelete = (\<lambda>_ w. w), se_removePlayerFromQueue = (\<lambda>_ _ w. w),
     se_removeSession = (\<lambda>_ _ w. (True, w)), se_removePlayerFromMap = (\<lambda>_ w. w)\<rparr>"

theorem timed_out_session_dropped_witness:
  "\<exists>s' w'. ws_update (\<lambda>h b. ws_handlePlayerLogout quiet_env) quiet_env 0 60000
     ((ws_setTimeout 60000 (ws_new :: unit world_session))\<lparr>ws_player := Some 7\<rparr>, ()) = Inr (False, s', w') \<and> ws_player s' = None"
proof -
  let ?s = "(ws_setTimeout 60000 (ws_new :: unit world_session))\<lparr>ws_player := Some 7\<rparr>"
  let ?run = "(\<lambda>h b. ws_handlePlayerLogout quiet_env) :: (unit, unit) handlers"
  have c: "ws_closing (fst t')" if "?run h b t = Inr t'" "ws_closing (fst t)" for h b t t'
    using that by (cases t; cases t') (auto simp: ws_handlePlayerLogout_def ws_closing_def ws_isConnected_def dest: logout_frame split: option.splits)
  have "\<exists>r. ws_update ?run quiet_env 0 60000 (?s, ()) = Inr r"
    by (auto simp: ws_update_def ws_checkTimeout_def ws_setTimeout_def ws_resetTimeoutTimer_def ws_updateTimeoutTimer_def
        ws_isSessionTimedOut_def ws_kickPlayer_def ws_new_def cq_new_def Let_def ws_finishUpdate_def ws_isConnected_def i32_def
        ws_logoutPlayer_def ws_updateAvgLatency_def)
  then obtain alive s' w' where u: "ws_update ?run quiet_env 0 60000 (?s, ()) = Inr (alive, s', w')" by auto
  have "\<not> alive \<and> ws_player s' = None \<and> ws_socket s' = None"
    by (rule timed_out_session_dropped [OF _ _ c u])
       (simp_all add: ws_ok_def ws_setTimeout_def ws_resetTimeoutTimer_def ws_updateTimeoutTimer_def ws_isSessionTimedOut_def ws_new_def i32_def)
  then show ?thesis using u by simp
qed

section \<open>Guards of the handlers\<close>

fun handler_status :: "opcode_handler \<Rightarrow> session_status" where
  "handler_status handlePlayerLogin = STATUS_AUTHED"
| "handler_status handleJoinTheater = STATUS_AUTHED"
| "handler_status _ = STATUS_LOGGEDIN"

lemma table_status: "gOpcodeHandlerTable op = Some (st, h) \<Longrightarrow> handler_status h = st"
  by (cases op) auto

definition guarded :: "('body, 'w) handlers \<Rightarrow> ('body, 'w) handlers" where
  \<comment> \<open>handlers that bring the server down when they are called on a session without the status they need\<close>
  "guarded run h b sw = (if ws_allowed (handler_status h) (fst sw) then run h b sw else Inl AssertionFailed)"


text \<open>
  C23: a client that was accepted but never logged in brings the server down with one message. The
  handler for joining a theater only requires the session to be authenticated, and it asserts that
  the session has a theater.
\<close>

theorem join_before_login_asserts:
  assumes "ws_theater s = None" and "cq_container (ws_recvQueue s) = (CMSG_JOIN_THEATER, b) # ps"
    and "\<And>b t. run handleJoinTheater b t = ws_handleJoinTheater join t"
  shows "ws_update run env now diff (ws_onSessionAccepted now s, w) = Inl AssertionFailed"
proof -
  let ?s = "ws_checkTimeout diff (ws_onSessionAccepted now s)"
  have "ws_theater ?s = None" "ws_isAuthed ?s" "ws_recvQueue ?s = ws_recvQueue s"
    using assms(1) by (simp_all add: ws_checkTimeout_def ws_updateTimeoutTimer_def ws_kickPlayer_def ws_onSessionAccepted_def
        ws_sendAuthVerdict_def ws_packAndSend_def ws_sendTimeSync_def ws_resetTimeSync_def Let_def)
  then show ?thesis
    using assms(2,3) by (simp add: ws_update_def Let_def ws_dispatch_def ws_allowed_def ws_handleJoinTheater_def)
qed

theorem join_before_login_asserts_witness:
  "ws_update (\<lambda>h b. ws_handleJoinTheater (\<lambda>t p sw. Inr sw)) quiet_env 5 1
     (ws_onSessionAccepted 5 (ws_addToRecvQueue (CMSG_JOIN_THEATER, ()) (wk_handleAuthProof [] 0 0 ''p'' ''p'')), ()) = Inl AssertionFailed"
  by (rule join_before_login_asserts [where b = "()" and ps = "[]"])
     (simp_all add: ws_addToRecvQueue_def wk_handleAuthProof_def ws_new_def cq_new_def cq_add_def Let_def)

section \<open>Clocks\<close>

text \<open>
  The estimate of the client's clock is off by at most half the round trip. If the request went
  out at \<open>sent\<close>, the client answered with its clock at some moment \<open>answered\<close> of the round trip and the
  answer came in at \<open>arrived\<close>, then from then on the estimate differs from the client's clock, which
  is \<open>offset\<close> ahead of the server's, by no more than half of \<open>arrived - sent\<close>, rounded up.
\<close>

theorem client_clock_estimate:
  assumes "ws_timeSyncServer s = sent" and "sent \<le> answered" and "answered \<le> arrived"
    and "arrived - sent \<le> 1000000000" and "int32_range (answered + offset + 1000000000)" and "0 \<le> answered + offset"
    and "arrived \<le> now" and "now + offset \<le> 1000000000"
  shows "\<bar>ws_getClientNowTimeMillis now (ws_updateClientTime arrived (ws_timeSyncCounter s) (answered + offset) s) - (now + offset)\<bar>
    \<le> (arrived - sent + 1) div 2"
proof -
  let ?l = "arrived - sent"
  have l: "i32 ?l = ?l" using assms by (intro i32_id) (simp add: int32_range_def)
  have h: "?l sdiv 2 = ?l div 2" using assms by (simp add: signed_divide_int_def sgn_if)
  have c: "i32 (answered + offset + ?l div 2) = answered + offset + ?l div 2"
    using assms by (intro i32_id) (simp add: int32_range_def, linarith)
  have "ws_timeSyncClient (ws_updateClientTime arrived (ws_timeSyncCounter s) (answered + offset) s) = arrived - (answered + offset + ?l div 2)"
    unfolding ws_updateClientTime_def Let_def using assms(1) l h c by simp
  moreover have "i32 (now - (arrived - (answered + offset + ?l div 2))) = now - (arrived - (answered + offset + ?l div 2))"
    using assms by (intro i32_id) (simp add: int32_range_def, linarith)
  ultimately show ?thesis
    using assms unfolding ws_getClientNowTimeMillis_def by simp
qed

theorem client_clock_estimate_witness:
  "\<bar>ws_getClientNowTimeMillis 5000 (ws_updateClientTime 1100 0 1530 ((ws_new :: unit world_session)\<lparr>ws_timeSyncServer := 1000\<rparr>)) - 5500\<bar> \<le> 50"
  using client_clock_estimate [of "(ws_new :: unit world_session)\<lparr>ws_timeSyncServer := 1000\<rparr>" 1000 1030 1100 500 5000]
  by (simp add: int32_range_def ws_new_def)

section \<open>Latency\<close>

definition latency_stats :: "NSTime list \<Rightarrow> 'body world_session \<Rightarrow> bool" where
  "latency_stats ls s \<longleftrightarrow> ls \<noteq> [] \<and> LATENCY_LATEST (ws_latencies s) = last ls
     \<and> LATENCY_MIN (ws_latencies s) = Min (set ls) \<and> LATENCY_MAX (ws_latencies s) = Max (set ls)
     \<and> LATENCY_AVG (ws_latencies s) = 0 \<and> unat (ws_totalLatency s) = nat (sum_list ls) \<and> unat (ws_latencyCounter s) = length ls"

lemma unat_u32_of_int: "0 \<le> l \<Longrightarrow> l < 4294967296 \<Longrightarrow> unat (of_int l :: u32) = nat l"
  by (simp add: unsigned_of_int take_bit_int_eq_self)

lemma length_le_sum: "list_all (\<lambda>l. 0 < l) ls \<Longrightarrow> int (length ls) \<le> sum_list ls"
  by (induction ls) auto

lemma setLatency_stats:
  assumes st: "latency_stats ls s" and pos: "list_all (\<lambda>l. 0 < l) (ls @ [l])" and bound: "sum_list (ls @ [l]) \<le> 2147483647"
  shows "latency_stats (ls @ [l]) (ws_setLatency l s)"
proof -
  have ls: "ls \<noteq> []" "0 < l" "int (length ls) \<le> sum_list ls" using st pos length_le_sum [of ls] by (auto simp: latency_stats_def)
  have tot: "unat (ws_totalLatency s + of_int l) = nat (sum_list (ls @ [l]))"
    using st bound ls unat_u32_of_int [of l] unat_u32_plus [of "ws_totalLatency s" "of_int l"] by (simp add: latency_stats_def nat_add_distrib)
  have cnt: "unat (ws_latencyCounter s + 1) = length (ls @ [l])"
    using st bound ls unat_u32_plus [of "ws_latencyCounter s" 1] by (simp add: latency_stats_def)
  have "0 < Min (set ls)" using pos ls(1) by (auto simp: list_all_iff)
  then show ?thesis
    using st ls(1) tot cnt by (simp add: latency_stats_def ws_setLatency_def Let_def min.commute max.commute)
qed

lemma setLatency_run:
  "ls \<noteq> [] \<Longrightarrow> list_all (\<lambda>l. 0 < l) ls \<Longrightarrow> sum_list ls \<le> 2147483647 \<Longrightarrow> latency_stats ls (fold ws_setLatency ls ws_new)"
proof (induction ls rule: rev_induct)
  case (snoc l ls)
  show ?case
  proof (cases "ls = []")
    case True
    then show ?thesis
      using snoc.prems unat_u32_of_int [of l] by (simp add: latency_stats_def ws_setLatency_def ws_new_def Let_def)
  next
    case False
    then show ?thesis using snoc setLatency_stats [of ls "fold ws_setLatency ls ws_new" l] by simp
  qed
qed simp

text \<open>
  The statistics of the pings are right: after the latencies of a session were recorded and its
  average updated, the fields hold the latest, the smallest and the largest latency and the rounded
  down mean.
\<close>

theorem latency_statistics:
  assumes "ls \<noteq> []" and "list_all (\<lambda>l. 0 < l) ls" and "sum_list ls \<le> 2147483647"
  shows "ws_latencies (ws_updateAvgLatency (fold ws_setLatency ls (ws_new :: 'body world_session))) =
    \<lparr>LATENCY_LATEST = last ls, LATENCY_AVG = sum_list ls div int (length ls), LATENCY_MIN = Min (set ls), LATENCY_MAX = Max (set ls)\<rparr>"
proof -
  let ?s = "fold ws_setLatency ls (ws_new :: 'body world_session)"
  have "latency_stats ls ?s" by (rule setLatency_run [OF assms])
  note st = this [unfolded latency_stats_def]
  have pos: "0 \<le> sum_list ls" using length_le_sum [OF assms(2)] by simp
  have t: "unat (ws_totalLatency ?s) = nat (sum_list ls)" and c: "unat (ws_latencyCounter ?s) = length ls" using st by simp_all
  have "uint (ws_totalLatency ?s div ws_latencyCounter ?s) = sum_list ls div int (length ls)"
    by (simp only: uint_nat unat_div t c of_nat_div int_nat_eq pos if_True)
  moreover have "1 \<le> int (length ls)" using assms(1) by (cases ls) auto
  then have "i32 (sum_list ls div int (length ls)) = sum_list ls div int (length ls)"
    using pos assms(1,3) zdiv_mono2 [of "sum_list ls" 1 "int (length ls)"] pos_imp_zdiv_nonneg_iff [of "int (length ls)" "sum_list ls"] by (intro i32_id) (simp add: int32_range_def)
  moreover note this
  moreover have "ws_latencyCounter ?s \<noteq> 0" using st assms(1) by auto
  ultimately show ?thesis
    using st by (simp add: ws_updateAvgLatency_def Let_def)
qed

theorem latency_statistics_witness:
  "ws_latencies (ws_updateAvgLatency (fold ws_setLatency [40, 30, 71] (ws_new :: unit world_session))) =
    \<lparr>LATENCY_LATEST = 71, LATENCY_AVG = 47, LATENCY_MIN = 30, LATENCY_MAX = 71\<rparr>"
  using latency_statistics [of "[40, 30, 71]"] by simp

end
