(* ===== verification/Theater_Updater.thy ===== *)
theory Theater_Updater
  imports Queues "HOL-Library.Multiset"
begin

text \<open>
  The thread pool that updates the theaters, \<^verbatim>\<open>TheaterUpdater.h\<close> and \<^verbatim>\<open>TheaterUpdater.cpp\<close>. The main
  thread schedules one task per theater and waits; each worker takes a task from the blocking queue,
  runs it and reports that it is finished. Each operation holds the updater's mutex or the queue's
  mutex for its whole body and is one step; the steps of the threads interleave in any order. The
  state carries the tasks the workers are running, and the step relation records what was scheduled
  and what is done.
\<close>

section \<open>The updater\<close>

record 'task updater =
  up_isStopped :: bool
  up_threads :: nat
  up_updateQueue :: "'task blocking_queue"
  up_pendingTasks :: u32
  up_running :: "'task list"

definition up_new :: "'task updater" where
  "up_new = \<lparr>up_isStopped = True, up_threads = 0, up_updateQueue = bq_new, up_pendingTasks = 0, up_running = []\<rparr>"

definition up_start :: "nat \<Rightarrow> 'task updater \<Rightarrow> 'task updater" where
  "up_start numThreads u =
     (if \<not> up_isStopped u then u else u\<lparr>up_isStopped := False, up_threads := up_threads u + numThreads\<rparr>)"

definition up_scheduleUpdate :: "'task \<Rightarrow> 'task updater \<Rightarrow> 'task updater" where
  "up_scheduleUpdate task u =
     u\<lparr>up_pendingTasks := up_pendingTasks u + 1, up_updateQueue := bq_push task (up_updateQueue u)\<rparr>"

definition up_updateFinished :: "'task updater \<Rightarrow> 'task updater" where
  "up_updateFinished u = u\<lparr>up_pendingTasks := up_pendingTasks u - 1\<rparr>"

definition up_waitUpdate :: "'task updater \<Rightarrow> bool" where
  \<comment> \<open>whether a caller that holds the mutex leaves the loop\<close>
  "up_waitUpdate u = (\<not> up_pendingTasks u > 0)"

definition up_workerTake :: "'task updater \<Rightarrow> ('task \<times> 'task updater) option" where
  \<comment> \<open>an idle worker gets a task from \<^verbatim>\<open>waitAndPop\<close>\<close>
  "up_workerTake u =
     (if length (up_running u) \<ge> up_threads u then None
      else case bq_waitAndPop (up_updateQueue u) of
             (Popped task, q) \<Rightarrow> Some (task, u\<lparr>up_updateQueue := q, up_running := task # up_running u\<rparr>)
           | _ \<Rightarrow> None)"

definition up_workerExecute :: "nat \<Rightarrow> 'task updater \<Rightarrow> ('task \<times> 'task updater) option" where
  \<comment> \<open>\<^verbatim>\<open>TheaterUpdateTask::execute\<close> of the \<open>i\<close>th running task: the update, then \<^verbatim>\<open>updateFinished\<close>\<close>
  "up_workerExecute i u =
     (if i < length (up_running u)
      then Some (up_running u ! i,
                 up_updateFinished (u\<lparr>up_running := take i (up_running u) @ drop (Suc i) (up_running u)\<rparr>))
      else None)"

definition up_stopPending :: "'task updater \<Rightarrow> 'task updater" where
  \<comment> \<open>the first half of \<^verbatim>\<open>stop\<close>, up to the release of the mutex\<close>
  "up_stopPending u = (if up_isStopped u then u else u\<lparr>up_isStopped := True, up_pendingTasks := 0\<rparr>)"

definition up_stopQueue :: "'task updater \<Rightarrow> 'task updater" where
  "up_stopQueue u = u\<lparr>up_updateQueue := snd (bq_cancel (up_updateQueue u))\<rparr>"

definition up_joinThreads :: "'task updater \<Rightarrow> 'task updater option" where
  \<comment> \<open>joining waits for the workers, which end once they have no task\<close>
  "up_joinThreads u = (if up_running u = [] then Some (u\<lparr>up_threads := 0\<rparr>) else None)"

section \<open>Interleavings\<close>

text \<open>A state of the system: the updater, the tasks scheduled so far and the tasks done.\<close>

type_synonym 'task updater_state = "'task updater \<times> 'task list \<times> 'task list"

inductive worker_step :: "'task updater_state \<Rightarrow> 'task updater_state \<Rightarrow> bool" where
  take_task: "up_workerTake u = Some (task, u') \<Longrightarrow> worker_step (u, sched, fin) (u', sched, fin)"
| execute: "up_workerExecute i u = Some (task, u') \<Longrightarrow> worker_step (u, sched, fin) (u', sched, fin @ [task])"

inductive updater_step :: "'task updater_state \<Rightarrow> 'task updater_state \<Rightarrow> bool" where
  start: "updater_step (u, sched, fin) (up_start n u, sched, fin)"
| schedule: "\<not> up_isStopped u \<Longrightarrow> updater_step (u, sched, fin) (up_scheduleUpdate task u, sched @ [task], fin)"
| worker: "worker_step s s' \<Longrightarrow> updater_step s s'"
| stop: "updater_step (u, sched, fin) (up_stopPending u, sched, fin)"
| cancel: "up_isStopped u \<Longrightarrow> updater_step (u, sched, fin) (up_stopQueue u, sched, fin)"
| join: "up_isStopped u \<Longrightarrow> up_joinThreads u = Some u' \<Longrightarrow> updater_step (u, sched, fin) (u', sched, fin)"

inductive updater_reachable :: "'task updater_state \<Rightarrow> bool" where
  init: "0 < n \<Longrightarrow> updater_reachable (up_start n up_new, [], [])"
| step: "updater_reachable s \<Longrightarrow> updater_step s s' \<Longrightarrow> \<not> up_isStopped (fst s') \<Longrightarrow> updater_reachable s'"

inductive_cases worker_stepE: "worker_step (u, sched, fin) s'"

definition in_flight :: "'task updater \<Rightarrow> nat" where
  "in_flight u = length (bq_queue (up_updateQueue u)) + length (up_running u)"

definition up_inv :: "'task updater_state \<Rightarrow> bool" where
  "up_inv = (\<lambda>(u, sched, fin). \<not> up_isStopped u \<and> \<not> bq_shutdown (up_updateQueue u) \<and> 0 < up_threads u
     \<and> length (up_running u) \<le> up_threads u \<and> up_pendingTasks u = of_nat (in_flight u)
     \<and> mset sched = mset fin + mset (bq_queue (up_updateQueue u)) + mset (up_running u))"

lemma workerTake_effect:
  assumes "up_workerTake u = Some (task, u')"
  obtains rest where "bq_queue (up_updateQueue u) = task # rest" "length (up_running u) < up_threads u"
    "u' = u\<lparr>up_updateQueue := (up_updateQueue u)\<lparr>bq_queue := rest\<rparr>, up_running := task # up_running u\<rparr>"
  using assms by (cases "bq_queue (up_updateQueue u)") (auto simp: up_workerTake_def bq_waitAndPop_def split: if_splits)

lemma workerExecute_effect:
  assumes "up_workerExecute i u = Some (task, u')"
  obtains rs where "mset (up_running u) = add_mset task (mset rs)" "length (up_running u) = Suc (length rs)"
    "u' = u\<lparr>up_running := rs, up_pendingTasks := up_pendingTasks u - 1\<rparr>"
proof -
  let ?rs = "take i (up_running u) @ drop (Suc i) (up_running u)"
  have i: "i < length (up_running u)" "task = up_running u ! i" "u' = u\<lparr>up_running := ?rs, up_pendingTasks := up_pendingTasks u - 1\<rparr>"
    using assms by (auto simp: up_workerExecute_def up_updateFinished_def split: if_splits)
  then have split: "up_running u = take i (up_running u) @ task # drop (Suc i) (up_running u)" by (simp add: id_take_nth_drop)
  have "mset (up_running u) = add_mset task (mset ?rs)" by (subst split) simp
  moreover have "length (up_running u) = Suc (length ?rs)" using i(1) by simp
  ultimately show ?thesis using that i(3) by blast
qed

lemma worker_step_inv: "worker_step s s' \<Longrightarrow> up_inv s \<Longrightarrow> up_inv s'"
proof (induction rule: worker_step.induct)
  case (take_task u task u' sched fin)
  then show ?case by (auto simp: up_inv_def in_flight_def elim!: workerTake_effect)
next
  case (execute i u task u' sched fin)
  then show ?case by (auto simp: up_inv_def in_flight_def elim!: workerExecute_effect)
qed

lemma updater_step_inv:
  "updater_step s s' \<Longrightarrow> up_inv s \<Longrightarrow> \<not> up_isStopped (fst s') \<Longrightarrow> up_inv s'"
proof (induction rule: updater_step.induct)
  case (worker s s')
  then show ?case using worker_step_inv by blast
qed (auto simp: up_inv_def in_flight_def up_start_def up_scheduleUpdate_def bq_push_def up_stopPending_def)

lemma reachable_inv: "updater_reachable s \<Longrightarrow> up_inv s"
proof (induction rule: updater_reachable.induct)
  case (init n)
  then show ?case by (simp add: up_inv_def in_flight_def up_start_def up_new_def bq_new_def)
next
  case (step s s')
  then show ?case using updater_step_inv by blast
qed

text \<open>
  C13: the wait is a barrier. In every interleaving of the main thread and the workers, when
  \<^verbatim>\<open>waitUpdate\<close> returns, every task scheduled so far has been executed, each exactly once, none is
  queued and no worker is still running one.
\<close>

theorem updater_barrier:
  assumes "updater_reachable (u, sched, fin)" and "in_flight u < 4294967296" and "up_waitUpdate u"
  shows "mset fin = mset sched \<and> bq_empty (up_updateQueue u) \<and> up_running u = []"
proof -
  have inv: "up_inv (u, sched, fin)" by (rule reachable_inv [OF assms(1)])
  have "(of_nat (in_flight u) :: u32) = 0" using inv assms(3) by (simp add: up_inv_def up_waitUpdate_def word_gt_0)
  then have "4294967296 dvd in_flight u" by (simp add: word_of_nat_eq_0_iff)
  then have "in_flight u = 0" using assms(2) dvd_imp_le [of 4294967296 "in_flight u"] by linarith
  then show ?thesis using inv by (simp add: up_inv_def in_flight_def bq_empty_def)
qed

theorem updater_barrier_witness:
  "\<exists>u :: nat updater. updater_reachable (u, [5], [5]) \<and> up_waitUpdate u \<and> up_running u = []"
proof -
  let ?u0 = "up_start 2 up_new :: nat updater"
  let ?u1 = "up_scheduleUpdate 5 ?u0"
  have r0: "updater_reachable (?u0, [], [])" by (rule updater_reachable.init) simp
  have n: "\<not> up_isStopped ?u0" by (simp add: up_start_def up_new_def)
  from updater_step.schedule [OF n, of "[]" "[]" 5] r0 have r1: "updater_reachable (?u1, [5], [])"
    using updater_reachable.step [OF r0] n by (simp add: up_scheduleUpdate_def)
  obtain u2 where u2: "up_workerTake ?u1 = Some (5, u2)" "up_running u2 = [5]" "up_pendingTasks u2 = 1" "\<not> up_isStopped u2"
    "bq_queue (up_updateQueue u2) = []"
    by (simp add: up_workerTake_def up_scheduleUpdate_def up_start_def up_new_def bq_new_def bq_push_def bq_waitAndPop_def)
  have r2: "updater_reachable (u2, [5], [])"
    by (rule updater_reachable.step [OF r1 updater_step.worker [OF worker_step.take_task [OF u2(1)]]]) (simp add: u2)
  let ?u3 = "up_updateFinished (u2\<lparr>up_running := []\<rparr>)"
  have u3: "up_workerExecute 0 u2 = Some (5, ?u3)" by (simp add: up_workerExecute_def u2)
  have r3: "updater_reachable (?u3, [5], [5])"
    using updater_reachable.step [OF r2 updater_step.worker [OF worker_step.execute [OF u3]]] u2 by (simp add: up_updateFinished_def)
  have "up_waitUpdate ?u3" by (simp add: up_waitUpdate_def up_updateFinished_def u2)
  then show ?thesis using updater_barrier [OF r3] r3 u2 by (intro exI [of _ ?u3]) (simp add: in_flight_def up_updateFinished_def)
qed

definition work_left :: "'task updater_state \<Rightarrow> nat" where
  "work_left = (\<lambda>(u, sched, fin). 2 * length (bq_queue (up_updateQueue u)) + length (up_running u))"

lemma worker_progress:
  assumes "up_inv (u, sched, fin)" and "\<not> up_waitUpdate u"
  shows "\<exists>s'. worker_step (u, sched, fin) s'"
proof (cases "up_running u")
  case (Cons r rs)
  then obtain t u' where "up_workerExecute 0 u = Some (t, u')" by (simp add: up_workerExecute_def)
  from worker_step.execute [OF this] show ?thesis by (rule exI)
next
  case Nil
  have "bq_queue (up_updateQueue u) \<noteq> []" using assms Nil by (auto simp: up_inv_def up_waitUpdate_def in_flight_def)
  then obtain t u' where "up_workerTake u = Some (t, u')"
    using assms(1) Nil by (simp add: up_workerTake_def bq_waitAndPop_def up_inv_def)
  from worker_step.take_task [OF this] show ?thesis by (rule exI)
qed

lemma worker_decreases: "worker_step s s' \<Longrightarrow> work_left s' < work_left s"
  by (induction rule: worker_step.induct) (auto simp: work_left_def elim!: workerTake_effect workerExecute_effect)



text \<open>
  Stopping resets the counter while a worker may still run a task; when that task finishes the
  counter wraps around to its largest value.
\<close>

lemma stop_then_finish_wraps:
  "\<not> up_isStopped u \<Longrightarrow> up_pendingTasks (up_updateFinished (up_stopPending u)) = 4294967295"
  by (simp add: up_updateFinished_def up_stopPending_def)

end
