(* ===== verification/Floats.thy ===== *)
theory Floats
  imports Prelude Complex_Main
begin

text \<open>
  Single precision. A result of the program is the exact rational result sent through a function that rounds it to a
  \<^verbatim>\<open>float\<close>; what the theorems need of that function is that it is monotone and keeps the integers of 24 bits.
  A cast to an integer truncates towards zero.
\<close>

definition float_rounding :: "(rat \<Rightarrow> rat) \<Rightarrow> bool" where
  "float_rounding fl \<longleftrightarrow> mono fl \<and> (\<forall>n. \<bar>n\<bar> \<le> 16777216 \<longrightarrow> fl (of_int n) = of_int n)"

lemma float_roundingD:
  assumes "float_rounding fl"
  shows "x \<le> y \<Longrightarrow> fl x \<le> fl y" "fl 0 = 0" "fl 1 = 1" "\<bar>n\<bar> \<le> 16777216 \<Longrightarrow> fl (of_int n) = of_int n"
  using assms unfolding float_rounding_def
  by (auto dest: monoD) (metis abs_numeral abs_zero le_numeral_extra of_int_0 zero_le_numeral,
      metis abs_one of_int_1 one_le_numeral)

lemma float_rounding_unit:
  assumes "float_rounding fl"
  shows "0 \<le> x \<Longrightarrow> 0 \<le> fl x" "x \<le> 0 \<Longrightarrow> fl x \<le> 0" "x \<le> 1 \<Longrightarrow> fl x \<le> 1" "1 \<le> x \<Longrightarrow> 1 \<le> fl x"
  using float_roundingD(1) [OF assms, of 0 x] float_roundingD(1) [OF assms, of x 0] float_roundingD(1) [OF assms, of x 1]
    float_roundingD(1) [OF assms, of 1 x] float_roundingD(2,3) [OF assms] by auto

lemma float_rounding_id: "float_rounding id"
  by (simp add: float_rounding_def mono_def)

definition trunc :: "rat \<Rightarrow> int" where
  "trunc x = (if x < 0 then \<lceil>x\<rceil> else \<lfloor>x\<rfloor>)"

lemma trunc_of_int [simp]: "trunc (of_int n) = n"
  by (simp add: trunc_def)

lemma trunc_between:
  "0 \<le> x \<Longrightarrow> x \<le> of_int d \<Longrightarrow> 0 \<le> trunc x \<and> trunc x \<le> d"
  "of_int d \<le> x \<Longrightarrow> x \<le> 0 \<Longrightarrow> d \<le> trunc x \<and> trunc x \<le> 0"
  by (auto simp: trunc_def floor_le_iff le_floor_iff ceiling_le_iff le_ceiling_iff)

text \<open>The part of an amount that has been reached when the rest of the time is \<open>scale\<close>, as both stamina timers compute it.\<close>

lemma trunc_scaled:
  assumes "float_rounding fl" and "\<bar>d\<bar> \<le> 16777216" and "0 \<le> scale" and "scale \<le> 1"
  shows "0 \<le> d \<Longrightarrow> 0 \<le> trunc (fl (fl (of_int d) * fl (1 - scale))) \<and> trunc (fl (fl (of_int d) * fl (1 - scale))) \<le> d"
    and "d \<le> 0 \<Longrightarrow> d \<le> trunc (fl (fl (of_int d) * fl (1 - scale))) \<and> trunc (fl (fl (of_int d) * fl (1 - scale))) \<le> 0"
    and "scale = 0 \<Longrightarrow> trunc (fl (fl (of_int d) * fl (1 - scale))) = d"
    and "scale = 1 \<Longrightarrow> trunc (fl (fl (of_int d) * fl (1 - scale))) = 0"
proof -
  note fl = float_roundingD [OF assms(1)]
  have d: "fl (of_int d) = of_int d" by (rule fl(4) [OF assms(2)])
  have u: "0 \<le> fl (1 - scale)" "fl (1 - scale) \<le> 1" using float_rounding_unit [OF assms(1), of "1 - scale"] assms(3,4) by simp_all
  let ?x = "of_int d * fl (1 - scale)"
  show "0 \<le> trunc (fl (fl (of_int d) * fl (1 - scale))) \<and> trunc (fl (fl (of_int d) * fl (1 - scale))) \<le> d" if "0 \<le> d"
  proof -
    have "0 \<le> ?x" "?x \<le> of_int d" using that u mult_left_le [of "fl (1 - scale)" "of_int d"] by simp_all
    then have "0 \<le> fl ?x" "fl ?x \<le> of_int d" using float_rounding_unit(1) [OF assms(1)] fl(1) [of ?x "of_int d"] d by auto
    then show ?thesis using trunc_between(1) d by simp
  qed
  show "d \<le> trunc (fl (fl (of_int d) * fl (1 - scale))) \<and> trunc (fl (fl (of_int d) * fl (1 - scale))) \<le> 0" if "d \<le> 0"
  proof -
    have n: "(of_int d :: rat) \<le> 0" using that by simp
    have "?x \<le> 0" "of_int d \<le> ?x" using mult_nonpos_nonneg [OF n u(1)] mult_left_mono_neg [OF u(2) n] by simp_all
    then have "fl ?x \<le> 0" "of_int d \<le> fl ?x" using float_rounding_unit(2) [OF assms(1)] fl(1) [of "of_int d" ?x] d by auto
    then show ?thesis using trunc_between(2) d by simp
  qed
  show "trunc (fl (fl (of_int d) * fl (1 - scale))) = d" if "scale = 0" using that d fl(3) by simp
  show "trunc (fl (fl (of_int d) * fl (1 - scale))) = 0" if "scale = 1" using that d fl(2) by (simp add: trunc_def)
qed

end
