(* ===== verification/Battle_State.thy ===== *)
theory Battle_State
  imports Timers Tile_Map Floats
begin

text \<open>
  The course of a battle, from \<^verbatim>\<open>BattleMap.h\<close> and \<^verbatim>\<open>BattleMap.cpp\<close>: the battle state and its
  timer, the counters of units alive and of players in battle, the ranks of the killed, the combat
  grade, and the safe zone that shrinks while the battle lasts. The single precision arithmetic of
  the safe zone goes through \<open>fl\<close>, the rounding of an exact result to a \<^verbatim>\<open>float\<close>, which is a
  parameter; what is used of it is that it is monotone and exact on integers up to two to the power
  of 24. A failed \<^verbatim>\<open>NS_ASSERT\<close> is an error value. What the objects on the map decide, such as
  whether all players have arrived, is an argument.
\<close>

section \<open>The state\<close>

datatype battle_state =
  BATTLE_STATE_NONE | BATTLE_STATE_PREPARING | BATTLE_STATE_IN_PROGRESS | BATTLE_STATE_ENDING | BATTLE_STATE_ENDED

datatype battle_outcome = BATTLE_DEFEAT | BATTLE_VICTORY

datatype battle_error = BattleAssertion

definition BATTLE_UPDATEFLAG_NONE :: u32 where "BATTLE_UPDATEFLAG_NONE = 0"
definition BATTLE_UPDATEFLAG_STATE :: u32 where "BATTLE_UPDATEFLAG_STATE = 1"
definition BATTLE_UPDATEFLAG_ALIVE_COUNT :: u32 where "BATTLE_UPDATEFLAG_ALIVE_COUNT = 2"
definition BATTLE_UPDATEFLAG_MAGICBEAN_COUNT :: u32 where "BATTLE_UPDATEFLAG_MAGICBEAN_COUNT = 4"
definition BATTLE_UPDATEFLAG_ALL :: u32 where
  "BATTLE_UPDATEFLAG_ALL = or (or BATTLE_UPDATEFLAG_STATE BATTLE_UPDATEFLAG_ALIVE_COUNT) BATTLE_UPDATEFLAG_MAGICBEAN_COUNT"

definition TRAINING_GROUND_COMBAT_GRADE :: u8 where "TRAINING_GROUND_COMBAT_GRADE = 0"
definition MAP_MARGIN_IN_TILES :: int where "MAP_MARGIN_IN_TILES = 11"

definition sight_tiles :: int where
  \<comment> \<open>\<^verbatim>\<open>SIGHT_DISTANCE_IN_TILES\<close>, the ceiling of 240 / 32\<close>
  "sight_tiles = 8"

record combat_grade =
  cg_grade :: u8
  cg_minCombatPower :: u16
  cg_maxCombatPower :: u16

record battle =
  ba_mapId :: u16
  ba_width :: int
  ba_height :: int
  ba_populationCap :: int
  ba_battleDuration :: int
  ba_isStopped :: bool
  ba_battleState :: battle_state
  ba_battleStateTimer :: delay_timer
  ba_aliveCounter :: int
  ba_isAliveCountDirty :: bool
  ba_playerInBattleCounter :: int
  ba_rankTotal :: int
  ba_robotCount :: int
  ba_combatGrade :: combat_grade
  ba_isSafeZoneEnabled :: bool
  ba_safeZoneCenter :: tile_coord
  ba_initialSafeZoneRadius :: int
  ba_currSafeZoneRadius :: int
  ba_currSafeDistance :: int
  ba_isSafeZoneRelocated :: bool
  ba_isDangerAlertTriggered :: bool
  ba_updatesSent :: "u32 list"
  ba_withdrawals :: "(nat \<times> battle_outcome \<times> int) list"

definition ba_new :: "u16 \<Rightarrow> int \<Rightarrow> int \<Rightarrow> int \<Rightarrow> int \<Rightarrow> battle" where
  "ba_new mapId width height populationCap battleDuration =
     \<lparr>ba_mapId = mapId, ba_width = width, ba_height = height, ba_populationCap = populationCap,
      ba_battleDuration = battleDuration, ba_isStopped = True, ba_battleState = BATTLE_STATE_NONE,
      ba_battleStateTimer = delay_new, ba_aliveCounter = 0, ba_isAliveCountDirty = False, ba_playerInBattleCounter = 0,
      ba_rankTotal = 0, ba_robotCount = 0,
      ba_combatGrade = \<lparr>cg_grade = 0, cg_minCombatPower = 0, cg_maxCombatPower = 0\<rparr>,
      ba_isSafeZoneEnabled = False, ba_safeZoneCenter = \<lparr>tc_x = 0, tc_y = 0\<rparr>, ba_initialSafeZoneRadius = 0,
      ba_currSafeZoneRadius = 0, ba_currSafeDistance = 0, ba_isSafeZoneRelocated = False,
      ba_isDangerAlertTriggered = False, ba_updatesSent = [], ba_withdrawals = []\<rparr>"

section \<open>Who may join\<close>

definition ba_isTrainingGround :: "battle \<Rightarrow> bool" where
  "ba_isTrainingGround ba = (cg_grade (ba_combatGrade ba) = TRAINING_GROUND_COMBAT_GRADE)"

definition ba_isWithinCombatGrade :: "u16 \<Rightarrow> battle \<Rightarrow> bool" where
  "ba_isWithinCombatGrade combatPower ba =
     (combatPower \<ge> cg_minCombatPower (ba_combatGrade ba) \<and> combatPower \<le> cg_maxCombatPower (ba_combatGrade ba))"

definition ba_canJoinBattle :: "battle \<Rightarrow> bool" where
  "ba_canJoinBattle ba = (ba_battleState ba = BATTLE_STATE_NONE)"

definition ba_isBattleEnded :: "battle \<Rightarrow> bool" where
  "ba_isBattleEnded ba = (ba_battleState ba = BATTLE_STATE_ENDED)"

definition ba_isBattleEnding :: "battle \<Rightarrow> bool" where
  "ba_isBattleEnding ba = (ba_battleState ba = BATTLE_STATE_ENDING)"

definition ba_isInBattle :: "battle \<Rightarrow> bool" where
  "ba_isInBattle ba = (ba_battleState ba = BATTLE_STATE_IN_PROGRESS)"

definition ba_setCombatGrade :: "combat_grade \<Rightarrow> battle \<Rightarrow> battle" where
  "ba_setCombatGrade grade ba = ba\<lparr>ba_combatGrade := grade\<rparr>"

section \<open>Units alive and ranks\<close>

definition ba_increaseAliveCounter :: "battle \<Rightarrow> battle" where
  "ba_increaseAliveCounter ba = ba\<lparr>ba_aliveCounter := i32 (ba_aliveCounter ba + 1), ba_isAliveCountDirty := True\<rparr>"

definition ba_decreaseAliveCounter :: "battle \<Rightarrow> battle_error + battle" where
  "ba_decreaseAliveCounter ba =
     (if \<not> ba_aliveCounter ba > 0 then Inl BattleAssertion
      else Inr (ba\<lparr>ba_aliveCounter := ba_aliveCounter ba - 1, ba_isAliveCountDirty := True\<rparr>))"

definition ba_playerKilled :: "battle \<Rightarrow> battle_error + (battle_outcome \<times> int) option \<times> battle" where
  \<comment> \<open>with the outcome and rank handed to \<^verbatim>\<open>withdrawDelayed\<close>, if any\<close>
  "ba_playerKilled ba =
     (case ba_decreaseAliveCounter ba of
        Inl e \<Rightarrow> Inl e
      | Inr ba1 \<Rightarrow>
          Inr (if \<not> ba_isTrainingGround ba1
               then Some (if ba_aliveCounter ba1 > 0 then BATTLE_DEFEAT else BATTLE_VICTORY, ba_aliveCounter ba1 + 1)
               else None, ba1))"

definition ba_robotKilled :: "battle \<Rightarrow> battle_error + (battle_outcome \<times> int) option \<times> battle" where
  "ba_robotKilled ba =
     (case ba_decreaseAliveCounter ba of
        Inl e \<Rightarrow> Inl e
      | Inr ba1 \<Rightarrow>
          Inr (if ba_aliveCounter ba1 > 0 then Some (BATTLE_DEFEAT, ba_aliveCounter ba1 + 1) else None, ba1))"

definition ba_increasePlayerInBattleCounter :: "battle \<Rightarrow> battle" where
  "ba_increasePlayerInBattleCounter ba = ba\<lparr>ba_playerInBattleCounter := i32 (ba_playerInBattleCounter ba + 1)\<rparr>"

definition ba_decreasePlayerInBattleCounter :: "battle \<Rightarrow> battle_error + battle" where
  "ba_decreasePlayerInBattleCounter ba =
     (if \<not> ba_playerInBattleCounter ba > 0 then Inl BattleAssertion
      else Inr (ba\<lparr>ba_playerInBattleCounter := ba_playerInBattleCounter ba - 1\<rparr>))"

section \<open>The safe zone\<close>

definition ba_setSafeZoneCenter :: "tile_coord \<Rightarrow> battle \<Rightarrow> battle" where
  "ba_setSafeZoneCenter center ba =
     (let radius = max (ba_width ba) (ba_height ba)
      in ba\<lparr>ba_safeZoneCenter := center, ba_initialSafeZoneRadius := radius, ba_currSafeZoneRadius := radius,
            ba_currSafeDistance := sight_tiles\<rparr>)"

definition ba_prepareForBattle :: "tile_coord \<Rightarrow> battle \<Rightarrow> battle" where
  \<comment> \<open>\<open>center\<close> is the tile \<^verbatim>\<open>setupSafeZone\<close> picks; the tiles, waypoints and spawn points are left out\<close>
  "ba_prepareForBattle center ba =
     (if \<not> ba_isTrainingGround ba then ba_setSafeZoneCenter center (ba\<lparr>ba_isSafeZoneEnabled := True\<rparr>)
      else ba\<lparr>ba_isSafeZoneEnabled := False\<rparr>)"

definition within_square :: "tile_coord \<Rightarrow> int \<Rightarrow> tile_coord \<Rightarrow> bool" where
  "within_square center side c =
     (tc_x c > tc_x center - side \<and> tc_x c \<le> tc_x center + side \<and> tc_y c > tc_y center - side \<and> tc_y c \<le> tc_y center + side)"

definition ba_isWithinSafeZone :: "battle \<Rightarrow> tile_coord \<Rightarrow> bool" where
  "ba_isWithinSafeZone ba c =
     (if \<not> ba_isSafeZoneEnabled ba then True else within_square (ba_safeZoneCenter ba) (ba_currSafeZoneRadius ba) c)"

definition ba_isSafeDistanceMaintained :: "battle \<Rightarrow> tile_coord \<Rightarrow> bool" where
  "ba_isSafeDistanceMaintained ba c =
     (if \<not> ba_isSafeZoneEnabled ba then True
      else within_square (ba_safeZoneCenter ba) (ba_currSafeZoneRadius ba - ba_currSafeDistance ba) c)"

definition ba_calcRadiusToSafeZoneCenter :: "battle \<Rightarrow> tile_coord \<Rightarrow> int" where
  "ba_calcRadiusToSafeZoneCenter ba start =
     (let diffX = tc_x start - tc_x (ba_safeZoneCenter ba); diffY = tc_y start - tc_y (ba_safeZoneCenter ba);
          radius = max \<bar>diffX\<bar> \<bar>diffY\<bar> + 1
      in if diffX + diffY > 0 then radius - 1 else radius)"

definition ba_zoneScale :: "(rat \<Rightarrow> rat) \<Rightarrow> delay_timer \<Rightarrow> rat" where
  \<comment> \<open>a duration of zero makes the quotient a NaN, of which \<^verbatim>\<open>std::min(1.0f, NaN)\<close> is one\<close>
  "ba_zoneScale fl t =
     (if dt_duration t = 0 then 1 else min 1 (fl (fl (of_int (delay_getElapsed t)) / fl (of_int (dt_duration t)))))"

definition ba_zoneRadius :: "(rat \<Rightarrow> rat) \<Rightarrow> int \<Rightarrow> delay_timer \<Rightarrow> int" where
  "ba_zoneRadius fl radius t =
     (let x = fl (fl (of_int radius) * ba_zoneScale fl t) in radius - (if x < 0 then \<lceil>x\<rceil> else \<lfloor>x\<rfloor>))"

function ba_shrink :: "int \<Rightarrow> int \<Rightarrow> int \<Rightarrow> int \<times> int" where
  \<comment> \<open>the loop on the radius and the safe distance\<close>
  "ba_shrink newRadius radius distance =
     (if radius > newRadius then
        let radius = radius - 1
        in ba_shrink newRadius radius
             (if radius - distance < sight_tiles \<and> radius mod 2 \<noteq> 0 then distance - 1 else distance)
      else (radius, distance))"
  by pat_completeness auto
termination by (relation "measure (\<lambda>(newRadius, radius, _). nat (radius - newRadius))") auto

declare ba_shrink.simps [simp del]

definition ba_alertRadius :: "battle \<Rightarrow> int" where
  "ba_alertRadius ba =
     (let top = tc_y (ba_safeZoneCenter ba); bottom = ba_height ba - tc_y (ba_safeZoneCenter ba) - 1;
          left = tc_x (ba_safeZoneCenter ba); right = ba_width ba - tc_x (ba_safeZoneCenter ba) - 1
      in max right (max left (max top bottom)) - (MAP_MARGIN_IN_TILES - 1))"

definition ba_updateSafeZone :: "(rat \<Rightarrow> rat) \<Rightarrow> battle \<Rightarrow> battle" where
  \<comment> \<open>without the waypoint nodes, which follow the new radius\<close>
  "ba_updateSafeZone fl ba =
     (if \<not> ba_isSafeZoneEnabled ba then ba
      else
        let newRadius = ba_zoneRadius fl (ba_initialSafeZoneRadius ba) (ba_battleStateTimer ba)
        in if newRadius \<noteq> ba_currSafeZoneRadius ba then
             let (radius, distance) = ba_shrink newRadius (ba_currSafeZoneRadius ba) (ba_currSafeDistance ba);
                 ba1 = ba\<lparr>ba_currSafeZoneRadius := radius, ba_currSafeDistance := distance\<rparr>;
                 ba2 = (if \<not> ba_isDangerAlertTriggered ba1 \<and> ba_currSafeZoneRadius ba1 \<le> ba_alertRadius ba1
                        then ba1\<lparr>ba_isDangerAlertTriggered := True\<rparr> else ba1)
             in ba2\<lparr>ba_isSafeZoneRelocated := True\<rparr>
           else ba)"

section \<open>The battle state\<close>

definition ba_getDurationByBattleState :: "NSTime \<Rightarrow> battle \<Rightarrow> battle_state \<Rightarrow> NSTime" where
  \<comment> \<open>\<open>preparation\<close> is the configured preparation time\<close>
  "ba_getDurationByBattleState preparation ba st =
     (case st of
        BATTLE_STATE_PREPARING \<Rightarrow> preparation
      | BATTLE_STATE_IN_PROGRESS \<Rightarrow> i32 (ba_battleDuration ba * 1000)
      | _ \<Rightarrow> 0)"

definition ba_sendBattleUpdateToPlayers :: "u32 \<Rightarrow> battle \<Rightarrow> battle" where
  "ba_sendBattleUpdateToPlayers flags ba = ba\<lparr>ba_updatesSent := ba_updatesSent ba @ [flags]\<rparr>"

definition ba_restart :: "NSTime \<Rightarrow> battle \<Rightarrow> battle" where
  \<comment> \<open>without the jump table and the patrol points\<close>
  "ba_restart preparation ba =
     (let st = (if \<not> ba_isTrainingGround ba then BATTLE_STATE_PREPARING else BATTLE_STATE_IN_PROGRESS)
      in ba_sendBattleUpdateToPlayers BATTLE_UPDATEFLAG_ALL
           (ba\<lparr>ba_rankTotal := ba_aliveCounter ba, ba_isAliveCountDirty := False, ba_battleState := st,
               ba_battleStateTimer := delay_setDuration (ba_getDurationByBattleState preparation ba st) (ba_battleStateTimer ba)\<rparr>))"

definition ba_onStart :: "NSTime \<Rightarrow> battle \<Rightarrow> battle" where
  "ba_onStart preparation ba =
     (if \<not> ba_isStopped ba then ba else (ba_restart preparation ba)\<lparr>ba_isStopped := False\<rparr>)"

definition ba_onStop :: "(battle \<Rightarrow> battle) \<Rightarrow> battle \<Rightarrow> battle_error + battle" where
  \<comment> \<open>\<open>cleanup\<close> is \<^verbatim>\<open>cleanupAllGrids\<close>, which removes the objects from the map\<close>
  "ba_onStop cleanup ba =
     (if ba_isStopped ba then Inr ba
      else
        let ba1 = cleanup ba;
            ba2 = ba1\<lparr>ba_battleStateTimer := delay_reset (ba_battleStateTimer ba1), ba_battleState := BATTLE_STATE_NONE,
                      ba_isSafeZoneRelocated := False, ba_isDangerAlertTriggered := False\<rparr>
        in if \<not> (ba_aliveCounter ba2 \<le> 0 \<and> ba_playerInBattleCounter ba2 \<le> 0) then Inl BattleAssertion
           else Inr (ba2\<lparr>ba_isStopped := True\<rparr>))"

definition ba_withdrawVictor :: "nat option \<Rightarrow> battle \<Rightarrow> battle" where
  "ba_withdrawVictor victor ba =
     (case victor of
        Some p \<Rightarrow> if \<not> ba_isTrainingGround ba then ba\<lparr>ba_withdrawals := ba_withdrawals ba @ [(p, BATTLE_VICTORY, 1)]\<rparr> else ba
      | None \<Rightarrow> ba)"

definition ba_updateBattleState :: "(rat \<Rightarrow> rat) \<Rightarrow> NSTime \<Rightarrow> bool \<Rightarrow> nat option \<Rightarrow> battle \<Rightarrow> battle" where
  \<comment> \<open>\<open>allHere\<close> is \<^verbatim>\<open>isAllPlayersHere()\<close> and \<open>victor\<close> is \<^verbatim>\<open>findVictoriousPlayer()\<close>\<close>
  "ba_updateBattleState fl diff allHere victor ba =
     (if ba_battleState ba = BATTLE_STATE_ENDED then ba
      else
        let flags = (if ba_isAliveCountDirty ba then or BATTLE_UPDATEFLAG_NONE BATTLE_UPDATEFLAG_ALIVE_COUNT else BATTLE_UPDATEFLAG_NONE);
            ba1 = ba\<lparr>ba_isAliveCountDirty := False, ba_battleStateTimer := delay_update diff (ba_battleStateTimer ba)\<rparr>;
            (flags1, ba2) =
              (case ba_battleState ba1 of
                 BATTLE_STATE_PREPARING \<Rightarrow>
                   if delay_passed (ba_battleStateTimer ba1)
                   then (or flags BATTLE_UPDATEFLAG_STATE,
                         ba1\<lparr>ba_battleStateTimer := delay_setDuration (ba_getDurationByBattleState 0 ba1 BATTLE_STATE_IN_PROGRESS) (ba_battleStateTimer ba1),
                             ba_battleState := BATTLE_STATE_IN_PROGRESS\<rparr>)
                   else (flags, ba1)
               | BATTLE_STATE_IN_PROGRESS \<Rightarrow>
                   let ba2 = ba_updateSafeZone fl ba1
                   in if ba_populationCap ba2 > 1 \<and> (ba_aliveCounter ba2 \<le> 1 \<and> allHere)
                         \<and> (\<not> ba_isTrainingGround ba2 \<or> ba_robotCount ba2 > 0)
                      then (or flags BATTLE_UPDATEFLAG_STATE,
                            ba_withdrawVictor victor
                              (ba2\<lparr>ba_battleStateTimer := delay_reset (ba_battleStateTimer ba2), ba_battleState := BATTLE_STATE_ENDING\<rparr>))
                      else (flags, ba2)
               | BATTLE_STATE_ENDING \<Rightarrow>
                   if ba_playerInBattleCounter ba1 \<le> 0 then (flags, ba1\<lparr>ba_battleState := BATTLE_STATE_ENDED\<rparr>) else (flags, ba1)
               | _ \<Rightarrow> (flags, ba1))
        in if flags1 \<noteq> BATTLE_UPDATEFLAG_NONE then ba_sendBattleUpdateToPlayers flags1 ba2 else ba2)"

section \<open>The safe zone closes\<close>

definition running :: "delay_timer \<Rightarrow> bool" where
  "running t \<longleftrightarrow> 0 < dt_duration t \<and> dt_duration t \<le> 2147483647 \<and> dt_current t \<le> dt_duration t \<and> - 2147483648 \<le> dt_current t"

lemma running_elapsed:
  assumes "running t"
  shows "delay_getElapsed t = dt_duration t - max 0 (dt_current t)" "0 \<le> delay_getElapsed t" "delay_getElapsed t \<le> dt_duration t"
proof -
  have "i32 (dt_duration t - max 0 (dt_current t)) = dt_duration t - max 0 (dt_current t)"
    using assms by (intro i32_id) (auto simp: running_def int32_range_def)
  then show "delay_getElapsed t = dt_duration t - max 0 (dt_current t)" "0 \<le> delay_getElapsed t" "delay_getElapsed t \<le> dt_duration t"
    using assms by (auto simp: running_def delay_getElapsed_def delay_getRemainder_def)
qed

lemma zoneScale_bounds:
  assumes "float_rounding fl" and "running t"
  shows "0 \<le> ba_zoneScale fl t" "ba_zoneScale fl t \<le> 1" "dt_current t \<le> 0 \<Longrightarrow> ba_zoneScale fl t = 1"
proof -
  note fl = float_roundingD [OF assms(1)] and el = running_elapsed [OF assms(2)]
  have d: "1 \<le> fl (of_int (dt_duration t))" using fl(1) [of 1 "of_int (dt_duration t)"] fl(3) assms(2) by (simp add: running_def)
  have e: "0 \<le> fl (of_int (delay_getElapsed t))" using fl(1) [of 0 "of_int (delay_getElapsed t)"] fl(2) el(2) by simp
  then have "0 \<le> fl (of_int (delay_getElapsed t)) / fl (of_int (dt_duration t))" using d by simp
  from fl(1) [OF this] show "0 \<le> ba_zoneScale fl t" by (simp add: ba_zoneScale_def fl(2))
  show "ba_zoneScale fl t \<le> 1" by (simp add: ba_zoneScale_def)
  show "ba_zoneScale fl t = 1" if "dt_current t \<le> 0"
    using that d el(1) fl(3) assms(2) by (simp add: ba_zoneScale_def)
qed

lemma zoneScale_mono:
  assumes "float_rounding fl" and "running t" and "running t'" and "dt_duration t' = dt_duration t" and "dt_current t' \<le> dt_current t"
  shows "ba_zoneScale fl t \<le> ba_zoneScale fl t'"
proof -
  note fl = float_roundingD [OF assms(1)]
  have "1 \<le> fl (of_int (dt_duration t))" using fl(1) [of 1 "of_int (dt_duration t)"] fl(3) assms(2) by (simp add: running_def)
  moreover have "fl (of_int (delay_getElapsed t)) \<le> fl (of_int (delay_getElapsed t'))"
    using assms(4,5) running_elapsed(1) [OF assms(2)] running_elapsed(1) [OF assms(3)] by (intro fl(1)) simp
  ultimately have "fl (of_int (delay_getElapsed t)) / fl (of_int (dt_duration t)) \<le> fl (of_int (delay_getElapsed t')) / fl (of_int (dt_duration t'))"
    using assms(4) by (simp add: divide_right_mono)
  from fl(1) [OF this] show ?thesis using assms(4) by (simp add: ba_zoneScale_def min.coboundedI2)
qed

lemma zoneRadius_props:
  assumes "float_rounding fl" and "running t" and "0 \<le> R" and "R \<le> 16777216"
  shows "0 \<le> ba_zoneRadius fl R t" "ba_zoneRadius fl R t \<le> R" "dt_current t \<le> 0 \<Longrightarrow> ba_zoneRadius fl R t = 0"
    and "\<And>t'. running t' \<Longrightarrow> dt_duration t' = dt_duration t \<Longrightarrow> dt_current t' \<le> dt_current t \<Longrightarrow> ba_zoneRadius fl R t' \<le> ba_zoneRadius fl R t"
proof -
  note fl = float_roundingD [OF assms(1)] and sc = zoneScale_bounds [OF assms(1)]
  have R: "fl (of_int R) = of_int R" using fl(4) assms(3,4) by simp
  have x: "0 \<le> fl (of_int R * ba_zoneScale fl u) \<and> fl (of_int R * ba_zoneScale fl u) \<le> of_int R" if "running u" for u
  proof
    show "0 \<le> fl (of_int R * ba_zoneScale fl u)"
      using fl(1) [of 0 "of_int R * ba_zoneScale fl u"] fl(2) sc(1) [OF that] assms(3) by simp
    have "of_int R * ba_zoneScale fl u \<le> of_int R" using sc(2) [OF that] assms(3) by (simp add: mult_left_le)
    from fl(1) [OF this] show "fl (of_int R * ba_zoneScale fl u) \<le> of_int R" by (simp add: R)
  qed
  have z: "ba_zoneRadius fl R u = R - \<lfloor>fl (of_int R * ba_zoneScale fl u)\<rfloor>" if "running u" for u
    using x [OF that] by (simp add: ba_zoneRadius_def R)
  show "0 \<le> ba_zoneRadius fl R t" using x [OF assms(2)] by (simp add: z [OF assms(2)] floor_le_iff)
  show "ba_zoneRadius fl R t \<le> R" using x [OF assms(2)] by (simp add: z [OF assms(2)])
  show "ba_zoneRadius fl R t = 0" if "dt_current t \<le> 0" using sc(3) [OF assms(2) that] by (simp add: z [OF assms(2)] R)
  show "ba_zoneRadius fl R t' \<le> ba_zoneRadius fl R t"
    if t': "running t'" "dt_duration t' = dt_duration t" "dt_current t' \<le> dt_current t" for t'
  proof -
    have "of_int R * ba_zoneScale fl t \<le> of_int R * ba_zoneScale fl t'"
      using zoneScale_mono [OF assms(1,2) t'] assms(3) by (simp add: mult_left_mono)
    from floor_mono [OF fl(1) [OF this]] show ?thesis by (simp add: z [OF assms(2)] z [OF t'(1)])
  qed
qed

lemma shrink_step:
  "1 \<le> r \<Longrightarrow> d = min 8 (r div 2) \<Longrightarrow> (if r - 1 - d < sight_tiles \<and> (r - 1) mod 2 \<noteq> 0 then d - 1 else d) = min 8 ((r - 1) div 2)"
proof (cases "17 \<le> r")
  case True
  moreover assume "d = min 8 (r div 2)"
  moreover have "8 \<le> r div 2" "8 \<le> (r - 1) div 2" using True by linarith+
  ultimately show ?thesis by (simp add: sight_tiles_def)
next
  case False
  moreover assume r: "1 \<le> r" and "d = min 8 (r div 2)"
  moreover have "r div 2 \<le> 8" "(r - 1) div 2 \<le> 8" "r - 1 - r div 2 < 8" using False by linarith+
  moreover have "(r - 1) div 2 = (if (r - 1) mod 2 \<noteq> 0 then r div 2 - 1 else r div 2)" by presburger
  ultimately show ?thesis by (simp add: sight_tiles_def)
qed

lemma shrink_result:
  "0 \<le> n \<Longrightarrow> n \<le> r \<Longrightarrow> d = min 8 (r div 2) \<Longrightarrow> ba_shrink n r d = (n, min 8 (n div 2))"
proof (induction n r d rule: ba_shrink.induct)
  case (1 n r d)
  show ?case
  proof (cases "n < r")
    case True
    show ?thesis
      using "1.IH" [OF True refl] "1.prems" True shrink_step [of r d] by (subst ba_shrink.simps) (simp add: Let_def)
  next
    case False
    then show ?thesis using "1.prems" by (subst ba_shrink.simps) simp
  qed
qed

definition zone_ok :: "(rat \<Rightarrow> rat) \<Rightarrow> battle \<Rightarrow> bool" where
  "zone_ok fl ba \<longleftrightarrow> ba_battleState ba = BATTLE_STATE_IN_PROGRESS \<and> ba_isSafeZoneEnabled ba \<and> running (ba_battleStateTimer ba)
     \<and> 0 \<le> ba_initialSafeZoneRadius ba \<and> ba_initialSafeZoneRadius ba \<le> 16777216
     \<and> ba_zoneRadius fl (ba_initialSafeZoneRadius ba) (ba_battleStateTimer ba) \<le> ba_currSafeZoneRadius ba
     \<and> ba_currSafeDistance ba = min 8 (ba_currSafeZoneRadius ba div 2)"

lemma updateSafeZone_ok:
  assumes "float_rounding fl" and "zone_ok fl ba"
  defines "ba' \<equiv> ba_updateSafeZone fl ba"
  shows "zone_ok fl ba'" "ba_currSafeZoneRadius ba' = ba_zoneRadius fl (ba_initialSafeZoneRadius ba) (ba_battleStateTimer ba)"
    "ba_battleStateTimer ba' = ba_battleStateTimer ba" "ba_initialSafeZoneRadius ba' = ba_initialSafeZoneRadius ba"
    "ba_safeZoneCenter ba' = ba_safeZoneCenter ba"
proof -
  let ?n = "ba_zoneRadius fl (ba_initialSafeZoneRadius ba) (ba_battleStateTimer ba)"
  have "0 \<le> ?n" using zoneRadius_props(1) [OF assms(1)] assms(2) by (simp add: zone_ok_def)
  then have sh: "ba_shrink ?n (ba_currSafeZoneRadius ba) (min 8 (ba_currSafeZoneRadius ba div 2)) = (?n, min 8 (?n div 2))"
    using shrink_result assms(2) by (simp add: zone_ok_def)
  show "zone_ok fl ba'" "ba_currSafeZoneRadius ba' = ?n" "ba_battleStateTimer ba' = ba_battleStateTimer ba"
    "ba_initialSafeZoneRadius ba' = ba_initialSafeZoneRadius ba" "ba_safeZoneCenter ba' = ba_safeZoneCenter ba"
    using assms(2) by (auto simp: ba'_def ba_updateSafeZone_def zone_ok_def sh Let_def)
qed

lemma running_update:
  assumes "running t" and "0 \<le> d" and "int32_range d"
  shows "running (delay_update d t)" "dt_duration (delay_update d t) = dt_duration t" "dt_current (delay_update d t) \<le> dt_current t"
  using assms delay_update_nonneg [of d t] by (auto simp: running_def int32_range_def split: if_splits)

lemma sendUpdate_frame [simp]:
  "zone_ok fl (ba_sendBattleUpdateToPlayers flags ba) = zone_ok fl ba"
  "ba_battleStateTimer (ba_sendBattleUpdateToPlayers flags ba) = ba_battleStateTimer ba"
  "ba_currSafeZoneRadius (ba_sendBattleUpdateToPlayers flags ba) = ba_currSafeZoneRadius ba"
  "ba_battleState (ba_sendBattleUpdateToPlayers flags ba) = ba_battleState ba"
  "ba_isStopped (ba_sendBattleUpdateToPlayers flags ba) = ba_isStopped ba"
  "ba_playerInBattleCounter (ba_sendBattleUpdateToPlayers flags ba) = ba_playerInBattleCounter ba"
  by (simp_all add: ba_sendBattleUpdateToPlayers_def zone_ok_def)

lemma battle_tick_ok:
  fixes victor :: "nat option"
  assumes "float_rounding fl" and ok: "zone_ok fl ba" and d: "0 \<le> d" "int32_range d"
  defines "ba' \<equiv> ba_updateBattleState fl d False victor ba"
  shows "zone_ok fl ba'" "ba_battleStateTimer ba' = delay_update d (ba_battleStateTimer ba)"
    "ba_currSafeZoneRadius ba' \<le> ba_currSafeZoneRadius ba" "delay_passed (ba_battleStateTimer ba') \<Longrightarrow> ba_currSafeZoneRadius ba' = 0"
proof -
  let ?t = "delay_update d (ba_battleStateTimer ba)"
  let ?b = "ba\<lparr>ba_isAliveCountDirty := False, ba_battleStateTimer := ?t\<rparr>"
  have run: "running (ba_battleStateTimer ba)" and R: "0 \<le> ba_initialSafeZoneRadius ba" "ba_initialSafeZoneRadius ba \<le> 16777216"
    using ok by (simp_all add: zone_ok_def)
  note t = running_update [OF run d]
  have le: "ba_zoneRadius fl (ba_initialSafeZoneRadius ba) ?t \<le> ba_currSafeZoneRadius ba"
    using zoneRadius_props(4) [OF assms(1) run R t] ok by (simp add: zone_ok_def)
  then have b: "zone_ok fl ?b" using ok t(1) by (simp add: zone_ok_def)
  note u = updateSafeZone_ok [OF assms(1) b]
  have "\<exists>flags. ba' = ba_updateSafeZone fl ?b \<or> ba' = ba_sendBattleUpdateToPlayers flags (ba_updateSafeZone fl ?b)"
    using ok by (auto simp: ba'_def ba_updateBattleState_def zone_ok_def Let_def)
  then obtain flags where "ba' = ba_updateSafeZone fl ?b \<or> ba' = ba_sendBattleUpdateToPlayers flags (ba_updateSafeZone fl ?b)" by blast
  then have e: "zone_ok fl ba' = zone_ok fl (ba_updateSafeZone fl ?b)" "ba_battleStateTimer ba' = ba_battleStateTimer (ba_updateSafeZone fl ?b)"
    "ba_currSafeZoneRadius ba' = ba_currSafeZoneRadius (ba_updateSafeZone fl ?b)"
    by auto
  show "zone_ok fl ba'" "ba_battleStateTimer ba' = ?t" "ba_currSafeZoneRadius ba' \<le> ba_currSafeZoneRadius ba"
    using u le by (simp_all add: e)
  show "ba_currSafeZoneRadius ba' = 0" if "delay_passed (ba_battleStateTimer ba')"
    using that u zoneRadius_props(3) [OF assms(1) t(1) R] by (simp add: e delay_passed_def)
qed

lemma battle_ticks_ok:
  assumes "float_rounding fl"
  shows "zone_ok fl ba \<Longrightarrow> list_all (\<lambda>d. 0 \<le> d \<and> int32_range d) ds \<Longrightarrow>
    zone_ok fl (fold (\<lambda>d. ba_updateBattleState fl d False victor) ds ba)
    \<and> ba_battleStateTimer (fold (\<lambda>d. ba_updateBattleState fl d False victor) ds ba) = fold delay_update ds (ba_battleStateTimer ba)
    \<and> ba_currSafeZoneRadius (fold (\<lambda>d. ba_updateBattleState fl d False victor) ds ba) \<le> ba_currSafeZoneRadius ba"
proof (induction ds arbitrary: ba)
  case (Cons d ds)
  then have d: "0 \<le> d" "int32_range d" by auto
  note t = battle_tick_ok [OF assms Cons.prems(1) d, of victor]
  show ?case using Cons.IH [OF t(1)] Cons.prems(2) t(2,3) by auto
qed simp


section \<open>The order of the states\<close>

text \<open>
  The steps of a battle. The theater configures a map only while it is stopped, and it updates a map
  only while it is running; \<^verbatim>\<open>BattleMap::update\<close> does nothing once the battle has ended.
\<close>

inductive battle_step :: "battle \<Rightarrow> battle \<Rightarrow> bool" where
  configure: "ba_isStopped ba \<Longrightarrow> battle_step ba (ba_setCombatGrade g ba)"
| prepare: "ba_isStopped ba \<Longrightarrow> battle_step ba (ba_prepareForBattle c ba)"
| start: "battle_step ba (ba_onStart preparation ba)"
| stop: "(\<And>b. ba_battleState (cleanup b) = ba_battleState b \<and> ba_isStopped (cleanup b) = ba_isStopped b)
    \<Longrightarrow> ba_onStop cleanup ba = Inr ba' \<Longrightarrow> battle_step ba ba'"
| update: "\<not> ba_isStopped ba \<Longrightarrow> \<not> ba_isBattleEnded ba \<Longrightarrow> battle_step ba (ba_updateBattleState fl diff allHere victor ba)"
| born: "battle_step ba (ba_increaseAliveCounter ba)"
| player_killed: "ba_playerKilled ba = Inr (r, ba') \<Longrightarrow> battle_step ba ba'"
| robot_killed: "ba_robotKilled ba = Inr (r, ba') \<Longrightarrow> battle_step ba ba'"
| joined: "battle_step ba (ba_increasePlayerInBattleCounter ba)"
| left: "ba_decreasePlayerInBattleCounter ba = Inr ba' \<Longrightarrow> battle_step ba ba'"

inductive battle_reachable :: "battle \<Rightarrow> bool" where
  init: "battle_reachable (ba_new mapId width height populationCap battleDuration)"
| step: "battle_reachable ba \<Longrightarrow> battle_step ba ba' \<Longrightarrow> battle_reachable ba'"

fun phase :: "battle_state \<Rightarrow> nat" where
  "phase BATTLE_STATE_NONE = 0"
| "phase BATTLE_STATE_PREPARING = 1"
| "phase BATTLE_STATE_IN_PROGRESS = 2"
| "phase BATTLE_STATE_ENDING = 3"
| "phase BATTLE_STATE_ENDED = 4"

lemma phase_0 [simp]: "phase st = 0 \<longleftrightarrow> st = BATTLE_STATE_NONE"
  by (cases st) auto

lemma updateSafeZone_frame [simp]:
  "ba_battleState (ba_updateSafeZone fl ba) = ba_battleState ba" "ba_isStopped (ba_updateSafeZone fl ba) = ba_isStopped ba"
  by (simp_all add: ba_updateSafeZone_def Let_def split: prod.split)

lemma withdrawVictor_frame [simp]:
  "ba_battleState (ba_withdrawVictor v ba) = ba_battleState ba" "ba_isStopped (ba_withdrawVictor v ba) = ba_isStopped ba"
  by (simp_all add: ba_withdrawVictor_def split: option.split)

lemma update_phase:
  fixes fl diff allHere victor
  assumes "ba_battleState ba \<noteq> BATTLE_STATE_NONE"
  defines "ba' \<equiv> ba_updateBattleState fl diff allHere victor ba"
  shows "ba_isStopped ba' = ba_isStopped ba \<and> phase (ba_battleState ba') \<in> {phase (ba_battleState ba), phase (ba_battleState ba) + 1}
    \<and> (ba_battleState ba \<noteq> BATTLE_STATE_ENDED \<and> ba_battleState ba' = BATTLE_STATE_ENDED \<longrightarrow> ba_playerInBattleCounter ba' \<le> 0)"
  using assms(1) by (cases "ba_battleState ba") (auto simp: ba'_def ba_updateBattleState_def Let_def)

lemma step_phase:
  assumes "battle_step ba ba'" and "ba_battleState ba = BATTLE_STATE_NONE \<longleftrightarrow> ba_isStopped ba"
  shows "(ba_battleState ba' = BATTLE_STATE_NONE \<longleftrightarrow> ba_isStopped ba')
    \<and> (phase (ba_battleState ba') \<in> {0, phase (ba_battleState ba), phase (ba_battleState ba) + 1}
       \<or> ba_isTrainingGround ba \<and> ba_battleState ba = BATTLE_STATE_NONE \<and> ba_battleState ba' = BATTLE_STATE_IN_PROGRESS)
    \<and> (ba_battleState ba \<noteq> BATTLE_STATE_ENDED \<and> ba_battleState ba' = BATTLE_STATE_ENDED \<longrightarrow> ba_playerInBattleCounter ba' \<le> 0)"
  using assms
proof (induction rule: battle_step.induct)
  case (start ba preparation)
  then show ?case by (auto simp: ba_onStart_def ba_restart_def Let_def ba_isTrainingGround_def)
next
  case (stop cleanup ba ba')
  have "ba' = ba \<or> ba_battleState ba' = BATTLE_STATE_NONE \<and> ba_isStopped ba'"
    using stop(2) by (auto simp: ba_onStop_def Let_def split: if_splits)
  then show ?case using stop.prems by auto
next
  case (update ba fl diff allHere victor)
  let ?b = "ba_updateBattleState fl diff allHere victor ba"
  have ne: "ba_battleState ba \<noteq> BATTLE_STATE_NONE" using update by simp
  note u = update_phase [OF ne, of fl diff allHere victor]
  have "phase (ba_battleState ba) \<noteq> 0" using ne by simp
  then have "phase (ba_battleState ?b) \<noteq> 0" using u by auto
  then show ?case using u update(1) by simp
qed (auto simp: ba_setCombatGrade_def ba_prepareForBattle_def ba_setSafeZoneCenter_def ba_increaseAliveCounter_def ba_decreaseAliveCounter_def
    ba_playerKilled_def ba_robotKilled_def ba_increasePlayerInBattleCounter_def ba_decreasePlayerInBattleCounter_def Let_def split: if_splits sum.splits)

lemma reachable_stopped: "battle_reachable ba \<Longrightarrow> ba_battleState ba = BATTLE_STATE_NONE \<longleftrightarrow> ba_isStopped ba"
proof (induction rule: battle_reachable.induct)
  case (step ba ba')
  then show ?case using step_phase by blast
qed (simp add: ba_new_def)

text \<open>
  C15: a battle runs through its states in order. It can be joined exactly while the map is stopped;
  from any reachable state a step stays, moves on by one state, or stops the battle, except that a
  training ground skips the preparation; and a battle only ends once no player is in it any more.
\<close>

theorem battle_state_order:
  assumes "battle_reachable ba" and "battle_step ba ba'"
  shows "(ba_canJoinBattle ba \<longleftrightarrow> ba_isStopped ba)
    \<and> (phase (ba_battleState ba') \<in> {0, phase (ba_battleState ba), phase (ba_battleState ba) + 1}
       \<or> ba_isTrainingGround ba \<and> ba_battleState ba = BATTLE_STATE_NONE \<and> ba_battleState ba' = BATTLE_STATE_IN_PROGRESS)
    \<and> (ba_battleState ba \<noteq> BATTLE_STATE_ENDED \<and> ba_battleState ba' = BATTLE_STATE_ENDED \<longrightarrow> ba_playerInBattleCounter ba' \<le> 0)"
  unfolding ba_canJoinBattle_def
  using step_phase [OF assms(2) reachable_stopped [OF assms(1)]] reachable_stopped [OF assms(1)] by blast

theorem battle_state_order_witness:
  "\<exists>ba' :: battle. battle_reachable (ba_onStart 3000 (ba_setCombatGrade \<lparr>cg_grade = 2, cg_minCombatPower = 0, cg_maxCombatPower = 9\<rparr> (ba_new 1 40 40 10 300)))
     \<and> \<not> ba_canJoinBattle (ba_onStart 3000 (ba_setCombatGrade \<lparr>cg_grade = 2, cg_minCombatPower = 0, cg_maxCombatPower = 9\<rparr> (ba_new 1 40 40 10 300)))
     \<and> phase (ba_battleState ba') = 2"
proof -
  let ?g = "\<lparr>cg_grade = 2, cg_minCombatPower = 0, cg_maxCombatPower = 9\<rparr>"
  let ?b = "ba_onStart 3000 (ba_setCombatGrade ?g (ba_new 1 40 40 10 300))"
  let ?b' = "ba_updateBattleState id 4000 False None ?b"
  have "battle_step (ba_new 1 40 40 10 300) (ba_setCombatGrade ?g (ba_new 1 40 40 10 300))"
    by (rule battle_step.configure) (simp add: ba_new_def)
  from battle_reachable.step [OF battle_reachable.step [OF battle_reachable.init this] battle_step.start]
  have r: "battle_reachable ?b" .
  have st: "ba_battleState ?b = BATTLE_STATE_PREPARING" "\<not> ba_isStopped ?b"
    by (simp_all add: ba_onStart_def ba_restart_def ba_setCombatGrade_def ba_new_def ba_isTrainingGround_def TRAINING_GROUND_COMBAT_GRADE_def Let_def)
  have s: "battle_step ?b ?b'" by (rule battle_step.update) (use st in \<open>simp_all add: ba_isBattleEnded_def\<close>)
  have "phase (ba_battleState ?b') = 2"
    by (simp add: ba_updateBattleState_def st(1) ba_onStart_def ba_restart_def ba_setCombatGrade_def ba_new_def ba_isTrainingGround_def
        TRAINING_GROUND_COMBAT_GRADE_def Let_def ba_getDurationByBattleState_def delay_setDuration_def delay_update_def delay_passed_def i32_def
        ba_sendBattleUpdateToPlayers_def)
  moreover have "\<not> ba_canJoinBattle ?b" using battle_state_order [OF r s] st(2) by blast
  ultimately show ?thesis using r by (intro exI [of _ ?b'] conjI)
qed


section \<open>Ranks\<close>

definition ba_unitKilled :: "bool \<Rightarrow> battle \<Rightarrow> battle_error + (battle_outcome \<times> int) option \<times> battle" where
  "ba_unitKilled isPlayer = (if isPlayer then ba_playerKilled else ba_robotKilled)"

fun ba_killAll :: "bool list \<Rightarrow> battle \<Rightarrow> battle_error + (battle_outcome \<times> int) option list \<times> battle" where
  \<comment> \<open>a sequence of kills, of players and robots, with what each is told\<close>
  "ba_killAll [] ba = Inr ([], ba)"
| "ba_killAll (k # ks) ba =
     (case ba_unitKilled k ba of
        Inl e \<Rightarrow> Inl e
      | Inr (r, ba1) \<Rightarrow> (case ba_killAll ks ba1 of Inl e \<Rightarrow> Inl e | Inr (rs, ba2) \<Rightarrow> Inr (r # rs, ba2)))"

fun ranking :: "int \<Rightarrow> bool list \<Rightarrow> (battle_outcome \<times> int) option list" where
  \<comment> \<open>with \<open>n\<close> units alive: the ranks count down, and only a player who is left alone wins\<close>
  "ranking n [] = []"
| "ranking n (k # ks) =
     (if n > 1 then Some (BATTLE_DEFEAT, n) else if k then Some (BATTLE_VICTORY, n) else None) # ranking (n - 1) ks"

lemma unitKilled_result:
  assumes "\<not> ba_isTrainingGround ba" and "0 < ba_aliveCounter ba"
  shows "ba_unitKilled k ba =
    Inr (if ba_aliveCounter ba > 1 then Some (BATTLE_DEFEAT, ba_aliveCounter ba)
         else if k then Some (BATTLE_VICTORY, ba_aliveCounter ba) else None,
         ba\<lparr>ba_aliveCounter := ba_aliveCounter ba - 1, ba_isAliveCountDirty := True\<rparr>)"
  using assms by (auto simp: ba_unitKilled_def ba_playerKilled_def ba_robotKilled_def ba_decreaseAliveCounter_def ba_isTrainingGround_def)

text \<open>
  C22: in a battle of \<open>n\<close> units the killed get the ranks \<open>n\<close>, \<open>n - 1\<close> and so on down, each once, whatever the
  order in which players and robots fall. All are told that they lost, except a player who falls as
  the last unit, who gets the first rank and the victory. The counter of units alive follows, and a
  kill beyond the last unit trips the assertion.
\<close>

theorem ranks_count_down:
  assumes "\<not> ba_isTrainingGround ba"
  shows "ba_killAll ks ba =
    (if int (length ks) \<le> max 0 (ba_aliveCounter ba)
     then Inr (ranking (ba_aliveCounter ba) ks,
               if ks = [] then ba else ba\<lparr>ba_aliveCounter := ba_aliveCounter ba - int (length ks), ba_isAliveCountDirty := True\<rparr>)
     else Inl BattleAssertion)"
  using assms
proof (induction ks arbitrary: ba)
  case (Cons k ks)
  show ?case
  proof (cases "0 < ba_aliveCounter ba")
    case True
    let ?b = "ba\<lparr>ba_aliveCounter := ba_aliveCounter ba - 1, ba_isAliveCountDirty := True\<rparr>"
    have "\<not> ba_isTrainingGround ?b" using Cons.prems by (simp add: ba_isTrainingGround_def)
    from Cons.IH [OF this] show ?thesis
      using True unitKilled_result [OF Cons.prems True, of k] by (auto simp: max_def)
  next
    case False
    then show ?thesis
      by (simp add: ba_unitKilled_def ba_playerKilled_def ba_robotKilled_def ba_decreaseAliveCounter_def)
  qed
qed simp

theorem ranks_count_down_witness:
  "\<exists>ba :: battle. ba_killAll [True, False, True] ba =
     Inr ([Some (BATTLE_DEFEAT, 3), Some (BATTLE_DEFEAT, 2), Some (BATTLE_VICTORY, 1)], ba\<lparr>ba_aliveCounter := 0, ba_isAliveCountDirty := True\<rparr>)"
proof -
  let ?b = "(ba_setCombatGrade \<lparr>cg_grade = 2, cg_minCombatPower = 0, cg_maxCombatPower = 9\<rparr> (ba_new 1 40 40 10 300))\<lparr>ba_aliveCounter := 3\<rparr>"
  have "\<not> ba_isTrainingGround ?b" by (simp add: ba_isTrainingGround_def ba_setCombatGrade_def TRAINING_GROUND_COMBAT_GRADE_def)
  from ranks_count_down [OF this, of "[True, False, True]"] show ?thesis by (intro exI [of _ ?b]) simp
qed

text \<open>
  The radius that \<^verbatim>\<open>calcRadiusToSafeZoneCenter\<close> computes for a tile is the exact threshold at which
  the shrinking zone loses it: with the safe zone enabled, the tile is safe precisely while the
  current radius is at least that large.
\<close>

theorem radius_is_safety_threshold:
  assumes "ba_isSafeZoneEnabled ba"
  shows "ba_isWithinSafeZone ba c \<longleftrightarrow> ba_calcRadiusToSafeZoneCenter ba c \<le> ba_currSafeZoneRadius ba"
  using assms by (auto simp: ba_isWithinSafeZone_def within_square_def ba_calcRadiusToSafeZoneCenter_def Let_def)

theorem radius_is_safety_threshold_witness:
  "\<exists>ba :: battle. ba_isSafeZoneEnabled ba \<and> ba_calcRadiusToSafeZoneCenter ba \<lparr>tc_x = 17, tc_y = 25\<rparr> = 5
     \<and> ba_isWithinSafeZone ba \<lparr>tc_x = 17, tc_y = 25\<rparr>"
proof -
  let ?b = "(ba_setSafeZoneCenter \<lparr>tc_x = 20, tc_y = 20\<rparr> (ba_new 1 40 40 10 300))\<lparr>ba_isSafeZoneEnabled := True\<rparr>"
  have r: "ba_calcRadiusToSafeZoneCenter ?b \<lparr>tc_x = 17, tc_y = 25\<rparr> = 5" "ba_isSafeZoneEnabled ?b" "ba_currSafeZoneRadius ?b = 40"
    by (simp_all add: ba_calcRadiusToSafeZoneCenter_def ba_setSafeZoneCenter_def ba_new_def Let_def)
  then have "ba_isWithinSafeZone ?b \<lparr>tc_x = 17, tc_y = 25\<rparr>" by (simp add: radius_is_safety_threshold [OF r(2)])
  then show ?thesis using r by blast
qed

end
