(* ===== verification/Theater.thy ===== *)
theory Theater
  imports Battle_State
begin

text \<open>
  A theater, \<^verbatim>\<open>Theater.h\<close> and \<^verbatim>\<open>Theater.cpp\<close>: a battle map with the sessions of the players on
  it, its states from idle over waiting to active, and its delayed deletion. The list of players
  waiting to be placed is that of \<^verbatim>\<open>SpawnManager\<close>. A session is known by its address; the theater
  reads its id, whether it has GM permission and its player. The counters of players and GMs are
  integers without a bound, as they count sessions in memory. What lies outside is in \<open>theater_env\<close>
  and in arguments: the maps and combat grades that are configured, the clock, the tile drawn as
  centre of the safe zone, and the placing of players and robots on the map.
\<close>

section \<open>The state\<close>

datatype theater_state = STATE_IDLE | STATE_WAITING_FOR_PLAYERS | STATE_PLAYERS_IN_PLACE | STATE_ACTIVE

datatype theater_error = TheaterAssertion | MapAssertion

type_synonym session_ref = nat

record player_info =
  pl_ref :: nat
  pl_selectedMapId :: u16
  pl_isTrainee :: bool
  pl_combatPower :: u16
  pl_combatGrade :: u8

record session_view =
  sv_ref :: session_ref
  sv_sessionId :: u32
  sv_hasGMPermission :: bool
  sv_player :: "player_info option"

record theater_env =
  te_findMapData :: "u16 \<Rightarrow> battle option"
  te_getCombatGrade :: "u8 \<Rightarrow> combat_grade option"
  te_preparation :: NSTime
  te_float :: "rat \<Rightarrow> rat"

record theater =
  th_theaterId :: u32
  th_battleCount :: u32
  th_sessions :: "u32 \<Rightarrow> session_ref option"
  th_playerCount :: int
  th_gmCount :: int
  th_state :: theater_state
  th_waitForPlayersTimer :: delay_timer
  th_map :: "battle option"
  th_pendingPlayers :: "nat list"
  th_updateDiff :: NSTime
  th_isDeleting :: bool
  th_deletionDelay :: NSTime
  th_deletionStartTime :: int

definition th_new :: "u32 \<Rightarrow> theater" where
  "th_new theaterId = \<lparr>th_theaterId = theaterId, th_battleCount = 0, th_sessions = Map.empty, th_playerCount = 0, th_gmCount = 0,
     th_state = STATE_IDLE, th_waitForPlayersTimer = delay_new, th_map = None, th_pendingPlayers = [], th_updateDiff = 0,
     th_isDeleting = False, th_deletionDelay = 0, th_deletionStartTime = 0\<rparr>"

definition th_getOnlineCount :: "theater \<Rightarrow> int" where
  "th_getOnlineCount t = th_playerCount t + th_gmCount t"

definition th_isSleepState :: "theater \<Rightarrow> bool" where
  "th_isSleepState t = (th_getOnlineCount t \<le> 0 \<and> th_state t = STATE_IDLE)"

section \<open>Deletion\<close>

definition th_setDeletionDelay :: "NSTime \<Rightarrow> theater \<Rightarrow> theater" where
  "th_setDeletionDelay delay t = t\<lparr>th_deletionDelay := delay, th_deletionStartTime := 0\<rparr>"

definition th_canDelete :: "int \<Rightarrow> theater \<Rightarrow> bool" where
  "th_canDelete now t = (if \<not> th_isDeleting t then False else now - th_deletionStartTime t \<ge> th_deletionDelay t)"

definition th_deleteDelayed :: "int \<Rightarrow> theater \<Rightarrow> theater" where
  "th_deleteDelayed now t = (if th_isDeleting t then t else t\<lparr>th_deletionStartTime := now, th_isDeleting := True\<rparr>)"

definition th_undelete :: "theater \<Rightarrow> theater" where
  "th_undelete t = (if \<not> th_isDeleting t then t else t\<lparr>th_deletionStartTime := 0, th_isDeleting := False\<rparr>)"

section \<open>Sessions\<close>

definition th_createMapIfNotExistForPlayer ::
    "theater_env \<Rightarrow> session_view \<Rightarrow> theater \<Rightarrow> theater_error + bool \<times> theater" where
  "th_createMapIfNotExistForPlayer env s t =
     (case th_map t of
        Some _ \<Rightarrow> Inr (False, t)
      | None \<Rightarrow>
          (case sv_player s of
             None \<Rightarrow> Inl TheaterAssertion
           | Some p \<Rightarrow>
               (case te_findMapData env (pl_selectedMapId p) of
                  None \<Rightarrow> Inl TheaterAssertion
                | Some m \<Rightarrow> Inr (True, t\<lparr>th_map := Some m\<rparr>))))"

definition th_configureMapForPlayer ::
    "theater_env \<Rightarrow> tile_coord \<Rightarrow> session_view \<Rightarrow> theater \<Rightarrow> theater_error + theater" where
  "th_configureMapForPlayer env center s t =
     (case th_map t of
        None \<Rightarrow> Inl TheaterAssertion
      | Some m \<Rightarrow>
          (case sv_player s of
             None \<Rightarrow> Inl TheaterAssertion
           | Some p \<Rightarrow>
               (case te_getCombatGrade env (pl_combatGrade p) of
                  None \<Rightarrow> Inl TheaterAssertion
                | Some g \<Rightarrow> Inr (t\<lparr>th_map := Some (ba_prepareForBattle center (ba_setCombatGrade g m))\<rparr>))))"

definition th_countSession :: "session_view \<Rightarrow> theater \<Rightarrow> theater" where
  "th_countSession s t =
     (if sv_hasGMPermission s then t\<lparr>th_gmCount := th_gmCount t + 1\<rparr> else t\<lparr>th_playerCount := th_playerCount t + 1\<rparr>)"

definition th_addSession :: "theater_env \<Rightarrow> tile_coord \<Rightarrow> session_view \<Rightarrow> theater \<Rightarrow> theater_error + theater" where
  "th_addSession env center s t =
     (let inserted = (th_sessions t (sv_sessionId s) = None);
          t1 = (if inserted then t\<lparr>th_sessions := (th_sessions t)(sv_sessionId s \<mapsto> sv_ref s)\<rparr> else t);
          t2 = (if th_isDeleting t1 then th_undelete t1 else t1)
      in case th_createMapIfNotExistForPlayer env s t2 of
           Inl e \<Rightarrow> Inl e
         | Inr (isMapCreated, t3) \<Rightarrow>
             (case (if isMapCreated \<or> th_isSleepState t3 then th_configureMapForPlayer env center s t3 else Inr t3) of
                Inl e \<Rightarrow> Inl e
              | Inr t4 \<Rightarrow> Inr (if inserted then th_countSession s t4 else t4)))"

definition th_welcomes :: "player_info \<Rightarrow> battle \<Rightarrow> bool" where
  \<comment> \<open>the condition for a theater that is not asleep\<close>
  "th_welcomes p m = (\<not> (pl_isTrainee p \<or> ba_isTrainingGround m \<or> \<not> ba_isWithinCombatGrade (pl_combatPower p) m))"

definition th_acceptSession ::
    "theater_env \<Rightarrow> tile_coord \<Rightarrow> session_view \<Rightarrow> theater \<Rightarrow> theater_error + bool \<times> theater" where
  "th_acceptSession env center s t =
     (case (th_map t, sv_player s) of
        (Some m, Some p) \<Rightarrow>
          if th_getOnlineCount t \<le> 0 \<and> ba_mapId m \<noteq> pl_selectedMapId p then Inr (False, t)
          else if th_getOnlineCount t + ba_robotCount m \<ge> ba_populationCap m then Inr (False, t)
          else if \<not> ba_canJoinBattle m then Inr (False, t)
          else if \<not> th_isSleepState t \<and> \<not> th_welcomes p m then Inr (False, t)
          else (case th_addSession env center s t of Inl e \<Rightarrow> Inl e | Inr t1 \<Rightarrow> Inr (True, t1))
      | _ \<Rightarrow> Inl TheaterAssertion)"

definition th_replaceSession :: "session_view \<Rightarrow> theater \<Rightarrow> bool \<times> theater" where
  "th_replaceSession s t =
     (case th_sessions t (sv_sessionId s) of
        None \<Rightarrow> (False, t)
      | Some _ \<Rightarrow> (True, t\<lparr>th_sessions := (th_sessions t)(sv_sessionId s \<mapsto> sv_ref s)\<rparr>))"

definition th_removeSession :: "(session_ref \<Rightarrow> bool) \<Rightarrow> int \<Rightarrow> u32 \<Rightarrow> theater \<Rightarrow> bool \<times> theater" where
  \<comment> \<open>\<open>gm\<close> is \<^verbatim>\<open>hasGMPermission()\<close> of a session\<close>
  "th_removeSession gm now sid t =
     (let (removed, t1) =
        (case th_sessions t sid of
           None \<Rightarrow> (False, t)
         | Some s \<Rightarrow>
             let t1 = t\<lparr>th_sessions := (th_sessions t)(sid := None)\<rparr>
             in (True, if gm s then t1\<lparr>th_gmCount := th_gmCount t1 - 1\<rparr> else t1\<lparr>th_playerCount := th_playerCount t1 - 1\<rparr>))
      in (removed, if th_getOnlineCount t1 \<le> 0 then th_deleteDelayed now t1 else t1))"

definition th_getOrder :: "session_view \<Rightarrow> theater \<Rightarrow> theater_error + rat" where
  \<comment> \<open>the weight, in exact arithmetic\<close>
  "th_getOrder s t =
     (case (th_map t, sv_player s) of
        (Some m, Some p) \<Rightarrow>
          Inr ((if th_getOnlineCount t > 0 \<or> ba_mapId m = pl_selectedMapId p then 1 else 0)
             + (if th_getOnlineCount t + ba_robotCount m < ba_populationCap m
                then 1 + of_int (th_getOnlineCount t) / of_int (ba_populationCap m) else 0)
             + (if ba_canJoinBattle m then 1 else 0)
             + (if th_isSleepState t then 1 else if th_welcomes p m then 1 else 0))
      | _ \<Rightarrow> Inl TheaterAssertion)"

section \<open>Waiting and running\<close>

definition th_addPlayerToQueue :: "nat \<Rightarrow> theater \<Rightarrow> bool \<times> theater" where
  "th_addPlayerToQueue p t =
     (if p \<notin> set (th_pendingPlayers t) then (True, t\<lparr>th_pendingPlayers := th_pendingPlayers t @ [p]\<rparr>) else (False, t))"

definition th_removePlayerFromQueue :: "nat \<Rightarrow> theater \<Rightarrow> theater" where
  "th_removePlayerFromQueue p t =
     (if th_pendingPlayers t = [] then t else t\<lparr>th_pendingPlayers := filter (\<lambda>q. q \<noteq> p) (th_pendingPlayers t)\<rparr>)"

definition th_waitForPlayers :: "theater \<Rightarrow> bool \<times> theater" where
  "th_waitForPlayers t =
     (let t1 = (if th_state t = STATE_IDLE
                then t\<lparr>th_state := STATE_WAITING_FOR_PLAYERS, th_waitForPlayersTimer := delay_reset (th_waitForPlayersTimer t)\<rparr>
                else t)
      in (th_state t1 = STATE_WAITING_FOR_PLAYERS, t1))"

definition th_skipWaitingPlayers :: "theater \<Rightarrow> theater" where
  "th_skipWaitingPlayers t =
     (if \<not> delay_passed (th_waitForPlayersTimer t)
      then t\<lparr>th_waitForPlayersTimer := delay_setPassed (th_waitForPlayersTimer t)\<rparr> else t)"

definition th_setWaitForPlayersTimeout :: "NSTime \<Rightarrow> theater \<Rightarrow> theater" where
  "th_setWaitForPlayersTimeout time t = t\<lparr>th_waitForPlayersTimer := delay_setDuration time (th_waitForPlayersTimer t)\<rparr>"

definition th_onPlayersInPlace :: "(nat list \<Rightarrow> battle \<Rightarrow> battle) \<Rightarrow> theater \<Rightarrow> theater_error + theater" where
  \<comment> \<open>\<open>place\<close> puts the pending players, and robots and items, on the map\<close>
  "th_onPlayersInPlace place t =
     (if th_pendingPlayers t = [] then Inl TheaterAssertion
      else Inr (t\<lparr>th_map := map_option (place (th_pendingPlayers t)) (th_map t), th_pendingPlayers := []\<rparr>))"

definition th_advancedUpdate :: "(nat list \<Rightarrow> battle \<Rightarrow> battle) \<Rightarrow> NSTime \<Rightarrow> theater \<Rightarrow> theater_error + theater" where
  \<comment> \<open>the advanced update of the spawn manager of an active theater is empty\<close>
  "th_advancedUpdate place diff t =
     (let t = t\<lparr>th_updateDiff := diff\<rparr> in
      if th_getOnlineCount t \<le> 0 then Inr t
      else if th_state t = STATE_WAITING_FOR_PLAYERS then
        let t = t\<lparr>th_waitForPlayersTimer := delay_update diff (th_waitForPlayersTimer t)\<rparr>
        in if delay_passed (th_waitForPlayersTimer t) \<and> length (th_pendingPlayers t) > 0
           then (case th_onPlayersInPlace place t of
                   Inl e \<Rightarrow> Inl e
                 | Inr t1 \<Rightarrow> Inr (t1\<lparr>th_state := STATE_PLAYERS_IN_PLACE\<rparr>))
           else Inr t
      else Inr t)"

definition th_update ::
    "theater_env \<Rightarrow> (battle \<Rightarrow> battle) \<Rightarrow> (NSTime \<Rightarrow> battle \<Rightarrow> battle) \<Rightarrow> NSTime \<Rightarrow> theater \<Rightarrow> theater_error + theater" where
  \<comment> \<open>\<open>cleanup\<close> clears the map when it stops, and \<open>tick\<close> is the update of a running map\<close>
  "th_update env cleanup tick diff t =
     (case th_map t of
        None \<Rightarrow> Inr t
      | Some m \<Rightarrow>
          if th_state t = STATE_IDLE then Inr t
          else
            (case (if th_state t = STATE_PLAYERS_IN_PLACE
                   then Inr (t\<lparr>th_map := Some (ba_onStart (te_preparation env) m), th_state := STATE_ACTIVE,
                               th_battleCount := th_battleCount t + 1\<rparr>)
                   else if th_getOnlineCount t \<le> 0 then
                     (case (if th_state t = STATE_ACTIVE then ba_onStop cleanup m else Inr m) of
                        Inl e \<Rightarrow> Inl MapAssertion
                      | Inr m1 \<Rightarrow> Inr (t\<lparr>th_map := Some m1, th_state := STATE_IDLE\<rparr>))
                   else Inr t) of
               Inl e \<Rightarrow> Inl e
             | Inr t1 \<Rightarrow> Inr (if th_state t1 = STATE_ACTIVE then t1\<lparr>th_map := map_option (tick diff) (th_map t1)\<rparr> else t1)))"

section \<open>The invariant\<close>

definition with_gm :: "(session_ref \<Rightarrow> bool) \<Rightarrow> bool \<Rightarrow> (u32 \<Rightarrow> session_ref option) \<Rightarrow> u32 set" where
  "with_gm gm b ss = {i. \<exists>r. ss i = Some r \<and> gm r = b}"

lemma with_gm_finite: "finite (with_gm gm b ss)"
  by (rule finite)

lemma with_gm_add:
  "ss i = None \<Longrightarrow> with_gm gm b (ss(i \<mapsto> r)) = (if gm r = b then insert i (with_gm gm b ss) else with_gm gm b ss)"
  "ss i = None \<Longrightarrow> i \<notin> with_gm gm b ss"
  by (auto simp: with_gm_def)

lemma with_gm_remove:
  "ss i = Some r \<Longrightarrow> with_gm gm b (ss(i := None)) = with_gm gm b ss - {i}" "ss i = Some r \<Longrightarrow> i \<in> with_gm gm b ss \<longleftrightarrow> gm r = b"
  by (auto simp: with_gm_def)

lemma with_gm_replace: "ss i = Some r \<Longrightarrow> gm r' = gm r \<Longrightarrow> with_gm gm b (ss(i \<mapsto> r')) = with_gm gm b ss"
  by (auto simp: with_gm_def)

definition counts_ok :: "(session_ref \<Rightarrow> bool) \<Rightarrow> theater \<Rightarrow> bool" where
  "counts_ok gm t \<longleftrightarrow> th_playerCount t = int (card (with_gm gm False (th_sessions t)))
     \<and> th_gmCount t = int (card (with_gm gm True (th_sessions t)))"

definition map_ok :: "theater \<Rightarrow> bool" where
  "map_ok t \<longleftrightarrow> (case th_map t of
     None \<Rightarrow> th_state t = STATE_IDLE
   | Some m \<Rightarrow> (th_state t = STATE_ACTIVE \<longleftrightarrow> \<not> ba_isStopped m) \<and> (ba_isStopped m \<longleftrightarrow> ba_battleState m = BATTLE_STATE_NONE))"

definition th_ok :: "(session_ref \<Rightarrow> bool) \<Rightarrow> theater \<Rightarrow> bool" where
  "th_ok gm t \<longleftrightarrow> counts_ok gm t \<and> map_ok t \<and> (th_isDeleting t \<longrightarrow> th_sessions t = Map.empty)"

lemma map_ok_cong: "th_map t' = th_map t \<Longrightarrow> th_state t' = th_state t \<Longrightarrow> map_ok t' = map_ok t"
  by (simp add: map_ok_def split: option.split)

lemma counts_ok_cong:
  "th_sessions t' = th_sessions t \<Longrightarrow> th_playerCount t' = th_playerCount t \<Longrightarrow> th_gmCount t' = th_gmCount t \<Longrightarrow> counts_ok gm t' = counts_ok gm t"
  by (simp add: counts_ok_def)

lemma th_ok_cong:
  "th_sessions t' = th_sessions t \<Longrightarrow> th_playerCount t' = th_playerCount t \<Longrightarrow> th_gmCount t' = th_gmCount t \<Longrightarrow>
   th_map t' = th_map t \<Longrightarrow> th_state t' = th_state t \<Longrightarrow> th_isDeleting t' = th_isDeleting t \<Longrightarrow> th_ok gm t' = th_ok gm t"
  unfolding th_ok_def using map_ok_cong [of t' t] counts_ok_cong [of t' t gm] by simp

definition env_ok :: "theater_env \<Rightarrow> bool" where
  \<comment> \<open>a new map is stopped\<close>
  "env_ok env \<longleftrightarrow> (\<forall>i m. te_findMapData env i = Some m \<longrightarrow> ba_isStopped m \<and> ba_battleState m = BATTLE_STATE_NONE)"

text \<open>The operations on a theater in any order, with what they rely on.\<close>

inductive theater_step :: "(session_ref \<Rightarrow> bool) \<Rightarrow> theater_env \<Rightarrow> theater \<Rightarrow> theater \<Rightarrow> bool" for gm env where
  add: "sv_hasGMPermission s = gm (sv_ref s) \<Longrightarrow> th_addSession env c s t = Inr t' \<Longrightarrow> theater_step gm env t t'"
| accept: "sv_hasGMPermission s = gm (sv_ref s) \<Longrightarrow> th_acceptSession env c s t = Inr (b, t') \<Longrightarrow> theater_step gm env t t'"
| remove: "th_removeSession gm now i t = (b, t') \<Longrightarrow> theater_step gm env t t'"
| replace: "th_sessions t (sv_sessionId s) = Some r \<Longrightarrow> gm (sv_ref s) = gm r \<Longrightarrow> th_replaceSession s t = (b, t') \<Longrightarrow> theater_step gm env t t'"
| wait: "th_map t \<noteq> None \<Longrightarrow> th_waitForPlayers t = (b, t') \<Longrightarrow> theater_step gm env t t'"
| skip: "theater_step gm env t (th_skipWaitingPlayers t)"
| enqueue: "th_addPlayerToQueue p t = (b, t') \<Longrightarrow> theater_step gm env t t'"
| dequeue: "theater_step gm env t (th_removePlayerFromQueue p t)"
| advance: "(\<And>ps m. ba_isStopped (place ps m) = ba_isStopped m \<and> ba_battleState (place ps m) = ba_battleState m)
    \<Longrightarrow> th_advancedUpdate place diff t = Inr t' \<Longrightarrow> theater_step gm env t t'"
| update: "(\<And>m. ba_isStopped (cleanup m) = ba_isStopped m)
    \<Longrightarrow> (\<And>d m. \<not> ba_isStopped m \<Longrightarrow> ba_battleState m \<noteq> BATTLE_STATE_NONE \<Longrightarrow> \<not> ba_isStopped (tick d m) \<and> ba_battleState (tick d m) \<noteq> BATTLE_STATE_NONE)
    \<Longrightarrow> th_update env cleanup tick diff t = Inr t' \<Longrightarrow> theater_step gm env t t'"

inductive theater_reachable :: "(session_ref \<Rightarrow> bool) \<Rightarrow> theater_env \<Rightarrow> theater \<Rightarrow> bool" for gm env where
  init: "theater_reachable gm env (th_setWaitForPlayersTimeout timeout (th_setDeletionDelay delay (th_new i)))"
| step: "theater_reachable gm env t \<Longrightarrow> theater_step gm env t t' \<Longrightarrow> theater_reachable gm env t'"

lemma undelete_frame [simp]:
  "th_sessions (th_undelete t) = th_sessions t" "th_playerCount (th_undelete t) = th_playerCount t" "th_gmCount (th_undelete t) = th_gmCount t"
  "th_map (th_undelete t) = th_map t" "th_state (th_undelete t) = th_state t" "\<not> th_isDeleting (th_undelete t)"
  by (simp_all add: th_undelete_def)

text \<open>What adding a session does to the theater.\<close>

lemma addSession_effect:
  assumes "th_addSession env c s t = Inr t'"
  shows "\<not> th_isDeleting t'" "th_state t' = th_state t"
    "th_sessions t (sv_sessionId s) \<noteq> None \<Longrightarrow> th_sessions t' = th_sessions t \<and> th_playerCount t' = th_playerCount t \<and> th_gmCount t' = th_gmCount t"
    "th_sessions t (sv_sessionId s) = None \<Longrightarrow> th_sessions t' = (th_sessions t)(sv_sessionId s \<mapsto> sv_ref s)
       \<and> th_playerCount t' = th_playerCount t + (if sv_hasGMPermission s then 0 else 1)
       \<and> th_gmCount t' = th_gmCount t + (if sv_hasGMPermission s then 1 else 0)"
    "\<exists>m. (th_map t = Some m \<or> th_map t = None \<and> (\<exists>i. te_findMapData env i = Some m))
       \<and> (th_map t' = Some m \<or> (th_map t = None \<or> th_isSleepState t) \<and> (\<exists>g. th_map t' = Some (ba_prepareForBattle c (ba_setCombatGrade g m))))"
proof -
  let ?t1 = "if th_sessions t (sv_sessionId s) = None then t\<lparr>th_sessions := (th_sessions t)(sv_sessionId s \<mapsto> sv_ref s)\<rparr> else t"
  let ?t2 = "if th_isDeleting ?t1 then th_undelete ?t1 else ?t1"
  have t2: "\<not> th_isDeleting ?t2" "th_state ?t2 = th_state t" "th_map ?t2 = th_map t" "th_sessions ?t2 = th_sessions ?t1"
    "th_playerCount ?t2 = th_playerCount t" "th_gmCount ?t2 = th_gmCount t" by auto
  obtain created t3 where t3: "th_createMapIfNotExistForPlayer env s ?t2 = Inr (created, t3)"
    using assms by (auto simp: th_addSession_def Let_def split: sum.splits)
  then obtain t4 where t4: "(if created \<or> th_isSleepState t3 then th_configureMapForPlayer env c s t3 else Inr t3) = Inr t4"
    and t': "t' = (if th_sessions t (sv_sessionId s) = None then th_countSession s t4 else t4)"
    using assms by (auto simp: th_addSession_def Let_def split: sum.splits)
  have e3: "\<exists>m. t3 = ?t2\<lparr>th_map := Some m\<rparr> \<and> (th_map t = Some m \<and> \<not> created \<or> th_map t = None \<and> created \<and> (\<exists>i. te_findMapData env i = Some m))"
    using t3 t2(3) by (fastforce simp: th_createMapIfNotExistForPlayer_def split: option.splits)
  then obtain m where m: "t3 = ?t2\<lparr>th_map := Some m\<rparr>" "th_map t = Some m \<and> \<not> created \<or> th_map t = None \<and> created \<and> (\<exists>i. te_findMapData env i = Some m)"
    by blast
  have e4: "t4 = t3 \<or> (created \<or> th_isSleepState t3) \<and> (\<exists>g. t4 = t3\<lparr>th_map := Some (ba_prepareForBattle c (ba_setCombatGrade g m))\<rparr>)"
    using t4 m(1) by (auto simp: th_configureMapForPlayer_def split: if_splits option.splits)
  have f: "th_isDeleting t4 = th_isDeleting t3" "th_state t4 = th_state t3" "th_sessions t4 = th_sessions t3"
    "th_playerCount t4 = th_playerCount t3" "th_gmCount t4 = th_gmCount t3" using e4 by auto
  show "\<not> th_isDeleting t'" "th_state t' = th_state t"
    "th_sessions t (sv_sessionId s) \<noteq> None \<Longrightarrow> th_sessions t' = th_sessions t \<and> th_playerCount t' = th_playerCount t \<and> th_gmCount t' = th_gmCount t"
    "th_sessions t (sv_sessionId s) = None \<Longrightarrow> th_sessions t' = (th_sessions t)(sv_sessionId s \<mapsto> sv_ref s)
       \<and> th_playerCount t' = th_playerCount t + (if sv_hasGMPermission s then 0 else 1)
       \<and> th_gmCount t' = th_gmCount t + (if sv_hasGMPermission s then 1 else 0)"
    using t2 f m(1) by (auto simp: t' th_countSession_def)
  have "th_isSleepState t3 = th_isSleepState t" using m(1) t2 by (simp add: th_isSleepState_def th_getOnlineCount_def)
  moreover have "th_map t' = th_map t4" by (simp add: t' th_countSession_def)
  ultimately show "\<exists>m. (th_map t = Some m \<or> th_map t = None \<and> (\<exists>i. te_findMapData env i = Some m))
       \<and> (th_map t' = Some m \<or> (th_map t = None \<or> th_isSleepState t) \<and> (\<exists>g. th_map t' = Some (ba_prepareForBattle c (ba_setCombatGrade g m))))"
    using m e4 by (intro exI [of _ m]) auto
qed

lemma prepare_frame [simp]:
  "ba_isStopped (ba_prepareForBattle c m) = ba_isStopped m" "ba_battleState (ba_prepareForBattle c m) = ba_battleState m"
  "ba_isStopped (ba_setCombatGrade g m) = ba_isStopped m" "ba_battleState (ba_setCombatGrade g m) = ba_battleState m"
  "ba_robotCount (ba_prepareForBattle c m) = ba_robotCount m" "ba_robotCount (ba_setCombatGrade g m) = ba_robotCount m"
  "ba_populationCap (ba_prepareForBattle c m) = ba_populationCap m" "ba_populationCap (ba_setCombatGrade g m) = ba_populationCap m"
  by (simp_all add: ba_prepareForBattle_def ba_setSafeZoneCenter_def ba_setCombatGrade_def Let_def)

lemma addSession_ok:
  assumes "env_ok env" and "th_ok gm t" and gm: "sv_hasGMPermission s = gm (sv_ref s)" and add: "th_addSession env c s t = Inr t'"
  shows "th_ok gm t'"
proof -
  note e = addSession_effect [OF add]
  have "counts_ok gm t'"
  proof (cases "th_sessions t (sv_sessionId s)")
    case None
    have "card (with_gm gm b (th_sessions t')) = card (with_gm gm b (th_sessions t)) + (if gm (sv_ref s) = b then 1 else 0)" for b
      using e(4) [OF None] None by (auto simp: with_gm_add card_insert_disjoint with_gm_finite)
    then show ?thesis using e(4) [OF None] assms(2) gm by (simp add: th_ok_def counts_ok_def)
  next
    case (Some r)
    then show ?thesis using e(3) assms(2) by (simp add: th_ok_def counts_ok_def)
  qed
  moreover have "map_ok t'"
  proof -
    obtain m where m: "th_map t = Some m \<or> th_map t = None \<and> (\<exists>i. te_findMapData env i = Some m)"
      "th_map t' = Some m \<or> (\<exists>g. th_map t' = Some (ba_prepareForBattle c (ba_setCombatGrade g m)))" using e(5) by blast
    have "(th_state t = STATE_ACTIVE \<longleftrightarrow> \<not> ba_isStopped m) \<and> (ba_isStopped m \<longleftrightarrow> ba_battleState m = BATTLE_STATE_NONE)"
      using m(1) assms(1,2) by (auto simp: th_ok_def map_ok_def env_ok_def)
    then show ?thesis using m(2) e(2) by (auto simp: map_ok_def)
  qed
  ultimately show ?thesis using e(1) by (simp add: th_ok_def)
qed

lemma acceptSession_cases:
  assumes "th_acceptSession env c s t = Inr (b, t')"
  obtains "\<not> b" "t' = t" | "b" "th_addSession env c s t = Inr t'"
  using assms by (auto simp: th_acceptSession_def split: option.splits if_splits sum.splits)

lemma removed_counts:
  assumes "counts_ok gm t" and "th_sessions t i = Some r"
  shows "counts_ok gm (if gm r then t\<lparr>th_sessions := (th_sessions t)(i := None), th_gmCount := th_gmCount t - 1\<rparr>
     else t\<lparr>th_sessions := (th_sessions t)(i := None), th_playerCount := th_playerCount t - 1\<rparr>)"
proof -
  have "int (card (with_gm gm b ((th_sessions t)(i := None)))) = int (card (with_gm gm b (th_sessions t))) - (if gm r = b then 1 else 0)" for b
  proof (cases "gm r = b")
    case True
    then have "i \<in> with_gm gm b (th_sessions t)" using assms(2) by (simp add: with_gm_remove(2))
    then show ?thesis using True card.remove [OF with_gm_finite, of i gm b "th_sessions t"] by (simp add: with_gm_remove(1) [where r = r] assms(2))
  next
    case False
    then have "i \<notin> with_gm gm b (th_sessions t)" using assms(2) by (simp add: with_gm_remove(2))
    then show ?thesis using False by (simp add: with_gm_remove(1) [where r = r] assms(2))
  qed
  then show ?thesis using assms(1) by (simp add: counts_ok_def)
qed

lemma counts_empty:
  assumes "counts_ok gm t" and "th_getOnlineCount t \<le> 0"
  shows "th_sessions t = Map.empty"
proof
  fix i
  have "card (with_gm gm False (th_sessions t)) = 0" "card (with_gm gm True (th_sessions t)) = 0"
    using assms unfolding counts_ok_def th_getOnlineCount_def by linarith+
  then have "with_gm gm False (th_sessions t) = {}" "with_gm gm True (th_sessions t) = {}"
    by (simp_all only: card_0_eq [OF with_gm_finite])
  then have "i \<notin> with_gm gm b (th_sessions t)" for b by (cases b) auto
  then show "th_sessions t i = None" by (cases "th_sessions t i") (auto simp: with_gm_def)
qed

lemma deleteDelayed_ok: "counts_ok gm t \<Longrightarrow> map_ok t \<Longrightarrow> th_getOnlineCount t \<le> 0 \<Longrightarrow> th_ok gm (th_deleteDelayed now t)"
  using counts_empty [of gm t] map_ok_cong [of "th_deleteDelayed now t" t] counts_ok_cong [of "th_deleteDelayed now t" t gm]
  by (simp add: th_ok_def th_deleteDelayed_def)

lemma removeSession_ok:
  assumes "th_ok gm t" and "th_removeSession gm now i t = (b, t')"
  shows "th_ok gm t'"
proof (cases "th_sessions t i")
  case None
  then have "t' = (if th_getOnlineCount t \<le> 0 then th_deleteDelayed now t else t)" using assms(2) by (simp add: th_removeSession_def)
  then show ?thesis using assms(1) deleteDelayed_ok [of gm t now] by (cases "th_getOnlineCount t \<le> 0") (simp_all add: th_ok_def)
next
  case (Some r)
  define t1 where "t1 = (if gm r then t\<lparr>th_sessions := (th_sessions t)(i := None), th_gmCount := th_gmCount t - 1\<rparr>
     else t\<lparr>th_sessions := (th_sessions t)(i := None), th_playerCount := th_playerCount t - 1\<rparr>)"
  have c: "counts_ok gm t1" using removed_counts [OF _ Some] assms(1) by (simp add: t1_def th_ok_def)
  have m: "map_ok t1" using assms(1) map_ok_cong [of t1 t] by (simp add: t1_def th_ok_def)
  have d: "th_isDeleting t1 \<Longrightarrow> th_sessions t1 = Map.empty" using assms(1) Some by (auto simp: t1_def th_ok_def split: if_splits)
  have "t' = (if th_getOnlineCount t1 \<le> 0 then th_deleteDelayed now t1 else t1)"
    using assms(2) Some by (auto simp: th_removeSession_def t1_def Let_def)
  then show ?thesis using deleteDelayed_ok [OF c m, of now] c m d by (cases "th_getOnlineCount t1 \<le> 0") (simp_all add: th_ok_def)
qed

lemma onStop_effect:
  "ba_onStop cleanup m = Inr m' \<Longrightarrow> \<not> ba_isStopped m
   \<Longrightarrow> ba_isStopped m' \<and> ba_battleState m' = BATTLE_STATE_NONE"
  by (auto simp: ba_onStop_def Let_def split: if_splits)

lemma onStart_effect:
  "\<not> ba_isStopped (ba_onStart p m)" "ba_isStopped m \<Longrightarrow> ba_battleState (ba_onStart p m) \<noteq> BATTLE_STATE_NONE"
  by (auto simp: ba_onStart_def ba_restart_def Let_def)

lemma update_map_ok:
  assumes "map_ok t" and cl: "\<And>m. ba_isStopped (cleanup m) = ba_isStopped m"
    and tick: "\<And>d m. \<not> ba_isStopped m \<Longrightarrow> ba_battleState m \<noteq> BATTLE_STATE_NONE \<Longrightarrow> \<not> ba_isStopped (tick d m) \<and> ba_battleState (tick d m) \<noteq> BATTLE_STATE_NONE"
    and "th_update env cleanup tick diff t = Inr t'"
  shows "map_ok t'" and "th_sessions t' = th_sessions t" and "th_playerCount t' = th_playerCount t"
    and "th_gmCount t' = th_gmCount t" and "th_isDeleting t' = th_isDeleting t"
proof -
  show "th_sessions t' = th_sessions t" "th_playerCount t' = th_playerCount t" "th_gmCount t' = th_gmCount t" "th_isDeleting t' = th_isDeleting t"
    using assms(4) by (auto simp: th_update_def split: option.splits if_splits sum.splits)
  show "map_ok t'"
  proof (cases "th_map t = None \<or> th_state t = STATE_IDLE")
    case True
    then show ?thesis using assms(1,4) by (auto simp: th_update_def split: option.splits)
  next
    case False
    then obtain m where m: "th_map t = Some m" "th_state t \<noteq> STATE_IDLE" by auto
    have mo: "th_state t = STATE_ACTIVE \<longleftrightarrow> \<not> ba_isStopped m" "ba_isStopped m \<longleftrightarrow> ba_battleState m = BATTLE_STATE_NONE"
      using assms(1) m by (simp_all add: map_ok_def)
    consider "th_state t = STATE_PLAYERS_IN_PLACE" | "th_state t \<noteq> STATE_PLAYERS_IN_PLACE" "th_getOnlineCount t \<le> 0"
      | "th_state t \<noteq> STATE_PLAYERS_IN_PLACE" "\<not> th_getOnlineCount t \<le> 0" by blast
    then show ?thesis
    proof cases
      case 1
      then have "t' = t\<lparr>th_state := STATE_ACTIVE, th_battleCount := th_battleCount t + 1, th_map := Some (tick diff (ba_onStart (te_preparation env) m))\<rparr>"
        using assms(4) m by (auto simp: th_update_def)
      then show ?thesis using tick [OF onStart_effect(1) onStart_effect(2)] 1 mo by (simp add: map_ok_def)
    next
      case 2
      then obtain m1 where "t' = t\<lparr>th_map := Some m1, th_state := STATE_IDLE\<rparr>" "(if th_state t = STATE_ACTIVE then ba_onStop cleanup m else Inr m) = Inr m1"
        using assms(4) m by (auto simp: th_update_def split: sum.splits)
      then show ?thesis using onStop_effect [of cleanup m m1] mo by (auto simp: map_ok_def split: if_splits)
    next
      case 3
      then have "t' = (if th_state t = STATE_ACTIVE then t\<lparr>th_map := Some (tick diff m)\<rparr> else t)"
        using assms(4) m by (auto simp: th_update_def split: if_splits)
      then show ?thesis using tick [of m diff] mo m by (auto simp: map_ok_def)
    qed
  qed
qed

lemma step_ok:
  assumes "env_ok env" and "theater_step gm env t t'" and "th_ok gm t"
  shows "th_ok gm t'"
  using assms(2,3)
proof (induction rule: theater_step.induct)
  case (add s c t t')
  then show ?case using addSession_ok [OF assms(1)] by blast
next
  case (accept s c t b t')
  show ?case by (rule acceptSession_cases [OF accept(2)]) (use accept addSession_ok [OF assms(1)] in blast)+
next
  case (remove now i t b t')
  then show ?case using removeSession_ok by blast
next
  case (replace t s r b t')
  then have "t' = t\<lparr>th_sessions := (th_sessions t)(sv_sessionId s \<mapsto> sv_ref s)\<rparr>" by (simp add: th_replaceSession_def)
  moreover have "map_ok t'" using replace map_ok_cong [of t' t] calculation by (simp add: th_ok_def)
  ultimately show ?case using replace with_gm_replace [of "th_sessions t" "sv_sessionId s" r gm "sv_ref s"]
    by (auto simp: th_ok_def counts_ok_def)
next
  case (wait t b t')
  then show ?case by (auto simp: th_ok_def counts_ok_def map_ok_def th_waitForPlayers_def Let_def split: if_splits)
next
  case (advance place diff t t')
  then show ?case
    by (auto simp: th_ok_def counts_ok_def map_ok_def th_advancedUpdate_def th_onPlayersInPlace_def Let_def split: if_splits option.splits)
next
  case (update cleanup tick diff t t')
  then show ?case using update_map_ok [of t cleanup tick env diff t'] by (simp add: th_ok_def counts_ok_def)
next
  case (skip t)
  then show ?case using th_ok_cong [of "th_skipWaitingPlayers t" t gm] by (simp add: th_skipWaitingPlayers_def)
next
  case (enqueue p t b t')
  then show ?case using th_ok_cong [of t' t gm] by (auto simp: th_addPlayerToQueue_def split: if_splits)
next
  case (dequeue t p)
  then show ?case using th_ok_cong [of "th_removePlayerFromQueue p t" t gm] by (simp add: th_removePlayerFromQueue_def)
qed

lemma reachable_ok:
  assumes "env_ok env"
  shows "theater_reachable gm env t \<Longrightarrow> th_ok gm t"
proof (induction rule: theater_reachable.induct)
  case (init timeout delay i)
  then show ?case
    by (simp add: th_ok_def counts_ok_def map_ok_def th_setWaitForPlayersTimeout_def th_setDeletionDelay_def th_new_def with_gm_def)
next
  case (step t t')
  then show ?case using step_ok [OF assms] by blast
qed

section \<open>Properties\<close>

text \<open>
  C17: whatever happens to a theater, its books are right. The counters are the numbers of players and of
  GMs among its sessions, its battle map is running exactly while the theater is active, the map can
  be joined exactly while it is not, and a theater that may be deleted has no session left.
\<close>

theorem theater_books_balance:
  assumes "env_ok env" and "theater_reachable gm env t"
  shows "th_playerCount t = int (card {i. \<exists>r. th_sessions t i = Some r \<and> \<not> gm r})
    \<and> th_gmCount t = int (card {i. \<exists>r. th_sessions t i = Some r \<and> gm r})
    \<and> (\<forall>m. th_map t = Some m \<longrightarrow> (th_state t = STATE_ACTIVE \<longleftrightarrow> \<not> ba_isStopped m) \<and> (ba_canJoinBattle m \<longleftrightarrow> th_state t \<noteq> STATE_ACTIVE))
    \<and> (th_canDelete now t \<longrightarrow> th_sessions t = Map.empty)"
proof -
  have ok: "th_ok gm t" by (rule reachable_ok [OF assms])
  then have "\<forall>m. th_map t = Some m \<longrightarrow> (th_state t = STATE_ACTIVE \<longleftrightarrow> \<not> ba_isStopped m) \<and> (ba_canJoinBattle m \<longleftrightarrow> th_state t \<noteq> STATE_ACTIVE)"
    by (auto simp: th_ok_def map_ok_def ba_canJoinBattle_def)
  moreover have "th_canDelete now t \<longrightarrow> th_sessions t = Map.empty"
    using ok by (simp add: th_ok_def th_canDelete_def)
  ultimately show ?thesis using ok by (simp add: th_ok_def counts_ok_def with_gm_def)
qed

definition small_env :: theater_env where
  "small_env = \<lparr>te_findMapData = (\<lambda>i. Some (ba_new i 40 40 3 300)),
     te_getCombatGrade = (\<lambda>g. Some \<lparr>cg_grade = g, cg_minCombatPower = 0, cg_maxCombatPower = 100\<rparr>), te_preparation = 3000, te_float = id\<rparr>"

definition small_session :: "nat \<Rightarrow> u32 \<Rightarrow> session_view" where
  "small_session r i = \<lparr>sv_ref = r, sv_sessionId = i, sv_hasGMPermission = False,
     sv_player = Some \<lparr>pl_ref = r, pl_selectedMapId = 1, pl_isTrainee = False, pl_combatPower = 50, pl_combatGrade = 2\<rparr>\<rparr>"

definition small_theater :: theater where
  "small_theater = th_setWaitForPlayersTimeout 5000 (th_setDeletionDelay 1000 (th_new 1))"

lemma small_env_ok: "env_ok small_env"
  by (simp add: env_ok_def small_env_def ba_new_def)

lemma small_add:
  "\<exists>t. th_addSession small_env c (small_session 7 4) small_theater = Inr t \<and> th_sessions t = [4 \<mapsto> 7]"
  by (simp add: th_addSession_def small_theater_def th_setWaitForPlayersTimeout_def th_setDeletionDelay_def th_new_def
      th_createMapIfNotExistForPlayer_def th_configureMapForPlayer_def small_env_def small_session_def th_countSession_def Let_def)

definition small_center :: tile_coord where
  "small_center = \<lparr>tc_x = 20, tc_y = 20\<rparr>"

lemma small_accepts:
  "\<exists>t t'. th_acceptSession small_env small_center (small_session 8 5) t = Inr (True, t') \<and> th_getOnlineCount t = 1 \<and> th_map t' \<noteq> None
    \<and> (\<forall>m. th_map t = Some m \<longrightarrow> ba_populationCap m = 3 \<and> ba_robotCount m = 0)"
proof -
  obtain t where t: "th_addSession small_env small_center (small_session 7 4) small_theater = Inr t"
    using small_add by blast
  then have "\<exists>t'. th_acceptSession small_env small_center (small_session 8 5) t = Inr (True, t') \<and> th_map t' \<noteq> None"
      "th_getOnlineCount t = 1" "\<forall>m. th_map t = Some m \<longrightarrow> ba_populationCap m = 3 \<and> ba_robotCount m = 0"
    by (auto simp: th_acceptSession_def th_addSession_def small_theater_def th_setWaitForPlayersTimeout_def th_setDeletionDelay_def th_new_def
      th_createMapIfNotExistForPlayer_def th_configureMapForPlayer_def small_env_def small_session_def th_countSession_def Let_def
      th_getOnlineCount_def th_isSleepState_def th_welcomes_def ba_canJoinBattle_def ba_prepareForBattle_def ba_setCombatGrade_def
      ba_setSafeZoneCenter_def ba_new_def ba_isTrainingGround_def TRAINING_GROUND_COMBAT_GRADE_def ba_isWithinCombatGrade_def)
  then show ?thesis by blast
qed

theorem theater_books_balance_witness:
  "\<exists>t. theater_reachable (\<lambda>_. False) small_env t \<and> th_sessions t = [4 \<mapsto> 7] \<and> th_playerCount t = 1 \<and> \<not> th_canDelete 99 t"
proof -
  obtain t where t: "th_addSession small_env small_center (small_session 7 4) small_theater = Inr t" "th_sessions t = [4 \<mapsto> 7]"
    using small_add by blast
  have "theater_reachable (\<lambda>_. False) small_env small_theater" unfolding small_theater_def by (rule theater_reachable.init)
  moreover have "theater_step (\<lambda>_. False) small_env small_theater t"
    by (rule theater_step.add [OF _ t(1)]) (simp add: small_session_def)
  ultimately have r: "theater_reachable (\<lambda>_. False) small_env t" by (rule theater_reachable.step)
  have "{i. \<exists>r. th_sessions t i = Some r \<and> \<not> False} = {4}" by (auto simp: t(2))
  then show ?thesis
    using theater_books_balance [OF small_env_ok r, of 99] t(2) r by (intro exI [of _ t]) auto
qed



text \<open>The weight of a theater reaches four exactly when it would accept the session.\<close>

lemma order_accepts:
  assumes "th_getOrder s t = Inr w" and "0 \<le> th_getOnlineCount t" and "\<And>m. th_map t = Some m \<Longrightarrow> 0 \<le> ba_robotCount m"
    and "th_acceptSession env c s t = Inr (accepted, t')"
  shows "accepted \<longleftrightarrow> 4 \<le> w"
proof -
  obtain m p where mp: "th_map t = Some m" "sv_player s = Some p" using assms(1) by (auto simp: th_getOrder_def split: option.splits)
  have r: "0 \<le> ba_robotCount m" using assms(3) mp(1) by blast
  have q: "0 \<le> q \<and> q < 1" if "th_getOnlineCount t + ba_robotCount m < ba_populationCap m"
    "q = (of_int (th_getOnlineCount t) / of_int (ba_populationCap m) :: rat)" for q
    using that assms(2) r by (simp add: divide_less_eq)
  show ?thesis
    using assms(1,4) mp q by (auto simp: th_getOrder_def th_acceptSession_def split: if_splits sum.splits)
qed

end
