(* ===== verification/Theater_Manager.thy ===== *)
theory Theater_Manager
  imports World_Session Theater "HOL-Library.AList" "HOL-Library.Sublist"
begin

text \<open>
  The theater manager, \<^verbatim>\<open>TheaterManager.h\<close> and \<^verbatim>\<open>TheaterManager.cpp\<close>: it admits sessions up to the
  player limit and queues the others, restores sessions whose client has reconnected, and assigns
  players to theaters. Sessions and theaters are objects on two heaps, named by their addresses;
  \<open>mg_freedSessions\<close> lists the sessions it has deleted. The map of sessions is an association list, whose
  order stands for the unspecified order of the hash map, and \<open>sort_key\<close> stands for \<^verbatim>\<open>std::sort\<close>, which
  leaves the order of equal elements open. The update of a session runs the packet
  handlers and is the parameter \<open>upd\<close>; the random half of a new session id is given by \<open>rnd\<close>, and
  \<open>now\<close> is the clock. A failed assertion is an error value.
\<close>

section \<open>The state\<close>

datatype manager_error = ManagerAssertion | InTheater theater_error | InSession session_error

record 'body manager =
  mg_isStopping :: bool
  mg_isStopped :: bool
  mg_theaterHeap :: "theater_ref \<Rightarrow> theater"
  mg_theaters :: "(u32 \<times> theater_ref) list"
  mg_orderedTheaters :: "theater_ref list"
  mg_playerLimit :: int
  mg_playerCount :: int
  mg_gmCount :: int
  mg_theaterDeletionDelay :: NSTime
  mg_waitForPlayersTimeout :: NSTime
  mg_pendingSessions :: "session_ref concurrent_queue"
  mg_sessionHeap :: "session_ref \<Rightarrow> 'body world_session"
  mg_sessions :: "(u32 \<times> session_ref) list"
  mg_queuedPlayers :: "session_ref list"
  mg_expiredPlayers :: "session_ref list"
  mg_freedSessions :: "session_ref list"
  mg_sessionTimeout :: NSTime
  mg_expiredSessionDelay :: NSTime
  mg_queuedSessionTimeout :: NSTime
  mg_sessionCounter :: u32
  mg_theaterCounter :: u32

definition mg_setSession :: "session_ref \<Rightarrow> ('body world_session \<Rightarrow> 'body world_session) \<Rightarrow> 'body manager \<Rightarrow> 'body manager" where
  "mg_setSession r f mg = mg\<lparr>mg_sessionHeap := (mg_sessionHeap mg)(r := f (mg_sessionHeap mg r))\<rparr>"

section \<open>Admission\<close>

definition mg_generateSessionId :: "u32 \<Rightarrow> 'body manager \<Rightarrow> u32 \<times> 'body manager" where
  \<comment> \<open>\<open>magic\<close> is the random number, from 0 to 0xFFFF\<close>
  "mg_generateSessionId magic mg =
     (let c = (if mg_sessionCounter mg \<ge> 65535 then 0 else mg_sessionCounter mg);
          counter = c + 1
      in (or (push_bit 16 magic) counter, mg\<lparr>mg_sessionCounter := counter\<rparr>))"

definition mg_queueSession :: "session_ref \<Rightarrow> 'body manager \<Rightarrow> 'body manager" where
  "mg_queueSession r mg = mg\<lparr>mg_pendingSessions := cq_add r (mg_pendingSessions mg)\<rparr>"

definition mg_findSession :: "'body manager \<Rightarrow> u32 \<Rightarrow> session_ref option" where
  "mg_findSession mg sid = map_of (mg_sessions mg) sid"

definition mg_tryAddSession :: "u32 \<Rightarrow> int \<Rightarrow> session_ref \<Rightarrow> 'body manager \<Rightarrow> bool \<times> 'body manager" where
  "mg_tryAddSession magic now r mg =
     (if mg_playerCount mg \<ge> mg_playerLimit mg then (False, mg)
      else
        let (sid, mg1) = mg_generateSessionId magic mg;
            mg2 = mg_setSession r (\<lambda>s. s\<lparr>ws_sessionId := sid\<rparr>) mg1;
            mg3 = mg2\<lparr>mg_sessions := AList.update sid r (mg_sessions mg2), mg_playerCount := mg_playerCount mg2 + 1\<rparr>
        in (True, mg_setSession r (\<lambda>s. ws_setTimeout (mg_sessionTimeout mg) (ws_onSessionAccepted now s)) mg3))"

definition mg_addGMSession :: "u32 \<Rightarrow> int \<Rightarrow> session_ref \<Rightarrow> 'body manager \<Rightarrow> 'body manager" where
  "mg_addGMSession magic now r mg =
     (let (sid, mg1) = mg_generateSessionId magic mg;
          mg2 = mg_setSession r (\<lambda>s. s\<lparr>ws_sessionId := sid\<rparr>) mg1;
          mg3 = mg2\<lparr>mg_sessions := AList.update sid r (mg_sessions mg2), mg_gmCount := mg_gmCount mg2 + 1\<rparr>
      in mg_setSession r (\<lambda>s. let s1 = ws_onSessionAccepted now s in
           if ws_isRequiresCapability REQUIRES_ALLOW_PLAYER_TO_RESTORE s1
           then ws_setTimeout (mg_sessionTimeout mg) s1 else ws_setTimeout SESSION_TIMEOUT_NEVER s1) mg3)"

definition mg_view :: "session_ref \<Rightarrow> 'body world_session \<Rightarrow> session_view" where
  "mg_view r s = \<lparr>sv_ref = r, sv_sessionId = ws_sessionId s, sv_hasGMPermission = ws_hasGMPermission s, sv_player = None\<rparr>"

definition mg_tryRestoreSession ::
    "(player_ref \<Rightarrow> bool) \<Rightarrow> int \<Rightarrow> session_ref \<Rightarrow> 'body manager \<Rightarrow> manager_error + bool \<times> 'body manager" where
  \<comment> \<open>\<open>inWorld\<close> is \<^verbatim>\<open>isInWorld()\<close> of a player\<close>
  "mg_tryRestoreSession inWorld now r mg =
     (case map_of (mg_sessions mg) (ws_sessionId (mg_sessionHeap mg r)) of
        None \<Rightarrow> Inr (False, mg)
      | Some old \<Rightarrow>
          (case ws_player (mg_sessionHeap mg old) of
             None \<Rightarrow> Inr (False, mg)
           | Some p \<Rightarrow>
               if \<not> inWorld p then Inr (False, mg)
               else
                 (case ws_theater (mg_sessionHeap mg old) of
                    None \<Rightarrow> Inl ManagerAssertion
                  | Some t \<Rightarrow>
                      let (replaced, theater) = th_replaceSession (mg_view r (mg_sessionHeap mg r)) (mg_theaterHeap mg t)
                      in if \<not> replaced then Inl ManagerAssertion
                         else
                           let mg1 = mg\<lparr>mg_theaterHeap := (mg_theaterHeap mg)(t := theater),
                                        mg_sessions := AList.update (ws_sessionId (mg_sessionHeap mg old)) r (mg_sessions mg)\<rparr>;
                               (s1, old1) = ws_onSessionRestored now (mg_sessionHeap mg1 r) (mg_sessionHeap mg1 old)
                           in Inr (True, mg1\<lparr>mg_sessionHeap := (mg_sessionHeap mg1)(r := s1, old := ws_kickPlayer old1),
                                             mg_freedSessions := mg_freedSessions mg1 @ [old]\<rparr>))))"

fun mg_positionFrom :: "int \<Rightarrow> session_ref \<Rightarrow> session_ref list \<Rightarrow> int" where
  "mg_positionFrom pos r [] = 0"
| "mg_positionFrom pos r (q # qs) = (if q = r then pos else mg_positionFrom (pos + 1) r qs)"

definition mg_getQueuedPosition :: "session_ref \<Rightarrow> 'body manager \<Rightarrow> int" where
  "mg_getQueuedPosition r mg = mg_positionFrom 1 r (mg_queuedPlayers mg)"

definition mg_addQueuedPlayer :: "session_ref \<Rightarrow> 'body manager \<Rightarrow> 'body manager" where
  "mg_addQueuedPlayer r mg =
     (let mg1 = mg\<lparr>mg_queuedPlayers := mg_queuedPlayers mg @ [r]\<rparr>
      in mg_setSession r (\<lambda>s. ws_setTimeout (mg_queuedSessionTimeout mg) (ws_onSessionQueued (mg_getQueuedPosition r mg1) s)) mg1)"

definition mg_addExpiredPlayer :: "session_ref \<Rightarrow> 'body manager \<Rightarrow> 'body manager" where
  "mg_addExpiredPlayer r mg =
     mg_setSession r (\<lambda>s. ws_setTimeout (mg_expiredSessionDelay mg) (ws_onSessionExpired s))
       (mg\<lparr>mg_expiredPlayers := mg_expiredPlayers mg @ [r]\<rparr>)"

definition mg_processSession ::
    "(session_ref \<Rightarrow> u32) \<Rightarrow> (player_ref \<Rightarrow> bool) \<Rightarrow> int \<Rightarrow> session_ref \<Rightarrow> 'body manager \<Rightarrow> manager_error + 'body manager" where
  "mg_processSession rnd inWorld now r mg =
     (if ws_sessionId (mg_sessionHeap mg r) > 0 then
        (case mg_tryRestoreSession inWorld now r mg of
           Inl e \<Rightarrow> Inl e
         | Inr (restored, mg1) \<Rightarrow> Inr (if \<not> restored then mg_addExpiredPlayer r mg1 else mg1))
      else if ws_hasGMPermission (mg_sessionHeap mg r) then Inr (mg_addGMSession (rnd r) now r mg)
      else (let (added, mg1) = mg_tryAddSession (rnd r) now r mg
            in Inr (if \<not> added then mg_addQueuedPlayer r mg1 else mg1)))"

fun mg_processAll ::
    "(session_ref \<Rightarrow> u32) \<Rightarrow> (player_ref \<Rightarrow> bool) \<Rightarrow> int \<Rightarrow> session_ref list \<Rightarrow> 'body manager \<Rightarrow> manager_error + 'body manager" where
  "mg_processAll rnd inWorld now [] mg = Inr mg"
| "mg_processAll rnd inWorld now (r # rs) mg =
     (case mg_processSession rnd inWorld now r mg of Inl e \<Rightarrow> Inl e | Inr mg1 \<Rightarrow> mg_processAll rnd inWorld now rs mg1)"

definition mg_processPendingSessions ::
    "(session_ref \<Rightarrow> u32) \<Rightarrow> (player_ref \<Rightarrow> bool) \<Rightarrow> int \<Rightarrow> 'body manager \<Rightarrow> manager_error + 'body manager" where
  \<comment> \<open>what other threads add meanwhile waits for the next call\<close>
  "mg_processPendingSessions rnd inWorld now mg =
     mg_processAll rnd inWorld now (cq_container (mg_pendingSessions mg))
       (mg\<lparr>mg_pendingSessions := cq_clear (mg_pendingSessions mg)\<rparr>)"

section \<open>Updates\<close>

type_synonym 'body session_update = "session_ref \<Rightarrow> 'body manager \<Rightarrow> manager_error + bool \<times> 'body manager"

definition mg_dropSession :: "u32 \<Rightarrow> session_ref \<Rightarrow> 'body manager \<Rightarrow> 'body manager" where
  "mg_dropSession sid r mg =
     (let mg1 = (if ws_hasGMPermission (mg_sessionHeap mg r) then mg\<lparr>mg_gmCount := mg_gmCount mg - 1\<rparr>
                 else mg\<lparr>mg_playerCount := mg_playerCount mg - 1\<rparr>)
      in mg1\<lparr>mg_sessions := AList.delete sid (mg_sessions mg1), mg_freedSessions := mg_freedSessions mg1 @ [r]\<rparr>)"

fun mg_updateSessionList :: "'body session_update \<Rightarrow> (u32 \<times> session_ref) list \<Rightarrow> 'body manager \<Rightarrow> manager_error + 'body manager" where
  "mg_updateSessionList upd [] mg = Inr mg"
| "mg_updateSessionList upd ((sid, r) # rest) mg =
     (case upd r mg of
        Inl e \<Rightarrow> Inl e
      | Inr (alive, mg1) \<Rightarrow> mg_updateSessionList upd rest (if \<not> alive then mg_dropSession sid r mg1 else mg1))"

definition mg_updateSessions :: "'body session_update \<Rightarrow> 'body manager \<Rightarrow> manager_error + 'body manager" where
  "mg_updateSessions upd mg = mg_updateSessionList upd (mg_sessions mg) mg"

fun mg_updateQueueList ::
    "'body session_update \<Rightarrow> (session_ref \<Rightarrow> u32) \<Rightarrow> int \<Rightarrow> session_ref list \<Rightarrow> 'body manager \<Rightarrow> manager_error + session_ref list \<times> 'body manager" where
  \<comment> \<open>returns the sessions that stay in the queue\<close>
  "mg_updateQueueList upd rnd now [] mg = Inr ([], mg)"
| "mg_updateQueueList upd rnd now (r # rest) mg =
     (case upd r mg of
        Inl e \<Rightarrow> Inl e
      | Inr (alive, mg1) \<Rightarrow>
          if \<not> alive then mg_updateQueueList upd rnd now rest (mg1\<lparr>mg_freedSessions := mg_freedSessions mg1 @ [r]\<rparr>)
          else
            let (added, mg2) = mg_tryAddSession (rnd r) now r mg1
            in if added then mg_updateQueueList upd rnd now rest mg2
               else (case mg_updateQueueList upd rnd now rest mg2 of Inl e \<Rightarrow> Inl e | Inr (qs, mg3) \<Rightarrow> Inr (r # qs, mg3)))"

definition mg_updateQueuedPlayers ::
    "'body session_update \<Rightarrow> (session_ref \<Rightarrow> u32) \<Rightarrow> int \<Rightarrow> 'body manager \<Rightarrow> manager_error + 'body manager" where
  "mg_updateQueuedPlayers upd rnd now mg =
     (case mg_updateQueueList upd rnd now (mg_queuedPlayers mg) mg of
        Inl e \<Rightarrow> Inl e
      | Inr (qs, mg1) \<Rightarrow> Inr (mg1\<lparr>mg_queuedPlayers := qs\<rparr>))"

fun mg_updateExpiredList :: "'body session_update \<Rightarrow> session_ref list \<Rightarrow> 'body manager \<Rightarrow> manager_error + session_ref list \<times> 'body manager" where
  "mg_updateExpiredList upd [] mg = Inr ([], mg)"
| "mg_updateExpiredList upd (r # rest) mg =
     (case upd r mg of
        Inl e \<Rightarrow> Inl e
      | Inr (alive, mg1) \<Rightarrow>
          if \<not> alive then mg_updateExpiredList upd rest (mg1\<lparr>mg_freedSessions := mg_freedSessions mg1 @ [r]\<rparr>)
          else (case mg_updateExpiredList upd rest mg1 of Inl e \<Rightarrow> Inl e | Inr (qs, mg2) \<Rightarrow> Inr (r # qs, mg2)))"

definition mg_updateExpiredPlayers :: "'body session_update \<Rightarrow> 'body manager \<Rightarrow> manager_error + 'body manager" where
  "mg_updateExpiredPlayers upd mg =
     (case mg_updateExpiredList upd (mg_expiredPlayers mg) mg of
        Inl e \<Rightarrow> Inl e
      | Inr (qs, mg1) \<Rightarrow> Inr (mg1\<lparr>mg_expiredPlayers := qs\<rparr>))"

definition mg_kickAll :: "'body manager \<Rightarrow> 'body manager" where
  "mg_kickAll mg =
     fold (\<lambda>r. mg_setSession r ws_kickPlayer) (map snd (mg_sessions mg))
       (fold (\<lambda>r. mg_setSession r ws_kickPlayer) (mg_queuedPlayers mg) mg)"

section \<open>Theaters\<close>

definition mg_createTheater :: "theater_ref \<Rightarrow> 'body manager \<Rightarrow> 'body manager" where
  \<comment> \<open>the new theater is allocated at the address \<open>t\<close>\<close>
  "mg_createTheater t mg =
     (let theaterId = mg_theaterCounter mg + 1;
          theater = th_setWaitForPlayersTimeout (mg_waitForPlayersTimeout mg)
                      (th_setDeletionDelay (i32 (mg_theaterDeletionDelay mg * 1000)) (th_new theaterId))
      in mg\<lparr>mg_theaterCounter := theaterId, mg_theaterHeap := (mg_theaterHeap mg)(t := theater),
            mg_theaters := AList.update theaterId t (mg_theaters mg), mg_orderedTheaters := mg_orderedTheaters mg @ [t]\<rparr>)"

definition mg_findTheater :: "'body manager \<Rightarrow> u32 \<Rightarrow> theater_ref option" where
  "mg_findTheater mg theaterId = map_of (mg_theaters mg) theaterId"

definition mg_order :: "session_view \<Rightarrow> 'body manager \<Rightarrow> theater_ref \<Rightarrow> rat" where
  "mg_order s mg t = (case th_getOrder s (mg_theaterHeap mg t) of Inl e \<Rightarrow> 0 | Inr w \<Rightarrow> w)"

definition mg_selectTheaterForPlayer :: "session_view \<Rightarrow> 'body manager \<Rightarrow> manager_error + theater_ref option \<times> 'body manager" where
  \<comment> \<open>the weights of all theaters are computed only if there is more than one\<close>
  "mg_selectTheaterForPlayer s mg =
     (if mg_orderedTheaters mg = [] then Inr (None, mg)
      else if length (mg_orderedTheaters mg) > 1 then
        (if list_ex (\<lambda>t. isl (th_getOrder s (mg_theaterHeap mg t))) (mg_orderedTheaters mg) then Inl (InTheater TheaterAssertion)
         else let ts = sort_key (\<lambda>t. - mg_order s mg t) (mg_orderedTheaters mg)
              in Inr (Some (hd ts), mg\<lparr>mg_orderedTheaters := ts\<rparr>))
      else Inr (Some (hd (mg_orderedTheaters mg)), mg))"

definition mg_sendTheaterInfo :: "theater_env \<Rightarrow> bool \<times> bool \<Rightarrow> theater \<Rightarrow> theater_info option" where
  \<comment> \<open>the message of \<^verbatim>\<open>sendTheaterInfo\<close>; \<open>flags\<close> are the dice roll for an advertisement and the review mode\<close>
  "mg_sendTheaterInfo env flags theater =
     map_option (\<lambda>m. \<lparr>ti_mapId = ba_mapId m, ti_theaterId = th_theaterId theater, ti_combatGrade = cg_grade (ba_combatGrade m),
        ti_safezoneCenter = (tc_x (ba_safeZoneCenter m), tc_y (ba_safeZoneCenter m)), ti_safezoneRadius = ba_initialSafeZoneRadius m,
        ti_battleDuration = ba_getDurationByBattleState (te_preparation env) m BATTLE_STATE_IN_PROGRESS,
        ti_requestBattleEndAd = fst flags, ti_enableAppReviewMode = snd flags\<rparr>) (th_map theater)"

definition mg_acceptByTheater ::
    "theater_env \<Rightarrow> tile_coord \<Rightarrow> session_view \<Rightarrow> theater_ref \<Rightarrow> 'body manager \<Rightarrow> manager_error + bool \<times> 'body manager" where
  "mg_acceptByTheater env center s t mg =
     (case th_acceptSession env center s (mg_theaterHeap mg t) of
        Inl e \<Rightarrow> Inl (InTheater e)
      | Inr (accepted, theater) \<Rightarrow> Inr (accepted, mg\<lparr>mg_theaterHeap := (mg_theaterHeap mg)(t := theater)\<rparr>))"

definition mg_onSessionAcceptedByTheater ::
    "theater_env \<Rightarrow> bool \<times> bool \<Rightarrow> session_view \<Rightarrow> theater_ref \<Rightarrow> 'body manager \<Rightarrow> manager_error + theater_ref \<times> 'body manager" where
  "mg_onSessionAcceptedByTheater env flags s t mg =
     (case mg_sendTheaterInfo env flags (mg_theaterHeap mg t) of
        None \<Rightarrow> Inl (InSession NullDereference)
      | Some info \<Rightarrow> Inr (t, mg_setSession (sv_ref s) (ws_onSessionAcceptedByTheater t info) mg))"

definition mg_addPlayerToTheater ::
    "theater_env \<Rightarrow> bool \<times> bool \<Rightarrow> tile_coord \<Rightarrow> theater_ref \<Rightarrow> session_view \<Rightarrow> 'body manager \<Rightarrow> manager_error + theater_ref \<times> 'body manager" where
  \<comment> \<open>\<open>new\<close> is the address of a theater that may have to be created; returns the theater chosen\<close>
  "mg_addPlayerToTheater env flags center new s mg =
     (case mg_selectTheaterForPlayer s mg of
        Inl e \<Rightarrow> Inl e
      | Inr (selected, mg1) \<Rightarrow>
          (case (case selected of None \<Rightarrow> Inr (False, mg1) | Some t \<Rightarrow> mg_acceptByTheater env center s t mg1) of
             Inl e \<Rightarrow> Inl e
           | Inr (accepted, mg2) \<Rightarrow>
               if accepted then mg_onSessionAcceptedByTheater env flags s (the selected) mg2
               else
                 let mg3 = mg_createTheater new mg2
                 in (case th_addSession env center s (mg_theaterHeap mg3 new) of
                       Inl e \<Rightarrow> Inl (InTheater e)
                     | Inr theater \<Rightarrow>
                         mg_onSessionAcceptedByTheater env flags s new
                           (mg3\<lparr>mg_theaterHeap := (mg_theaterHeap mg3)(new := theater)\<rparr>))))"

definition mg_purgeTheaters :: "int \<Rightarrow> bool \<Rightarrow> 'body manager \<Rightarrow> 'body manager" where
  "mg_purgeTheaters now force mg =
     (let gone = (\<lambda>t. th_canDelete now (mg_theaterHeap mg t) \<or> force)
      in mg\<lparr>mg_theaters := filter (\<lambda>(i, _). \<not> (\<exists>t\<in>set (mg_orderedTheaters mg). gone t \<and> th_theaterId (mg_theaterHeap mg t) = i)) (mg_theaters mg),
            mg_orderedTheaters := filter (\<lambda>t. \<not> gone t) (mg_orderedTheaters mg)\<rparr>)"

definition mg_update ::
    "'body session_update \<Rightarrow> ('body manager \<Rightarrow> 'body manager) \<Rightarrow> (session_ref \<Rightarrow> u32) \<Rightarrow> (player_ref \<Rightarrow> bool) \<Rightarrow> int \<Rightarrow>
     'body manager \<Rightarrow> manager_error + bool \<times> 'body manager" where
  \<comment> \<open>\<open>theaters\<close> is \<^verbatim>\<open>updateTheaters\<close>: the advanced updates, then the updates by the worker threads\<close>
  "mg_update upd theaters rnd inWorld now mg =
     (if mg_isStopped mg then Inr (False, mg)
      else
        let mg1 = (if mg_isStopping mg then (mg_kickAll mg)\<lparr>mg_isStopping := False, mg_isStopped := True\<rparr> else mg)
        in (case (if \<not> mg_isStopped mg1 then mg_processPendingSessions rnd inWorld now mg1 else Inr mg1) of
              Inl e \<Rightarrow> Inl e
            | Inr mg2 \<Rightarrow>
                (case mg_updateSessions upd mg2 of
                   Inl e \<Rightarrow> Inl e
                 | Inr mg3 \<Rightarrow>
                     (case mg_updateQueuedPlayers upd rnd now mg3 of
                        Inl e \<Rightarrow> Inl e
                      | Inr mg4 \<Rightarrow>
                          (case mg_updateExpiredPlayers upd mg4 of
                             Inl e \<Rightarrow> Inl e
                           | Inr mg5 \<Rightarrow>
                               let mg6 = (let mg' = theaters mg5 in mg_purgeTheaters now (mg_isStopped mg') mg')
                               in Inr (\<not> mg_isStopped mg6, mg6))))))"

section \<open>Session ids\<close>

fun mg_generateIds :: "u32 list \<Rightarrow> 'body manager \<Rightarrow> u32 list" where
  "mg_generateIds [] mg = []"
| "mg_generateIds (m # ms) mg = (let (sid, mg1) = mg_generateSessionId m mg in sid # mg_generateIds ms mg1)"

lemma generateSessionId_low:
  assumes "unat (mg_sessionCounter mg) \<le> 65535" and "mg_generateSessionId m mg = (sid, mg')"
  shows "unat (take_bit 16 sid) = unat (mg_sessionCounter mg) mod 65535 + 1"
    and "unat (mg_sessionCounter mg') = unat (mg_sessionCounter mg) mod 65535 + 1"
proof -
  let ?c = "if mg_sessionCounter mg \<ge> 65535 then 0 else mg_sessionCounter mg"
  have c: "unat (?c + 1) = unat (mg_sessionCounter mg) mod 65535 + 1"
  proof (cases "mg_sessionCounter mg \<ge> 65535")
    case True
    then have "unat (mg_sessionCounter mg) = 65535" using assms(1) by (simp add: word_le_nat_alt)
    then show ?thesis using True by simp
  next
    case False
    then have "unat (mg_sessionCounter mg) < 65535" by (simp add: word_le_nat_alt)
    then show ?thesis using False unat_u32_plus [of "mg_sessionCounter mg" 1] by simp
  qed
  have e: "sid = or (push_bit 16 m) (?c + 1)" "mg_sessionCounter mg' = ?c + 1"
    using assms(2) by (auto simp: mg_generateSessionId_def Let_def)
  have "unat (?c + 1) < 2 ^ 16" using c by simp
  then have "take_bit 16 (?c + 1) = ?c + 1" by (simp add: word_unat_eq_iff unsigned_take_bit_eq take_bit_nat_eq_self del: One_nat_def)
  then have "take_bit 16 sid = ?c + 1" by (simp add: e(1) take_bit_or take_bit_push_bit)
  then show "unat (take_bit 16 sid) = unat (mg_sessionCounter mg) mod 65535 + 1"
    "unat (mg_sessionCounter mg') = unat (mg_sessionCounter mg) mod 65535 + 1"
    using c e(2) by simp_all
qed

lemma mod_Suc_add: "Suc (a mod n + x) mod n = Suc (a + x) mod n" for a n x :: nat
  by (metis mod_Suc_eq mod_add_left_eq)

lemma mod_add_cancel_nat:
  fixes c i j n :: nat
  assumes "(c + i) mod n = (c + j) mod n" and "i < n" and "j < n"
  shows "i = j"
proof -
  have "(int c + int i) mod int n = (int c + int j) mod int n" using arg_cong [OF assms(1), of int] by (simp add: zmod_int)
  then have "(int c + int i - int c) mod int n = (int c + int j - int c) mod int n" by (rule mod_diff_cong) simp
  then show ?thesis using assms(2,3) by simp
qed

lemma generateIds_low:
  "unat (mg_sessionCounter mg) \<le> 65535 \<Longrightarrow>
   map (\<lambda>sid. unat (take_bit 16 sid)) (mg_generateIds ms mg) = map (\<lambda>i. (unat (mg_sessionCounter mg) + i) mod 65535 + 1) [0..<length ms]"
proof (induction ms arbitrary: mg)
  case (Cons m ms)
  obtain sid mg1 where g: "mg_generateSessionId m mg = (sid, mg1)" by fastforce
  note l = generateSessionId_low [OF Cons.prems g]
  have "unat (mg_sessionCounter mg) mod 65535 < 65535" by simp
  then have "unat (mg_sessionCounter mg1) \<le> 65535" by (simp only: l(2))
  from Cons.IH [OF this] show ?case
    using l g by (simp add: map_upt_Suc mod_Suc_add del: upt_Suc)
qed simp

text \<open>
  Session ids are fresh for long. Whatever the random numbers, the next 65535 session ids are
  pairwise different, and none is zero, the value that marks a session without an id.
\<close>

theorem session_ids_distinct:
  assumes "unat (mg_sessionCounter mg) \<le> 65535" and "length ms \<le> 65535"
  shows "distinct (mg_generateIds ms mg) \<and> 0 \<notin> set (mg_generateIds ms mg)"
proof -
  let ?low = "\<lambda>sid :: u32. unat (take_bit 16 sid)"
  have "inj_on (\<lambda>i. (unat (mg_sessionCounter mg) + i) mod 65535 + 1) (set [0..<length ms])"
  proof (rule inj_onI)
    fix i j
    assume ij: "i \<in> set [0..<length ms]" "j \<in> set [0..<length ms]"
      "(unat (mg_sessionCounter mg) + i) mod 65535 + 1 = (unat (mg_sessionCounter mg) + j) mod 65535 + 1"
    then have lt: "i < 65535" "j < 65535" using assms(2) by simp_all
    have "(unat (mg_sessionCounter mg) + i) mod 65535 = (unat (mg_sessionCounter mg) + j) mod 65535" using ij(3) by simp
    then show "i = j" using lt by (rule mod_add_cancel_nat)
  qed
  then have "distinct (map ?low (mg_generateIds ms mg))"
    unfolding generateIds_low [OF assms(1)] by (simp add: distinct_map)
  moreover have "0 \<notin> set (map ?low (mg_generateIds ms mg))"
    unfolding generateIds_low [OF assms(1)] by auto
  ultimately show ?thesis by (auto simp: distinct_map image_iff)
qed

text \<open>A concrete run: the counter wraps after 65535, and the random halves do not matter.\<close>

definition idle_manager :: "int \<Rightarrow> 'body manager" where
  "idle_manager limit = \<lparr>mg_isStopping = False, mg_isStopped = False, mg_theaterHeap = (\<lambda>_. th_new 0), mg_theaters = [],
     mg_orderedTheaters = [], mg_playerLimit = limit, mg_playerCount = 0, mg_gmCount = 0, mg_theaterDeletionDelay = 3600,
     mg_waitForPlayersTimeout = 5000, mg_pendingSessions = cq_new, mg_sessionHeap = (\<lambda>_. ws_new), mg_sessions = [],
     mg_queuedPlayers = [], mg_expiredPlayers = [], mg_freedSessions = [], mg_sessionTimeout = 60000,
     mg_expiredSessionDelay = 5000, mg_queuedSessionTimeout = 10000, mg_sessionCounter = 0, mg_theaterCounter = 0\<rparr>"

theorem session_ids_distinct_witness:
  "distinct (mg_generateIds [7, 7, 1] ((idle_manager 2 :: nat manager)\<lparr>mg_sessionCounter := 65534\<rparr>))
   \<and> mg_generateIds [7, 7, 1] ((idle_manager 2 :: nat manager)\<lparr>mg_sessionCounter := 65534\<rparr>) = [524287, 458753, 65538]"
  using session_ids_distinct [of "(idle_manager 2 :: nat manager)\<lparr>mg_sessionCounter := 65534\<rparr>" "[7, 7, 1]"]
  by (simp add: mg_generateSessionId_def Let_def word_le_nat_alt)

section \<open>The player limit\<close>

text \<open>
  What the manager relies on when it updates a session: the packet handlers leave its own counters and
  lists alone and do not authenticate other sessions. The members are private to the manager and the sessions.
\<close>

locale session_updates =
  fixes upd :: "'body session_update"
  assumes upd_counts: "upd r mg = Inr (b, mg') \<Longrightarrow> mg_playerCount mg' = mg_playerCount mg \<and> mg_playerLimit mg' = mg_playerLimit mg"
    and upd_lists: "upd r mg = Inr (b, mg') \<Longrightarrow> mg_queuedPlayers mg' = mg_queuedPlayers mg
      \<and> mg_expiredPlayers mg' = mg_expiredPlayers mg \<and> mg_freedSessions mg' = mg_freedSessions mg"
    and upd_others: "upd r mg = Inr (b, mg') \<Longrightarrow> q \<noteq> r \<Longrightarrow> ws_isAuthed (mg_sessionHeap mg' q) = ws_isAuthed (mg_sessionHeap mg q)"

lemma setSession_simps [simp]:
  "mg_playerCount (mg_setSession r f mg) = mg_playerCount mg" "mg_playerLimit (mg_setSession r f mg) = mg_playerLimit mg"
  "mg_queuedPlayers (mg_setSession r f mg) = mg_queuedPlayers mg" "mg_expiredPlayers (mg_setSession r f mg) = mg_expiredPlayers mg"
  "mg_freedSessions (mg_setSession r f mg) = mg_freedSessions mg" "mg_isStopped (mg_setSession r f mg) = mg_isStopped mg"
  "mg_sessions (mg_setSession r f mg) = mg_sessions mg"
  "mg_sessionHeap (mg_setSession r f mg) q = (if q = r then f (mg_sessionHeap mg r) else mg_sessionHeap mg q)"
  by (simp_all add: mg_setSession_def)

lemma isAuthed_simps [simp]:
  "ws_isAuthed (ws_setTimeout time s) = ws_isAuthed s" "ws_isAuthed (ws_onSessionAccepted now s)"
  by (simp_all add: ws_setTimeout_def ws_resetTimeoutTimer_def ws_onSessionAccepted_def ws_sendAuthVerdict_def
    ws_packAndSend_def ws_sendTimeSync_def ws_resetTimeSync_def Let_def)

lemma tryAddSession_cases:
  assumes "mg_tryAddSession magic now r mg = (added, mg')"
  obtains "\<not> added" "mg' = mg" "mg_playerLimit mg \<le> mg_playerCount mg"
  | "added" "mg_playerCount mg < mg_playerLimit mg" "mg_playerCount mg' = mg_playerCount mg + 1" "mg_playerLimit mg' = mg_playerLimit mg"
    "mg_freedSessions mg' = mg_freedSessions mg" "ws_isAuthed (mg_sessionHeap mg' r)" "\<And>q. q \<noteq> r \<Longrightarrow> mg_sessionHeap mg' q = mg_sessionHeap mg q"
  using assms
  by (cases "mg_playerCount mg \<ge> mg_playerLimit mg")
    (auto simp: mg_tryAddSession_def mg_generateSessionId_def Let_def)

context session_updates
begin

lemma sessions_limit:
  "mg_updateSessionList upd ss mg = Inr mg' \<Longrightarrow> mg_playerCount mg' \<le> mg_playerCount mg \<and> mg_playerLimit mg' = mg_playerLimit mg"
proof (induction ss arbitrary: mg)
  case (Cons p ss)
  obtain sid r where p: "p = (sid, r)" by fastforce
  obtain alive mg1 where u: "upd r mg = Inr (alive, mg1)"
    "mg_updateSessionList upd ss (if \<not> alive then mg_dropSession sid r mg1 else mg1) = Inr mg'"
    using Cons.prems p by (auto split: sum.splits prod.splits)
  from Cons.IH [OF u(2)] upd_counts [OF u(1)] show ?case
    by (auto simp: mg_dropSession_def Let_def split: if_splits)
qed simp

lemma expired_limit:
  "mg_updateExpiredList upd rs mg = Inr (qs, mg') \<Longrightarrow> mg_playerCount mg' = mg_playerCount mg \<and> mg_playerLimit mg' = mg_playerLimit mg"
proof (induction rs arbitrary: mg qs)
  case (Cons r rs)
  from Cons.prems obtain alive mg1 where u: "upd r mg = Inr (alive, mg1)" by (auto split: sum.splits)
  from Cons.IH Cons.prems u upd_counts [OF u] show ?case
    by (fastforce split: sum.splits if_splits)
qed simp

lemma full_queue:
  "mg_updateQueueList upd rnd now rs mg = Inr (qs, mg') \<Longrightarrow> mg_playerLimit mg \<le> mg_playerCount mg \<Longrightarrow>
   mg_playerCount mg' = mg_playerCount mg \<and> mg_playerLimit mg' = mg_playerLimit mg \<and> subseq qs rs
   \<and> set (mg_freedSessions mg) \<subseteq> set (mg_freedSessions mg') \<and> set rs \<subseteq> set qs \<union> set (mg_freedSessions mg')"
proof (induction rs arbitrary: mg qs)
  case (Cons r rs)
  obtain alive mg1 where u: "upd r mg = Inr (alive, mg1)" using Cons.prems(1) by (auto split: sum.splits)
  have c: "mg_playerCount mg1 = mg_playerCount mg" "mg_playerLimit mg1 = mg_playerLimit mg" "mg_freedSessions mg1 = mg_freedSessions mg"
    using upd_counts [OF u] upd_lists [OF u] by simp_all
  show ?case
  proof (cases alive)
    case False
    then show ?thesis using Cons.IH [of "mg1\<lparr>mg_freedSessions := mg_freedSessions mg1 @ [r]\<rparr>" qs] Cons.prems u c by auto
  next
    case True
    have "mg_tryAddSession (rnd r) now r mg1 = (False, mg1)" using c Cons.prems(2) by (simp add: mg_tryAddSession_def)
    then obtain qs1 where "mg_updateQueueList upd rnd now rs mg1 = Inr (qs1, mg')" "qs = r # qs1"
      using Cons.prems(1) u True by (auto split: sum.splits)
    then show ?thesis using Cons.IH [of mg1 qs1] Cons.prems(2) c by auto
  qed
qed simp

lemma queue_limit:
  "mg_updateQueueList upd rnd now rs mg = Inr (qs, mg') \<Longrightarrow> mg_playerCount mg \<le> mg_playerLimit mg \<Longrightarrow> mg_playerCount mg' \<le> mg_playerLimit mg'"
proof (induction rs arbitrary: mg qs)
  case (Cons r rs)
  obtain alive mg1 where u: "upd r mg = Inr (alive, mg1)" using Cons.prems(1) by (auto split: sum.splits)
  have c: "mg_playerCount mg1 \<le> mg_playerLimit mg1" using upd_counts [OF u] Cons.prems(2) by simp
  obtain added mg2 where a: "mg_tryAddSession (rnd r) now r mg1 = (added, mg2)" by fastforce
  have "mg_playerCount mg2 \<le> mg_playerLimit mg2" using a by (rule tryAddSession_cases) (use c in auto)
  then show ?case using Cons.IH [of mg2] Cons.IH [of "mg1\<lparr>mg_freedSessions := mg_freedSessions mg1 @ [r]\<rparr>" qs] Cons.prems u a c
    by (auto split: if_splits sum.splits)
qed simp

lemma queue_order:
  "mg_updateQueueList upd rnd now rs mg = Inr (qs, mg') \<Longrightarrow> distinct rs \<Longrightarrow>
   (\<forall>q. q \<notin> set rs \<longrightarrow> ws_isAuthed (mg_sessionHeap mg' q) = ws_isAuthed (mg_sessionHeap mg q))
   \<and> set (mg_freedSessions mg) \<subseteq> set (mg_freedSessions mg') \<and> (qs = [] \<or> mg_playerLimit mg' \<le> mg_playerCount mg')
   \<and> (\<exists>front rear. rs = front @ rear \<and> subseq qs rear
       \<and> set front \<subseteq> set (mg_freedSessions mg') \<union> {r. ws_isAuthed (mg_sessionHeap mg' r)}
       \<and> set rear \<subseteq> set qs \<union> set (mg_freedSessions mg'))"
proof (induction rs arbitrary: mg qs)
  case (Cons r rs)
  obtain alive mg1 where u: "upd r mg = Inr (alive, mg1)" using Cons.prems(1) by (auto split: sum.splits)
  have oth: "ws_isAuthed (mg_sessionHeap mg1 q) = ws_isAuthed (mg_sessionHeap mg q)" if "q \<noteq> r" for q using upd_others [OF u] that by simp
  have f: "mg_freedSessions mg1 = mg_freedSessions mg" using upd_lists [OF u] by simp
  have r: "r \<notin> set rs" "distinct rs" using Cons.prems(2) by auto
  obtain added mg2 where a: "mg_tryAddSession (rnd r) now r mg1 = (added, mg2)" by fastforce
  consider (gone) "\<not> alive" | (admitted) "alive" "added" | (waiting) "alive" "\<not> added" by blast
  then show ?case
  proof cases
    case gone
    then have "mg_updateQueueList upd rnd now rs (mg1\<lparr>mg_freedSessions := mg_freedSessions mg1 @ [r]\<rparr>) = Inr (qs, mg')"
      using Cons.prems(1) u by simp
    from Cons.IH [OF this r(2)] obtain front rear where fb: "rs = front @ rear" "subseq qs rear"
      "set front \<subseteq> set (mg_freedSessions mg') \<union> {r. ws_isAuthed (mg_sessionHeap mg' r)}" "set rear \<subseteq> set qs \<union> set (mg_freedSessions mg')"
      and rest: "\<And>q. q \<notin> set rs \<Longrightarrow> ws_isAuthed (mg_sessionHeap mg' q) = ws_isAuthed (mg_sessionHeap mg1 q)"
      "insert r (set (mg_freedSessions mg1)) \<subseteq> set (mg_freedSessions mg')" "qs = [] \<or> mg_playerLimit mg' \<le> mg_playerCount mg'"
      by auto
    then have "r # rs = (r # front) @ rear" "set (r # front) \<subseteq> set (mg_freedSessions mg') \<union> {r. ws_isAuthed (mg_sessionHeap mg' r)}" by auto
    with fb(2,4) rest oth f show ?thesis by (intro conjI exI [of _ "r # front"] exI [of _ rear]) auto
  next
    case admitted
    then have "mg_updateQueueList upd rnd now rs mg2 = Inr (qs, mg')" using Cons.prems(1) u a by simp
    from Cons.IH [OF this r(2)] obtain front rear where fb: "rs = front @ rear" "subseq qs rear"
      "set front \<subseteq> set (mg_freedSessions mg') \<union> {r. ws_isAuthed (mg_sessionHeap mg' r)}" "set rear \<subseteq> set qs \<union> set (mg_freedSessions mg')"
      and rest: "\<And>q. q \<notin> set rs \<Longrightarrow> ws_isAuthed (mg_sessionHeap mg' q) = ws_isAuthed (mg_sessionHeap mg2 q)"
      "set (mg_freedSessions mg2) \<subseteq> set (mg_freedSessions mg')" "qs = [] \<or> mg_playerLimit mg' \<le> mg_playerCount mg'"
      by auto
    have m: "mg_freedSessions mg2 = mg_freedSessions mg1" "ws_isAuthed (mg_sessionHeap mg2 r)" "\<And>q. q \<noteq> r \<Longrightarrow> mg_sessionHeap mg2 q = mg_sessionHeap mg1 q"
      using a admitted(2) by (auto elim: tryAddSession_cases)
    with fb rest oth f r(1) show ?thesis by (intro conjI exI [of _ "r # front"] exI [of _ rear]) auto
  next
    case waiting
    have w: "mg2 = mg1" "mg_playerLimit mg1 \<le> mg_playerCount mg1" using a waiting(2) by (auto elim: tryAddSession_cases)
    then obtain qs1 where q: "mg_updateQueueList upd rnd now rs mg1 = Inr (qs1, mg')" "qs = r # qs1"
      using Cons.prems(1) u a waiting by (auto split: sum.splits)
    note full = full_queue [OF q(1) w(2)]
    have "ws_isAuthed (mg_sessionHeap mg' q) = ws_isAuthed (mg_sessionHeap mg1 q)" if "q \<notin> set rs" for q
      using Cons.IH [OF q(1) r(2)] that by blast
    with full q(2) oth f w(2) show ?thesis by (intro conjI exI [of _ "[]"] exI [of _ "r # rs"]) auto
  qed
qed auto

end

text \<open>
  The update of a session whose handlers work on the session and on the theaters keeps that contract. The
  player's cleanup and its removal from the map are parameters.
\<close>

definition mg_sessionEnv ::
    "(session_ref \<Rightarrow> bool) \<Rightarrow> int \<Rightarrow> (player_ref \<Rightarrow> (theater_ref \<Rightarrow> theater) \<Rightarrow> (theater_ref \<Rightarrow> theater)) \<Rightarrow>
     (player_ref \<Rightarrow> (theater_ref \<Rightarrow> theater) \<Rightarrow> (theater_ref \<Rightarrow> theater)) \<Rightarrow> (theater_ref \<Rightarrow> theater) session_env" where
  "mg_sessionEnv gm now cleanup leaveMap =
     \<lparr>se_cleanupBeforeDelete = cleanup,
      se_removePlayerFromQueue = (\<lambda>t p ts. ts(t := th_removePlayerFromQueue p (ts t))),
      se_removeSession = (\<lambda>t sid ts. let (removed, theater) = th_removeSession gm now sid (ts t) in (removed, ts(t := theater))),
      se_removePlayerFromMap = leaveMap\<rparr>"

definition mg_sessionUpdate ::
    "('body, theater_ref \<Rightarrow> theater) handlers \<Rightarrow> (theater_ref \<Rightarrow> theater) session_env \<Rightarrow> int \<Rightarrow> NSTime \<Rightarrow> 'body session_update" where
  "mg_sessionUpdate run env now diff r mg =
     (case ws_update run env now diff (mg_sessionHeap mg r, mg_theaterHeap mg) of
        Inl e \<Rightarrow> Inl (InSession e)
      | Inr (alive, s, ts) \<Rightarrow> Inr (alive, (mg_setSession r (\<lambda>_. s) mg)\<lparr>mg_theaterHeap := ts\<rparr>))"

interpretation su: session_updates "mg_sessionUpdate run env now diff" for run env now diff
  by unfold_locales (auto simp: mg_sessionUpdate_def split: sum.splits)

lemma processSession_limit:
  assumes "mg_processSession rnd inWorld now r mg = Inr mg'" and "mg_playerCount mg \<le> mg_playerLimit mg"
  shows "mg_playerCount mg' \<le> mg_playerLimit mg'"
proof -
  have restore: "mg_playerCount mg1 = mg_playerCount mg \<and> mg_playerLimit mg1 = mg_playerLimit mg"
    if "mg_tryRestoreSession inWorld now r mg = Inr (b, mg1)" for b mg1
    using that by (auto simp: mg_tryRestoreSession_def Let_def split: option.splits if_splits prod.splits)
  have add: "mg_playerCount mg1 \<le> mg_playerLimit mg1" if "mg_tryAddSession (rnd r) now r mg = (b, mg1)" for b mg1
    using that by (rule tryAddSession_cases) (use assms(2) in auto)
  show ?thesis
    using assms restore add
    by (auto simp: mg_processSession_def mg_addExpiredPlayer_def mg_addGMSession_def mg_generateSessionId_def mg_addQueuedPlayer_def Let_def
      split: sum.splits if_splits prod.splits)
qed

lemma processAll_limit:
  "mg_processAll rnd inWorld now rs mg = Inr mg' \<Longrightarrow> mg_playerCount mg \<le> mg_playerLimit mg \<Longrightarrow> mg_playerCount mg' \<le> mg_playerLimit mg'"
  by (induction rs arbitrary: mg) (auto split: sum.splits dest: processSession_limit)

lemma fold_setSession_simps [simp]:
  "mg_playerCount (fold (\<lambda>r. mg_setSession r f) rs mg) = mg_playerCount mg" "mg_playerLimit (fold (\<lambda>r. mg_setSession r f) rs mg) = mg_playerLimit mg"
  by (induction rs arbitrary: mg) simp_all

lemma kickAll_simps [simp]: "mg_playerCount (mg_kickAll mg) = mg_playerCount mg" "mg_playerLimit (mg_kickAll mg) = mg_playerLimit mg"
  by (simp_all add: mg_kickAll_def)

text \<open>
  C14: the player limit holds. One round of the manager, pending sessions, session updates, queue,
  expired players, theaters and purge, never brings the number of players over the configured limit, stopping or not.
\<close>

theorem player_limit_respected:
  assumes "session_updates upd"
    and theaters: "\<And>mg. mg_playerCount (theaters mg) = mg_playerCount mg \<and> mg_playerLimit (theaters mg) = mg_playerLimit mg"
    and limit: "mg_playerCount mg \<le> mg_playerLimit mg"
    and "mg_update upd theaters rnd inWorld now mg = Inr (alive, mg')"
  shows "mg_playerCount mg' \<le> mg_playerLimit mg'"
proof (cases "mg_isStopped mg")
  case True
  then show ?thesis using assms by (simp add: mg_update_def)
next
  case False
  define mg1 where "mg1 = (if mg_isStopping mg then (mg_kickAll mg)\<lparr>mg_isStopping := False, mg_isStopped := True\<rparr> else mg)"
  obtain mg2 mg3 mg4 mg5 where steps:
    "(if \<not> mg_isStopped mg1 then mg_processPendingSessions rnd inWorld now mg1 else Inr mg1) = Inr mg2"
    "mg_updateSessions upd mg2 = Inr mg3" "mg_updateQueuedPlayers upd rnd now mg3 = Inr mg4" "mg_updateExpiredPlayers upd mg4 = Inr mg5"
    "mg' = (let m = theaters mg5 in mg_purgeTheaters now (mg_isStopped m) m)"
    using assms(4) False by (auto simp: mg_update_def mg1_def [symmetric] Let_def split: sum.splits)
  have 1: "mg_playerCount mg1 \<le> mg_playerLimit mg1" using limit by (simp add: mg1_def)
  have 2: "mg_playerCount mg2 \<le> mg_playerLimit mg2"
    using steps(1) 1 by (auto simp: mg_processPendingSessions_def split: if_splits dest: processAll_limit)
  have 3: "mg_playerCount mg3 \<le> mg_playerLimit mg3"
    using steps(2) 2 session_updates.sessions_limit [OF assms(1), of "mg_sessions mg2" mg2 mg3] by (simp add: mg_updateSessions_def)
  obtain qs m where q: "mg_updateQueueList upd rnd now (mg_queuedPlayers mg3) mg3 = Inr (qs, m)" "mg4 = m\<lparr>mg_queuedPlayers := qs\<rparr>"
    using steps(3) by (auto simp: mg_updateQueuedPlayers_def split: sum.splits)
  have 4: "mg_playerCount mg4 \<le> mg_playerLimit mg4" using session_updates.queue_limit [OF assms(1) q(1) 3] q(2) by simp
  obtain es m' where e: "mg_updateExpiredList upd (mg_expiredPlayers mg4) mg4 = Inr (es, m')" "mg5 = m'\<lparr>mg_expiredPlayers := es\<rparr>"
    using steps(4) by (auto simp: mg_updateExpiredPlayers_def split: sum.splits)
  have "mg_playerCount mg5 \<le> mg_playerLimit mg5" using session_updates.expired_limit [OF assms(1) e(1)] e(2) 4 by simp
  then show ?thesis using theaters [of mg5] by (simp add: steps(5) mg_purgeTheaters_def Let_def)
qed

text \<open>Two clients connect to a server for one player: one is admitted, the other one waits.\<close>

definition two_clients :: "nat manager" where
  "two_clients = mg_queueSession 4 (mg_queueSession 3 (idle_manager 1))"

definition idle_update :: "nat session_update" where
  "idle_update = mg_sessionUpdate (\<lambda>_ _ s. Inr s) (mg_sessionEnv (\<lambda>_. False) 1000 (\<lambda>_ ts. ts) (\<lambda>_ ts. ts)) 1000 50"

lemma idle_updates: "session_updates idle_update"
  unfolding idle_update_def by (rule su.session_updates_axioms)

definition two_clients_round :: "manager_error + bool \<times> nat manager" where
  "two_clients_round = mg_update idle_update (\<lambda>mg. mg) (\<lambda>_. 9) (\<lambda>_. False) 1000 two_clients"

lemmas session_run_defs = mg_sessionUpdate_def ws_update_def ws_checkTimeout_def ws_updateTimeoutTimer_def ws_isSessionTimedOut_def
  ws_finishUpdate_def ws_isConnected_def ws_new_def cq_new_def cq_clear_def cq_add_def i32_def

lemmas session_admit_defs = mg_tryAddSession_def mg_generateSessionId_def ws_onSessionAccepted_def ws_setTimeout_def ws_resetTimeoutTimer_def
  ws_sendAuthVerdict_def ws_packAndSend_def ws_sendTimeSync_def ws_resetTimeSync_def

lemma two_clients_run: "case two_clients_round of Inl e \<Rightarrow> False | Inr (b, mg) \<Rightarrow> b \<and> mg_queuedPlayers mg = [4] \<and> mg_playerCount mg = 1"
  by (simp add: two_clients_round_def two_clients_def mg_queueSession_def idle_manager_def mg_update_def mg_processPendingSessions_def
    mg_processSession_def mg_addQueuedPlayer_def ws_onSessionQueued_def ws_hasGMPermission_def idle_update_def mg_updateSessions_def
    mg_updateQueuedPlayers_def mg_updateExpiredPlayers_def mg_purgeTheaters_def Let_def session_run_defs session_admit_defs SESSION_TIMEOUT_NEVER_def
    mg_setSession_def)

theorem player_limit_respected_witness:
  "\<exists>mg'. two_clients_round = Inr (True, mg') \<and> mg_queuedPlayers mg' = [4] \<and> mg_playerCount mg' \<le> mg_playerLimit mg'"
proof -
  obtain mg' where r: "two_clients_round = Inr (True, mg')" "mg_queuedPlayers mg' = [4]"
    using two_clients_run by (auto split: sum.splits)
  have "mg_playerCount mg' \<le> mg_playerLimit mg'"
    using player_limit_respected [of idle_update "\<lambda>mg. mg" two_clients "\<lambda>_. 9" "\<lambda>_. False" 1000 True mg'] r(1)
      idle_updates
    by (simp add: two_clients_round_def two_clients_def mg_queueSession_def idle_manager_def)
  then show ?thesis using r by blast
qed

text \<open>
  C18: the waiting queue is served in order. After a pass over the queue, a front part of it has been
  admitted or has gone away, the rest still waits in the old order or has gone away, and
  somebody waits only if the player limit is reached.
\<close>

theorem queue_admission_order:
  assumes "session_updates upd" and "distinct (mg_queuedPlayers mg)"
    and "mg_updateQueuedPlayers upd rnd now mg = Inr mg'"
  shows "(\<exists>front rear. mg_queuedPlayers mg = front @ rear \<and> subseq (mg_queuedPlayers mg') rear
       \<and> set front \<subseteq> set (mg_freedSessions mg') \<union> {r. ws_isAuthed (mg_sessionHeap mg' r)}
       \<and> set rear \<subseteq> set (mg_queuedPlayers mg') \<union> set (mg_freedSessions mg'))
     \<and> (mg_queuedPlayers mg' = [] \<or> mg_playerLimit mg' \<le> mg_playerCount mg')"
proof -
  obtain qs m where q: "mg_updateQueueList upd rnd now (mg_queuedPlayers mg) mg = Inr (qs, m)" "mg' = m\<lparr>mg_queuedPlayers := qs\<rparr>"
    using assms(3) by (auto simp: mg_updateQueuedPlayers_def split: sum.splits)
  show ?thesis using session_updates.queue_order [OF assms(1) q(1) assms(2)] by (simp add: q(2))
qed

definition waiting_room :: "nat manager" where
  "waiting_room = (idle_manager 1)\<lparr>mg_queuedPlayers := [3, 4]\<rparr>"

theorem queue_admission_order_witness:
  "\<exists>mg'. mg_updateQueuedPlayers idle_update (\<lambda>_. 9) 1000 waiting_room = Inr mg' \<and> mg_queuedPlayers mg' = [4]
    \<and> mg_playerLimit mg' \<le> mg_playerCount mg'"
proof -
  have "case mg_updateQueuedPlayers idle_update (\<lambda>_. 9) 1000 waiting_room of Inl e \<Rightarrow> False | Inr mg \<Rightarrow> mg_queuedPlayers mg = [4]"
    by (simp add: mg_updateQueuedPlayers_def waiting_room_def idle_manager_def idle_update_def session_run_defs session_admit_defs
      SESSION_TIMEOUT_NEVER_def mg_setSession_def Let_def)
  then obtain mg' where r: "mg_updateQueuedPlayers idle_update (\<lambda>_. 9) 1000 waiting_room = Inr mg'" "mg_queuedPlayers mg' = [4]"
    by (auto split: sum.splits)
  have "mg_queuedPlayers mg' = [] \<or> mg_playerLimit mg' \<le> mg_playerCount mg'"
    using queue_admission_order [of idle_update waiting_room "\<lambda>_. 9" 1000 mg'] r(1)
      idle_updates
    by (simp add: waiting_room_def)
  then show ?thesis using r by simp
qed

section \<open>Theaters for players\<close>

lemma sort_key_hd:
  assumes "xs \<noteq> []"
  shows "hd (sort_key k xs) \<in> set xs" and "x \<in> set xs \<Longrightarrow> k (hd (sort_key k xs)) \<le> k x"
proof -
  obtain y ys where y: "sort_key k xs = y # ys" using assms by (cases "sort_key k xs") (auto simp flip: set_empty)
  have s: "set (y # ys) = set xs" "sorted (map k (y # ys))" using set_sort [of k xs] sorted_sort_key [of k xs] by (simp_all add: y)
  show "hd (sort_key k xs) \<in> set xs" using s(1) by (auto simp: y)
  show "k (hd (sort_key k xs)) \<le> k x" if "x \<in> set xs" using s that by (auto simp: y)
qed

lemma selected_is_best:
  assumes "mg_selectTheaterForPlayer s mg = Inr (Some t, mg1)"
  shows "t \<in> set (mg_orderedTheaters mg)" and "mg_theaterHeap mg1 = mg_theaterHeap mg"
    and "u \<in> set (mg_orderedTheaters mg) \<Longrightarrow>
      u = t \<or> (\<exists>v w. th_getOrder s (mg_theaterHeap mg u) = Inr v \<and> th_getOrder s (mg_theaterHeap mg t) = Inr w \<and> v \<le> w)"
proof -
  have ne: "mg_orderedTheaters mg \<noteq> []" using assms by (auto simp: mg_selectTheaterForPlayer_def)
  show h: "mg_theaterHeap mg1 = mg_theaterHeap mg" and t: "t \<in> set (mg_orderedTheaters mg)"
    using assms ne sort_key_hd(1) [OF ne] by (auto simp: mg_selectTheaterForPlayer_def Let_def split: if_splits)
  show "u = t \<or> (\<exists>v w. th_getOrder s (mg_theaterHeap mg u) = Inr v \<and> th_getOrder s (mg_theaterHeap mg t) = Inr w \<and> v \<le> w)"
    if u: "u \<in> set (mg_orderedTheaters mg)"
  proof (cases "length (mg_orderedTheaters mg) > 1")
    case True
    then have ok: "\<not> isl (th_getOrder s (mg_theaterHeap mg x))" if "x \<in> set (mg_orderedTheaters mg)" for x
      using assms ne that by (auto simp: mg_selectTheaterForPlayer_def list_ex_iff split: if_splits)
    have "t = hd (sort_key (\<lambda>t. - mg_order s mg t) (mg_orderedTheaters mg))"
      using assms ne True by (auto simp: mg_selectTheaterForPlayer_def Let_def split: if_splits)
    then have "mg_order s mg u \<le> mg_order s mg t" using sort_key_hd(2) [OF ne u, of "\<lambda>t. - mg_order s mg t"] by simp
    then show ?thesis using ok [OF u] ok [OF t] by (auto simp: mg_order_def split: sum.splits)
  next
    case False
    then show ?thesis using u t by (cases "mg_orderedTheaters mg") auto
  qed
qed

lemma onSessionAcceptedByTheater_ref:
  "mg_onSessionAcceptedByTheater env flags s t mg = Inr (u, mg') \<Longrightarrow> u = t"
  by (auto simp: mg_onSessionAcceptedByTheater_def split: option.splits)

definition theater_accepts :: "theater_env \<Rightarrow> tile_coord \<Rightarrow> session_view \<Rightarrow> theater \<Rightarrow> bool" where
  "theater_accepts env center s theater = (case th_acceptSession env center s theater of Inr (True, _) \<Rightarrow> True | _ \<Rightarrow> False)"

lemma best_accepts:
  assumes "th_getOrder s x = Inr v" and "th_getOrder s y = Inr w" and "v \<le> w"
    and "\<And>z. z = x \<or> z = y \<Longrightarrow> 0 \<le> th_getOnlineCount z \<and> (\<forall>m. th_map z = Some m \<longrightarrow> 0 \<le> ba_robotCount m)"
    and "theater_accepts env c s x" and "th_acceptSession env c s y = Inr (b, y')"
  shows b
proof -
  obtain x' where x: "th_acceptSession env c s x = Inr (True, x')"
    using assms(5) by (auto simp: theater_accepts_def split: sum.splits prod.splits bool.splits)
  have "4 \<le> v" using order_accepts [OF assms(1) _ _ x] assms(4) by blast
  then show b using order_accepts [OF assms(2) _ _ assms(6)] assms(3,4) by force
qed

text \<open>
  Players fill the theaters there are. A new theater is opened for a player exactly
  if no theater of the manager would accept the session; otherwise the player enters one that does.
\<close>

theorem new_theater_only_if_needed:
  assumes "mg_addPlayerToTheater env flags c new s mg = Inr (t, mg')" and "new \<notin> set (mg_orderedTheaters mg)"
    and counts: "\<And>u. u \<in> set (mg_orderedTheaters mg) \<Longrightarrow> 0 \<le> th_getOnlineCount (mg_theaterHeap mg u)
      \<and> (\<forall>m. th_map (mg_theaterHeap mg u) = Some m \<longrightarrow> 0 \<le> ba_robotCount m)"
  shows "if \<exists>u\<in>set (mg_orderedTheaters mg). theater_accepts env c s (mg_theaterHeap mg u)
    then t \<in> set (mg_orderedTheaters mg) \<and> theater_accepts env c s (mg_theaterHeap mg t) else t = new"
proof -
  obtain selected mg1 where sel: "mg_selectTheaterForPlayer s mg = Inr (selected, mg1)"
    using assms(1) by (auto simp: mg_addPlayerToTheater_def split: sum.splits)
  show ?thesis
  proof (cases selected)
    case None
    then have "mg_orderedTheaters mg = []" using sel by (auto simp: mg_selectTheaterForPlayer_def Let_def split: if_splits)
    then show ?thesis using assms(1) sel None
      by (auto simp: mg_addPlayerToTheater_def Let_def split: sum.splits dest: onSessionAcceptedByTheater_ref)
  next
    case (Some x)
    note best = selected_is_best [OF sel [unfolded Some]]
    obtain b x' where a: "th_acceptSession env c s (mg_theaterHeap mg x) = Inr (b, x')"
      using assms(1) sel Some best(2) by (auto simp: mg_addPlayerToTheater_def mg_acceptByTheater_def split: sum.splits)
    have t: "t = (if b then x else new)"
      using assms(1) sel Some best(2) a
      by (auto simp: mg_addPlayerToTheater_def mg_acceptByTheater_def Let_def split: sum.splits if_splits dest: onSessionAcceptedByTheater_ref)
    have acc: "theater_accepts env c s (mg_theaterHeap mg x) = b" using a by (simp add: theater_accepts_def split: bool.splits)
    have "b" if u: "u \<in> set (mg_orderedTheaters mg)" "theater_accepts env c s (mg_theaterHeap mg u)" for u
    proof (cases "u = x")
      case False
      then obtain v w where "th_getOrder s (mg_theaterHeap mg u) = Inr v" "th_getOrder s (mg_theaterHeap mg x) = Inr w" "v \<le> w"
        using best(3) [OF u(1)] by blast
      then show b by (rule best_accepts [OF _ _ _ _ u(2) a]) (use counts [OF u(1)] counts [OF best(1)] in auto)
    qed (use acc u in simp)
    then show ?thesis using t acc best(1) by auto
  qed
qed

text \<open>A second player joins the theater of the first one.\<close>

theorem new_theater_only_if_needed_witness:
  "\<exists>(mg :: nat manager) mg'. mg_orderedTheaters mg = [1]
    \<and> mg_addPlayerToTheater small_env (False, False) small_center 2 (small_session 8 5) mg = Inr (1, mg')"
proof -
  obtain t t' where t: "th_acceptSession small_env small_center (small_session 8 5) t = Inr (True, t')" "th_getOnlineCount t = 1"
      "th_map t' \<noteq> None" "\<forall>m. th_map t = Some m \<longrightarrow> ba_populationCap m = 3 \<and> ba_robotCount m = 0"
    using small_accepts by blast
  define mg where "mg = (idle_manager 2 :: nat manager)\<lparr>mg_theaterHeap := (\<lambda>_. t), mg_orderedTheaters := [1]\<rparr>"
  obtain u mg' where u: "mg_addPlayerToTheater small_env (False, False) small_center 2 (small_session 8 5) mg = Inr (u, mg')"
    using t(1,3) by (auto simp: mg_addPlayerToTheater_def mg_selectTheaterForPlayer_def mg_acceptByTheater_def mg_def
      mg_onSessionAcceptedByTheater_def mg_sendTheaterInfo_def split: option.splits)
  moreover have "u = 1"
    using new_theater_only_if_needed [OF u] t by (simp add: mg_def theater_accepts_def)
  ultimately show ?thesis by (intro exI [of _ mg] exI [of _ mg']) (simp add: mg_def)
qed

end
