(* ===== verification/Parcels.thy ===== *)
theory Parcels
  imports Prelude "HOL-Library.Monad_Syntax"
begin

unbundle bit_operations_syntax

text \<open>
  The hand-written messages of the world server, \<^verbatim>\<open>Parcel.h\<close>, \<^verbatim>\<open>Parcel.cpp\<close>, \<^verbatim>\<open>MovementInfo.cpp\<close>,
  \<^verbatim>\<open>StaminaInfo.cpp\<close> and \<^verbatim>\<open>LocationInfo.cpp\<close>: they are sent as sequences of varints and fixed words
  without tags. The coded streams of protobuf are byte lists here, with the varint loops of
  \<^verbatim>\<open>coded_stream.h\<close>. A signed field and a \<^verbatim>\<open>float\<close> are kept as their 32 bits. A failed read is \<open>None\<close>;
  an assertion of the message is an error value.
\<close>

section \<open>Varints\<close>

type_synonym u64 = "64 word"

lemma unat_u64_less: "unat v < 2 ^ 64" for v :: u64
  using unsigned_less [of v] by simp

lemma drop_bit_decreases: "128 \<le> v \<Longrightarrow> unat (drop_bit 7 v) < unat v" for v :: u64
  by (simp only: drop_bit_eq_div unat_div word_le_nat_alt) simp

function writeVarint64 :: "u64 \<Rightarrow> u8 list" where
  "writeVarint64 value =
     (if value \<ge> 128 then ucast (value OR 128) # writeVarint64 (drop_bit 7 value) else [ucast value])"
  by pat_completeness auto
termination by (relation "measure unat") (simp_all add: drop_bit_decreases)

declare writeVarint64.simps [simp del]

fun readVarint64From :: "nat \<Rightarrow> u64 \<Rightarrow> u8 list \<Rightarrow> (u64 \<times> u8 list) option" where
  \<comment> \<open>\<open>count\<close> bytes were read; a varint has at most ten\<close>
  "readVarint64From count result [] = None"
| "readVarint64From count result (b # bs) =
     (if count = 10 then None
      else let result1 = result OR push_bit (7 * count) (ucast (b AND 127))
           in if b AND 128 \<noteq> 0 then readVarint64From (count + 1) result1 bs else Some (result1, bs))"

definition readVarint64 :: "u8 list \<Rightarrow> (u64 \<times> u8 list) option" where
  "readVarint64 input = readVarint64From 0 0 input"

definition readVarint32 :: "u8 list \<Rightarrow> (u32 \<times> u8 list) option" where
  "readVarint32 input = map_option (\<lambda>(v, rest). (ucast v, rest)) (readVarint64 input)"

fun log2Floor :: "nat \<Rightarrow> nat" where
  "log2Floor n = (if n < 2 then 0 else Suc (log2Floor (n div 2)))"

declare log2Floor.simps [simp del]

definition varintSize32 :: "u32 \<Rightarrow> nat" where
  "varintSize32 value = (log2Floor (unat (value OR 1)) * 9 + 73) div 64"

section \<open>Fields\<close>

definition writeUInt32 :: "u32 \<Rightarrow> u8 list" where "writeUInt32 value = writeVarint64 (ucast value)"
definition writeInt32 :: "u32 \<Rightarrow> u8 list" where "writeInt32 value = writeVarint64 (scast value)"
definition writeEnum :: "u32 \<Rightarrow> u8 list" where "writeEnum value = writeVarint64 (scast value)"
definition writeFixedUInt32 :: "u32 \<Rightarrow> u8 list" where
  "writeFixedUInt32 value = [ucast value, ucast (drop_bit 8 value), ucast (drop_bit 16 value), ucast (drop_bit 24 value)]"
definition writeFloat :: "u32 \<Rightarrow> u8 list" where "writeFloat value = writeFixedUInt32 value"

definition readUInt32 :: "u8 list \<Rightarrow> (u32 \<times> u8 list) option" where "readUInt32 input = readVarint32 input"
definition readInt32 :: "u8 list \<Rightarrow> (u32 \<times> u8 list) option" where "readInt32 input = readVarint32 input"

fun readFixedUint32 :: "u8 list \<Rightarrow> (u32 \<times> u8 list) option" where
  "readFixedUint32 (a # b # c # d # rest) =
     Some (ucast a OR push_bit 8 (ucast b) OR push_bit 16 (ucast c) OR push_bit 24 (ucast d), rest)"
| "readFixedUint32 _ = None"

definition readFloat :: "u8 list \<Rightarrow> (u32 \<times> u8 list) option" where "readFloat input = readFixedUint32 input"

definition uint32Size :: "u32 \<Rightarrow> nat" where "uint32Size value = varintSize32 value"
definition int32Size :: "u32 \<Rightarrow> nat" where "int32Size value = (if sint value < 0 then 10 else varintSize32 value)"
definition enumSize :: "u32 \<Rightarrow> nat" where "enumSize value = int32Size value"
definition kFloatSize :: nat where "kFloatSize = 4"
definition kFixedUInt32Size :: nat where "kFixedUInt32Size = 4"

section \<open>The messages\<close>

text \<open>Every field is 32 bits wide: a GUID, an unsigned or signed integer, or a float.\<close>

record movement_info =
  mi_guid :: u32
  mi_counter :: u32
  mi_flags :: u32
  mi_positionX :: u32
  mi_positionY :: u32
  mi_orientation :: u32
  mi_time :: u32

definition mi_clear :: movement_info where
  "mi_clear = \<lparr>mi_guid = 0, mi_counter = 0, mi_flags = 0, mi_positionX = 0, mi_positionY = 0, mi_orientation = 0, mi_time = 0\<rparr>"

definition mi_sizeInBytes :: "movement_info \<Rightarrow> nat" where
  "mi_sizeInBytes m = uint32Size (mi_guid m) + uint32Size (mi_counter m) + uint32Size (mi_flags m) + kFloatSize + kFloatSize + kFloatSize + int32Size (mi_time m)"

definition mi_writeToStream :: "movement_info \<Rightarrow> u8 list" where
  "mi_writeToStream m =
     writeUInt32 (mi_guid m) @ writeUInt32 (mi_counter m) @ writeUInt32 (mi_flags m) @ writeFloat (mi_positionX m) @ writeFloat (mi_positionY m) @ writeFloat (mi_orientation m) @ writeInt32 (mi_time m)"

definition mi_readFromStream :: "u8 list \<Rightarrow> (movement_info \<times> u8 list) option" where
  "mi_readFromStream input = do {
     (guid, input) \<leftarrow> readUInt32 input;
     (counter, input) \<leftarrow> readUInt32 input;
     (flags, input) \<leftarrow> readUInt32 input;
     (positionX, input) \<leftarrow> readFloat input;
     (positionY, input) \<leftarrow> readFloat input;
     (orientation, input) \<leftarrow> readFloat input;
     (time, input) \<leftarrow> readInt32 input;
     Some (\<lparr>mi_guid = guid, mi_counter = counter, mi_flags = flags, mi_positionX = positionX, mi_positionY = positionY, mi_orientation = orientation, mi_time = time\<rparr>, input)
   }"

record location_info =
  li_guid :: u32
  li_positionX :: u32
  li_positionY :: u32
  li_time :: u32

definition li_clear :: location_info where
  "li_clear = \<lparr>li_guid = 0, li_positionX = 0, li_positionY = 0, li_time = 0\<rparr>"

definition li_sizeInBytes :: "location_info \<Rightarrow> nat" where
  "li_sizeInBytes m = uint32Size (li_guid m) + kFloatSize + kFloatSize + int32Size (li_time m)"

definition li_writeToStream :: "location_info \<Rightarrow> u8 list" where
  "li_writeToStream m =
     writeUInt32 (li_guid m) @ writeFloat (li_positionX m) @ writeFloat (li_positionY m) @ writeInt32 (li_time m)"

definition li_readFromStream :: "u8 list \<Rightarrow> (location_info \<times> u8 list) option" where
  "li_readFromStream input = do {
     (guid, input) \<leftarrow> readUInt32 input;
     (positionX, input) \<leftarrow> readFloat input;
     (positionY, input) \<leftarrow> readFloat input;
     (time, input) \<leftarrow> readInt32 input;
     Some (\<lparr>li_guid = guid, li_positionX = positionX, li_positionY = positionY, li_time = time\<rparr>, input)
   }"

record stamina_info =
  si_guid :: u32
  si_counter :: u32
  si_flags :: u32
  si_stamina :: u32
  si_maxStamina :: u32
  si_staminaRegenRate :: u32
  si_chargeStartStamina :: u32
  si_chargedStamina :: u32
  si_chargeConsumesStamina :: u32
  si_chargeCounter :: u32
  si_time :: u32
  si_attackCounter :: u32
  si_consumedStaminaTotal :: u32
  si_attackInfoCounter :: u32

definition si_clear :: stamina_info where
  "si_clear = \<lparr>si_guid = 0, si_counter = 0, si_flags = 0, si_stamina = 0, si_maxStamina = 0, si_staminaRegenRate = 0, si_chargeStartStamina = 0, si_chargedStamina = 0, si_chargeConsumesStamina = 0, si_chargeCounter = 0, si_time = 0, si_attackCounter = 0, si_consumedStaminaTotal = 0, si_attackInfoCounter = 0\<rparr>"

definition si_sizeInBytes :: "stamina_info \<Rightarrow> nat" where
  "si_sizeInBytes m = uint32Size (si_guid m) + uint32Size (si_counter m) + uint32Size (si_flags m) + int32Size (si_stamina m) + int32Size (si_maxStamina m) + kFloatSize + int32Size (si_chargeStartStamina m) + int32Size (si_chargedStamina m) + int32Size (si_chargeConsumesStamina m) + uint32Size (si_chargeCounter m) + int32Size (si_time m) + uint32Size (si_attackCounter m) + uint32Size (si_consumedStaminaTotal m) + uint32Size (si_attackInfoCounter m)"

definition si_writeToStream :: "stamina_info \<Rightarrow> u8 list" where
  "si_writeToStream m =
     writeUInt32 (si_guid m) @ writeUInt32 (si_counter m) @ writeUInt32 (si_flags m) @ writeInt32 (si_stamina m) @ writeInt32 (si_maxStamina m) @ writeFloat (si_staminaRegenRate m) @ writeInt32 (si_chargeStartStamina m) @ writeInt32 (si_chargedStamina m) @ writeInt32 (si_chargeConsumesStamina m) @ writeUInt32 (si_chargeCounter m) @ writeInt32 (si_time m) @ writeUInt32 (si_attackCounter m) @ writeUInt32 (si_consumedStaminaTotal m) @ writeUInt32 (si_attackInfoCounter m)"

definition si_readFromStream :: "u8 list \<Rightarrow> (stamina_info \<times> u8 list) option" where
  "si_readFromStream input = do {
     (guid, input) \<leftarrow> readUInt32 input;
     (counter, input) \<leftarrow> readUInt32 input;
     (flags, input) \<leftarrow> readUInt32 input;
     (stamina, input) \<leftarrow> readInt32 input;
     (maxStamina, input) \<leftarrow> readInt32 input;
     (staminaRegenRate, input) \<leftarrow> readFloat input;
     (chargeStartStamina, input) \<leftarrow> readInt32 input;
     (chargedStamina, input) \<leftarrow> readInt32 input;
     (chargeConsumesStamina, input) \<leftarrow> readInt32 input;
     (chargeCounter, input) \<leftarrow> readUInt32 input;
     (time, input) \<leftarrow> readInt32 input;
     (attackCounter, input) \<leftarrow> readUInt32 input;
     (consumedStaminaTotal, input) \<leftarrow> readUInt32 input;
     (attackInfoCounter, input) \<leftarrow> readUInt32 input;
     Some (\<lparr>si_guid = guid, si_counter = counter, si_flags = flags, si_stamina = stamina, si_maxStamina = maxStamina, si_staminaRegenRate = staminaRegenRate, si_chargeStartStamina = chargeStartStamina, si_chargedStamina = chargedStamina, si_chargeConsumesStamina = chargeConsumesStamina, si_chargeCounter = chargeCounter, si_time = time, si_attackCounter = attackCounter, si_consumedStaminaTotal = consumedStaminaTotal, si_attackInfoCounter = attackInfoCounter\<rparr>, input)
   }"

section \<open>Parsing and serialising\<close>

datatype parcel_error = ReadFailed | ParcelAssertion

definition pa_mergePartialFromCodedStream :: "(u8 list \<Rightarrow> ('a \<times> u8 list) option) \<Rightarrow> u8 list \<Rightarrow> parcel_error + 'a" where
  "pa_mergePartialFromCodedStream readFromStream input =
     (case readFromStream input of
        None \<Rightarrow> Inl ReadFailed
      | Some (m, rest) \<Rightarrow> if rest = [] then Inr m else Inl ParcelAssertion)"

definition pa_serialize :: "('a \<Rightarrow> u8 list) \<Rightarrow> ('a \<Rightarrow> nat) \<Rightarrow> 'a \<Rightarrow> parcel_error + u8 list" where
  \<comment> \<open>\<^verbatim>\<open>ByteSizeLong\<close>, then \<^verbatim>\<open>SerializeWithCachedSizes\<close>\<close>
  "pa_serialize writeToStream sizeInBytes m =
     (let cachedSize = sizeInBytes m; output = writeToStream m
      in if cachedSize = length output then Inr output else Inl ParcelAssertion)"

section \<open>Codecs\<close>

text \<open>
  What a reader relies on: it gives back what was written and stops there, a truncated encoding is
  rejected, and the announced size is the number of bytes written.
\<close>

locale codec =
  fixes enc :: "'a \<Rightarrow> u8 list" and dec :: "u8 list \<Rightarrow> ('a \<times> u8 list) option" and bytes :: "'a \<Rightarrow> nat"
  assumes read_write: "dec (enc x @ rest) = Some (x, rest)"
    and truncated: "enc x = p @ q \<Longrightarrow> q \<noteq> [] \<Longrightarrow> dec p = None"
    and size: "length (enc x) = bytes x"
begin

lemma read_written: "dec (enc x) = Some (x, [])"
  using read_write [of x "[]"] by simp

lemma write_inj: "enc x = enc y \<Longrightarrow> x = y"
  by (metis read_written option.inject prod.inject)

lemma prefix_free: "enc x = enc y @ rest \<Longrightarrow> rest = []"
  using truncated [of x "enc y" rest] read_written [of y] by auto

lemma truncated_sequence:
  assumes "enc x @ later = p @ q" and "q \<noteq> []" and "\<And>p'. later = p' @ q \<Longrightarrow> f (x, p') = None"
  shows "Option.bind (dec p) f = None"
proof -
  from assms(1) consider us where "enc x = p @ us" "us \<noteq> []" | us where "p = enc x @ us" "later = us @ q"
    by (cases "length p < length (enc x)") (auto simp: append_eq_append_conv2)
  then show ?thesis
    by cases (simp_all add: truncated read_write assms(3))
qed

end

section \<open>Correctness of the varints\<close>

lemma low_byte: "128 \<le> v \<Longrightarrow> (ucast (v OR 128) :: u8) AND 128 \<noteq> 0" for v :: u64
proof -
  have "bit ((ucast (v OR 128) :: u8) AND 128) 7" by (simp add: bit_simps bit_numeral_rec)
  then show ?thesis by force
qed

lemma byte_parts:
  fixes v :: u64
  shows "ucast ((ucast (v OR 128) :: u8) AND 127) = take_bit 7 v"
    and "v < 128 \<Longrightarrow> ucast ((ucast v :: u8) AND 127) = v" and "v < 128 \<Longrightarrow> (ucast v :: u8) AND 128 = 0"
proof -
  show "ucast ((ucast (v OR 128) :: u8) AND 127) = take_bit 7 v"
    by (rule bit_word_eqI) (auto simp: bit_simps bit_numeral_rec less_Suc_eq numeral_eq_Suc)
  assume "v < 128"
  then have t: "take_bit 7 v = v" by (simp add: take_bit_eq_mod word_less_nat_alt word_unat_eq_iff unat_mod)
  have "ucast ((ucast v :: u8) AND 127) = take_bit 7 v"
    by (rule bit_word_eqI) (auto simp: bit_simps bit_numeral_rec less_Suc_eq numeral_eq_Suc)
  then show "ucast ((ucast v :: u8) AND 127) = v" by (simp only: t)
  have "(ucast (take_bit 7 v) :: u8) AND 128 = 0"
    by (rule bit_word_eqI) (auto simp: bit_simps bit_numeral_rec less_Suc_eq numeral_eq_Suc)
  then show "(ucast v :: u8) AND 128 = 0" by (simp only: t)
qed

lemma varint_split: "push_bit k (take_bit 7 v) OR push_bit (k + 7) (drop_bit 7 v) = push_bit k v" for v :: u64
proof -
  have "take_bit 7 v OR push_bit 7 (drop_bit 7 v) = v"
    by (rule bit_word_eqI) (auto simp: bit_simps, metis le_add_diff_inverse not_less)
  then show ?thesis by (metis push_bit_or push_bit_push_bit add.commute)
qed

lemma varint_read:
  "unat v < 128 ^ (10 - c) \<Longrightarrow> c < 10 \<Longrightarrow> readVarint64From c r (writeVarint64 v @ rest) = Some (r OR push_bit (7 * c) v, rest)"
proof (induction v arbitrary: c r rule: writeVarint64.induct)
  case (1 v)
  show ?case
  proof (cases "128 \<le> v")
    case True
    have u: "128 \<le> unat v" using True by (simp add: word_le_nat_alt)
    then have c: "c < 9" using 1(2,3) by (cases "c = 9") auto
    then obtain k where k: "10 - c = Suc k" "10 - Suc c = k" by (metis Suc_diff_Suc 1(3))
    have "unat (drop_bit 7 v) < 128 ^ (10 - Suc c)"
      using 1(2) by (simp only: k drop_bit_eq_div unat_div) (simp add: div_less_iff_less_mult mult.commute)
    from 1(1) [OF True this] c have "readVarint64From (Suc c) r' (writeVarint64 (drop_bit 7 v) @ rest) = Some (r' OR push_bit (7 * Suc c) (drop_bit 7 v), rest)" for r'
      by simp
    then show ?thesis
      using True c 1(3) low_byte [OF True] varint_split [of "7 * c" v]
      by (subst writeVarint64.simps) (simp add: Let_def byte_parts or.assoc add.commute del: push_bit_or)
  next
    case False
    then have "v < 128" by simp
    then show ?thesis using False 1(3) byte_parts(2,3) [of v] by (subst writeVarint64.simps) (simp add: Let_def)
  qed
qed

lemma varint_truncated: "writeVarint64 v = p @ q \<Longrightarrow> q \<noteq> [] \<Longrightarrow> readVarint64From c r p = None"
proof (induction v arbitrary: p c r rule: writeVarint64.induct)
  case (1 v)
  show ?case
  proof (cases p)
    case (Cons b p')
    then have v: "128 \<le> v" using 1(2,3) by (subst (asm) writeVarint64.simps) (auto split: if_splits)
    then have "b = ucast (v OR 128)" "writeVarint64 (drop_bit 7 v) = p' @ q" using 1(2) Cons by (subst (asm) writeVarint64.simps, simp)+
    then show ?thesis using Cons low_byte [OF v] 1(1) [OF v _ 1(3)] by (simp add: Let_def)
  qed simp
qed

lemma log2Floor_eq: "2 ^ k \<le> n \<Longrightarrow> n < 2 ^ Suc k \<Longrightarrow> log2Floor n = k"
proof (induction k arbitrary: n)
  case 0
  then show ?case by (subst log2Floor.simps) simp
next
  case (Suc k)
  have "log2Floor (n div 2) = k" using Suc.prems by (intro Suc.IH) auto
  moreover have "2 \<le> n" using Suc.prems(1) self_le_power [of 2 "Suc k"] by (meson le_trans one_le_numeral zero_less_Suc)
  ultimately show ?case by (subst log2Floor.simps) simp
qed

lemma log2Floor_less: "n < 2 ^ Suc k \<Longrightarrow> log2Floor n \<le> k"
proof (induction k arbitrary: n)
  case 0
  then show ?case by (subst log2Floor.simps) simp
next
  case (Suc k)
  then show ?case by (subst log2Floor.simps) (simp add: Suc.IH)
qed

lemma log2Floor_128: "128 \<le> n \<Longrightarrow> log2Floor n = log2Floor (n div 128) + 7"
proof -
  have half: "2 \<le> m \<Longrightarrow> log2Floor m = Suc (log2Floor (m div 2))" for m by (subst log2Floor.simps) simp
  assume n: "128 \<le> n"
  have "log2Floor n = log2Floor (n div 2 div 2 div 2 div 2 div 2 div 2 div 2) + 7"
    using n half [of n] half [of "n div 2"] half [of "n div 2 div 2"] half [of "n div 2 div 2 div 2"] half [of "n div 2 div 2 div 2 div 2"]
      half [of "n div 2 div 2 div 2 div 2 div 2"] half [of "n div 2 div 2 div 2 div 2 div 2 div 2"] by (simp add: div_mult2_eq [symmetric])
  then show ?thesis by (simp add: div_mult2_eq [symmetric])
qed

lemma varint_length: "length (writeVarint64 v) = log2Floor (unat v) div 7 + 1"
proof (induction v rule: writeVarint64.induct)
  case (1 v)
  show ?case
  proof (cases "128 \<le> v")
    case True
    then have "128 \<le> unat v" "unat (drop_bit 7 v) = unat v div 128" by (simp_all only: word_le_nat_alt drop_bit_eq_div unat_div) simp_all
    then show ?thesis using 1 [OF True] True log2Floor_128 by (subst writeVarint64.simps) simp
  next
    case False
    then have "unat v < 128" by (simp add: word_le_nat_alt)
    then have "log2Floor (unat v) \<le> 6" by (intro log2Floor_less) simp
    then show ?thesis using False by (subst writeVarint64.simps) simp
  qed
qed

lemma log2Floor_or_1: "log2Floor (n OR 1) = log2Floor n" for n :: nat
proof -
  have "(n OR 1) div 2 = n div 2" "n OR 1 < 2 \<longleftrightarrow> n < 2"
    unfolding or_one_eq by (cases "even n"; force elim: evenE oddE)+
  then show ?thesis by (metis log2Floor.simps)
qed

lemma varintSize32_length: "varintSize32 v = length (writeVarint64 (ucast v))"
proof -
  have "unat v < 2 ^ LENGTH(32)" by (rule unsigned_less)
  then have "unat v < 2 ^ Suc 31" and u64: "unat v < 2 ^ 64" by simp_all
  then have l: "log2Floor (unat v) < 32" using log2Floor_less [of "unat v" 31] by simp
  have "\<forall>l<32. (l * 9 + 73) div 64 = l div 7 + (1 :: nat)" by code_simp
  then have "varintSize32 v = log2Floor (unat v) div 7 + 1" using l by (simp add: varintSize32_def unsigned_or_eq log2Floor_or_1 [unfolded One_nat_def])
  moreover have "unat (ucast v :: u64) = unat v" using u64 by (simp add: unsigned_ucast_eq take_bit_nat_eq_self)
  ultimately show ?thesis by (simp add: varint_length)
qed

lemma last_bit: "31 \<le> n \<Longrightarrow> n < 32 \<Longrightarrow> n = 31" for n :: nat
  by simp

lemma int32Size_length: "int32Size v = length (writeVarint64 (scast v))"
proof (cases "sint v < 0")
  case True
  have r: "- (2 ^ 31) \<le> sint v" using sint_greater_eq [of v] by simp
  have "uint (scast v :: u64) = sint v mod 2 ^ 64" by (simp only: scast_eq uint_word_of_int_eq take_bit_eq_mod) simp
  also have "(sint v + 2 ^ 64) mod 2 ^ 64 = sint v + 2 ^ 64" using True r by (intro mod_pos_pos_trivial) auto
  then have "sint v mod 2 ^ 64 = sint v + 2 ^ 64" by simp
  finally have "2 ^ 63 \<le> unat (scast v :: u64)" using r by (simp add: unat_eq_nat_uint le_nat_iff)
  moreover have "unat (scast v :: u64) < 2 ^ Suc 63" using unat_u64_less [of "scast v"] by simp
  ultimately show ?thesis using True log2Floor_eq [of 63] by (simp add: int32Size_def varint_length)
next
  case False
  then have "\<not> bit v 31" using bit_last_iff [of v] by simp
  then have "bit v (min 31 n) = bit v n" for n using bit_imp_le_length [of v n] by (cases "n < 31") (auto simp: min_def not_less dest!: last_bit)
  then have "(scast v :: u64) = ucast v" by (intro bit_word_eqI) (auto simp: bit_simps)
  then show ?thesis using False by (simp add: int32Size_def varintSize32_length)
qed

lemma cast_back: "ucast (ucast x :: u64) = x" "ucast (scast x :: u64) = x" for x :: u32
  by (rule bit_word_eqI; auto simp: bit_simps min_def dest!: last_bit)+

interpretation uint32: codec writeUInt32 readUInt32 uint32Size
proof
  fix x :: u32 and rest p q
  have "unat (ucast x :: u64) < 128 ^ (10 - 0)" using unat_u64_less [of "ucast x"] by simp
  from varint_read [OF this, of 0 rest] show "readUInt32 (writeUInt32 x @ rest) = Some (x, rest)"
    by (simp add: readUInt32_def readVarint32_def readVarint64_def writeUInt32_def cast_back)
  show "readUInt32 p = None" if "writeUInt32 x = p @ q" "q \<noteq> []"
    using varint_truncated that by (simp add: readUInt32_def readVarint32_def readVarint64_def writeUInt32_def)
  show "length (writeUInt32 x) = uint32Size x" by (simp add: writeUInt32_def uint32Size_def varintSize32_length)
qed

interpretation int32: codec writeInt32 readInt32 int32Size
proof
  fix x :: u32 and rest p q
  have "unat (scast x :: u64) < 128 ^ (10 - 0)" using unat_u64_less [of "scast x"] by simp
  from varint_read [OF this, of 0 rest] show "readInt32 (writeInt32 x @ rest) = Some (x, rest)"
    by (simp add: readInt32_def readVarint32_def readVarint64_def writeInt32_def cast_back)
  show "readInt32 p = None" if "writeInt32 x = p @ q" "q \<noteq> []"
    using varint_truncated that by (simp add: readInt32_def readVarint32_def readVarint64_def writeInt32_def)
  show "length (writeInt32 x) = int32Size x" by (simp add: writeInt32_def int32Size_length)
qed

interpretation fixed32: codec writeFixedUInt32 readFixedUint32 "\<lambda>_. kFixedUInt32Size"
proof
  fix x :: u32 and rest p q
  have "ucast (ucast x :: u8) OR push_bit 8 (ucast (ucast (drop_bit 8 x) :: u8)) OR push_bit 16 (ucast (ucast (drop_bit 16 x) :: u8))
      OR push_bit 24 (ucast (ucast (drop_bit 24 x) :: u8)) = x"
    (is "?l = x")
  proof (rule bit_word_eqI)
    fix n :: nat
    have "24 \<le> n \<Longrightarrow> 24 + (n - 24) = n" by simp
    then show "bit ?l n = bit x n" if "n < LENGTH(32)"
      using that by (cases "n < 8"; cases "n < 16"; cases "n < 24") (auto simp: bit_simps)
  qed
  then show "readFixedUint32 (writeFixedUInt32 x @ rest) = Some (x, rest)" by (simp add: writeFixedUInt32_def)
  show "readFixedUint32 p = None" if "writeFixedUInt32 x = p @ q" "q \<noteq> []"
    using that by (cases p rule: readFixedUint32.cases) (auto simp: writeFixedUInt32_def)
  show "length (writeFixedUInt32 x) = kFixedUInt32Size" by (simp add: writeFixedUInt32_def kFixedUInt32Size_def)
qed

interpretation float: codec writeFloat readFloat "\<lambda>_. kFloatSize"
  by unfold_locales (auto simp: writeFloat_def readFloat_def fixed32.read_write fixed32.truncated kFloatSize_def fixed32.size kFixedUInt32Size_def)

section \<open>Correctness of the messages\<close>

lemmas field_round_trips = uint32.read_write int32.read_write float.read_write uint32.read_written int32.read_written float.read_written

lemmas field_sizes = uint32.size int32.size float.size

lemmas field_sequences = uint32.truncated_sequence int32.truncated_sequence float.truncated_sequence

interpretation movement: codec mi_writeToStream mi_readFromStream mi_sizeInBytes
proof
  fix x :: movement_info and rest p q
  show "mi_readFromStream (mi_writeToStream x @ rest) = Some (x, rest)"
    by (simp add: mi_writeToStream_def mi_readFromStream_def field_round_trips)
  show "mi_readFromStream p = None" if "mi_writeToStream x = p @ q" "q \<noteq> []"
    using that unfolding mi_writeToStream_def mi_readFromStream_def
    by - ((erule (1) field_sequences, simp only: prod.case)+, simp add: int32.truncated)
  show "length (mi_writeToStream x) = mi_sizeInBytes x"
    by (simp add: mi_writeToStream_def mi_sizeInBytes_def field_sizes)
qed

interpretation location: codec li_writeToStream li_readFromStream li_sizeInBytes
proof
  fix x :: location_info and rest p q
  show "li_readFromStream (li_writeToStream x @ rest) = Some (x, rest)"
    by (simp add: li_writeToStream_def li_readFromStream_def field_round_trips)
  show "li_readFromStream p = None" if "li_writeToStream x = p @ q" "q \<noteq> []"
    using that unfolding li_writeToStream_def li_readFromStream_def
    by - ((erule (1) field_sequences, simp only: prod.case)+, simp add: int32.truncated)
  show "length (li_writeToStream x) = li_sizeInBytes x"
    by (simp add: li_writeToStream_def li_sizeInBytes_def field_sizes)
qed

interpretation stamina: codec si_writeToStream si_readFromStream si_sizeInBytes
proof
  fix x :: stamina_info and rest p q
  show "si_readFromStream (si_writeToStream x @ rest) = Some (x, rest)"
    by (simp add: si_writeToStream_def si_readFromStream_def field_round_trips)
  show "si_readFromStream p = None" if "si_writeToStream x = p @ q" "q \<noteq> []"
    using that unfolding si_writeToStream_def si_readFromStream_def
    by - ((erule (1) field_sequences, simp only: prod.case)+, simp add: uint32.truncated)
  show "length (si_writeToStream x) = si_sizeInBytes x"
    by (simp add: si_writeToStream_def si_sizeInBytes_def field_sizes)
qed

context codec
begin

lemma merge_written: "pa_serialize enc bytes x = Inr (enc x) \<and> pa_mergePartialFromCodedStream dec (enc x) = Inr x"
  by (simp add: pa_serialize_def size pa_mergePartialFromCodedStream_def read_written)

lemma merge_truncated: "enc x = p @ q \<Longrightarrow> q \<noteq> [] \<Longrightarrow> pa_mergePartialFromCodedStream dec p = Inl ReadFailed"
  by (simp add: pa_mergePartialFromCodedStream_def truncated)

lemma merge_trailing: "extra \<noteq> [] \<Longrightarrow> pa_mergePartialFromCodedStream dec (enc x @ extra) = Inl ParcelAssertion"
  by (simp add: pa_mergePartialFromCodedStream_def read_write)

end

text \<open>
  The hand-written messages survive the wire. Serialising a movement, location or stamina message
  never trips the assertion on its announced size, and parsing the bytes gives the message back.
\<close>

theorem parcel_messages_roundtrip:
  "pa_serialize mi_writeToStream mi_sizeInBytes m = Inr (mi_writeToStream m)
   \<and> pa_mergePartialFromCodedStream mi_readFromStream (mi_writeToStream m) = Inr m
   \<and> pa_serialize li_writeToStream li_sizeInBytes l = Inr (li_writeToStream l)
   \<and> pa_mergePartialFromCodedStream li_readFromStream (li_writeToStream l) = Inr l
   \<and> pa_serialize si_writeToStream si_sizeInBytes t = Inr (si_writeToStream t)
   \<and> pa_mergePartialFromCodedStream si_readFromStream (si_writeToStream t) = Inr t"
  using movement.merge_written location.merge_written stamina.merge_written by blast

text \<open>
  A stream that is not exactly one message is refused, in two ways. A truncated movement or
  stamina message is a read error, which costs the client the packet; a message followed by even one more
  byte trips the assertion in \<^verbatim>\<open>MergePartialFromCodedStream\<close> and brings the server down.
\<close>

theorem parcel_stream_must_be_exact:
  assumes "mi_writeToStream m = p @ q" and "q \<noteq> []" and "si_writeToStream t = p' @ q'" and "q' \<noteq> []" and "extra \<noteq> []"
  shows "pa_mergePartialFromCodedStream mi_readFromStream p = Inl ReadFailed
    \<and> pa_mergePartialFromCodedStream si_readFromStream p' = Inl ReadFailed
    \<and> pa_mergePartialFromCodedStream mi_readFromStream (mi_writeToStream m @ extra) = Inl ParcelAssertion
    \<and> pa_mergePartialFromCodedStream si_readFromStream (si_writeToStream t @ extra) = Inl ParcelAssertion"
  using movement.merge_truncated [OF assms(1,2)] stamina.merge_truncated [OF assms(3,4)] movement.merge_trailing [OF assms(5)]
    stamina.merge_trailing [OF assms(5)] by blast

theorem parcel_stream_must_be_exact_witness:
  "pa_mergePartialFromCodedStream mi_readFromStream (mi_writeToStream mi_clear @ [0]) = Inl ParcelAssertion
   \<and> pa_mergePartialFromCodedStream si_readFromStream [] = Inl ReadFailed"
proof -
  have "writeUInt32 0 = [0]" by (simp add: writeUInt32_def writeVarint64.simps)
  then have "mi_writeToStream mi_clear = [] @ mi_writeToStream mi_clear" "mi_writeToStream mi_clear \<noteq> []"
    "si_writeToStream si_clear = [] @ si_writeToStream si_clear" "si_writeToStream si_clear \<noteq> []"
    by (simp_all add: mi_writeToStream_def mi_clear_def si_writeToStream_def si_clear_def)
  from parcel_stream_must_be_exact [OF this, of "[0]"] show ?thesis by simp
qed

end
