(* ===== verification/Object_Updates.thy ===== *)
theory Object_Updates
  imports Parcels
begin

text \<open>
  Identity and replication of game objects: GUIDs (\<^verbatim>\<open>ObjectGuid.h\<close>), the mask of updated fields
  (\<^verbatim>\<open>FieldUpdateMask.h\<close>) and the update message (\<^verbatim>\<open>UpdateObject.cpp\<close>). The array of a mask is a list; an
  access outside of it is an error value. The fields an object writes come as a list, in the
  order of the program, with the condition, the index and the value of each.
\<close>

section \<open>GUIDs\<close>

datatype guid_type =
    GUIDTYPE_PLAYER | GUIDTYPE_ROBOT | GUIDTYPE_ITEMBOX | GUIDTYPE_ITEM | GUIDTYPE_CARRIED_ITEM | GUIDTYPE_PROJECTILE
  | GUIDTYPE_UNIT_LOCATOR

fun guid_type_index :: "guid_type \<Rightarrow> u32" where
  "guid_type_index GUIDTYPE_PLAYER = 0"
| "guid_type_index GUIDTYPE_ROBOT = 1"
| "guid_type_index GUIDTYPE_ITEMBOX = 2"
| "guid_type_index GUIDTYPE_ITEM = 3"
| "guid_type_index GUIDTYPE_CARRIED_ITEM = 4"
| "guid_type_index GUIDTYPE_PROJECTILE = 5"
| "guid_type_index GUIDTYPE_UNIT_LOCATOR = 6"

type_synonym object_guid = u32

definition guid_EMPTY :: object_guid where "guid_EMPTY = 0"
definition guid_new :: "guid_type \<Rightarrow> u32 \<Rightarrow> object_guid" where "guid_new t counter = push_bit 24 (guid_type_index t) OR counter"
definition guid_getType :: "object_guid \<Rightarrow> u32" where "guid_getType g = drop_bit 24 g AND 255"
definition guid_getCounter :: "object_guid \<Rightarrow> u32" where "guid_getCounter g = g AND 16777215"
definition guid_getMaxCounter :: u32 where "guid_getMaxCounter = 16777215"
definition guid_isEmpty :: "object_guid \<Rightarrow> bool" where "guid_isEmpty g = (g = 0)"
definition guid_isType :: "guid_type \<Rightarrow> object_guid \<Rightarrow> bool" where "guid_isType t g = (guid_getType g = guid_type_index t)"

datatype update_error = MaskOutOfBounds | UpdateAssertion

definition generateSpawnId :: "u32 \<Rightarrow> update_error + u32" where
  \<comment> \<open>the next value of a spawn id counter, as for players, robots, item boxes, items, projectiles and locators\<close>
  "generateSpawnId counter = (let c = counter + 1 in if c \<le> guid_getMaxCounter then Inr c else Inl UpdateAssertion)"

fun generateSpawnIds :: "nat \<Rightarrow> u32 \<Rightarrow> update_error + u32 list" where
  "generateSpawnIds 0 counter = Inr []"
| "generateSpawnIds (Suc n) counter =
     (case generateSpawnId counter of
        Inl e \<Rightarrow> Inl e
      | Inr c \<Rightarrow> (case generateSpawnIds n c of Inl e \<Rightarrow> Inl e | Inr cs \<Rightarrow> Inr (c # cs)))"

section \<open>Masks\<close>

record field_update_mask =
  fm_bits :: "bool list option"
  fm_fieldCount :: u32
  fm_blockCount :: u32

definition fm_new :: field_update_mask where
  "fm_new = \<lparr>fm_bits = None, fm_fieldCount = 0, fm_blockCount = 0\<rparr>"

definition fm_reset :: "field_update_mask \<Rightarrow> field_update_mask" where
  "fm_reset m = m\<lparr>fm_bits := map_option (\<lambda>_. replicate (unat (fm_blockCount m * 32)) False) (fm_bits m)\<rparr>"

definition fm_setCount :: "u32 \<Rightarrow> field_update_mask \<Rightarrow> field_update_mask" where
  "fm_setCount fieldCount m =
     (let blockCount = (fieldCount + 32 - 1) div 32
      in fm_reset (\<lparr>fm_bits = Some (replicate (unat (blockCount * 32)) False), fm_fieldCount = fieldCount, fm_blockCount = blockCount\<rparr>))"

definition fm_count :: "field_update_mask \<Rightarrow> u32" where "fm_count m = fm_fieldCount m"

definition fm_setBit :: "nat \<Rightarrow> bool \<Rightarrow> field_update_mask \<Rightarrow> update_error + field_update_mask" where
  "fm_setBit index value m =
     (case fm_bits m of
        None \<Rightarrow> Inr m
      | Some bits \<Rightarrow> if index < length bits then Inr (m\<lparr>fm_bits := Some (bits[index := value])\<rparr>) else Inl MaskOutOfBounds)"

definition fm_resetBit :: "nat \<Rightarrow> field_update_mask \<Rightarrow> update_error + field_update_mask" where
  "fm_resetBit index m = fm_setBit index False m"

definition fm_testBit :: "nat \<Rightarrow> field_update_mask \<Rightarrow> update_error + bool" where
  "fm_testBit index m =
     (case fm_bits m of
        None \<Rightarrow> Inr False
      | Some bits \<Rightarrow> if index < length bits then Inr (bits ! index) else Inl MaskOutOfBounds)"

definition fm_byteSize :: "field_update_mask \<Rightarrow> u32" where
  "fm_byteSize m = fm_blockCount m * of_nat kFixedUInt32Size"

definition fm_maskPart :: "bool list \<Rightarrow> nat \<Rightarrow> u32" where
  "fm_maskPart bits i = fold (\<lambda>j part. if bits ! (i * 32 + j) then part OR push_bit j 1 else part) [0..<32] 0"

definition fm_writeMask :: "field_update_mask \<Rightarrow> u8 list" where
  \<comment> \<open>a mask without an array has no blocks\<close>
  "fm_writeMask m =
     (case fm_bits m of
        None \<Rightarrow> []
      | Some bits \<Rightarrow> concat (map (\<lambda>i. writeFixedUInt32 (fm_maskPart bits i)) [0..<unat (fm_blockCount m)]))"

section \<open>Fields\<close>

definition MOVEMENT_FLAG_WALKING :: u32 where "MOVEMENT_FLAG_WALKING = 1"

datatype field_value =
    FInt32 u32
  | FUInt32 u32
  | FFloat u32
  | FPoint u32 u32
  | FBool bool
  | FMovement movement_info movement_info
  | FStamina stamina_info
  | FLocation location_info

definition writeBool :: "bool \<Rightarrow> u8 list" where "writeBool value = writeVarint64 (if value then 1 else 0)"
definition readBool :: "u8 list \<Rightarrow> (bool \<times> u8 list) option" where
  "readBool input = map_option (\<lambda>(v, rest). (v \<noteq> 0, rest)) (readVarint64 input)"

fun fv_write :: "field_value \<Rightarrow> u8 list" where
  "fv_write (FInt32 v) = writeInt32 v"
| "fv_write (FUInt32 v) = writeUInt32 v"
| "fv_write (FFloat v) = writeFloat v"
| "fv_write (FPoint x y) = writeFloat x @ writeFloat y"
| "fv_write (FBool b) = writeBool b"
| "fv_write (FMovement m seg) = mi_writeToStream m @ (if mi_flags m AND MOVEMENT_FLAG_WALKING \<noteq> 0 then mi_writeToStream seg else [])"
| "fv_write (FStamina t) = si_writeToStream t"
| "fv_write (FLocation l) = li_writeToStream l"

type_synonym field_write = "bool \<times> nat \<times> field_value"

fun writeFieldList :: "field_write list \<Rightarrow> field_update_mask \<times> u8 list \<Rightarrow> update_error + field_update_mask \<times> u8 list" where
  "writeFieldList [] mo = Inr mo"
| "writeFieldList ((due, i, v) # fs) (updateMask, output) =
     (if due then (case fm_setBit i True updateMask of Inl e \<Rightarrow> Inl e | Inr updateMask1 \<Rightarrow> writeFieldList fs (updateMask1, output @ fv_write v))
      else writeFieldList fs (updateMask, output))"

section \<open>Update messages\<close>

datatype update_type = UPDATE_TYPE_VALUES | UPDATE_TYPE_CREATE | UPDATE_TYPE_OUT_OF_RANGE_OBJECTS

fun update_type_index :: "update_type \<Rightarrow> u32" where
  "update_type_index UPDATE_TYPE_VALUES = 0"
| "update_type_index UPDATE_TYPE_CREATE = 1"
| "update_type_index UPDATE_TYPE_OUT_OF_RANGE_OBJECTS = 2"

definition UPDATE_FLAG_NONE :: u32 where "UPDATE_FLAG_NONE = 0"
definition UPDATE_FLAG_SELF :: u32 where "UPDATE_FLAG_SELF = 1"

record object_data =
  od_guid :: object_guid
  od_typeId :: u32
  od_numberOfFields :: u32
  od_writeFields :: "update_type \<Rightarrow> u32 \<Rightarrow> field_write list"

record update_object =
  uo_datas :: "u8 list list"
  uo_outOfRangeGUIDs :: "object_guid list"

definition uo_new :: update_object where "uo_new = \<lparr>uo_datas = [], uo_outOfRangeGUIDs = []\<rparr>"

definition uo_block :: "object_data \<Rightarrow> update_type \<Rightarrow> u32 \<Rightarrow> update_error + u8 list" where
  "uo_block data updateType updateFlags =
     (if \<not> od_numberOfFields data > 0 then Inl UpdateAssertion
      else
        (case writeFieldList (od_writeFields data updateType updateFlags) (fm_setCount (od_numberOfFields data) fm_new, []) of
           Inl e \<Rightarrow> Inl e
         | Inr (updateMask, fieldBuff) \<Rightarrow>
             Inr (writeEnum (update_type_index updateType) @ writeUInt32 updateFlags @ writeUInt32 (od_guid data)
                @ (if updateType = UPDATE_TYPE_CREATE then writeEnum (od_typeId data) else [])
                @ fm_writeMask updateMask @ fieldBuff)))"

definition uo_addData :: "object_data \<Rightarrow> update_type \<Rightarrow> u32 \<Rightarrow> update_object \<Rightarrow> update_error + update_object" where
  "uo_addData data updateType updateFlags uo =
     (case uo_block data updateType updateFlags of
        Inl e \<Rightarrow> Inl e
      | Inr buff \<Rightarrow> Inr (uo\<lparr>uo_datas := uo_datas uo @ [buff]\<rparr>))"

definition uo_hasUpdate :: "update_object \<Rightarrow> bool" where
  "uo_hasUpdate uo = (uo_datas uo \<noteq> [] \<or> uo_outOfRangeGUIDs uo \<noteq> [])"

definition uo_addOutOfRangeGUID :: "object_guid \<Rightarrow> update_object \<Rightarrow> update_object" where
  "uo_addOutOfRangeGUID guid uo = uo\<lparr>uo_outOfRangeGUIDs := List.insert guid (uo_outOfRangeGUIDs uo)\<rparr>"

definition uo_addOutOfRangeGUIDSet :: "object_guid list \<Rightarrow> update_object \<Rightarrow> update_object" where
  "uo_addOutOfRangeGUIDSet guids uo = fold uo_addOutOfRangeGUID guids uo"

definition uo_blockCount :: "update_object \<Rightarrow> u32" where
  "uo_blockCount uo = of_nat (length (uo_datas uo)) + (if uo_outOfRangeGUIDs uo \<noteq> [] then 1 else 0)"

definition uo_sizeInBytes :: "update_object \<Rightarrow> nat" where
  "uo_sizeInBytes uo =
     uint32Size (uo_blockCount uo)
     + (if uo_outOfRangeGUIDs uo \<noteq> []
        then enumSize (update_type_index UPDATE_TYPE_OUT_OF_RANGE_OBJECTS) + uint32Size (of_nat (length (uo_outOfRangeGUIDs uo)))
             + sum_list (map uint32Size (uo_outOfRangeGUIDs uo)) else 0)
     + sum_list (map length (uo_datas uo))"

definition uo_writeToStream :: "update_object \<Rightarrow> u8 list" where
  "uo_writeToStream uo =
     writeUInt32 (uo_blockCount uo)
     @ (if uo_outOfRangeGUIDs uo \<noteq> []
        then writeEnum (update_type_index UPDATE_TYPE_OUT_OF_RANGE_OBJECTS) @ writeUInt32 (of_nat (length (uo_outOfRangeGUIDs uo)))
             @ concat (map writeUInt32 (uo_outOfRangeGUIDs uo)) else [])
     @ concat (uo_datas uo)"

section \<open>Identity of GUIDs\<close>

lemma guid_fields:
  assumes "counter \<le> guid_getMaxCounter"
  shows "guid_getType (guid_new t counter) = guid_type_index t" and "guid_getCounter (guid_new t counter) = counter"
proof -
  have c: "take_bit 24 counter = counter"
    using assms by (simp add: guid_getMaxCounter_def take_bit_eq_mod word_le_nat_alt word_unat_eq_iff unat_mod)
  have "drop_bit 24 counter = 0" by (subst c [symmetric]) (rule bit_word_eqI, simp add: bit_simps)
  then have "drop_bit 24 (push_bit 24 (guid_type_index t) OR counter) = guid_type_index t"
    by (cases t) (simp_all add: drop_bit_or)
  then show "guid_getType (guid_new t counter) = guid_type_index t" by (cases t) (simp_all add: guid_getType_def guid_new_def)
  have m: "g AND 16777215 = take_bit 24 g" for g :: u32 by (simp add: take_bit_eq_mask mask_eq_exp_minus_1)
  show "guid_getCounter (guid_new t counter) = counter"
    by (simp add: guid_getCounter_def guid_new_def m take_bit_or take_bit_push_bit c)
qed

lemma spawn_ids:
  "unat counter + n \<le> 16777215 \<Longrightarrow> generateSpawnIds n counter = Inr (map (\<lambda>i. counter + of_nat (Suc i)) [0..<n])"
proof (induction n arbitrary: counter)
  case (Suc n)
  have u: "unat (counter + 1) = unat counter + 1" using Suc.prems unat_u32_plus [of counter 1] by simp
  then have g: "generateSpawnId counter = Inr (counter + 1)"
    using Suc.prems by (simp add: generateSpawnId_def guid_getMaxCounter_def word_le_nat_alt)
  then show ?case using Suc.IH [of "counter + 1"] Suc.prems u by (simp add: map_upt_Suc add.assoc del: upt_Suc)
qed simp

lemma spawn_ids_end: "unat counter + n > 16777215 \<Longrightarrow> unat counter \<le> 16777215 \<Longrightarrow> generateSpawnIds n counter = Inl UpdateAssertion"
proof (induction n arbitrary: counter)
  case (Suc n)
  have u: "unat (counter + 1) = unat counter + 1" using Suc.prems unat_u32_plus [of counter 1] by simp
  show ?case
  proof (cases "unat counter = 16777215")
    case True
    then show ?thesis using u by (simp add: generateSpawnId_def guid_getMaxCounter_def word_le_nat_alt)
  next
    case False
    then show ?thesis using Suc.IH [of "counter + 1"] Suc.prems u by (auto simp: generateSpawnId_def guid_getMaxCounter_def word_le_nat_alt)
  qed
qed simp

text \<open>
  C26: a GUID says what it names. The spawn ids of a kind of object run from 1 to 0xFFFFFF, and one more
  trips the assertion; the GUIDs built from them are not empty, carry their kind and their counter,
  and no two objects share one, of the same kind or of different kinds.
\<close>

theorem guids_identify:
  assumes "n \<le> 16777215" and "m \<le> 16777215"
  shows "\<exists>cs ds. generateSpawnIds n 0 = Inr cs \<and> generateSpawnIds m 0 = Inr ds \<and> length cs = n
     \<and> distinct (map (guid_new t) cs)
     \<and> (\<forall>c\<in>set cs. guid_isType t (guid_new t c) \<and> guid_getCounter (guid_new t c) = c \<and> \<not> guid_isEmpty (guid_new t c))
     \<and> (t \<noteq> u \<longrightarrow> set (map (guid_new t) cs) \<inter> set (map (guid_new u) ds) = {})
     \<and> (\<forall>k>16777215. generateSpawnIds k 0 = Inl UpdateAssertion)"
proof (intro exI conjI)
  let ?ids = "\<lambda>n. map (\<lambda>i. of_nat (Suc i) :: u32) [0..<n]"
  show "generateSpawnIds n 0 = Inr (?ids n)" "generateSpawnIds m 0 = Inr (?ids m)" "length (?ids n) = n"
    using assms spawn_ids [of 0 n] spawn_ids [of 0 m] by simp_all
  have small: "c \<le> guid_getMaxCounter \<and> c \<noteq> 0" if "c \<in> set (?ids k)" "k \<le> 16777215" for c k
  proof -
    from \<open>c \<in> set (?ids k)\<close> obtain j where "c = of_nat (Suc j)" "j < k" by auto
    then obtain i where i: "c = of_nat i" "1 \<le> i" "i \<le> 16777215" using \<open>k \<le> 16777215\<close> by (intro that [of "Suc j"]) auto
    then have "unat c = i" by (simp add: unat_of_nat take_bit_nat_eq_self)
    then show ?thesis using i by (auto simp: guid_getMaxCounter_def word_le_nat_alt)
  qed
  have inj: "guid_new t c = guid_new t' d \<Longrightarrow> c = d \<and> guid_type_index t = guid_type_index t'" if "c \<in> set (?ids n)" "d \<in> set (?ids k)" "k \<le> 16777215" for c d k t t'
    using guid_fields [of c t] guid_fields [of d t'] small [OF that(1) assms(1)] small [OF that(2,3)] by metis
  have "distinct (?ids n)"
    using assms(1) by (auto simp: distinct_map inj_on_def word_of_nat_eq_iff take_bit_nat_eq_self simp del: of_nat_Suc)
  moreover have "inj_on (guid_new t) (set (?ids n))" by (rule inj_onI) (use inj [OF _ _ assms(1)] in blast)
  ultimately show "distinct (map (guid_new t) (?ids n))" by (simp only: distinct_map [of "guid_new t"])
  show "\<forall>c\<in>set (?ids n). guid_isType t (guid_new t c) \<and> guid_getCounter (guid_new t c) = c \<and> \<not> guid_isEmpty (guid_new t c)"
  proof (intro ballI conjI)
    fix c assume c: "c \<in> set (?ids n)"
    note f = guid_fields [of c t] small [OF c assms(1)]
    then show "guid_isType t (guid_new t c)" "guid_getCounter (guid_new t c) = c" by (simp_all add: guid_isType_def)
    then show "\<not> guid_isEmpty (guid_new t c)" using f by (auto simp: guid_isEmpty_def guid_getCounter_def)
  qed
  show "t \<noteq> u \<longrightarrow> set (map (guid_new t) (?ids n)) \<inter> set (map (guid_new u) (?ids m)) = {}"
  proof
    assume "t \<noteq> u"
    then have "guid_type_index t \<noteq> guid_type_index u" by (cases t; cases u) simp_all
    then show "set (map (guid_new t) (?ids n)) \<inter> set (map (guid_new u) (?ids m)) = {}" using inj [OF _ _ assms(2)] by fastforce
  qed
  show "\<forall>k>16777215. generateSpawnIds k 0 = Inl UpdateAssertion" using spawn_ids_end [of 0] by simp
qed

theorem guids_identify_witness:
  "\<exists>cs ds. generateSpawnIds 3 0 = Inr cs \<and> generateSpawnIds 2 0 = Inr ds \<and> distinct (map (guid_new GUIDTYPE_ITEM) cs)
    \<and> set (map (guid_new GUIDTYPE_ITEM) cs) \<inter> set (map (guid_new GUIDTYPE_ROBOT) ds) = {}"
proof -
  from guids_identify [of 3 2 GUIDTYPE_ITEM GUIDTYPE_ROBOT] obtain cs ds where
    "generateSpawnIds 3 0 = Inr cs" "generateSpawnIds 2 0 = Inr ds" "distinct (map (guid_new GUIDTYPE_ITEM) cs)"
    "set (map (guid_new GUIDTYPE_ITEM) cs) \<inter> set (map (guid_new GUIDTYPE_ROBOT) ds) = {}" by auto
  then show ?thesis by blast
qed

section \<open>What a client reads\<close>

text \<open>
  The reader of the other side, as a specification: it knows the number of fields of each kind of
  object and their types in the order in which they are written, and takes the fields whose bit is set.
\<close>

datatype field_kind = KInt32 | KUInt32 | KFloat | KPoint | KBool | KMovement | KStamina | KLocation

fun fv_kind :: "field_value \<Rightarrow> field_kind" where
  "fv_kind (FInt32 v) = KInt32"
| "fv_kind (FUInt32 v) = KUInt32"
| "fv_kind (FFloat v) = KFloat"
| "fv_kind (FPoint x y) = KPoint"
| "fv_kind (FBool b) = KBool"
| "fv_kind (FMovement m seg) = KMovement"
| "fv_kind (FStamina t) = KStamina"
| "fv_kind (FLocation l) = KLocation"

fun fv_read :: "field_kind \<Rightarrow> u8 list \<Rightarrow> (field_value \<times> u8 list) option" where
  "fv_read KInt32 input = map_option (apfst FInt32) (readInt32 input)"
| "fv_read KUInt32 input = map_option (apfst FUInt32) (readUInt32 input)"
| "fv_read KFloat input = map_option (apfst FFloat) (readFloat input)"
| "fv_read KPoint input = do { (x, input) \<leftarrow> readFloat input; (y, input) \<leftarrow> readFloat input; Some (FPoint x y, input) }"
| "fv_read KBool input = map_option (apfst FBool) (readBool input)"
| "fv_read KMovement input =
     do { (m, input) \<leftarrow> mi_readFromStream input;
          (seg, input) \<leftarrow> (if mi_flags m AND MOVEMENT_FLAG_WALKING \<noteq> 0 then mi_readFromStream input else Some (mi_clear, input));
          Some (FMovement m seg, input) }"
| "fv_read KStamina input = map_option (apfst FStamina) (si_readFromStream input)"
| "fv_read KLocation input = map_option (apfst FLocation) (li_readFromStream input)"

fun fv_ok :: "field_value \<Rightarrow> bool" where
  \<comment> \<open>the segment is only sent while the unit walks\<close>
  "fv_ok (FMovement m seg) = (mi_flags m AND MOVEMENT_FLAG_WALKING \<noteq> 0 \<or> seg = mi_clear)"
| "fv_ok _ = True"

fun client_readWords :: "nat \<Rightarrow> u8 list \<Rightarrow> (u32 list \<times> u8 list) option" where
  "client_readWords 0 input = Some ([], input)"
| "client_readWords (Suc n) input =
     do { (w, input) \<leftarrow> readFixedUint32 input; (ws, input) \<leftarrow> client_readWords n input; Some (w # ws, input) }"

definition client_bit :: "u32 list \<Rightarrow> nat \<Rightarrow> bool" where
  "client_bit ws i = bit (ws ! (i div 32)) (i mod 32)"

fun client_readFields :: "(nat \<times> field_kind) list \<Rightarrow> u32 list \<Rightarrow> u8 list \<Rightarrow> ((nat \<times> field_value) list \<times> u8 list) option" where
  "client_readFields [] ws input = Some ([], input)"
| "client_readFields ((i, k) # ks) ws input =
     (if client_bit ws i
      then do { (v, input) \<leftarrow> fv_read k input; (vs, input) \<leftarrow> client_readFields ks ws input; Some ((i, v) # vs, input) }
      else client_readFields ks ws input)"

record client_block =
  cb_updateType :: u32
  cb_updateFlags :: u32
  cb_guid :: object_guid
  cb_typeId :: "u32 option"
  cb_fields :: "(nat \<times> field_value) list"

definition client_readBlock :: "u32 \<Rightarrow> (nat \<times> field_kind) list \<Rightarrow> u8 list \<Rightarrow> (client_block \<times> u8 list) option" where
  "client_readBlock numberOfFields kinds input = do {
     (updateType, input) \<leftarrow> readInt32 input;
     (updateFlags, input) \<leftarrow> readUInt32 input;
     (guid, input) \<leftarrow> readUInt32 input;
     (typeId, input) \<leftarrow> (if updateType = update_type_index UPDATE_TYPE_CREATE
                         then map_option (apfst Some) (readInt32 input) else Some (None, input));
     (ws, input) \<leftarrow> client_readWords ((unat numberOfFields + 31) div 32) input;
     (vs, input) \<leftarrow> client_readFields kinds ws input;
     Some (\<lparr>cb_updateType = updateType, cb_updateFlags = updateFlags, cb_guid = guid, cb_typeId = typeId, cb_fields = vs\<rparr>, input)
   }"

section \<open>Round trip of the update message\<close>

lemma bool_round_trip: "readBool (writeBool b @ rest) = Some (b, rest)"
  using varint_read [of "if b then 1 else 0" 0 0 rest] by (simp add: readBool_def writeBool_def readVarint64_def split: if_splits)

lemma fv_round_trip: "fv_ok v \<Longrightarrow> fv_read (fv_kind v) (fv_write v @ rest) = Some (v, rest)"
  by (cases v) (auto simp: field_round_trips bool_round_trip movement.read_write stamina.read_write location.read_write)

lemma maskPart_bits:
  assumes "j < 32"
  shows "bit (fm_maskPart bits i) j = bits ! (i * 32 + j)"
proof -
  have "bit (fold (\<lambda>j part. if bits ! (i * 32 + j) then part OR push_bit j 1 else part) [0..<n] (0 :: u32)) j
      \<longleftrightarrow> j < n \<and> bits ! (i * 32 + j)" for n
    by (induction n) (auto simp: bit_simps less_Suc_eq assms)
  then show ?thesis using assms by (simp add: fm_maskPart_def)
qed

lemma readWords_written: "client_readWords (length ws) (concat (map writeFixedUInt32 ws) @ rest) = Some (ws, rest)"
  by (induction ws) (simp_all add: fixed32.read_write)

lemma mask_round_trip:
  assumes "fm_bits m = Some bits" and "length bits = 32 * unat (fm_blockCount m)"
  shows "\<exists>ws. client_readWords (unat (fm_blockCount m)) (fm_writeMask m @ rest) = Some (ws, rest) \<and> (\<forall>i<length bits. client_bit ws i = bits ! i)"
proof (intro exI conjI allI impI)
  let ?ws = "map (fm_maskPart bits) [0..<unat (fm_blockCount m)]"
  show "client_readWords (unat (fm_blockCount m)) (fm_writeMask m @ rest) = Some (?ws, rest)"
    using readWords_written [of ?ws rest] assms(1) by (simp add: fm_writeMask_def comp_def)
  show "client_bit ?ws i = bits ! i" if "i < length bits" for i
  proof -
    have "i div 32 < unat (fm_blockCount m)" using that assms(2) by (simp add: less_mult_imp_div_less mult.commute)
    then show ?thesis using maskPart_bits [of "i mod 32" bits "i div 32"] by (simp add: client_bit_def)
  qed
qed

definition due_fields :: "field_write list \<Rightarrow> (nat \<times> field_value) list" where
  "due_fields fs = map snd (filter fst fs)"

definition field_kinds :: "field_write list \<Rightarrow> (nat \<times> field_kind) list" where
  "field_kinds fs = map (\<lambda>(due, i, v). (i, fv_kind v)) fs"

definition fields_ok :: "nat \<Rightarrow> field_write list \<Rightarrow> bool" where
  "fields_ok n fs \<longleftrightarrow> distinct (map (\<lambda>(due, i, v). i) fs) \<and> list_all (\<lambda>(due, i, v). i < n \<and> fv_ok v) fs"

lemma due_fields_simps [simp]:
  "due_fields [] = []" "due_fields ((due, i, v) # fs) = (if due then (i, v) # due_fields fs else due_fields fs)"
  by (simp_all add: due_fields_def)

lemma writeFieldList_effect:
  assumes "fm_bits m = Some bits" and "list_all (\<lambda>(due, i, v). i < length bits \<and> P v) fs"
  shows "\<exists>bits'. writeFieldList fs (m, out) = Inr (m\<lparr>fm_bits := Some bits'\<rparr>, out @ concat (map (\<lambda>(i, v). fv_write v) (due_fields fs)))
    \<and> length bits' = length bits \<and> (\<forall>j<length bits. bits' ! j \<longleftrightarrow> bits ! j \<or> j \<in> fst ` set (due_fields fs))"
  using assms
proof (induction fs arbitrary: m bits out)
  case Nil
  then show ?case by (cases m) auto
next
  case (Cons f fs)
  obtain due i v where f: "f = (due, i, v)" by (metis prod_cases3)
  show ?case
  proof (cases due)
    case True
    let ?m = "m\<lparr>fm_bits := Some (bits[i := True])\<rparr>"
    have "fm_setBit i True m = Inr ?m" using Cons.prems f by (simp add: fm_setBit_def)
    moreover obtain bits' where "writeFieldList fs (?m, out @ fv_write v)
        = Inr (?m\<lparr>fm_bits := Some bits'\<rparr>, (out @ fv_write v) @ concat (map (\<lambda>(i, v). fv_write v) (due_fields fs)))"
      "length bits' = length bits" "\<forall>j<length bits. bits' ! j \<longleftrightarrow> bits[i := True] ! j \<or> j \<in> fst ` set (due_fields fs)"
      using Cons.IH [of ?m "bits[i := True]" "out @ fv_write v"] Cons.prems(2) by auto
    ultimately show ?thesis using True f Cons.prems(2) by (intro exI [of _ bits']) (auto simp: nth_list_update)
  next
    case False
    then show ?thesis using Cons.IH [OF Cons.prems(1), of out] Cons.prems(2) f by auto
  qed
qed

lemma client_reads_fields:
  assumes "\<forall>(due, i, v)\<in>set fs. client_bit ws i = due \<and> fv_ok v"
  shows "client_readFields (field_kinds fs) ws (concat (map (\<lambda>(i, v). fv_write v) (due_fields fs)) @ rest) = Some (due_fields fs, rest)"
  using assms
proof (induction fs)
  case (Cons f fs)
  obtain due i v where f: "f = (due, i, v)" by (metis prod_cases3)
  then show ?case using Cons by (cases due) (simp_all add: field_kinds_def fv_round_trip)
qed (simp add: field_kinds_def)

lemma due_index:
  assumes "distinct (map (\<lambda>(due, i, v). i) fs)" and "(due, i, v) \<in> set fs"
  shows "i \<in> fst ` set (due_fields fs) \<longleftrightarrow> due"
  using assms
proof (induction fs)
  case (Cons f fs)
  obtain d j w where f: "f = (d, j, w)" by (metis prod_cases3)
  have in_fs: "k \<in> fst ` set (due_fields fs) \<Longrightarrow> k \<in> (\<lambda>(due, i, v). i) ` set fs" for k
    by (force simp: due_fields_def)
  show ?case
  proof (cases "(due, i, v) = f")
    case True
    then show ?thesis using f in_fs [of i] Cons.prems(1) by auto
  next
    case False
    then have "(due, i, v) \<in> set fs" "i \<noteq> j" using Cons.prems f by force+
    then show ?thesis using Cons.IH Cons.prems(1) f by simp
  qed
qed simp

lemma setCount_bits:
  assumes "unat n \<le> 4294967264"
  defines "m \<equiv> fm_setCount n fm_new"
  shows "fm_bits m = Some (replicate (32 * unat (fm_blockCount m)) False)" and "unat (fm_blockCount m) = (unat n + 31) div 32"
proof -
  have "unat (n + 31) = unat n + 31" using assms(1) unat_u32_plus [of n 31] by simp
  then have b: "unat ((n + 31) div 32) = (unat n + 31) div 32" by (simp add: unat_div)
  have "unat ((n + 31) div 32 * 32) = 32 * unat ((n + 31) div 32)"
    using b assms(1) by (subst unat_mult_lem [THEN iffD1]) (simp_all add: mult.commute)
  then show "fm_bits m = Some (replicate (32 * unat (fm_blockCount m)) False)" "unat (fm_blockCount m) = (unat n + 31) div 32"
    using b by (simp_all add: m_def fm_setCount_def fm_reset_def Let_def add.commute)
qed

lemma enum_is_int32: "writeEnum v = writeInt32 v"
  by (simp add: writeEnum_def writeInt32_def)

text \<open>
  What an object sends is what its observers read. If the fields of an object have distinct indices
  below its number of fields, a block of an update message is built without an error, and a client
  that knows their types reads back the kind of update, the GUID and exactly the fields that were due.
\<close>

theorem update_block_roundtrip:
  assumes "0 < od_numberOfFields d" and "unat (od_numberOfFields d) \<le> 4294967264"
    and "fields_ok (unat (od_numberOfFields d)) (od_writeFields d updateType updateFlags)"
  shows "\<exists>block. uo_block d updateType updateFlags = Inr block
    \<and> client_readBlock (od_numberOfFields d) (field_kinds (od_writeFields d updateType updateFlags)) (block @ rest) =
      Some (\<lparr>cb_updateType = update_type_index updateType, cb_updateFlags = updateFlags, cb_guid = od_guid d,
              cb_typeId = (if updateType = UPDATE_TYPE_CREATE then Some (od_typeId d) else None),
              cb_fields = due_fields (od_writeFields d updateType updateFlags)\<rparr>, rest)"
proof -
  let ?n = "od_numberOfFields d" and ?fs = "od_writeFields d updateType updateFlags"
  let ?m = "fm_setCount ?n fm_new"
  note b = setCount_bits [OF assms(2)]
  let ?L = "length (replicate (32 * unat (fm_blockCount ?m)) False)"
  have le: "unat ?n \<le> ?L" using b(2) by simp
  have idx: "list_all (\<lambda>(due, i, v). i < ?L \<and> fv_ok v) ?fs"
    using assms(3) le by (auto simp: fields_ok_def list_all_iff simp del: length_replicate)
  obtain bits' where w: "writeFieldList ?fs (?m, []) = Inr (?m\<lparr>fm_bits := Some bits'\<rparr>, concat (map (\<lambda>(i, v). fv_write v) (due_fields ?fs)))"
    "length bits' = ?L" "\<forall>j<?L. bits' ! j \<longleftrightarrow> j \<in> fst ` set (due_fields ?fs)"
    using writeFieldList_effect [OF b(1) idx, of "[]"] by auto
  let ?m' = "?m\<lparr>fm_bits := Some bits'\<rparr>" and ?out = "concat (map (\<lambda>(i, v). fv_write v) (due_fields ?fs))"
  obtain ws where ws: "client_readWords ((unat ?n + 31) div 32) (fm_writeMask ?m' @ ?out @ rest) = Some (ws, ?out @ rest)"
    "\<forall>i<?L. client_bit ws i = bits' ! i"
    using mask_round_trip [of ?m' bits' "?out @ rest"] w(2) b(2) by auto
  have "\<forall>(due, i, v)\<in>set ?fs. client_bit ws i = due \<and> fv_ok v"
  proof (clarify, intro conjI)
    fix due i v
    assume f: "(due, i, v) \<in> set ?fs"
    then have i: "i < ?L" "fv_ok v" using idx by (auto simp: list_all_iff)
    have "client_bit ws i \<longleftrightarrow> i \<in> fst ` set (due_fields ?fs)" using ws(2) w(3) i(1) by blast
    then show "client_bit ws i = due" using due_index [OF _ f] assms(3) by (simp add: fields_ok_def)
    show "fv_ok v" by (rule i(2))
  qed
  note fields = client_reads_fields [OF this, of rest]
  have t: "update_type_index updateType = update_type_index UPDATE_TYPE_CREATE \<longleftrightarrow> updateType = UPDATE_TYPE_CREATE"
    by (cases updateType) simp_all
  show ?thesis
    using assms(1) w(1) ws(1) fields t
    by (cases "updateType = UPDATE_TYPE_CREATE")
      (simp_all add: uo_block_def client_readBlock_def enum_is_int32 field_round_trips)
qed

text \<open>The announced size of an update message is the number of bytes it writes, so that its assertion holds.\<close>

lemma update_message_size: "pa_serialize uo_writeToStream uo_sizeInBytes uo = Inr (uo_writeToStream uo)"
proof -
  have "length (concat (map writeUInt32 gs)) = sum_list (map uint32Size gs)" for gs
    by (induction gs) (simp_all add: field_sizes)
  moreover have "length (concat ds) = sum_list (map length ds)" for ds :: "u8 list list" by (simp add: length_concat)
  ultimately have "uo_sizeInBytes uo = length (uo_writeToStream uo)"
    by (simp add: uo_sizeInBytes_def uo_writeToStream_def enum_is_int32 enumSize_def field_sizes)
  then show ?thesis by (simp add: pa_serialize_def)
qed

end
