(* ===== verification/Object_Data.thy ===== *)
theory Object_Data
  imports Object_Updates
begin

text \<open>
  The replicated state of the game objects: \<^verbatim>\<open>DataUnit\<close>, \<^verbatim>\<open>DataPlayer\<close>, \<^verbatim>\<open>DataRobot\<close>, \<^verbatim>\<open>DataItemBox\<close>, \<^verbatim>\<open>DataItem\<close>,
  \<^verbatim>\<open>DataCarriedItem\<close>, \<^verbatim>\<open>DataProjectile\<close> and \<^verbatim>\<open>DataUnitLocator\<close>, with the setters that mark a field as
  updated and the fields each class writes. Integers and floats are kept as their 32 bits; floats
  are compared by the rules of IEEE 754. The data observer is a flag that a notification sets. Debug-only
  code is left out.
\<close>

section \<open>Floats\<close>

definition f_isNaN :: "u32 \<Rightarrow> bool" where "f_isNaN a = (a AND 0x7FFFFFFF > 0x7F800000)"

definition f_eq :: "u32 \<Rightarrow> u32 \<Rightarrow> bool" where
  \<comment> \<open>the two zeros are equal, and a NaN equals nothing\<close>
  "f_eq a b = (\<not> f_isNaN a \<and> \<not> f_isNaN b \<and> (a = b \<or> (a OR b) AND 0x7FFFFFFF = 0))"

definition point_eq :: "u32 \<times> u32 \<Rightarrow> u32 \<times> u32 \<Rightarrow> bool" where
  "point_eq p q = (f_eq (fst p) (fst q) \<and> f_eq (snd p) (snd q))"

section \<open>Field indices\<close>

definition SUNIT_FIELD_HEALTH :: nat where "SUNIT_FIELD_HEALTH = 0"
definition SUNIT_FIELD_MAX_HEALTH :: nat where "SUNIT_FIELD_MAX_HEALTH = 1"
definition SUNIT_FIELD_MOVEMENT_INFO :: nat where "SUNIT_FIELD_MOVEMENT_INFO = 2"
definition SUNIT_FIELD_STAMINA_INFO :: nat where "SUNIT_FIELD_STAMINA_INFO = 3"
definition SUNIT_FIELD_MOVE_SPEED :: nat where "SUNIT_FIELD_MOVE_SPEED = 4"
definition SUNIT_FIELD_ATTACK_RANGE :: nat where "SUNIT_FIELD_ATTACK_RANGE = 5"
definition SUNIT_FIELD_ATTACK_TAKES_STAMINA :: nat where "SUNIT_FIELD_ATTACK_TAKES_STAMINA = 6"
definition SUNIT_FIELD_DISPLAYID :: nat where "SUNIT_FIELD_DISPLAYID = 7"
definition SUNIT_FIELD_LEVEL :: nat where "SUNIT_FIELD_LEVEL = 8"
definition SUNIT_FIELD_SMILEY :: nat where "SUNIT_FIELD_SMILEY = 9"
definition SUNIT_FIELD_UNIT_FLAGS :: nat where "SUNIT_FIELD_UNIT_FLAGS = 10"
definition SUNIT_FIELD_MAGIC_BEAN_COUNT :: nat where "SUNIT_FIELD_MAGIC_BEAN_COUNT = 11"
definition SUNIT_END :: nat where "SUNIT_END = 12"

definition UNIT_SLOTS_COUNT :: nat where "UNIT_SLOTS_COUNT = 9"

definition SPLAYER_FIELD_IS_GM :: nat where "SPLAYER_FIELD_IS_GM = 12"
definition SPLAYER_FIELD_KILL_COUNT :: nat where "SPLAYER_FIELD_KILL_COUNT = 13"
definition SPLAYER_FIELD_EXPERIENCE :: nat where "SPLAYER_FIELD_EXPERIENCE = 14"
definition SPLAYER_FIELD_NEXTLEVEL_XP :: nat where "SPLAYER_FIELD_NEXTLEVEL_XP = 15"
definition SPLAYER_FIELD_MONEY :: nat where "SPLAYER_FIELD_MONEY = 16"
definition SPLAYER_FIELD_ITEM_HEAD :: nat where "SPLAYER_FIELD_ITEM_HEAD = 17"

definition SPLAYER_FIELD_CONCEALMENT_STATE :: nat where "SPLAYER_FIELD_CONCEALMENT_STATE = 26"
definition SPLAYER_FIELD_PICKUP_DURATION :: nat where "SPLAYER_FIELD_PICKUP_DURATION = 27"
definition SPLAYER_FIELD_PICKUP_TARGET :: nat where "SPLAYER_FIELD_PICKUP_TARGET = 28"
definition SPLAYER_END :: nat where "SPLAYER_END = 29"

definition SROBOT_FIELD_TARGET :: nat where "SROBOT_FIELD_TARGET = 12"
definition SROBOT_FIELD_AIACTION_TYPE :: nat where "SROBOT_FIELD_AIACTION_TYPE = 13"
definition SROBOT_FIELD_AIACTION_STATE :: nat where "SROBOT_FIELD_AIACTION_STATE = 14"
definition SROBOT_END :: nat where "SROBOT_END = 15"

definition SITEMBOX_FIELD_POSITION :: nat where "SITEMBOX_FIELD_POSITION = 0"
definition SITEMBOX_FIELD_DIRECTION :: nat where "SITEMBOX_FIELD_DIRECTION = 1"
definition SITEMBOX_FIELD_HEALTH :: nat where "SITEMBOX_FIELD_HEALTH = 2"
definition SITEMBOX_FIELD_MAX_HEALTH :: nat where "SITEMBOX_FIELD_MAX_HEALTH = 3"
definition SITEMBOX_END :: nat where "SITEMBOX_END = 4"

definition SITEM_FIELD_ITEMID :: nat where "SITEM_FIELD_ITEMID = 0"
definition SITEM_FIELD_POSITION :: nat where "SITEM_FIELD_POSITION = 1"
definition SITEM_FIELD_COUNT :: nat where "SITEM_FIELD_COUNT = 2"
definition SITEM_FIELD_HOLDER :: nat where "SITEM_FIELD_HOLDER = 3"
definition SITEM_FIELD_HOLDER_ORIGIN :: nat where "SITEM_FIELD_HOLDER_ORIGIN = 4"
definition SITEM_FIELD_LAUNCH_CENTER :: nat where "SITEM_FIELD_LAUNCH_CENTER = 5"
definition SITEM_FIELD_LAUNCH_RADIUS_IN_MAP :: nat where "SITEM_FIELD_LAUNCH_RADIUS_IN_MAP = 6"
definition SITEM_FIELD_DROP_DURATION :: nat where "SITEM_FIELD_DROP_DURATION = 7"
definition SITEM_FIELD_DROP_ELAPSED :: nat where "SITEM_FIELD_DROP_ELAPSED = 8"
definition SITEM_END :: nat where "SITEM_END = 9"

definition SCARRIEDITEM_FIELD_ITEMID :: nat where "SCARRIEDITEM_FIELD_ITEMID = 0"
definition SCARRIEDITEM_FIELD_LEVEL :: nat where "SCARRIEDITEM_FIELD_LEVEL = 1"
definition SCARRIEDITEM_FIELD_COUNT :: nat where "SCARRIEDITEM_FIELD_COUNT = 2"
definition SCARRIEDITEM_FIELD_STACKABLE :: nat where "SCARRIEDITEM_FIELD_STACKABLE = 3"
definition SCARRIEDITEM_FIELD_COOLDOWN_DURATION :: nat where "SCARRIEDITEM_FIELD_COOLDOWN_DURATION = 4"
definition SCARRIEDITEM_END :: nat where "SCARRIEDITEM_END = 5"

definition SPROJECTILE_FIELD_LAUNCHER :: nat where "SPROJECTILE_FIELD_LAUNCHER = 0"
definition SPROJECTILE_FIELD_LAUNCHER_ORIGIN :: nat where "SPROJECTILE_FIELD_LAUNCHER_ORIGIN = 1"
definition SPROJECTILE_FIELD_ATTACK_RANGE :: nat where "SPROJECTILE_FIELD_ATTACK_RANGE = 2"
definition SPROJECTILE_FIELD_LAUNCH_CENTER :: nat where "SPROJECTILE_FIELD_LAUNCH_CENTER = 3"
definition SPROJECTILE_FIELD_LAUNCH_RADIUS_IN_MAP :: nat where "SPROJECTILE_FIELD_LAUNCH_RADIUS_IN_MAP = 4"
definition SPROJECTILE_FIELD_ORIENTATION :: nat where "SPROJECTILE_FIELD_ORIENTATION = 5"
definition SPROJECTILE_FIELD_ELAPSED :: nat where "SPROJECTILE_FIELD_ELAPSED = 6"
definition SPROJECTILE_FIELD_DURATION :: nat where "SPROJECTILE_FIELD_DURATION = 7"
definition SPROJECTILE_FIELD_ATTACK_COUNTER :: nat where "SPROJECTILE_FIELD_ATTACK_COUNTER = 8"
definition SPROJECTILE_FIELD_CONSUMED_STAMINA :: nat where "SPROJECTILE_FIELD_CONSUMED_STAMINA = 9"
definition SPROJECTILE_FIELD_SCALE :: nat where "SPROJECTILE_FIELD_SCALE = 10"
definition SPROJECTILE_FIELD_ATTACK_INFO_COUNTER :: nat where "SPROJECTILE_FIELD_ATTACK_INFO_COUNTER = 11"
definition SPROJECTILE_FIELD_FLAG :: nat where "SPROJECTILE_FIELD_FLAG = 12"
definition SPROJECTILE_END :: nat where "SPROJECTILE_END = 13"

definition SUNIT_LOCATOR_FIELD_LOCATION :: nat where "SUNIT_LOCATOR_FIELD_LOCATION = 0"
definition SUNIT_LOCATOR_FIELD_DISPLAYID :: nat where "SUNIT_LOCATOR_FIELD_DISPLAYID = 1"
definition SUNIT_LOCATOR_FIELD_IS_ALIVE :: nat where "SUNIT_LOCATOR_FIELD_IS_ALIVE = 2"
definition SUNIT_LOCATOR_FIELD_MOVE_SPEED :: nat where "SUNIT_LOCATOR_FIELD_MOVE_SPEED = 3"
definition SUNIT_LOCATOR_END :: nat where "SUNIT_LOCATOR_END = 4"

lemmas field_index_defs =
  SUNIT_FIELD_HEALTH_def SUNIT_FIELD_MAX_HEALTH_def SUNIT_FIELD_MOVEMENT_INFO_def SUNIT_FIELD_STAMINA_INFO_def SUNIT_FIELD_MOVE_SPEED_def SUNIT_FIELD_ATTACK_RANGE_def SUNIT_FIELD_ATTACK_TAKES_STAMINA_def SUNIT_FIELD_DISPLAYID_def SUNIT_FIELD_LEVEL_def SUNIT_FIELD_SMILEY_def SUNIT_FIELD_UNIT_FLAGS_def SUNIT_FIELD_MAGIC_BEAN_COUNT_def SUNIT_END_def UNIT_SLOTS_COUNT_def SPLAYER_FIELD_IS_GM_def SPLAYER_FIELD_KILL_COUNT_def SPLAYER_FIELD_EXPERIENCE_def SPLAYER_FIELD_NEXTLEVEL_XP_def SPLAYER_FIELD_MONEY_def SPLAYER_FIELD_ITEM_HEAD_def SPLAYER_FIELD_CONCEALMENT_STATE_def SPLAYER_FIELD_PICKUP_DURATION_def SPLAYER_FIELD_PICKUP_TARGET_def SPLAYER_END_def SROBOT_FIELD_TARGET_def SROBOT_FIELD_AIACTION_TYPE_def SROBOT_FIELD_AIACTION_STATE_def SROBOT_END_def SITEMBOX_FIELD_POSITION_def SITEMBOX_FIELD_DIRECTION_def SITEMBOX_FIELD_HEALTH_def SITEMBOX_FIELD_MAX_HEALTH_def SITEMBOX_END_def SITEM_FIELD_ITEMID_def SITEM_FIELD_POSITION_def SITEM_FIELD_COUNT_def SITEM_FIELD_HOLDER_def SITEM_FIELD_HOLDER_ORIGIN_def SITEM_FIELD_LAUNCH_CENTER_def SITEM_FIELD_LAUNCH_RADIUS_IN_MAP_def SITEM_FIELD_DROP_DURATION_def SITEM_FIELD_DROP_ELAPSED_def SITEM_END_def SCARRIEDITEM_FIELD_ITEMID_def SCARRIEDITEM_FIELD_LEVEL_def SCARRIEDITEM_FIELD_COUNT_def SCARRIEDITEM_FIELD_STACKABLE_def SCARRIEDITEM_FIELD_COOLDOWN_DURATION_def SCARRIEDITEM_END_def SPROJECTILE_FIELD_LAUNCHER_def SPROJECTILE_FIELD_LAUNCHER_ORIGIN_def SPROJECTILE_FIELD_ATTACK_RANGE_def SPROJECTILE_FIELD_LAUNCH_CENTER_def SPROJECTILE_FIELD_LAUNCH_RADIUS_IN_MAP_def SPROJECTILE_FIELD_ORIENTATION_def SPROJECTILE_FIELD_ELAPSED_def SPROJECTILE_FIELD_DURATION_def SPROJECTILE_FIELD_ATTACK_COUNTER_def SPROJECTILE_FIELD_CONSUMED_STAMINA_def SPROJECTILE_FIELD_SCALE_def SPROJECTILE_FIELD_ATTACK_INFO_COUNTER_def SPROJECTILE_FIELD_FLAG_def SPROJECTILE_END_def SUNIT_LOCATOR_FIELD_LOCATION_def SUNIT_LOCATOR_FIELD_DISPLAYID_def SUNIT_LOCATOR_FIELD_IS_ALIVE_def SUNIT_LOCATOR_FIELD_MOVE_SPEED_def SUNIT_LOCATOR_END_def

section \<open>Updatable objects\<close>

record updatable =
  up_updateMask :: field_update_mask
  up_notified :: bool

definition setUpdatedField :: "nat \<Rightarrow> 'a updatable_scheme \<Rightarrow> update_error + 'a updatable_scheme" where
  "setUpdatedField fieldIndex d =
     (case fm_setBit fieldIndex True (up_updateMask d) of Inl e \<Rightarrow> Inl e | Inr m \<Rightarrow> Inr (d\<lparr>up_updateMask := m\<rparr>))"

definition hasUpdatedField :: "'a updatable_scheme \<Rightarrow> nat \<Rightarrow> bool" where
  \<comment> \<open>all field indices lie within the first block of a mask\<close>
  "hasUpdatedField d fieldIndex = (fm_testBit fieldIndex (up_updateMask d) = Inr True)"

definition clearUpdateFlags :: "'a updatable_scheme \<Rightarrow> 'a updatable_scheme" where
  "clearUpdateFlags d = d\<lparr>up_updateMask := fm_reset (up_updateMask d)\<rparr>"

definition notifyDataUpdated :: "'a updatable_scheme \<Rightarrow> 'a updatable_scheme" where
  "notifyDataUpdated d = d\<lparr>up_notified := True\<rparr>"

definition fieldUpdated :: "nat \<Rightarrow> 'a updatable_scheme \<Rightarrow> update_error + 'a updatable_scheme" where
  \<comment> \<open>\<^verbatim>\<open>setUpdatedField\<close> and \<^verbatim>\<open>notifyDataUpdated\<close>, as all setters call them\<close>
  "fieldUpdated fieldIndex d = (case setUpdatedField fieldIndex d of Inl e \<Rightarrow> Inl e | Inr d1 \<Rightarrow> Inr (notifyDataUpdated d1))"

section \<open>Units\<close>

record data_unit = updatable +
  du_guid :: object_guid
  du_movementInfo :: movement_info
  du_moveSegment :: movement_info
  du_displayId :: u32
  du_health :: u32
  du_maxHealth :: u32
  du_moveSpeed :: u32
  du_attackRange :: u32
  du_staminaInfo :: stamina_info
  du_attackTakesStamina :: u32
  du_level :: u8
  du_experience :: u32
  du_nextLevelXP :: u32
  du_money :: u32
  du_unitFlags :: u32
  du_smiley :: u16
  du_concealmentState :: u32
  du_pickupDuration :: u32
  du_magicBeanCount :: u32
  du_killCount :: u32

definition du_setLevel :: "u8 \<Rightarrow> 'a data_unit_scheme \<Rightarrow> update_error + 'a data_unit_scheme" where
  "du_setLevel v d = (if du_level d \<noteq> v then fieldUpdated SUNIT_FIELD_LEVEL (d\<lparr>du_level := v\<rparr>) else Inr d)"

definition du_setAttackRange :: "u32 \<Rightarrow> 'a data_unit_scheme \<Rightarrow> update_error + 'a data_unit_scheme" where
  "du_setAttackRange v d = (if \<not> f_eq (du_attackRange d) v then fieldUpdated SUNIT_FIELD_ATTACK_RANGE (d\<lparr>du_attackRange := v\<rparr>) else Inr d)"

definition du_setMoveSpeed :: "u32 \<Rightarrow> 'a data_unit_scheme \<Rightarrow> update_error + 'a data_unit_scheme" where
  "du_setMoveSpeed v d = (if du_moveSpeed d \<noteq> v then fieldUpdated SUNIT_FIELD_MOVE_SPEED (d\<lparr>du_moveSpeed := v\<rparr>) else Inr d)"

definition du_setHealth :: "u32 \<Rightarrow> 'a data_unit_scheme \<Rightarrow> update_error + 'a data_unit_scheme" where
  "du_setHealth v d = (if du_health d \<noteq> v then fieldUpdated SUNIT_FIELD_HEALTH (d\<lparr>du_health := v\<rparr>) else Inr d)"

definition du_setMaxHealth :: "u32 \<Rightarrow> 'a data_unit_scheme \<Rightarrow> update_error + 'a data_unit_scheme" where
  "du_setMaxHealth v d = (if du_maxHealth d \<noteq> v then fieldUpdated SUNIT_FIELD_MAX_HEALTH (d\<lparr>du_maxHealth := v\<rparr>) else Inr d)"

definition du_setUnitFlags :: "u32 \<Rightarrow> 'a data_unit_scheme \<Rightarrow> update_error + 'a data_unit_scheme" where
  "du_setUnitFlags v d = (if du_unitFlags d \<noteq> v then fieldUpdated SUNIT_FIELD_UNIT_FLAGS (d\<lparr>du_unitFlags := v\<rparr>) else Inr d)"

definition du_addUnitFlag :: "u32 \<Rightarrow> 'a data_unit_scheme \<Rightarrow> update_error + 'a data_unit_scheme" where
  "du_addUnitFlag flag d =
     (let newFlags = du_unitFlags d OR flag
      in if du_unitFlags d \<noteq> newFlags then fieldUpdated SUNIT_FIELD_UNIT_FLAGS (d\<lparr>du_unitFlags := newFlags\<rparr>) else Inr d)"

definition du_clearUnitFlag :: "u32 \<Rightarrow> 'a data_unit_scheme \<Rightarrow> update_error + 'a data_unit_scheme" where
  "du_clearUnitFlag flag d =
     (let newFlags = du_unitFlags d AND NOT flag
      in if du_unitFlags d \<noteq> newFlags then fieldUpdated SUNIT_FIELD_UNIT_FLAGS (d\<lparr>du_unitFlags := newFlags\<rparr>) else Inr d)"

definition du_hasUnitFlag :: "u32 \<Rightarrow> 'a data_unit_scheme \<Rightarrow> bool" where
  "du_hasUnitFlag flag d = (du_unitFlags d AND flag \<noteq> 0)"

definition du_setSmiley :: "u16 \<Rightarrow> 'a data_unit_scheme \<Rightarrow> update_error + 'a data_unit_scheme" where
  "du_setSmiley v d = (if du_smiley d \<noteq> v then fieldUpdated SUNIT_FIELD_SMILEY (d\<lparr>du_smiley := v\<rparr>) else Inr d)"

definition du_setMagicBeanCount :: "u32 \<Rightarrow> 'a data_unit_scheme \<Rightarrow> update_error + 'a data_unit_scheme" where
  "du_setMagicBeanCount v d = (if du_magicBeanCount d \<noteq> v then fieldUpdated SUNIT_FIELD_MAGIC_BEAN_COUNT (d\<lparr>du_magicBeanCount := v\<rparr>) else Inr d)"

definition du_setGuid :: "object_guid \<Rightarrow> 'a data_unit_scheme \<Rightarrow> 'a data_unit_scheme" where
  "du_setGuid g d = d\<lparr>du_guid := g, du_movementInfo := (du_movementInfo d)\<lparr>mi_guid := g\<rparr>, du_staminaInfo := (du_staminaInfo d)\<lparr>si_guid := g\<rparr>\<rparr>"

definition du_writeFields :: "update_type \<Rightarrow> 'a data_unit_scheme \<Rightarrow> field_write list" where
  "du_writeFields updateType d =
     [(updateType = UPDATE_TYPE_CREATE \<and> du_health d \<noteq> 0 \<or> hasUpdatedField d SUNIT_FIELD_HEALTH, SUNIT_FIELD_HEALTH, FInt32 (du_health d)),
      (updateType = UPDATE_TYPE_CREATE \<and> du_maxHealth d \<noteq> 0 \<or> hasUpdatedField d SUNIT_FIELD_MAX_HEALTH, SUNIT_FIELD_MAX_HEALTH, FInt32 (du_maxHealth d)),
      (updateType = UPDATE_TYPE_CREATE, SUNIT_FIELD_MOVEMENT_INFO, FMovement (du_movementInfo d) (if mi_flags (du_movementInfo d) AND MOVEMENT_FLAG_WALKING \<noteq> 0 then du_moveSegment d else mi_clear)),
      (updateType = UPDATE_TYPE_CREATE, SUNIT_FIELD_STAMINA_INFO, FStamina (du_staminaInfo d)),
      (updateType = UPDATE_TYPE_CREATE \<and> du_moveSpeed d \<noteq> 0 \<or> hasUpdatedField d SUNIT_FIELD_MOVE_SPEED, SUNIT_FIELD_MOVE_SPEED, FInt32 (du_moveSpeed d)),
      (updateType = UPDATE_TYPE_CREATE \<and> \<not> f_eq (du_attackRange d) 0 \<or> hasUpdatedField d SUNIT_FIELD_ATTACK_RANGE, SUNIT_FIELD_ATTACK_RANGE, FFloat (du_attackRange d)),
      (updateType = UPDATE_TYPE_CREATE \<and> du_attackTakesStamina d \<noteq> 0, SUNIT_FIELD_ATTACK_TAKES_STAMINA, FInt32 (du_attackTakesStamina d)),
      (updateType = UPDATE_TYPE_CREATE \<and> du_displayId d \<noteq> 0, SUNIT_FIELD_DISPLAYID, FUInt32 (du_displayId d)),
      (updateType = UPDATE_TYPE_CREATE \<and> du_level d \<noteq> 0 \<or> hasUpdatedField d SUNIT_FIELD_LEVEL, SUNIT_FIELD_LEVEL, FInt32 (ucast (du_level d))),
      (updateType = UPDATE_TYPE_CREATE \<and> du_unitFlags d \<noteq> 0 \<or> hasUpdatedField d SUNIT_FIELD_UNIT_FLAGS, SUNIT_FIELD_UNIT_FLAGS, FUInt32 (du_unitFlags d)),
      (updateType = UPDATE_TYPE_CREATE \<and> du_smiley d \<noteq> 0 \<or> hasUpdatedField d SUNIT_FIELD_SMILEY, SUNIT_FIELD_SMILEY, FInt32 (ucast (du_smiley d))),
      (updateType = UPDATE_TYPE_CREATE \<and> du_magicBeanCount d \<noteq> 0 \<or> hasUpdatedField d SUNIT_FIELD_MAGIC_BEAN_COUNT, SUNIT_FIELD_MAGIC_BEAN_COUNT, FInt32 (du_magicBeanCount d))]"

section \<open>Players\<close>

record data_player = data_unit +
  dp_isGM :: bool
  dp_items :: "object_guid list"
  dp_pickupTarget :: object_guid

definition dp_setGM :: "bool \<Rightarrow> 'a data_player_scheme \<Rightarrow> update_error + 'a data_player_scheme" where
  "dp_setGM v d = (if dp_isGM d \<noteq> v then fieldUpdated SPLAYER_FIELD_IS_GM (d\<lparr>dp_isGM := v\<rparr>) else Inr d)"

definition dp_setKillCount :: "u32 \<Rightarrow> 'a data_player_scheme \<Rightarrow> update_error + 'a data_player_scheme" where
  "dp_setKillCount v d = (if du_killCount d \<noteq> v then fieldUpdated SPLAYER_FIELD_KILL_COUNT (d\<lparr>du_killCount := v\<rparr>) else Inr d)"

definition dp_setItem :: "nat \<Rightarrow> object_guid \<Rightarrow> 'a data_player_scheme \<Rightarrow> update_error + 'a data_player_scheme" where
  "dp_setItem slot g d =
     (if \<not> slot < length (dp_items d) then Inl MaskOutOfBounds
      else if dp_items d ! slot \<noteq> g then fieldUpdated (SPLAYER_FIELD_ITEM_HEAD + slot) (d\<lparr>dp_items := (dp_items d)[slot := g]\<rparr>) else Inr d)"

definition dp_setConcealmentState :: "u32 \<Rightarrow> 'a data_player_scheme \<Rightarrow> update_error + 'a data_player_scheme" where
  "dp_setConcealmentState v d = (if du_concealmentState d \<noteq> v then fieldUpdated SPLAYER_FIELD_CONCEALMENT_STATE (d\<lparr>du_concealmentState := v\<rparr>) else Inr d)"

definition dp_setPickupDuration :: "u32 \<Rightarrow> 'a data_player_scheme \<Rightarrow> update_error + 'a data_player_scheme" where
  "dp_setPickupDuration v d = (if du_pickupDuration d \<noteq> v then fieldUpdated SPLAYER_FIELD_PICKUP_DURATION (d\<lparr>du_pickupDuration := v\<rparr>) else Inr d)"

definition dp_setPickupTarget :: "object_guid \<Rightarrow> 'a data_player_scheme \<Rightarrow> update_error + 'a data_player_scheme" where
  "dp_setPickupTarget v d = (if dp_pickupTarget d \<noteq> v then fieldUpdated SPLAYER_FIELD_PICKUP_TARGET (d\<lparr>dp_pickupTarget := v\<rparr>) else Inr d)"

definition dp_setExperience :: "u32 \<Rightarrow> 'a data_player_scheme \<Rightarrow> update_error + 'a data_player_scheme" where
  "dp_setExperience v d = (if du_experience d \<noteq> v then fieldUpdated SPLAYER_FIELD_EXPERIENCE (d\<lparr>du_experience := v\<rparr>) else Inr d)"

definition dp_setNextLevelXP :: "u32 \<Rightarrow> 'a data_player_scheme \<Rightarrow> update_error + 'a data_player_scheme" where
  "dp_setNextLevelXP v d = (if du_nextLevelXP d \<noteq> v then fieldUpdated SPLAYER_FIELD_NEXTLEVEL_XP (d\<lparr>du_nextLevelXP := v\<rparr>) else Inr d)"

definition dp_setMoney :: "u32 \<Rightarrow> 'a data_player_scheme \<Rightarrow> update_error + 'a data_player_scheme" where
  "dp_setMoney v d = (if du_money d \<noteq> v then fieldUpdated SPLAYER_FIELD_MONEY (d\<lparr>du_money := v\<rparr>) else Inr d)"

definition dp_ownFields :: "update_type \<Rightarrow> 'a data_player_scheme \<Rightarrow> field_write list" where
  \<comment> \<open>what only the player itself is told\<close>
  "dp_ownFields updateType d =
     [(updateType = UPDATE_TYPE_CREATE \<and> du_experience d \<noteq> 0 \<or> hasUpdatedField d SPLAYER_FIELD_EXPERIENCE, SPLAYER_FIELD_EXPERIENCE, FInt32 (du_experience d)),
      (updateType = UPDATE_TYPE_CREATE \<and> du_nextLevelXP d \<noteq> 0 \<or> hasUpdatedField d SPLAYER_FIELD_NEXTLEVEL_XP, SPLAYER_FIELD_NEXTLEVEL_XP, FInt32 (du_nextLevelXP d)),
      (updateType = UPDATE_TYPE_CREATE \<and> du_money d \<noteq> 0 \<or> hasUpdatedField d SPLAYER_FIELD_MONEY, SPLAYER_FIELD_MONEY, FInt32 (du_money d))]
     @ map (\<lambda>slot. (updateType = UPDATE_TYPE_CREATE \<and> dp_items d ! slot \<noteq> guid_EMPTY \<or> hasUpdatedField d (SPLAYER_FIELD_ITEM_HEAD + slot),
               SPLAYER_FIELD_ITEM_HEAD + slot, FUInt32 (dp_items d ! slot))) [0..<UNIT_SLOTS_COUNT]
     @ [(updateType = UPDATE_TYPE_CREATE \<and> du_concealmentState d \<noteq> 0 \<or> hasUpdatedField d SPLAYER_FIELD_CONCEALMENT_STATE, SPLAYER_FIELD_CONCEALMENT_STATE, FUInt32 (du_concealmentState d)),
        (updateType = UPDATE_TYPE_CREATE \<and> du_pickupDuration d \<noteq> 0, SPLAYER_FIELD_PICKUP_DURATION, FInt32 (du_pickupDuration d)),
        (updateType = UPDATE_TYPE_CREATE \<and> dp_pickupTarget d \<noteq> guid_EMPTY \<or> hasUpdatedField d SPLAYER_FIELD_PICKUP_TARGET, SPLAYER_FIELD_PICKUP_TARGET, FUInt32 (dp_pickupTarget d)),
        (updateType = UPDATE_TYPE_CREATE \<and> du_killCount d \<noteq> 0 \<or> hasUpdatedField d SPLAYER_FIELD_KILL_COUNT, SPLAYER_FIELD_KILL_COUNT, FInt32 (du_killCount d))]"

definition dp_writeFields :: "update_type \<Rightarrow> u32 \<Rightarrow> 'a data_player_scheme \<Rightarrow> field_write list" where
  "dp_writeFields updateType updateFlags d =
     du_writeFields updateType d
     @ [(updateType = UPDATE_TYPE_CREATE \<and> dp_isGM d \<or> hasUpdatedField d SPLAYER_FIELD_IS_GM, SPLAYER_FIELD_IS_GM, FBool (dp_isGM d))]
     @ (if updateFlags AND UPDATE_FLAG_SELF \<noteq> 0 then dp_ownFields updateType d else [])"

section \<open>Robots\<close>

record data_robot = data_unit +
  dr_target :: object_guid
  dr_aiActionType :: u32
  dr_aiActionState :: u32

definition dr_setTarget :: "object_guid \<Rightarrow> 'a data_robot_scheme \<Rightarrow> update_error + 'a data_robot_scheme" where
  "dr_setTarget v d = (if dr_target d \<noteq> v then fieldUpdated SROBOT_FIELD_TARGET (d\<lparr>dr_target := v\<rparr>) else Inr d)"

definition dr_setAIActionType :: "u32 \<Rightarrow> 'a data_robot_scheme \<Rightarrow> 'a data_robot_scheme" where "dr_setAIActionType v d = d\<lparr>dr_aiActionType := v\<rparr>"

definition dr_setAIActionState :: "u32 \<Rightarrow> 'a data_robot_scheme \<Rightarrow> 'a data_robot_scheme" where "dr_setAIActionState v d = d\<lparr>dr_aiActionState := v\<rparr>"

definition dr_writeFields :: "update_type \<Rightarrow> 'a data_robot_scheme \<Rightarrow> field_write list" where
  "dr_writeFields updateType d =
     du_writeFields updateType d
     @ [(updateType = UPDATE_TYPE_CREATE \<and> dr_target d \<noteq> guid_EMPTY \<or> hasUpdatedField d SROBOT_FIELD_TARGET, SROBOT_FIELD_TARGET, FUInt32 (dr_target d)),
        (updateType = UPDATE_TYPE_CREATE \<and> dr_aiActionType d \<noteq> 0 \<or> hasUpdatedField d SROBOT_FIELD_AIACTION_TYPE, SROBOT_FIELD_AIACTION_TYPE, FUInt32 (dr_aiActionType d)),
        (updateType = UPDATE_TYPE_CREATE \<and> dr_aiActionState d \<noteq> 0 \<or> hasUpdatedField d SROBOT_FIELD_AIACTION_STATE, SROBOT_FIELD_AIACTION_STATE, FUInt32 (dr_aiActionState d))]"

section \<open>Item boxes\<close>

record data_item_box = updatable +
  db_guid :: object_guid
  db_position :: "u32 \<times> u32"
  db_direction :: u8
  db_health :: u32
  db_maxHealth :: u32

definition db_setHealth :: "u32 \<Rightarrow> 'a data_item_box_scheme \<Rightarrow> update_error + 'a data_item_box_scheme" where
  "db_setHealth v d = (if db_health d \<noteq> v then fieldUpdated SITEMBOX_FIELD_HEALTH (d\<lparr>db_health := v\<rparr>) else Inr d)"

definition db_setMaxHealth :: "u32 \<Rightarrow> 'a data_item_box_scheme \<Rightarrow> update_error + 'a data_item_box_scheme" where
  "db_setMaxHealth v d = (if db_maxHealth d \<noteq> v then fieldUpdated SITEMBOX_FIELD_MAX_HEALTH (d\<lparr>db_maxHealth := v\<rparr>) else Inr d)"

definition db_writeFields :: "update_type \<Rightarrow> 'a data_item_box_scheme \<Rightarrow> field_write list" where
  "db_writeFields updateType d =
     [(updateType = UPDATE_TYPE_CREATE \<and> \<not> point_eq (db_position d) (0, 0), SITEMBOX_FIELD_POSITION, FPoint (fst (db_position d)) (snd (db_position d))),
      (updateType = UPDATE_TYPE_CREATE \<and> db_direction d \<noteq> 1, SITEMBOX_FIELD_DIRECTION, FUInt32 (ucast (db_direction d))),
      (updateType = UPDATE_TYPE_CREATE \<and> db_health d \<noteq> 0 \<or> hasUpdatedField d SITEMBOX_FIELD_HEALTH, SITEMBOX_FIELD_HEALTH, FInt32 (db_health d)),
      (updateType = UPDATE_TYPE_CREATE \<and> db_maxHealth d \<noteq> 0 \<or> hasUpdatedField d SITEMBOX_FIELD_MAX_HEALTH, SITEMBOX_FIELD_MAX_HEALTH, FInt32 (db_maxHealth d))]"

section \<open>Items\<close>

record data_item = updatable +
  di_guid :: object_guid
  di_itemId :: u32
  di_position :: "u32 \<times> u32"
  di_count :: u32
  di_holder :: object_guid
  di_holderOrigin :: "u32 \<times> u32"
  di_launchCenter :: "u32 \<times> u32"
  di_launchRadiusInMap :: u32
  di_dropDuration :: u32
  di_dropElapsed :: u32

definition di_writeFields :: "update_type \<Rightarrow> 'a data_item_scheme \<Rightarrow> field_write list" where
  "di_writeFields updateType d =
     [(updateType = UPDATE_TYPE_CREATE \<and> di_itemId d \<noteq> 0, SITEM_FIELD_ITEMID, FUInt32 (di_itemId d)),
      (updateType = UPDATE_TYPE_CREATE \<and> \<not> point_eq (di_position d) (0, 0), SITEM_FIELD_POSITION, FPoint (fst (di_position d)) (snd (di_position d))),
      (updateType = UPDATE_TYPE_CREATE \<and> di_count d \<noteq> 0, SITEM_FIELD_COUNT, FInt32 (di_count d)),
      (updateType = UPDATE_TYPE_CREATE \<and> di_holder d \<noteq> guid_EMPTY, SITEM_FIELD_HOLDER, FUInt32 (di_holder d)),
      (updateType = UPDATE_TYPE_CREATE \<and> \<not> point_eq (di_holderOrigin d) (0, 0), SITEM_FIELD_HOLDER_ORIGIN, FPoint (fst (di_holderOrigin d)) (snd (di_holderOrigin d))),
      (updateType = UPDATE_TYPE_CREATE \<and> \<not> point_eq (di_launchCenter d) (0, 0), SITEM_FIELD_LAUNCH_CENTER, FPoint (fst (di_launchCenter d)) (snd (di_launchCenter d))),
      (updateType = UPDATE_TYPE_CREATE \<and> \<not> f_eq (di_launchRadiusInMap d) 0, SITEM_FIELD_LAUNCH_RADIUS_IN_MAP, FFloat (di_launchRadiusInMap d)),
      (updateType = UPDATE_TYPE_CREATE \<and> di_dropDuration d \<noteq> 0, SITEM_FIELD_DROP_DURATION, FInt32 (di_dropDuration d)),
      (updateType = UPDATE_TYPE_CREATE \<and> di_dropElapsed d \<noteq> 0, SITEM_FIELD_DROP_ELAPSED, FInt32 (di_dropElapsed d))]"

record data_carried_item = updatable +
  dc_guid :: object_guid
  dc_itemId :: u32
  dc_level :: u8
  dc_count :: u32
  dc_stackable :: u32
  dc_slot :: int
  dc_cooldownDuration :: u32

definition dc_setCount :: "u32 \<Rightarrow> 'a data_carried_item_scheme \<Rightarrow> update_error + 'a data_carried_item_scheme" where
  "dc_setCount v d = (if dc_count d \<noteq> v then fieldUpdated SCARRIEDITEM_FIELD_COUNT (d\<lparr>dc_count := v\<rparr>) else Inr d)"

definition dc_writeFields :: "update_type \<Rightarrow> 'a data_carried_item_scheme \<Rightarrow> field_write list" where
  "dc_writeFields updateType d =
     [(updateType = UPDATE_TYPE_CREATE \<and> dc_itemId d \<noteq> 0, SCARRIEDITEM_FIELD_ITEMID, FUInt32 (dc_itemId d)),
      (updateType = UPDATE_TYPE_CREATE \<and> dc_level d \<noteq> 0, SCARRIEDITEM_FIELD_LEVEL, FInt32 (ucast (dc_level d))),
      (updateType = UPDATE_TYPE_CREATE \<and> dc_count d \<noteq> 0 \<or> hasUpdatedField d SCARRIEDITEM_FIELD_COUNT, SCARRIEDITEM_FIELD_COUNT, FInt32 (dc_count d)),
      (updateType = UPDATE_TYPE_CREATE \<and> dc_stackable d \<noteq> 0, SCARRIEDITEM_FIELD_STACKABLE, FInt32 (dc_stackable d)),
      (updateType = UPDATE_TYPE_CREATE \<and> dc_cooldownDuration d \<noteq> 0, SCARRIEDITEM_FIELD_COOLDOWN_DURATION, FInt32 (dc_cooldownDuration d))]"

section \<open>Projectiles and locators\<close>

record data_projectile = updatable +
  pj_guid :: object_guid
  pj_launcher :: object_guid
  pj_launcherOrigin :: "u32 \<times> u32"
  pj_attackRange :: u32
  pj_launchCenter :: "u32 \<times> u32"
  pj_launchRadiusInMap :: u32
  pj_orientation :: u32
  pj_elapsed :: u32
  pj_duration :: u32
  pj_attackCounter :: u32
  pj_consumedStamina :: u32
  pj_scale :: u32
  pj_attackInfoCounter :: u32
  pj_status :: u32

definition pj_writeFields :: "update_type \<Rightarrow> 'a data_projectile_scheme \<Rightarrow> field_write list" where
  "pj_writeFields updateType d =
     [(updateType = UPDATE_TYPE_CREATE \<and> pj_launcher d \<noteq> guid_EMPTY, SPROJECTILE_FIELD_LAUNCHER, FUInt32 (pj_launcher d)),
      (updateType = UPDATE_TYPE_CREATE \<and> \<not> point_eq (pj_launcherOrigin d) (0, 0), SPROJECTILE_FIELD_LAUNCHER_ORIGIN, FPoint (fst (pj_launcherOrigin d)) (snd (pj_launcherOrigin d))),
      (updateType = UPDATE_TYPE_CREATE \<and> \<not> f_eq (pj_attackRange d) 0, SPROJECTILE_FIELD_ATTACK_RANGE, FFloat (pj_attackRange d)),
      (updateType = UPDATE_TYPE_CREATE \<and> \<not> point_eq (pj_launchCenter d) (0, 0), SPROJECTILE_FIELD_LAUNCH_CENTER, FPoint (fst (pj_launchCenter d)) (snd (pj_launchCenter d))),
      (updateType = UPDATE_TYPE_CREATE \<and> \<not> f_eq (pj_launchRadiusInMap d) 0, SPROJECTILE_FIELD_LAUNCH_RADIUS_IN_MAP, FFloat (pj_launchRadiusInMap d)),
      (updateType = UPDATE_TYPE_CREATE \<and> \<not> f_eq (pj_orientation d) 0, SPROJECTILE_FIELD_ORIENTATION, FFloat (pj_orientation d)),
      (updateType = UPDATE_TYPE_CREATE \<and> pj_elapsed d \<noteq> 0, SPROJECTILE_FIELD_ELAPSED, FInt32 (pj_elapsed d)),
      (updateType = UPDATE_TYPE_CREATE \<and> pj_duration d \<noteq> 0, SPROJECTILE_FIELD_DURATION, FInt32 (pj_duration d)),
      (updateType = UPDATE_TYPE_CREATE \<and> pj_attackCounter d \<noteq> 0, SPROJECTILE_FIELD_ATTACK_COUNTER, FUInt32 (pj_attackCounter d)),
      (updateType = UPDATE_TYPE_CREATE \<and> pj_consumedStamina d \<noteq> 0, SPROJECTILE_FIELD_CONSUMED_STAMINA, FInt32 (pj_consumedStamina d)),
      (updateType = UPDATE_TYPE_CREATE \<and> \<not> f_eq (pj_scale d) 0, SPROJECTILE_FIELD_SCALE, FFloat (pj_scale d)),
      (updateType = UPDATE_TYPE_CREATE \<and> pj_attackInfoCounter d \<noteq> 0, SPROJECTILE_FIELD_ATTACK_INFO_COUNTER, FUInt32 (pj_attackInfoCounter d)),
      (updateType = UPDATE_TYPE_CREATE \<and> pj_status d \<noteq> 0, SPROJECTILE_FIELD_FLAG, FInt32 (pj_status d))]"

record data_unit_locator = updatable +
  dl_guid :: object_guid
  dl_displayId :: u32
  dl_locationInfo :: location_info
  dl_isAlive :: bool
  dl_moveSpeed :: u32

definition dl_setGuid :: "object_guid \<Rightarrow> 'a data_unit_locator_scheme \<Rightarrow> 'a data_unit_locator_scheme" where
  "dl_setGuid g d = d\<lparr>dl_guid := g, dl_locationInfo := (dl_locationInfo d)\<lparr>li_guid := g\<rparr>\<rparr>"

definition dl_setAlive :: "bool \<Rightarrow> 'a data_unit_locator_scheme \<Rightarrow> update_error + 'a data_unit_locator_scheme" where
  "dl_setAlive v d = (if dl_isAlive d \<noteq> v then fieldUpdated SUNIT_LOCATOR_FIELD_IS_ALIVE (d\<lparr>dl_isAlive := v\<rparr>) else Inr d)"

definition dl_setMoveSpeed :: "u32 \<Rightarrow> 'a data_unit_locator_scheme \<Rightarrow> update_error + 'a data_unit_locator_scheme" where
  "dl_setMoveSpeed v d = (if dl_moveSpeed d \<noteq> v then fieldUpdated SUNIT_LOCATOR_FIELD_MOVE_SPEED (d\<lparr>dl_moveSpeed := v\<rparr>) else Inr d)"

definition dl_writeFields :: "update_type \<Rightarrow> 'a data_unit_locator_scheme \<Rightarrow> field_write list" where
  "dl_writeFields updateType d =
     [(updateType = UPDATE_TYPE_CREATE, SUNIT_LOCATOR_FIELD_LOCATION, FLocation (dl_locationInfo d)),
      (updateType = UPDATE_TYPE_CREATE \<and> dl_displayId d \<noteq> 0, SUNIT_LOCATOR_FIELD_DISPLAYID, FUInt32 (dl_displayId d)),
      (updateType = UPDATE_TYPE_CREATE \<and> \<not> dl_isAlive d \<or> hasUpdatedField d SUNIT_LOCATOR_FIELD_IS_ALIVE, SUNIT_LOCATOR_FIELD_IS_ALIVE, FBool (dl_isAlive d)),
      (updateType = UPDATE_TYPE_CREATE \<and> dl_moveSpeed d \<noteq> 0 \<or> hasUpdatedField d SUNIT_LOCATOR_FIELD_MOVE_SPEED, SUNIT_LOCATOR_FIELD_MOVE_SPEED, FInt32 (dl_moveSpeed d))]"

section \<open>The classes as senders\<close>

definition dp_object :: "data_player \<Rightarrow> object_data" where
  "dp_object d = \<lparr>od_guid = du_guid d, od_typeId = 3, od_numberOfFields = of_nat SPLAYER_END, od_writeFields = (\<lambda>t f. dp_writeFields t f d)\<rparr>"

definition dr_object :: "data_robot \<Rightarrow> object_data" where
  "dr_object d = \<lparr>od_guid = du_guid d, od_typeId = 4, od_numberOfFields = of_nat SROBOT_END, od_writeFields = (\<lambda>t f. dr_writeFields t d)\<rparr>"

definition db_object :: "data_item_box \<Rightarrow> object_data" where
  "db_object d = \<lparr>od_guid = db_guid d, od_typeId = 5, od_numberOfFields = of_nat SITEMBOX_END, od_writeFields = (\<lambda>t f. db_writeFields t d)\<rparr>"

definition di_object :: "data_item \<Rightarrow> object_data" where
  "di_object d = \<lparr>od_guid = di_guid d, od_typeId = 6, od_numberOfFields = of_nat SITEM_END, od_writeFields = (\<lambda>t f. di_writeFields t d)\<rparr>"

definition dc_object :: "data_carried_item \<Rightarrow> object_data" where
  "dc_object d = \<lparr>od_guid = dc_guid d, od_typeId = 7, od_numberOfFields = of_nat SCARRIEDITEM_END, od_writeFields = (\<lambda>t f. dc_writeFields t d)\<rparr>"

definition pj_object :: "data_projectile \<Rightarrow> object_data" where
  "pj_object d = \<lparr>od_guid = pj_guid d, od_typeId = 8, od_numberOfFields = of_nat SPROJECTILE_END, od_writeFields = (\<lambda>t f. pj_writeFields t d)\<rparr>"

definition dl_object :: "data_unit_locator \<Rightarrow> object_data" where
  "dl_object d = \<lparr>od_guid = dl_guid d, od_typeId = 10, od_numberOfFields = of_nat SUNIT_LOCATOR_END, od_writeFields = (\<lambda>t f. dl_writeFields t d)\<rparr>"

section \<open>The tables are well formed\<close>

lemma unit_slots: "[0..<9::nat] = [0, 1, 2, 3, 4, 5, 6, 7, 8]"
  by (simp add: upt_rec)

lemma object_counts:
  "unat (od_numberOfFields (dp_object p)) = SPLAYER_END" "unat (od_numberOfFields (dr_object r)) = SROBOT_END"
  "unat (od_numberOfFields (db_object b)) = SITEMBOX_END" "unat (od_numberOfFields (di_object i)) = SITEM_END"
  "unat (od_numberOfFields (dc_object c)) = SCARRIEDITEM_END" "unat (od_numberOfFields (pj_object j)) = SPROJECTILE_END"
  "unat (od_numberOfFields (dl_object l)) = SUNIT_LOCATOR_END"
  by (simp_all add: dp_object_def dr_object_def db_object_def di_object_def dc_object_def pj_object_def dl_object_def field_index_defs)

lemma unit_fields_ok: "fields_ok SUNIT_END (du_writeFields t d)"
  by (simp add: fields_ok_def du_writeFields_def field_index_defs)

lemma own_fields_ok: "fields_ok SPLAYER_END (du_writeFields t d @ (g, SPLAYER_FIELD_IS_GM, FBool b) # dp_ownFields t d)"
  by (simp add: fields_ok_def dp_ownFields_def du_writeFields_def field_index_defs unit_slots)

lemma player_fields_ok: "fields_ok SPLAYER_END (dp_writeFields t f d)"
proof -
  have "fields_ok n (xs @ x # ys) \<Longrightarrow> fields_ok n (xs @ [x])" for n xs x ys by (auto simp: fields_ok_def)
  then show ?thesis using own_fields_ok by (simp add: dp_writeFields_def) blast
qed

lemma robot_fields_ok: "fields_ok SROBOT_END (dr_writeFields t d)"
  by (simp add: fields_ok_def dr_writeFields_def du_writeFields_def field_index_defs)

lemma other_fields_ok:
  "fields_ok SITEMBOX_END (db_writeFields t b)" "fields_ok SITEM_END (di_writeFields t i)" "fields_ok SCARRIEDITEM_END (dc_writeFields t c)"
  "fields_ok SPROJECTILE_END (pj_writeFields t j)" "fields_ok SUNIT_LOCATOR_END (dl_writeFields t l)"
  by (simp_all add: fields_ok_def db_writeFields_def di_writeFields_def dc_writeFields_def pj_writeFields_def dl_writeFields_def field_index_defs)

definition reads_back :: "object_data \<Rightarrow> update_type \<Rightarrow> u32 \<Rightarrow> bool" where
  "reads_back od t f \<longleftrightarrow> (\<exists>block cb. uo_block od t f = Inr block
     \<and> client_readBlock (od_numberOfFields od) (field_kinds (od_writeFields od t f)) block = Some (cb, [])
     \<and> cb_guid cb = od_guid od \<and> cb_fields cb = due_fields (od_writeFields od t f))"

lemma reads_backI:
  assumes "fields_ok (unat (od_numberOfFields od)) (od_writeFields od t f)" and "0 < unat (od_numberOfFields od)" and "unat (od_numberOfFields od) \<le> 32"
  shows "reads_back od t f"
proof -
  have "0 < od_numberOfFields od" "unat (od_numberOfFields od) \<le> 4294967264" using assms(2,3) by (simp_all add: word_less_nat_alt)
  from update_block_roundtrip [OF this assms(1), of "[]"] show ?thesis unfolding reads_back_def by auto
qed


section \<open>Replicas of players\<close>

datatype player_op =
    SetLevel u8 | SetAttackRange u32 | SetMoveSpeed u32 | SetHealth u32 | SetMaxHealth u32 | SetUnitFlags u32 | AddUnitFlag u32 | ClearUnitFlag u32
  | SetSmiley u16 | SetMagicBeanCount u32 | SetGM bool | SetKillCount u32 | SetItem nat object_guid | SetConcealmentState u32 | SetPickupDuration u32
  | SetPickupTarget object_guid | SetExperience u32 | SetNextLevelXP u32 | SetMoney u32

fun dp_apply :: "player_op \<Rightarrow> data_player \<Rightarrow> update_error + data_player" where
  "dp_apply (SetLevel v) d = du_setLevel v d"
| "dp_apply (SetAttackRange v) d = du_setAttackRange v d"
| "dp_apply (SetMoveSpeed v) d = du_setMoveSpeed v d"
| "dp_apply (SetHealth v) d = du_setHealth v d"
| "dp_apply (SetMaxHealth v) d = du_setMaxHealth v d"
| "dp_apply (SetUnitFlags v) d = du_setUnitFlags v d"
| "dp_apply (AddUnitFlag v) d = du_addUnitFlag v d"
| "dp_apply (ClearUnitFlag v) d = du_clearUnitFlag v d"
| "dp_apply (SetSmiley v) d = du_setSmiley v d"
| "dp_apply (SetMagicBeanCount v) d = du_setMagicBeanCount v d"
| "dp_apply (SetGM v) d = dp_setGM v d"
| "dp_apply (SetKillCount v) d = dp_setKillCount v d"
| "dp_apply (SetItem slot v) d = dp_setItem slot v d"
| "dp_apply (SetConcealmentState v) d = dp_setConcealmentState v d"
| "dp_apply (SetPickupDuration v) d = dp_setPickupDuration v d"
| "dp_apply (SetPickupTarget v) d = dp_setPickupTarget v d"
| "dp_apply (SetExperience v) d = dp_setExperience v d"
| "dp_apply (SetNextLevelXP v) d = dp_setNextLevelXP v d"
| "dp_apply (SetMoney v) d = dp_setMoney v d"

fun dp_run :: "player_op list \<Rightarrow> data_player \<Rightarrow> update_error + data_player" where
  "dp_run [] d = Inr d"
| "dp_run (p # ps) d = (case dp_apply p d of Inl e \<Rightarrow> Inl e | Inr d1 \<Rightarrow> dp_run ps d1)"

fun op_ok :: "player_op \<Rightarrow> bool" where
  "op_ok (SetItem slot v) = (slot < UNIT_SLOTS_COUNT)"
| "op_ok _ = True"

definition create_only :: "nat list" where
  \<comment> \<open>the fields that only a creation block carries\<close>
  "create_only = [SUNIT_FIELD_MOVEMENT_INFO, SUNIT_FIELD_STAMINA_INFO, SUNIT_FIELD_ATTACK_TAKES_STAMINA, SUNIT_FIELD_DISPLAYID, SPLAYER_FIELD_PICKUP_DURATION]"

definition dp_values :: "data_player \<Rightarrow> (nat \<times> field_value) list" where
  "dp_values d = map snd (filter (\<lambda>(due, i, v). i \<notin> set create_only) (dp_writeFields UPDATE_TYPE_VALUES UPDATE_FLAG_SELF d))"

definition player_ok :: "data_player \<Rightarrow> bool" where
  "player_ok d \<longleftrightarrow> (\<exists>bits. fm_bits (up_updateMask d) = Some bits \<and> length bits = 32) \<and> length (dp_items d) = UNIT_SLOTS_COUNT"

definition in_sync :: "(nat \<rightharpoonup> field_value) \<Rightarrow> data_player \<Rightarrow> bool" where
  "in_sync replica d \<longleftrightarrow> list_all (\<lambda>(i, v). replica i = Some v) (dp_values d)"

definition tracks :: "data_player \<Rightarrow> data_player \<Rightarrow> bool" where
  \<comment> \<open>every value that changed is marked\<close>
  "tracks d d' \<longleftrightarrow> player_ok d' \<and> (\<forall>i. hasUpdatedField d i \<longrightarrow> hasUpdatedField d' i)
     \<and> (\<forall>(i, v)\<in>set (dp_values d'). hasUpdatedField d' i \<or> (i, v) \<in> set (dp_values d))"

lemma dp_values_table:
  "dp_values d =
     [(0, FInt32 (du_health d)), (1, FInt32 (du_maxHealth d)), (4, FInt32 (du_moveSpeed d)), (5, FFloat (du_attackRange d)), (8, FInt32 (ucast (du_level d))),
      (10, FUInt32 (du_unitFlags d)), (9, FInt32 (ucast (du_smiley d))), (11, FInt32 (du_magicBeanCount d)), (12, FBool (dp_isGM d)),
      (14, FInt32 (du_experience d)), (15, FInt32 (du_nextLevelXP d)), (16, FInt32 (du_money d))]
     @ map (\<lambda>slot. (17 + slot, FUInt32 (dp_items d ! slot))) [0..<9]
     @ [(26, FUInt32 (du_concealmentState d)), (28, FUInt32 (dp_pickupTarget d)), (13, FInt32 (du_killCount d))]"
  by (simp add: dp_values_def dp_writeFields_def dp_ownFields_def du_writeFields_def create_only_def UPDATE_FLAG_SELF_def field_index_defs unit_slots)

lemma dp_values_due:
  assumes "(i, v) \<in> set (dp_values d)"
  shows "(hasUpdatedField d i, i, v) \<in> set (dp_writeFields UPDATE_TYPE_VALUES UPDATE_FLAG_SELF d)"
proof -
  let ?fs = "dp_writeFields UPDATE_TYPE_VALUES UPDATE_FLAG_SELF d"
  have "list_all (\<lambda>(due, i, v). i \<in> set create_only \<or> due = hasUpdatedField d i) ?fs"
    by (simp add: dp_writeFields_def dp_ownFields_def du_writeFields_def UPDATE_FLAG_SELF_def create_only_def field_index_defs unit_slots)
  then show ?thesis using assms by (fastforce simp: dp_values_def list_all_iff)
qed

lemma due_fields_distinct: "distinct (map (\<lambda>(due, i, v). i) fs) \<Longrightarrow> distinct (map fst (due_fields fs))"
  by (induction fs) (auto simp: due_fields_def, force)

lemma fieldUpdated_effect:
  assumes "player_ok d" and "k < 32"
  shows "\<exists>d'. fieldUpdated k d = Inr d' \<and> player_ok d' \<and> dp_values d' = dp_values d
    \<and> (\<forall>i. hasUpdatedField d' i \<longleftrightarrow> hasUpdatedField d i \<or> i = k)"
proof -
  obtain bits where b: "fm_bits (up_updateMask d) = Some bits" "length bits = 32" "length (dp_items d) = UNIT_SLOTS_COUNT"
    using assms(1) by (auto simp: player_ok_def)
  let ?d = "d\<lparr>up_updateMask := (up_updateMask d)\<lparr>fm_bits := Some (bits[k := True])\<rparr>, up_notified := True\<rparr>"
  have "fieldUpdated k d = Inr ?d"
    using b assms(2) by (simp add: fieldUpdated_def setUpdatedField_def notifyDataUpdated_def fm_setBit_def)
  moreover have "player_ok ?d" using b by (simp add: player_ok_def)
  moreover have "dp_values ?d = dp_values d" by (simp add: dp_values_table)
  moreover have "hasUpdatedField ?d i \<longleftrightarrow> hasUpdatedField d i \<or> i = k" for i
    using b assms(2) by (auto simp: hasUpdatedField_def fm_testBit_def nth_list_update)
  ultimately show ?thesis by blast
qed

lemma tracks_refl: "player_ok d \<Longrightarrow> tracks d d"
  by (simp add: tracks_def case_prod_unfold)

lemma tracks_trans: "tracks d d1 \<Longrightarrow> tracks d1 d2 \<Longrightarrow> tracks d d2"
  unfolding tracks_def by (fastforce simp: case_prod_unfold)

lemma set_field_tracks:
  assumes "player_ok d" and "player_ok d1" and "\<forall>i. hasUpdatedField d1 i = hasUpdatedField d i" and "k < 32"
    and "list_all (\<lambda>(i, v). i = k \<or> (i, v) \<in> set (dp_values d)) (dp_values d1)"
  shows "\<exists>d'. (if changed then fieldUpdated k d1 else Inr d) = Inr d' \<and> tracks d d'"
proof (cases changed)
  case True
  then show ?thesis using fieldUpdated_effect [OF assms(2,4)] assms(3,5) unfolding tracks_def list_all_iff by fastforce
next
  case False
  then show ?thesis using tracks_refl [OF assms(1)] by simp
qed

lemmas setter_defs =
  du_setLevel_def du_setAttackRange_def du_setMoveSpeed_def du_setHealth_def du_setMaxHealth_def du_setUnitFlags_def du_addUnitFlag_def
  du_clearUnitFlag_def du_setSmiley_def du_setMagicBeanCount_def dp_setGM_def dp_setKillCount_def dp_setConcealmentState_def
  dp_setPickupDuration_def dp_setPickupTarget_def dp_setExperience_def dp_setNextLevelXP_def dp_setMoney_def Let_def

lemma setItem_tracks:
  assumes "player_ok d" and "slot < UNIT_SLOTS_COUNT"
  shows "\<exists>d'. dp_setItem slot g d = Inr d' \<and> tracks d d'"
proof -
  let ?d = "d\<lparr>dp_items := (dp_items d)[slot := g]\<rparr>"
  have n: "length (dp_items d) = 9" "slot < 9" using assms by (simp_all add: player_ok_def UNIT_SLOTS_COUNT_def)
  have "list_all (\<lambda>(i, v). i = SPLAYER_FIELD_ITEM_HEAD + slot \<or> (i, v) \<in> set (dp_values d)) (dp_values ?d)"
    unfolding dp_values_table using n by (auto simp: list_all_iff SPLAYER_FIELD_ITEM_HEAD_def nth_list_update)
  moreover have "player_ok ?d" using assms(1) by (simp add: player_ok_def)
  moreover have "\<forall>i. hasUpdatedField ?d i = hasUpdatedField d i" by (simp add: hasUpdatedField_def)
  ultimately show ?thesis
    using set_field_tracks [OF assms(1), of ?d "SPLAYER_FIELD_ITEM_HEAD + slot" "dp_items d ! slot \<noteq> g"] n
    by (simp add: dp_setItem_def SPLAYER_FIELD_ITEM_HEAD_def)
qed

lemma apply_tracks:
  assumes "player_ok d" and "op_ok p"
  shows "\<exists>d'. dp_apply p d = Inr d' \<and> tracks d d'"
proof (cases "\<exists>slot g. p = SetItem slot g")
  case True
  then show ?thesis using assms setItem_tracks by auto
next
  case False
  then show ?thesis
    using assms(1)
    by (cases p; simp only: dp_apply.simps setter_defs; (intro set_field_tracks)?)
      (simp_all add: player_ok_def hasUpdatedField_def field_index_defs dp_values_table unit_slots)
qed

lemma run_tracks: "player_ok d \<Longrightarrow> list_all op_ok ps \<Longrightarrow> \<exists>d'. dp_run ps d = Inr d' \<and> tracks d d'"
proof (induction ps arbitrary: d)
  case (Cons p ps)
  obtain d1 where d1: "dp_apply p d = Inr d1" "tracks d d1" using apply_tracks [of d p] Cons.prems by auto
  then have "player_ok d1" by (simp add: tracks_def)
  then obtain d2 where "dp_run ps d1 = Inr d2" "tracks d1 d2" using Cons.IH [of d1] Cons.prems by auto
  then show ?case using d1 tracks_trans by (intro exI [of _ d2]) auto
qed (simp add: tracks_refl)


definition some_player :: data_player where
  "some_player = \<lparr>up_updateMask = fm_setCount (of_nat SPLAYER_END) fm_new, up_notified = False, du_guid = guid_new GUIDTYPE_PLAYER 7,
     du_movementInfo = mi_clear, du_moveSegment = mi_clear, du_displayId = 1, du_health = 100, du_maxHealth = 100, du_moveSpeed = 60,
     du_attackRange = 0x43000000, du_staminaInfo = si_clear, du_attackTakesStamina = 10, du_level = 1, du_experience = 0, du_nextLevelXP = 50,
     du_money = 0, du_unitFlags = 0, du_smiley = 0, du_concealmentState = 0, du_pickupDuration = 0, du_magicBeanCount = 0, du_killCount = 0,
     dp_isGM = False, dp_items = replicate 9 guid_EMPTY, dp_pickupTarget = guid_EMPTY\<rparr>"


end
