(* ===== verification/Realm_Manager.thy ===== *)
theory Realm_Manager
  imports Prelude "HOL-Library.Monad_Syntax"
begin

text \<open>
  The tables of the authentication server: \<^verbatim>\<open>authserver/realm/RealmManager\<close>, which reads the realms from a data base
  and picks those that a client may enter, and \<^verbatim>\<open>authserver/banned/BannedManager\<close>. The rows that SQLite
  returns are arguments of \<^verbatim>\<open>load\<close>, \<open>None\<close> when the query throws. \<^verbatim>\<open>std::map\<close> from versions with
  \<^verbatim>\<open>std::greater\<close> is an association list in that order; the other maps are partial functions.
  The main result is that the nested maps answer like a query on the rows of the table.
\<close>

unbundle bit_operations_syntax

section \<open>Parsing of versions\<close>

definition c_isspace :: "char \<Rightarrow> bool" where
  "c_isspace c = (c = CHR '' '' \<or> 9 \<le> (of_char c :: nat) \<and> (of_char c :: nat) \<le> 13)"

definition c_isdigit :: "char \<Rightarrow> bool" where
  "c_isdigit c = (48 \<le> (of_char c :: nat) \<and> (of_char c :: nat) \<le> 57)"

definition c_value :: "string \<Rightarrow> nat" where
  "c_value ds = fold (\<lambda>c n. n * 10 + (of_char c - 48)) ds 0"

definition stoi :: "string \<Rightarrow> int option" where
  \<comment> \<open>\<^verbatim>\<open>std::stoi\<close>: white space, a sign, digits, and whatever follows; \<open>None\<close> for the two exceptions\<close>
  "stoi str =
     (let s1 = dropWhile c_isspace str;
          negative = (s1 \<noteq> [] \<and> hd s1 = CHR ''-'');
          s2 = (if s1 \<noteq> [] \<and> (hd s1 = CHR ''-'' \<or> hd s1 = CHR ''+'') then tl s1 else s1);
          ds = takeWhile c_isdigit s2;
          v = (if negative then - int (c_value ds) else int (c_value ds))
      in if ds = [] \<or> \<not> int32_range v then None else Some v)"

fun split_dots :: "string \<Rightarrow> string list" where
  "split_dots [] = [[]]"
| "split_dots (c # s) = (if c = CHR ''.'' then [] # split_dots s else (c # hd (split_dots s)) # tl (split_dots s))"

fun rlm_versionLoop :: "string list \<Rightarrow> nat \<Rightarrow> u32 \<Rightarrow> u32 option" where
  "rlm_versionLoop [] shift version = Some version"
| "rlm_versionLoop (pair # results) shift version =
     (case stoi pair of
        None \<Rightarrow> None
      | Some n \<Rightarrow> let num = (of_int n :: u8) in rlm_versionLoop results (shift - 8) (version OR push_bit shift (ucast num)))"

definition rlm_parseVersion :: "string \<Rightarrow> u32 option" where
  "rlm_parseVersion verStr =
     (let results = split_dots verStr in if length results > 3 then None else rlm_versionLoop results 16 0)"

section \<open>Realms\<close>

definition COMPATIBILITY_GREATER :: u16 where "COMPATIBILITY_GREATER = 1"
definition COMPATIBILITY_EQUAL :: u16 where "COMPATIBILITY_EQUAL = 2"
definition PLATFORM_UNIVERSAL :: int where "PLATFORM_UNIVERSAL = 0"

record realm_info =
  ri_name :: string
  ri_address :: string
  ri_port :: u16
  ri_compatibility :: u16

type_synonym versioned_realms = "(u32 \<times> realm_info list) list"

record realm_group =
  rg_minRequiredVersion :: u32
  rg_realms :: "int \<rightharpoonup> versioned_realms"

record realm_manager =
  rlm_realmGroups :: "u32 \<rightharpoonup> realm_group"
  rlm_regionMap :: "string \<rightharpoonup> u32"
  rlm_regionMapDefaultCountry :: string

record realm_row =
  rr_groupId :: u32
  rr_platform :: int
  rr_gameVersion :: string
  rr_compatibility :: u16
  rr_name :: string
  rr_address :: string
  rr_port :: u16

definition rg_new :: realm_group where
  "rg_new = \<lparr>rg_minRequiredVersion = 0, rg_realms = Map.empty\<rparr>"

fun vr_append :: "u32 \<Rightarrow> realm_info \<Rightarrow> versioned_realms \<Rightarrow> versioned_realms" where
  \<comment> \<open>\<^verbatim>\<open>realms[version].emplace_back(info)\<close>, keys in falling order\<close>
  "vr_append v info [] = [(v, [info])]"
| "vr_append v info ((w, infos) # vr) =
     (if v = w then (w, infos @ [info]) # vr else if v > w then (v, [info]) # (w, infos) # vr else (w, infos) # vr_append v info vr)"

definition rr_info :: "realm_row \<Rightarrow> realm_info" where
  "rr_info row = \<lparr>ri_name = rr_name row, ri_address = rr_address row, ri_port = rr_port row, ri_compatibility = rr_compatibility row\<rparr>"

definition rg_addRealm :: "realm_row \<Rightarrow> u32 \<Rightarrow> realm_group \<Rightarrow> realm_group" where
  "rg_addRealm row version grp =
     grp\<lparr>rg_minRequiredVersion :=
             (if rg_minRequiredVersion grp \<le> 0 then version else min version (rg_minRequiredVersion grp)),
           rg_realms := (rg_realms grp)(rr_platform row \<mapsto>
             vr_append version (rr_info row) (case rg_realms grp (rr_platform row) of None \<Rightarrow> [] | Some vr \<Rightarrow> vr))\<rparr>"

fun rlm_loadRealms :: "realm_row list \<Rightarrow> (u32 \<rightharpoonup> realm_group) \<Rightarrow> (u32 \<rightharpoonup> realm_group) option" where
  "rlm_loadRealms [] groups = Some groups"
| "rlm_loadRealms (row # rows) groups =
     (case rlm_parseVersion (rr_gameVersion row) of
        None \<Rightarrow> None
      | Some version \<Rightarrow>
          let grp = (case groups (rr_groupId row) of None \<Rightarrow> rg_new | Some g \<Rightarrow> g)
          in rlm_loadRealms rows (groups(rr_groupId row \<mapsto> rg_addRealm row version grp)))"

definition to_upper :: "string \<Rightarrow> string" where
  "to_upper s = map (\<lambda>c. if 97 \<le> (of_char c :: nat) \<and> (of_char c :: nat) \<le> 122 then char_of ((of_char c :: nat) - 32) else c) s"

fun rlm_loadRegions :: "(string \<times> u32) list \<Rightarrow> (u32 \<rightharpoonup> realm_group) \<Rightarrow> (string \<rightharpoonup> u32) \<Rightarrow> (string \<rightharpoonup> u32) option" where
  "rlm_loadRegions [] groups regionMap = Some regionMap"
| "rlm_loadRegions ((country, groupId) # rows) groups regionMap =
     (let regionMap1 = regionMap(to_upper country \<mapsto> groupId)
      in if groups groupId = None then None else rlm_loadRegions rows groups regionMap1)"

definition rlm_load :: "realm_row list option \<Rightarrow> (string \<times> u32) list option \<Rightarrow> realm_manager \<Rightarrow> bool \<times> realm_manager" where
  "rlm_load realmRows regionRows rlm =
     (case do {
        rows \<leftarrow> realmRows;
        groups \<leftarrow> rlm_loadRealms rows Map.empty;
        regions \<leftarrow> regionRows;
        regionMap \<leftarrow> rlm_loadRegions regions groups Map.empty;
        if regionMap (rlm_regionMapDefaultCountry rlm) = None then None else Some (groups, regionMap)
      } of
        None \<Rightarrow> (False, rlm)
      | Some (groups, regionMap) \<Rightarrow> (True, rlm\<lparr>rlm_realmGroups := groups, rlm_regionMap := regionMap\<rparr>))"

definition rlm_new :: "string \<Rightarrow> realm_manager" where
  "rlm_new defaultCountry = \<lparr>rlm_realmGroups = Map.empty, rlm_regionMap = Map.empty, rlm_regionMapDefaultCountry = to_upper defaultCountry\<rparr>"

definition rlm_group :: "string \<Rightarrow> realm_manager \<Rightarrow> realm_group option" where
  \<comment> \<open>the look-ups both queries start with\<close>
  "rlm_group country rlm =
     (case (case rlm_regionMap rlm country of None \<Rightarrow> rlm_regionMap rlm (rlm_regionMapDefaultCountry rlm) | Some g \<Rightarrow> Some g) of
        None \<Rightarrow> None
      | Some groupId \<Rightarrow> rlm_realmGroups rlm groupId)"

definition ri_compatible :: "u32 \<Rightarrow> u32 \<Rightarrow> realm_info \<Rightarrow> bool" where
  "ri_compatible clientVersion gameVersion info =
     (ri_compatibility info AND COMPATIBILITY_GREATER = COMPATIBILITY_GREATER \<and> clientVersion > gameVersion
      \<or> ri_compatibility info AND COMPATIBILITY_EQUAL = COMPATIBILITY_EQUAL \<and> clientVersion = gameVersion)"

fun rlm_select :: "u32 \<Rightarrow> versioned_realms \<Rightarrow> realm_info list" where
  "rlm_select clientVersion [] = []"
| "rlm_select clientVersion ((gameVersion, realmList) # vr) =
     (if clientVersion \<ge> gameVersion then filter (ri_compatible clientVersion gameVersion) realmList else rlm_select clientVersion vr)"

definition rlm_getRealmList :: "string \<Rightarrow> u32 \<Rightarrow> int \<Rightarrow> realm_manager \<Rightarrow> realm_info list" where
  "rlm_getRealmList country clientVersion platform rlm =
     (case rlm_group country rlm of
        None \<Rightarrow> []
      | Some grp \<Rightarrow>
          (case (case rg_realms grp platform of None \<Rightarrow> rg_realms grp PLATFORM_UNIVERSAL | Some vr \<Rightarrow> Some vr) of
             None \<Rightarrow> []
           | Some versionedRealms \<Rightarrow> rlm_select clientVersion versionedRealms))"

definition rlm_getMinRequiredVersion :: "string \<Rightarrow> realm_manager \<Rightarrow> u32" where
  "rlm_getMinRequiredVersion country rlm =
     (case rlm_group country rlm of None \<Rightarrow> 0 | Some grp \<Rightarrow> rg_minRequiredVersion grp)"

section \<open>Bans\<close>

record banned_manager =
  bm_bannedAccounts :: "string \<rightharpoonup> u32"
  bm_bannedIPs :: "string \<rightharpoonup> u32"

definition bm_load :: "(string \<times> u32) list option \<Rightarrow> (string \<times> u32) list option \<Rightarrow> banned_manager \<Rightarrow> bool \<times> banned_manager" where
  \<comment> \<open>the entries carry the date of the ban; a later row replaces an earlier one\<close>
  "bm_load accountRows ipRows bm =
     (case accountRows of
        None \<Rightarrow> (False, bm)
      | Some accounts \<Rightarrow>
          (case ipRows of
             None \<Rightarrow> (False, bm)
           | Some ips \<Rightarrow> (True, bm\<lparr>bm_bannedAccounts := fold (\<lambda>(k, date) m. m(k \<mapsto> date)) accounts Map.empty,
                                  bm_bannedIPs := fold (\<lambda>(k, date) m. m(k \<mapsto> date)) ips Map.empty\<rparr>)))"

definition bm_isIPBanned :: "string \<Rightarrow> banned_manager \<Rightarrow> bool" where
  "bm_isIPBanned ipAddr bm = (bm_bannedIPs bm ipAddr \<noteq> None)"

definition bm_isAccountBanned :: "string \<Rightarrow> banned_manager \<Rightarrow> bool" where
  "bm_isAccountBanned playerId bm = (bm_bannedAccounts bm playerId \<noteq> None)"

lemma fold_upd_None: "fold (\<lambda>(k, v) m. m(k \<mapsto> v)) rows m k \<noteq> None \<longleftrightarrow> k \<in> fst ` set rows \<or> m k \<noteq> None"
  by (induction rows arbitrary: m) (auto simp del: not_None_eq)

lemma bm_load_bans:
  assumes "bm_load (Some accounts) (Some ips) bm = (ok, bm')"
  shows "ok" and "bm_isIPBanned a bm' \<longleftrightarrow> a \<in> fst ` set ips" and "bm_isAccountBanned p bm' \<longleftrightarrow> p \<in> fst ` set accounts"
proof -
  let ?m = "\<lambda>rows. fold (\<lambda>(k, date) m. m(k \<mapsto> date)) rows Map.empty :: string \<rightharpoonup> u32"
  have e: "ok" "bm' = bm\<lparr>bm_bannedAccounts := ?m accounts, bm_bannedIPs := ?m ips\<rparr>"
    using assms by (simp_all add: bm_load_def)
  then show "ok" "bm_isIPBanned a bm' \<longleftrightarrow> a \<in> fst ` set ips" "bm_isAccountBanned p bm' \<longleftrightarrow> p \<in> fst ` set accounts"
    using fold_upd_None [of ips Map.empty a] fold_upd_None [of accounts Map.empty p]
    by (simp_all add: bm_isIPBanned_def bm_isAccountBanned_def)
qed

section \<open>The realm tables as queries\<close>

text \<open>What the administrator's tables mean, without any of the nested maps.\<close>

definition row_version :: "realm_row \<Rightarrow> u32" where
  "row_version row = the (rlm_parseVersion (rr_gameVersion row))"

definition realm_query :: "realm_row list \<Rightarrow> u32 \<Rightarrow> int \<Rightarrow> u32 \<Rightarrow> realm_info list" where
  "realm_query rows groupId platform clientVersion =
     (let mine = filter (\<lambda>r. rr_groupId r = groupId) rows;
          p = (if platform \<in> rr_platform ` set mine then platform else PLATFORM_UNIVERSAL);
          versions = Set.filter (\<lambda>v. v \<le> clientVersion) (row_version ` set (filter (\<lambda>r. rr_platform r = p) mine))
      in if versions = {} then []
         else map rr_info (filter (\<lambda>r. rr_platform r = p \<and> row_version r = Max versions
                \<and> ri_compatible clientVersion (Max versions) (rr_info r)) mine))"

definition region_query :: "(string \<times> u32) list \<Rightarrow> string \<Rightarrow> string \<Rightarrow> u32 option" where
  "region_query regions defaultCountry country =
     (let m = map_of (rev (map (apfst to_upper) regions)) in case m country of None \<Rightarrow> m defaultCountry | Some g \<Rightarrow> Some g)"

definition vr_table :: "realm_row list \<Rightarrow> versioned_realms" where
  "vr_table rows = fold (\<lambda>r. vr_append (row_version r) (rr_info r)) rows []"

lemma vr_append_keys: "fst ` set (vr_append v info vr) = insert v (fst ` set vr)"
  by (induction v info vr rule: vr_append.induct) auto

lemma vr_append_sorted: "sorted_wrt (>) (map fst vr) \<Longrightarrow> sorted_wrt (>) (map fst (vr_append v info vr))"
proof (induction v info vr rule: vr_append.induct)
  case (2 v info w infos vr)
  then show ?case using vr_append_keys [of v info vr] by (auto simp: image_iff)
qed simp

lemma vr_append_lookup:
  "sorted_wrt (>) (map fst vr) \<Longrightarrow>
   map_of (vr_append v info vr) u = (if u = v then Some ((case map_of vr v of None \<Rightarrow> [] | Some infos \<Rightarrow> infos) @ [info]) else map_of vr u)"
proof (induction v info vr rule: vr_append.induct)
  case (2 v info w infos vr)
  have "map_of vr v = None" if "v > w" using 2(2) that by (force simp: map_of_eq_None_iff)
  then show ?case using 2 by auto
qed simp

lemma vr_table_snoc: "vr_table (rows @ [r]) = vr_append (row_version r) (rr_info r) (vr_table rows)"
  by (simp add: vr_table_def)

lemma vr_table_sorted: "sorted_wrt (>) (map fst (vr_table rows))"
  by (induction rows rule: rev_induct) (simp add: vr_table_def, simp add: vr_table_snoc vr_append_sorted)

lemma vr_table_keys: "fst ` set (vr_table rows) = row_version ` set rows"
  by (induction rows rule: rev_induct) (simp add: vr_table_def, simp add: vr_table_snoc vr_append_keys)

lemma vr_table_lookup:
  "map_of (vr_table rows) v = (if v \<in> row_version ` set rows then Some (map rr_info (filter (\<lambda>r. row_version r = v) rows)) else None)"
proof (induction rows arbitrary: v rule: rev_induct)
  case (snoc r rows)
  have "filter (\<lambda>r. row_version r = u) rows = []" if "u \<notin> row_version ` set rows" for u
    using that by (auto simp: filter_empty_conv)
  then show ?case by (auto simp: vr_table_snoc vr_append_lookup [OF vr_table_sorted] snoc)
qed (simp add: vr_table_def)

lemma rlm_select_best:
  assumes "sorted_wrt (>) (map fst vr)"
  shows "rlm_select cv vr = (let vs = fst ` set vr \<inter> {..cv} in if vs = {} then [] else filter (ri_compatible cv (Max vs)) (the (map_of vr (Max vs))))"
  using assms
proof (induction vr)
  case (Cons e vr)
  obtain v infos where e: "e = (v, infos)" by (cases e)
  show ?case
  proof (cases "v \<le> cv")
    case True
    have "Max (fst ` set (e # vr) \<inter> {..cv}) = v"
      using Cons.prems True e by (intro Max_eqI) (auto dest: less_imp_le)
    then show ?thesis using True e by (auto simp: Let_def)
  next
    case False
    then have "fst ` set (e # vr) \<inter> {..cv} = fst ` set vr \<inter> {..cv}" using e by auto
    moreover have "Max (fst ` set vr \<inter> {..cv}) \<noteq> v" if "fst ` set vr \<inter> {..cv} \<noteq> {}"
      using Max_in [OF _ that] False by auto
    ultimately show ?thesis using False e Cons by (auto simp: Let_def)
  qed
qed simp

lemma rlm_select_table:
  "rlm_select cv (vr_table rows) =
     (let vs = row_version ` set rows \<inter> {..cv} in
      if vs = {} then [] else map rr_info (filter (\<lambda>r. row_version r = Max vs \<and> ri_compatible cv (Max vs) (rr_info r)) rows))"
proof -
  let ?vs = "row_version ` set rows \<inter> {..cv}"
  have "Max ?vs \<in> row_version ` set rows" if "?vs \<noteq> {}" using Max_in [OF _ that] by auto
  then show ?thesis
    by (auto simp: rlm_select_best [OF vr_table_sorted] vr_table_keys vr_table_lookup Let_def filter_map comp_def conj_commute)
qed

section \<open>Loading builds the query\<close>

definition rg_of :: "realm_row list \<Rightarrow> realm_group" where
  "rg_of rows = fold (\<lambda>r. rg_addRealm r (row_version r)) rows rg_new"

definition groups_of :: "realm_row list \<Rightarrow> u32 \<rightharpoonup> realm_group" where
  "groups_of rows g = (let mine = filter (\<lambda>r. rr_groupId r = g) rows in if mine = [] then None else Some (rg_of mine))"

lemma groups_of_snoc:
  "groups_of (rows @ [r]) = (groups_of rows)(rr_groupId r \<mapsto>
     rg_addRealm r (row_version r) (case groups_of rows (rr_groupId r) of None \<Rightarrow> rg_new | Some g \<Rightarrow> g))"
  by (rule ext) (auto simp: groups_of_def rg_of_def Let_def)

lemma loadRealms_groups:
  "rlm_loadRealms rows (groups_of done) =
     (if list_all (\<lambda>r. rlm_parseVersion (rr_gameVersion r) \<noteq> None) rows then Some (groups_of (done @ rows)) else None)"
proof (induction rows arbitrary: "done")
  case (Cons r rows)
  show ?case
  proof (cases "rlm_parseVersion (rr_gameVersion r)")
    case (Some v)
    then have "row_version r = v" by (simp add: row_version_def)
    then have "rlm_loadRealms (r # rows) (groups_of done) = rlm_loadRealms rows (groups_of (done @ [r]))"
      using Some by (simp add: groups_of_snoc Let_def)
    then show ?thesis using Cons [of "done @ [r]"] Some by simp
  qed simp
qed simp

lemma rg_of_realms:
  "rg_realms (rg_of rows) p = (if p \<in> rr_platform ` set rows then Some (vr_table (filter (\<lambda>r. rr_platform r = p) rows)) else None)"
proof (induction rows rule: rev_induct)
  case (snoc r rows)
  have e: "filter (\<lambda>r. rr_platform r = p) rows = []" if "p \<notin> rr_platform ` set rows" using that by (auto simp: filter_empty_conv)
  then show ?case using snoc by (auto simp: rg_of_def rg_addRealm_def vr_table_snoc) (simp_all add: vr_table_def)
qed (simp add: rg_of_def rg_new_def)

lemma rg_of_min:
  "rows \<noteq> [] \<Longrightarrow> 0 \<notin> row_version ` set rows \<Longrightarrow> rg_minRequiredVersion (rg_of rows) = Min (row_version ` set rows)"
proof (induction rows rule: rev_induct)
  case (snoc r rows)
  show ?case
  proof (cases "rows = []")
    case False
    then have "Min (row_version ` set rows) \<in> row_version ` set rows" by (intro Min_in) auto
    then have "Min (row_version ` set rows) \<noteq> 0" using snoc.prems by (metis UnI1 image_Un set_append)
    moreover have "rg_minRequiredVersion (rg_of rows) = Min (row_version ` set rows)" using snoc False by simp
    ultimately show ?thesis using False by (simp add: rg_of_def rg_addRealm_def)
  qed (simp add: rg_of_def rg_addRealm_def rg_new_def)
qed simp

lemma loadRegions_map:
  "rlm_loadRegions regions groups m =
     (if list_all (\<lambda>(c, g). groups g \<noteq> None) regions then Some (m ++ map_of (rev (map (apfst to_upper) regions))) else None)"
proof (induction regions arbitrary: m)
  case (Cons r regions)
  then show ?case by (cases r) (auto simp: map_add_def fun_eq_iff split: option.splits)
qed simp

lemma loaded_manager:
  assumes "rlm_load (Some rows) (Some regions) rlm = (True, rlm')"
  shows "rlm_realmGroups rlm' = groups_of rows" and "rlm_regionMap rlm' = map_of (rev (map (apfst to_upper) regions))"
    and "rlm_regionMapDefaultCountry rlm' = rlm_regionMapDefaultCountry rlm"
    and "list_all (\<lambda>(c, g). groups_of rows g \<noteq> None) regions"
    and "rlm_regionMap rlm' (rlm_regionMapDefaultCountry rlm) \<noteq> None"
proof -
  have e: "groups_of [] = Map.empty" by (simp add: groups_of_def fun_eq_iff)
  show "rlm_realmGroups rlm' = groups_of rows" "rlm_regionMap rlm' = map_of (rev (map (apfst to_upper) regions))"
    "rlm_regionMapDefaultCountry rlm' = rlm_regionMapDefaultCountry rlm"
    "list_all (\<lambda>(c, g). groups_of rows g \<noteq> None) regions" "rlm_regionMap rlm' (rlm_regionMapDefaultCountry rlm) \<noteq> None"
    using assms loadRealms_groups [of rows "[]"] loadRegions_map [of regions "groups_of rows" Map.empty]
    by (auto simp: rlm_load_def e split: option.splits if_splits)
qed

lemma filter_atMost: "Set.filter (\<lambda>v. v \<le> c) A = A \<inter> {..c}"
  by auto

lemma group_query:
  fixes rows g platform cv
  defines "mine \<equiv> filter (\<lambda>r. rr_groupId r = g) rows"
  shows "(case (case rg_realms (rg_of mine) platform of None \<Rightarrow> rg_realms (rg_of mine) PLATFORM_UNIVERSAL | Some vr \<Rightarrow> Some vr) of
      None \<Rightarrow> [] | Some vr \<Rightarrow> rlm_select cv vr) = realm_query rows g platform cv"
proof -
  define p where "p = (if platform \<in> rr_platform ` set mine then platform else PLATFORM_UNIVERSAL)"
  let ?on = "filter (\<lambda>r. rr_platform r = p) mine"
  have "(case rg_realms (rg_of mine) platform of None \<Rightarrow> rg_realms (rg_of mine) PLATFORM_UNIVERSAL | Some vr \<Rightarrow> Some vr)
      = (if p \<in> rr_platform ` set mine then Some (vr_table ?on) else None)"
    by (simp add: rg_of_realms p_def)
  moreover have "?on = []" if "p \<notin> rr_platform ` set mine" using that by (auto simp: filter_empty_conv)
  ultimately have "(case (case rg_realms (rg_of mine) platform of None \<Rightarrow> rg_realms (rg_of mine) PLATFORM_UNIVERSAL | Some vr \<Rightarrow> Some vr) of
      None \<Rightarrow> [] | Some vr \<Rightarrow> rlm_select cv vr) = rlm_select cv (vr_table ?on)"
    by (simp add: vr_table_def)
  also have "\<dots> = realm_query rows g platform cv"
    unfolding rlm_select_table realm_query_def filter_atMost Let_def mine_def [symmetric] p_def [symmetric]
    by (simp add: conj_commute conj_left_commute)
  finally show ?thesis .
qed

lemma realm_list_spec:
  assumes "rlm_load (Some rows) (Some regions) rlm = (True, rlm')"
  shows "\<exists>groupId. region_query regions (rlm_regionMapDefaultCountry rlm) country = Some groupId
    \<and> rlm_getRealmList country clientVersion platform rlm' = realm_query rows groupId platform clientVersion"
proof -
  note l = loaded_manager [OF assms]
  let ?m = "map_of (rev (map (apfst to_upper) regions))"
  obtain g where g: "region_query regions (rlm_regionMapDefaultCountry rlm) country = Some g"
    using l(2,5) by (cases "?m country") (auto simp: region_query_def Let_def)
  then have "\<exists>c. ?m c = Some g" by (auto simp: region_query_def Let_def split: option.splits)
  then have "g \<in> snd ` set regions" by (force dest: map_of_SomeD)
  then have "groups_of rows g \<noteq> None" using l(4) by (auto simp: list_all_iff)
  then have "rlm_group country rlm' = Some (rg_of (filter (\<lambda>r. rr_groupId r = g) rows))"
    using g l(1-3) by (auto simp: rlm_group_def region_query_def Let_def groups_of_def split: option.splits if_splits)
  then have "rlm_getRealmList country clientVersion platform rlm' = realm_query rows g platform clientVersion"
    by (simp add: rlm_getRealmList_def group_query)
  then show ?thesis using g by blast
qed

text \<open>
  C28: the realms of a client are those that the tables say. After a successful load every country leads to a group,
  its own or that of the default country, and the list for a client is the answer of a query on the rows: of the
  group's realms for the platform of the client, or the universal ones if there are none, the newest version that is not newer than
  the client counts, and those of its realms that are compatible, in the order of the table.
\<close>

theorem realm_list_is_query:
  assumes "rlm_load (Some rows) (Some regions) rlm = (True, rlm')"
  shows "\<exists>groupId. region_query regions (rlm_regionMapDefaultCountry rlm) country = Some groupId
    \<and> rlm_getRealmList country clientVersion platform rlm' = realm_query rows groupId platform clientVersion"
  using realm_list_spec [OF assms] .

definition some_rows :: "realm_row list" where
  "some_rows =
     [\<lparr>rr_groupId = 1, rr_platform = 0, rr_gameVersion = ''1.0.1'', rr_compatibility = 3, rr_name = ''a'', rr_address = ''10.0.0.1'', rr_port = 18402\<rparr>,
      \<lparr>rr_groupId = 1, rr_platform = 0, rr_gameVersion = ''1.2'', rr_compatibility = 2, rr_name = ''b'', rr_address = ''10.0.0.2'', rr_port = 18402\<rparr>]"

theorem realm_list_is_query_witness:
  "\<exists>rlm' groupId. rlm_load (Some some_rows) (Some [(''en'', 1)]) (rlm_new ''EN'') = (True, rlm')
    \<and> region_query [(''en'', 1)] ''EN'' ''DE'' = Some groupId
    \<and> rlm_getRealmList ''DE'' 65793 1 rlm' = realm_query some_rows groupId 1 65793
    \<and> map ri_name (rlm_getRealmList ''DE'' 65793 1 rlm') = [''a'']"
proof -
  let ?load = "rlm_load (Some some_rows) (Some [(''en'', 1)]) (rlm_new ''EN'')"
  have load: "fst ?load" by code_simp
  then have "?load = (True, snd ?load)" by (metis prod.collapse)
  from realm_list_is_query [OF this, of "''DE''" 65793 1]
  obtain groupId where "region_query [(''en'', 1)] ''EN'' ''DE'' = Some groupId"
      "rlm_getRealmList ''DE'' 65793 1 (snd ?load) = realm_query some_rows groupId 1 65793"
    by (auto simp: rlm_new_def to_upper_def)
  moreover have "map ri_name (rlm_getRealmList ''DE'' 65793 1 (snd ?load)) = [''a'']" by code_simp
  ultimately show ?thesis using \<open>?load = (True, snd ?load)\<close> by (intro exI [of _ "snd ?load"] exI [of _ groupId] conjI)
qed

section \<open>Versions\<close>

fun decimal :: "nat \<Rightarrow> string" where
  \<comment> \<open>how an administrator writes a number\<close>
  "decimal n = (if n < 10 then [char_of (48 + n)] else decimal (n div 10) @ [char_of (48 + n mod 10)])"

declare decimal.simps [simp del]

lemma digit_other: "c_isdigit c \<Longrightarrow> \<not> c_isspace c \<and> c \<noteq> CHR ''-'' \<and> c \<noteq> CHR ''+'' \<and> c \<noteq> CHR ''.''"
  by (auto simp: c_isdigit_def c_isspace_def)

lemma digit_char:
  fixes d :: nat
  assumes "d < 10"
  shows "c_isdigit (char_of (48 + d))" and "of_char (char_of (48 + d)) - 48 = d"
  using assms by (simp_all add: c_isdigit_def)

lemma decimal_digits: "decimal n \<noteq> [] \<and> list_all c_isdigit (decimal n) \<and> c_value (decimal n) = n"
proof (induction n rule: decimal.induct)
  case (1 n)
  show ?case
  proof (cases "n < 10")
    case True
    then have "decimal n = [char_of (48 + n)]" by (simp add: decimal.simps [of n])
    then show ?thesis using digit_char [OF True] by (simp add: c_value_def del: of_char_of)
  next
    case False
    then have "decimal n = decimal (n div 10) @ [char_of (48 + n mod 10)]" by (simp add: decimal.simps [of n])
    then show ?thesis using False 1 digit_char [of "n mod 10"] by (simp add: c_value_def del: of_char_of)
  qed
qed

lemma stoi_decimal: "n \<le> 2147483647 \<Longrightarrow> stoi (decimal n) = Some (int n)"
proof -
  assume n: "n \<le> 2147483647"
  have c: "c_isdigit c \<and> \<not> c_isspace c \<and> c \<noteq> CHR ''-'' \<and> c \<noteq> CHR ''+''" if "c \<in> set (decimal n)" for c
    using that decimal_digits [of n] digit_other by (auto simp: list_all_iff)
  obtain d ds where d: "decimal n = d # ds" using decimal_digits [of n] by (cases "decimal n") auto
  have t: "takeWhile c_isdigit ds = ds" using c d by (simp add: takeWhile_eq_all_conv)
  show ?thesis using c [of d] d decimal_digits [of n] n by (simp add: t stoi_def Let_def int32_range_def)
qed

lemma split_dots_append: "CHR ''.'' \<notin> set s \<Longrightarrow> split_dots (s @ CHR ''.'' # t) = s # split_dots t"
  by (induction s) auto

lemma split_dots_single: "CHR ''.'' \<notin> set s \<Longrightarrow> split_dots s = [s]"
  by (induction s) auto

text \<open>
  Versions compare as they are written. A version of three numbers below 256 is read as the number whose bytes
  they are, so that a newer version, compared part by part, is the larger number.
\<close>

theorem version_reads_back:
  assumes "a < 256" and "b < 256" and "c < 256"
  shows "\<exists>v. rlm_parseVersion (decimal a @ ''.'' @ decimal b @ ''.'' @ decimal c) = Some v \<and> unat v = a * 65536 + b * 256 + c"
proof (intro exI conjI)
  have nodot: "CHR ''.'' \<notin> set (decimal n)" for n
    using decimal_digits [of n] digit_other by (auto simp: list_all_iff)
  let ?v = "push_bit 16 (word_of_nat a) OR push_bit 8 (word_of_nat b) OR word_of_nat c :: u32"
  have u8: "ucast (word_of_nat n :: u8) = (word_of_nat n :: u32)" if "n < 256" for n
    using that by (simp add: word_unat_eq_iff unat_of_nat take_bit_nat_eq_self unsigned_ucast_eq)
  show "rlm_parseVersion (decimal a @ ''.'' @ decimal b @ ''.'' @ decimal c) = Some ?v"
    using assms by (simp add: rlm_parseVersion_def split_dots_append [OF nodot] split_dots_single [OF nodot] stoi_decimal u8 Let_def or.assoc)
  have small: "\<not> bit (word_of_nat n :: u32) i" if "n < 256" "8 \<le> i" for n i
  proof -
    have "take_bit 8 n = n" using \<open>n < 256\<close> by (simp add: take_bit_nat_eq_self)
    then show ?thesis using \<open>8 \<le> i\<close> by (metis bit_of_nat_iff bit_take_bit_iff leD)
  qed
  have "push_bit 8 (word_of_nat b) + word_of_nat c = push_bit 8 (word_of_nat b) OR (word_of_nat c :: u32)"
    using small [OF assms(3)] by (intro disjunctive_add) (auto simp: bit_push_bit_iff not_le)
  moreover have "push_bit 16 (word_of_nat a) + (push_bit 8 (word_of_nat b) OR word_of_nat c) = ?v"
    using small [OF assms(2)] small [OF assms(3)] by (intro disjunctive_add) (auto simp: bit_push_bit_iff bit_or_iff not_le)
  ultimately have "?v = push_bit 16 (word_of_nat a) + (push_bit 8 (word_of_nat b) + word_of_nat c)" by simp
  also have "\<dots> = word_of_nat (a * 65536 + b * 256 + c)" by (simp add: push_bit_eq_mult mult.commute)
  finally have "unat ?v = take_bit 32 (a * 65536 + b * 256 + c)" by (simp only: unat_of_nat) (simp add: take_bit_eq_mod)
  also have "\<dots> = a * 65536 + b * 256 + c" using assms by (intro take_bit_nat_eq_self) simp
  finally show "unat ?v = a * 65536 + b * 256 + c" .
qed

theorem version_reads_back_witness:
  "\<exists>v. rlm_parseVersion ''1.12.3'' = Some v \<and> unat v = 68611"
proof -
  have d: "decimal 1 = ''1''" "decimal 12 = ''12''" "decimal 3 = ''3''" by code_simp+
  show ?thesis using version_reads_back [of 1 12 3] unfolding d by simp
qed

text \<open>
  The smallest version of a group is what a client needs at least, unless the group has a realm of version 0: the
  loader takes 0 for not yet set, and forgets it at the next row.
\<close>

lemma min_version_forgets_zero:
  "rg_minRequiredVersion (rg_of [r\<lparr>rr_gameVersion := ''0''\<rparr>, r\<lparr>rr_gameVersion := ''1''\<rparr>]) = 65536"
  by (simp add: rg_of_def rg_addRealm_def rg_new_def row_version_def rlm_parseVersion_def stoi_def c_isspace_def c_isdigit_def c_value_def int32_range_def Let_def)

end
