(* ===== verification/Auth_Server.thy ===== *)
theory Auth_Server
  imports Net_Socket Realm_Manager
begin

text \<open>
  A connection of the authentication server: \<^verbatim>\<open>AuthSession\<close> with the handlers of
  \<^verbatim>\<open>LogonHandler.cpp\<close>, and \<^verbatim>\<open>AuthSocket\<close> over the \<^verbatim>\<open>Socket\<close> of \<open>Net_Socket\<close>. The generated protobuf code
  and the GeoIP data base are fields of the environment: \<open>ae_parse\<close> and \<open>ae_encode\<close> for the messages, \<open>ae_lookupSockaddr\<close>
  for the country code of an address, empty if there is none. The clock is an argument. Logging is left out.
\<close>

unbundle bit_operations_syntax

section \<open>Messages\<close>

definition MSG_NULL :: u16 where "MSG_NULL = 0"
definition CMSG_LOGON_CHALLENGE :: u16 where "CMSG_LOGON_CHALLENGE = 1"
definition SMSG_LOGON_RESULT :: u16 where "SMSG_LOGON_RESULT = 2"
definition CMSG_GET_REALM_LIST :: u16 where "CMSG_GET_REALM_LIST = 3"
definition SMSG_REALM_LIST :: u16 where "SMSG_REALM_LIST = 4"
definition NUM_MSG_TYPES :: nat where "NUM_MSG_TYPES = 5"

definition gOpcodeNameTable :: "string option list" where
  \<comment> \<open>a comma is missing behind the fourth literal, so the compiler joins two names and the last pointer is null\<close>
  "gOpcodeNameTable =
     [Some ''MSG_NULL'', Some ''CMSG_LOGON_CHALLENGE'', Some ''SMSG_LOGON_RESULT'', Some (''CMSG_GET_REALM_LIST'' @ ''SMSG_REALM_LIST''), None]"

definition lookupOpcodeName :: "u16 \<Rightarrow> string option" where
  "lookupOpcodeName opcode =
     (if unat opcode \<ge> NUM_MSG_TYPES then Some (''Received unknown opcode, it'' @ [CHR 0x27] @ ''s more than max!'') else gOpcodeNameTable ! unat opcode)"

datatype logon_auth_result = AUTH_OK | AUTH_FAILED
datatype logon_error = ERROR_NONE | ERROR_LOW_CLIENT_VERSION

record logon_challenge =
  lc_version :: u32
  lc_platform :: u32
  lc_country :: string
  lc_playerId :: string
  lc_requiredCapabilities :: u32

definition lc_default :: logon_challenge where
  "lc_default = \<lparr>lc_version = 0, lc_platform = 0, lc_country = [], lc_playerId = [], lc_requiredCapabilities = 0\<rparr>"

datatype auth_message = LogonResult logon_auth_result "logon_error option" | RealmList "(string \<times> u16 \<times> string) list"

record auth_env =
  ae_regionMappingWithGeoIP :: bool
  ae_lookupSockaddr :: "string \<Rightarrow> string"
  ae_banned :: banned_manager
  ae_realms :: realm_manager
  ae_parse :: "u8 list \<Rightarrow> logon_challenge option"
  ae_encode :: "auth_message \<Rightarrow> u8 list"

definition REQUIRES_DISABLE_REGION_MAPPING_WITH_GEOIP :: u32 where "REQUIRES_DISABLE_REGION_MAPPING_WITH_GEOIP = 1"
definition PLATFORM_UNKNOWN :: u8 where "PLATFORM_UNKNOWN = 0"

section \<open>Sessions\<close>

record auth_session =
  as_remoteAddress :: string
  as_gameVersion :: u32
  as_realmList :: "realm_info list"
  as_platform :: u8
  as_requiredCapabilities :: u32

definition as_new :: "string \<Rightarrow> auth_session" where
  "as_new address = \<lparr>as_remoteAddress = address, as_gameVersion = 0, as_realmList = [], as_platform = PLATFORM_UNKNOWN, as_requiredCapabilities = 0\<rparr>"

definition as_isRequiresCapability :: "u32 \<Rightarrow> auth_session \<Rightarrow> bool" where
  "as_isRequiresCapability capability s = (as_requiredCapabilities s AND capability \<noteq> 0)"

definition as_packAndSend :: "auth_env \<Rightarrow> u16 \<Rightarrow> auth_message \<Rightarrow> socket \<Rightarrow> net_error + socket" where
  "as_packAndSend env opcode message sk =
     (if sk_isClosed sk then Inr sk
      else (case pk_pack (ae_encode env message) (pk_new opcode) of
              Inl PacketException \<Rightarrow> Inr sk
            | Inl e \<Rightarrow> Inl e
            | Inr packet \<Rightarrow> Inr (sk_queuePacket packet sk)))"

definition as_sendLogonResult :: "auth_env \<Rightarrow> logon_auth_result \<Rightarrow> logon_error \<Rightarrow> socket \<Rightarrow> net_error + socket" where
  "as_sendLogonResult env result errorCode sk =
     as_packAndSend env SMSG_LOGON_RESULT (LogonResult result (if errorCode \<noteq> ERROR_NONE then Some errorCode else None)) sk"

definition as_country :: "auth_env \<Rightarrow> logon_challenge \<Rightarrow> auth_session \<Rightarrow> string" where
  "as_country env message s =
     (let countryCode = (if ae_regionMappingWithGeoIP env \<and> \<not> as_isRequiresCapability REQUIRES_DISABLE_REGION_MAPPING_WITH_GEOIP s
                         then ae_lookupSockaddr env (as_remoteAddress s) else [])
      in if countryCode = [] then lc_country message else countryCode)"

definition as_reply :: "auth_env \<Rightarrow> socket \<Rightarrow> auth_session \<Rightarrow> logon_auth_result \<Rightarrow> logon_error \<Rightarrow> net_error + auth_session \<times> socket" where
  \<comment> \<open>send the result and return\<close>
  "as_reply env sk s result errorCode = (case as_sendLogonResult env result errorCode sk of Inl e \<Rightarrow> Inl e | Inr sk1 \<Rightarrow> Inr (s, sk1))"

definition as_handleLogonChallenge :: "auth_env \<Rightarrow> basic_packet \<Rightarrow> auth_session \<times> socket \<Rightarrow> net_error + auth_session \<times> socket" where
  "as_handleLogonChallenge env recvPacket st =
     (case pk_unpack (ae_parse env) lc_default recvPacket of
        Inl e \<Rightarrow> Inl e
      | Inr message \<Rightarrow>
          let (s, sk) = st;
              version = lc_version message;
              platform = (ucast (lc_platform message) :: u8);
              s1 = s\<lparr>as_requiredCapabilities := lc_requiredCapabilities message\<rparr>;
              country = as_country env message s1
          in if bm_isIPBanned (as_remoteAddress s) (ae_banned env) then as_reply env sk s1 AUTH_FAILED ERROR_NONE
             else if bm_isAccountBanned (lc_playerId message) (ae_banned env) then as_reply env sk s1 AUTH_FAILED ERROR_NONE
             else if version \<ge> rlm_getMinRequiredVersion country (ae_realms env)
             then let realmList = rlm_getRealmList country version (uint platform) (ae_realms env)
                  in if realmList = [] then as_reply env sk s1 AUTH_FAILED ERROR_LOW_CLIENT_VERSION
                     else as_reply env sk (s1\<lparr>as_gameVersion := version, as_realmList := realmList, as_platform := platform\<rparr>) AUTH_OK ERROR_NONE
             else as_reply env sk s1 AUTH_FAILED ERROR_LOW_CLIENT_VERSION)"

definition as_sendRealmList :: "auth_env \<Rightarrow> auth_session \<times> socket \<Rightarrow> net_error + auth_session \<times> socket" where
  "as_sendRealmList env st =
     (let (s, sk) = st
      in case as_packAndSend env SMSG_REALM_LIST (RealmList (map (\<lambda>info. (ri_address info, ri_port info, ri_name info)) (as_realmList s))) sk of
           Inl e \<Rightarrow> Inl e
         | Inr sk1 \<Rightarrow> Inr (s, sk1))"

definition as_handleGetRealmList :: "auth_env \<Rightarrow> basic_packet \<Rightarrow> auth_session \<times> socket \<Rightarrow> net_error + auth_session \<times> socket" where
  "as_handleGetRealmList env recvPacket st = as_sendRealmList env st"

definition auth_handlerTable :: "auth_env \<Rightarrow> u16 \<rightharpoonup> (basic_packet \<Rightarrow> auth_session \<times> socket \<Rightarrow> net_error + auth_session \<times> socket)" where
  "auth_handlerTable env = [CMSG_LOGON_CHALLENGE \<mapsto> as_handleLogonChallenge env, CMSG_GET_REALM_LIST \<mapsto> as_handleGetRealmList env]"

definition as_handlePacket :: "auth_env \<Rightarrow> basic_packet \<Rightarrow> auth_session \<times> socket \<Rightarrow> net_error + auth_session \<times> socket" where
  "as_handlePacket env newPacket st =
     (case auth_handlerTable env (pk_opcode newPacket) of
        None \<Rightarrow> Inr st
      | Some handler \<Rightarrow> (case handler newPacket st of Inl PacketException \<Rightarrow> Inr st | r \<Rightarrow> r))"

section \<open>Sockets\<close>

record auth_socket =
  ak_base :: socket
  ak_address :: string
  ak_session :: "auth_session option"
  ak_sessTimeout :: int
  ak_sessActiveTime :: int
  ak_latency :: int

definition ak_new :: "string \<Rightarrow> int \<Rightarrow> auth_socket" where
  "ak_new address sessTimeout =
     \<lparr>ak_base = sk_new, ak_address = address, ak_session = None, ak_sessTimeout = sessTimeout, ak_sessActiveTime = 0, ak_latency = 0\<rparr>"

definition ak_onSocketClosed :: "auth_socket \<Rightarrow> auth_socket" where
  "ak_onSocketClosed a = a\<lparr>ak_session := None\<rparr>"

definition ak_setBase :: "socket \<Rightarrow> auth_socket \<Rightarrow> auth_socket" where
  \<comment> \<open>an operation of the base class; when it closes the socket, \<^verbatim>\<open>closeSocket\<close> calls the virtual \<^verbatim>\<open>onSocketClosed\<close>\<close>
  "ak_setBase sk a =
     (if \<not> sk_isClosed (ak_base a) \<and> sk_isClosed sk then ak_onSocketClosed (a\<lparr>ak_base := sk\<rparr>) else a\<lparr>ak_base := sk\<rparr>)"

definition ak_closeSocket :: "auth_socket \<Rightarrow> auth_socket" where
  "ak_closeSocket a = ak_setBase (sk_closeSocket (ak_base a)) a"

definition ak_resetSessionTimeout :: "int \<Rightarrow> auth_socket \<Rightarrow> auth_socket" where
  "ak_resetSessionTimeout currTime a =
     (if ak_sessTimeout a \<le> 0 then a
      else a\<lparr>ak_latency := (if ak_sessActiveTime a > 0 then i32 (currTime - ak_sessActiveTime a) else ak_latency a),
             ak_sessActiveTime := currTime\<rparr>)"

definition ak_checkIP :: "int \<Rightarrow> auth_socket \<Rightarrow> auth_socket" where
  "ak_checkIP now a =
     (if ak_session a \<noteq> None then ak_closeSocket a
      else ak_resetSessionTimeout now (ak_setBase (sk_readHeader (ak_base a)) (a\<lparr>ak_session := Some (as_new (ak_address a))\<rparr>)))"

definition ak_start :: "int \<Rightarrow> auth_socket \<Rightarrow> auth_socket" where
  "ak_start now a = ak_checkIP now a"

definition ak_onReceivedData :: "auth_env \<Rightarrow> int \<Rightarrow> basic_packet \<Rightarrow> auth_socket \<Rightarrow> net_error + auth_socket" where
  "ak_onReceivedData env now packet a =
     (let a1 = ak_resetSessionTimeout now a
      in case ak_session a1 of
           None \<Rightarrow> Inr a1
         | Some s \<Rightarrow>
             (case as_handlePacket env packet (s, ak_base a1) of
                Inl e \<Rightarrow> Inl e
              | Inr (s1, sk) \<Rightarrow> Inr (a1\<lparr>ak_session := Some s1, ak_base := sk\<rparr>)))"

definition ak_update :: "int \<Rightarrow> auth_socket \<Rightarrow> net_error + auth_socket" where
  "ak_update now a =
     (case sk_update (ak_base a) of
        Inl e \<Rightarrow> Inl e
      | Inr sk \<Rightarrow>
          let a1 = ak_setBase sk a
          in if ak_sessTimeout a1 > 0 \<and> ak_sessActiveTime a1 > 0 \<and> i32 (now - ak_sessActiveTime a1) > ak_sessTimeout a1
             then Inr (ak_closeSocket (a1\<lparr>ak_latency := 0\<rparr>)) else Inr a1)"

section \<open>Runs of a connection\<close>

datatype auth_event = Received int basic_packet | Updated int

fun ak_event :: "auth_env \<Rightarrow> auth_event \<Rightarrow> auth_socket \<Rightarrow> net_error + auth_socket" where
  "ak_event env (Received now packet) a = ak_onReceivedData env now packet a"
| "ak_event env (Updated now) a = ak_update now a"

fun ak_run :: "auth_env \<Rightarrow> auth_event list \<Rightarrow> auth_socket \<Rightarrow> net_error + auth_socket" where
  "ak_run env [] a = Inr a"
| "ak_run env (ev # evs) a = (case ak_event env ev a of Inl e \<Rightarrow> Inl e | Inr a1 \<Rightarrow> ak_run env evs a1)"

fun received :: "auth_event list \<Rightarrow> basic_packet list" where
  "received [] = []"
| "received (Received now packet # evs) = packet # received evs"
| "received (Updated now # evs) = received evs"

text \<open>The specification: what the tables of the administrator grant to a packet, and after a sequence of packets.\<close>

definition challenge_country :: "auth_env \<Rightarrow> string \<Rightarrow> logon_challenge \<Rightarrow> string" where
  "challenge_country env address message =
     (let located = (if ae_regionMappingWithGeoIP env \<and> lc_requiredCapabilities message AND 1 = 0 then ae_lookupSockaddr env address else [])
      in if located = [] then lc_country message else located)"

definition granted :: "realm_row list \<Rightarrow> (string \<times> u32) list \<Rightarrow> string \<Rightarrow> auth_env \<Rightarrow> string \<Rightarrow> basic_packet \<Rightarrow> realm_info list" where
  "granted rows regions defaultCountry env address packet =
     (case pk_unpack (ae_parse env) lc_default packet of
        Inl e \<Rightarrow> []
      | Inr message \<Rightarrow>
          if pk_opcode packet \<noteq> CMSG_LOGON_CHALLENGE \<or> bm_isIPBanned address (ae_banned env)
             \<or> bm_isAccountBanned (lc_playerId message) (ae_banned env) then []
          else (case region_query regions defaultCountry (challenge_country env address message) of
                  None \<Rightarrow> []
                | Some groupId \<Rightarrow> realm_query rows groupId (uint (ucast (lc_platform message) :: u8)) (lc_version message)))"

definition last_granted :: "(basic_packet \<Rightarrow> realm_info list) \<Rightarrow> basic_packet list \<Rightarrow> realm_info list" where
  "last_granted grant packets = fold (\<lambda>packet realms. if grant packet = [] then realms else grant packet) packets []"

definition realm_entries :: "realm_info list \<Rightarrow> (string \<times> u16 \<times> string) list" where
  "realm_entries = map (\<lambda>info. (ri_address info, ri_port info, ri_name info))"

lemma min_version_redundant:
  assumes "rlm_load (Some rows) (Some regions) rlm0 = (True, rlm)" and "0 \<notin> row_version ` set rows"
    and "rlm_getRealmList country version platform rlm \<noteq> []"
  shows "rlm_getMinRequiredVersion country rlm \<le> version"
proof -
  note l = loaded_manager [OF assms(1)]
  obtain grp where g: "rlm_group country rlm = Some grp" using assms(3) by (auto simp: rlm_getRealmList_def split: option.splits)
  then obtain gid where gid: "groups_of rows gid = Some grp" using l(1) by (auto simp: rlm_group_def split: option.splits)
  let ?mine = "filter (\<lambda>r. rr_groupId r = gid) rows"
  have mine: "?mine \<noteq> []" "grp = rg_of ?mine" using gid by (auto simp: groups_of_def Let_def split: if_splits)
  have "rlm_getRealmList country version platform rlm = realm_query rows gid platform version"
    by (simp add: rlm_getRealmList_def g mine(2) group_query)
  then obtain v where v: "v \<in> row_version ` set ?mine" "v \<le> version"
    using assms(3) by (auto simp: realm_query_def Let_def split: if_splits)
  have "rg_minRequiredVersion grp = Min (row_version ` set ?mine)"
    using mine assms(2) by (simp add: rg_of_min image_iff)
  also have "Min (row_version ` set ?mine) \<le> version" by (rule order_trans [OF Min_le v(2)]) (use v(1) in simp_all)
  finally show ?thesis using g by (simp add: rlm_getMinRequiredVersion_def)
qed

text \<open>The tables the server has loaded, and what they say.\<close>

definition tables_loaded :: "realm_row list \<Rightarrow> (string \<times> u32) list \<Rightarrow> string \<Rightarrow> auth_env \<Rightarrow> bool" where
  "tables_loaded rows regions defaultCountry env \<longleftrightarrow>
     rlm_load (Some rows) (Some regions) (rlm_new defaultCountry) = (True, ae_realms env) \<and> 0 \<notin> row_version ` set rows"

lemma send_effect:
  assumes "as_packAndSend env opcode message sk = Inr sk'"
  shows "sk_isClosed sk' = sk_isClosed sk"
  using assms by (auto simp: as_packAndSend_def sk_queuePacket_def split: if_splits sum.splits net_error.splits)

lemma reply_effect:
  assumes "(case as_reply env sk u result code of Inl PacketException \<Rightarrow> Inr (s, sk) | r \<Rightarrow> r) = Inr (s', sk')"
  shows "s' = u \<and> sk_isClosed sk' = sk_isClosed sk"
  using assms
  by (auto simp: as_reply_def as_sendLogonResult_def as_packAndSend_def sk_queuePacket_def split: sum.splits net_error.splits if_splits)

lemma challenge_grants:
  assumes t: "tables_loaded rows regions defaultCountry env" and m: "pk_unpack (ae_parse env) lc_default packet = Inr message"
    and o: "pk_opcode packet = CMSG_LOGON_CHALLENGE"
    and nb: "\<not> bm_isIPBanned address (ae_banned env)" "\<not> bm_isAccountBanned (lc_playerId message) (ae_banned env)"
  defines "realms \<equiv> rlm_getRealmList (challenge_country env address message) (lc_version message) (uint (ucast (lc_platform message) :: u8)) (ae_realms env)"
  shows "granted rows regions (to_upper defaultCountry) env address packet = realms"
    and "realms \<noteq> [] \<Longrightarrow> rlm_getMinRequiredVersion (challenge_country env address message) (ae_realms env) \<le> lc_version message"
proof -
  have l: "rlm_load (Some rows) (Some regions) (rlm_new defaultCountry) = (True, ae_realms env)" using t by (simp add: tables_loaded_def)
  show "granted rows regions (to_upper defaultCountry) env address packet = realms"
    using realm_list_spec [OF l, of "challenge_country env address message" "lc_version message" "uint (ucast (lc_platform message) :: u8)"] m o nb
    by (auto simp: granted_def realms_def rlm_new_def)
  show "realms \<noteq> [] \<Longrightarrow> rlm_getMinRequiredVersion (challenge_country env address message) (ae_realms env) \<le> lc_version message"
    using min_version_redundant [OF l] t by (simp add: tables_loaded_def realms_def)
qed

lemma handle_effect:
  assumes t: "tables_loaded rows regions defaultCountry env" and addr: "as_remoteAddress s = address"
    and h: "as_handlePacket env packet (s, sk) = Inr (s', sk')"
  defines "g \<equiv> granted rows regions (to_upper defaultCountry) env address packet"
  shows "as_remoteAddress s' = address" and "sk_isClosed sk' = sk_isClosed sk"
    and "as_realmList s' = (if g = [] then as_realmList s else g)"
proof -
  have "as_remoteAddress s' = address \<and> sk_isClosed sk' = sk_isClosed sk \<and> as_realmList s' = (if g = [] then as_realmList s else g)"
  proof (cases "pk_opcode packet = CMSG_LOGON_CHALLENGE")
    case False
    then have "g = []" by (simp add: g_def granted_def split: sum.splits)
    then show ?thesis using h addr False
      by (auto simp: as_handlePacket_def auth_handlerTable_def as_handleGetRealmList_def as_sendRealmList_def
          split: if_splits sum.splits net_error.splits dest: send_effect)
  next
    case o: True
    have h': "(case as_handleLogonChallenge env packet (s, sk) of Inl PacketException \<Rightarrow> Inr (s, sk) | r \<Rightarrow> r) = Inr (s', sk')"
      using h o by (simp add: as_handlePacket_def auth_handlerTable_def CMSG_LOGON_CHALLENGE_def CMSG_GET_REALM_LIST_def)
    show ?thesis
    proof (cases "pk_unpack (ae_parse env) lc_default packet")
      case (Inl e)
      then have "g = []" by (simp add: g_def granted_def)
      then show ?thesis using h' Inl addr by (auto simp: as_handleLogonChallenge_def split: net_error.splits)
    next
      case (Inr message)
      have c: "as_country env message (s\<lparr>as_requiredCapabilities := lc_requiredCapabilities message\<rparr>) = challenge_country env address message"
        by (simp add: as_country_def challenge_country_def as_isRequiresCapability_def REQUIRES_DISABLE_REGION_MAPPING_WITH_GEOIP_def addr)
      show ?thesis
      proof (cases "bm_isIPBanned address (ae_banned env) \<or> bm_isAccountBanned (lc_playerId message) (ae_banned env)")
        case True
        then have "g = []" using Inr by (auto simp: g_def granted_def)
        then show ?thesis using h' Inr addr True by (auto simp: as_handleLogonChallenge_def Let_def split: if_splits dest!: reply_effect)
      next
        case False
        note gr = challenge_grants [OF t Inr o, of address]
        show ?thesis using h' Inr addr False gr c by (auto simp: as_handleLogonChallenge_def Let_def g_def split: if_splits dest!: reply_effect)
      qed
    qed
  qed
  then show "as_remoteAddress s' = address" "sk_isClosed sk' = sk_isClosed sk" "as_realmList s' = (if g = [] then as_realmList s else g)"
    by simp_all
qed

section \<open>What a connection gets\<close>

definition ak_inv :: "string \<Rightarrow> realm_info list \<Rightarrow> auth_socket \<Rightarrow> bool" where
  \<comment> \<open>a connection has its session until it is closed, and the session holds these realms\<close>
  "ak_inv address realms a \<longleftrightarrow>
     (case ak_session a of None \<Rightarrow> sk_isClosed (ak_base a)
      | Some s \<Rightarrow> \<not> sk_isClosed (ak_base a) \<and> as_remoteAddress s = address \<and> as_realmList s = realms)"

lemma start_inv: "ak_inv address [] (ak_start now (ak_new address timeout))"
  by (simp add: ak_inv_def ak_start_def ak_checkIP_def ak_new_def ak_resetSessionTimeout_def ak_setBase_def sk_readHeader_def sk_new_def as_new_def)

lemma setBase_inv: "ak_inv address realms a \<Longrightarrow> (sk_isClosed (ak_base a) \<Longrightarrow> sk_isClosed sk) \<Longrightarrow> ak_inv address realms (ak_setBase sk a)"
  by (auto simp: ak_inv_def ak_setBase_def ak_onSocketClosed_def split: option.splits)

lemma received_inv:
  assumes "tables_loaded rows regions defaultCountry env" and "ak_inv address realms a" and "ak_onReceivedData env now packet a = Inr a'"
  defines "g \<equiv> granted rows regions (to_upper defaultCountry) env address packet"
  shows "ak_inv address (if g = [] then realms else g) a'"
proof (cases "ak_session a")
  case None
  then show ?thesis using assms(2,3) by (auto simp: ak_onReceivedData_def ak_resetSessionTimeout_def ak_inv_def split: if_splits)
next
  case (Some s)
  let ?a = "ak_resetSessionTimeout now a"
  have a: "ak_session ?a = Some s" "ak_base ?a = ak_base a" using Some by (simp_all add: ak_resetSessionTimeout_def)
  then obtain s1 sk where h: "as_handlePacket env packet (s, ak_base a) = Inr (s1, sk)" "a' = ?a\<lparr>ak_session := Some s1, ak_base := sk\<rparr>"
    using assms(3) by (auto simp: ak_onReceivedData_def Let_def split: sum.splits)
  have "as_remoteAddress s = address" using assms(2) Some by (simp add: ak_inv_def)
  from handle_effect [OF assms(1) this h(1)] show ?thesis using assms(2) Some h(2) by (simp add: ak_inv_def g_def)
qed

lemma sk_update_closed: "sk_update sk = Inr sk' \<Longrightarrow> sk_isClosed sk \<Longrightarrow> sk_isClosed sk'"
  by (auto simp: sk_update_def sk_updateLoop.simps cq_next_def cq_empty_def split: if_splits list.splits)

lemma latency_inv: "ak_inv address realms (a\<lparr>ak_latency := x\<rparr>) = ak_inv address realms a"
  by (simp add: ak_inv_def split: option.splits)

lemma update_inv: "ak_inv address realms a \<Longrightarrow> ak_update now a = Inr a' \<Longrightarrow> ak_inv address realms a'"
proof -
  assume inv: "ak_inv address realms a" and u: "ak_update now a = Inr a'"
  then obtain sk where sk: "sk_update (ak_base a) = Inr sk" by (auto simp: ak_update_def split: sum.splits)
  have 1: "ak_inv address realms (ak_setBase sk a)" using inv sk_update_closed [OF sk] by (intro setBase_inv)
  then have "ak_inv address realms ((ak_setBase sk a)\<lparr>ak_latency := 0\<rparr>)" by (simp only: latency_inv)
  then have "ak_inv address realms (ak_closeSocket ((ak_setBase sk a)\<lparr>ak_latency := 0\<rparr>))"
    unfolding ak_closeSocket_def by (rule setBase_inv) (simp add: sk_closeSocket_def)
  then show ?thesis using 1 u sk by (auto simp: ak_update_def Let_def split: if_splits)
qed

lemma run_inv:
  assumes "tables_loaded rows regions defaultCountry env" and "ak_inv address realms a" and "ak_run env evs a = Inr a'"
  defines "grant \<equiv> granted rows regions (to_upper defaultCountry) env address"
  shows "ak_inv address (fold (\<lambda>packet realms. if grant packet = [] then realms else grant packet) (received evs) realms) a'"
  using assms(2,3)
proof (induction evs arbitrary: a realms)
  case (Cons ev evs)
  obtain a1 where a1: "ak_event env ev a = Inr a1" "ak_run env evs a1 = Inr a'" using Cons.prems(2) by (auto split: sum.splits)
  show ?case
  proof (cases ev)
    case (Received now packet)
    then have "ak_onReceivedData env now packet a = Inr a1" using a1(1) by simp
    from Cons.IH [OF received_inv [OF assms(1) Cons.prems(1) this, folded grant_def] a1(2)] Received show ?thesis by simp
  next
    case (Updated now)
    then show ?thesis using update_inv [OF Cons.prems(1)] a1 Cons.IH [OF _ a1(2)] by simp
  qed
qed simp

lemma last_granted_none: "\<forall>p\<in>set ps. grant p = [] \<Longrightarrow> last_granted grant ps = []"
  unfolding last_granted_def by (induction ps) auto


definition some_env :: auth_env where
  "some_env = \<lparr>ae_regionMappingWithGeoIP = True, ae_lookupSockaddr = (\<lambda>_. []), ae_banned = \<lparr>bm_bannedAccounts = Map.empty, bm_bannedIPs = Map.empty\<rparr>,
     ae_realms = snd (rlm_load (Some some_rows) (Some [(''en'', 1)]) (rlm_new ''EN'')),
     ae_parse = (\<lambda>bytes. Some (lc_default\<lparr>lc_version := 65793, lc_country := ''DE''\<rparr>)),
     ae_encode = (\<lambda>m. case m of RealmList rs \<Rightarrow> [of_nat (length rs)] | LogonResult r e \<Rightarrow> [])\<rparr>"

definition some_challenge :: basic_packet where
  "some_challenge = \<lparr>pk_bodySize = 1, pk_opcode = CMSG_LOGON_CHALLENGE, pk_bufferSize = 1, pk_buffer = Some [7], pk_timestamp = 0\<rparr>"

lemma some_tables: "tables_loaded some_rows [(''en'', 1)] ''EN'' some_env"
proof -
  have "fst (rlm_load (Some some_rows) (Some [(''en'', 1)]) (rlm_new ''EN''))" by code_simp
  moreover have "0 \<notin> row_version ` set some_rows" by code_simp
  ultimately show ?thesis by (simp add: tables_loaded_def some_env_def) (metis prod.collapse)
qed

lemma some_grant: "map ri_name (granted some_rows [(''en'', 1)] (to_upper ''EN'') some_env address some_challenge) = [''a'']"
  by code_simp

lemma send_succeeds:
  assumes "length (ae_encode env message) \<le> 64512"
  shows "\<exists>sk'. as_packAndSend env opcode message sk = Inr sk' \<and> sk_isClosed sk' = sk_isClosed sk"
  using pk_pack_spec [OF pk_new_ok(1) assms, of opcode] by (auto simp: as_packAndSend_def sk_queuePacket_def)

lemma challenge_answered:
  assumes "\<And>r e. length (ae_encode env (LogonResult r e)) \<le> 64512" and "pk_unpack (ae_parse env) lc_default packet = Inr message"
  shows "\<exists>s' sk'. as_handleLogonChallenge env packet (s, sk) = Inr (s', sk') \<and> sk_isClosed sk' = sk_isClosed sk"
proof -
  have "\<exists>sk'. as_reply env sk u r e = Inr (u, sk') \<and> sk_isClosed sk' = sk_isClosed sk" for u r e
    using send_succeeds [OF assms(1) [of r "if e \<noteq> ERROR_NONE then Some e else None"], of SMSG_LOGON_RESULT sk]
    by (auto simp: as_reply_def as_sendLogonResult_def)
  then show ?thesis unfolding as_handleLogonChallenge_def assms(2) by (simp add: Let_def) metis
qed


text \<open>A connection that stays silent for longer than the timeout is closed by the next update, and its session is gone.\<close>

lemma idle_connection_closed:
  assumes "ak_inv address realms a" and "ak_update now a = Inr a'" and "0 < ak_sessTimeout a" and "0 < ak_sessActiveTime a"
    and "ak_sessTimeout a < i32 (now - ak_sessActiveTime a)"
  shows "sk_isClosed (ak_base a') \<and> ak_session a' = None"
proof -
  have "sk_isClosed (ak_base a')"
    using assms(2-5) by (auto simp: ak_update_def ak_closeSocket_def ak_setBase_def ak_onSocketClosed_def sk_closeSocket_def Let_def split: sum.splits if_splits)
  then show ?thesis using update_inv [OF assms(1,2)] by (auto simp: ak_inv_def split: option.splits)
qed

text \<open>The name of the last opcode is a null pointer, which the log line for an unhandled packet streams.\<close>

lemma last_opcode_has_no_name: "lookupOpcodeName SMSG_REALM_LIST = None"
  by (simp add: lookupOpcodeName_def SMSG_REALM_LIST_def NUM_MSG_TYPES_def gOpcodeNameTable_def)

end
