(* ===== verification/Motion_Master.thy ===== *)
theory Motion_Master
  imports Prelude
begin

text \<open>
  The movement generators of a robot, \<^verbatim>\<open>MotionMaster.h\<close> and \<^verbatim>\<open>MotionMaster.cpp\<close>: two slots, the
  index of the topmost one in use, and the generators in them, which the master owns. A generator is the number of its
  allocation and what it does. \<open>mm_finished\<close> and \<open>mm_deleted\<close> record the calls of \<^verbatim>\<open>finish()\<close> and the generators
  freed, \<open>mm_resets\<close> the calls of \<^verbatim>\<open>reset()\<close>. What the update of a generator returns is an argument. A loop that does not end is \<open>None\<close>.
\<close>

section \<open>State\<close>

datatype motion_slot = MOTION_SLOT_IDLE | MOTION_SLOT_ACTIVE

fun slot_index :: "motion_slot \<Rightarrow> nat" where
  "slot_index MOTION_SLOT_IDLE = 0"
| "slot_index MOTION_SLOT_ACTIVE = 1"

definition MAX_MOTION_SLOT :: nat where "MAX_MOTION_SLOT = 2"

datatype generator_kind =
    IdleMovement
  | ExploreMovement
  | ChaseUnit nat bool
  | ChaseItemBox nat bool
  | EscapeMovement nat
  | PointMovement "int \<times> int" bool
  | SeekMovement "int \<times> int"

type_synonym generator = "nat \<times> generator_kind"

record motion_master =
  mm_motions :: "generator option list"
  mm_top :: int
  mm_allocated :: nat
  mm_finished :: "nat list"
  mm_deleted :: "nat list"
  mm_resets :: "nat list"

section \<open>Operations\<close>

definition mm_new :: motion_master where
  "mm_new = \<lparr>mm_motions = replicate MAX_MOTION_SLOT None, mm_top = -1, mm_allocated = 0, mm_finished = [], mm_deleted = [], mm_resets = []\<rparr>"

definition mm_empty :: "motion_master \<Rightarrow> bool" where "mm_empty mm = (mm_top mm < 0)"
definition mm_size :: "motion_master \<Rightarrow> int" where "mm_size mm = mm_top mm + 1"

definition mm_getTop :: "motion_master \<Rightarrow> generator option" where
  "mm_getTop mm = (if mm_empty mm then None else mm_motions mm ! nat (mm_top mm))"

definition mm_setMotion :: "nat \<Rightarrow> generator option \<Rightarrow> motion_master \<Rightarrow> motion_master" where
  "mm_setMotion i g mm = mm\<lparr>mm_motions := (mm_motions mm)[i := g]\<rparr>"

definition mm_finish :: "generator \<Rightarrow> motion_master \<Rightarrow> motion_master" where
  "mm_finish g mm = mm\<lparr>mm_finished := mm_finished mm @ [fst g]\<rparr>"

definition mm_directDelete :: "generator \<Rightarrow> motion_master \<Rightarrow> motion_master" where
  "mm_directDelete g mm = (let mm1 = mm_finish g mm in mm1\<lparr>mm_deleted := mm_deleted mm1 @ [fst g]\<rparr>)"

function mm_sink :: "motion_master \<Rightarrow> motion_master" where
  \<comment> \<open>\<^verbatim>\<open>while (!empty() && !top()) --m_top\<close>\<close>
  "mm_sink mm = (if \<not> mm_empty mm \<and> mm_getTop mm = None then mm_sink (mm\<lparr>mm_top := mm_top mm - 1\<rparr>) else mm)"
  by pat_completeness auto
termination by (relation "measure (\<lambda>mm. nat (mm_top mm + 1))") (auto simp: mm_empty_def)

declare mm_sink.simps [simp del]

definition mm_pop :: "motion_master \<Rightarrow> generator option \<times> motion_master" where
  "mm_pop mm =
     (if mm_empty mm then (None, mm)
      else (mm_motions mm ! nat (mm_top mm), mm_sink (mm_setMotion (nat (mm_top mm)) None mm)))"

lemma mm_sink_top: "mm_top (mm_sink mm) \<le> mm_top mm"
  by (induction mm rule: mm_sink.induct) (subst mm_sink.simps, auto)

lemma mm_sink_None: "\<not> mm_empty mm \<Longrightarrow> mm_getTop mm = None \<Longrightarrow> mm_top (mm_sink mm) < mm_top mm"
  using mm_sink_top [of "mm\<lparr>mm_top := mm_top mm - 1\<rparr>"] by (subst mm_sink.simps) simp

lemma mm_pop_less:
  assumes "\<not> mm_empty mm" and "nat (mm_top mm) < length (mm_motions mm)"
  shows "mm_top (snd (mm_pop mm)) < mm_top mm"
  using mm_sink_None [of "mm_setMotion (nat (mm_top mm)) None mm"] assms
  by (simp add: mm_pop_def mm_setMotion_def mm_empty_def mm_getTop_def)

fun mm_clearLoop :: "nat \<Rightarrow> motion_master \<Rightarrow> motion_master" where
  "mm_clearLoop 0 mm = mm"
| "mm_clearLoop (Suc n) mm = (case mm_pop mm of (None, mm1) \<Rightarrow> mm1 | (Some cur, mm1) \<Rightarrow> mm_clearLoop n (mm_directDelete cur mm1))"

definition mm_clear :: "motion_master \<Rightarrow> motion_master" where
  \<comment> \<open>every turn but the last empties a slot, so that one turn more than there are slots is enough\<close>
  "mm_clear mm = mm_clearLoop (MAX_MOTION_SLOT + 1) mm"

partial_function (option) mm_removeLoop :: "motion_master \<Rightarrow> motion_master option" where
  \<comment> \<open>\<^verbatim>\<open>while (!top()) --m_top\<close>, without a test for the empty stack\<close>
  "mm_removeLoop mm = (if mm_getTop mm = None then mm_removeLoop (mm\<lparr>mm_top := mm_top mm - 1\<rparr>) else Some mm)"

definition mm_remove :: "motion_slot \<Rightarrow> motion_master \<Rightarrow> motion_master option" where
  "mm_remove slot mm =
     (if mm_empty mm then Some mm
      else (case mm_motions mm ! slot_index slot of
              None \<Rightarrow> Some mm
            | Some cur \<Rightarrow> mm_removeLoop (mm_directDelete cur (mm_setMotion (slot_index slot) None mm))))"

definition mm_reset :: "motion_slot \<Rightarrow> motion_master \<Rightarrow> motion_master" where
  "mm_reset slot mm =
     (case mm_motions mm ! slot_index slot of None \<Rightarrow> mm | Some m \<Rightarrow> mm\<lparr>mm_resets := mm_resets mm @ [fst m]\<rparr>)"

definition mm_updateMotion :: "bool \<Rightarrow> motion_master \<Rightarrow> motion_master" where
  \<comment> \<open>\<open>goesOn\<close> is what \<^verbatim>\<open>update\<close> of the topmost generator returns\<close>
  "mm_updateMotion goesOn mm =
     (case mm_getTop mm of
        None \<Rightarrow> mm
      | Some cur \<Rightarrow> if goesOn then mm else mm_directDelete cur (snd (mm_pop mm)))"

definition mm_mutate :: "generator \<Rightarrow> motion_slot \<Rightarrow> motion_master \<Rightarrow> motion_master" where
  "mm_mutate m slot mm =
     (let mm1 =
        (case mm_motions mm ! slot_index slot of
           Some cur \<Rightarrow> mm_directDelete cur (mm_setMotion (slot_index slot) None mm)
         | None \<Rightarrow>
             if mm_top mm < int (slot_index slot)
             then (if \<not> mm_empty mm
                   then (case mm_motions mm ! nat (mm_top mm) of Some g \<Rightarrow> mm_finish g mm | None \<Rightarrow> mm) else mm)\<lparr>mm_top := int (slot_index slot)\<rparr>
             else mm)
      in mm_setMotion (slot_index slot) (Some m) mm1)"

definition mm_allocate :: "generator_kind \<Rightarrow> motion_master \<Rightarrow> generator \<times> motion_master" where
  "mm_allocate kind mm = ((mm_allocated mm, kind), mm\<lparr>mm_allocated := mm_allocated mm + 1\<rparr>)"

definition mm_moveActive :: "generator_kind \<Rightarrow> motion_master \<Rightarrow> motion_master" where
  "mm_moveActive kind mm = (let (m, mm1) = mm_allocate kind mm in mm_mutate m MOTION_SLOT_ACTIVE mm1)"

definition mm_moveExplore :: "motion_master \<Rightarrow> motion_master" where "mm_moveExplore mm = mm_moveActive ExploreMovement mm"
definition mm_moveChaseUnit :: "nat \<Rightarrow> bool \<Rightarrow> motion_master \<Rightarrow> motion_master" where
  "mm_moveChaseUnit target isSmart mm = mm_moveActive (ChaseUnit target isSmart) mm"
definition mm_moveChaseItemBox :: "nat \<Rightarrow> bool \<Rightarrow> motion_master \<Rightarrow> motion_master" where
  "mm_moveChaseItemBox target isSmart mm = mm_moveActive (ChaseItemBox target isSmart) mm"
definition mm_moveEscape :: "nat \<Rightarrow> motion_master \<Rightarrow> motion_master" where "mm_moveEscape target mm = mm_moveActive (EscapeMovement target) mm"
definition mm_movePoint :: "int \<times> int \<Rightarrow> bool \<Rightarrow> motion_master \<Rightarrow> motion_master" where
  "mm_movePoint point isBypassEnemy mm = mm_moveActive (PointMovement point isBypassEnemy) mm"
definition mm_moveSeek :: "int \<times> int \<Rightarrow> motion_master \<Rightarrow> motion_master" where
  "mm_moveSeek hidingSpot mm = mm_moveActive (SeekMovement hidingSpot) mm"

fun mm_idleLoop :: "nat \<Rightarrow> motion_master \<Rightarrow> motion_master" where
  "mm_idleLoop 0 mm = mm"
| "mm_idleLoop (Suc n) mm =
     (if mm_size mm > 1 then (case mm_pop mm of (None, mm1) \<Rightarrow> mm_idleLoop n mm1 | (Some cur, mm1) \<Rightarrow> mm_idleLoop n (mm_directDelete cur mm1)) else mm)"

definition mm_moveIdle :: "motion_master \<Rightarrow> motion_master" where
  "mm_moveIdle mm =
     (let mm1 = (case mm_motions mm ! slot_index MOTION_SLOT_IDLE of
                   Some m \<Rightarrow> mm
                 | None \<Rightarrow> let (m, mm') = mm_allocate IdleMovement mm in mm_mutate m MOTION_SLOT_IDLE mm')
      in mm_idleLoop MAX_MOTION_SLOT mm1)"

section \<open>Ownership of the generators\<close>

definition mm_live :: "motion_master \<Rightarrow> nat list" where
  "mm_live mm = concat (map (\<lambda>g. case g of None \<Rightarrow> [] | Some m \<Rightarrow> [fst m]) (mm_motions mm))"

definition mm_ok :: "motion_master \<Rightarrow> bool" where
  \<comment> \<open>the top is the highest slot in use; every generator allocated is in one slot or was freed once, after it was finished\<close>
  "mm_ok mm \<longleftrightarrow> length (mm_motions mm) = 2
     \<and> mm_top mm = (if mm_motions mm ! 1 \<noteq> None then 1 else if mm_motions mm ! 0 \<noteq> None then 0 else - 1)
     \<and> distinct (mm_live mm @ mm_deleted mm) \<and> set (mm_live mm @ mm_deleted mm) = {..<mm_allocated mm}
     \<and> set (mm_deleted mm) \<subseteq> set (mm_finished mm)"

lemma mm_okE:
  assumes "mm_ok mm"
  obtains a b where "mm_motions mm = [a, b]" "mm_top mm = (if b \<noteq> None then 1 else if a \<noteq> None then 0 else - 1)"
proof -
  have "mm_motions mm = [mm_motions mm ! 0, mm_motions mm ! 1]"
    using assms by (auto simp: mm_ok_def intro!: nth_equalityI simp: less_Suc_eq numeral_2_eq_2)
  then show thesis using that [of "mm_motions mm ! 0" "mm_motions mm ! 1"] assms by (simp add: mm_ok_def)
qed

lemma mm_sink_stop: "mm_empty mm \<or> mm_getTop mm \<noteq> None \<Longrightarrow> mm_sink mm = mm"
  by (subst mm_sink.simps) auto

lemma mm_sink_step: "\<not> mm_empty mm \<Longrightarrow> mm_getTop mm = None \<Longrightarrow> mm_sink mm = mm_sink (mm\<lparr>mm_top := mm_top mm - 1\<rparr>)"
  by (subst mm_sink.simps) auto

lemma mm_sink_two:
  assumes "mm_motions mm = [a, b]" and "- 1 \<le> mm_top mm" and "mm_top mm \<le> 1"
  shows "mm_sink mm = mm\<lparr>mm_top := (if mm_top mm = 1 \<and> b \<noteq> None then 1 else if 0 \<le> mm_top mm \<and> a \<noteq> None then 0 else - 1)\<rparr>"
proof -
  have low: "mm_sink m = m" if "mm_top m = - 1" for m using that by (intro mm_sink_stop) (simp add: mm_empty_def)
  have mid: "mm_sink m = m\<lparr>mm_top := (if a \<noteq> None then 0 else - 1)\<rparr>" if "mm_top m = 0" "mm_motions m = [a, b]" for m
  proof (cases a)
    case None
    then show ?thesis using that low by (subst mm_sink_step) (simp_all add: mm_empty_def mm_getTop_def)
  next
    case (Some g)
    then show ?thesis using that by (subst mm_sink_stop) (simp_all add: mm_empty_def mm_getTop_def)
  qed
  consider "mm_top mm = - 1" | "mm_top mm = 0" | "mm_top mm = 1" using assms(2,3) by linarith
  then show ?thesis
  proof cases
    case 1
    then show ?thesis using low by simp
  next
    case 2
    then show ?thesis using mid assms(1) by simp
  next
    case 3
    show ?thesis
    proof (cases b)
      case None
      then show ?thesis using 3 mid [of "mm\<lparr>mm_top := 0\<rparr>"] assms(1) by (subst mm_sink_step) (simp_all add: mm_empty_def mm_getTop_def)
    next
      case (Some g)
      then show ?thesis using 3 assms(1) by (subst mm_sink_stop) (simp_all add: mm_empty_def mm_getTop_def)
    qed
  qed
qed

lemma mm_pop_two:
  assumes "mm_motions mm = [a, b]" and "mm_top mm = (if b \<noteq> None then 1 else if a \<noteq> None then 0 else - 1)"
  shows "mm_pop mm = (if b \<noteq> None then (b, mm\<lparr>mm_motions := [a, None], mm_top := (if a \<noteq> None then 0 else - 1)\<rparr>)
    else if a \<noteq> None then (a, mm\<lparr>mm_motions := [None, None], mm_top := - 1\<rparr>) else (None, mm))"
  using assms mm_sink_two [of "mm_setMotion (nat (mm_top mm)) None mm"]
  by (cases a; cases b; cases mm; simp add: mm_pop_def mm_empty_def mm_setMotion_def)

text \<open>Freeing the topmost generator, which pops it, keeps the books.\<close>

lemma mm_popDelete_ok:
  assumes "mm_ok mm" and "mm_pop mm = (Some g, mm1)"
  shows "mm_ok (mm_directDelete g mm1)"
proof -
  obtain a b where ab: "mm_motions mm = [a, b]" "mm_top mm = (if b \<noteq> None then 1 else if a \<noteq> None then 0 else - 1)"
    using assms(1) by (rule mm_okE)
  have p: "mm_pop mm = (if b \<noteq> None then (b, mm\<lparr>mm_motions := [a, None], mm_top := (if a \<noteq> None then 0 else - 1)\<rparr>)
    else if a \<noteq> None then (a, mm\<lparr>mm_motions := [None, None], mm_top := - 1\<rparr>) else (None, mm))" by (rule mm_pop_two [OF ab])
  show ?thesis
    using assms p ab unfolding mm_ok_def mm_live_def mm_directDelete_def mm_finish_def Let_def
    by (cases a; cases b; auto)
qed

lemma mm_pop_None:
  assumes "mm_ok mm" and "mm_pop mm = (None, mm1)"
  shows "mm1 = mm \<and> mm_motions mm = [None, None] \<and> mm_top mm = - 1"
proof -
  obtain a b where ab: "mm_motions mm = [a, b]" "mm_top mm = (if b \<noteq> None then 1 else if a \<noteq> None then 0 else - 1)"
    using assms(1) by (rule mm_okE)
  show ?thesis using assms(2) mm_pop_two [OF ab] ab by (cases a; cases b; simp)
qed

lemma mm_clearLoop_ok: "mm_ok mm \<Longrightarrow> mm_ok (mm_clearLoop n mm)"
proof (induction n arbitrary: mm)
  case (Suc n)
  obtain g mm1 where p: "mm_pop mm = (g, mm1)" by (cases "mm_pop mm")
  show ?case using mm_pop_None [OF Suc.prems] Suc mm_popDelete_ok [OF Suc.prems] p by (cases g) auto
qed simp

lemma mm_clear_empty:
  assumes "mm_ok mm"
  shows "mm_top (mm_clear mm) = - 1"
proof -
  obtain a b where ab: "mm_motions mm = [a, b]" "mm_top mm = (if b \<noteq> None then 1 else if a \<noteq> None then 0 else - 1)"
    using assms by (rule mm_okE)
  show ?thesis
    unfolding mm_clear_def MAX_MOTION_SLOT_def
    by (cases a; cases b; simp add: ab mm_pop_two [OF ab] mm_pop_two numeral_2_eq_2 mm_directDelete_def mm_finish_def Let_def)
qed

lemma mm_mutate_ok:
  assumes "mm_ok mm"
  shows "mm_ok (let (m, mm1) = mm_allocate kind mm in mm_mutate m slot mm1)"
proof -
  obtain a b where ab: "mm_motions mm = [a, b]" "mm_top mm = (if b \<noteq> None then 1 else if a \<noteq> None then 0 else - 1)"
    using assms by (rule mm_okE)
  show ?thesis
    using assms ab unfolding mm_ok_def mm_live_def mm_allocate_def mm_mutate_def mm_directDelete_def mm_finish_def mm_setMotion_def mm_empty_def Let_def
    by (cases slot; cases a; cases b; auto simp: lessThan_Suc)
qed

lemma mm_idleLoop_ok: "mm_ok mm \<Longrightarrow> mm_ok (mm_idleLoop n mm)"
proof (induction n arbitrary: mm)
  case (Suc n)
  obtain g mm1 where p: "mm_pop mm = (g, mm1)" by (cases "mm_pop mm")
  show ?case using mm_pop_None [OF Suc.prems] Suc mm_popDelete_ok [OF Suc.prems] p by (cases g) auto
qed simp

lemma mm_idleLoop_low:
  assumes "mm_ok mm" and "mm_motions mm = [a, b]"
  shows "mm_motions (mm_idleLoop MAX_MOTION_SLOT mm) = [a, None]"
proof -
  have t: "mm_top mm = (if b \<noteq> None then 1 else if a \<noteq> None then 0 else - 1)" using assms by (simp add: mm_ok_def)
  show ?thesis
    unfolding MAX_MOTION_SLOT_def
    by (cases a; cases b; simp add: assms(2) t mm_pop_two [OF assms(2) t] numeral_2_eq_2 mm_size_def mm_directDelete_def mm_finish_def Let_def)
qed

lemma mm_mutate_motions: "mm_motions (mm_mutate m slot mm) = (mm_motions mm)[slot_index slot := Some m]"
  by (simp add: mm_mutate_def mm_setMotion_def mm_directDelete_def mm_finish_def Let_def split: option.splits)

lemma mm_moveIdle_ok:
  assumes "mm_ok mm"
  shows "mm_ok (mm_moveIdle mm)" and "\<exists>m. mm_motions (mm_moveIdle mm) = [Some m, None] \<and> (mm_motions mm ! 0 \<noteq> None \<longrightarrow> mm_motions mm ! 0 = Some m)"
proof -
  obtain a b where ab: "mm_motions mm = [a, b]" by (rule mm_okE [OF assms])
  let ?mm = "case a of Some m \<Rightarrow> mm | None \<Rightarrow> let (m, mm') = mm_allocate IdleMovement mm in mm_mutate m MOTION_SLOT_IDLE mm'"
  have ok: "mm_ok ?mm" using assms mm_mutate_ok [OF assms] by (cases a) simp_all
  obtain m where m: "mm_motions ?mm = [Some m, b]" "a \<noteq> None \<longrightarrow> a = Some m"
    using ab by (cases a) (auto simp: mm_allocate_def mm_mutate_motions Let_def)
  have e: "mm_moveIdle mm = mm_idleLoop MAX_MOTION_SLOT ?mm" using ab by (simp add: mm_moveIdle_def)
  show "mm_ok (mm_moveIdle mm)" unfolding e by (rule mm_idleLoop_ok [OF ok])
  show "\<exists>m. mm_motions (mm_moveIdle mm) = [Some m, None] \<and> (mm_motions mm ! 0 \<noteq> None \<longrightarrow> mm_motions mm ! 0 = Some m)"
    using mm_idleLoop_low [OF ok m(1)] m(2) ab unfolding e by auto
qed

lemma mm_updateMotion_ok:
  assumes "mm_ok mm"
  shows "mm_ok (mm_updateMotion goesOn mm)"
proof (cases "mm_getTop mm")
  case (Some g)
  obtain a b where ab: "mm_motions mm = [a, b]" "mm_top mm = (if b \<noteq> None then 1 else if a \<noteq> None then 0 else - 1)"
    by (rule mm_okE [OF assms])
  have "fst (mm_pop mm) = Some g" using Some ab by (auto simp: mm_pop_def mm_getTop_def split: if_splits)
  then have "mm_pop mm = (Some g, snd (mm_pop mm))" by (metis prod.collapse)
  from mm_popDelete_ok [OF assms this] show ?thesis using assms Some by (simp add: mm_updateMotion_def)
qed (simp add: mm_updateMotion_def assms)

section \<open>Removing a generator\<close>

lemma mm_removeLoop_result:
  assumes "mm_removeLoop mm = Some r"
  shows "\<exists>k. r = mm\<lparr>mm_top := mm_top mm - int k\<rparr> \<and> mm_getTop r \<noteq> None"
  using assms
proof (induction rule: mm_removeLoop.raw_induct [rotated, consumes 1])
  case (1 loop mm r)
  show ?case
  proof (cases "mm_getTop mm")
    case None
    then have l: "loop (mm\<lparr>mm_top := mm_top mm - 1\<rparr>) = Some r" using 1(2) by simp
    obtain k where k: "r = (mm\<lparr>mm_top := mm_top mm - 1\<rparr>)\<lparr>mm_top := mm_top (mm\<lparr>mm_top := mm_top mm - 1\<rparr>) - int k\<rparr>" "mm_getTop r \<noteq> None"
      using 1(1) [OF l] by blast
    have "r = mm\<lparr>mm_top := mm_top mm - int (Suc k)\<rparr>" using k(1) by simp
    then show ?thesis using k(2) by blast
  next
    case (Some g)
    then show ?thesis using 1(2) by (intro exI [of _ 0]) auto
  qed
qed

lemma mm_getTop_two: "mm_motions mm = [None, None] \<Longrightarrow> mm_top mm \<le> 1 \<Longrightarrow> mm_getTop mm = None"
proof -
  assume a: "mm_motions mm = [None, None]" "mm_top mm \<le> 1"
  show ?thesis
  proof (cases "mm_top mm < 0")
    case False
    then have "mm_top mm = 0 \<or> mm_top mm = 1" using a(2) by linarith
    then show ?thesis using a(1) by (auto simp: mm_getTop_def mm_empty_def)
  qed (simp add: mm_getTop_def mm_empty_def)
qed

lemma mm_removeLoop_diverges:
  assumes "mm_motions mm = [None, None]" and "mm_top mm \<le> 1"
  shows "mm_removeLoop mm = None"
proof (rule ccontr)
  assume "mm_removeLoop mm \<noteq> None"
  then obtain r where "mm_removeLoop mm = Some r" by blast
  from mm_removeLoop_result [OF this] obtain k where "mm_getTop (mm\<lparr>mm_top := mm_top mm - int k\<rparr>) \<noteq> None" by auto
  then show False using mm_getTop_two [of "mm\<lparr>mm_top := mm_top mm - int k\<rparr>"] assms by simp
qed

lemma mm_removeLoop_stop: "mm_getTop mm \<noteq> None \<Longrightarrow> mm_removeLoop mm = Some mm"
  by (subst mm_removeLoop.simps) auto

lemma mm_removeLoop_step: "mm_getTop mm = None \<Longrightarrow> mm_removeLoop mm = mm_removeLoop (mm\<lparr>mm_top := mm_top mm - 1\<rparr>)"
  by (subst mm_removeLoop.simps) auto

lemma mm_remove_cases:
  assumes "mm_ok mm" and "mm_motions mm = [a, b]"
  shows "mm_remove slot mm =
    (case slot of
       MOTION_SLOT_IDLE \<Rightarrow>
         (case a of None \<Rightarrow> Some mm
          | Some g \<Rightarrow> if b = None then None else Some (mm_directDelete g (mm\<lparr>mm_motions := [None, b]\<rparr>)))
     | MOTION_SLOT_ACTIVE \<Rightarrow>
         (case b of None \<Rightarrow> Some mm
          | Some g \<Rightarrow> if a = None then None else Some (mm_directDelete g (mm\<lparr>mm_motions := [a, None], mm_top := 0\<rparr>))))"
proof -
  have t: "mm_top mm = (if b \<noteq> None then 1 else if a \<noteq> None then 0 else - 1)" using assms by (simp add: mm_ok_def)
  let ?d = "\<lambda>g i. mm_directDelete g (mm_setMotion i None mm)"
  have m: "mm_motions (?d g i) = [a, b][i := None]" "mm_top (?d g i) = mm_top mm" for g i
    by (simp_all add: mm_directDelete_def mm_finish_def mm_setMotion_def Let_def assms(2))
  show ?thesis
  proof (cases slot)
    case MOTION_SLOT_IDLE
    then show ?thesis
      using t m(1) [of _ 0] m(2) [of _ 0] mm_removeLoop_diverges [of "?d _ 0"] mm_removeLoop_stop [of "?d _ 0"]
      by (cases a; cases b)
        (auto simp: mm_remove_def assms(2) mm_empty_def mm_getTop_def, auto simp: mm_setMotion_def assms(2))
  next
    case MOTION_SLOT_ACTIVE
    show ?thesis
    proof (cases "a = None \<or> b = None")
      case True
      then show ?thesis using MOTION_SLOT_ACTIVE t m(1) [of _ 1] m(2) [of _ 1] mm_removeLoop_diverges [of "?d _ 1"]
        by (cases a; cases b) (auto simp: mm_remove_def assms(2) mm_empty_def mm_getTop_def)
    next
      case False
      then obtain g h where g: "a = Some h" "b = Some g" by auto
      let ?r = "mm_directDelete g (mm\<lparr>mm_motions := [a, None], mm_top := 0\<rparr>)"
      have "(?d g 1)\<lparr>mm_top := 0\<rparr> = ?r" by (simp add: mm_directDelete_def mm_finish_def mm_setMotion_def Let_def assms(2))
      moreover have "mm_removeLoop (?d g 1) = mm_removeLoop ((?d g 1)\<lparr>mm_top := 0\<rparr>)"
        using m(1) [of g 1] m(2) [of g 1] t g by (subst mm_removeLoop_step) (simp_all add: mm_getTop_def mm_empty_def)
      moreover have "mm_removeLoop ?r = Some ?r"
        using g by (intro mm_removeLoop_stop) (simp add: mm_getTop_def mm_empty_def mm_directDelete_def mm_finish_def Let_def)
      ultimately have "mm_removeLoop (?d g 1) = Some ?r" by simp
      then show ?thesis using MOTION_SLOT_ACTIVE g t by (simp add: mm_remove_def assms(2) mm_empty_def)
    qed
  qed
qed

lemma mm_remove_ok:
  assumes "mm_ok mm" and "mm_remove slot mm = Some mm1"
  shows "mm_ok mm1"
proof -
  obtain a b where ab: "mm_motions mm = [a, b]" "mm_top mm = (if b \<noteq> None then 1 else if a \<noteq> None then 0 else - 1)"
    using assms(1) by (rule mm_okE)
  show ?thesis
    using assms ab mm_remove_cases [OF assms(1) ab(1), of slot]
    unfolding mm_ok_def mm_live_def mm_directDelete_def mm_finish_def Let_def
    by (cases slot; cases a; cases b; auto)
qed

lemma mm_remove_None:
  assumes "mm_ok mm"
  shows "mm_remove slot mm = None \<longleftrightarrow> mm_motions mm ! slot_index slot \<noteq> None \<and> length (mm_live mm) = 1"
proof -
  obtain a b where ab: "mm_motions mm = [a, b]" using assms by (rule mm_okE)
  show ?thesis using mm_remove_cases [OF assms ab, of slot] ab
    by (cases slot; cases a; cases b; simp add: mm_live_def)
qed

lemma mm_reset_ok: "mm_ok mm \<Longrightarrow> mm_ok (mm_reset slot mm)"
  by (simp add: mm_reset_def mm_ok_def mm_live_def split: option.splits)

section \<open>Sequences of calls\<close>

datatype motion_op =
    MClear
  | MRemove motion_slot
  | MReset motion_slot
  | MUpdate bool
  | MIdle
  | MExplore
  | MChaseUnit nat bool
  | MChaseItemBox nat bool
  | MEscape nat
  | MPoint "int \<times> int" bool
  | MSeek "int \<times> int"

fun mm_apply :: "motion_op \<Rightarrow> motion_master \<Rightarrow> motion_master option" where
  "mm_apply MClear mm = Some (mm_clear mm)"
| "mm_apply (MRemove slot) mm = mm_remove slot mm"
| "mm_apply (MReset slot) mm = Some (mm_reset slot mm)"
| "mm_apply (MUpdate goesOn) mm = Some (mm_updateMotion goesOn mm)"
| "mm_apply MIdle mm = Some (mm_moveIdle mm)"
| "mm_apply MExplore mm = Some (mm_moveExplore mm)"
| "mm_apply (MChaseUnit target isSmart) mm = Some (mm_moveChaseUnit target isSmart mm)"
| "mm_apply (MChaseItemBox target isSmart) mm = Some (mm_moveChaseItemBox target isSmart mm)"
| "mm_apply (MEscape target) mm = Some (mm_moveEscape target mm)"
| "mm_apply (MPoint p isBypassEnemy) mm = Some (mm_movePoint p isBypassEnemy mm)"
| "mm_apply (MSeek p) mm = Some (mm_moveSeek p mm)"

fun mm_run :: "motion_op list \<Rightarrow> motion_master \<Rightarrow> motion_master option" where
  "mm_run [] mm = Some mm"
| "mm_run (c # cs) mm = (case mm_apply c mm of None \<Rightarrow> None | Some mm1 \<Rightarrow> mm_run cs mm1)"

lemmas mm_move_defs = mm_moveExplore_def mm_moveChaseUnit_def mm_moveChaseItemBox_def mm_moveEscape_def
  mm_movePoint_def mm_moveSeek_def

lemma mm_moveActive_ok: "mm_ok mm \<Longrightarrow> mm_ok (mm_moveActive kind mm)"
  unfolding mm_moveActive_def by (rule mm_mutate_ok)

lemma mm_clear_ok: "mm_ok mm \<Longrightarrow> mm_ok (mm_clear mm)"
  unfolding mm_clear_def by (rule mm_clearLoop_ok)

lemma mm_apply_ok: "mm_ok mm \<Longrightarrow> mm_apply c mm = Some mm1 \<Longrightarrow> mm_ok mm1"
  by (cases c)
    (auto simp: mm_moveActive_ok mm_moveIdle_ok mm_updateMotion_ok mm_reset_ok mm_clear_ok mm_remove_ok mm_move_defs)

lemma mm_run_ok: "mm_ok mm \<Longrightarrow> mm_run cs mm = Some mm1 \<Longrightarrow> mm_ok mm1"
  by (induction cs arbitrary: mm) (auto split: option.splits dest: mm_apply_ok)

lemma mm_new_ok: "mm_ok mm_new"
  by (simp add: mm_ok_def mm_new_def mm_live_def MAX_MOTION_SLOT_def numeral_2_eq_2)

lemma mm_clear_all:
  assumes "mm_ok mm"
  shows "mm_live (mm_clear mm) = []"
proof -
  have ok: "mm_ok (mm_clear mm)" by (rule mm_clear_ok [OF assms])
  obtain a b where "mm_motions (mm_clear mm) = [a, b]" "mm_top (mm_clear mm) = (if b \<noteq> None then 1 else if a \<noteq> None then 0 else - 1)"
    using ok by (rule mm_okE)
  then show ?thesis using mm_clear_empty [OF assms] by (cases a; cases b; simp add: mm_live_def)
qed

lemma mm_frame [simp]:
  "mm_allocated (mm_sink mm) = mm_allocated mm"
  "mm_allocated (snd (mm_pop mm)) = mm_allocated mm"
  "mm_allocated (mm_directDelete g mm) = mm_allocated mm"
proof -
  show s: "mm_allocated (mm_sink mm) = mm_allocated mm" for mm
    by (induction mm rule: mm_sink.induct) (subst mm_sink.simps, auto)
  show "mm_allocated (snd (mm_pop mm)) = mm_allocated mm" by (simp add: mm_pop_def mm_setMotion_def s)
  show "mm_allocated (mm_directDelete g mm) = mm_allocated mm" by (simp add: mm_directDelete_def mm_finish_def Let_def)
qed

lemma mm_clearLoop_allocated: "mm_allocated (mm_clearLoop n mm) = mm_allocated mm"
proof (induction n arbitrary: mm)
  case (Suc n)
  then show ?case using mm_frame(2) [of mm] by (cases "mm_pop mm") (auto split: option.splits)
qed simp

section \<open>Properties\<close>

text \<open>
  C29: Whatever calls are made of a new master, each movement generator it was given is held in one slot or was
  freed, never both and never twice, and none was freed before it was finished; the top is the highest slot in
  use. The destructor, which clears the master, then frees every generator ever allocated, once; \<open>moveIdle\<close> leaves
  one generator, in the idle slot, the one that was there if there was one.
\<close>

theorem motion_generators_freed_once:
  assumes "mm_run cs mm_new = Some mm"
  shows "mm_ok mm \<and> mm_live (mm_clear mm) = [] \<and> mm_top (mm_clear mm) = - 1
    \<and> distinct (mm_deleted (mm_clear mm)) \<and> set (mm_deleted (mm_clear mm)) = {..<mm_allocated mm}
    \<and> set (mm_deleted (mm_clear mm)) \<subseteq> set (mm_finished (mm_clear mm))
    \<and> (\<exists>m. mm_motions (mm_moveIdle mm) = [Some m, None] \<and> mm_motions mm ! 0 \<in> {None, Some m})"
proof -
  have ok: "mm_ok mm" using mm_run_ok [OF mm_new_ok assms] .
  have "mm_ok (mm_clear mm)" by (rule mm_clear_ok [OF ok])
  moreover have "mm_allocated (mm_clear mm) = mm_allocated mm" unfolding mm_clear_def by (rule mm_clearLoop_allocated)
  ultimately show ?thesis
    using ok mm_clear_all [OF ok] mm_clear_empty [OF ok] mm_moveIdle_ok(2) [OF ok] unfolding mm_ok_def by auto
qed

theorem motion_generators_freed_once_witness:
  "\<exists>mm. mm_run [MIdle, MExplore, MChaseUnit 7 True, MUpdate False] mm_new = Some mm \<and> mm_allocated mm = 3
     \<and> set (mm_deleted (mm_clear mm)) = {..<3}"
proof -
  have "mm_run [MIdle, MExplore, MChaseUnit 7 True, MUpdate False] mm_new \<noteq> None" by simp
  then obtain mm where mm: "mm_run [MIdle, MExplore, MChaseUnit 7 True, MUpdate False] mm_new = Some mm" by blast
  have "map_option mm_allocated (mm_run [MIdle, MExplore, MChaseUnit 7 True, MUpdate False] mm_new) = Some 3" by code_simp
  then show ?thesis using motion_generators_freed_once [OF mm] mm by simp
qed

text \<open>
  \<open>remove\<close> returns unless the generator it removes is the only one, and then it does not: having emptied the
  slot it lowers the top for as long as there is no generator there, and below the bottom there never is one. Every
  other call returns.
\<close>

theorem remove_of_last_generator_diverges:
  assumes "mm_ok mm"
  shows "(mm_apply c mm = None) = (case c of MRemove slot \<Rightarrow> mm_motions mm ! slot_index slot \<noteq> None \<and> length (mm_live mm) = 1 | _ \<Rightarrow> False)"
  using mm_remove_None [OF assms] by (cases c) simp_all

theorem remove_of_last_generator_diverges_witness:
  "mm_ok (mm_moveIdle mm_new) \<and> mm_apply (MRemove MOTION_SLOT_IDLE) (mm_moveIdle mm_new) = None"
proof -
  have ok: "mm_ok (mm_moveIdle mm_new)" by (rule mm_moveIdle_ok(1) [OF mm_new_ok])
  obtain m where "mm_motions (mm_moveIdle mm_new) = [Some m, None]" using mm_moveIdle_ok(2) [OF mm_new_ok] by blast
  then show ?thesis using ok remove_of_last_generator_diverges [OF ok, of "MRemove MOTION_SLOT_IDLE"] by (simp add: mm_live_def)
qed

end
