(* ===== verification/Base64.thy ===== *)
theory Base64
  imports Prelude
begin

unbundle bit_operations_syntax

text \<open>
  The base64 coder of the map files, \<^verbatim>\<open>base64.cpp\<close>: the tables, the loops of the encoder and of the decoder and the
  two functions that allocate the output. The accumulator \<open>bits\<close> stays below \<open>2 ^ 26\<close> and is a natural number; bytes are
  words, and storing in one cuts off. What \<^verbatim>\<open>malloc\<close> returns is an argument, the buffer or the null pointer.
\<close>

section \<open>Tables\<close>

definition alphabet :: "u8 list" where
  \<comment> \<open>with the zero that ends a string literal, which \<^verbatim>\<open>sizeof\<close> counts\<close>
  "alphabet = map of_char ''ABCDEFGHIJKLMNOPQRSTUVWXYZabcdefghijklmnopqrstuvwxyz0123456789+/'' @ [0]"

definition b64_inalphabet :: "bool list" where
  "b64_inalphabet = foldr (\<lambda>i t. t[unat (alphabet ! i) := True]) [0..<length alphabet] (replicate 256 False)"

definition b64_decoder :: "nat list" where
  "b64_decoder = foldr (\<lambda>i t. t[unat (alphabet ! i) := i]) [0..<length alphabet] (replicate 256 0)"

section \<open>Decoder\<close>

fun b64_decodeLoop :: "u8 list \<Rightarrow> u8 \<Rightarrow> nat \<Rightarrow> nat \<Rightarrow> nat \<Rightarrow> u8 list \<Rightarrow> u8 \<times> nat \<times> nat \<times> nat \<times> u8 list" where
  "b64_decodeLoop [] c input_idx bits char_count output = (c, input_idx, bits, char_count, output)"
| "b64_decodeLoop (c # input) c0 input_idx bits char_count output =
     (if c = 61 then (c, input_idx, bits, char_count, output)
      else if \<not> b64_inalphabet ! unat c then b64_decodeLoop input c (input_idx + 1) bits char_count output
      else
        (let bits = bits + b64_decoder ! unat c; char_count = char_count + 1
         in if char_count = 4
            then b64_decodeLoop input c (input_idx + 1) 0 0
                   (output @ [of_nat (drop_bit 16 bits), of_nat (drop_bit 8 bits AND 255), of_nat (bits AND 255)])
            else b64_decodeLoop input c (input_idx + 1) (push_bit 6 bits) char_count output))"

definition b64_decodeEnd :: "nat \<Rightarrow> u8 \<times> nat \<times> nat \<times> nat \<times> u8 list \<Rightarrow> nat \<times> u8 list" where
  \<comment> \<open>the number of errors and the output\<close>
  "b64_decodeEnd input_len r =
     (case r of (c, input_idx, bits, char_count, output) \<Rightarrow>
        if c = 61 then
          (if char_count = 1 then (1, output)
           else if char_count = 2 then (0, output @ [of_nat (drop_bit 10 bits)])
           else if char_count = 3 then (0, output @ [of_nat (drop_bit 16 bits), of_nat (drop_bit 8 bits AND 255)])
           else (0, output))
        else if input_idx < input_len then (if char_count \<noteq> 0 then (1, output) else (0, output))
        else (0, output))"

definition b64_decode :: "u8 list \<Rightarrow> nat \<times> u8 list" where
  \<comment> \<open>\<^verbatim>\<open>_base64Decode\<close>\<close>
  "b64_decode input = b64_decodeEnd (length input) (b64_decodeLoop input 0 0 0 0 [])"

definition b64_decodeSize :: "nat \<Rightarrow> nat" where "b64_decodeSize inLength = inLength div 4 * 3 + 1"

definition base64Decode :: "bool \<Rightarrow> u8 list \<Rightarrow> nat \<times> u8 list option" where
  \<comment> \<open>the length returned and \<open>*out\<close>\<close>
  "base64Decode mallocOk input =
     (if mallocOk then (case b64_decode input of (ret, output) \<Rightarrow> if ret > 0 then (0, None) else (length output, Some output))
      else (0, None))"

section \<open>Encoder\<close>

fun b64_encodeLoop :: "u8 list \<Rightarrow> nat \<Rightarrow> nat \<Rightarrow> u8 list \<Rightarrow> nat \<times> nat \<times> u8 list" where
  "b64_encodeLoop [] bits char_count output = (bits, char_count, output)"
| "b64_encodeLoop (x # input) bits char_count output =
     (let bits = bits OR unat x; char_count = char_count + 1
      in if char_count = 3
         then b64_encodeLoop input 0 0
                (output @ [alphabet ! (drop_bit 18 bits AND 63), alphabet ! (drop_bit 12 bits AND 63),
                           alphabet ! (drop_bit 6 bits AND 63), alphabet ! (bits AND 63)])
         else b64_encodeLoop input (push_bit 8 bits) char_count output)"

definition b64_encodeEnd :: "nat \<times> nat \<times> u8 list \<Rightarrow> u8 list" where
  "b64_encodeEnd r =
     (case r of (bits, char_count, output) \<Rightarrow>
        (if char_count \<noteq> 0 then
           (let bits = (if char_count = 1 then push_bit 8 bits else bits)
            in output @ [alphabet ! (drop_bit 18 bits AND 63), alphabet ! (drop_bit 12 bits AND 63),
                         if char_count > 1 then alphabet ! (drop_bit 6 bits AND 63) else 61, 61])
         else output) @ [0])"

definition b64_encode :: "u8 list \<Rightarrow> u8 list" where
  \<comment> \<open>\<^verbatim>\<open>_base64Encode\<close>\<close>
  "b64_encode input = b64_encodeEnd (b64_encodeLoop input 0 0 [])"

definition b64_encodeSize :: "nat \<Rightarrow> nat" where
  \<comment> \<open>in \<^verbatim>\<open>unsigned int\<close>\<close>
  "b64_encodeSize inLength = (inLength + 2) mod 2 ^ 32 div 3 * 4 mod 2 ^ 32"

definition base64Encode :: "bool \<Rightarrow> u8 list \<Rightarrow> nat \<times> u8 list option" where
  "base64Encode mallocOk input = (b64_encodeSize (length input), if mallocOk then Some (b64_encode input) else None)"

section \<open>The tables are inverse\<close>

lemma foldr_update_nth:
  assumes "distinct (map f is)" and "i \<in> set is" and "f i < length t"
  shows "foldr (\<lambda>i t. t[f i := g i]) is t ! f i = g i"
  using assms
proof (induction "is")
  case (Cons j js)
  have l: "length (foldr (\<lambda>i t. t[f i := g i]) js t) = length t" by (induction js) simp_all
  show ?case
  proof (cases "j = i")
    case False
    then have "f j \<noteq> f i" "i \<in> set js" using Cons.prems by auto
    then show ?thesis using Cons by simp
  qed (use Cons.prems l in simp)
qed simp

lemma alphabet_list: "length alphabet = 65" "distinct alphabet" "61 \<notin> set alphabet" by code_simp+

lemma alphabet_distinct: "distinct (map (\<lambda>i. unat (alphabet ! i)) [0..<length alphabet])"
proof -
  have "map (\<lambda>i. unat (alphabet ! i)) [0..<length alphabet] = map unat alphabet" by (rule nth_equalityI) simp_all
  then show ?thesis using alphabet_list(2) by (simp add: distinct_map inj_on_def word_unat_eq_iff)
qed

lemma b64_sextet [simp]:
  assumes "i < 65"
  shows "b64_inalphabet ! unat (alphabet ! i)" and "b64_decoder ! unat (alphabet ! i) = i" and "alphabet ! i \<noteq> 61"
proof -
  have i: "i \<in> set [0..<length alphabet]" "unat (alphabet ! i) < 256" using assms unat_u8_less alphabet_list(1) by auto
  show "b64_inalphabet ! unat (alphabet ! i)"
    using foldr_update_nth [OF alphabet_distinct i(1), of "replicate 256 False" "\<lambda>_. True"] i(2) by (simp add: b64_inalphabet_def)
  show "b64_decoder ! unat (alphabet ! i) = i"
    using foldr_update_nth [OF alphabet_distinct i(1), of "replicate 256 0" "\<lambda>i. i"] i(2) by (simp add: b64_decoder_def)
  show "alphabet ! i \<noteq> 61" using i(1) alphabet_list(3) by (metis atLeastLessThan_iff nth_mem set_upt)
qed

section \<open>Bits\<close>

lemma and_63: "(x :: nat) AND 63 = x mod 64"
  using take_bit_eq_mask [of 6 x] by (simp add: take_bit_eq_mod mask_eq_exp_minus_1)

lemma and_255: "(x :: nat) AND 255 = x mod 256"
  using take_bit_eq_mask [of 8 x] by (simp add: take_bit_eq_mod mask_eq_exp_minus_1)

lemma or_byte: "push_bit 8 x OR unat (b :: u8) = 256 * x + unat b"
proof -
  have "take_bit 8 (unat b) = unat b" using unat_u8_less [of b] by (simp add: take_bit_nat_eq_self)
  then have "push_bit 8 x + unat b = push_bit 8 x OR unat b"
    by (intro disjunctive_add) (metis bit_push_bit_iff bit_take_bit_iff not_le)
  then show ?thesis by (simp add: push_bit_eq_mult)
qed

lemmas b64_bits = and_63 and_255 or_byte drop_bit_eq_div push_bit_eq_mult

definition b64_group :: "u8 \<Rightarrow> u8 \<Rightarrow> u8 \<Rightarrow> nat" where "b64_group a b c = 65536 * unat a + 256 * unat b + unat c"

lemma b64_group_bytes:
  "b64_group a b c div 65536 = unat a" "b64_group a b c div 256 mod 256 = unat b" "b64_group a b c mod 256 = unat c" "b64_group a b c < 16777216"
proof -
  have r: "unat a < 256" "unat b < 256" "unat c < 256" by (rule unat_u8_less)+
  have g: "b64_group a b c = unat c + 256 * (unat b + 256 * unat a)" by (simp add: b64_group_def algebra_simps)
  have d: "b64_group a b c div 256 = unat b + 256 * unat a" using r by (simp only: g div_mult_self2)
  show "b64_group a b c mod 256 = unat c" using r by (simp only: g mod_mult_self2) simp
  show "b64_group a b c div 256 mod 256 = unat b" using r by (simp only: d mod_mult_self2) simp
  have "b64_group a b c div 65536 = b64_group a b c div 256 div 256" by (simp add: div_mult2_eq [symmetric])
  also have "\<dots> = unat a" using r by (simp only: d div_mult_self2)
  finally show "b64_group a b c div 65536 = unat a" .
  show "b64_group a b c < 16777216" using r by (simp add: b64_group_def)
qed

lemma sextets_join:
  assumes "(p :: nat) < 16777216"
  shows "(((p div 262144 mod 64) * 64 + p div 4096 mod 64) * 64 + p div 64 mod 64) * 64 + p mod 64 = p"
    and "((p div 262144 mod 64) * 64 + p div 4096 mod 64) * 64 + p div 64 mod 64 = p div 64"
    and "(p div 262144 mod 64) * 64 + p div 4096 mod 64 = p div 4096"
proof -
  have d: "p div 4096 = p div 64 div 64" "p div 262144 = p div 64 div 64 div 64" by (simp_all add: div_mult2_eq [symmetric])
  have "p div 262144 < 64" using assms by simp
  then have m: "p div 262144 mod 64 = p div 262144" by simp
  show "(p div 262144 mod 64) * 64 + p div 4096 mod 64 = p div 4096"
    and "((p div 262144 mod 64) * 64 + p div 4096 mod 64) * 64 + p div 64 mod 64 = p div 64"
    and "(((p div 262144 mod 64) * 64 + p div 4096 mod 64) * 64 + p div 64 mod 64) * 64 + p mod 64 = p"
    unfolding m unfolding d by (simp_all only: div_mult_mod_eq)
qed

lemma b64_encode_three:
  "b64_encodeLoop (a # b # c # xs) 0 0 output =
     b64_encodeLoop xs 0 0 (output @ map (\<lambda>i. alphabet ! i)
       [b64_group a b c div 262144 mod 64, b64_group a b c div 4096 mod 64, b64_group a b c div 64 mod 64, b64_group a b c mod 64])"
proof -
  have "push_bit 8 (push_bit 8 (0 OR unat a) OR unat b) OR unat c = b64_group a b c"
    by (simp add: or_byte b64_group_def)
  then show ?thesis by (simp add: Let_def and_63 drop_bit_eq_div)
qed

lemma b64_decode_sextets:
  assumes "s0 < 65" "s1 < 65" "s2 < 65" "s3 < 65" and "((s0 * 64 + s1) * 64 + s2) * 64 + s3 = p"
  shows "b64_decodeLoop (alphabet ! s0 # alphabet ! s1 # alphabet ! s2 # alphabet ! s3 # xs) c idx 0 0 acc =
    b64_decodeLoop xs (alphabet ! s3) (Suc (Suc (Suc (Suc idx)))) 0 0 (acc @ [of_nat (p div 65536), of_nat (p div 256 mod 256), of_nat (p mod 256)])"
proof -
  have "push_bit 6 (push_bit 6 (push_bit 6 (0 + s0) + s1) + s2) + s3 = p" using assms(5) by (simp add: push_bit_eq_mult)
  then show ?thesis using assms(1-4) by (simp add: Let_def drop_bit_eq_div and_255)
qed

lemma b64_decode_four:
  assumes "p < 16777216"
  shows "b64_decodeLoop (map (\<lambda>i. alphabet ! i) [p div 262144 mod 64, p div 4096 mod 64, p div 64 mod 64, p mod 64] @ xs) c idx 0 0 acc =
    b64_decodeLoop xs (alphabet ! (p mod 64)) (Suc (Suc (Suc (Suc idx)))) 0 0 (acc @ [of_nat (p div 65536), of_nat (p div 256 mod 256), of_nat (p mod 256)])"
  using b64_decode_sextets [OF _ _ _ _ sextets_join(1) [OF assms]] by simp

lemma b64_decode_group:
  "b64_decodeLoop (map (\<lambda>i. alphabet ! i)
       [b64_group a b c div 262144 mod 64, b64_group a b c div 4096 mod 64, b64_group a b c div 64 mod 64, b64_group a b c mod 64] @ xs) d idx 0 0 output =
    b64_decodeLoop xs (alphabet ! (b64_group a b c mod 64)) (Suc (Suc (Suc (Suc idx)))) 0 0 (output @ [a, b, c])"
  unfolding b64_decode_four [OF b64_group_bytes(4)] b64_group_bytes by simp

section \<open>Round trip\<close>

definition b64_quad :: "u8 list \<Rightarrow> u8 list" where
  "b64_quad g = (let p = b64_group (g ! 0) (g ! 1) (g ! 2)
     in map (\<lambda>i. alphabet ! i) [p div 262144 mod 64, p div 4096 mod 64, p div 64 mod 64, p mod 64])"

definition b64_tail :: "u8 list \<Rightarrow> u8 list" where
  "b64_tail g = (case g of
       [a] \<Rightarrow> take 2 (b64_quad [a, 0, 0]) @ [61, 61]
     | [a, b] \<Rightarrow> take 3 (b64_quad [a, b, 0]) @ [61]
     | _ \<Rightarrow> [])"

fun b64_text :: "u8 list \<Rightarrow> u8 list" where
  "b64_text (a # b # c # xs) = b64_quad [a, b, c] @ b64_text xs"
| "b64_text xs = b64_tail xs"

lemma b64_encode_text_aux: "b64_encodeEnd (b64_encodeLoop xs 0 0 acc) = acc @ b64_text xs @ [0]"
proof (induction xs arbitrary: acc rule: b64_text.induct [case_names three none one two])
  case (three a b c xs)
  show ?case unfolding b64_encode_three three by (simp add: b64_quad_def Let_def)
next
  case (one a)
  have "push_bit 8 (push_bit 8 (unat a)) = b64_group a 0 0" by (simp add: b64_group_def push_bit_eq_mult)
  then show ?case by (simp add: b64_encodeEnd_def Let_def b64_tail_def b64_quad_def and_63 drop_bit_eq_div)
next
  case (two a b)
  have "push_bit 8 (push_bit 8 (unat a) OR unat b) = b64_group a b 0" unfolding or_byte by (simp add: b64_group_def push_bit_eq_mult)
  then show ?case by (simp add: b64_encodeEnd_def Let_def b64_tail_def b64_quad_def and_63 drop_bit_eq_div)
qed (simp add: b64_tail_def b64_encodeEnd_def)

lemma b64_encode_text: "b64_encode xs = b64_text xs @ [0]"
  unfolding b64_encode_def using b64_encode_text_aux [of xs "[]"] by simp

lemma b64_text_length: "length (b64_text xs) = (length xs + 2) div 3 * 4"
proof (induction xs rule: b64_text.induct [case_names three none one two])
  case (three a b c xs)
  have "(length (a # b # c # xs) + 2) div 3 = (length xs + 2 + 3) div 3" by simp
  also have "\<dots> = (length xs + 2) div 3 + 1" by (simp only: div_add_self2)
  finally show ?case using three by (simp add: b64_quad_def Let_def)
qed (simp_all add: b64_tail_def b64_quad_def Let_def)

lemma b64_decode_two:
  assumes "s0 < 64" "s1 < 64"
  shows "b64_decodeLoop (alphabet ! s0 # alphabet ! s1 # 61 # xs) c idx 0 0 acc = (61, idx + 2, (s0 * 64 + s1) * 64, 2, acc)"
  using assms by (simp add: Let_def push_bit_eq_mult)

lemma b64_decode_three:
  assumes "s0 < 64" "s1 < 64" "s2 < 64"
  shows "b64_decodeLoop (alphabet ! s0 # alphabet ! s1 # alphabet ! s2 # 61 # xs) c idx 0 0 acc = (61, idx + 3, ((s0 * 64 + s1) * 64 + s2) * 64, 3, acc)"
  using assms by (simp add: Let_def push_bit_eq_mult)

lemma b64_decode_text_aux:
  "c \<noteq> 61 \<Longrightarrow> b64_decodeEnd n (b64_decodeLoop (b64_text xs) c idx 0 0 acc) = (0, acc @ xs)"
proof (induction xs arbitrary: c idx acc rule: b64_text.induct [case_names three none one two])
  case (three a b d xs)
  show ?case using three(1) [of "alphabet ! (b64_group a b d mod 64)" "Suc (Suc (Suc (Suc idx)))" "acc @ [a, b, d]"]
    by (simp only: b64_text.simps b64_quad_def Let_def nth_Cons_0 nth_Cons_Suc One_nat_def numeral_2_eq_2 b64_decode_group) simp
next
  case (one a)
  let ?p = "b64_group a 0 0"
  have "?p div 4096 = 16 * unat a" by (simp add: b64_group_def)
  with sextets_join(3) [OF b64_group_bytes(4)] have v: "?p div 262144 mod 64 * 64 + ?p div 4096 mod 64 = 16 * unat a" by (rule trans)
  have "b64_text [a] = alphabet ! (?p div 262144 mod 64) # alphabet ! (?p div 4096 mod 64) # 61 # [61]"
    by (simp add: b64_tail_def b64_quad_def Let_def)
  then have "b64_decodeLoop (b64_text [a]) c idx 0 0 acc = (61, idx + 2, 16 * unat a * 64, 2, acc)"
    using b64_decode_two [of "?p div 262144 mod 64" "?p div 4096 mod 64"] by (simp only: v)
  then show ?case by (simp add: b64_decodeEnd_def drop_bit_eq_div)
next
  case (two a b)
  let ?p = "b64_group a b 0"
  have "?p = 64 * (1024 * unat a + 4 * unat b)" by (simp add: b64_group_def)
  then have "?p div 64 = 1024 * unat a + 4 * unat b" by simp
  with sextets_join(2) [OF b64_group_bytes(4)]
  have v: "(?p div 262144 mod 64 * 64 + ?p div 4096 mod 64) * 64 + ?p div 64 mod 64 = 1024 * unat a + 4 * unat b" by (rule trans)
  have "b64_text [a, b] = alphabet ! (?p div 262144 mod 64) # alphabet ! (?p div 4096 mod 64) # alphabet ! (?p div 64 mod 64) # 61 # []"
    by (simp add: b64_tail_def b64_quad_def Let_def)
  then have "b64_decodeLoop (b64_text [a, b]) c idx 0 0 acc = (61, idx + 3, (1024 * unat a + 4 * unat b) * 64, 3, acc)"
    using b64_decode_three [of "?p div 262144 mod 64" "?p div 4096 mod 64" "?p div 64 mod 64"] by (simp only: v)
  moreover have "(1024 * unat a + 4 * unat b) * 64 = ?p" by (simp add: b64_group_def)
  ultimately show ?case using b64_group_bytes [of a b 0] by (simp add: b64_decodeEnd_def drop_bit_eq_div and_255)
qed (simp_all add: b64_tail_def b64_decodeEnd_def)

section \<open>Bounds\<close>

lemma b64_decoder_le: "b64_decoder ! unat (c :: u8) \<le> 64"
proof -
  have l: "length (foldr (\<lambda>i t. t[unat (alphabet ! i) := i]) xs t) = length t" for xs and t :: "nat list" by (induction xs) simp_all
  have "set (foldr (\<lambda>i t. t[unat (alphabet ! i) := i]) xs t) \<subseteq> {..64}" if "set xs \<subseteq> {..64}" "set t \<subseteq> {..64}" for xs t
    using that by (induction xs) (simp_all add: set_update_subsetI)
  from this [of "[0..<length alphabet]" "replicate 256 0"] have "set b64_decoder \<subseteq> {..64}"
    unfolding b64_decoder_def alphabet_list(1) by fastforce
  moreover have "unat c < length b64_decoder" using unat_u8_less [of c] by (simp add: b64_decoder_def l)
  ultimately show ?thesis by (meson atMost_iff nth_mem subsetD)
qed

lemma b64_decodeLoop_bounds:
  assumes "b64_decodeLoop input c idx bits cc acc = (c1, idx1, bits1, cc1, out1)"
    and "cc < 4" and "bits \<le> [0, 4096, 266240, 17043456] ! cc" and "c \<noteq> 61" and "3 dvd length acc"
  shows "cc1 < 4 \<and> bits1 \<le> [0, 4096, 266240, 17043456] ! cc1 \<and> 3 dvd length out1
    \<and> 4 * length out1 + 3 * cc1 + 3 * idx \<le> 4 * length acc + 3 * cc + 3 * idx1
    \<and> (if c1 = 61 then idx1 < idx + length input else idx1 = idx + length input)"
  using assms
proof (induction input c idx bits cc acc rule: b64_decodeLoop.induct)
  case (2 x xs c idx bits cc acc)
  let ?B = "[0, 4096, 266240, 17043456] :: nat list" and ?b = "bits + b64_decoder ! unat x"
  consider (eq) "x = 61" | (skip) "x \<noteq> 61" "\<not> b64_inalphabet ! unat x"
    | (last) "x \<noteq> 61" "b64_inalphabet ! unat x" "cc = 3" | (go) "x \<noteq> 61" "b64_inalphabet ! unat x" "cc \<noteq> 3" by blast
  then show ?case
  proof cases
    case eq
    then show ?thesis using 2(4-) by auto
  next
    case skip
    then have e: "b64_decodeLoop xs x (idx + 1) bits cc acc = (c1, idx1, bits1, cc1, out1)" using 2(4) by simp
    show ?thesis using 2(1) [OF skip e 2(5,6) skip(1) 2(8)] by (cases "c1 = 61") simp_all
  next
    case last
    let ?o = "acc @ [of_nat (drop_bit 16 ?b), of_nat (drop_bit 8 ?b AND 255), of_nat (?b AND 255)]"
    have e: "b64_decodeLoop xs x (idx + 1) 0 0 ?o = (c1, idx1, bits1, cc1, out1)" using last 2(4) by (simp add: Let_def)
    have i: "\<not> \<not> b64_inalphabet ! unat x" "cc + 1 = 4" using last by auto
    have "3 dvd length acc + 3" using 2(8) by simp
    then have i3: "3 dvd length ?o" by (simp add: numeral_3_eq_3)
    have "(0::nat) < 4" "0 \<le> ?B ! 0" by simp_all
    from 2(2) [OF last(1) i(1) refl refl i(2) e this last(1) i3] show ?thesis using last(3) by (cases "c1 = 61") simp_all
  next
    case go
    then have c: "cc = 0 \<or> cc = 1 \<or> cc = 2" using 2(5) by linarith
    then have b: "push_bit 6 ?b \<le> ?B ! (cc + 1)"
      using 2(6) b64_decoder_le [of x] by (auto simp: push_bit_eq_mult)
    have e: "b64_decodeLoop xs x (idx + 1) (push_bit 6 ?b) (cc + 1) acc = (c1, idx1, bits1, cc1, out1)" using go 2(4) by (simp add: Let_def)
    have i: "\<not> \<not> b64_inalphabet ! unat x" "cc + 1 \<noteq> 4" "cc + 1 < 4" using go 2(5) by auto
    from 2(3) [OF go(1) i(1) refl refl i(2) e i(3) b go(1) 2(8)] show ?thesis by (cases "c1 = 61") simp_all
  qed
qed auto

lemma b64_decode_fits: "length (snd (b64_decode input)) \<le> b64_decodeSize (length input)"
proof -
  obtain c idx bits cc out1 where r: "b64_decodeLoop input 0 0 0 0 [] = (c, idx, bits, cc, out1)" by (cases "b64_decodeLoop input 0 0 0 0 []")
  have b: "cc < 4" "3 dvd length out1" "4 * length out1 + 3 * cc \<le> 3 * idx" "if c = 61 then idx < length input else idx = length input"
    using b64_decodeLoop_bounds [OF r] by (simp_all split: if_splits)
  obtain k where k: "length out1 = 3 * k" using b(2) by auto
  have n: "4 * k + cc \<le> idx" using b(3) k by simp
  have "length (snd (b64_decode input)) \<le> 3 * k + (if c = 61 then cc - 1 else 0)"
    using k b(1) unfolding b64_decode_def r b64_decodeEnd_def by auto
  moreover have "k + (if c = 61 \<and> cc = 3 then 1 else 0) \<le> length input div 4" using n b(1,4) by (auto split: if_splits)
  ultimately show ?thesis using b(1) by (auto simp: b64_decodeSize_def split: if_splits)
qed

section \<open>Properties\<close>

text \<open>
  C30: What \<open>base64Encode\<close> writes is a text of the length it returns and a zero behind it, exactly what it allocates,
  as long as that length is an \<^verbatim>\<open>unsigned int\<close>; \<open>base64Decode\<close> of that text gives the bytes back, without an error.
\<close>

theorem base64_round_trip:
  assumes "length xs < 3 * 2 ^ 30 - 2"
  shows "\<exists>s. base64Encode True xs = (length s, Some (s @ [0])) \<and> base64Decode True s = (length xs, Some xs)"
proof (intro exI conjI)
  have "(length xs + 2) div 3 * 4 < 2 ^ 32" using assms by simp
  then have "b64_encodeSize (length xs) = length (b64_text xs)" using assms by (simp add: b64_encodeSize_def b64_text_length)
  then show "base64Encode True xs = (length (b64_text xs), Some (b64_text xs @ [0]))" by (simp add: base64Encode_def b64_encode_text)
  show "base64Decode True (b64_text xs) = (length xs, Some xs)"
    using b64_decode_text_aux [of 0 "length (b64_text xs)" xs 0 "[]"] by (simp add: base64Decode_def b64_decode_def)
qed

theorem base64_round_trip_witness:
  "length [1, 2, 3, 255 :: u8] < 3 * 2 ^ 30 - 2
   \<and> (\<exists>s. base64Encode True [1, 2, 3, 255] = (length s, Some (s @ [0])) \<and> base64Decode True s = (length [1, 2, 3, 255 :: u8], Some [1, 2, 3, 255]))"
  using base64_round_trip [of "[1, 2, 3, 255]"] by simp

text \<open>
  Whatever the input, the decoder stays inside the \<open>inLength / 4 * 3 + 1\<close> bytes allocated for its output, and its
  accumulator, a signed 32 bit integer, never overflows: it is at most 17043456 between two characters.
\<close>

theorem base64_decoder_in_bounds:
  "length (snd (b64_decode input)) \<le> b64_decodeSize (length input)
   \<and> (case b64_decodeLoop input 0 0 0 0 [] of (c, idx, bits, cc, out1) \<Rightarrow> bits \<le> 17043456 \<and> length out1 \<le> b64_decodeSize (length input))"
proof -
  obtain c idx bits cc out1 where r: "b64_decodeLoop input 0 0 0 0 [] = (c, idx, bits, cc, out1)" by (cases "b64_decodeLoop input 0 0 0 0 []")
  have "cc < 4" "bits \<le> [0, 4096, 266240, 17043456] ! cc" using b64_decodeLoop_bounds [OF r] by simp_all
  moreover have "cc = 0 \<or> cc = 1 \<or> cc = 2 \<or> cc = 3" using \<open>cc < 4\<close> by linarith
  ultimately have "bits \<le> 17043456" by auto
  moreover have "length out1 \<le> length (snd (b64_decode input))" unfolding b64_decode_def r b64_decodeEnd_def by auto
  ultimately show ?thesis using b64_decode_fits [of input] r by auto
qed

text \<open>A zero byte is taken for a character of the alphabet of value 64, and a text cut off before its padding decodes without an error.\<close>

lemma base64_zero_byte: "base64Decode True [65, 65, 65, 0] = (3, Some [0, 0, 64])"
proof -
  have a: "alphabet ! 0 = 65" "alphabet ! 64 = 0" by code_simp+
  have "b64_decodeLoop [65, 65, 65, 0] 0 0 0 0 [] = b64_decodeLoop [] 0 4 0 0 [0, 0, 64]"
    using b64_decode_sextets [of 0 0 0 64 64 "[]" 0 0 "[]"] unfolding a by (simp del: b64_decodeLoop.simps(2))
  then show ?thesis by (simp add: base64Decode_def b64_decode_def b64_decodeEnd_def)
qed

lemma base64_truncated: "base64Decode True [65] = (0, Some [])"
proof -
  have "alphabet ! 0 = 65" by code_simp
  then have "b64_decodeLoop [65] 0 0 0 0 [] = (65, 1, 0, 1, [])" using b64_sextet [of 0] by (simp add: Let_def)
  then show ?thesis by (simp add: base64Decode_def b64_decode_def b64_decodeEnd_def)
qed

end
