(* ===== verification/Item_Effects.thy ===== *)
theory Item_Effects
  imports Timers
begin

unbundle bit_operations_syntax

text \<open>
  What items do to the unit that carries them: the stat modifiers and the registered item effects of \<^verbatim>\<open>Unit.cpp\<close>,
  \<^verbatim>\<open>ItemApplication\<close> and \<^verbatim>\<open>ItemApplicationProcesser\<close>. The tables of \<^verbatim>\<open>ObjectMgr\<close> are arguments, and so are the
  formulas in single precision, by which \<^verbatim>\<open>updateMaxHealth\<close> and its siblings compute a stat from its two modifiers and
  \<^verbatim>\<open>effectIncreaseHealthPercent\<close> an amount of health. The map of applications is a list of pairs with distinct keys, in
  the order of insertion. Messages, threat and visibility updates are events; a failed assertion is \<open>None\<close>. A pointer to
  an effect is the key of its application template and its index there.
\<close>

section \<open>Templates\<close>

datatype stat_type =
    STAT_MAX_HEALTH | STAT_HEALTH_REGEN_RATE | STAT_ATTACK_RANGE | STAT_MOVE_SPEED | STAT_MAX_STAMINA
  | STAT_STAMINA_REGEN_RATE | STAT_ATTACK_TAKES_STAMINA | STAT_DAMAGE | STAT_CHARGE_CONSUMES_STAMINA | STAT_DEFENSE

datatype stat_modifier_type = STAT_MODIFIER_VALUE | STAT_MODIFIER_PERCENT

record item_stat =
  is_type :: nat
  is_value :: int

record item_effect =
  ie_ptr :: "nat \<times> nat"
  ie_type :: nat
  ie_value :: int

record item_template =
  it_id :: nat
  it_class :: nat
  it_subClass :: nat
  it_stackable :: int
  it_level :: nat
  it_appId :: nat
  it_stats :: "item_stat list"

record item_app_template =
  at_flags :: nat
  at_visualId :: nat
  at_duration :: int
  at_recoveryTime :: int
  at_effects :: "(nat \<times> int) list"

record item_env =
  en_items :: "nat \<Rightarrow> item_template option"
  en_apps :: "nat \<Rightarrow> item_app_template option"
  en_calc :: "stat_type \<Rightarrow> int \<Rightarrow> int \<Rightarrow> int"
  en_percent :: "int \<Rightarrow> int \<Rightarrow> int"

definition ITEM_APPLICATION_NONE :: nat where "ITEM_APPLICATION_NONE = 0"
definition ITEM_VISUAL_NONE :: nat where "ITEM_VISUAL_NONE = 0"
definition ITEM_APPFLAG_VISIBLE_TO_SELF :: nat where "ITEM_APPFLAG_VISIBLE_TO_SELF = 1"
definition ITEM_APP_DURATION_PERMANENT :: int where "ITEM_APP_DURATION_PERMANENT = - 1"

definition effect_ptrs :: "nat \<Rightarrow> item_app_template \<Rightarrow> item_effect list" where
  "effect_ptrs appId tmpl =
     map (\<lambda>(i, t, v). \<lparr>ie_ptr = (appId, i), ie_type = t, ie_value = v\<rparr>) (enumerate 0 (at_effects tmpl))"

section \<open>State\<close>

record item_application =
  ia_template :: item_template
  ia_appTemplate :: item_app_template
  ia_finishTimer :: delay_timer

record application_info =
  ai_apply :: bool
  ai_itemId :: nat
  ai_duration :: NSTime
  ai_remaining :: NSTime

datatype item_event = ThreatUpdate | VisibilityUpdate | ApplicationUpdate application_info bool

record item_unit =
  iu_modifiers :: "stat_type \<Rightarrow> stat_modifier_type \<Rightarrow> int"
  iu_stats :: "stat_type \<Rightarrow> int"
  iu_effects :: "nat \<Rightarrow> item_effect list option"
  iu_health :: int
  iu_apps :: "(nat \<times> item_application) list"
  iu_events :: "item_event list"

section \<open>Stat modifiers\<close>

definition iu_calcStat :: "item_env \<Rightarrow> stat_type \<Rightarrow> item_unit \<Rightarrow> int" where
  "iu_calcStat env st u =
     (if st = STAT_DEFENSE then iu_modifiers u st STAT_MODIFIER_VALUE
      else en_calc env st (iu_modifiers u st STAT_MODIFIER_PERCENT) (iu_modifiers u st STAT_MODIFIER_VALUE))"

definition iu_updateStat :: "item_env \<Rightarrow> stat_type \<Rightarrow> item_unit \<Rightarrow> item_unit" where
  "iu_updateStat env st u =
     (if st \<in> {STAT_ATTACK_TAKES_STAMINA, STAT_CHARGE_CONSUMES_STAMINA} then u
      else u\<lparr>iu_stats := (iu_stats u)(st := iu_calcStat env st u)\<rparr>)"

definition iu_handleStatModifier :: "item_env \<Rightarrow> stat_type \<Rightarrow> stat_modifier_type \<Rightarrow> int \<Rightarrow> bool \<Rightarrow> item_unit \<Rightarrow> item_unit" where
  "iu_handleStatModifier env st mt amount apply u =
     iu_updateStat env st
       (u\<lparr>iu_modifiers := (iu_modifiers u)(st := (iu_modifiers u st)(mt := i32 (iu_modifiers u st mt + (if apply then amount else i32 (- amount)))))\<rparr>)"

definition item_stat_target :: "nat \<Rightarrow> (stat_type \<times> stat_modifier_type) option" where
  "item_stat_target t =
     (if t = 1 then Some (STAT_MAX_HEALTH, STAT_MODIFIER_VALUE)
      else if t = 2 then Some (STAT_MAX_HEALTH, STAT_MODIFIER_PERCENT)
      else if t = 3 then Some (STAT_HEALTH_REGEN_RATE, STAT_MODIFIER_VALUE)
      else if t = 4 then Some (STAT_HEALTH_REGEN_RATE, STAT_MODIFIER_PERCENT)
      else if t = 5 then Some (STAT_ATTACK_RANGE, STAT_MODIFIER_VALUE)
      else if t = 6 then Some (STAT_ATTACK_RANGE, STAT_MODIFIER_PERCENT)
      else if t = 7 then Some (STAT_MOVE_SPEED, STAT_MODIFIER_VALUE)
      else if t = 8 then Some (STAT_MOVE_SPEED, STAT_MODIFIER_PERCENT)
      else if t = 9 then Some (STAT_MAX_STAMINA, STAT_MODIFIER_VALUE)
      else if t = 10 then Some (STAT_MAX_STAMINA, STAT_MODIFIER_PERCENT)
      else if t = 11 then Some (STAT_STAMINA_REGEN_RATE, STAT_MODIFIER_VALUE)
      else if t = 12 then Some (STAT_STAMINA_REGEN_RATE, STAT_MODIFIER_PERCENT)
      else if t = 13 then Some (STAT_DAMAGE, STAT_MODIFIER_VALUE)
      else if t = 14 then Some (STAT_DAMAGE, STAT_MODIFIER_PERCENT)
      else if t = 15 then Some (STAT_DEFENSE, STAT_MODIFIER_VALUE)
      else None)"

fun iu_applyItemStats :: "item_env \<Rightarrow> item_stat list \<Rightarrow> bool \<Rightarrow> int \<Rightarrow> item_unit \<Rightarrow> item_unit" where
  "iu_applyItemStats env [] apply multiplier u = u"
| "iu_applyItemStats env (stat # stats) apply multiplier u =
     iu_applyItemStats env stats apply multiplier
       (case item_stat_target (is_type stat) of
          None \<Rightarrow> u
        | Some (st, mt) \<Rightarrow> iu_handleStatModifier env st mt (i32 (is_value stat * multiplier)) apply u)"

section \<open>Registered effects\<close>

definition iu_registerItemEffect :: "item_effect \<Rightarrow> item_unit \<Rightarrow> item_unit" where
  "iu_registerItemEffect e u =
     u\<lparr>iu_effects := (iu_effects u)(ie_type e \<mapsto> (case iu_effects u (ie_type e) of None \<Rightarrow> [] | Some l \<Rightarrow> l) @ [e])\<rparr>"

definition iu_unregisterItemEffect :: "item_effect \<Rightarrow> item_unit \<Rightarrow> item_unit" where
  "iu_unregisterItemEffect e u =
     (case iu_effects u (ie_type e) of
        None \<Rightarrow> u
      | Some l \<Rightarrow>
          let l1 = filter (\<lambda>x. ie_ptr x \<noteq> ie_ptr e) l
          in u\<lparr>iu_effects := (iu_effects u)(ie_type e := (if l1 = [] then None else Some l1))\<rparr>)"

definition iu_hasItemEffectType :: "nat \<Rightarrow> item_unit \<Rightarrow> bool" where
  "iu_hasItemEffectType t u = (iu_effects u t \<noteq> None)"

definition iu_getTotalItemEffectModifier :: "nat \<Rightarrow> item_unit \<Rightarrow> int" where
  "iu_getTotalItemEffectModifier t u =
     (case iu_effects u t of None \<Rightarrow> 0 | Some l \<Rightarrow> foldl (\<lambda>modifier e. i32 (modifier + ie_value e)) 0 l)"

section \<open>Item applications\<close>

definition iu_emit :: "item_event \<Rightarrow> item_unit \<Rightarrow> item_unit" where
  "iu_emit ev u = u\<lparr>iu_events := iu_events u @ [ev]\<rparr>"

definition ia_new :: "item_env \<Rightarrow> item_template \<Rightarrow> item_application option" where
  "ia_new env tmpl =
     (case en_apps env (it_appId tmpl) of
        None \<Rightarrow> None
      | Some appTmpl \<Rightarrow> Some \<lparr>ia_template = tmpl, ia_appTemplate = appTmpl,
          ia_finishTimer = delay_setDuration (i32 (at_duration appTmpl * 1000)) delay_new\<rparr>)"

definition ia_isVisibleToSelf :: "item_application \<Rightarrow> bool" where
  "ia_isVisibleToSelf app = (at_flags (ia_appTemplate app) AND ITEM_APPFLAG_VISIBLE_TO_SELF \<noteq> 0)"

definition ia_hasVisualEffect :: "item_application \<Rightarrow> bool" where
  "ia_hasVisualEffect app = (at_visualId (ia_appTemplate app) \<noteq> ITEM_VISUAL_NONE)"

definition ia_buildApplicationUpdate :: "item_application \<Rightarrow> bool \<Rightarrow> application_info" where
  "ia_buildApplicationUpdate app apply =
     \<lparr>ai_apply = apply, ai_itemId = it_id (ia_template app),
      ai_duration = (if apply then dt_duration (ia_finishTimer app) else 0),
      ai_remaining = (if apply then delay_getRemainder (ia_finishTimer app) else 0)\<rparr>"

definition ia_sendApplicationUpdate :: "item_application \<Rightarrow> bool \<Rightarrow> item_unit \<Rightarrow> item_unit" where
  \<comment> \<open>to the target, and to the players around it unless the application is visible to itself only\<close>
  "ia_sendApplicationUpdate app apply u =
     (if \<not> ia_hasVisualEffect app then u
      else iu_emit (ApplicationUpdate (ia_buildApplicationUpdate app apply) (\<not> ia_isVisibleToSelf app)) u)"

datatype effect_handler =
    effectApplyStats | effectDiscoverConcealedUnit | effectRegisterToTarget | effectIncreaseHealthPercent
  | effectChargedAttackEnabled | effectIncreaseHealth

definition gItemEffectTable :: "nat \<Rightarrow> effect_handler option" where
  "gItemEffectTable = [1 \<mapsto> effectApplyStats, 2 \<mapsto> effectDiscoverConcealedUnit, 3 \<mapsto> effectRegisterToTarget,
     4 \<mapsto> effectIncreaseHealthPercent, 5 \<mapsto> effectRegisterToTarget, 6 \<mapsto> effectChargedAttackEnabled,
     7 \<mapsto> effectRegisterToTarget, 8 \<mapsto> effectRegisterToTarget, 9 \<mapsto> effectIncreaseHealth]"

definition iu_registerOrNot :: "item_effect \<Rightarrow> bool \<Rightarrow> item_unit \<Rightarrow> item_unit" where
  "iu_registerOrNot e apply u = (if apply then iu_registerItemEffect e u else iu_unregisterItemEffect e u)"

definition iu_heal :: "int \<Rightarrow> item_unit \<Rightarrow> item_unit" where
  "iu_heal addValue u = iu_emit ThreatUpdate (u\<lparr>iu_health := min (iu_stats u STAT_MAX_HEALTH) (i32 (iu_health u + addValue))\<rparr>)"

fun ia_handle :: "item_env \<Rightarrow> item_application \<Rightarrow> effect_handler \<Rightarrow> item_effect \<Rightarrow> bool \<Rightarrow> item_unit \<Rightarrow> item_unit" where
  "ia_handle env app effectApplyStats e apply u = iu_applyItemStats env (it_stats (ia_template app)) apply 1 u"
| "ia_handle env app effectDiscoverConcealedUnit e apply u = iu_emit VisibilityUpdate (iu_registerOrNot e apply u)"
| "ia_handle env app effectRegisterToTarget e apply u = iu_registerOrNot e apply u"
| "ia_handle env app effectIncreaseHealthPercent e apply u =
     (if \<not> apply then u else iu_heal (en_percent env (ie_value e) (iu_stats u STAT_MAX_HEALTH)) u)"
| "ia_handle env app effectChargedAttackEnabled e apply u = iu_registerOrNot e apply u"
| "ia_handle env app effectIncreaseHealth e apply u = (if \<not> apply then u else iu_heal (ie_value e) u)"

fun ia_handleAll :: "item_env \<Rightarrow> item_application \<Rightarrow> bool \<Rightarrow> item_effect list \<Rightarrow> item_unit \<Rightarrow> item_unit" where
  "ia_handleAll env app apply [] u = u"
| "ia_handleAll env app apply (e # es) u =
     ia_handleAll env app apply es
       (case gItemEffectTable (ie_type e) of None \<Rightarrow> u | Some h \<Rightarrow> ia_handle env app h e apply u)"

definition ia_effects :: "item_application \<Rightarrow> item_effect list" where
  "ia_effects app = effect_ptrs (it_appId (ia_template app)) (ia_appTemplate app)"

definition ia_execute :: "item_env \<Rightarrow> item_application \<Rightarrow> item_unit \<Rightarrow> item_unit" where
  "ia_execute env app u = ia_sendApplicationUpdate app True (ia_handleAll env app True (ia_effects app) u)"

definition ia_finish :: "item_env \<Rightarrow> item_application \<Rightarrow> item_unit \<Rightarrow> item_unit" where
  "ia_finish env app u = ia_sendApplicationUpdate app False (ia_handleAll env app False (ia_effects app) u)"

definition ia_update :: "item_env \<Rightarrow> NSTime \<Rightarrow> item_application \<Rightarrow> item_unit \<Rightarrow> bool \<times> item_application \<times> item_unit" where
  "ia_update env diff app u =
     (if at_duration (ia_appTemplate app) > 0 then
        let app1 = app\<lparr>ia_finishTimer := delay_update diff (ia_finishTimer app)\<rparr>
        in if delay_passed (ia_finishTimer app1)
           then (False, app1\<lparr>ia_finishTimer := delay_reset (ia_finishTimer app1)\<rparr>, ia_finish env app1 u)
           else (True, app1, u)
      else (True, app, u))"

section \<open>The applications of a unit\<close>

definition iu_eraseApp :: "nat \<Rightarrow> item_unit \<Rightarrow> item_unit" where
  "iu_eraseApp k u = u\<lparr>iu_apps := filter (\<lambda>(k1, a). k1 \<noteq> k) (iu_apps u)\<rparr>"

definition iu_setApp :: "nat \<Rightarrow> item_application \<Rightarrow> item_unit \<Rightarrow> item_unit" where
  "iu_setApp k a u = u\<lparr>iu_apps := map (\<lambda>(k1, a1). if k1 = k then (k, a) else (k1, a1)) (iu_apps u)\<rparr>"

definition iu_emplaceApp :: "nat \<Rightarrow> item_application \<Rightarrow> item_unit \<Rightarrow> item_unit" where
  "iu_emplaceApp k a u = (if k \<in> fst ` set (iu_apps u) then u else u\<lparr>iu_apps := iu_apps u @ [(k, a)]\<rparr>)"

definition iu_finishApp :: "item_env \<Rightarrow> nat \<Rightarrow> item_unit \<Rightarrow> item_unit" where
  "iu_finishApp env k u =
     (case map_of (iu_apps u) k of None \<Rightarrow> u | Some app \<Rightarrow> iu_eraseApp k (ia_finish env app u))"

definition iu_unapplyItem :: "item_env \<Rightarrow> item_template \<Rightarrow> item_unit \<Rightarrow> item_unit" where
  "iu_unapplyItem env tmpl u = iu_finishApp env (it_appId tmpl) u"

definition iu_applyItem :: "item_env \<Rightarrow> item_template \<Rightarrow> item_unit \<Rightarrow> item_unit option" where
  "iu_applyItem env tmpl u =
     (if it_appId tmpl = ITEM_APPLICATION_NONE then Some u
      else
        (let u1 = iu_unapplyItem env tmpl u
         in case ia_new env tmpl of
              None \<Rightarrow> None
            | Some app \<Rightarrow>
                let u2 = (if at_duration (ia_appTemplate app) > 0 \<or> at_duration (ia_appTemplate app) = ITEM_APP_DURATION_PERMANENT
                          then iu_emplaceApp (it_appId tmpl) app u1 else u1)
                in Some (ia_execute env app u2)))"

definition iu_removeAllApps :: "item_env \<Rightarrow> item_unit \<Rightarrow> item_unit" where
  "iu_removeAllApps env u = fold (iu_finishApp env) (map fst (iu_apps u)) u"

definition iu_updateApp :: "item_env \<Rightarrow> NSTime \<Rightarrow> nat \<Rightarrow> item_unit \<Rightarrow> item_unit" where
  "iu_updateApp env diff k u =
     (case map_of (iu_apps u) k of
        None \<Rightarrow> u
      | Some app \<Rightarrow>
          (case ia_update env diff app u of (goesOn, app1, u1) \<Rightarrow> if goesOn then iu_setApp k app1 u1 else iu_eraseApp k u1))"

definition iu_updateApps :: "item_env \<Rightarrow> NSTime \<Rightarrow> item_unit \<Rightarrow> item_unit" where
  "iu_updateApps env diff u = fold (iu_updateApp env diff) (map fst (iu_apps u)) u"

definition iu_applicationUpdateAll :: "bool \<Rightarrow> bool \<Rightarrow> item_unit \<Rightarrow> application_info list" where
  "iu_applicationUpdateAll isOwner apply u =
     map (\<lambda>(k, app). ia_buildApplicationUpdate app apply)
       (filter (\<lambda>(k, app). ia_hasVisualEffect app \<and> (\<not> ia_isVisibleToSelf app \<or> isOwner)) (iu_apps u))"

section \<open>What modifiers and effects amount to\<close>

definition stats_total :: "item_stat list \<Rightarrow> int \<Rightarrow> stat_type \<Rightarrow> stat_modifier_type \<Rightarrow> int" where
  "stats_total stats multiplier st mt =
     sum_list (map (\<lambda>s. if item_stat_target (is_type s) = Some (st, mt) then is_value s * multiplier else 0) stats)"

definition effects_total :: "item_application \<Rightarrow> item_effect list \<Rightarrow> stat_type \<Rightarrow> stat_modifier_type \<Rightarrow> int" where
  "effects_total app es st mt =
     sum_list (map (\<lambda>e. if gItemEffectTable (ie_type e) = Some effectApplyStats then stats_total (it_stats (ia_template app)) 1 st mt else 0) es)"

definition apps_total :: "(nat \<times> item_application) list \<Rightarrow> stat_type \<Rightarrow> stat_modifier_type \<Rightarrow> int" where
  "apps_total apps st mt = sum_list (map (\<lambda>(k, app). effects_total app (ia_effects app) st mt) apps)"

definition ie_registers :: "item_effect \<Rightarrow> bool" where
  "ie_registers e \<longleftrightarrow> gItemEffectTable (ie_type e) \<in>
     {Some effectDiscoverConcealedUnit, Some effectRegisterToTarget, Some effectChargedAttackEnabled}"

definition iu_list :: "item_unit \<Rightarrow> nat \<Rightarrow> item_effect list" where
  "iu_list u t = (case iu_effects u t of None \<Rightarrow> [] | Some l \<Rightarrow> l)"

definition registered :: "nat \<Rightarrow> item_effect list \<Rightarrow> item_effect list" where
  "registered t es = filter (\<lambda>e. ie_registers e \<and> ie_type e = t) es"

definition apps_registered :: "(nat \<times> item_application) list \<Rightarrow> nat \<Rightarrow> item_effect list" where
  "apps_registered apps t = concat (map (\<lambda>(k, app). registered t (ia_effects app)) apps)"

definition iu_ok :: "item_env \<Rightarrow> item_unit \<Rightarrow> bool" where
  \<comment> \<open>no empty list of effects is kept, and every stat is computed from its modifiers\<close>
  "iu_ok env u \<longleftrightarrow> (\<forall>t. iu_effects u t \<noteq> Some [])
     \<and> (\<forall>st. st \<in> {STAT_ATTACK_TAKES_STAMINA, STAT_CHARGE_CONSUMES_STAMINA} \<or> iu_stats u st = iu_calcStat env st u)
     \<and> distinct (map fst (iu_apps u)) \<and> (\<forall>(k, app) \<in> set (iu_apps u). k = it_appId (ia_template app))"

lemma i32_i32 [simp]: "i32 (i32 a) = i32 a" by (simp add: i32_def)

lemma i32_add: "i32 (i32 a + b) = i32 (a + b)" "i32 (a + i32 b) = i32 (a + b)"
  unfolding i32_def by (metis signed_take_bit_add signed_take_bit_signed_take_bit min.idem)+

lemma i32_neg: "i32 (- i32 a) = i32 (- a)"
  unfolding i32_def by (metis signed_take_bit_minus)

lemma iu_handle_fields [simp]:
  "iu_effects (iu_handleStatModifier env st mt a b u) = iu_effects u"
  "iu_apps (iu_handleStatModifier env st mt a b u) = iu_apps u"
  "iu_health (iu_handleStatModifier env st mt a b u) = iu_health u"
  by (simp_all add: iu_handleStatModifier_def iu_updateStat_def)

lemma iu_handle_modifiers:
  "iu_modifiers (iu_handleStatModifier env st mt a b u) st1 mt1 =
     (if st1 = st \<and> mt1 = mt then i32 (iu_modifiers u st mt + (if b then a else - a)) else iu_modifiers u st1 mt1)"
  by (auto simp: iu_handleStatModifier_def iu_updateStat_def i32_add)

lemma iu_handle_ok: "iu_ok env u \<Longrightarrow> iu_ok env (iu_handleStatModifier env st mt a b u)"
  by (auto simp: iu_ok_def iu_handleStatModifier_def iu_updateStat_def iu_calcStat_def)

lemma iu_applyItemStats_fields [simp]:
  "iu_effects (iu_applyItemStats env stats b m u) = iu_effects u \<and> iu_apps (iu_applyItemStats env stats b m u) = iu_apps u
   \<and> iu_health (iu_applyItemStats env stats b m u) = iu_health u"
  by (induction stats arbitrary: u) (simp_all split: option.splits)

lemma iu_applyItemStats_ok: "iu_ok env u \<Longrightarrow> iu_ok env (iu_applyItemStats env stats b m u)"
  by (induction stats arbitrary: u) (auto split: option.splits simp: iu_handle_ok)

lemma iu_applyItemStats_modifiers:
  assumes "iu_modifiers u st mt = i32 x"
  shows "iu_modifiers (iu_applyItemStats env stats b m u) st mt = i32 (x + (if b then 1 else - 1) * stats_total stats m st mt)"
  using assms
proof (induction stats arbitrary: u x)
  case (Cons s ss)
  show ?case
  proof (cases "item_stat_target (is_type s)")
    case None
    then show ?thesis using Cons by (simp add: stats_total_def)
  next
    case (Some t)
    obtain st1 mt1 where t: "t = (st1, mt1)" by force
    let ?u = "iu_handleStatModifier env st1 mt1 (i32 (is_value s * m)) b u"
    show ?thesis
    proof (cases "t = (st, mt)")
      case True
      have "iu_modifiers ?u st mt = i32 (x + (if b then 1 else - 1) * (is_value s * m))"
        using True t Cons.prems i32_add i32_neg by (simp add: iu_handle_modifiers) (metis uminus_add_conv_diff add.commute)
      from Cons.IH [OF this] show ?thesis using Some t True by (simp add: stats_total_def algebra_simps)
    next
      case False
      then have "iu_modifiers ?u st mt = i32 x" using t Cons.prems by (auto simp: iu_handle_modifiers)
      from Cons.IH [OF this] show ?thesis using Some t False by (auto simp: stats_total_def)
    qed
  qed
qed (simp add: stats_total_def)

section \<open>Effects of an application\<close>

lemma iu_emit_fields [simp]:
  "iu_effects (iu_emit e u) = iu_effects u" "iu_apps (iu_emit e u) = iu_apps u" "iu_modifiers (iu_emit e u) = iu_modifiers u"
  "iu_stats (iu_emit e u) = iu_stats u" "iu_health (iu_emit e u) = iu_health u"
  by (simp_all add: iu_emit_def)

lemma iu_heal_fields [simp]:
  "iu_effects (iu_heal a u) = iu_effects u" "iu_apps (iu_heal a u) = iu_apps u" "iu_modifiers (iu_heal a u) = iu_modifiers u"
  "iu_stats (iu_heal a u) = iu_stats u"
  by (simp_all add: iu_heal_def)

lemma iu_register_fields [simp]:
  "iu_apps (iu_registerOrNot e b u) = iu_apps u" "iu_modifiers (iu_registerOrNot e b u) = iu_modifiers u"
  "iu_stats (iu_registerOrNot e b u) = iu_stats u" "iu_health (iu_registerOrNot e b u) = iu_health u"
  by (simp_all add: iu_registerOrNot_def iu_registerItemEffect_def iu_unregisterItemEffect_def Let_def split: option.splits)

lemma iu_register_list:
  "iu_list (iu_registerOrNot e b u) t =
     (if t \<noteq> ie_type e then iu_list u t else if b then iu_list u t @ [e] else filter (\<lambda>x. ie_ptr x \<noteq> ie_ptr e) (iu_list u t))"
  by (auto simp: iu_list_def iu_registerOrNot_def iu_registerItemEffect_def iu_unregisterItemEffect_def Let_def split: option.splits)

lemma iu_ok_cong:
  assumes "iu_ok env u" and "\<forall>t. iu_effects u1 t \<noteq> Some []" and "iu_stats u1 = iu_stats u"
    and "iu_modifiers u1 = iu_modifiers u" and "iu_apps u1 = iu_apps u"
  shows "iu_ok env u1"
proof -
  have "iu_calcStat env st u1 = iu_calcStat env st u" for st by (simp add: iu_calcStat_def assms(4))
  then show ?thesis using assms unfolding iu_ok_def by simp
qed

lemma iu_ok_nonempty: "iu_ok env u \<Longrightarrow> iu_effects u t \<noteq> Some []"
  by (simp add: iu_ok_def)

lemma iu_register_ok:
  assumes "iu_ok env u"
  shows "iu_ok env (iu_registerOrNot e b u)"
proof (rule iu_ok_cong [OF assms])
  show "\<forall>t. iu_effects (iu_registerOrNot e b u) t \<noteq> Some []"
    using iu_ok_nonempty [OF assms]
    by (simp add: iu_registerOrNot_def iu_registerItemEffect_def iu_unregisterItemEffect_def Let_def split: option.splits)
qed simp_all

lemma iu_emit_ok: "iu_ok env u \<Longrightarrow> iu_ok env (iu_emit e u)"
  by (rule iu_ok_cong) (simp_all add: iu_ok_nonempty)

lemma iu_heal_ok: "iu_ok env u \<Longrightarrow> iu_ok env (iu_heal a u)"
  by (rule iu_ok_cong) (simp_all add: iu_ok_nonempty)

definition ia_handleOne :: "item_env \<Rightarrow> item_application \<Rightarrow> bool \<Rightarrow> item_effect \<Rightarrow> item_unit \<Rightarrow> item_unit" where
  "ia_handleOne env app b e u = (case gItemEffectTable (ie_type e) of None \<Rightarrow> u | Some h \<Rightarrow> ia_handle env app h e b u)"

lemma iu_list_cong: "iu_effects u1 = iu_effects u \<Longrightarrow> iu_list u1 = iu_list u"
  by (rule ext) (simp add: iu_list_def)

lemma ia_handleOne_ok: "iu_ok env u \<Longrightarrow> iu_ok env (ia_handleOne env app b e u)"
  unfolding ia_handleOne_def
  by (cases "gItemEffectTable (ie_type e)"; cases "the (gItemEffectTable (ie_type e))")
    (auto simp: iu_applyItemStats_ok iu_register_ok iu_emit_ok iu_heal_ok)

lemma ia_handleOne_apps: "iu_apps (ia_handleOne env app b e u) = iu_apps u"
  unfolding ia_handleOne_def
  by (cases "gItemEffectTable (ie_type e)"; cases "the (gItemEffectTable (ie_type e))") auto

lemma ia_handleOne_list:
  "iu_list (ia_handleOne env app b e u) t =
     (if \<not> ie_registers e \<or> t \<noteq> ie_type e then iu_list u t else if b then iu_list u t @ [e] else filter (\<lambda>x. ie_ptr x \<noteq> ie_ptr e) (iu_list u t))"
proof (cases "gItemEffectTable (ie_type e)")
  case None
  then show ?thesis by (simp add: ia_handleOne_def ie_registers_def)
next
  case (Some h)
  then show ?thesis
    by (cases h) (simp_all add: ia_handleOne_def ie_registers_def iu_register_list
        iu_list_cong [of "iu_applyItemStats env (it_stats (ia_template app)) b 1 u" u] iu_list_cong [of "iu_emit VisibilityUpdate (iu_registerOrNot e b u)" "iu_registerOrNot e b u"]
        iu_list_cong [of "iu_heal a u" u for a])
qed

lemma ia_handleOne_modifiers:
  assumes "iu_modifiers u st mt = i32 x"
  shows "iu_modifiers (ia_handleOne env app b e u) st mt = i32 (x + (if b then 1 else - 1) * effects_total app [e] st mt)"
proof (cases "gItemEffectTable (ie_type e)")
  case None
  then show ?thesis using assms by (simp add: ia_handleOne_def effects_total_def)
next
  case (Some h)
  then show ?thesis using assms iu_applyItemStats_modifiers [OF assms]
    by (cases h) (simp_all add: ia_handleOne_def effects_total_def)
qed

lemma ia_handleAll_fold: "ia_handleAll env app b es u = fold (ia_handleOne env app b) es u"
  by (induction es arbitrary: u) (simp_all add: ia_handleOne_def)

lemma ia_handleAll_ok: "iu_ok env u \<Longrightarrow> iu_ok env (ia_handleAll env app b es u)"
  unfolding ia_handleAll_fold by (induction es arbitrary: u) (simp_all add: ia_handleOne_ok)

lemma ia_handleAll_apps [simp]: "iu_apps (ia_handleAll env app b es u) = iu_apps u"
  unfolding ia_handleAll_fold by (induction es arbitrary: u) (simp_all add: ia_handleOne_apps)

lemma ia_handleAll_modifiers:
  "iu_modifiers u st mt = i32 x \<Longrightarrow>
     iu_modifiers (ia_handleAll env app b es u) st mt = i32 (x + (if b then 1 else - 1) * effects_total app es st mt)"
  unfolding ia_handleAll_fold
proof (induction es arbitrary: u x)
  case (Cons e es)
  from Cons.IH [OF ia_handleOne_modifiers [OF Cons.prems]] show ?case by (simp add: effects_total_def algebra_simps)
qed (simp add: effects_total_def)

lemma ia_handleAll_add: "iu_list (ia_handleAll env app True es u) t = iu_list u t @ registered t es"
  unfolding ia_handleAll_fold by (induction es arbitrary: u) (simp_all add: ia_handleOne_list registered_def)

lemma ia_handleAll_drop:
  "iu_list (ia_handleAll env app False es u) t = filter (\<lambda>x. ie_ptr x \<notin> ie_ptr ` set (registered t es)) (iu_list u t)"
  unfolding ia_handleAll_fold
proof (induction es arbitrary: u)
  case (Cons e es)
  then show ?case by (auto simp: ia_handleOne_list registered_def intro!: filter_cong)
qed (simp add: registered_def)

section \<open>The books of a unit\<close>

definition iu_inv :: "item_env \<Rightarrow> (stat_type \<Rightarrow> stat_modifier_type \<Rightarrow> int) \<Rightarrow> item_unit \<Rightarrow> bool" where
  \<comment> \<open>beyond \<open>base\<close>, the modifiers are those of the applications in force, and the registered effects are theirs\<close>
  "iu_inv env base u \<longleftrightarrow> iu_ok env u \<and> (\<forall>t. iu_list u t = apps_registered (iu_apps u) t)
     \<and> (\<forall>st mt. iu_modifiers u st mt = i32 (base st mt + apps_total (iu_apps u) st mt))"

definition instants_ok :: "item_env \<Rightarrow> bool" where
  \<comment> \<open>an application with no duration has no effect that would have to be undone\<close>
  "instants_ok env \<longleftrightarrow> (\<forall>k. case en_apps env k of None \<Rightarrow> True
     | Some tmpl \<Rightarrow> at_duration tmpl > 0 \<or> at_duration tmpl = ITEM_APP_DURATION_PERMANENT
         \<or> list_all (\<lambda>(t, v). t = 4 \<or> t = 9 \<or> gItemEffectTable t = None) (at_effects tmpl))"

lemma ia_effects_ptr: "e \<in> set (ia_effects app) \<Longrightarrow> fst (ie_ptr e) = it_appId (ia_template app)"
  by (auto simp: ia_effects_def effect_ptrs_def)

lemma ia_effects_type: "e \<in> set (ia_effects app) \<Longrightarrow> \<exists>v. (ie_type e, v) \<in> set (at_effects (ia_appTemplate app))"
  by (auto simp: ia_effects_def effect_ptrs_def in_set_enumerate_eq) (metis nth_mem)

lemma ia_send_ok: "iu_ok env u \<Longrightarrow> iu_ok env (ia_sendApplicationUpdate app b u)"
  by (simp add: ia_sendApplicationUpdate_def iu_emit_ok)

lemma ia_send_fields [simp]:
  "iu_effects (ia_sendApplicationUpdate app b u) = iu_effects u" "iu_apps (ia_sendApplicationUpdate app b u) = iu_apps u"
  "iu_modifiers (ia_sendApplicationUpdate app b u) = iu_modifiers u"
  by (simp_all add: ia_sendApplicationUpdate_def)

lemma ia_send_list [simp]: "iu_list (ia_sendApplicationUpdate app b u) t = iu_list u t"
  by (simp add: iu_list_def)

lemma map_of_split:
  assumes "map_of xs k = Some v" and "distinct (map fst xs)"
  obtains ys zs where "xs = ys @ (k, v) # zs" "filter (\<lambda>(k1, a). k1 \<noteq> k) xs = ys @ zs" "k \<notin> fst ` set (ys @ zs)"
proof -
  obtain ys zs where s: "xs = ys @ (k, v) # zs" using assms(1) map_of_SomeD split_list by metis
  have d: "k \<notin> fst ` set (ys @ zs)" using assms(2) s by auto
  then have "filter (\<lambda>(k1, a). k1 \<noteq> k) (ys @ zs) = ys @ zs" by (intro filter_True) (force simp: image_iff)
  then show thesis using that [OF s _ d] s by simp
qed

lemma iu_ok_apps:
  assumes "iu_ok env u" and "distinct (map fst apps)" and "\<forall>(k, app) \<in> set apps. k = it_appId (ia_template app)"
  shows "iu_ok env (u\<lparr>iu_apps := apps\<rparr>)"
proof -
  have "iu_calcStat env st (u\<lparr>iu_apps := apps\<rparr>) = iu_calcStat env st u" for st by (simp add: iu_calcStat_def)
  then show ?thesis using assms unfolding iu_ok_def by simp
qed

lemma iu_eraseApp_ok: "iu_ok env u \<Longrightarrow> iu_ok env (iu_eraseApp k u)"
  by (auto simp: iu_ok_def iu_eraseApp_def iu_calcStat_def distinct_map_filter)

lemma apps_registered_drop:
  assumes "\<forall>(k1, a) \<in> set apps. k1 = it_appId (ia_template a) \<and> k1 \<noteq> it_appId (ia_template app)"
  shows "filter (\<lambda>x. ie_ptr x \<notin> ie_ptr ` set (registered t (ia_effects app))) (apps_registered apps t) = apps_registered apps t"
proof (rule filter_True, rule ballI, rule notI)
  fix x assume "x \<in> set (apps_registered apps t)" and "ie_ptr x \<in> ie_ptr ` set (registered t (ia_effects app))"
  then obtain k1 a e where a: "(k1, a) \<in> set apps" "x \<in> set (ia_effects a)" and e: "e \<in> set (ia_effects app)" "ie_ptr x = ie_ptr e"
    by (auto simp: apps_registered_def registered_def)
  then have "it_appId (ia_template a) = it_appId (ia_template app)" using ia_effects_ptr by metis
  then show False using assms a(1) by auto
qed

lemma iu_finish_erase_inv:
  assumes "iu_inv env base u" and "map_of (iu_apps u) k = Some app" and "ia_effects app1 = ia_effects app" and "ia_template app1 = ia_template app"
  shows "iu_inv env base (iu_eraseApp k (ia_finish env app1 u))"
proof -
  have ok: "iu_ok env u" using assms(1) by (simp add: iu_inv_def)
  then have "distinct (map fst (iu_apps u))" by (simp add: iu_ok_def)
  with assms(2) obtain ys zs where s: "iu_apps u = ys @ (k, app) # zs" "filter (\<lambda>(k1, a). k1 \<noteq> k) (iu_apps u) = ys @ zs" "k \<notin> fst ` set (ys @ zs)"
    by (rule map_of_split)
  let ?u = "iu_eraseApp k (ia_finish env app1 u)"
  have apps: "iu_apps ?u = ys @ zs" using s(2) by (simp add: iu_eraseApp_def ia_finish_def)
  have "(k, b) \<notin> set (ys @ zs)" for b using s(3) by force
  then have k: "k = it_appId (ia_template app)" "\<forall>(k1, a) \<in> set (ys @ zs). k1 = it_appId (ia_template a) \<and> k1 \<noteq> it_appId (ia_template app)"
    using ok s(1) by (fastforce simp: iu_ok_def)+
  have "iu_list ?u t = filter (\<lambda>x. ie_ptr x \<notin> ie_ptr ` set (registered t (ia_effects app))) (apps_registered (iu_apps u) t)" for t
    using assms(1,3) ia_handleAll_drop [of env app1 "ia_effects app1" u t]
    by (simp add: iu_eraseApp_def ia_finish_def iu_inv_def iu_list_def)
  moreover have "filter (\<lambda>x. ie_ptr x \<notin> ie_ptr ` set (registered t (ia_effects app))) (apps_registered (iu_apps u) t) = apps_registered (ys @ zs) t" for t
    using apps_registered_drop [of ys app t] apps_registered_drop [of zs app t] k(2) s(1)
    by (auto simp: apps_registered_def filter_empty_conv)
  moreover have "iu_modifiers ?u st mt = i32 (base st mt + apps_total (ys @ zs) st mt)" for st mt
  proof -
    have "iu_modifiers u st mt = i32 (base st mt + apps_total (iu_apps u) st mt)" using assms(1) by (simp add: iu_inv_def)
    from ia_handleAll_modifiers [OF this, of env app1 False "ia_effects app1"]
    have "iu_modifiers ?u st mt = i32 (base st mt + apps_total (iu_apps u) st mt - effects_total app1 (ia_effects app1) st mt)"
      by (simp add: iu_eraseApp_def ia_finish_def)
    moreover have "effects_total app1 (ia_effects app1) st mt = effects_total app (ia_effects app) st mt"
      unfolding effects_total_def assms(3,4) ..
    ultimately show ?thesis by (simp add: s(1) apps_total_def algebra_simps)
  qed
  moreover have "iu_ok env ?u" unfolding ia_finish_def by (intro iu_eraseApp_ok ia_send_ok ia_handleAll_ok ok)
  ultimately show ?thesis unfolding iu_inv_def apps by simp
qed

lemma iu_finishApp_inv: "iu_inv env base u \<Longrightarrow> iu_inv env base (iu_finishApp env k u)"
  by (simp add: iu_finishApp_def iu_finish_erase_inv split: option.splits)

lemma iu_finishApp_apps: "iu_apps (iu_finishApp env k u) = filter (\<lambda>(k1, a). k1 \<noteq> k) (iu_apps u)"
proof (cases "map_of (iu_apps u) k")
  case None
  then have "filter (\<lambda>(k1, a). k1 \<noteq> k) (iu_apps u) = iu_apps u" by (intro filter_True) (force simp: map_of_eq_None_iff image_iff)
  then show ?thesis using None by (simp add: iu_finishApp_def)
qed (simp add: iu_finishApp_def iu_eraseApp_def ia_finish_def)

lemma iu_fold_inv: "(\<And>k u. P u \<Longrightarrow> P (f k u)) \<Longrightarrow> P u \<Longrightarrow> P (fold f ks u)"
  by (induction ks arbitrary: u) simp_all

lemma iu_removeAllApps_inv: "iu_inv env base u \<Longrightarrow> iu_inv env base (iu_removeAllApps env u)"
  unfolding iu_removeAllApps_def by (rule iu_fold_inv [where P = "iu_inv env base"]) (simp_all add: iu_finishApp_inv)

lemma iu_removeAllApps_empty: "iu_apps (iu_removeAllApps env u) = []"
proof -
  have f: "(\<lambda>(k1, a). k1 \<noteq> k) = (\<lambda>x. fst x \<noteq> k)" for k :: nat by auto
  have "iu_apps (fold (iu_finishApp env) ks u) = filter (\<lambda>x. fst x \<notin> set ks) (iu_apps u)" for ks
    by (induction ks arbitrary: u) (auto simp: iu_finishApp_apps f intro!: filter_cong)
  from this [of "map fst (iu_apps u)"] show ?thesis unfolding iu_removeAllApps_def by (simp add: filter_empty_conv)
qed

lemma iu_setApp_inv:
  assumes "iu_inv env base u" and "map_of (iu_apps u) k = Some app" and "ia_template app1 = ia_template app" and "ia_effects app1 = ia_effects app"
  shows "iu_inv env base (iu_setApp k app1 u)"
proof -
  have ok: "iu_ok env u" and d: "distinct (map fst (iu_apps u))" using assms(1) by (simp_all add: iu_inv_def iu_ok_def)
  have same: "a1 = app" if "(k, a1) \<in> set (iu_apps u)" for a1 using that assms(2) d by (simp add: map_of_is_SomeI)
  define apps where "apps = map (\<lambda>(k1, a1). if k1 = k then (k, app1) else (k1, a1)) (iu_apps u)"
  have e: "effects_total app1 (ia_effects app1) = effects_total app (ia_effects app)" unfolding effects_total_def assms(3,4) ..
  have f: "map fst apps = map fst (iu_apps u)" by (auto simp: apps_def)
  have "\<forall>(k, app) \<in> set apps. k = it_appId (ia_template app)"
    using ok assms(3) map_of_SomeD [OF assms(2)] by (fastforce simp: apps_def iu_ok_def split: if_splits)
  then have ok1: "iu_ok env (u\<lparr>iu_apps := apps\<rparr>)" using d f by (intro iu_ok_apps [OF ok]) simp_all
  have tot: "apps_total apps = apps_total (iu_apps u)"
    unfolding apps_total_def apps_def by (intro ext arg_cong [of _ _ sum_list]) (auto simp: e dest!: same)
  have reg: "apps_registered apps = apps_registered (iu_apps u)"
    unfolding apps_registered_def apps_def by (intro ext arg_cong [of _ _ concat]) (auto simp: assms(4) dest!: same)
  have l: "iu_list (u\<lparr>iu_apps := apps\<rparr>) = iu_list u" by (rule iu_list_cong) simp
  show ?thesis using assms(1) ok1 unfolding iu_setApp_def apps_def [symmetric] iu_inv_def l by (simp add: tot reg)
qed

lemma iu_updateApp_inv: "iu_inv env base u \<Longrightarrow> iu_inv env base (iu_updateApp env diff k u)"
proof (cases "map_of (iu_apps u) k")
  case (Some app)
  assume inv: "iu_inv env base u"
  let ?app = "app\<lparr>ia_finishTimer := delay_update diff (ia_finishTimer app)\<rparr>"
  have same: "ia_effects ?app = ia_effects app" by (simp add: ia_effects_def)
  show ?thesis
    using Some iu_finish_erase_inv [OF inv Some same] iu_setApp_inv [OF inv Some _ same] iu_setApp_inv [OF inv Some refl refl]
    by (simp add: iu_updateApp_def ia_update_def Let_def)
qed (simp add: iu_updateApp_def)

lemma iu_updateApps_inv: "iu_inv env base u \<Longrightarrow> iu_inv env base (iu_updateApps env diff u)"
  unfolding iu_updateApps_def by (rule iu_fold_inv [where P = "iu_inv env base"]) (simp_all add: iu_updateApp_inv)

lemma instants_silent:
  assumes "instants_ok env" and "en_apps env (it_appId (ia_template app)) = Some (ia_appTemplate app)"
    and "\<not> (at_duration (ia_appTemplate app) > 0 \<or> at_duration (ia_appTemplate app) = ITEM_APP_DURATION_PERMANENT)"
  shows "registered t (ia_effects app) = []" and "effects_total app (ia_effects app) st mt = 0"
proof -
  have "list_all (\<lambda>(t, v). t = 4 \<or> t = 9 \<or> gItemEffectTable t = None) (at_effects (ia_appTemplate app))"
    using assms(1) [unfolded instants_ok_def, rule_format, of "it_appId (ia_template app)"] assms(2,3) by simp
  then have e: "ie_type e = 4 \<or> ie_type e = 9 \<or> gItemEffectTable (ie_type e) = None" if "e \<in> set (ia_effects app)" for e
    using ia_effects_type [OF that] by (auto simp: list_all_iff)
  have g: "gItemEffectTable 4 = Some effectIncreaseHealthPercent" "gItemEffectTable 9 = Some effectIncreaseHealth" by (simp_all add: gItemEffectTable_def)
  show "registered t (ia_effects app) = []" using g by (auto simp: registered_def filter_empty_conv ie_registers_def dest!: e)
  have "(if gItemEffectTable (ie_type e) = Some effectApplyStats then stats_total (it_stats (ia_template app)) 1 st mt else 0) = 0"
    if "e \<in> set (ia_effects app)" for e using e [OF that] g by auto
  then show "effects_total app (ia_effects app) st mt = 0"
    unfolding effects_total_def by (simp cong: map_cong add: sum_list_0)
qed

lemma ia_execute_inv:
  assumes "iu_inv env base u" and "\<forall>t. apps_registered apps t = apps_registered (iu_apps u) t @ registered t (ia_effects app)"
    and "\<forall>st mt. apps_total apps st mt = apps_total (iu_apps u) st mt + effects_total app (ia_effects app) st mt"
    and "iu_ok env (u\<lparr>iu_apps := apps\<rparr>)"
  shows "iu_inv env base (ia_execute env app (u\<lparr>iu_apps := apps\<rparr>))"
proof -
  let ?u = "u\<lparr>iu_apps := apps\<rparr>"
  have "iu_list (ia_execute env app ?u) t = apps_registered apps t" for t
    using assms(1,2) ia_handleAll_add [of env app "ia_effects app" ?u t] by (simp add: ia_execute_def iu_inv_def iu_list_def)
  moreover have "iu_modifiers (ia_execute env app ?u) st mt = i32 (base st mt + apps_total apps st mt)" for st mt
  proof -
    have "iu_modifiers ?u st mt = i32 (base st mt + apps_total (iu_apps u) st mt)" using assms(1) by (simp add: iu_inv_def)
    from ia_handleAll_modifiers [OF this, of env app True "ia_effects app"] show ?thesis using assms(3) by (simp add: ia_execute_def add.assoc)
  qed
  moreover have "iu_ok env (ia_execute env app ?u)" unfolding ia_execute_def by (intro ia_send_ok ia_handleAll_ok assms(4))
  ultimately show ?thesis by (simp add: iu_inv_def ia_execute_def)
qed

lemma iu_applyItem_inv:
  assumes "instants_ok env" and "iu_inv env base u" and "iu_applyItem env tmpl u = Some u1"
  shows "iu_inv env base u1"
proof (cases "it_appId tmpl = ITEM_APPLICATION_NONE")
  case False
  let ?u = "iu_unapplyItem env tmpl u"
  have inv: "iu_inv env base ?u" using assms(2) by (simp add: iu_unapplyItem_def iu_finishApp_inv)
  have fresh: "it_appId tmpl \<notin> fst ` set (iu_apps ?u)" by (auto simp: iu_unapplyItem_def iu_finishApp_apps)
  obtain app where app: "ia_new env tmpl = Some app" using assms(3) False by (auto simp: iu_applyItem_def Let_def split: option.splits)
  then have a: "ia_template app = tmpl" "en_apps env (it_appId tmpl) = Some (ia_appTemplate app)" by (auto simp: ia_new_def split: option.splits)
  show ?thesis
  proof (cases "at_duration (ia_appTemplate app) > 0 \<or> at_duration (ia_appTemplate app) = ITEM_APP_DURATION_PERMANENT")
    case True
    have "u1 = ia_execute env app (?u\<lparr>iu_apps := iu_apps ?u @ [(it_appId tmpl, app)]\<rparr>)"
      using assms(3) False True app fresh by (simp add: iu_applyItem_def Let_def iu_emplaceApp_def)
    moreover have "iu_ok env (?u\<lparr>iu_apps := iu_apps ?u @ [(it_appId tmpl, app)]\<rparr>)"
      using inv fresh a by (intro iu_ok_apps) (auto simp: iu_inv_def iu_ok_def)
    ultimately show ?thesis using ia_execute_inv [OF inv, of _ app] by (simp add: apps_registered_def apps_total_def)
  next
    case dur: False
    have "u1 = ia_execute env app (?u\<lparr>iu_apps := iu_apps ?u\<rparr>)" using assms(3) False dur app by (simp add: iu_applyItem_def Let_def)
    moreover have "iu_ok env (?u\<lparr>iu_apps := iu_apps ?u\<rparr>)" using inv by (simp add: iu_inv_def)
    ultimately show ?thesis using ia_execute_inv [OF inv, of "iu_apps ?u" app] instants_silent [OF assms(1), of app] a dur by simp
  qed
qed (use assms in \<open>simp add: iu_applyItem_def\<close>)

end
