(* ===== verification/Inventory.thy ===== *)
theory Inventory
  imports Item_Effects
begin

text \<open>
  The slots of a unit, \<^verbatim>\<open>canStoreItem\<close>, \<^verbatim>\<open>storeItem\<close>, \<^verbatim>\<open>removeItem\<close> and \<^verbatim>\<open>useItem\<close> of \<^verbatim>\<open>Unit.cpp\<close> and \<^verbatim>\<open>Player.cpp\<close>,
  \<^verbatim>\<open>handleUseItem\<close> of \<^verbatim>\<open>ItemHandler.cpp\<close>, and the cooldowns of \<^verbatim>\<open>ItemCooldownProcesser\<close>, on top of the stat modifiers
  and applications of \<open>Item_Effects\<close>. A pointer to a carried item is its slot; an item dropped on the floor is an entry of
  \<open>cu_dropped\<close>. A failed assertion is \<open>None\<close>.
\<close>

section \<open>Constants and state\<close>

definition ITEM_CLASS_MAGIC_BEAN :: nat where "ITEM_CLASS_MAGIC_BEAN = 0"
definition ITEM_CLASS_EQUIPMENT :: nat where "ITEM_CLASS_EQUIPMENT = 1"
definition ITEM_CLASS_CONSUMABLE :: nat where "ITEM_CLASS_CONSUMABLE = 2"
definition ITEM_CLASS_GOLD :: nat where "ITEM_CLASS_GOLD = 3"
definition ITEM_SUBCLASS_FIRST_AID :: nat where "ITEM_SUBCLASS_FIRST_AID = 0"
definition ITEM_SUBCLASS_CONSUMABLE_OTHER :: nat where "ITEM_SUBCLASS_CONSUMABLE_OTHER = 1"
definition ITEM_STACK_UNLIMITED :: int where "ITEM_STACK_UNLIMITED = - 1"
definition ITEM_STACK_NON_STACKABLE :: int where "ITEM_STACK_NON_STACKABLE = 0"
definition INVENTORY_SLOT_CUSTOM_START :: nat where "INVENTORY_SLOT_CUSTOM_START = 5"
definition INVENTORY_SLOT_CUSTOM_END :: nat where "INVENTORY_SLOT_CUSTOM_END = 8"
definition INVENTORY_SLOT_FIRST_AID :: nat where "INVENTORY_SLOT_FIRST_AID = 8"
definition UNIT_SLOTS :: nat where "UNIT_SLOTS = 9"

lemmas item_constants = ITEM_CLASS_MAGIC_BEAN_def ITEM_CLASS_EQUIPMENT_def ITEM_CLASS_CONSUMABLE_def ITEM_CLASS_GOLD_def
  ITEM_SUBCLASS_FIRST_AID_def ITEM_SUBCLASS_CONSUMABLE_OTHER_def ITEM_STACK_UNLIMITED_def ITEM_STACK_NON_STACKABLE_def
  INVENTORY_SLOT_CUSTOM_START_def INVENTORY_SLOT_CUSTOM_END_def INVENTORY_SLOT_FIRST_AID_def UNIT_SLOTS_def

datatype pickup_status =
    PICKUP_STATUS_OK | PICKUP_STATUS_ITEM_CANT_STACK | PICKUP_STATUS_ITEM_STACK_LIMIT_EXCEEDED
  | PICKUP_STATUS_INVENTORY_CUSTOM_SLOTS_FULL | PICKUP_STATUS_ITEM_IS_EQUIPPED
  | PICKUP_STATUS_LEVEL_LOWER_THAN_EXISTING_EQUIP | PICKUP_STATUS_FORBIDDEN

record carried_item =
  ci_guid :: nat
  ci_itemId :: nat
  ci_count :: int
  ci_slot :: nat
  ci_level :: nat

record carrier =
  cu_unit :: item_unit
  cu_slots :: "carried_item option list"
  cu_money :: int
  cu_beans :: int
  cu_cooldowns :: "(nat \<times> delay_timer) list"
  cu_spawnId :: nat
  cu_dropped :: "nat list"
  cu_results :: "bool list"

text \<open>Where an item goes and how many of it; no slot is \<^verbatim>\<open>SLOT_INVALID\<close>.\<close>

type_synonym item_dest = "nat option \<times> int"

section \<open>Cooldowns\<close>

definition cd_new :: "item_env \<Rightarrow> item_template \<Rightarrow> delay_timer option" where
  "cd_new env tmpl =
     (case en_apps env (it_appId tmpl) of
        None \<Rightarrow> None
      | Some appTmpl \<Rightarrow> Some (delay_setDuration (i32 (at_recoveryTime appTmpl * 1000)) delay_new))"

definition cd_update :: "NSTime \<Rightarrow> delay_timer \<Rightarrow> bool \<times> delay_timer" where
  "cd_update diff t = (let t1 = delay_update diff t in if delay_passed t1 then (False, delay_reset t1) else (True, t1))"

definition cp_startCooldown :: "item_env \<Rightarrow> nat \<Rightarrow> carrier \<Rightarrow> carrier option" where
  "cp_startCooldown env itemId cu =
     (case en_items env itemId of
        None \<Rightarrow> None
      | Some tmpl \<Rightarrow>
          if it_appId tmpl = ITEM_APPLICATION_NONE then Some cu
          else
            (case cd_new env tmpl of
               None \<Rightarrow> None
             | Some t \<Rightarrow> Some (if itemId \<in> fst ` set (cu_cooldowns cu) then cu else cu\<lparr>cu_cooldowns := cu_cooldowns cu @ [(itemId, t)]\<rparr>)))"

definition cp_isReady :: "nat \<Rightarrow> carrier \<Rightarrow> bool" where
  "cp_isReady itemId cu = (map_of (cu_cooldowns cu) itemId = None)"

definition cp_getRemainingCooldown :: "nat \<Rightarrow> carrier \<Rightarrow> NSTime" where
  "cp_getRemainingCooldown itemId cu = (case map_of (cu_cooldowns cu) itemId of None \<Rightarrow> 0 | Some t \<Rightarrow> delay_getRemainder t)"

definition cp_removeAll :: "carrier \<Rightarrow> carrier" where
  "cp_removeAll cu = cu\<lparr>cu_cooldowns := []\<rparr>"

fun cp_updateLoop :: "NSTime \<Rightarrow> (nat \<times> delay_timer) list \<Rightarrow> (nat \<times> delay_timer) list" where
  "cp_updateLoop diff [] = []"
| "cp_updateLoop diff ((itemId, t) # cs) =
     (case cd_update diff t of (goesOn, t1) \<Rightarrow> if goesOn then (itemId, t1) # cp_updateLoop diff cs else cp_updateLoop diff cs)"

definition cp_update :: "NSTime \<Rightarrow> carrier \<Rightarrow> carrier" where
  "cp_update diff cu = cu\<lparr>cu_cooldowns := cp_updateLoop diff (cu_cooldowns cu)\<rparr>"

definition cp_buildItemCooldownList :: "carrier \<Rightarrow> (nat \<times> NSTime \<times> NSTime) list" where
  "cp_buildItemCooldownList cu = map (\<lambda>(itemId, t). (itemId, dt_duration t, delay_getRemainder t)) (cu_cooldowns cu)"

section \<open>Where an item can be stored\<close>

definition ci_canBeMergedPartlyWith :: "item_template \<Rightarrow> carried_item \<Rightarrow> pickup_status" where
  "ci_canBeMergedPartlyWith tmpl item =
     (if ci_itemId item \<noteq> it_id tmpl then PICKUP_STATUS_ITEM_CANT_STACK
      else if it_stackable tmpl \<noteq> ITEM_STACK_UNLIMITED \<and> ci_count item \<ge> it_stackable tmpl then PICKUP_STATUS_ITEM_STACK_LIMIT_EXCEEDED
      else PICKUP_STATUS_OK)"

definition cu_getCannotStoreItemCount :: "item_template \<Rightarrow> nat option \<Rightarrow> int \<Rightarrow> carrier \<Rightarrow> int" where
  "cu_getCannotStoreItemCount tmpl pos cnt cu =
     (case pos of
        None \<Rightarrow> cnt
      | Some itemPos \<Rightarrow>
          (let maxCount = (if it_stackable tmpl = ITEM_STACK_NON_STACKABLE then 1 else it_stackable tmpl)
           in if maxCount > 0 then
                (let cnt1 = (case cu_slots cu ! itemPos of None \<Rightarrow> cnt | Some item \<Rightarrow> i32 (cnt + ci_count item))
                 in if cnt1 > maxCount then cnt1 - maxCount else 0)
              else 0))"

fun cu_customLoop :: "item_template \<Rightarrow> carrier \<Rightarrow> nat list \<Rightarrow> pickup_status \<Rightarrow> nat option \<Rightarrow> pickup_status \<times> nat option" where
  "cu_customLoop tmpl cu [] status pos = (status, pos)"
| "cu_customLoop tmpl cu (i # is) status pos =
     (case cu_slots cu ! i of
        Some item \<Rightarrow>
          if ci_itemId item = it_id tmpl
          then (let st = ci_canBeMergedPartlyWith tmpl item in (st, if st = PICKUP_STATUS_OK then Some i else None))
          else cu_customLoop tmpl cu is status pos
      | None \<Rightarrow> cu_customLoop tmpl cu is status (if pos = None then Some i else pos))"

definition cu_canStoreItemInInventoryCustomSlots :: "item_template \<Rightarrow> int \<Rightarrow> carrier \<Rightarrow> pickup_status \<times> item_dest" where
  "cu_canStoreItemInInventoryCustomSlots tmpl cnt cu =
     (case cu_customLoop tmpl cu [INVENTORY_SLOT_CUSTOM_START..<INVENTORY_SLOT_CUSTOM_END] PICKUP_STATUS_INVENTORY_CUSTOM_SLOTS_FULL None of
        (status, pos) \<Rightarrow>
          (if pos \<noteq> None then PICKUP_STATUS_OK else status, pos, i32 (cnt - cu_getCannotStoreItemCount tmpl pos cnt cu)))"

definition cu_canStoreStackableItemInSpecificSlot :: "nat \<Rightarrow> item_template \<Rightarrow> int \<Rightarrow> carrier \<Rightarrow> (pickup_status \<times> item_dest) option" where
  "cu_canStoreStackableItemInSpecificSlot slot tmpl cnt cu =
     (if it_stackable tmpl = ITEM_STACK_NON_STACKABLE then None
      else
        (let status = (case cu_slots cu ! slot of None \<Rightarrow> PICKUP_STATUS_OK | Some existingItem \<Rightarrow> ci_canBeMergedPartlyWith tmpl existingItem);
             pos = (if status = PICKUP_STATUS_OK then Some slot else None)
         in Some (status, pos, i32 (cnt - cu_getCannotStoreItemCount tmpl pos cnt cu))))"

definition equip_slot :: "nat \<Rightarrow> nat option" where
  "equip_slot subClass = (if subClass < 5 then Some subClass else None)"

definition cu_canStoreItemInEquipmentSlot :: "item_template \<Rightarrow> carrier \<Rightarrow> pickup_status \<times> item_dest" where
  "cu_canStoreItemInEquipmentSlot tmpl cu =
     (case equip_slot (it_subClass tmpl) of
        None \<Rightarrow> (PICKUP_STATUS_FORBIDDEN, None, 0)
      | Some equipSlot \<Rightarrow>
          (let status =
             (case cu_slots cu ! equipSlot of
                None \<Rightarrow> PICKUP_STATUS_OK
              | Some existingItem \<Rightarrow>
                  if ci_itemId existingItem = it_id tmpl then PICKUP_STATUS_ITEM_IS_EQUIPPED
                  else if it_level tmpl > 0 \<and> ci_level existingItem > it_level tmpl then PICKUP_STATUS_LEVEL_LOWER_THAN_EXISTING_EQUIP
                  else PICKUP_STATUS_OK)
           in if status = PICKUP_STATUS_OK then (status, Some equipSlot, 1) else (status, None, 0)))"

definition cu_canStoreItem :: "item_template \<Rightarrow> int \<Rightarrow> carrier \<Rightarrow> (pickup_status \<times> item_dest) option" where
  "cu_canStoreItem tmpl cnt cu =
     (if it_class tmpl = ITEM_CLASS_CONSUMABLE then
        (if it_subClass tmpl = ITEM_SUBCLASS_FIRST_AID then cu_canStoreStackableItemInSpecificSlot INVENTORY_SLOT_FIRST_AID tmpl cnt cu
         else if it_subClass tmpl = ITEM_SUBCLASS_CONSUMABLE_OTHER then Some (cu_canStoreItemInInventoryCustomSlots tmpl cnt cu)
         else Some (PICKUP_STATUS_FORBIDDEN, None, 0))
      else if it_class tmpl = ITEM_CLASS_EQUIPMENT then Some (cu_canStoreItemInEquipmentSlot tmpl cu)
      else if it_class tmpl = ITEM_CLASS_GOLD \<or> it_class tmpl = ITEM_CLASS_MAGIC_BEAN then Some (PICKUP_STATUS_OK, None, cnt)
      else Some (PICKUP_STATUS_FORBIDDEN, None, 0))"

section \<open>Storing, removing and using\<close>

definition cu_modifyMoney :: "int \<Rightarrow> carrier \<Rightarrow> int \<times> carrier" where
  "cu_modifyMoney amount cu =
     (if amount = 0 then (0, cu)
      else if amount < 0 then
        (if cu_money cu > abs amount then (amount, cu\<lparr>cu_money := cu_money cu + amount\<rparr>) else (- cu_money cu, cu\<lparr>cu_money := 0\<rparr>))
      else (amount, cu\<lparr>cu_money := i32 (cu_money cu + amount)\<rparr>))"

definition cu_applyStats :: "item_env \<Rightarrow> item_stat list \<Rightarrow> bool \<Rightarrow> int \<Rightarrow> carrier \<Rightarrow> carrier" where
  "cu_applyStats env stats apply multiplier cu = cu\<lparr>cu_unit := iu_applyItemStats env stats apply multiplier (cu_unit cu)\<rparr>"

definition cu_modifyMagicBean :: "item_env \<Rightarrow> item_template \<Rightarrow> int \<Rightarrow> carrier \<Rightarrow> int \<times> carrier" where
  "cu_modifyMagicBean env tmpl amount cu =
     (if amount = 0 then (0, cu)
      else if amount < 0 then
        (let (amount1, count1) = (if cu_beans cu > abs amount then (amount, cu_beans cu + amount) else (- cu_beans cu, 0));
             cu1 = cu\<lparr>cu_beans := count1\<rparr>
         in (amount1, if amount1 \<noteq> 0 then cu_applyStats env (it_stats tmpl) False (abs amount1) cu1 else cu1))
      else (amount, cu_applyStats env (it_stats tmpl) True amount (cu\<lparr>cu_beans := i32 (cu_beans cu + amount)\<rparr>)))"

definition cu_setSlot :: "nat \<Rightarrow> carried_item option \<Rightarrow> carrier \<Rightarrow> carrier" where
  "cu_setSlot i c cu = cu\<lparr>cu_slots := (cu_slots cu)[i := c]\<rparr>"

definition cu_removeItem :: "item_env \<Rightarrow> carried_item \<Rightarrow> carrier \<Rightarrow> carrier option" where
  "cu_removeItem env item cu =
     (case en_items env (ci_itemId item) of
        None \<Rightarrow> None
      | Some tmpl \<Rightarrow>
          let cu1 = (if it_class tmpl = ITEM_CLASS_EQUIPMENT
                     then (let cu0 = cu_applyStats env (it_stats tmpl) False 1 cu in cu0\<lparr>cu_unit := iu_unapplyItem env tmpl (cu_unit cu0)\<rparr>)
                     else cu)
          in Some (cu_setSlot (ci_slot item) None cu1))"

definition cu_drop :: "carried_item \<Rightarrow> carrier \<Rightarrow> carrier" where
  "cu_drop item cu = cu\<lparr>cu_dropped := cu_dropped cu @ [ci_itemId item]\<rparr>"

definition cu_generateCarriedItemSpawnId :: "carrier \<Rightarrow> (nat \<times> carrier) option" where
  "cu_generateCarriedItemSpawnId cu =
     (let i = (cu_spawnId cu + 1) mod 2 ^ 32 in if i \<le> 16777215 then Some (i, cu\<lparr>cu_spawnId := i\<rparr>) else None)"

definition ci_loadData :: "item_env \<Rightarrow> nat \<Rightarrow> int \<Rightarrow> nat \<Rightarrow> carrier \<Rightarrow> (carried_item \<times> carrier) option" where
  "ci_loadData env itemId cnt slot cu =
     (case cu_generateCarriedItemSpawnId cu of
        None \<Rightarrow> None
      | Some (guid, cu1) \<Rightarrow>
          (case en_items env itemId of
             None \<Rightarrow> None
           | Some tmpl \<Rightarrow> Some (\<lparr>ci_guid = guid, ci_itemId = itemId, ci_count = cnt, ci_slot = slot, ci_level = it_level tmpl\<rparr>, cu1)))"

definition cu_createItem :: "item_env \<Rightarrow> item_template \<Rightarrow> nat \<Rightarrow> int \<Rightarrow> carrier \<Rightarrow> carrier option" where
  "cu_createItem env tmpl pos cnt cu =
     (case ci_loadData env (it_id tmpl mod 65536) cnt pos cu of
        None \<Rightarrow> None
      | Some (newItem, cu1) \<Rightarrow>
          let cu2 = cu_setSlot pos (Some newItem) cu1
          in if it_class tmpl = ITEM_CLASS_EQUIPMENT
             then (let cu3 = cu_applyStats env (it_stats tmpl) True 1 cu2
                   in case iu_applyItem env tmpl (cu_unit cu3) of None \<Rightarrow> None | Some u \<Rightarrow> Some (cu3\<lparr>cu_unit := u\<rparr>))
             else Some cu2)"

definition cu_increaseItemCount :: "item_env \<Rightarrow> carried_item \<Rightarrow> int \<Rightarrow> carrier \<Rightarrow> carrier option" where
  "cu_increaseItemCount env item cnt cu =
     (case en_items env (ci_itemId item) of
        None \<Rightarrow> None
      | Some tmpl \<Rightarrow>
          if it_stackable tmpl = ITEM_STACK_NON_STACKABLE then None
          else Some (cu_setSlot (ci_slot item) (Some (item\<lparr>ci_count := i32 (ci_count item + cnt)\<rparr>)) cu))"

definition cu_decreaseItemCount :: "item_env \<Rightarrow> carried_item \<Rightarrow> carrier \<Rightarrow> (int \<times> carrier) option" where
  "cu_decreaseItemCount env item cu =
     (case en_items env (ci_itemId item) of
        None \<Rightarrow> None
      | Some tmpl \<Rightarrow>
          if it_stackable tmpl = ITEM_STACK_NON_STACKABLE then None
          else
            (let newCount = max 0 (ci_count item - 1)
             in Some (newCount, cu_setSlot (ci_slot item) (Some (item\<lparr>ci_count := newCount\<rparr>)) cu)))"

definition cu_storeItem :: "item_env \<Rightarrow> item_template \<Rightarrow> item_dest \<Rightarrow> carrier \<Rightarrow> carrier option" where
  "cu_storeItem env tmpl dest cu =
     (if it_class tmpl = ITEM_CLASS_GOLD then Some (snd (cu_modifyMoney (snd dest) cu))
      else if it_class tmpl = ITEM_CLASS_MAGIC_BEAN then Some (snd (cu_modifyMagicBean env tmpl (snd dest) cu))
      else
        (case fst dest of
           None \<Rightarrow> None
         | Some pos \<Rightarrow>
             (case cu_slots cu ! pos of
                None \<Rightarrow> cu_createItem env tmpl pos (snd dest) cu
              | Some existingItem \<Rightarrow>
                  if it_class tmpl = ITEM_CLASS_EQUIPMENT
                  then (case cu_removeItem env existingItem (cu_drop existingItem cu) of
                          None \<Rightarrow> None
                        | Some cu1 \<Rightarrow> cu_createItem env tmpl pos (snd dest) cu1)
                  else if it_class tmpl = ITEM_CLASS_CONSUMABLE then cu_increaseItemCount env existingItem (snd dest) cu
                  else Some cu)))"

definition cu_receiveItem :: "item_env \<Rightarrow> nat \<Rightarrow> int \<Rightarrow> carrier \<Rightarrow> carrier option" where
  "cu_receiveItem env itemId cnt cu =
     (case en_items env itemId of
        None \<Rightarrow> None
      | Some tmpl \<Rightarrow>
          (case cu_canStoreItem tmpl cnt cu of
             None \<Rightarrow> None
           | Some (status, dest) \<Rightarrow> if status \<noteq> PICKUP_STATUS_OK then Some cu else cu_storeItem env tmpl dest cu))"

fun cu_removeLoop :: "item_env \<Rightarrow> nat list \<Rightarrow> carrier \<Rightarrow> carrier option" where
  "cu_removeLoop env [] cu = Some cu"
| "cu_removeLoop env (i # is) cu =
     (case cu_slots cu ! i of
        None \<Rightarrow> cu_removeLoop env is cu
      | Some carriedItem \<Rightarrow> (case cu_removeItem env carriedItem cu of None \<Rightarrow> None | Some cu1 \<Rightarrow> cu_removeLoop env is cu1))"

definition cu_removeAllItems :: "item_env \<Rightarrow> carrier \<Rightarrow> carrier option" where
  "cu_removeAllItems env cu = cu_removeLoop env [0..<UNIT_SLOTS] cu"

definition cu_takeItem :: "item_env \<Rightarrow> carried_item \<Rightarrow> carrier \<Rightarrow> carrier option" where
  "cu_takeItem env item cu =
     (case cu_decreaseItemCount env item cu of
        None \<Rightarrow> None
      | Some (newCount, cu1) \<Rightarrow> if newCount \<le> 0 then cu_removeItem env item cu1 else Some cu1)"

definition cu_canUseItem :: "item_env \<Rightarrow> carried_item \<Rightarrow> carrier \<Rightarrow> bool option" where
  \<comment> \<open>the template is read without a test\<close>
  "cu_canUseItem env item cu =
     (case en_items env (ci_itemId item) of
        None \<Rightarrow> None
      | Some tmpl \<Rightarrow> Some (it_class tmpl = ITEM_CLASS_CONSUMABLE \<and> cp_isReady (ci_itemId item) cu))"

definition cu_sendItemUseResult :: "bool \<Rightarrow> carrier \<Rightarrow> carrier" where
  "cu_sendItemUseResult ok cu = cu\<lparr>cu_results := cu_results cu @ [ok]\<rparr>"

definition cu_useItem :: "item_env \<Rightarrow> carried_item \<Rightarrow> carrier \<Rightarrow> carrier option" where
  "cu_useItem env item cu =
     (case en_items env (ci_itemId item) of
        None \<Rightarrow> None
      | Some tmpl \<Rightarrow>
          (case cp_startCooldown env (ci_itemId item) cu of
             None \<Rightarrow> None
           | Some cu1 \<Rightarrow>
               let cu2 = cu_sendItemUseResult True cu1
               in (case iu_applyItem env tmpl (cu_unit cu2) of
                     None \<Rightarrow> None
                   | Some u \<Rightarrow> cu_takeItem env item (cu2\<lparr>cu_unit := u\<rparr>))))"

definition cu_getItem :: "int \<Rightarrow> carrier \<Rightarrow> carried_item option" where
  "cu_getItem slot cu = (if 0 \<le> slot \<and> slot < int UNIT_SLOTS then cu_slots cu ! nat slot else None)"

definition cu_handleUseItem :: "item_env \<Rightarrow> int \<Rightarrow> nat \<Rightarrow> carrier \<Rightarrow> carrier option" where
  "cu_handleUseItem env slot itemGuid cu =
     (case cu_getItem slot cu of
        None \<Rightarrow> Some (cu_sendItemUseResult False cu)
      | Some item \<Rightarrow>
          if ci_guid item \<noteq> itemGuid then Some (cu_sendItemUseResult False cu)
          else if en_items env (ci_itemId item) = None then Some (cu_sendItemUseResult False cu)
          else
            (case cu_canUseItem env item cu of
               None \<Rightarrow> None
             | Some False \<Rightarrow> Some (cu_sendItemUseResult False cu)
             | Some True \<Rightarrow> cu_useItem env item cu))"

definition cu_update :: "item_env \<Rightarrow> NSTime \<Rightarrow> carrier \<Rightarrow> carrier" where
  "cu_update env diff cu = cp_update diff (cu\<lparr>cu_unit := iu_updateApps env diff (cu_unit cu)\<rparr>)"

definition cu_die :: "item_env \<Rightarrow> carrier \<Rightarrow> carrier option" where
  "cu_die env cu =
     (case cu_removeAllItems env cu of
        None \<Rightarrow> None
      | Some cu1 \<Rightarrow>
          let cu2 = cp_removeAll cu1;
              u = iu_removeAllApps env (cu_unit cu2)
          in Some (cu2\<lparr>cu_unit := u\<lparr>iu_health := 0\<rparr>, cu_beans := 0\<rparr>))"

definition cu_new :: "item_env \<Rightarrow> carrier" where
  "cu_new env =
     \<lparr>cu_unit = \<lparr>iu_modifiers = (\<lambda>st mt. 0), iu_stats = (\<lambda>st. if st = STAT_DEFENSE then 0 else en_calc env st 0 0), iu_effects = (\<lambda>t. None),
        iu_health = 0, iu_apps = [], iu_events = []\<rparr>,
      cu_slots = replicate UNIT_SLOTS None, cu_money = 0, cu_beans = 0, cu_cooldowns = [], cu_spawnId = 0,
      cu_dropped = [], cu_results = []\<rparr>"

section \<open>Invariant\<close>

definition equip_stats :: "item_env \<Rightarrow> carried_item option \<Rightarrow> stat_type \<Rightarrow> stat_modifier_type \<Rightarrow> int" where
  "equip_stats env c st mt =
     (case c of
        None \<Rightarrow> 0
      | Some item \<Rightarrow>
          (case en_items env (ci_itemId item) of
             None \<Rightarrow> 0
           | Some tmpl \<Rightarrow> if it_class tmpl = ITEM_CLASS_EQUIPMENT then stats_total (it_stats tmpl) 1 st mt else 0))"

definition equip_total :: "item_env \<Rightarrow> carried_item option list \<Rightarrow> stat_type \<Rightarrow> stat_modifier_type \<Rightarrow> int" where
  "equip_total env slots st mt = sum_list (map (\<lambda>c. equip_stats env c st mt) slots)"

definition item_ok :: "item_env \<Rightarrow> nat \<Rightarrow> carried_item option \<Rightarrow> bool" where
  "item_ok env i c =
     (case c of
        None \<Rightarrow> True
      | Some item \<Rightarrow>
          ci_slot item = i \<and>
          (case en_items env (ci_itemId item) of
             None \<Rightarrow> False
           | Some tmpl \<Rightarrow>
               if it_class tmpl = ITEM_CLASS_EQUIPMENT then i < INVENTORY_SLOT_CUSTOM_START
               else it_class tmpl = ITEM_CLASS_CONSUMABLE \<and> INVENTORY_SLOT_CUSTOM_START \<le> i
                 \<and> (it_stackable tmpl > 0 \<longrightarrow> 1 \<le> ci_count item \<and> ci_count item \<le> it_stackable tmpl)))"

definition cu_inv :: "item_env \<Rightarrow> (stat_type \<Rightarrow> stat_modifier_type \<Rightarrow> int) \<Rightarrow> carrier \<Rightarrow> bool" where
  "cu_inv env base cu \<longleftrightarrow> length (cu_slots cu) = UNIT_SLOTS \<and> (\<forall>i < UNIT_SLOTS. item_ok env i (cu_slots cu ! i))
     \<and> iu_inv env (\<lambda>st mt. base st mt + equip_total env (cu_slots cu) st mt) (cu_unit cu)"

definition items_ok :: "item_env \<Rightarrow> bool" where
  \<comment> \<open>what the tables promise: a template is found by its key, a consumable can be stacked, an application exists\<close>
  "items_ok env \<longleftrightarrow> instants_ok env \<and>
     (\<forall>k. case en_items env k of None \<Rightarrow> True
       | Some tmpl \<Rightarrow> it_id tmpl = k \<and> k < 65536 \<and> it_stackable tmpl \<le> 1073741824
           \<and> (it_class tmpl = ITEM_CLASS_CONSUMABLE \<longrightarrow> it_stackable tmpl \<noteq> ITEM_STACK_NON_STACKABLE)
           \<and> (it_appId tmpl \<noteq> ITEM_APPLICATION_NONE \<longrightarrow> en_apps env (it_appId tmpl) \<noteq> None))"

lemma items_okD:
  assumes "items_ok env" and "en_items env k = Some tmpl"
  shows "instants_ok env" and "it_id tmpl = k" and "k < 65536" and "it_stackable tmpl \<le> 1073741824"
    and "it_class tmpl = ITEM_CLASS_CONSUMABLE \<Longrightarrow> it_stackable tmpl \<noteq> ITEM_STACK_NON_STACKABLE"
    and "it_appId tmpl \<noteq> ITEM_APPLICATION_NONE \<Longrightarrow> en_apps env (it_appId tmpl) \<noteq> None"
  using assms(1) [unfolded items_ok_def, THEN conjunct2, rule_format, of k] assms by (simp_all add: items_ok_def)

lemma equip_total_update:
  "i < length slots \<Longrightarrow> equip_total env (slots[i := c]) st mt = equip_total env slots st mt - equip_stats env (slots ! i) st mt + equip_stats env c st mt"
proof (induction slots arbitrary: i)
  case (Cons x xs)
  then show ?case by (cases i) (simp_all add: equip_total_def)
qed simp

lemma iu_inv_cong:
  assumes "iu_inv env base u" and "\<And>st mt. base1 st mt = base st mt"
  shows "iu_inv env base1 u"
  using assms by (simp add: iu_inv_def)

lemma iu_inv_health: "iu_inv env base u \<Longrightarrow> iu_inv env base (u\<lparr>iu_health := h\<rparr>)"
proof -
  assume a: "iu_inv env base u"
  then have "iu_ok env u" by (simp add: iu_inv_def)
  then have "iu_ok env (u\<lparr>iu_health := h\<rparr>)" by (rule iu_ok_cong) (use \<open>iu_ok env u\<close> in \<open>simp_all add: iu_ok_nonempty\<close>)
  then show ?thesis using a by (simp add: iu_inv_def iu_list_def)
qed

lemma iu_inv_stats:
  assumes "iu_inv env base u"
  shows "iu_inv env (\<lambda>st mt. base st mt + (if b then 1 else - 1) * stats_total stats m st mt) (iu_applyItemStats env stats b m u)"
proof -
  have "iu_modifiers (iu_applyItemStats env stats b m u) st mt
      = i32 (base st mt + apps_total (iu_apps u) st mt + (if b then 1 else - 1) * stats_total stats m st mt)" for st mt
    using assms by (intro iu_applyItemStats_modifiers) (simp add: iu_inv_def)
  then show ?thesis using assms iu_applyItemStats_ok [of env u stats b m]
    unfolding iu_inv_def by (simp add: iu_list_def algebra_simps)
qed

lemma cu_inv_slot:
  assumes "cu_inv env base cu" and "i < UNIT_SLOTS" and "item_ok env i c"
    and "iu_inv env (\<lambda>st mt. base st mt + equip_total env (cu_slots cu) st mt - equip_stats env (cu_slots cu ! i) st mt + equip_stats env c st mt) u"
    and "cu_slots cu1 = (cu_slots cu)[i := c]" and "cu_unit cu1 = u"
  shows "cu_inv env base cu1"
proof -
  have l: "length (cu_slots cu) = UNIT_SLOTS" using assms(1) by (simp add: cu_inv_def)
  have "item_ok env j ((cu_slots cu)[i := c] ! j)" if "j < UNIT_SLOTS" for j
    using assms(1,3) that l by (cases "j = i") (simp_all add: cu_inv_def)
  moreover have "iu_inv env (\<lambda>st mt. base st mt + equip_total env ((cu_slots cu)[i := c]) st mt) u"
    using assms(4) by (rule iu_inv_cong) (use l assms(2) in \<open>simp add: equip_total_update\<close>)
  ultimately show ?thesis using l assms(5,6) by (simp add: cu_inv_def)
qed

lemma iu_applyItem_total:
  assumes "items_ok env" and "en_items env k = Some tmpl" and "iu_inv env base u"
  obtains u1 where "iu_applyItem env tmpl u = Some u1" "iu_inv env base u1"
proof -
  have "iu_applyItem env tmpl u \<noteq> None"
    using items_okD(6) [OF assms(1,2)]
    by (cases "it_appId tmpl = ITEM_APPLICATION_NONE") (auto simp: iu_applyItem_def ia_new_def Let_def split: option.splits)
  then obtain u1 where "iu_applyItem env tmpl u = Some u1" by blast
  then show thesis using that iu_applyItem_inv [OF items_okD(1) [OF assms(1,2)] assms(3)] by blast
qed

section \<open>Every operation keeps it\<close>

lemma cu_removeItem_inv:
  assumes "items_ok env" and "cu_inv env base cu" and "i < UNIT_SLOTS" and "cu_slots cu ! i = Some item0"
    and "ci_itemId item = ci_itemId item0" and "ci_slot item = i"
  obtains cu1 where "cu_removeItem env item cu = Some cu1" "cu_inv env base cu1" "cu_slots cu1 = (cu_slots cu)[i := None]" "cu_spawnId cu1 = cu_spawnId cu"
proof -
  have "item_ok env i (Some item0)" using assms(2,3,4) by (metis cu_inv_def)
  then obtain tmpl where tmpl: "en_items env (ci_itemId item) = Some tmpl" using assms(5) by (auto simp: item_ok_def split: option.splits)
  let ?b = "\<lambda>st mt. base st mt + equip_total env (cu_slots cu) st mt"
  have inv: "iu_inv env ?b (cu_unit cu)" using assms(2) by (simp add: cu_inv_def)
  define u where "u = (if it_class tmpl = ITEM_CLASS_EQUIPMENT
    then iu_unapplyItem env tmpl (iu_applyItemStats env (it_stats tmpl) False 1 (cu_unit cu)) else cu_unit cu)"
  define cu1 where "cu1 = cu\<lparr>cu_unit := u, cu_slots := (cu_slots cu)[i := None]\<rparr>"
  have e: "cu_removeItem env item cu = Some cu1"
    using tmpl assms(6) by (simp add: cu_removeItem_def cu_applyStats_def cu_setSlot_def Let_def cu1_def u_def)
  have i1: "iu_inv env (\<lambda>st mt. ?b st mt - equip_stats env (cu_slots cu ! i) st mt + equip_stats env None st mt) u"
  proof (cases "it_class tmpl = ITEM_CLASS_EQUIPMENT")
    case True
    then have "iu_inv env (\<lambda>st mt. ?b st mt + (if False then 1 else - 1) * stats_total (it_stats tmpl) 1 st mt) u"
      using iu_finishApp_inv [OF iu_inv_stats [OF inv, of False "it_stats tmpl" 1], of "it_appId tmpl"] unfolding u_def iu_unapplyItem_def by simp
    then show ?thesis by (rule iu_inv_cong) (use True tmpl assms(4,5) in \<open>simp add: equip_stats_def\<close>)
  next
    case False
    show ?thesis using inv unfolding u_def using False
      by (simp, elim iu_inv_cong) (use False tmpl assms(4,5) in \<open>simp add: equip_stats_def\<close>)
  qed
  have "cu_inv env base cu1" by (rule cu_inv_slot [OF assms(2,3) _ i1]) (simp_all add: cu1_def item_ok_def)
  then show thesis using that e by (simp add: cu1_def)
qed

lemma cu_createItem_inv:
  assumes "items_ok env" and "cu_inv env base cu" and "i < UNIT_SLOTS" and "cu_slots cu ! i = None"
    and "en_items env k = Some tmpl" and "cu_spawnId cu < 16777215"
    and "if it_class tmpl = ITEM_CLASS_EQUIPMENT then i < INVENTORY_SLOT_CUSTOM_START
      else it_class tmpl = ITEM_CLASS_CONSUMABLE \<and> INVENTORY_SLOT_CUSTOM_START \<le> i \<and> (it_stackable tmpl > 0 \<longrightarrow> 1 \<le> cnt \<and> cnt \<le> it_stackable tmpl)"
  obtains cu1 where "cu_createItem env tmpl i cnt cu = Some cu1" "cu_inv env base cu1" "cu_spawnId cu1 = cu_spawnId cu + 1"
proof -
  have k: "it_id tmpl mod 65536 = k" using items_okD(2,3) [OF assms(1,5)] by simp
  let ?item = "\<lparr>ci_guid = cu_spawnId cu + 1, ci_itemId = k, ci_count = cnt, ci_slot = i, ci_level = it_level tmpl\<rparr>"
  define cu2 where "cu2 = cu\<lparr>cu_spawnId := cu_spawnId cu + 1, cu_slots := (cu_slots cu)[i := Some ?item]\<rparr>"
  have load: "ci_loadData env (it_id tmpl mod 65536) cnt i cu = Some (?item, cu\<lparr>cu_spawnId := cu_spawnId cu + 1\<rparr>)"
    using assms(5,6) unfolding k by (simp add: ci_loadData_def cu_generateCarriedItemSpawnId_def Let_def)
  let ?b = "\<lambda>st mt. base st mt + equip_total env (cu_slots cu) st mt"
  have inv: "iu_inv env ?b (cu_unit cu)" using assms(2) by (simp add: cu_inv_def)
  have item: "item_ok env i (Some ?item)" using assms(5,7) by (simp add: item_ok_def)
  show thesis
  proof (cases "it_class tmpl = ITEM_CLASS_EQUIPMENT")
    case True
    obtain u1 where u1: "iu_applyItem env tmpl (iu_applyItemStats env (it_stats tmpl) True 1 (cu_unit cu)) = Some u1"
        "iu_inv env (\<lambda>st mt. ?b st mt + (if True then 1 else - 1) * stats_total (it_stats tmpl) 1 st mt) u1"
      using iu_applyItem_total [OF assms(1,5) iu_inv_stats [OF inv, of True "it_stats tmpl" 1]] by blast
    have "iu_inv env (\<lambda>st mt. ?b st mt - equip_stats env (cu_slots cu ! i) st mt + equip_stats env (Some ?item) st mt) u1"
      using u1(2) by (rule iu_inv_cong) (use True assms(4,5) in \<open>simp add: equip_stats_def\<close>)
    then have "cu_inv env base (cu2\<lparr>cu_unit := u1\<rparr>)"
      by (rule cu_inv_slot [OF assms(2,3) item]) (simp_all add: cu2_def)
    then show thesis using that [of "cu2\<lparr>cu_unit := u1\<rparr>"] load True u1(1)
      by (simp add: cu_createItem_def cu_setSlot_def cu_applyStats_def cu2_def Let_def)
  next
    case False
    have "iu_inv env (\<lambda>st mt. ?b st mt - equip_stats env (cu_slots cu ! i) st mt + equip_stats env (Some ?item) st mt) (cu_unit cu)"
      using inv by (rule iu_inv_cong) (use False assms(4,5) in \<open>simp add: equip_stats_def\<close>)
    then have "cu_inv env base cu2" by (rule cu_inv_slot [OF assms(2,3) item]) (simp_all add: cu2_def)
    then show thesis using that [of cu2] load False by (simp add: cu_createItem_def cu_setSlot_def cu2_def Let_def)
  qed
qed

lemma cu_recount_inv:
  assumes "cu_inv env base cu" and "i < UNIT_SLOTS" and "cu_slots cu ! i = Some item" and "en_items env (ci_itemId item) = Some tmpl"
    and "it_class tmpl \<noteq> ITEM_CLASS_EQUIPMENT" and "it_stackable tmpl > 0 \<longrightarrow> 1 \<le> n \<and> n \<le> it_stackable tmpl"
  shows "cu_inv env base (cu_setSlot i (Some (item\<lparr>ci_count := n\<rparr>)) cu)"
proof -
  have ok: "item_ok env i (Some item)" using assms(1-3) by (metis cu_inv_def)
  have inv: "iu_inv env (\<lambda>st mt. base st mt + equip_total env (cu_slots cu) st mt) (cu_unit cu)" using assms(1) by (simp add: cu_inv_def)
  have "iu_inv env (\<lambda>st mt. base st mt + equip_total env (cu_slots cu) st mt - equip_stats env (cu_slots cu ! i) st mt
      + equip_stats env (Some (item\<lparr>ci_count := n\<rparr>)) st mt) (cu_unit cu)"
    using inv by (rule iu_inv_cong) (use assms(3) in \<open>simp add: equip_stats_def\<close>)
  moreover have "item_ok env i (Some (item\<lparr>ci_count := n\<rparr>))" using ok assms(4-6) by (simp add: item_ok_def)
  ultimately show ?thesis by (intro cu_inv_slot [OF assms(1,2)]) (simp_all add: cu_setSlot_def)
qed

section \<open>Where an item goes\<close>

definition dest_ok :: "item_template \<Rightarrow> carrier \<Rightarrow> nat \<Rightarrow> bool" where
  \<comment> \<open>a free slot, or a stack of the same item that is not full\<close>
  "dest_ok tmpl cu i \<longleftrightarrow> INVENTORY_SLOT_CUSTOM_START \<le> i \<and> i < UNIT_SLOTS \<and>
     (case cu_slots cu ! i of None \<Rightarrow> True | Some item \<Rightarrow> ci_itemId item = it_id tmpl \<and> (it_stackable tmpl > 0 \<longrightarrow> ci_count item < it_stackable tmpl))"

lemma ci_merge_ok: "ci_canBeMergedPartlyWith tmpl item = PICKUP_STATUS_OK \<Longrightarrow>
    ci_itemId item = it_id tmpl \<and> (it_stackable tmpl > 0 \<longrightarrow> ci_count item < it_stackable tmpl)"
  by (auto simp: ci_canBeMergedPartlyWith_def ITEM_STACK_UNLIMITED_def split: if_splits)

lemma cu_customLoop_ok:
  assumes "cu_customLoop tmpl cu is status pos = (status1, Some i)" and "\<forall>i\<in>set is. INVENTORY_SLOT_CUSTOM_START \<le> i \<and> i < UNIT_SLOTS"
    and "\<forall>i. pos = Some i \<longrightarrow> dest_ok tmpl cu i"
  shows "dest_ok tmpl cu i"
  using assms
proof (induction "is" arbitrary: pos)
  case (Cons j js)
  show ?case
  proof (cases "cu_slots cu ! j")
    case None
    then have "dest_ok tmpl cu j" using Cons.prems(2) by (simp add: dest_ok_def)
    then show ?thesis using None Cons.IH [of "if pos = None then Some j else pos"] Cons.prems by auto
  next
    case (Some item)
    show ?thesis
    proof (cases "ci_itemId item = it_id tmpl")
      case True
      then have "ci_canBeMergedPartlyWith tmpl item = PICKUP_STATUS_OK" "i = j"
        using Some Cons.prems(1) by (auto simp: Let_def split: if_splits)
      then show ?thesis using ci_merge_ok [of tmpl item] Some Cons.prems(2) by (simp add: dest_ok_def)
    qed (use Some Cons in auto)
  qed
qed simp

lemma cu_space:
  assumes "dest_ok tmpl cu i" and "cu_inv env base cu" and "en_items env k = Some tmpl" and "items_ok env" and "0 < cnt" and "cnt < 1073741824"
    and "it_stackable tmpl > 0" and "it_class tmpl \<noteq> ITEM_CLASS_EQUIPMENT"
  shows "let n = i32 (cnt - cu_getCannotStoreItemCount tmpl (Some i) cnt cu) in
    1 \<le> n \<and> n + (case cu_slots cu ! i of None \<Rightarrow> 0 | Some item \<Rightarrow> ci_count item) \<le> it_stackable tmpl"
proof -
  have st: "it_stackable tmpl \<le> 1073741824" "it_id tmpl = k" using items_okD [OF assms(4,3)] by simp_all
  have i: "i < UNIT_SLOTS" using assms(1) by (simp add: dest_ok_def)
  show ?thesis
  proof (cases "cu_slots cu ! i")
    case None
    then show ?thesis using assms(5-7) st
      by (auto simp: cu_getCannotStoreItemCount_def Let_def ITEM_STACK_NON_STACKABLE_def i32_id int32_range_def)
  next
    case (Some item)
    then have "ci_itemId item = k" "ci_count item < it_stackable tmpl" using assms(1,7) st(2) by (simp_all add: dest_ok_def)
    moreover have "item_ok env i (Some item)" using assms(2) i Some by (metis cu_inv_def)
    ultimately have c: "1 \<le> ci_count item" "ci_count item < it_stackable tmpl" using assms(3,7,8) by (simp_all add: item_ok_def)
    then have "i32 (cnt + ci_count item) = cnt + ci_count item" using assms(5,6) st(1) by (intro i32_id) (simp add: int32_range_def)
    then show ?thesis using Some c assms(5-7) st
      by (auto simp: cu_getCannotStoreItemCount_def Let_def ITEM_STACK_NON_STACKABLE_def i32_id int32_range_def)
  qed
qed

lemma cu_consumable_dest:
  assumes "it_class tmpl = ITEM_CLASS_CONSUMABLE" and "cu_canStoreItem tmpl cnt cu = Some (PICKUP_STATUS_OK, dest)"
  obtains i where "dest = (Some i, i32 (cnt - cu_getCannotStoreItemCount tmpl (Some i) cnt cu))" "dest_ok tmpl cu i"
proof (cases "it_subClass tmpl = ITEM_SUBCLASS_FIRST_AID")
  case True
  let ?s = "case cu_slots cu ! INVENTORY_SLOT_FIRST_AID of None \<Rightarrow> PICKUP_STATUS_OK | Some x \<Rightarrow> ci_canBeMergedPartlyWith tmpl x"
  have s: "?s = PICKUP_STATUS_OK" and d: "dest = (Some INVENTORY_SLOT_FIRST_AID, i32 (cnt - cu_getCannotStoreItemCount tmpl (Some INVENTORY_SLOT_FIRST_AID) cnt cu))"
    using assms True by (auto simp: cu_canStoreItem_def cu_canStoreStackableItemInSpecificSlot_def Let_def split: if_splits)
  have "dest_ok tmpl cu INVENTORY_SLOT_FIRST_AID"
    using s ci_merge_ok [of tmpl] by (auto simp: dest_ok_def item_constants split: option.splits)
  then show thesis using that d by blast
next
  case False
  obtain status pos where l: "cu_customLoop tmpl cu [INVENTORY_SLOT_CUSTOM_START..<INVENTORY_SLOT_CUSTOM_END] PICKUP_STATUS_INVENTORY_CUSTOM_SLOTS_FULL None = (status, pos)"
    by force
  have sub: "it_subClass tmpl = ITEM_SUBCLASS_CONSUMABLE_OTHER" using assms False by (auto simp: cu_canStoreItem_def split: if_splits)
  have d: "dest = (pos, i32 (cnt - cu_getCannotStoreItemCount tmpl pos cnt cu))" "pos \<noteq> None \<or> status = PICKUP_STATUS_OK"
    using assms False sub l by (auto simp: cu_canStoreItem_def cu_canStoreItemInInventoryCustomSlots_def split: if_splits)
  have "status1 \<noteq> PICKUP_STATUS_OK \<or> pos1 \<noteq> None" if "cu_customLoop tmpl cu is st0 p0 = (status1, pos1)" "st0 \<noteq> PICKUP_STATUS_OK" for "is" st0 p0 status1 pos1
    using that by (induction "is" arbitrary: p0) (auto simp: Let_def split: option.splits if_splits)
  from this [OF l] d(2) obtain i where i: "pos = Some i" by auto
  have "dest_ok tmpl cu i" using cu_customLoop_ok [OF l [unfolded i]] by (simp add: item_constants)
  then show thesis using that d(1) i by blast
qed

lemma cu_storeConsumable_inv:
  assumes "items_ok env" and "cu_inv env base cu" and "en_items env k = Some tmpl" and "it_class tmpl = ITEM_CLASS_CONSUMABLE"
    and "cu_canStoreItem tmpl cnt cu = Some (PICKUP_STATUS_OK, dest)" and "0 < cnt" and "cnt < 1073741824" and "cu_spawnId cu < 16777215"
  obtains cu1 where "cu_storeItem env tmpl dest cu = Some cu1" "cu_inv env base cu1" "cu_spawnId cu1 \<le> cu_spawnId cu + 1"
proof -
  obtain i where i: "dest = (Some i, i32 (cnt - cu_getCannotStoreItemCount tmpl (Some i) cnt cu))" "dest_ok tmpl cu i"
    by (rule cu_consumable_dest [OF assms(4,5)])
  let ?n = "snd dest"
  have il: "i < UNIT_SLOTS" "INVENTORY_SLOT_CUSTOM_START \<le> i" using i(2) by (simp_all add: dest_ok_def)
  have cls: "it_class tmpl \<noteq> ITEM_CLASS_EQUIPMENT" "it_class tmpl \<noteq> ITEM_CLASS_GOLD" "it_class tmpl \<noteq> ITEM_CLASS_MAGIC_BEAN"
    using assms(4) by (simp_all add: item_constants)
  have n: "it_stackable tmpl > 0 \<Longrightarrow> 1 \<le> ?n \<and> ?n + (case cu_slots cu ! i of None \<Rightarrow> 0 | Some item \<Rightarrow> ci_count item) \<le> it_stackable tmpl"
    using cu_space [OF i(2) assms(2,3,1,6,7) _ cls(1)] i(1) by (simp add: Let_def)
  show thesis
  proof (cases "cu_slots cu ! i")
    case None
    have "if it_class tmpl = ITEM_CLASS_EQUIPMENT then i < INVENTORY_SLOT_CUSTOM_START
      else it_class tmpl = ITEM_CLASS_CONSUMABLE \<and> INVENTORY_SLOT_CUSTOM_START \<le> i \<and> (it_stackable tmpl > 0 \<longrightarrow> 1 \<le> ?n \<and> ?n \<le> it_stackable tmpl)"
      using n cls(1) assms(4) il(2) None by simp
    then obtain cu1 where "cu_createItem env tmpl i ?n cu = Some cu1" "cu_inv env base cu1" "cu_spawnId cu1 = cu_spawnId cu + 1"
      by (rule cu_createItem_inv [OF assms(1,2) il(1) None assms(3,8)])
    then show thesis using that None i(1) cls by (simp add: cu_storeItem_def)
  next
    case (Some item)
    have st: "it_stackable tmpl \<noteq> ITEM_STACK_NON_STACKABLE" "it_id tmpl = k" "it_stackable tmpl \<le> 1073741824"
      using items_okD [OF assms(1,3)] assms(4) by simp_all
    have item: "ci_itemId item = k" using i(2) Some st(2) by (simp add: dest_ok_def)
    have ok: "item_ok env i (Some item)" using assms(2) il(1) Some by (metis cu_inv_def)
    let ?m = "i32 (ci_count item + ?n)"
    have "it_stackable tmpl > 0 \<longrightarrow> 1 \<le> ?m \<and> ?m \<le> it_stackable tmpl"
    proof
      assume p: "it_stackable tmpl > 0"
      then have "1 \<le> ci_count item" using ok item assms(3) cls(1) by (simp add: item_ok_def)
      then show "1 \<le> ?m \<and> ?m \<le> it_stackable tmpl" using n [OF p] Some st(3) by (simp add: i32_id int32_range_def)
    qed
    then have "cu_inv env base (cu_setSlot i (Some (item\<lparr>ci_count := ?m\<rparr>)) cu)"
      using cu_recount_inv [OF assms(2) il(1) Some _ cls(1)] item assms(3) by simp
    moreover have "cu_storeItem env tmpl dest cu = Some (cu_setSlot i (Some (item\<lparr>ci_count := ?m\<rparr>)) cu)"
      using i(1) Some cls assms(3,4) item st(1) ok by (simp add: cu_storeItem_def cu_increaseItemCount_def item_ok_def)
    ultimately show thesis using that by (simp add: cu_setSlot_def)
  qed
qed

lemma cu_equip_dest:
  assumes "cu_canStoreItemInEquipmentSlot tmpl cu = (PICKUP_STATUS_OK, dest)"
  obtains i where "dest = (Some i, 1)" "i < INVENTORY_SLOT_CUSTOM_START"
  using assms by (auto simp: cu_canStoreItemInEquipmentSlot_def equip_slot_def Let_def item_constants split: if_splits option.splits)

lemma cu_storeEquipment_inv:
  assumes "items_ok env" and "cu_inv env base cu" and "en_items env k = Some tmpl" and "it_class tmpl = ITEM_CLASS_EQUIPMENT"
    and "cu_canStoreItem tmpl cnt cu = Some (PICKUP_STATUS_OK, dest)" and "cu_spawnId cu < 16777215"
  obtains cu1 where "cu_storeItem env tmpl dest cu = Some cu1" "cu_inv env base cu1" "cu_spawnId cu1 \<le> cu_spawnId cu + 1"
proof -
  have "cu_canStoreItemInEquipmentSlot tmpl cu = (PICKUP_STATUS_OK, dest)" using assms(4,5) by (simp add: cu_canStoreItem_def item_constants)
  then obtain i where i: "dest = (Some i, 1)" "i < INVENTORY_SLOT_CUSTOM_START" by (rule cu_equip_dest)
  have il: "i < UNIT_SLOTS" using i(2) by (simp add: item_constants)
  have cls: "it_class tmpl \<noteq> ITEM_CLASS_GOLD" "it_class tmpl \<noteq> ITEM_CLASS_MAGIC_BEAN" using assms(4) by (simp_all add: item_constants)
  show thesis
  proof (cases "cu_slots cu ! i")
    case None
    obtain cu1 where "cu_createItem env tmpl i 1 cu = Some cu1" "cu_inv env base cu1" "cu_spawnId cu1 = cu_spawnId cu + 1"
      using cu_createItem_inv [OF assms(1,2) il None assms(3,6), of 1] assms(4) i(2) by auto
    then show thesis using that None i(1) cls by (simp add: cu_storeItem_def)
  next
    case (Some item)
    let ?cu = "cu_drop item cu"
    have inv: "cu_inv env base ?cu" using assms(2) by (simp add: cu_drop_def cu_inv_def)
    have "item_ok env i (Some item)" using assms(2) il Some by (metis cu_inv_def)
    then have slot: "ci_slot item = i" by (simp add: item_ok_def)
    have "cu_slots ?cu ! i = Some item" using Some by (simp add: cu_drop_def)
    then obtain cu1 where r: "cu_removeItem env item ?cu = Some cu1" "cu_inv env base cu1" "cu_slots cu1 = (cu_slots ?cu)[i := None]" "cu_spawnId cu1 = cu_spawnId ?cu"
      by (rule cu_removeItem_inv [OF assms(1) inv il _ refl slot])
    have l: "i < length (cu_slots ?cu)" using inv il by (simp add: cu_inv_def)
    have sp: "cu_spawnId cu1 < 16777215" "cu_slots cu1 ! i = None" using r assms(6) l by (simp_all add: cu_drop_def)
    obtain cu2 where "cu_createItem env tmpl i 1 cu1 = Some cu2" "cu_inv env base cu2" "cu_spawnId cu2 = cu_spawnId cu1 + 1"
      using cu_createItem_inv [OF assms(1) r(2) il sp(2) assms(3) sp(1), of 1] assms(4) i(2) by auto
    then show thesis using that Some i(1) cls assms(4) r by (simp add: cu_storeItem_def cu_drop_def)
  qed
qed

lemma cu_receiveItem_inv:
  assumes "items_ok env" and "cu_inv env base cu" and "en_items env k = Some tmpl" and "0 < cnt" and "cnt < 1073741824" and "cu_spawnId cu < 16777215"
  obtains cu1 where "cu_receiveItem env k cnt cu = Some cu1"
    "cu_inv env (\<lambda>st mt. base st mt + (if it_class tmpl = ITEM_CLASS_MAGIC_BEAN then stats_total (it_stats tmpl) cnt st mt else 0)) cu1"
    "cu_spawnId cu1 \<le> cu_spawnId cu + 1"
proof -
  consider (bean) "it_class tmpl = ITEM_CLASS_MAGIC_BEAN" | (gold) "it_class tmpl = ITEM_CLASS_GOLD"
    | (eq) "it_class tmpl = ITEM_CLASS_EQUIPMENT" | (cons) "it_class tmpl = ITEM_CLASS_CONSUMABLE"
    | (other) "it_class tmpl \<notin> {ITEM_CLASS_MAGIC_BEAN, ITEM_CLASS_GOLD, ITEM_CLASS_EQUIPMENT, ITEM_CLASS_CONSUMABLE}" by blast
  then show thesis
  proof cases
    case bean
    let ?cu = "cu_applyStats env (it_stats tmpl) True cnt (cu\<lparr>cu_beans := i32 (cu_beans cu + cnt)\<rparr>)"
    have "iu_inv env (\<lambda>st mt. base st mt + equip_total env (cu_slots cu) st mt + (if True then 1 else - 1) * stats_total (it_stats tmpl) cnt st mt)
        (iu_applyItemStats env (it_stats tmpl) True cnt (cu_unit cu))"
      using assms(2) by (intro iu_inv_stats) (simp add: cu_inv_def)
    then have "iu_inv env (\<lambda>st mt. (base st mt + stats_total (it_stats tmpl) cnt st mt) + equip_total env (cu_slots cu) st mt)
        (iu_applyItemStats env (it_stats tmpl) True cnt (cu_unit cu))" by (rule iu_inv_cong) simp
    then have "cu_inv env (\<lambda>st mt. base st mt + stats_total (it_stats tmpl) cnt st mt) ?cu"
      using assms(2) by (simp add: cu_inv_def cu_applyStats_def)
    moreover have "cu_receiveItem env k cnt cu = Some ?cu"
      using assms(3,4) bean by (simp add: cu_receiveItem_def cu_canStoreItem_def cu_storeItem_def cu_modifyMagicBean_def item_constants)
    ultimately show thesis using that [of ?cu] bean by (simp add: cu_applyStats_def)
  next
    case gold
    have "cu_inv env base (cu\<lparr>cu_money := i32 (cu_money cu + cnt)\<rparr>)" using assms(2) by (simp add: cu_inv_def)
    then show thesis using that [of "cu\<lparr>cu_money := i32 (cu_money cu + cnt)\<rparr>"] assms(3,4) gold
      by (simp add: cu_receiveItem_def cu_canStoreItem_def cu_storeItem_def cu_modifyMoney_def item_constants)
  next
    case eq
    obtain status dest where c: "cu_canStoreItem tmpl cnt cu = Some (status, dest)"
      using eq by (cases "cu_canStoreItemInEquipmentSlot tmpl cu") (simp add: cu_canStoreItem_def item_constants)
    show thesis
    proof (cases "status = PICKUP_STATUS_OK")
      case True
      obtain cu1 where "cu_storeItem env tmpl dest cu = Some cu1" "cu_inv env base cu1" "cu_spawnId cu1 \<le> cu_spawnId cu + 1"
        by (rule cu_storeEquipment_inv [OF assms(1-3) eq c [unfolded True] assms(6)])
      then show thesis using that assms(3) c True eq by (simp add: cu_receiveItem_def item_constants)
    qed (use that [of cu] assms(2,3) c eq in \<open>simp add: cu_receiveItem_def item_constants\<close>)
  next
    case cons
    have st: "it_stackable tmpl \<noteq> ITEM_STACK_NON_STACKABLE" using items_okD(5) [OF assms(1,3) cons] .
    then have "cu_canStoreItem tmpl cnt cu \<noteq> None" using cons by (cases "cu_canStoreItemInInventoryCustomSlots tmpl cnt cu") (simp add: cu_canStoreItem_def cu_canStoreStackableItemInSpecificSlot_def Let_def)
    then obtain status dest where c: "cu_canStoreItem tmpl cnt cu = Some (status, dest)" by auto
    show thesis
    proof (cases "status = PICKUP_STATUS_OK")
      case True
      obtain cu1 where "cu_storeItem env tmpl dest cu = Some cu1" "cu_inv env base cu1" "cu_spawnId cu1 \<le> cu_spawnId cu + 1"
        by (rule cu_storeConsumable_inv [OF assms(1-3) cons c [unfolded True] assms(4-6)])
      then show thesis using that assms(3) c True cons by (simp add: cu_receiveItem_def item_constants)
    qed (use that [of cu] assms(2,3) c cons in \<open>simp add: cu_receiveItem_def item_constants\<close>)
  next
    case other
    then show thesis using that [of cu] assms(2,3) by (simp add: cu_receiveItem_def cu_canStoreItem_def)
  qed
qed

lemma cu_inv_frame:
  assumes "cu_inv env base cu" and "cu_slots cu1 = cu_slots cu"
    and "iu_inv env (\<lambda>st mt. base st mt + equip_total env (cu_slots cu) st mt) (cu_unit cu1)"
  shows "cu_inv env base cu1"
  using assms by (simp add: cu_inv_def)

lemma cu_takeItem_inv:
  assumes "items_ok env" and "cu_inv env base cu" and "i < UNIT_SLOTS" and "cu_slots cu ! i = Some item"
    and "en_items env (ci_itemId item) = Some tmpl" and "it_class tmpl = ITEM_CLASS_CONSUMABLE"
  obtains cu1 where "cu_takeItem env item cu = Some cu1" "cu_inv env base cu1" "cu_spawnId cu1 = cu_spawnId cu"
proof -
  have ok: "item_ok env i (Some item)" using assms(2-4) by (metis cu_inv_def)
  have slot: "ci_slot item = i" using ok by (simp add: item_ok_def)
  have cls: "it_class tmpl \<noteq> ITEM_CLASS_EQUIPMENT" using assms(6) by (simp add: item_constants)
  have l: "i < length (cu_slots cu)" using assms(2,3) by (simp add: cu_inv_def)
  let ?n = "max 0 (ci_count item - 1)"
  let ?cu = "cu_setSlot i (Some (item\<lparr>ci_count := ?n\<rparr>)) cu"
  have d: "cu_decreaseItemCount env item cu = Some (?n, ?cu)"
    using items_okD(5) [OF assms(1,5,6)] assms(5) slot by (simp add: cu_decreaseItemCount_def Let_def)
  show thesis
  proof (cases "?n \<le> 0")
    case False
    have "cu_inv env base ?cu"
      using cu_recount_inv [OF assms(2-5) cls, of ?n] ok assms(5) cls False by (auto simp: item_ok_def)
    then show thesis using that [of ?cu] d False by (simp add: cu_takeItem_def cu_setSlot_def)
  next
    case True
    obtain cu1 where r: "cu_removeItem env item cu = Some cu1" "cu_inv env base cu1" "cu_slots cu1 = (cu_slots cu)[i := None]" "cu_spawnId cu1 = cu_spawnId cu"
      by (rule cu_removeItem_inv [OF assms(1-4) refl slot])
    have "cu_removeItem env item ?cu = Some cu1"
      using r(1) assms(5) cls slot by (simp add: cu_removeItem_def cu_setSlot_def Let_def)
    then show thesis using that [of cu1] d True r by (simp add: cu_takeItem_def)
  qed
qed

lemma cp_startCooldown_total:
  assumes "items_ok env" and "en_items env k = Some tmpl"
  obtains cu1 where "cp_startCooldown env k cu = Some cu1" "cu_slots cu1 = cu_slots cu" "cu_unit cu1 = cu_unit cu" "cu_spawnId cu1 = cu_spawnId cu"
proof (cases "it_appId tmpl = ITEM_APPLICATION_NONE")
  case True
  then show thesis using that assms(2) by (simp add: cp_startCooldown_def)
next
  case False
  then obtain a where "en_apps env (it_appId tmpl) = Some a" using items_okD(6) [OF assms] by blast
  then show thesis using that assms(2) False by (simp add: cp_startCooldown_def cd_new_def)
qed

lemma cu_handleUseItem_inv:
  assumes "items_ok env" and "cu_inv env base cu"
  obtains cu1 where "cu_handleUseItem env slot guid cu = Some cu1" "cu_inv env base cu1" "cu_spawnId cu1 = cu_spawnId cu"
proof -
  let ?r = "cu_sendItemUseResult False cu"
  have r: "cu_inv env base ?r" "cu_spawnId ?r = cu_spawnId cu" using assms(2) by (simp_all add: cu_sendItemUseResult_def cu_inv_def)
  show thesis
  proof (cases "cu_getItem slot cu")
    case None
    then show thesis using that r by (simp add: cu_handleUseItem_def)
  next
    case (Some item)
    then have i: "nat slot < UNIT_SLOTS" "cu_slots cu ! nat slot = Some item" by (auto simp: cu_getItem_def split: if_splits)
    show thesis
    proof (cases "ci_guid item = guid \<and> cu_canUseItem env item cu = Some True")
      case False
      then have "cu_handleUseItem env slot guid cu = Some ?r"
        using Some by (auto simp: cu_handleUseItem_def cu_canUseItem_def split: option.splits bool.splits)
      then show thesis using that r by blast
    next
      case True
      then obtain tmpl where t: "en_items env (ci_itemId item) = Some tmpl" "it_class tmpl = ITEM_CLASS_CONSUMABLE"
        by (auto simp: cu_canUseItem_def split: option.splits)
      obtain cu1 where c1: "cp_startCooldown env (ci_itemId item) cu = Some cu1" "cu_slots cu1 = cu_slots cu" "cu_unit cu1 = cu_unit cu" "cu_spawnId cu1 = cu_spawnId cu"
        by (rule cp_startCooldown_total [OF assms(1) t(1)])
      have inv: "iu_inv env (\<lambda>st mt. base st mt + equip_total env (cu_slots cu) st mt) (cu_unit cu)" using assms(2) by (simp add: cu_inv_def)
      obtain u where u: "iu_applyItem env tmpl (cu_unit cu) = Some u" "iu_inv env (\<lambda>st mt. base st mt + equip_total env (cu_slots cu) st mt) u"
        by (rule iu_applyItem_total [OF assms(1) t(1) inv])
      let ?cu = "(cu_sendItemUseResult True cu1)\<lparr>cu_unit := u\<rparr>"
      have "cu_inv env base ?cu" using u(2) c1 by (intro cu_inv_frame [OF assms(2)]) (simp_all add: cu_sendItemUseResult_def)
      moreover have "cu_slots ?cu ! nat slot = Some item" using i c1 by (simp add: cu_sendItemUseResult_def)
      ultimately obtain cu2 where "cu_takeItem env item ?cu = Some cu2" "cu_inv env base cu2" "cu_spawnId cu2 = cu_spawnId ?cu"
        using cu_takeItem_inv [OF assms(1) _ i(1) _ t] by blast
      then show thesis using that Some True t(1) c1 u(1) by (simp add: cu_handleUseItem_def cu_useItem_def cu_sendItemUseResult_def Let_def)
    qed
  qed
qed

lemma cu_update_inv: "cu_inv env base cu \<Longrightarrow> cu_inv env base (cu_update env diff cu) \<and> cu_spawnId (cu_update env diff cu) = cu_spawnId cu"
  by (simp add: cu_inv_def cu_update_def cp_update_def iu_updateApps_inv)

lemma cu_removeLoop_inv:
  assumes "items_ok env" and "cu_inv env base cu" and "\<forall>i\<in>set is. i < UNIT_SLOTS"
  shows "\<exists>cu1. cu_removeLoop env is cu = Some cu1 \<and> cu_inv env base cu1 \<and> cu_spawnId cu1 = cu_spawnId cu
    \<and> (\<forall>i < UNIT_SLOTS. cu_slots cu1 ! i = (if i \<in> set is then None else cu_slots cu ! i))"
  using assms(2,3)
proof (induction "is" arbitrary: cu)
  case (Cons i "is")
  show ?case
  proof (cases "cu_slots cu ! i")
    case None
    then show ?thesis using Cons.IH [of cu] Cons.prems by auto
  next
    case (Some item)
    have i: "i < UNIT_SLOTS" using Cons.prems(2) by simp
    have "item_ok env i (Some item)" using Cons.prems(1) i Some by (metis cu_inv_def)
    then have slot: "ci_slot item = i" by (simp add: item_ok_def)
    obtain cu1 where r: "cu_removeItem env item cu = Some cu1" "cu_inv env base cu1" "cu_slots cu1 = (cu_slots cu)[i := None]" "cu_spawnId cu1 = cu_spawnId cu"
      by (rule cu_removeItem_inv [OF assms(1) Cons.prems(1) i Some refl slot])
    have l: "length (cu_slots cu) = UNIT_SLOTS" using Cons.prems(1) by (simp add: cu_inv_def)
    obtain cu2 where "cu_removeLoop env is cu1 = Some cu2" "cu_inv env base cu2" "cu_spawnId cu2 = cu_spawnId cu1"
        "\<forall>j < UNIT_SLOTS. cu_slots cu2 ! j = (if j \<in> set is then None else cu_slots cu1 ! j)"
      using Cons.IH [OF r(2)] Cons.prems(2) by auto
    then show ?thesis using Some r l by (auto simp: nth_list_update)
  qed
qed simp

lemma cu_die_inv:
  assumes "items_ok env" and "cu_inv env base cu"
  obtains cu1 where "cu_die env cu = Some cu1" "cu_inv env base cu1" "cu_spawnId cu1 = cu_spawnId cu"
    "cu_slots cu1 = replicate UNIT_SLOTS None" "iu_apps (cu_unit cu1) = []" "cu_cooldowns cu1 = []" "cu_beans cu1 = 0"
proof -
  obtain cu1 where r: "cu_removeAllItems env cu = Some cu1" "cu_inv env base cu1" "cu_spawnId cu1 = cu_spawnId cu"
      "\<forall>i < UNIT_SLOTS. cu_slots cu1 ! i = None"
    using cu_removeLoop_inv [OF assms, of "[0..<UNIT_SLOTS]"] unfolding cu_removeAllItems_def by auto
  have e: "cu_slots cu1 = replicate UNIT_SLOTS None" using r(2,4) by (intro nth_equalityI) (simp_all add: cu_inv_def)
  have "iu_inv env (\<lambda>st mt. base st mt + equip_total env (cu_slots cu1) st mt) ((iu_removeAllApps env (cu_unit cu1))\<lparr>iu_health := 0\<rparr>)"
    using r(2) by (intro iu_inv_health iu_removeAllApps_inv) (simp add: cu_inv_def)
  then have "cu_inv env base ((cp_removeAll cu1)\<lparr>cu_unit := (iu_removeAllApps env (cu_unit cu1))\<lparr>iu_health := 0\<rparr>, cu_beans := 0\<rparr>)"
    by (intro cu_inv_frame [OF r(2)]) (simp_all add: cp_removeAll_def)
  then show thesis using that r e iu_removeAllApps_empty [of env "cu_unit cu1"] by (simp add: cu_die_def Let_def cp_removeAll_def)
qed

lemma cu_new_inv: "cu_inv env (\<lambda>st mt. 0) (cu_new env)"
proof -
  have "equip_total env (replicate n None) st mt = 0" for n st mt by (induction n) (simp_all add: equip_total_def equip_stats_def)
  then show ?thesis
    by (simp add: cu_inv_def cu_new_def item_ok_def iu_inv_def iu_ok_def iu_list_def apps_registered_def apps_total_def iu_calcStat_def i32_def)
qed

section \<open>Sequences of calls\<close>

datatype carrier_op = CReceive nat int | CUse int nat | CUpdate NSTime | CDie

fun cu_apply :: "item_env \<Rightarrow> carrier_op \<Rightarrow> carrier \<Rightarrow> carrier option" where
  "cu_apply env (CReceive itemId cnt) cu = cu_receiveItem env itemId cnt cu"
| "cu_apply env (CUse slot guid) cu = cu_handleUseItem env slot guid cu"
| "cu_apply env (CUpdate diff) cu = Some (cu_update env diff cu)"
| "cu_apply env CDie cu = cu_die env cu"

fun cu_run :: "item_env \<Rightarrow> carrier_op list \<Rightarrow> carrier \<Rightarrow> carrier option" where
  "cu_run env [] cu = Some cu"
| "cu_run env (c # cs) cu = (case cu_apply env c cu of None \<Rightarrow> None | Some cu1 \<Rightarrow> cu_run env cs cu1)"

fun carrier_op_ok :: "item_env \<Rightarrow> carrier_op \<Rightarrow> bool" where
  "carrier_op_ok env (CReceive itemId cnt) = (en_items env itemId \<noteq> None \<and> 0 < cnt \<and> cnt < 1073741824)"
| "carrier_op_ok env c = True"

fun bean_stats :: "item_env \<Rightarrow> carrier_op list \<Rightarrow> stat_type \<Rightarrow> stat_modifier_type \<Rightarrow> int" where
  \<comment> \<open>what the magic beans picked up add to a modifier\<close>
  "bean_stats env [] st mt = 0"
| "bean_stats env (c # cs) st mt =
     (case c of
        CReceive itemId cnt \<Rightarrow>
          (case en_items env itemId of
             None \<Rightarrow> 0
           | Some tmpl \<Rightarrow> if it_class tmpl = ITEM_CLASS_MAGIC_BEAN then stats_total (it_stats tmpl) cnt st mt else 0)
      | _ \<Rightarrow> 0) + bean_stats env cs st mt"

lemma cu_apply_inv:
  assumes "items_ok env" and "cu_inv env base cu" and "carrier_op_ok env c" and "cu_spawnId cu < 16777215"
  obtains cu1 where "cu_apply env c cu = Some cu1" "cu_inv env (\<lambda>st mt. base st mt + bean_stats env [c] st mt) cu1" "cu_spawnId cu1 \<le> cu_spawnId cu + 1"
proof (cases c)
  case (CReceive k cnt)
  then obtain tmpl where t: "en_items env k = Some tmpl" and n: "0 < cnt" "cnt < 1073741824" using assms(3) by auto
  obtain cu1 where r: "cu_receiveItem env k cnt cu = Some cu1"
      "cu_inv env (\<lambda>st mt. base st mt + (if it_class tmpl = ITEM_CLASS_MAGIC_BEAN then stats_total (it_stats tmpl) cnt st mt else 0)) cu1"
      "cu_spawnId cu1 \<le> cu_spawnId cu + 1"
    by (rule cu_receiveItem_inv [OF assms(1,2) t n assms(4)])
  have "(\<lambda>st mt. base st mt + bean_stats env [c] st mt)
      = (\<lambda>st mt. base st mt + (if it_class tmpl = ITEM_CLASS_MAGIC_BEAN then stats_total (it_stats tmpl) cnt st mt else 0))"
    using CReceive t by (intro ext) simp
  then show thesis using that [of cu1] r CReceive by simp
next
  case (CUse slot guid)
  obtain cu1 where "cu_handleUseItem env slot guid cu = Some cu1" "cu_inv env base cu1" "cu_spawnId cu1 = cu_spawnId cu"
    by (rule cu_handleUseItem_inv [OF assms(1,2)])
  then show thesis using that [of cu1] CUse by simp
next
  case (CUpdate diff)
  then show thesis using that [of "cu_update env diff cu"] cu_update_inv [OF assms(2), of diff] by simp
next
  case CDie
  obtain cu1 where "cu_die env cu = Some cu1" "cu_inv env base cu1" "cu_spawnId cu1 = cu_spawnId cu" by (rule cu_die_inv [OF assms(1,2)])
  then show thesis using that [of cu1] CDie by simp
qed

lemma cu_run_inv:
  assumes "items_ok env" and "cu_inv env base cu" and "list_all (carrier_op_ok env) cs" and "cu_spawnId cu + length cs < 16777216"
  shows "\<exists>cu1. cu_run env cs cu = Some cu1 \<and> cu_inv env (\<lambda>st mt. base st mt + bean_stats env cs st mt) cu1"
  using assms(2-4)
proof (induction cs arbitrary: base cu)
  case (Cons c cs)
  obtain cu1 where c: "cu_apply env c cu = Some cu1" "cu_inv env (\<lambda>st mt. base st mt + bean_stats env [c] st mt) cu1" "cu_spawnId cu1 \<le> cu_spawnId cu + 1"
    using cu_apply_inv [OF assms(1) Cons.prems(1), of c] Cons.prems(2,3) by auto
  have "\<exists>cu2. cu_run env cs cu1 = Some cu2 \<and> cu_inv env (\<lambda>st mt. base st mt + bean_stats env [c] st mt + bean_stats env cs st mt) cu2"
    using Cons.IH [OF c(2)] c(3) Cons.prems by simp
  then show ?case using c(1) by (simp add: add.assoc)
qed simp

section \<open>Properties\<close>

text \<open>
  C31: Whatever a unit picks up, uses, lets run out and loses by dying, no assertion of the inventory fails, provided the
  tables are sound; and at every moment each stat modifier is, in 32 bit arithmetic, what the magic beans, the equipment it
  wears and the item applications in force add to it, no more and no less; the effects registered of a type are those
  of the applications in force; every stack holds between one item and its limit, in a slot of its kind. Dying empties all
  slots and leaves of the modifiers only those of the beans.
\<close>

theorem unit_items_balance:
  assumes "items_ok env" and "list_all (carrier_op_ok env) cs" and "length cs < 16777216"
  shows "\<exists>cu cu1. cu_run env cs (cu_new env) = Some cu \<and> cu_die env cu = Some cu1
    \<and> (\<forall>st mt. iu_modifiers (cu_unit cu) st mt =
          i32 (bean_stats env cs st mt + equip_total env (cu_slots cu) st mt + apps_total (iu_apps (cu_unit cu)) st mt))
    \<and> (\<forall>t. iu_list (cu_unit cu) t = apps_registered (iu_apps (cu_unit cu)) t \<and> iu_hasItemEffectType t (cu_unit cu) = (apps_registered (iu_apps (cu_unit cu)) t \<noteq> []))
    \<and> (\<forall>i < UNIT_SLOTS. item_ok env i (cu_slots cu ! i))
    \<and> cu_slots cu1 = replicate UNIT_SLOTS None \<and> (\<forall>t. \<not> iu_hasItemEffectType t (cu_unit cu1))
    \<and> (\<forall>st mt. iu_modifiers (cu_unit cu1) st mt = i32 (bean_stats env cs st mt))"
proof -
  have "cu_spawnId (cu_new env) = 0" by (simp add: cu_new_def)
  then obtain cu where cu: "cu_run env cs (cu_new env) = Some cu" "cu_inv env (bean_stats env cs) cu"
    using cu_run_inv [OF assms(1) cu_new_inv assms(2)] assms(3) by auto
  obtain cu1 where d: "cu_die env cu = Some cu1" "cu_inv env (bean_stats env cs) cu1" "cu_slots cu1 = replicate UNIT_SLOTS None" "iu_apps (cu_unit cu1) = []"
    by (rule cu_die_inv [OF assms(1) cu(2)])
  have has: "iu_hasItemEffectType t (cu_unit c) = (apps_registered (iu_apps (cu_unit c)) t \<noteq> [])" if "cu_inv env b c" for t b c
    using that iu_ok_nonempty [of env "cu_unit c" t]
    by (auto simp: iu_hasItemEffectType_def cu_inv_def iu_inv_def iu_list_def split: option.splits)
  have "equip_total env (replicate n None) st mt = 0" for n st mt by (induction n) (simp_all add: equip_total_def equip_stats_def)
  then have "iu_modifiers (cu_unit cu1) st mt = i32 (bean_stats env cs st mt)" for st mt
    using d(2-4) by (simp add: cu_inv_def iu_inv_def apps_total_def)
  moreover have "\<not> iu_hasItemEffectType t (cu_unit cu1)" for t using has [OF d(2)] d(4) by (simp add: apps_registered_def)
  ultimately show ?thesis using cu d has [OF cu(2)] by (simp add: cu_inv_def iu_inv_def)
qed

definition shop_env :: item_env where
  \<comment> \<open>a jacket, the beans, first aid and a potion of the table of items\<close>
  "shop_env =
     \<lparr>en_items = (\<lambda>k.
        if k = 1 then Some \<lparr>it_id = 1, it_class = 2, it_subClass = 0, it_stackable = 2, it_level = 0, it_appId = 1, it_stats = []\<rparr>
        else if k = 2 then Some \<lparr>it_id = 2, it_class = 2, it_subClass = 1, it_stackable = 1, it_level = 0, it_appId = 2,
          it_stats = [\<lparr>is_type = 12, is_value = 50\<rparr>, \<lparr>is_type = 5, is_value = 73\<rparr>]\<rparr>
        else if k = 5 then Some \<lparr>it_id = 5, it_class = 0, it_subClass = 0, it_stackable = - 1, it_level = 0, it_appId = 0,
          it_stats = [\<lparr>is_type = 9, is_value = 4\<rparr>, \<lparr>is_type = 12, is_value = 1\<rparr>]\<rparr>
        else if k = 11 then Some \<lparr>it_id = 11, it_class = 1, it_subClass = 1, it_stackable = 0, it_level = 3, it_appId = 8,
          it_stats = [\<lparr>is_type = 15, is_value = 44\<rparr>]\<rparr>
        else None),
      en_apps = (\<lambda>k.
        if k = 1 then Some \<lparr>at_flags = 0, at_visualId = 5, at_duration = 0, at_recoveryTime = 10, at_effects = [(9, 600)]\<rparr>
        else if k = 2 then Some \<lparr>at_flags = 1, at_visualId = 1, at_duration = 30, at_recoveryTime = 30, at_effects = [(1, 0)]\<rparr>
        else if k = 8 then Some \<lparr>at_flags = 0, at_visualId = 0, at_duration = - 1, at_recoveryTime = 0, at_effects = [(3, - 15)]\<rparr>
        else None),
      en_calc = (\<lambda>st p v. v), en_percent = (\<lambda>v m. v)\<rparr>"

lemma shop_env_ok: "items_ok shop_env"
  by (auto simp: items_ok_def instants_ok_def shop_env_def item_constants ITEM_APPLICATION_NONE_def ITEM_APP_DURATION_PERMANENT_def)

theorem unit_items_balance_witness:
  "items_ok shop_env \<and> list_all (carrier_op_ok shop_env) [CReceive 11 1, CReceive 5 2, CReceive 2 1, CUse 5 2, CUpdate 1000]
   \<and> (\<exists>cu cu1. cu_run shop_env [CReceive 11 1, CReceive 5 2, CReceive 2 1, CUse 5 2, CUpdate 1000] (cu_new shop_env) = Some cu
       \<and> cu_die shop_env cu = Some cu1 \<and> iu_modifiers (cu_unit cu1) STAT_MAX_STAMINA STAT_MODIFIER_VALUE = 8)"
proof -
  let ?cs = "[CReceive 11 1, CReceive 5 2, CReceive 2 1, CUse 5 2, CUpdate 1000]"
  have ok: "list_all (carrier_op_ok shop_env) ?cs" by (simp add: shop_env_def)
  have b: "i32 (bean_stats shop_env ?cs STAT_MAX_STAMINA STAT_MODIFIER_VALUE) = 8"
    by (simp add: shop_env_def item_constants stats_total_def item_stat_target_def i32_id int32_range_def)
  have len: "length ?cs < 16777216" by simp
  from unit_items_balance [OF shop_env_ok ok len] b show ?thesis using shop_env_ok ok by metis
qed

lemma cp_updateLoop_map_of:
  "distinct (map fst cs) \<Longrightarrow> map_of (cp_updateLoop diff cs) k =
     (case map_of cs k of None \<Rightarrow> None | Some t \<Rightarrow> if delay_passed (delay_update diff t) then None else Some (delay_update diff t))"
proof (induction cs)
  case (Cons c cs)
  obtain k1 t where c: "c = (k1, t)" by force
  have "map_of cs k1 = None" using Cons.prems c by (simp add: map_of_eq_None_iff)
  then show ?case using Cons c by (auto simp: cd_update_def Let_def split: option.splits)
qed simp

lemma cp_updateLoop_keys: "set (map fst (cp_updateLoop diff cs)) \<subseteq> set (map fst cs)"
proof (induction cs)
  case (Cons c cs)
  then show ?case by (cases c) (auto simp: cd_update_def Let_def)
qed simp

lemma cp_updateLoop_distinct: "distinct (map fst cs) \<Longrightarrow> distinct (map fst (cp_updateLoop diff cs))"
proof (induction diff cs rule: cp_updateLoop.induct)
  case (2 diff k t cs)
  then show ?case using cp_updateLoop_keys [of diff cs] by (cases "cd_update diff t") auto
qed simp

lemma cp_update_map_of:
  assumes "distinct (map fst (cu_cooldowns cu))"
  shows "distinct (map fst (cu_cooldowns (cp_update d cu)))"
    and "map_of (cu_cooldowns (cp_update d cu)) k =
     (case map_of (cu_cooldowns cu) k of None \<Rightarrow> None | Some t \<Rightarrow> if delay_passed (delay_update d t) then None else Some (delay_update d t))"
  using cp_updateLoop_distinct [OF assms] cp_updateLoop_map_of [OF assms] by (simp_all add: cp_update_def)

lemma cp_run_idle:
  "distinct (map fst (cu_cooldowns cu)) \<Longrightarrow> map_of (cu_cooldowns cu) k = None \<Longrightarrow> cp_isReady k (fold cp_update ds cu)"
proof (induction ds arbitrary: cu)
  case (Cons d ds)
  then show ?case using cp_update_map_of [OF Cons.prems(1)] by simp
qed (simp add: cp_isReady_def)

lemma cp_run_ready:
  assumes "list_all (\<lambda>d. 0 \<le> d \<and> int32_range d) ds" and "distinct (map fst (cu_cooldowns cu))"
    and "map_of (cu_cooldowns cu) k = Some t" and "0 < dt_current t" and "int32_range (dt_current t)"
  shows "cp_isReady k (fold cp_update ds cu) = (dt_current t \<le> sum_list ds)"
  using assms
proof (induction ds arbitrary: cu t)
  case (Cons d ds)
  have ds: "0 \<le> sum_list ds" using Cons.prems(1) by (auto simp: list_all_iff intro!: sum_list_nonneg)
  have u: "dt_current (delay_update d t) = dt_current t - d" "int32_range (dt_current (delay_update d t))"
    using delay_update_nonneg [of d t] Cons.prems by auto
  note m = cp_update_map_of [OF Cons.prems(2), of d]
  show ?case
  proof (cases "dt_current t \<le> d")
    case True
    then have "map_of (cu_cooldowns (cp_update d cu)) k = None" using m(2) Cons.prems(3) u by (simp add: delay_passed_def)
    then show ?thesis using cp_run_idle [OF m(1)] True ds by simp
  next
    case False
    then have "map_of (cu_cooldowns (cp_update d cu)) k = Some (delay_update d t)" using m(2) Cons.prems(3) u by (simp add: delay_passed_def)
    then have "cp_isReady k (fold cp_update ds (cp_update d cu)) = (dt_current (delay_update d t) \<le> sum_list ds)"
      using Cons.IH [OF _ m(1)] Cons.prems(1) u False by simp
    then show ?thesis using u by auto
  qed
qed (simp add: cp_isReady_def)

text \<open>
  C32: An item that is ready and whose cooldown is started cannot be used again until the ticks since then add up to its
  recovery time, and from then on it can; starting it once more meanwhile does not prolong it.
\<close>

theorem item_cooldown_exact:
  assumes "cp_isReady k cu" and "distinct (map fst (cu_cooldowns cu))" and "en_items env k = Some tmpl" and "it_appId tmpl \<noteq> ITEM_APPLICATION_NONE"
    and "en_apps env (it_appId tmpl) = Some app" and "0 < at_recoveryTime app" and "at_recoveryTime app \<le> 2147483"
    and "list_all (\<lambda>d. 0 \<le> d \<and> int32_range d) ds"
  shows "\<exists>cu1. cp_startCooldown env k cu = Some cu1 \<and> cp_startCooldown env k cu1 = Some cu1
    \<and> cp_isReady k (fold cp_update ds cu1) = (at_recoveryTime app * 1000 \<le> sum_list ds)"
proof -
  let ?t = "delay_setDuration (i32 (at_recoveryTime app * 1000)) delay_new"
  have i: "i32 (at_recoveryTime app * 1000) = at_recoveryTime app * 1000" using assms(6,7) by (intro i32_id) (simp add: int32_range_def)
  have new: "k \<notin> fst ` set (cu_cooldowns cu)" using assms(1) by (simp add: cp_isReady_def map_of_eq_None_iff)
  let ?cu = "cu\<lparr>cu_cooldowns := cu_cooldowns cu @ [(k, ?t)]\<rparr>"
  have s: "cp_startCooldown env k cu = Some ?cu" "cp_startCooldown env k ?cu = Some ?cu"
    using assms(3-5) new by (simp_all add: cp_startCooldown_def cd_new_def)
  have "map_of (cu_cooldowns ?cu) k = Some ?t" using assms(1) by (simp add: cp_isReady_def map_add_def)
  moreover have "distinct (map fst (cu_cooldowns ?cu))" using assms(2) new by simp
  ultimately have "cp_isReady k (fold cp_update ds ?cu) = (at_recoveryTime app * 1000 \<le> sum_list ds)"
    using cp_run_ready [OF assms(8), of ?cu k ?t] assms(6,7) i by (simp add: delay_setDuration_def int32_range_def)
  then show ?thesis using s by blast
qed

theorem item_cooldown_exact_witness:
  "\<exists>cu1. cp_startCooldown shop_env 1 (cu_new shop_env) = Some cu1 \<and> cp_isReady 1 (fold cp_update [4000, 5999] cu1) = (10000 \<le> sum_list [4000, 5999 :: int])"
proof -
  obtain tmpl app where t: "en_items shop_env 1 = Some tmpl" "it_appId tmpl = 1" "en_apps shop_env 1 = Some app" "at_recoveryTime app = 10"
    by (simp add: shop_env_def)
  have c: "cp_isReady 1 (cu_new shop_env)" "distinct (map fst (cu_cooldowns (cu_new shop_env)))" by (simp_all add: cp_isReady_def cu_new_def)
  have "\<exists>cu1. cp_startCooldown shop_env 1 (cu_new shop_env) = Some cu1 \<and> cp_startCooldown shop_env 1 cu1 = Some cu1
      \<and> cp_isReady 1 (fold cp_update [4000, 5999] cu1) = (at_recoveryTime app * 1000 \<le> sum_list [4000, 5999])"
    by (rule item_cooldown_exact [OF c t(1)]) (use t in \<open>simp_all add: ITEM_APPLICATION_NONE_def int32_range_def\<close>)
  then show ?thesis using t(4) by auto
qed

end
