(* ===== verification/Reward_Manager.thy ===== *)
theory Reward_Manager
  imports Prelude
begin

text \<open>
  Who is rewarded for a killed unit, \<^verbatim>\<open>RewardManager\<close> and \<^verbatim>\<open>AwardeeReference\<close>: the victim keeps a reference to everyone who
  damaged it, with the points and the time of the last hit; a reference is dropped when its attacker goes away or has been
  idle for half a minute. The list that each attacker keeps of the references to it (\<^verbatim>\<open>AwardSourceManager\<close>) is here the
  list of their numbers and its counter. Times are arguments; the reward itself, in floating point, is a function of the
  points and the aggregate damage, which a call of \<^verbatim>\<open>award\<close> records. A failed assertion is \<open>None\<close>.
\<close>

section \<open>State\<close>

definition AWARDEE_TIMEOUT_TIME :: int where "AWARDEE_TIMEOUT_TIME = 30000"

record awardee_ref =
  ar_id :: nat
  ar_target :: "nat option"
  ar_damagePoints :: int
  ar_startTime :: int
  ar_isTimeoutEnabled :: bool
  ar_canDelete :: bool

record reward_manager =
  rwm_isDirty :: bool
  rwm_aggDamage :: int
  rwm_awardeeList :: "awardee_ref list"
  rwm_nextId :: nat
  rwm_links :: "nat \<Rightarrow> nat list"
  rwm_sizes :: "nat \<Rightarrow> int"

record award =
  aw_attacker :: nat
  aw_points :: int
  aw_aggDamage :: int

definition rwm_new :: reward_manager where
  "rwm_new = \<lparr>rwm_isDirty = False, rwm_aggDamage = 0, rwm_awardeeList = [], rwm_nextId = 0, rwm_links = (\<lambda>u. []), rwm_sizes = (\<lambda>u. 0)\<rparr>"

section \<open>References\<close>

definition ar_isValid :: "awardee_ref \<Rightarrow> bool" where
  "ar_isValid r = (ar_target r \<noteq> None)"

definition ar_new :: "nat \<Rightarrow> int \<Rightarrow> reward_manager \<Rightarrow> awardee_ref \<times> reward_manager" where
  "ar_new unit now rm =
     (\<lparr>ar_id = rwm_nextId rm, ar_target = Some unit, ar_damagePoints = 0, ar_startTime = now, ar_isTimeoutEnabled = True, ar_canDelete = False\<rparr>,
      rm\<lparr>rwm_nextId := rwm_nextId rm + 1,
         rwm_links := (rwm_links rm)(unit := rwm_nextId rm # rwm_links rm unit),
         rwm_sizes := (rwm_sizes rm)(unit := rwm_sizes rm unit + 1)\<rparr>)"

definition ar_addDamage :: "int \<Rightarrow> int \<Rightarrow> awardee_ref \<Rightarrow> awardee_ref" where
  "ar_addDamage damage now r = r\<lparr>ar_damagePoints := i32 (ar_damagePoints r + damage), ar_startTime := now\<rparr>"

definition ar_update :: "int \<Rightarrow> awardee_ref \<Rightarrow> bool \<times> awardee_ref" where
  \<comment> \<open>whether the manager is made dirty, and the reference\<close>
  "ar_update now r =
     (if \<not> ar_isValid r then (False, r)
      else if ar_isTimeoutEnabled r \<and> now - ar_startTime r \<ge> AWARDEE_TIMEOUT_TIME
      then (True, r\<lparr>ar_startTime := 0, ar_isTimeoutEnabled := False, ar_canDelete := True\<rparr>)
      else (False, r))"

definition rwm_delink :: "awardee_ref \<Rightarrow> reward_manager \<Rightarrow> reward_manager" where
  \<comment> \<open>\<^verbatim>\<open>delink\<close>, which the destructor of a list element calls too\<close>
  "rwm_delink r rm =
     (case ar_target r of
        None \<Rightarrow> rm
      | Some unit \<Rightarrow> rm\<lparr>rwm_links := (rwm_links rm)(unit := remove1 (ar_id r) (rwm_links rm unit))\<rparr>)"

definition rwm_destroyLink :: "awardee_ref \<Rightarrow> reward_manager \<Rightarrow> reward_manager" where
  "rwm_destroyLink r rm =
     (case ar_target r of
        None \<Rightarrow> rm
      | Some unit \<Rightarrow> rm\<lparr>rwm_sizes := (rwm_sizes rm)(unit := rwm_sizes rm unit - 1), rwm_isDirty := True\<rparr>)"

definition ar_unlink :: "awardee_ref \<Rightarrow> reward_manager \<Rightarrow> awardee_ref \<times> reward_manager" where
  "ar_unlink r rm = (if \<not> ar_isValid r then (r, rm) else (r\<lparr>ar_target := None\<rparr>, rwm_delink r (rwm_destroyLink r rm)))"

section \<open>Manager\<close>

fun rwm_hit :: "nat \<Rightarrow> (awardee_ref \<Rightarrow> awardee_ref) \<Rightarrow> awardee_ref list \<Rightarrow> awardee_ref list option" where
  \<comment> \<open>\<^verbatim>\<open>getReferenceByTarget\<close>: the first reference to the target, which \<open>f\<close> changes\<close>
  "rwm_hit target f [] = None"
| "rwm_hit target f (r # rs) = (if ar_target r = Some target then Some (f r # rs) else map_option (Cons r) (rwm_hit target f rs))"

definition rwm_addDamage :: "nat \<Rightarrow> int \<Rightarrow> int \<Rightarrow> reward_manager \<Rightarrow> reward_manager" where
  "rwm_addDamage attacker damage now rm =
     (if damage > 0 then
        (let rm1 =
          (case rwm_hit attacker (ar_addDamage damage now) (rwm_awardeeList rm) of
             Some rs \<Rightarrow> rm\<lparr>rwm_awardeeList := rs\<rparr>
           | None \<Rightarrow>
               (case ar_new attacker now rm of (r, rm1) \<Rightarrow> rm1\<lparr>rwm_awardeeList := rwm_awardeeList rm1 @ [ar_addDamage damage now r]\<rparr>))
         in rm1\<lparr>rwm_aggDamage := i32 (rwm_aggDamage rm1 + damage)\<rparr>)
      else rm)"

fun rwm_updateRefs :: "int \<Rightarrow> awardee_ref list \<Rightarrow> bool \<times> awardee_ref list" where
  "rwm_updateRefs now [] = (False, [])"
| "rwm_updateRefs now (r # rs) =
     (case ar_update now r of (d1, r1) \<Rightarrow> (case rwm_updateRefs now rs of (d2, rs1) \<Rightarrow> (d1 \<or> d2, r1 # rs1)))"

fun rwm_purge :: "awardee_ref list \<Rightarrow> reward_manager \<Rightarrow> awardee_ref list \<times> reward_manager" where
  "rwm_purge [] rm = ([], rm)"
| "rwm_purge (r # rs) rm =
     (if \<not> ar_isValid r \<or> ar_canDelete r
      then rwm_purge rs (rwm_delink r (if ar_damagePoints r > 0 then rm\<lparr>rwm_aggDamage := i32 (rwm_aggDamage rm - ar_damagePoints r)\<rparr> else rm))
      else (case rwm_purge rs rm of (rs1, rm1) \<Rightarrow> (r # rs1, rm1)))"

definition rwm_update :: "int \<Rightarrow> reward_manager \<Rightarrow> reward_manager" where
  "rwm_update now rm =
     (case rwm_updateRefs now (rwm_awardeeList rm) of
        (dirty, rs) \<Rightarrow>
          (let rm1 = rm\<lparr>rwm_awardeeList := rs, rwm_isDirty := rwm_isDirty rm \<or> dirty\<rparr>;
               rm2 = (if rwm_isDirty rm1 then (case rwm_purge rs rm1 of (rs1, rm2) \<Rightarrow> rm2\<lparr>rwm_awardeeList := rs1\<rparr>) else rm1)
           in rm2\<lparr>rwm_isDirty := False\<rparr>))"

fun rwm_removeLoop :: "awardee_ref list \<Rightarrow> reward_manager \<Rightarrow> reward_manager" where
  "rwm_removeLoop [] rm = rm"
| "rwm_removeLoop (r # rs) rm = rwm_removeLoop rs (snd (ar_unlink r rm))"

definition rwm_removeAllAwardees :: "reward_manager \<Rightarrow> reward_manager" where
  "rwm_removeAllAwardees rm = (rwm_removeLoop (rwm_awardeeList rm) rm)\<lparr>rwm_awardeeList := [], rwm_aggDamage := 0\<rparr>"

fun rwm_awardLoop :: "int \<Rightarrow> awardee_ref list \<Rightarrow> int \<Rightarrow> award list \<Rightarrow> (int \<times> award list) option" where
  "rwm_awardLoop agg [] aggDmg out = Some (aggDmg, out)"
| "rwm_awardLoop agg (r # rs) aggDmg out =
     (case ar_target r of
        None \<Rightarrow> None
      | Some attacker \<Rightarrow>
          if ar_damagePoints r > 0
          then rwm_awardLoop agg rs (i32 (aggDmg - ar_damagePoints r))
                 (out @ [\<lparr>aw_attacker = attacker, aw_points = ar_damagePoints r, aw_aggDamage = agg\<rparr>])
          else rwm_awardLoop agg rs aggDmg out)"

definition rwm_awardAllAwardees :: "int \<Rightarrow> reward_manager \<Rightarrow> (nat option \<times> award list \<times> reward_manager) option" where
  \<comment> \<open>the champion, the awards and the manager; \<^verbatim>\<open>std::list::sort\<close> is stable\<close>
  "rwm_awardAllAwardees now rm =
     (let rm1 = rwm_update now rm;
          rm2 = (if length (rwm_awardeeList rm1) > 1 then rm1\<lparr>rwm_awardeeList := sort_key (\<lambda>r. - ar_damagePoints r) (rwm_awardeeList rm1)\<rparr> else rm1);
          champion = (case rwm_awardeeList rm2 of [] \<Rightarrow> None | r # rs \<Rightarrow> ar_target r)
      in case rwm_awardLoop (rwm_aggDamage rm2) (rwm_awardeeList rm2) (rwm_aggDamage rm2) [] of
           None \<Rightarrow> None
         | Some (aggDmg, out) \<Rightarrow>
             if aggDmg \<ge> 0 then Some (champion, out, rwm_removeAllAwardees (rm2\<lparr>rwm_aggDamage := 0\<rparr>)) else None)"

fun rwm_unlinkTarget :: "nat \<Rightarrow> awardee_ref list \<Rightarrow> reward_manager \<Rightarrow> awardee_ref list \<times> reward_manager" where
  "rwm_unlinkTarget unit [] rm = ([], rm)"
| "rwm_unlinkTarget unit (r # rs) rm =
     (case (if ar_target r = Some unit then ar_unlink r rm else (r, rm)) of
        (r1, rm1) \<Rightarrow> (case rwm_unlinkTarget unit rs rm1 of (rs1, rm2) \<Rightarrow> (r1 # rs1, rm2)))"

definition rwm_targetGone :: "nat \<Rightarrow> reward_manager \<Rightarrow> reward_manager" where
  \<comment> \<open>\<^verbatim>\<open>clearReferences\<close> of the attacker's \<^verbatim>\<open>AwardSourceManager\<close>, when it dies or leaves\<close>
  "rwm_targetGone unit rm = (case rwm_unlinkTarget unit (rwm_awardeeList rm) rm of (rs, rm1) \<Rightarrow> rm1\<lparr>rwm_awardeeList := rs\<rparr>)"

section \<open>Specification\<close>

text \<open>The promise, on a ledger of attackers, points and times: who gets what when the unit dies.\<close>

type_synonym ledger = "(nat \<times> int \<times> int) list"

fun led_add :: "nat \<Rightarrow> int \<Rightarrow> int \<Rightarrow> ledger \<Rightarrow> ledger" where
  "led_add attacker damage now [] = [(attacker, damage, now)]"
| "led_add attacker damage now ((a, p, t) # l) =
     (if a = attacker then (a, p + damage, now) # l else (a, p, t) # led_add attacker damage now l)"

definition led_expire :: "int \<Rightarrow> ledger \<Rightarrow> ledger" where
  "led_expire now l = filter (\<lambda>(a, p, t). now - t < AWARDEE_TIMEOUT_TIME) l"

definition led_drop :: "nat \<Rightarrow> ledger \<Rightarrow> ledger" where
  "led_drop attacker l = filter (\<lambda>(a, p, t). a \<noteq> attacker) l"

definition led_total :: "ledger \<Rightarrow> int" where
  "led_total l = sum_list (map (\<lambda>(a, p, t). p) l)"

definition led_awards :: "ledger \<Rightarrow> award list" where
  "led_awards l = map (\<lambda>(a, p, t). \<lparr>aw_attacker = a, aw_points = p, aw_aggDamage = led_total l\<rparr>) (sort_key (\<lambda>(a, p, t). - p) l)"

datatype reward_event = Hit nat int int | Tick int | Gone nat | Died int | Cleared

definition led_champion :: "ledger \<Rightarrow> nat option" where
  "led_champion l = (case led_awards l of [] \<Rightarrow> None | w # ws \<Rightarrow> Some (aw_attacker w))"

fun led_run :: "reward_event list \<Rightarrow> ledger \<Rightarrow> (nat option \<times> award list) list" where
  "led_run [] l = []"
| "led_run (Hit a d now # es) l = led_run es (if d > 0 then led_add a d now l else l)"
| "led_run (Tick now # es) l = led_run es (led_expire now l)"
| "led_run (Gone a # es) l = led_run es (led_drop a l)"
| "led_run (Died now # es) l = (led_champion (led_expire now l), led_awards (led_expire now l)) # led_run es []"
| "led_run (Cleared # es) l = led_run es []"

fun rwm_run :: "reward_event list \<Rightarrow> reward_manager \<Rightarrow> (nat option \<times> award list) list option" where
  "rwm_run [] rm = Some []"
| "rwm_run (Hit a d now # es) rm = rwm_run es (rwm_addDamage a d now rm)"
| "rwm_run (Tick now # es) rm = rwm_run es (rwm_update now rm)"
| "rwm_run (Gone a # es) rm = rwm_run es (rwm_targetGone a rm)"
| "rwm_run (Died now # es) rm =
     (case rwm_awardAllAwardees now rm of
        None \<Rightarrow> None
      | Some (champion, out, rm1) \<Rightarrow> map_option (Cons (champion, out)) (rwm_run es rm1))"
| "rwm_run (Cleared # es) rm = rwm_run es (rwm_removeAllAwardees rm)"

section \<open>Simulation\<close>

definition ar_good :: "awardee_ref \<Rightarrow> bool" where
  "ar_good r \<longleftrightarrow> 0 < ar_damagePoints r \<and> ar_isTimeoutEnabled r \<and> \<not> ar_canDelete r"

definition ar_abs :: "awardee_ref list \<Rightarrow> ledger" where
  "ar_abs rs = map (\<lambda>r. (the (ar_target r), ar_damagePoints r, ar_startTime r)) (filter ar_isValid rs)"

definition ar_sum :: "awardee_ref list \<Rightarrow> int" where
  "ar_sum rs = sum_list (map ar_damagePoints rs)"

definition rwm_sim :: "int \<Rightarrow> reward_manager \<Rightarrow> ledger \<Rightarrow> bool" where
  \<comment> \<open>\<open>rest\<close> is the damage still to come; the aggregate counts the references that are no longer valid until they are purged\<close>
  "rwm_sim rest rm l \<longleftrightarrow> ar_abs (rwm_awardeeList rm) = l \<and> list_all ar_good (rwm_awardeeList rm)
     \<and> (rwm_isDirty rm \<or> list_all ar_isValid (rwm_awardeeList rm))
     \<and> rwm_aggDamage rm = ar_sum (rwm_awardeeList rm) \<and> 0 \<le> rest \<and> rwm_aggDamage rm + rest \<le> 2147483647"

lemma ar_sum_Cons [simp]: "ar_sum [] = 0" "ar_sum (r # rs) = ar_damagePoints r + ar_sum rs" "ar_sum (rs @ rs1) = ar_sum rs + ar_sum rs1"
  by (simp_all add: ar_sum_def)

lemma ar_sum_pos: "list_all (\<lambda>r. 0 < ar_damagePoints r) rs \<Longrightarrow> 0 \<le> ar_sum rs"
  by (induction rs) auto

lemma ar_sum_nonneg: "list_all ar_good rs \<Longrightarrow> 0 \<le> ar_sum rs"
  by (induction rs) (auto simp: ar_good_def)

lemma ar_sum_filter: "list_all ar_good rs \<Longrightarrow> ar_sum (filter Q rs) \<le> ar_sum rs"
  by (induction rs) (auto simp: ar_good_def)

lemma rwm_hit_None:
  "rwm_hit u f rs = None \<Longrightarrow> led_add u d t (ar_abs rs) = ar_abs rs @ [(u, d, t)]"
proof (induction rs)
  case (Cons r rs)
  then show ?case by (cases "ar_target r") (auto simp: ar_abs_def ar_isValid_def split: if_splits)
qed (simp add: ar_abs_def)

lemma rwm_hit_Some:
  assumes "rwm_hit u (ar_addDamage d t) rs = Some rs1" and "list_all ar_good rs" and "0 < d" and "ar_sum rs + d \<le> 2147483647"
  shows "ar_abs rs1 = led_add u d t (ar_abs rs) \<and> list_all ar_good rs1 \<and> list_all ar_isValid rs1 = list_all ar_isValid rs \<and> ar_sum rs1 = ar_sum rs + d"
  using assms
proof (induction rs arbitrary: rs1)
  case (Cons r rs)
  show ?case
  proof (cases "ar_target r = Some u")
    case True
    have "i32 (ar_damagePoints r + d) = ar_damagePoints r + d"
    proof (rule i32_nonneg)
      have "0 \<le> ar_sum rs" "0 < ar_damagePoints r" using Cons.prems(2) ar_sum_nonneg [of rs] by (auto simp: ar_good_def [of r])
      then show "0 \<le> ar_damagePoints r + d" "ar_damagePoints r + d \<le> 2147483647" using Cons.prems(3,4) by simp_all
    qed
    then show ?thesis using True Cons.prems by (auto simp: ar_abs_def ar_isValid_def ar_addDamage_def ar_good_def)
  next
    case False
    then obtain rs2 where rs2: "rwm_hit u (ar_addDamage d t) rs = Some rs2" "rs1 = r # rs2" using Cons.prems(1) by auto
    have "ar_sum rs + d \<le> 2147483647" using Cons.prems by (auto simp: ar_good_def)
    from Cons.IH [OF rs2(1) _ Cons.prems(3) this] show ?thesis using Cons.prems(2) rs2(2) False by (auto simp: ar_abs_def ar_isValid_def)
  qed
qed simp

lemma rwm_addDamage_sim:
  assumes "rwm_sim rest rm l" and "0 < d" and "d \<le> rest"
  shows "rwm_sim (rest - d) (rwm_addDamage a d t rm) (led_add a d t l)"
proof -
  let ?rs = "rwm_awardeeList rm"
  have g: "list_all ar_good ?rs" and s: "rwm_aggDamage rm = ar_sum ?rs" "rwm_aggDamage rm + rest \<le> 2147483647" "ar_abs ?rs = l"
    using assms(1) by (simp_all add: rwm_sim_def)
  have agg: "i32 (ar_sum ?rs + d) = ar_sum ?rs + d" using ar_sum_nonneg [OF g] s assms(2,3) by (intro i32_nonneg) auto
  show ?thesis
  proof (cases "rwm_hit a (ar_addDamage d t) ?rs")
    case None
    have "i32 d = d" using assms(2,3) s ar_sum_nonneg [OF g] by (intro i32_nonneg) auto
    then show ?thesis using None assms s agg rwm_hit_None [OF None, of d t]
      by (auto simp: rwm_sim_def rwm_addDamage_def ar_new_def ar_addDamage_def ar_abs_def ar_good_def ar_isValid_def)
  next
    case (Some rs1)
    have "ar_sum ?rs + d \<le> 2147483647" using s assms(3) by auto
    from rwm_hit_Some [OF Some g assms(2) this] show ?thesis using Some assms s agg by (auto simp: rwm_sim_def rwm_addDamage_def)
  qed
qed

lemma ar_update_cases:
  assumes "ar_good r"
  shows "ar_update now r = (if ar_isValid r \<and> now - ar_startTime r \<ge> AWARDEE_TIMEOUT_TIME
    then (True, r\<lparr>ar_startTime := 0, ar_isTimeoutEnabled := False, ar_canDelete := True\<rparr>) else (False, r))"
  using assms by (simp add: ar_update_def ar_good_def)

lemma rwm_updateRefs_result:
  assumes "list_all ar_good rs" and "rwm_updateRefs now rs = (d, rs1)"
  shows "filter (\<lambda>r. ar_isValid r \<and> \<not> ar_canDelete r) rs1 = filter (\<lambda>r. ar_isValid r \<and> now - ar_startTime r < AWARDEE_TIMEOUT_TIME) rs
    \<and> ar_sum rs1 = ar_sum rs \<and> list_all (\<lambda>r. 0 < ar_damagePoints r) rs1
    \<and> (\<not> d \<longrightarrow> rs1 = rs \<and> filter (\<lambda>r. ar_isValid r \<and> now - ar_startTime r < AWARDEE_TIMEOUT_TIME) rs = filter ar_isValid rs)"
  using assms
proof (induction rs arbitrary: d rs1)
  case (Cons r rs)
  obtain d2 rs2 where rs2: "rwm_updateRefs now rs = (d2, rs2)" by force
  have g: "ar_good r" "list_all ar_good rs" using Cons.prems(1) by simp_all
  show ?case using Cons.IH [OF g(2) rs2] Cons.prems(2) rs2 ar_update_cases [OF g(1), of now] g(1)
    by (auto simp: ar_good_def ar_isValid_def split: if_splits)
qed simp

lemma rwm_delink_fields [simp]:
  "rwm_aggDamage (rwm_delink r rm) = rwm_aggDamage rm" "rwm_awardeeList (rwm_delink r rm) = rwm_awardeeList rm"
  by (simp_all add: rwm_delink_def split: option.splits)

lemma rwm_purge_result:
  assumes "list_all (\<lambda>r. 0 < ar_damagePoints r) rs" and "ar_sum rs \<le> rwm_aggDamage rm" and "rwm_aggDamage rm \<le> 2147483647"
    and "rwm_purge rs rm = (rs1, rm1)"
  shows "rs1 = filter (\<lambda>r. ar_isValid r \<and> \<not> ar_canDelete r) rs \<and> rwm_aggDamage rm1 = rwm_aggDamage rm - ar_sum rs + ar_sum rs1"
  using assms
proof (induction rs arbitrary: rm rs1)
  case (Cons r rs)
  have pos: "0 < ar_damagePoints r" "0 \<le> ar_sum rs"
    using Cons.prems(1) ar_sum_pos [of rs] by simp_all
  show ?case
  proof (cases "ar_isValid r \<and> \<not> ar_canDelete r")
    case True
    then obtain rs2 where "rwm_purge rs rm = (rs2, rm1)" "rs1 = r # rs2" using Cons.prems(4) by (cases "rwm_purge rs rm") auto
    then show ?thesis using Cons.IH [of rm rs2] Cons.prems pos True by simp
  next
    case False
    let ?rm = "rwm_delink r (rm\<lparr>rwm_aggDamage := i32 (rwm_aggDamage rm - ar_damagePoints r)\<rparr>)"
    have agg: "rwm_aggDamage ?rm = rwm_aggDamage rm - ar_damagePoints r"
      using Cons.prems(2,3) pos by (simp add: i32_nonneg)
    have "rwm_purge rs ?rm = (rs1, rm1)" using Cons.prems(4) False pos(1) by (auto split: if_splits)
    then show ?thesis using Cons.IH [of ?rm rs1] Cons.prems(1-3) agg pos False by simp
  qed
qed simp

lemma rwm_update_result:
  assumes "rwm_sim rest rm l"
  shows "rwm_awardeeList (rwm_update now rm) = filter (\<lambda>r. ar_isValid r \<and> now - ar_startTime r < AWARDEE_TIMEOUT_TIME) (rwm_awardeeList rm)
    \<and> rwm_aggDamage (rwm_update now rm) = ar_sum (rwm_awardeeList (rwm_update now rm)) \<and> \<not> rwm_isDirty (rwm_update now rm)
    \<and> rwm_aggDamage (rwm_update now rm) \<le> rwm_aggDamage rm"
proof -
  let ?rs = "rwm_awardeeList rm" and ?P = "\<lambda>r. ar_isValid r \<and> now - ar_startTime r < AWARDEE_TIMEOUT_TIME"
  have sim: "list_all ar_good ?rs" "rwm_isDirty rm \<or> list_all ar_isValid ?rs" "rwm_aggDamage rm = ar_sum ?rs" "rwm_aggDamage rm \<le> 2147483647"
    using assms by (auto simp: rwm_sim_def)
  note mono = ar_sum_filter [OF sim(1)]
  obtain d rs1 where u: "rwm_updateRefs now ?rs = (d, rs1)" by force
  note r = rwm_updateRefs_result [OF sim(1) u]
  show ?thesis
  proof (cases "rwm_isDirty rm \<or> d")
    case True
    let ?rm = "rm\<lparr>rwm_awardeeList := rs1, rwm_isDirty := True\<rparr>"
    obtain rs2 rm2 where p: "rwm_purge rs1 ?rm = (rs2, rm2)" by force
    have "rs2 = filter ?P ?rs \<and> rwm_aggDamage rm2 = ar_sum rs2"
      using rwm_purge_result [OF _ _ _ p] r sim(3,4) by simp
    then show ?thesis using u p True mono [of ?P] sim(3) by (simp add: rwm_update_def Let_def)
  next
    case False
    then have "filter ar_isValid ?rs = ?rs" "filter ?P ?rs = filter ar_isValid ?rs" "rs1 = ?rs" using sim(2) r by (auto simp: list_all_iff)
    then show ?thesis using u False sim(3) by (simp add: rwm_update_def)
  qed
qed

lemma rwm_update_sim:
  assumes "rwm_sim rest rm l"
  shows "rwm_sim rest (rwm_update now rm) (led_expire now l)" and "list_all ar_isValid (rwm_awardeeList (rwm_update now rm))"
proof -
  note r = rwm_update_result [OF assms, of now]
  have g: "list_all ar_good (rwm_awardeeList rm)" "ar_abs (rwm_awardeeList rm) = l" "0 \<le> rest" "rwm_aggDamage rm + rest \<le> 2147483647"
    using assms by (simp_all add: rwm_sim_def)
  show v: "list_all ar_isValid (rwm_awardeeList (rwm_update now rm))" using r by (simp add: list_all_iff)
  have "ar_abs (filter (\<lambda>r. ar_isValid r \<and> now - ar_startTime r < AWARDEE_TIMEOUT_TIME) rs) = led_expire now (ar_abs rs)" for rs
    by (simp add: ar_abs_def led_expire_def filter_map comp_def conj_commute)
  then show "rwm_sim rest (rwm_update now rm) (led_expire now l)" using r g v by (auto simp: rwm_sim_def list_all_iff)
qed

lemma rwm_destroyLink_fields [simp]:
  "rwm_aggDamage (rwm_destroyLink r rm) = rwm_aggDamage rm" "rwm_awardeeList (rwm_destroyLink r rm) = rwm_awardeeList rm"
  by (simp_all add: rwm_destroyLink_def split: option.splits)

lemma rwm_unlink_fields [simp]:
  "rwm_aggDamage (snd (ar_unlink r rm)) = rwm_aggDamage rm" "rwm_awardeeList (snd (ar_unlink r rm)) = rwm_awardeeList rm"
  by (simp_all add: ar_unlink_def)

lemma rwm_unlink_dirty: "rwm_isDirty (snd (ar_unlink r rm)) = (rwm_isDirty rm \<or> ar_isValid r)"
  by (auto simp: ar_unlink_def rwm_destroyLink_def rwm_delink_def ar_isValid_def split: option.splits)

lemma rwm_unlinkTarget_result:
  assumes "rwm_unlinkTarget a rs rm = (rs1, rm1)"
  shows "rs1 = map (\<lambda>r. if ar_target r = Some a then r\<lparr>ar_target := None\<rparr> else r) rs \<and> rwm_aggDamage rm1 = rwm_aggDamage rm
    \<and> rwm_awardeeList rm1 = rwm_awardeeList rm \<and> (rwm_isDirty rm1 \<or> (\<not> rwm_isDirty rm \<and> rs1 = rs))"
  using assms
proof (induction rs arbitrary: rm rs1)
  case (Cons r rs)
  let ?p = "if ar_target r = Some a then ar_unlink r rm else (r, rm)"
  obtain rs2 where rs2: "rwm_unlinkTarget a rs (snd ?p) = (rs2, rm1)" "rs1 = fst ?p # rs2"
    using Cons.prems by (auto split: prod.splits if_splits)
  show ?case using Cons.IH [OF rs2(1)] rs2(2) rwm_unlink_dirty [of r rm]
    by (cases "ar_target r = Some a") (auto simp: ar_unlink_def ar_isValid_def)
qed auto

lemma rwm_targetGone_sim:
  assumes "rwm_sim rest rm l"
  shows "rwm_sim rest (rwm_targetGone a rm) (led_drop a l)"
proof -
  let ?rs = "rwm_awardeeList rm" and ?f = "\<lambda>r. if ar_target r = Some a then r\<lparr>ar_target := None\<rparr> else r"
  obtain rs1 rm1 where u: "rwm_unlinkTarget a ?rs rm = (rs1, rm1)" by force
  note r = rwm_unlinkTarget_result [OF u]
  have sim: "ar_abs ?rs = l" "list_all ar_good ?rs" "rwm_isDirty rm \<or> list_all ar_isValid ?rs" using assms by (simp_all add: rwm_sim_def)
  have "ar_abs (map ?f rs) = led_drop a (ar_abs rs)" for rs
  proof (induction rs)
    case (Cons r rs)
    then show ?case by (cases "ar_target r") (auto simp: ar_abs_def led_drop_def ar_isValid_def)
  qed (simp add: ar_abs_def led_drop_def)
  moreover have "list_all ar_good (map ?f ?rs)" using sim(2) by (auto simp: list_all_iff ar_good_def)
  moreover have "ar_sum (map ?f rs) = ar_sum rs" for rs by (induction rs) auto
  ultimately show ?thesis using assms r sim u by (auto simp: rwm_sim_def rwm_targetGone_def)
qed

lemma rwm_removeLoop_fields:
  "rwm_aggDamage (rwm_removeLoop rs rm) = rwm_aggDamage rm \<and> rwm_awardeeList (rwm_removeLoop rs rm) = rwm_awardeeList rm"
  by (induction rs arbitrary: rm) simp_all

lemma rwm_removeAll_sim: "0 \<le> rest \<Longrightarrow> rest \<le> 2147483647 \<Longrightarrow> rwm_sim rest (rwm_removeAllAwardees rm) []"
  by (simp add: rwm_sim_def rwm_removeAllAwardees_def ar_abs_def)

section \<open>Awards\<close>

lemma insort_key_map: "insort_key f (g x) (map g xs) = map g (insort_key (\<lambda>x. f (g x)) x xs)"
  by (induction xs) auto

lemma sort_key_map: "sort_key f (map g xs) = map g (sort_key (\<lambda>x. f (g x)) xs)"
  by (induction xs) (simp_all add: insort_key_map)

lemma rwm_awardLoop_result:
  assumes "list_all ar_good rs" and "list_all ar_isValid rs" and "ar_sum rs \<le> n" and "n \<le> 2147483647"
  shows "rwm_awardLoop agg rs n out = Some (n - ar_sum rs,
    out @ map (\<lambda>r. \<lparr>aw_attacker = the (ar_target r), aw_points = ar_damagePoints r, aw_aggDamage = agg\<rparr>) rs)"
  using assms
proof (induction rs arbitrary: n out)
  case (Cons r rs)
  obtain a where a: "ar_target r = Some a" using Cons.prems(2) by (auto simp: ar_isValid_def)
  have p: "0 < ar_damagePoints r" "0 \<le> ar_sum rs" using Cons.prems(1) ar_sum_nonneg [of rs] by (auto simp: ar_good_def [of r])
  have "i32 (n - ar_damagePoints r) = n - ar_damagePoints r" using Cons.prems(3,4) p by (intro i32_nonneg) auto
  then show ?case using Cons.IH [of "n - ar_damagePoints r"] Cons.prems a p by simp
qed simp

lemma ar_sum_insort: "ar_sum (insort_key f r rs) = ar_damagePoints r + ar_sum rs"
  by (induction rs) auto

lemma ar_sum_sort: "ar_sum (sort_key f rs) = ar_sum rs"
  by (induction rs) (simp_all add: ar_sum_insort)

lemma rwm_award_sim:
  assumes "rwm_sim rest rm l"
  shows "\<exists>rm1. rwm_awardAllAwardees now rm = Some (led_champion (led_expire now l), led_awards (led_expire now l), rm1) \<and> rwm_sim rest rm1 []"
proof -
  let ?rm = "rwm_update now rm" and ?l = "led_expire now l"
  let ?rs = "rwm_awardeeList ?rm"
  let ?ss = "sort_key (\<lambda>r. - ar_damagePoints r) ?rs"
  have sim: "rwm_sim rest ?rm ?l" "list_all ar_isValid ?rs" by (rule rwm_update_sim [OF assms])+
  then have g: "list_all ar_good ?rs" "ar_abs ?rs = ?l" "rwm_aggDamage ?rm = ar_sum ?rs" "0 \<le> rest" "rwm_aggDamage ?rm + rest \<le> 2147483647"
    by (simp_all add: rwm_sim_def)
  have sorted: "rwm_awardeeList (if length ?rs > 1 then ?rm\<lparr>rwm_awardeeList := ?ss\<rparr> else ?rm) = ?ss"
    by (cases ?rs; cases "tl ?rs") auto
  have gs: "list_all ar_good ?ss" "list_all ar_isValid ?ss" using g(1) sim(2) by (simp_all add: list_all_iff)
  have abs: "ar_abs ?rs = map (\<lambda>r. (the (ar_target r), ar_damagePoints r, ar_startTime r)) ?rs"
    using sim(2) by (simp add: ar_abs_def filter_True list_all_iff)
  have tot: "led_total ?l = ar_sum ?rs" unfolding g(2) [symmetric] abs by (simp add: led_total_def ar_sum_def comp_def)
  have aw: "led_awards ?l = map (\<lambda>r. \<lparr>aw_attacker = the (ar_target r), aw_points = ar_damagePoints r, aw_aggDamage = ar_sum ?rs\<rparr>) ?ss"
    unfolding led_awards_def tot unfolding g(2) [symmetric] abs by (simp add: sort_key_map comp_def)
  have loop: "rwm_awardLoop (ar_sum ?rs) ?ss (ar_sum ?rs) [] = Some (0, led_awards ?l)"
    using rwm_awardLoop_result [OF gs, of "ar_sum ?rs" "ar_sum ?rs" "[]"] g(3,4,5) aw by (simp add: ar_sum_sort)
  have champ: "(case ?ss of [] \<Rightarrow> None | r # rs \<Rightarrow> ar_target r) = led_champion ?l"
    unfolding led_champion_def aw using gs(2) by (cases ?ss) (auto simp: ar_isValid_def)
  have "rwm_sim rest (rwm_removeAllAwardees rm2) []" for rm2 using g(4,5) ar_sum_nonneg [OF g(1)] g(3) by (intro rwm_removeAll_sim) auto
  moreover have "?rs = ?ss" if "\<not> length ?rs > 1" using sorted that by simp
  ultimately show ?thesis using loop champ g(3) by (cases "length ?rs > 1") (simp_all add: rwm_awardAllAwardees_def Let_def)
qed

section \<open>Properties\<close>

fun damage_total :: "reward_event list \<Rightarrow> int" where
  "damage_total [] = 0"
| "damage_total (Hit a d now # es) = (if d > 0 then d else 0) + damage_total es"
| "damage_total (e # es) = damage_total es"

lemma damage_total_nonneg: "0 \<le> damage_total es"
  by (induction es rule: damage_total.induct) simp_all

lemma rwm_run_sim: "rwm_sim (damage_total es) rm l \<Longrightarrow> rwm_run es rm = Some (led_run es l)"
proof (induction es arbitrary: rm l)
  case (Cons e es)
  have nn: "0 \<le> damage_total es" by (rule damage_total_nonneg)
  show ?case
  proof (cases e)
    case (Hit a d now)
    show ?thesis
    proof (cases "d > 0")
      case True
      have "rwm_sim (d + damage_total es - d) (rwm_addDamage a d now rm) (led_add a d now l)"
        using Cons.prems Hit True nn by (intro rwm_addDamage_sim) simp_all
      then show ?thesis using Cons.IH [of "rwm_addDamage a d now rm" "led_add a d now l"] Hit True by simp
    next
      case False
      then show ?thesis using Cons Hit by (simp add: rwm_addDamage_def)
    qed
  next
    case (Tick now)
    then show ?thesis using Cons.IH [OF rwm_update_sim(1)] Cons.prems by simp
  next
    case (Gone a)
    then show ?thesis using Cons.IH [OF rwm_targetGone_sim] Cons.prems by simp
  next
    case (Died now)
    obtain rm1 where "rwm_awardAllAwardees now rm = Some (led_champion (led_expire now l), led_awards (led_expire now l), rm1)" "rwm_sim (damage_total es) rm1 []"
      using rwm_award_sim [of "damage_total es" rm l now] Cons.prems Died by auto
    then show ?thesis using Cons.IH [of rm1 "[]"] Died by simp
  next
    case Cleared
    have "damage_total es \<le> 2147483647" using Cons.prems Cleared ar_sum_nonneg [of "rwm_awardeeList rm"] by (simp add: rwm_sim_def)
    then show ?thesis using Cons.IH [OF rwm_removeAll_sim [OF nn]] Cleared by simp
  qed
qed simp

text \<open>
  C33: As long as the damage dealt fits 32 bits, the manager of rewards does what the ledger says: when the unit dies,
  exactly those who hit it within the last thirty seconds of their last update, and have not died or left since, are
  awarded, each with the points of all its hits, in the order of the points; the share is of the points of all of them; the
  champion is the first. The assertions that a reference is valid and that the aggregate damage is never exceeded hold.
\<close>

theorem rewards_follow_ledger:
  assumes "damage_total es \<le> 2147483647"
  shows "rwm_run es rwm_new = Some (led_run es [])"
  using assms damage_total_nonneg [of es] by (intro rwm_run_sim) (simp add: rwm_sim_def rwm_new_def ar_abs_def)

theorem rewards_follow_ledger_witness:
  "rwm_run [Hit 1 50 0, Hit 2 30 1000, Hit 1 5 2000, Hit 3 90 2500, Gone 3, Tick 31500, Died 31800] rwm_new
   = Some [(Some 1, [\<lparr>aw_attacker = 1, aw_points = 55, aw_aggDamage = 55\<rparr>])]"
  using rewards_follow_ledger [of "[Hit 1 50 0, Hit 2 30 1000, Hit 1 5 2000, Hit 3 90 2500, Gone 3, Tick 31500, Died 31800]"]
  by (simp add: led_expire_def led_drop_def led_champion_def led_awards_def led_total_def AWARDEE_TIMEOUT_TIME_def)

text \<open>
  A reference deleted because it timed out is still linked: the destructor of the list element takes it out of the
  attacker's list, but nobody lowers the counter of that list, as \<^verbatim>\<open>unlink\<close> would.
\<close>

lemma timeout_leaves_counter:
  "let rm = rwm_update 30000 (rwm_addDamage 7 10 0 rwm_new) in rwm_awardeeList rm = [] \<and> rwm_links rm 7 = [] \<and> rwm_sizes rm 7 = 1"
  by (simp add: rwm_update_def rwm_addDamage_def rwm_new_def ar_new_def ar_addDamage_def ar_update_def ar_isValid_def rwm_delink_def Let_def AWARDEE_TIMEOUT_TIME_def i32_nonneg)

end
