(* ===== verification/Unit_Combat.thy ===== *)
theory Unit_Combat
  imports Inventory Reward_Manager
begin

text \<open>
  A player's unit in battle: damage, the slow-down it causes, health regeneration, concealment in the bushes, the danger
  state outside the safe zone, and death, \<^verbatim>\<open>Unit.cpp\<close> and the overrides of \<^verbatim>\<open>Player.cpp\<close>, composed with the inventory and
  with the manager of rewards. Whether the tile the unit stands on conceals is a field that movement sets. Configured
  delays and the two formulas in floating point, for the health regained and lost, are arguments. Positions, loot,
  messages and the state of other units are left out. A failed assertion is \<open>None\<close>.
\<close>

section \<open>State\<close>

datatype danger_state = DANGER_STATE_RELEASED | DANGER_STATE_ENTERING | DANGER_STATE_ENTERED

datatype concealment_state = CONCEALMENT_STATE_EXPOSED | CONCEALMENT_STATE_CONCEALING | CONCEALMENT_STATE_CONCEALED

definition HEALTH_REGEN_BASE_INTERVAL :: int where "HEALTH_REGEN_BASE_INTERVAL = 5000"
definition HEALTH_REGEN_RATE_PERCENT_WHEN_CONCEALED :: int where "HEALTH_REGEN_RATE_PERCENT_WHEN_CONCEALED = 150"
definition SLOW_MOVE_DURATION :: int where "SLOW_MOVE_DURATION = 500"
definition MOVE_SPEED_PERCENT_WHEN_SLOW_MOVE :: int where "MOVE_SPEED_PERCENT_WHEN_SLOW_MOVE = - 60"
definition ITEM_EFFECT_PREVENT_MOVE_SPEED_SLOWED :: nat where "ITEM_EFFECT_PREVENT_MOVE_SPEED_SLOWED = 5"

record combat_config =
  cc_concealedDelay :: NSTime
  cc_dangerDelay :: NSTime
  cc_lossInterval :: NSTime
  cc_isTrainingGround :: bool
  cc_regenPoints :: "NSTime \<Rightarrow> int \<Rightarrow> int \<Rightarrow> int"
  cc_lossPoints :: "NSTime \<Rightarrow> int"

record combat_unit =
  cb_carrier :: carrier
  cb_rewards :: reward_manager
  cb_awards :: "(nat option \<times> award list) list"
  cb_isAlive :: bool
  cb_dangerState :: danger_state
  cb_concealmentState :: concealment_state
  cb_onConcealable :: bool
  cb_isDamaged :: bool
  cb_isSlowMoveEnabled :: bool
  cb_healthRegenTimer :: delay_timer
  cb_healthLossTimer :: delay_timer
  cb_dangerStateTimer :: delay_timer
  cb_concealmentTimer :: delay_timer
  cb_slowMoveTimer :: delay_timer

definition cb_onUnit :: "(item_unit \<Rightarrow> item_unit) \<Rightarrow> combat_unit \<Rightarrow> combat_unit" where
  "cb_onUnit f cb = cb\<lparr>cb_carrier := (cb_carrier cb)\<lparr>cu_unit := f (cu_unit (cb_carrier cb))\<rparr>\<rparr>"

abbreviation cb_unit :: "combat_unit \<Rightarrow> item_unit" where
  "cb_unit cb \<equiv> cu_unit (cb_carrier cb)"

section \<open>Timers and states\<close>

definition cb_resetHealthRegenTimer :: "combat_unit \<Rightarrow> combat_unit" where
  "cb_resetHealthRegenTimer cb = cb\<lparr>cb_healthRegenTimer := delay_setDuration HEALTH_REGEN_BASE_INTERVAL (cb_healthRegenTimer cb)\<rparr>"

definition cb_resetHealthLossTimer :: "combat_config \<Rightarrow> combat_unit \<Rightarrow> combat_unit" where
  "cb_resetHealthLossTimer cfg cb = cb\<lparr>cb_healthLossTimer := delay_setDuration (cc_lossInterval cfg) (cb_healthLossTimer cb)\<rparr>"

definition cb_resetConcealmentTimer :: "combat_config \<Rightarrow> combat_unit \<Rightarrow> combat_unit" where
  "cb_resetConcealmentTimer cfg cb = cb\<lparr>cb_concealmentTimer := delay_setDuration (cc_concealedDelay cfg) (cb_concealmentTimer cb)\<rparr>"

definition cb_resetDangerStateTimer :: "combat_config \<Rightarrow> combat_unit \<Rightarrow> combat_unit" where
  "cb_resetDangerStateTimer cfg cb = cb\<lparr>cb_dangerStateTimer := delay_setDuration (cc_dangerDelay cfg) (cb_dangerStateTimer cb)\<rparr>"

definition cb_restoreMoveSpeed :: "item_env \<Rightarrow> combat_unit \<Rightarrow> combat_unit" where
  "cb_restoreMoveSpeed env cb =
     (if \<not> cb_isSlowMoveEnabled cb then cb
      else (cb_onUnit (iu_handleStatModifier env STAT_MOVE_SPEED STAT_MODIFIER_PERCENT MOVE_SPEED_PERCENT_WHEN_SLOW_MOVE False) cb)
             \<lparr>cb_slowMoveTimer := delay_reset (cb_slowMoveTimer cb), cb_isSlowMoveEnabled := False\<rparr>)"

definition cb_slowMoveSpeed :: "item_env \<Rightarrow> NSTime \<Rightarrow> combat_unit \<Rightarrow> combat_unit" where
  "cb_slowMoveSpeed env duration cb =
     (let cb1 = (if cb_isSlowMoveEnabled cb then cb_restoreMoveSpeed env cb else cb)
      in (cb_onUnit (iu_handleStatModifier env STAT_MOVE_SPEED STAT_MODIFIER_PERCENT MOVE_SPEED_PERCENT_WHEN_SLOW_MOVE True) cb1)
           \<lparr>cb_slowMoveTimer := delay_setDuration duration (cb_slowMoveTimer cb1), cb_isSlowMoveEnabled := True\<rparr>)"

definition cb_updateSlowMoveTimer :: "item_env \<Rightarrow> NSTime \<Rightarrow> combat_unit \<Rightarrow> combat_unit" where
  "cb_updateSlowMoveTimer env diff cb =
     (if \<not> cb_isSlowMoveEnabled cb then cb
      else
        (let cb1 = cb\<lparr>cb_slowMoveTimer := delay_update diff (cb_slowMoveTimer cb)\<rparr>
         in if delay_passed (cb_slowMoveTimer cb1) then cb_restoreMoveSpeed env cb1 else cb1))"

definition cb_expose :: "item_env \<Rightarrow> combat_config \<Rightarrow> combat_unit \<Rightarrow> combat_unit" where
  "cb_expose env cfg cb =
     (case cb_concealmentState cb of
        CONCEALMENT_STATE_EXPOSED \<Rightarrow> cb
      | CONCEALMENT_STATE_CONCEALING \<Rightarrow> (cb_resetConcealmentTimer cfg cb)\<lparr>cb_concealmentState := CONCEALMENT_STATE_EXPOSED\<rparr>
      | CONCEALMENT_STATE_CONCEALED \<Rightarrow>
          (cb_onUnit (\<lambda>u. iu_emit VisibilityUpdate
             (iu_handleStatModifier env STAT_HEALTH_REGEN_RATE STAT_MODIFIER_PERCENT HEALTH_REGEN_RATE_PERCENT_WHEN_CONCEALED False u)) cb)
            \<lparr>cb_concealmentState := CONCEALMENT_STATE_EXPOSED\<rparr>)"

definition cb_concealDelayed :: "combat_config \<Rightarrow> combat_unit \<Rightarrow> combat_unit" where
  "cb_concealDelayed cfg cb =
     (if cb_concealmentState cb \<noteq> CONCEALMENT_STATE_EXPOSED then cb
      else (cb_resetConcealmentTimer cfg cb)\<lparr>cb_concealmentState := CONCEALMENT_STATE_CONCEALING\<rparr>)"

definition cb_concealIfNeeded :: "combat_config \<Rightarrow> bool \<Rightarrow> combat_unit \<Rightarrow> combat_unit" where
  "cb_concealIfNeeded cfg isConcealable cb = (if isConcealable then cb_concealDelayed cfg cb else cb)"

definition cb_updateConcealmentState :: "item_env \<Rightarrow> combat_config \<Rightarrow> bool \<Rightarrow> combat_unit \<Rightarrow> combat_unit" where
  "cb_updateConcealmentState env cfg isConcealable cb =
     (if \<not> cb_isAlive cb then cb else if isConcealable then cb_concealDelayed cfg cb else cb_expose env cfg cb)"

definition cb_concealed :: "item_env \<Rightarrow> combat_unit \<Rightarrow> combat_unit option" where
  "cb_concealed env cb =
     (if \<not> cb_onConcealable cb then None
      else if cb_concealmentState cb = CONCEALMENT_STATE_CONCEALED then None
      else Some (cb_onUnit (\<lambda>u. iu_emit VisibilityUpdate
             (iu_handleStatModifier env STAT_HEALTH_REGEN_RATE STAT_MODIFIER_PERCENT HEALTH_REGEN_RATE_PERCENT_WHEN_CONCEALED True u))
             (cb\<lparr>cb_concealmentState := CONCEALMENT_STATE_CONCEALED\<rparr>)))"

definition cb_updateConcealmentTimer :: "item_env \<Rightarrow> NSTime \<Rightarrow> combat_unit \<Rightarrow> combat_unit option" where
  "cb_updateConcealmentTimer env diff cb =
     (if cb_concealmentState cb \<noteq> CONCEALMENT_STATE_CONCEALING then Some cb
      else
        (let cb1 = cb\<lparr>cb_concealmentTimer := delay_update diff (cb_concealmentTimer cb)\<rparr>
         in if delay_passed (cb_concealmentTimer cb1)
            then cb_concealed env (cb1\<lparr>cb_concealmentTimer := delay_reset (cb_concealmentTimer cb1)\<rparr>)
            else Some cb1))"

definition cb_reconceal :: "item_env \<Rightarrow> combat_config \<Rightarrow> combat_unit \<Rightarrow> combat_unit" where
  \<comment> \<open>what attacking and being hit by somebody do to a concealed player\<close>
  "cb_reconceal env cfg cb =
     (case cb_concealmentState cb of
        CONCEALMENT_STATE_CONCEALED \<Rightarrow> cb_concealDelayed cfg (cb_expose env cfg cb)
      | CONCEALMENT_STATE_CONCEALING \<Rightarrow> cb_resetConcealmentTimer cfg cb
      | CONCEALMENT_STATE_EXPOSED \<Rightarrow> cb)"

definition cb_enterDangerState :: "combat_config \<Rightarrow> combat_unit \<Rightarrow> combat_unit" where
  "cb_enterDangerState cfg cb =
     (if cb_dangerState cb \<noteq> DANGER_STATE_RELEASED then cb
      else (cb_resetDangerStateTimer cfg cb)\<lparr>cb_dangerState := DANGER_STATE_ENTERING\<rparr>)"

definition cb_releaseDangerState :: "combat_config \<Rightarrow> combat_unit \<Rightarrow> combat_unit" where
  "cb_releaseDangerState cfg cb =
     (if cb_dangerState cb = DANGER_STATE_RELEASED then cb
      else (if cb_dangerState cb = DANGER_STATE_ENTERING then cb_resetDangerStateTimer cfg cb else cb)
             \<lparr>cb_dangerState := DANGER_STATE_RELEASED\<rparr>)"

definition cb_updateDangerStateTimer :: "combat_config \<Rightarrow> NSTime \<Rightarrow> combat_unit \<Rightarrow> combat_unit" where
  "cb_updateDangerStateTimer cfg diff cb =
     (if cb_dangerState cb \<noteq> DANGER_STATE_ENTERING then cb
      else
        (let cb1 = cb\<lparr>cb_dangerStateTimer := delay_update diff (cb_dangerStateTimer cb)\<rparr>
         in if delay_passed (cb_dangerStateTimer cb1)
            then (let cb2 = cb_resetHealthLossTimer cfg (cb_resetHealthRegenTimer
                    (cb1\<lparr>cb_dangerStateTimer := delay_reset (cb_dangerStateTimer cb1), cb_dangerState := DANGER_STATE_ENTERED\<rparr>))
                  in cb2\<lparr>cb_healthLossTimer := delay_setPassed (cb_healthLossTimer cb2)\<rparr>)
            else cb1))"

definition cb_updateDangerState :: "combat_config \<Rightarrow> bool \<Rightarrow> combat_unit \<Rightarrow> combat_unit" where
  "cb_updateDangerState cfg isWithinSafeZone cb =
     (if \<not> cb_isAlive cb then cb
      else if \<not> isWithinSafeZone then cb_enterDangerState cfg cb else cb_releaseDangerState cfg cb)"

section \<open>Damage and death\<close>

definition cb_setHealth :: "int \<Rightarrow> combat_unit \<Rightarrow> combat_unit" where
  "cb_setHealth health cb = cb_onUnit (\<lambda>u. u\<lparr>iu_health := health\<rparr>) cb"

definition cb_receiveDamage :: "item_env \<Rightarrow> combat_config \<Rightarrow> bool \<Rightarrow> int \<Rightarrow> combat_unit \<Rightarrow> combat_unit" where
  "cb_receiveDamage env cfg hasAttacker damage cb =
     (let cb1 = (cb_setHealth (i32 (iu_health (cb_unit cb) - damage)) cb)\<lparr>cb_isDamaged := True\<rparr>;
          cb2 = (if \<not> iu_hasItemEffectType ITEM_EFFECT_PREVENT_MOVE_SPEED_SLOWED (cb_unit cb1)
                 then cb_slowMoveSpeed env SLOW_MOVE_DURATION cb1 else cb1);
          cb3 = cb_onUnit (iu_emit ThreatUpdate) cb2;
          cb4 = (if \<not> cc_isTrainingGround cfg then cb_resetHealthRegenTimer cb3 else cb3)
      in if hasAttacker then cb_reconceal env cfg cb4 else cb4)"

definition cb_setDead :: "item_env \<Rightarrow> combat_config \<Rightarrow> combat_unit \<Rightarrow> combat_unit option" where
  \<comment> \<open>\<^verbatim>\<open>setDeathState(DEATH_STATE_DEAD)\<close>\<close>
  "cb_setDead env cfg cb =
     (let cb1 = cb_restoreMoveSpeed env (cb\<lparr>cb_isAlive := False\<rparr>)
      in case cu_die env (cb_carrier cb1) of
           None \<Rightarrow> None
         | Some cu \<Rightarrow>
             Some (cb_resetHealthLossTimer cfg (cb_resetHealthRegenTimer (cb_releaseDangerState cfg (cb_expose env cfg (cb1\<lparr>cb_carrier := cu\<rparr>))))))"

definition cb_died :: "item_env \<Rightarrow> combat_config \<Rightarrow> int \<Rightarrow> combat_unit \<Rightarrow> combat_unit option" where
  "cb_died env cfg now cb =
     (case rwm_awardAllAwardees now (cb_rewards cb) of
        None \<Rightarrow> None
      | Some (champion, out, rm) \<Rightarrow> cb_setDead env cfg (cb\<lparr>cb_rewards := rm, cb_awards := cb_awards cb @ [(champion, out)]\<rparr>))"

definition cb_dealDamage :: "item_env \<Rightarrow> combat_config \<Rightarrow> nat \<Rightarrow> int \<Rightarrow> int \<Rightarrow> combat_unit \<Rightarrow> combat_unit option" where
  \<comment> \<open>an attacker hits this unit\<close>
  "cb_dealDamage env cfg attacker damage now cb =
     (if damage \<le> 0 then Some cb
      else
        (let health = iu_health (cb_unit cb);
             cb1 = cb\<lparr>cb_rewards := rwm_addDamage attacker (min damage health) now (cb_rewards cb)\<rparr>
         in if health > damage then Some (cb_receiveDamage env cfg True damage cb1) else cb_died env cfg now cb1))"

section \<open>Update\<close>

definition cb_updateHealthRegenTimer :: "combat_config \<Rightarrow> NSTime \<Rightarrow> combat_unit \<Rightarrow> combat_unit" where
  "cb_updateHealthRegenTimer cfg diff cb =
     (let health = iu_health (cb_unit cb); maxHealth = iu_stats (cb_unit cb) STAT_MAX_HEALTH
      in if health \<ge> maxHealth \<or> cb_dangerState cb = DANGER_STATE_ENTERED then cb
         else
           (let cb1 = cb\<lparr>cb_healthRegenTimer := delay_update diff (cb_healthRegenTimer cb)\<rparr>
            in if delay_passed (cb_healthRegenTimer cb1)
               then (let points = cc_regenPoints cfg (delay_getElapsed (cb_healthRegenTimer cb1)) (iu_stats (cb_unit cb) STAT_HEALTH_REGEN_RATE) maxHealth;
                         newHealth = i32 (health + points)
                     in cb_onUnit (iu_emit ThreatUpdate)
                          (cb_resetHealthRegenTimer (cb_setHealth (if newHealth > maxHealth then maxHealth else newHealth) cb1)))
               else cb1))"

definition cb_updateHealthLossTimer :: "item_env \<Rightarrow> combat_config \<Rightarrow> NSTime \<Rightarrow> int \<Rightarrow> combat_unit \<Rightarrow> combat_unit option" where
  "cb_updateHealthLossTimer env cfg diff now cb =
     (if cb_dangerState cb \<noteq> DANGER_STATE_ENTERED then Some cb
      else
        (let cb1 = cb\<lparr>cb_healthLossTimer := delay_update diff (cb_healthLossTimer cb)\<rparr>
         in if delay_passed (cb_healthLossTimer cb1)
            then (let health = iu_health (cb_unit cb1); points = cc_lossPoints cfg (delay_getElapsed (cb_healthLossTimer cb1))
                  in map_option (cb_resetHealthLossTimer cfg)
                       (if health > points then Some (cb_receiveDamage env cfg False points cb1) else cb_died env cfg now cb1))
            else Some cb1))"

definition cb_update :: "item_env \<Rightarrow> combat_config \<Rightarrow> NSTime \<Rightarrow> int \<Rightarrow> combat_unit \<Rightarrow> combat_unit option" where
  \<comment> \<open>the part of \<^verbatim>\<open>Unit::update\<close> for a unit that is alive\<close>
  "cb_update env cfg diff now cb =
     (if \<not> cb_isAlive cb then Some cb
      else
        (let cb1 = cb_updateHealthRegenTimer cfg diff (cb\<lparr>cb_carrier := cu_update env diff (cb_carrier cb)\<rparr>)
         in case cb_updateHealthLossTimer env cfg diff now cb1 of
              None \<Rightarrow> None
            | Some cb2 \<Rightarrow>
                map_option (\<lambda>cb3. cb_updateSlowMoveTimer env diff (cb_updateDangerStateTimer cfg diff cb3))
                  (cb_updateConcealmentTimer env diff (cb2\<lparr>cb_rewards := rwm_update now (cb_rewards cb2)\<rparr>))))"

definition cb_transport :: "item_env \<Rightarrow> combat_config \<Rightarrow> bool \<Rightarrow> combat_unit \<Rightarrow> combat_unit" where
  "cb_transport env cfg isConcealable cb =
     (let cb1 = cb_restoreMoveSpeed env cb;
          cb2 = (if cb_isAlive cb1 then cb_concealIfNeeded cfg isConcealable (cb_expose env cfg cb1) else cb1)
      in cb2\<lparr>cb_onConcealable := isConcealable\<rparr>)"

definition cb_relocate :: "item_env \<Rightarrow> combat_config \<Rightarrow> bool \<Rightarrow> combat_unit \<Rightarrow> combat_unit" where
  \<comment> \<open>\<^verbatim>\<open>updatePosition\<close> onto another tile\<close>
  "cb_relocate env cfg isConcealable cb = cb_updateConcealmentState env cfg isConcealable (cb\<lparr>cb_onConcealable := isConcealable\<rparr>)"

definition cb_new :: "item_env \<Rightarrow> combat_config \<Rightarrow> int \<Rightarrow> combat_unit" where
  "cb_new env cfg health =
     cb_resetHealthLossTimer cfg (cb_resetHealthRegenTimer (cb_resetConcealmentTimer cfg (cb_resetDangerStateTimer cfg
       (cb_setHealth health
         \<lparr>cb_carrier = cu_new env, cb_rewards = rwm_new, cb_awards = [], cb_isAlive = True, cb_dangerState = DANGER_STATE_RELEASED,
          cb_concealmentState = CONCEALMENT_STATE_EXPOSED, cb_onConcealable = False, cb_isDamaged = False, cb_isSlowMoveEnabled = False,
          cb_healthRegenTimer = delay_new, cb_healthLossTimer = delay_new, cb_dangerStateTimer = delay_new, cb_concealmentTimer = delay_new,
          cb_slowMoveTimer = delay_new\<rparr>))))"

datatype combat_event =
    BHit nat int int
  | BTick NSTime int
  | BRelocate bool
  | BTransport bool
  | BSafeZone bool
  | BAttack
  | BReceive nat int
  | BUse int nat
  | BGone nat

fun cb_step :: "item_env \<Rightarrow> combat_config \<Rightarrow> combat_event \<Rightarrow> combat_unit \<Rightarrow> combat_unit option" where
  \<comment> \<open>a dead unit is not hit, does not attack and does not use or pick up anything\<close>
  "cb_step env cfg (BHit attacker damage now) cb = (if cb_isAlive cb then cb_dealDamage env cfg attacker damage now cb else Some cb)"
| "cb_step env cfg (BTick diff now) cb = cb_update env cfg diff now cb"
| "cb_step env cfg (BRelocate b) cb = Some (cb_relocate env cfg b cb)"
| "cb_step env cfg (BTransport b) cb = Some (cb_transport env cfg b cb)"
| "cb_step env cfg (BSafeZone b) cb = Some (cb_updateDangerState cfg b cb)"
| "cb_step env cfg BAttack cb = Some (if cb_isAlive cb then cb_reconceal env cfg cb else cb)"
| "cb_step env cfg (BReceive itemId cnt) cb =
     (if cb_isAlive cb then map_option (\<lambda>cu. cb\<lparr>cb_carrier := cu\<rparr>) (cu_receiveItem env itemId cnt (cb_carrier cb)) else Some cb)"
| "cb_step env cfg (BUse slot guid) cb =
     (if cb_isAlive cb then map_option (\<lambda>cu. cb\<lparr>cb_carrier := cu\<rparr>) (cu_handleUseItem env slot guid (cb_carrier cb)) else Some cb)"
| "cb_step env cfg (BGone attacker) cb = Some (cb\<lparr>cb_rewards := rwm_targetGone attacker (cb_rewards cb)\<rparr>)"

fun cb_run :: "item_env \<Rightarrow> combat_config \<Rightarrow> combat_event list \<Rightarrow> combat_unit \<Rightarrow> combat_unit option" where
  "cb_run env cfg [] cb = Some cb"
| "cb_run env cfg (e # es) cb = (case cb_step env cfg e cb of None \<Rightarrow> None | Some cb1 \<Rightarrow> cb_run env cfg es cb1)"

section \<open>Invariant\<close>

definition combat_stats :: "combat_unit \<Rightarrow> stat_type \<Rightarrow> stat_modifier_type \<Rightarrow> int" where
  \<comment> \<open>what the slow-down and the concealment add to a modifier\<close>
  "combat_stats cb st mt =
     (if cb_isSlowMoveEnabled cb \<and> st = STAT_MOVE_SPEED \<and> mt = STAT_MODIFIER_PERCENT then MOVE_SPEED_PERCENT_WHEN_SLOW_MOVE else 0)
     + (if cb_concealmentState cb = CONCEALMENT_STATE_CONCEALED \<and> st = STAT_HEALTH_REGEN_RATE \<and> mt = STAT_MODIFIER_PERCENT
        then HEALTH_REGEN_RATE_PERCENT_WHEN_CONCEALED else 0)"

definition cb_books :: "item_env \<Rightarrow> (stat_type \<Rightarrow> stat_modifier_type \<Rightarrow> int) \<Rightarrow> combat_unit \<Rightarrow> bool" where
  "cb_books env beans cb \<longleftrightarrow> cu_inv env (\<lambda>st mt. beans st mt + combat_stats cb st mt) (cb_carrier cb)"

definition cb_placed :: "combat_unit \<Rightarrow> bool" where
  \<comment> \<open>who hides or is about to, stands on a tile that conceals; the dead do neither hide nor limp\<close>
  "cb_placed cb \<longleftrightarrow> (if cb_isAlive cb then cb_concealmentState cb = CONCEALMENT_STATE_EXPOSED \<or> cb_onConcealable cb
     else cb_concealmentState cb = CONCEALMENT_STATE_EXPOSED \<and> \<not> cb_isSlowMoveEnabled cb)"

definition hp_ok :: "item_unit \<Rightarrow> bool" where
  "hp_ok u \<longleftrightarrow> 0 < iu_health u \<and> iu_health u < 1073741824 \<and> 0 < iu_stats u STAT_MAX_HEALTH \<and> iu_stats u STAT_MAX_HEALTH < 1073741824"

definition cb_life :: "combat_unit \<Rightarrow> bool" where
  "cb_life cb \<longleftrightarrow> (if cb_isAlive cb then hp_ok (cb_unit cb) \<and> cb_awards cb = [] else iu_health (cb_unit cb) = 0 \<and> length (cb_awards cb) = 1)"

definition cb_inv :: "item_env \<Rightarrow> (stat_type \<Rightarrow> stat_modifier_type \<Rightarrow> int) \<Rightarrow> int \<Rightarrow> nat \<Rightarrow> combat_unit \<Rightarrow> bool" where
  \<comment> \<open>\<open>rest\<close> is the damage still to come, \<open>n\<close> bounds the items created\<close>
  "cb_inv env beans rest n cb \<longleftrightarrow> cb_books env beans cb \<and> cb_placed cb \<and> (\<exists>l. rwm_sim rest (cb_rewards cb) l)
     \<and> cu_spawnId (cb_carrier cb) \<le> n \<and> cb_life cb"

lemma iu_handle_inv:
  assumes "iu_inv env base u"
  shows "iu_inv env (\<lambda>st mt. base st mt + (if st = s \<and> mt = m then (if b then a else - a) else 0)) (iu_handleStatModifier env s m a b u)"
proof -
  have "iu_modifiers (iu_handleStatModifier env s m a b u) st mt
      = i32 (base st mt + (if st = s \<and> mt = m then (if b then a else - a) else 0) + apps_total (iu_apps u) st mt)" for st mt
    using assms by (auto simp: iu_handle_modifiers iu_inv_def i32_add algebra_simps)
  then show ?thesis using assms iu_handle_ok [of env u s m a b] unfolding iu_inv_def by (simp add: iu_list_def)
qed

lemma iu_emit_inv: "iu_inv env base u \<Longrightarrow> iu_inv env base (iu_emit e u)"
  by (simp add: iu_inv_def iu_emit_ok iu_list_def)

lemma cu_inv_handle:
  assumes "cu_inv env base cu"
  shows "cu_inv env (\<lambda>st mt. base st mt + (if st = s \<and> mt = m then (if b then a else - a) else 0))
    (cu\<lparr>cu_unit := iu_handleStatModifier env s m a b (cu_unit cu)\<rparr>)"
proof -
  have "iu_inv env (\<lambda>st mt. base st mt + equip_total env (cu_slots cu) st mt + (if st = s \<and> mt = m then (if b then a else - a) else 0))
      (iu_handleStatModifier env s m a b (cu_unit cu))"
    using assms by (intro iu_handle_inv) (simp add: cu_inv_def)
  then have "iu_inv env (\<lambda>st mt. base st mt + (if st = s \<and> mt = m then (if b then a else - a) else 0) + equip_total env (cu_slots cu) st mt)
      (iu_handleStatModifier env s m a b (cu_unit cu))" by (rule iu_inv_cong) simp
  then show ?thesis using assms by (simp add: cu_inv_def)
qed

lemma cu_inv_base: "cu_inv env base cu \<Longrightarrow> (\<And>st mt. base1 st mt = base st mt) \<Longrightarrow> cu_inv env base1 cu"
  by (simp add: cu_inv_def)

lemma cu_inv_emit: "cu_inv env base cu \<Longrightarrow> cu_inv env base (cu\<lparr>cu_unit := iu_emit e (cu_unit cu)\<rparr>)"
  by (simp add: cu_inv_def iu_emit_inv)

lemma cu_inv_health: "cu_inv env base cu \<Longrightarrow> cu_inv env base (cu\<lparr>cu_unit := (cu_unit cu)\<lparr>iu_health := h\<rparr>\<rparr>)"
  by (simp add: cu_inv_def iu_inv_health)

lemmas cb_timer_defs = cb_resetHealthRegenTimer_def cb_resetHealthLossTimer_def cb_resetConcealmentTimer_def cb_resetDangerStateTimer_def
  cb_enterDangerState_def cb_releaseDangerState_def

lemma cb_books_cong:
  assumes "cb_books env beans cb" and "cb_carrier cb1 = cb_carrier cb" and "cb_isSlowMoveEnabled cb1 = cb_isSlowMoveEnabled cb"
    and "cb_concealmentState cb1 = CONCEALMENT_STATE_CONCEALED \<longleftrightarrow> cb_concealmentState cb = CONCEALMENT_STATE_CONCEALED"
  shows "cb_books env beans cb1"
  using assms(1) unfolding cb_books_def assms(2) by (rule cu_inv_base) (simp add: combat_stats_def assms(3,4))

definition cb_same :: "combat_unit \<Rightarrow> combat_unit \<Rightarrow> bool" where
  "cb_same cb1 cb \<longleftrightarrow> cb_rewards cb1 = cb_rewards cb \<and> cb_isAlive cb1 = cb_isAlive cb \<and> cb_onConcealable cb1 = cb_onConcealable cb
     \<and> cb_awards cb1 = cb_awards cb \<and> cu_spawnId (cb_carrier cb1) = cu_spawnId (cb_carrier cb)
     \<and> iu_health (cb_unit cb1) = iu_health (cb_unit cb) \<and> iu_stats (cb_unit cb1) STAT_MAX_HEALTH = iu_stats (cb_unit cb) STAT_MAX_HEALTH"

lemma cb_same_refl [simp]: "cb_same cb cb" by (simp add: cb_same_def)

lemma cb_same_trans: "cb_same c b \<Longrightarrow> cb_same b a \<Longrightarrow> cb_same c a" by (simp add: cb_same_def)

lemma iu_handle_max [simp]: "st \<noteq> STAT_MAX_HEALTH \<Longrightarrow> iu_stats (iu_handleStatModifier env st mt a b u) STAT_MAX_HEALTH = iu_stats u STAT_MAX_HEALTH"
  by (simp add: iu_handleStatModifier_def iu_updateStat_def)

lemma cb_restore_books:
  assumes "cb_books env beans cb"
  shows "cb_books env beans (cb_restoreMoveSpeed env cb) \<and> cb_same (cb_restoreMoveSpeed env cb) cb
    \<and> \<not> cb_isSlowMoveEnabled (cb_restoreMoveSpeed env cb) \<and> cb_concealmentState (cb_restoreMoveSpeed env cb) = cb_concealmentState cb"
proof (cases "cb_isSlowMoveEnabled cb")
  case True
  have "cu_inv env (\<lambda>st mt. beans st mt + combat_stats cb st mt
        + (if st = STAT_MOVE_SPEED \<and> mt = STAT_MODIFIER_PERCENT then (if False then MOVE_SPEED_PERCENT_WHEN_SLOW_MOVE else - MOVE_SPEED_PERCENT_WHEN_SLOW_MOVE) else 0))
      (cb_carrier (cb_restoreMoveSpeed env cb))"
    using cu_inv_handle [OF assms [unfolded cb_books_def], of STAT_MOVE_SPEED STAT_MODIFIER_PERCENT False MOVE_SPEED_PERCENT_WHEN_SLOW_MOVE] True
    by (simp add: cb_restoreMoveSpeed_def cb_onUnit_def)
  then have "cb_books env beans (cb_restoreMoveSpeed env cb)"
    unfolding cb_books_def by (rule cu_inv_base) (simp add: combat_stats_def cb_restoreMoveSpeed_def cb_onUnit_def True)
  then show ?thesis using True by (simp add: cb_restoreMoveSpeed_def cb_onUnit_def cb_same_def)
qed (use assms in \<open>simp add: cb_restoreMoveSpeed_def cb_same_def\<close>)

lemma cb_slow_books:
  assumes "cb_books env beans cb"
  shows "cb_books env beans (cb_slowMoveSpeed env d cb) \<and> cb_same (cb_slowMoveSpeed env d cb) cb
    \<and> cb_concealmentState (cb_slowMoveSpeed env d cb) = cb_concealmentState cb"
proof -
  let ?cb = "if cb_isSlowMoveEnabled cb then cb_restoreMoveSpeed env cb else cb"
  have r: "cb_books env beans ?cb" "cb_same ?cb cb" "\<not> cb_isSlowMoveEnabled ?cb" "cb_concealmentState ?cb = cb_concealmentState cb"
    using cb_restore_books [OF assms] assms by (simp_all add: cb_same_def)
  have e: "cb_carrier (cb_slowMoveSpeed env d cb) = (cb_carrier ?cb)\<lparr>cu_unit :=
      iu_handleStatModifier env STAT_MOVE_SPEED STAT_MODIFIER_PERCENT MOVE_SPEED_PERCENT_WHEN_SLOW_MOVE True (cu_unit (cb_carrier ?cb))\<rparr>"
    by (simp add: cb_slowMoveSpeed_def cb_onUnit_def Let_def)
  have f: "cb_isSlowMoveEnabled (cb_slowMoveSpeed env d cb)" "cb_concealmentState (cb_slowMoveSpeed env d cb) = cb_concealmentState ?cb"
      "cb_same (cb_slowMoveSpeed env d cb) ?cb"
    by (simp_all add: cb_slowMoveSpeed_def cb_onUnit_def Let_def cb_same_def)
  have "cb_books env beans (cb_slowMoveSpeed env d cb)"
    unfolding cb_books_def e
    using cu_inv_handle [OF r(1) [unfolded cb_books_def], of STAT_MOVE_SPEED STAT_MODIFIER_PERCENT True MOVE_SPEED_PERCENT_WHEN_SLOW_MOVE]
    by (rule cu_inv_base) (simp add: combat_stats_def f r(3))
  then show ?thesis using f r by (auto simp: cb_same_def)
qed

lemma cb_expose_books:
  assumes "cb_books env beans cb"
  shows "cb_books env beans (cb_expose env cfg cb) \<and> cb_same (cb_expose env cfg cb) cb
    \<and> cb_concealmentState (cb_expose env cfg cb) = CONCEALMENT_STATE_EXPOSED \<and> cb_isSlowMoveEnabled (cb_expose env cfg cb) = cb_isSlowMoveEnabled cb"
proof (cases "cb_concealmentState cb")
  case CONCEALMENT_STATE_CONCEALED
  have "cu_inv env (\<lambda>st mt. beans st mt + combat_stats cb st mt + (if st = STAT_HEALTH_REGEN_RATE \<and> mt = STAT_MODIFIER_PERCENT
        then (if False then HEALTH_REGEN_RATE_PERCENT_WHEN_CONCEALED else - HEALTH_REGEN_RATE_PERCENT_WHEN_CONCEALED) else 0))
      (cb_carrier (cb_expose env cfg cb))"
    using cu_inv_emit [OF cu_inv_handle [OF assms [unfolded cb_books_def], of STAT_HEALTH_REGEN_RATE STAT_MODIFIER_PERCENT False HEALTH_REGEN_RATE_PERCENT_WHEN_CONCEALED]]
      CONCEALMENT_STATE_CONCEALED by (simp add: cb_expose_def cb_onUnit_def)
  then have "cb_books env beans (cb_expose env cfg cb)"
    unfolding cb_books_def by (rule cu_inv_base) (simp add: combat_stats_def cb_expose_def cb_onUnit_def CONCEALMENT_STATE_CONCEALED)
  then show ?thesis using CONCEALMENT_STATE_CONCEALED by (simp add: cb_expose_def cb_onUnit_def cb_same_def)
next
  case CONCEALMENT_STATE_CONCEALING
  then have "cb_books env beans (cb_expose env cfg cb)" by (intro cb_books_cong [OF assms]) (simp_all add: cb_expose_def cb_timer_defs)
  then show ?thesis using CONCEALMENT_STATE_CONCEALING by (simp add: cb_expose_def cb_timer_defs cb_same_def)
qed (use assms in \<open>simp add: cb_expose_def cb_same_def\<close>)

lemma cb_concealed_books:
  assumes "cb_books env beans cb" and "cb_onConcealable cb" and "cb_concealmentState cb = CONCEALMENT_STATE_CONCEALING"
  obtains cb1 where "cb_concealed env cb = Some cb1" "cb_books env beans cb1" "cb_same cb1 cb" "cb_isSlowMoveEnabled cb1 = cb_isSlowMoveEnabled cb"
proof -
  obtain cb1 where c: "cb_concealed env cb = Some cb1" using assms(2,3) by (simp add: cb_concealed_def)
  have e: "cb_carrier cb1 = (cb_carrier cb)\<lparr>cu_unit := iu_emit VisibilityUpdate (iu_handleStatModifier env STAT_HEALTH_REGEN_RATE STAT_MODIFIER_PERCENT
      HEALTH_REGEN_RATE_PERCENT_WHEN_CONCEALED True (cb_unit cb))\<rparr>"
    "cb_concealmentState cb1 = CONCEALMENT_STATE_CONCEALED" "cb_isSlowMoveEnabled cb1 = cb_isSlowMoveEnabled cb" "cb_same cb1 cb"
    using c assms(2,3) by (auto simp: cb_concealed_def cb_onUnit_def cb_same_def)
  have "cb_books env beans cb1"
    unfolding cb_books_def e(1)
    using cu_inv_emit [OF cu_inv_handle [OF assms(1) [unfolded cb_books_def], of STAT_HEALTH_REGEN_RATE STAT_MODIFIER_PERCENT True HEALTH_REGEN_RATE_PERCENT_WHEN_CONCEALED], of VisibilityUpdate]
    by (simp, elim cu_inv_base) (simp add: combat_stats_def e assms(3))
  then show thesis using that c e by blast
qed


lemma cb_keep:
  assumes "cb_inv env beans rest n cb" and "cb_books env beans cb1" and "cb_placed cb1" and "cb_same cb1 cb"
  shows "cb_inv env beans rest n cb1"
proof -
  have "cb_life cb1 = cb_life cb" using assms(4) by (simp add: cb_same_def cb_life_def hp_ok_def)
  then show ?thesis using assms by (simp add: cb_inv_def cb_same_def)
qed

lemma cb_restore_inv: "cb_inv env beans rest n cb \<Longrightarrow> cb_inv env beans rest n (cb_restoreMoveSpeed env cb)"
  by (rule cb_keep) (use cb_restore_books [of env beans cb] in \<open>auto simp: cb_inv_def cb_placed_def cb_same_def split: if_splits\<close>)

lemma cb_slow_inv: "cb_inv env beans rest n cb \<Longrightarrow> cb_isAlive cb \<Longrightarrow> cb_inv env beans rest n (cb_slowMoveSpeed env d cb)"
  by (rule cb_keep) (use cb_slow_books [of env beans cb d] in \<open>auto simp: cb_inv_def cb_placed_def cb_same_def split: if_splits\<close>)

lemma cb_expose_inv: "cb_inv env beans rest n cb \<Longrightarrow> cb_inv env beans rest n (cb_expose env cfg cb)"
  by (rule cb_keep) (use cb_expose_books [of env beans cb cfg] in \<open>auto simp: cb_inv_def cb_placed_def cb_same_def split: if_splits\<close>)

lemma cb_inv_cong:
  assumes "cb_inv env beans rest n cb" and "cb_carrier cb1 = cb_carrier cb" and "cb_isSlowMoveEnabled cb1 = cb_isSlowMoveEnabled cb"
    and "cb_concealmentState cb1 = CONCEALMENT_STATE_CONCEALED \<longleftrightarrow> cb_concealmentState cb = CONCEALMENT_STATE_CONCEALED"
    and "cb_placed cb1" and "cb_rewards cb1 = cb_rewards cb" and "cb_isAlive cb1 = cb_isAlive cb" and "cb_awards cb1 = cb_awards cb"
  shows "cb_inv env beans rest n cb1"
  using assms cb_books_cong [of env beans cb cb1] by (simp add: cb_inv_def cb_life_def)

lemma cb_inv_frame:
  assumes "cb_inv env beans rest n cb" and "cb_carrier cb1 = cb_carrier cb" and "cb_isSlowMoveEnabled cb1 = cb_isSlowMoveEnabled cb"
    and "cb_concealmentState cb1 = cb_concealmentState cb" and "cb_onConcealable cb1 = cb_onConcealable cb"
    and "cb_rewards cb1 = cb_rewards cb" and "cb_isAlive cb1 = cb_isAlive cb" and "cb_awards cb1 = cb_awards cb"
  shows "cb_inv env beans rest n cb1"
  using assms by (intro cb_inv_cong [OF assms(1)]) (simp_all add: cb_inv_def cb_placed_def)

lemma cb_timers_inv:
  assumes "cb_inv env beans rest n cb"
  shows "cb_inv env beans rest n (cb_resetHealthRegenTimer cb)" and "cb_inv env beans rest n (cb_resetHealthLossTimer cfg cb)"
    and "cb_inv env beans rest n (cb_resetConcealmentTimer cfg cb)" and "cb_inv env beans rest n (cb_resetDangerStateTimer cfg cb)"
    and "cb_inv env beans rest n (cb_enterDangerState cfg cb)" and "cb_inv env beans rest n (cb_releaseDangerState cfg cb)"
    and "cb_inv env beans rest n (cb_updateDangerState cfg b cb)" and "cb_inv env beans rest n (cb_updateDangerStateTimer cfg diff cb)"
  by (rule cb_inv_frame [OF assms]; simp add: cb_timer_defs cb_updateDangerState_def cb_updateDangerStateTimer_def Let_def)+

lemma cb_slowTimer_inv:
  assumes "cb_inv env beans rest n cb"
  shows "cb_inv env beans rest n (cb_updateSlowMoveTimer env diff cb)"
proof -
  have "cb_inv env beans rest n (cb\<lparr>cb_slowMoveTimer := delay_update diff (cb_slowMoveTimer cb)\<rparr>)" by (rule cb_inv_frame [OF assms]) simp_all
  then show ?thesis using assms cb_restore_inv by (simp add: cb_updateSlowMoveTimer_def Let_def)
qed

lemma cb_concealDelayed_inv:
  assumes "cb_inv env beans rest n cb" and "cb_isAlive cb" and "cb_onConcealable cb"
  shows "cb_inv env beans rest n (cb_concealDelayed cfg cb)"
proof (cases "cb_concealmentState cb = CONCEALMENT_STATE_EXPOSED")
  case True
  then show ?thesis by (intro cb_inv_cong [OF assms(1)]) (simp_all add: cb_concealDelayed_def cb_timer_defs cb_placed_def assms(2,3))
qed (use assms(1) in \<open>simp add: cb_concealDelayed_def\<close>)

lemma cb_reconceal_inv:
  assumes "cb_inv env beans rest n cb"
  shows "cb_inv env beans rest n (cb_reconceal env cfg cb)"
proof (cases "cb_concealmentState cb")
  case CONCEALMENT_STATE_CONCEALED
  then have "cb_isAlive cb" "cb_onConcealable cb" using assms by (auto simp: cb_inv_def cb_placed_def split: if_splits)
  moreover have "cb_same (cb_expose env cfg cb) cb" using cb_expose_books [of env beans cb cfg] assms by (simp add: cb_inv_def)
  ultimately have "cb_inv env beans rest n (cb_concealDelayed cfg (cb_expose env cfg cb))"
    by (intro cb_concealDelayed_inv cb_expose_inv assms) (simp_all add: cb_same_def)
  then show ?thesis using CONCEALMENT_STATE_CONCEALED by (simp add: cb_reconceal_def)
qed (use assms in \<open>simp_all add: cb_reconceal_def cb_timers_inv\<close>)

lemma cb_concealTimer_inv:
  assumes "cb_inv env beans rest n cb"
  obtains cb1 where "cb_updateConcealmentTimer env diff cb = Some cb1" "cb_inv env beans rest n cb1"
proof (cases "cb_concealmentState cb = CONCEALMENT_STATE_CONCEALING")
  case True
  then have a: "cb_isAlive cb" "cb_onConcealable cb" using assms by (auto simp: cb_inv_def cb_placed_def split: if_splits)
  let ?t = "delay_update diff (cb_concealmentTimer cb)"
  have t: "cb_inv env beans rest n (cb\<lparr>cb_concealmentTimer := t\<rparr>)" for t by (rule cb_inv_frame [OF assms]) simp_all
  show thesis
  proof (cases "delay_passed ?t")
    case passed: True
    let ?cb = "cb\<lparr>cb_concealmentTimer := delay_reset ?t\<rparr>"
    have b: "cb_books env beans ?cb" using t by (simp add: cb_inv_def)
    obtain cb1 where c: "cb_concealed env ?cb = Some cb1" "cb_books env beans cb1" "cb_same cb1 ?cb" "cb_isSlowMoveEnabled cb1 = cb_isSlowMoveEnabled ?cb"
      by (rule cb_concealed_books [OF b]) (simp_all add: a True)
    have "cb_placed cb1" using c(3) a by (simp add: cb_placed_def cb_same_def)
    then have "cb_inv env beans rest n cb1" by (rule cb_keep [OF t c(2) _ c(3)])
    then show thesis using that [of cb1] c(1) True passed by (simp add: cb_updateConcealmentTimer_def Let_def)
  next
    case False
    then show thesis using that t True by (simp add: cb_updateConcealmentTimer_def Let_def)
  qed
qed (use that assms in \<open>simp add: cb_updateConcealmentTimer_def\<close>)

lemma cb_relocate_inv:
  assumes "cb_inv env beans rest n cb"
  shows "cb_inv env beans rest n (cb_relocate env cfg b cb)"
proof (cases "b \<or> \<not> cb_isAlive cb")
  case True
  have "cb_inv env beans rest n (cb\<lparr>cb_onConcealable := b\<rparr>)"
    using True assms by (intro cb_inv_cong [OF assms]) (auto simp: cb_inv_def cb_placed_def)
  then show ?thesis using True cb_concealDelayed_inv by (auto simp: cb_relocate_def cb_updateConcealmentState_def)
next
  case False
  have "cb_expose env cfg (cb\<lparr>cb_onConcealable := b\<rparr>) = (cb_expose env cfg cb)\<lparr>cb_onConcealable := b\<rparr>"
    by (simp add: cb_expose_def cb_onUnit_def cb_timer_defs split: concealment_state.split)
  moreover have "cb_inv env beans rest n ((cb_expose env cfg cb)\<lparr>cb_onConcealable := b\<rparr>)"
    by (rule cb_inv_cong [OF cb_expose_inv [OF assms, of cfg]])
      (use False cb_expose_books [of env beans cb cfg] assms in \<open>auto simp: cb_placed_def cb_inv_def cb_same_def\<close>)
  ultimately show ?thesis using False by (simp add: cb_relocate_def cb_updateConcealmentState_def)
qed

lemma cb_transport_inv:
  assumes "cb_inv env beans rest n cb"
  shows "cb_inv env beans rest n (cb_transport env cfg b cb)"
proof -
  let ?r = "cb_restoreMoveSpeed env cb"
  have r: "cb_inv env beans rest n ?r" by (rule cb_restore_inv [OF assms])
  note e = cb_expose_books [of env beans ?r cfg] cb_expose_inv [OF r, of cfg]
  have "cb_inv env beans rest n ((cb_expose env cfg ?r)\<lparr>cb_onConcealable := b\<rparr>)" if "cb_isAlive ?r"
    by (rule cb_inv_cong [OF e(2)]) (use that e r in \<open>auto simp: cb_placed_def cb_inv_def cb_same_def\<close>)
  moreover have "(cb_concealDelayed cfg c)\<lparr>cb_onConcealable := b\<rparr> = cb_concealDelayed cfg (c\<lparr>cb_onConcealable := b\<rparr>)" for c
    by (simp add: cb_concealDelayed_def cb_timer_defs)
  moreover have "cb_inv env beans rest n (?r\<lparr>cb_onConcealable := b\<rparr>)" if "\<not> cb_isAlive ?r"
    by (rule cb_inv_cong [OF r]) (use that r in \<open>auto simp: cb_placed_def cb_inv_def\<close>)
  ultimately show ?thesis
    using e r cb_concealDelayed_inv [of env beans rest n "(cb_expose env cfg ?r)\<lparr>cb_onConcealable := b\<rparr>" cfg]
    by (auto simp: cb_transport_def cb_concealIfNeeded_def Let_def cb_inv_def [of env beans rest n ?r] cb_same_def)
qed

section \<open>Health\<close>

definition hp_env :: "item_env \<Rightarrow> bool" where
  \<comment> \<open>what the tables and the formulas promise: a maximum of health that is positive, and no effect that takes health\<close>
  "hp_env env \<longleftrightarrow> (\<forall>p v. 0 < en_calc env STAT_MAX_HEALTH p v \<and> en_calc env STAT_MAX_HEALTH p v < 1073741824)
     \<and> (\<forall>v m. 0 \<le> en_percent env v m \<and> en_percent env v m < 1073741824)
     \<and> (\<forall>k app. en_apps env k = Some app \<longrightarrow> (\<forall>(t, v) \<in> set (at_effects app). (0 \<le> v \<or> t \<noteq> 9) \<and> v < 1073741824))"

lemma hp_handle: "hp_env env \<Longrightarrow> hp_ok u \<Longrightarrow> hp_ok (iu_handleStatModifier env st mt a b u)"
  by (auto simp: hp_ok_def hp_env_def iu_handleStatModifier_def iu_updateStat_def iu_calcStat_def)

lemma hp_applyItemStats: "hp_env env \<Longrightarrow> hp_ok u \<Longrightarrow> hp_ok (iu_applyItemStats env stats b m u)"
  by (induction stats arbitrary: u) (auto simp: hp_handle split: option.splits)

lemma hp_cong: "hp_ok u \<Longrightarrow> iu_health u1 = iu_health u \<Longrightarrow> iu_stats u1 = iu_stats u \<Longrightarrow> hp_ok u1"
  by (simp add: hp_ok_def)

lemma hp_emit: "hp_ok u \<Longrightarrow> hp_ok (iu_emit e u)"
  by (simp add: hp_ok_def)

lemma hp_heal: "hp_ok u \<Longrightarrow> 0 \<le> a \<Longrightarrow> a < 1073741824 \<Longrightarrow> hp_ok (iu_heal a u)"
  by (auto simp: hp_ok_def iu_heal_def i32_nonneg)

lemma hp_handleAll:
  assumes "hp_env env" and "hp_ok u" and "b \<Longrightarrow> \<forall>e\<in>set es. (0 \<le> ie_value e \<or> ie_type e \<noteq> 9) \<and> ie_value e < 1073741824"
  shows "hp_ok (ia_handleAll env app b es u)"
  using assms(2,3)
proof (induction es arbitrary: u)
  case (Cons e es)
  have "hp_ok (ia_handle env app h e b u)" if "gItemEffectTable (ie_type e) = Some h" for h
  proof (cases h)
    case effectApplyStats then show ?thesis using Cons.prems assms(1) by (simp add: hp_applyItemStats)
  next
    case effectIncreaseHealthPercent then show ?thesis using Cons.prems assms(1) by (simp add: hp_heal hp_env_def)
  next
    case effectIncreaseHealth
    then have "ie_type e = 9" using that by (auto simp: gItemEffectTable_def split: if_splits)
    then show ?thesis using Cons.prems effectIncreaseHealth by (auto intro: hp_heal)
  qed (use Cons.prems(1) in \<open>auto simp: hp_ok_def\<close>)
  then have "hp_ok (case gItemEffectTable (ie_type e) of None \<Rightarrow> u | Some h \<Rightarrow> ia_handle env app h e b u)"
    using Cons.prems(1) by (simp split: option.split)
  then show ?case using Cons.IH Cons.prems(2) by simp
qed simp

lemma hp_send: "hp_ok u \<Longrightarrow> hp_ok (ia_sendApplicationUpdate app b u)"
  by (simp add: ia_sendApplicationUpdate_def hp_emit)

lemma hp_finish: "hp_env env \<Longrightarrow> hp_ok u \<Longrightarrow> hp_ok (ia_finish env app u)"
  by (simp add: ia_finish_def hp_send hp_handleAll)

lemma hp_finishApp: "hp_env env \<Longrightarrow> hp_ok u \<Longrightarrow> hp_ok (iu_finishApp env k u)"
  by (auto simp: iu_finishApp_def iu_eraseApp_def split: option.split intro: hp_cong [OF hp_finish])

lemma hp_updateApps: "hp_env env \<Longrightarrow> hp_ok u \<Longrightarrow> hp_ok (iu_updateApps env diff u)"
  unfolding iu_updateApps_def
proof (rule iu_fold_inv)
  fix k u assume "hp_env env" "hp_ok u"
  then show "hp_ok (iu_updateApp env diff k u)"
    using hp_finish [of env u]
    by (auto simp: iu_updateApp_def ia_update_def iu_eraseApp_def iu_setApp_def Let_def hp_ok_def split: option.splits prod.splits if_splits)
qed

lemma hp_applyItem:
  assumes "hp_env env" and "hp_ok u" and "iu_applyItem env tmpl u = Some u1"
  shows "hp_ok u1"
proof (cases "it_appId tmpl = ITEM_APPLICATION_NONE")
  case False
  obtain app where app: "ia_new env tmpl = Some app" using assms(3) False by (auto simp: iu_applyItem_def Let_def split: option.splits)
  then have t: "en_apps env (it_appId tmpl) = Some (ia_appTemplate app)" by (auto simp: ia_new_def split: option.splits)
  let ?u = "if at_duration (ia_appTemplate app) > 0 \<or> at_duration (ia_appTemplate app) = ITEM_APP_DURATION_PERMANENT
    then iu_emplaceApp (it_appId tmpl) app (iu_unapplyItem env tmpl u) else iu_unapplyItem env tmpl u"
  have "hp_ok ?u" using hp_finishApp [OF assms(1,2), of "it_appId tmpl"] by (auto simp: iu_emplaceApp_def iu_unapplyItem_def hp_ok_def)
  moreover have "(0 \<le> ie_value e \<or> ie_type e \<noteq> 9) \<and> ie_value e < 1073741824" if e: "e \<in> set (ia_effects app)" for e
  proof -
    obtain i where "(i, ie_type e, ie_value e) \<in> set (enumerate 0 (at_effects (ia_appTemplate app)))"
      using e by (auto simp: ia_effects_def effect_ptrs_def)
    then have "(ie_type e, ie_value e) \<in> set (at_effects (ia_appTemplate app))" by (auto simp: in_set_enumerate_eq dest: nth_mem)
    then show ?thesis using assms(1) t by (fastforce simp: hp_env_def)
  qed
  ultimately have "hp_ok (ia_execute env app ?u)" using assms(1) by (simp add: ia_execute_def hp_send hp_handleAll)
  then show ?thesis using assms(3) False app by (simp add: iu_applyItem_def Let_def)
qed (use assms in \<open>simp add: iu_applyItem_def\<close>)

lemma hp_removeItem: "hp_env env \<Longrightarrow> hp_ok (cu_unit cu) \<Longrightarrow> cu_removeItem env item cu = Some cu1 \<Longrightarrow> hp_ok (cu_unit cu1)"
  by (auto simp: cu_removeItem_def cu_applyStats_def cu_setSlot_def iu_unapplyItem_def Let_def hp_finishApp hp_applyItemStats split: option.splits if_splits)

lemma hp_createItem: "hp_env env \<Longrightarrow> hp_ok (cu_unit cu) \<Longrightarrow> cu_createItem env tmpl pos cnt cu = Some cu1 \<Longrightarrow> hp_ok (cu_unit cu1)"
  by (auto simp: cu_createItem_def ci_loadData_def cu_generateCarriedItemSpawnId_def cu_applyStats_def cu_setSlot_def Let_def
      intro: hp_applyItem hp_applyItemStats split: option.splits if_splits prod.splits)

lemma hp_money: "cu_unit (snd (cu_modifyMoney a cu)) = cu_unit cu"
  by (simp add: cu_modifyMoney_def)

lemma hp_beans: "hp_env env \<Longrightarrow> hp_ok (cu_unit cu) \<Longrightarrow> hp_ok (cu_unit (snd (cu_modifyMagicBean env tmpl a cu)))"
  by (simp add: cu_modifyMagicBean_def cu_applyStats_def Let_def hp_applyItemStats split: prod.split)

lemma hp_increase: "cu_increaseItemCount env item cnt cu = Some cu1 \<Longrightarrow> cu_unit cu1 = cu_unit cu"
  by (auto simp: cu_increaseItemCount_def cu_setSlot_def split: option.splits if_splits)

lemma hp_storeItem:
  assumes "hp_env env" and "hp_ok (cu_unit cu)" and "cu_storeItem env tmpl dest cu = Some cu1"
  shows "hp_ok (cu_unit cu1)"
proof (cases "it_class tmpl = ITEM_CLASS_GOLD \<or> it_class tmpl = ITEM_CLASS_MAGIC_BEAN")
  case True
  then show ?thesis using assms hp_beans by (auto simp: cu_storeItem_def hp_money split: if_splits)
next
  case False
  then obtain pos where pos: "fst dest = Some pos" using assms(3) by (auto simp: cu_storeItem_def split: option.splits)
  show ?thesis
  proof (cases "cu_slots cu ! pos")
    case None
    then show ?thesis using assms(3) False pos hp_createItem [OF assms(1,2)] by (simp add: cu_storeItem_def)
  next
    case (Some x)
    have "hp_ok (cu_unit (cu_drop x cu))" using assms(2) by (simp add: cu_drop_def)
    then have "hp_ok (cu_unit cu1)" if "it_class tmpl = ITEM_CLASS_EQUIPMENT"
      using that assms(3) False pos Some hp_createItem [OF assms(1) hp_removeItem [OF assms(1)]] by (auto simp: cu_storeItem_def split: option.splits)
    moreover have "cu_unit cu1 = cu_unit cu" if "it_class tmpl \<noteq> ITEM_CLASS_EQUIPMENT"
      using that assms(3) False pos Some by (auto simp: cu_storeItem_def hp_increase split: if_splits)
    ultimately show ?thesis using assms(2) by metis
  qed
qed

lemma hp_receiveItem:
  "hp_env env \<Longrightarrow> hp_ok (cu_unit cu) \<Longrightarrow> cu_receiveItem env k cnt cu = Some cu1 \<Longrightarrow> hp_ok (cu_unit cu1)"
  by (auto simp: cu_receiveItem_def intro: hp_storeItem split: option.splits if_splits prod.splits)

lemma hp_takeItem: "hp_env env \<Longrightarrow> hp_ok (cu_unit cu) \<Longrightarrow> cu_takeItem env item cu = Some cu1 \<Longrightarrow> hp_ok (cu_unit cu1)"
  using hp_removeItem [of env "cu_setSlot i c cu" item for i c]
  by (auto simp: cu_takeItem_def cu_decreaseItemCount_def cu_setSlot_def Let_def split: option.splits if_splits prod.splits)

lemma hp_useItem:
  assumes "hp_env env" and "hp_ok (cu_unit cu)" and "cu_useItem env item cu = Some cu1"
  shows "hp_ok (cu_unit cu1)"
proof -
  obtain tmpl cu2 u where c: "cp_startCooldown env (ci_itemId item) cu = Some cu2" "iu_applyItem env tmpl (cu_unit cu2) = Some u"
      "cu_takeItem env item ((cu_sendItemUseResult True cu2)\<lparr>cu_unit := u\<rparr>) = Some cu1"
    using assms(3) by (auto simp: cu_useItem_def cu_sendItemUseResult_def Let_def split: option.splits)
  have "cu_unit cu2 = cu_unit cu" using c(1) by (auto simp: cp_startCooldown_def Let_def split: option.splits if_splits)
  then have "hp_ok u" using hp_applyItem [OF assms(1) _ c(2)] assms(2) by simp
  then show ?thesis using hp_takeItem [OF assms(1) _ c(3)] by simp
qed

lemma hp_handleUseItem:
  "hp_env env \<Longrightarrow> hp_ok (cu_unit cu) \<Longrightarrow> cu_handleUseItem env slot guid cu = Some cu1 \<Longrightarrow> hp_ok (cu_unit cu1)"
  by (auto simp: cu_handleUseItem_def cu_sendItemUseResult_def intro: hp_useItem split: option.splits if_splits bool.splits)

section \<open>Damage, death and time\<close>

definition cfg_ok :: "combat_config \<Rightarrow> bool" where
  "cfg_ok cfg \<longleftrightarrow> (\<forall>t r m. 0 \<le> cc_regenPoints cfg t r m \<and> cc_regenPoints cfg t r m < 1073741824) \<and> (\<forall>t. 0 \<le> cc_lossPoints cfg t)"

lemma cb_carrier_inv:
  assumes "cb_inv env beans rest n cb" and "cu_inv env (\<lambda>st mt. beans1 st mt + combat_stats cb st mt) cu" and "cu_spawnId cu \<le> n1"
    and "cb_isAlive cb" and "hp_ok (cu_unit cu)"
  shows "cb_inv env beans1 rest n1 (cb\<lparr>cb_carrier := cu\<rparr>)"
proof -
  have "combat_stats (cb\<lparr>cb_carrier := cu\<rparr>) = combat_stats cb" by (intro ext) (simp add: combat_stats_def)
  then show ?thesis using assms by (simp add: cb_inv_def cb_books_def cb_life_def cb_placed_def)
qed

lemma cb_setHealth_inv:
  assumes "cb_inv env beans rest n cb" and "cb_isAlive cb" and "0 < h" and "h < 1073741824"
  shows "cb_inv env beans rest n (cb_setHealth h cb)"
  unfolding cb_setHealth_def cb_onUnit_def
  by (rule cb_carrier_inv [OF assms(1)])
    (use assms in \<open>auto simp: cb_inv_def cb_books_def cb_life_def hp_ok_def intro: cu_inv_health\<close>)

lemma cb_emit_inv:
  assumes "cb_inv env beans rest n cb" and "cb_isAlive cb"
  shows "cb_inv env beans rest n (cb_onUnit (iu_emit e) cb)"
  unfolding cb_onUnit_def
  by (rule cb_carrier_inv [OF assms(1)]) (use assms in \<open>auto simp: cb_inv_def cb_books_def cb_life_def hp_emit intro: cu_inv_emit\<close>)

lemma cb_alive [simp]:
  "cb_isAlive (cb_setHealth h cb) = cb_isAlive cb" "cb_isAlive (cb_onUnit f cb) = cb_isAlive cb" "cb_isAlive (cb_resetHealthRegenTimer cb) = cb_isAlive cb"
  "cb_isAlive (cb_restoreMoveSpeed env cb) = cb_isAlive cb" "cb_isAlive (cb_slowMoveSpeed env d cb) = cb_isAlive cb"
  by (simp_all add: cb_setHealth_def cb_onUnit_def cb_resetHealthRegenTimer_def cb_restoreMoveSpeed_def cb_slowMoveSpeed_def Let_def)

lemma cb_receiveDamage_inv:
  assumes "cb_inv env beans rest n cb" and "cb_isAlive cb" and "0 \<le> damage" and "damage < iu_health (cb_unit cb)"
  shows "cb_inv env beans rest n (cb_receiveDamage env cfg b damage cb)"
proof -
  have h: "0 < iu_health (cb_unit cb)" "iu_health (cb_unit cb) < 1073741824" using assms(1,2) by (simp_all add: cb_inv_def cb_life_def hp_ok_def)
  then have "i32 (iu_health (cb_unit cb) - damage) = iu_health (cb_unit cb) - damage" using assms(3,4) by (intro i32_nonneg) auto
  then have "cb_inv env beans rest n (cb_setHealth (i32 (iu_health (cb_unit cb) - damage)) cb)"
    using assms h by (intro cb_setHealth_inv) auto
  then have 1: "cb_inv env beans rest n ((cb_setHealth (i32 (iu_health (cb_unit cb) - damage)) cb)\<lparr>cb_isDamaged := True\<rparr>)" (is "cb_inv _ _ _ _ ?cb")
    by (rule cb_inv_frame) simp_all
  then have 2: "cb_inv env beans rest n (if c then cb_slowMoveSpeed env d ?cb else ?cb)" for c d
    using cb_slow_inv assms(2) by simp
  have 3: "cb_inv env beans rest n (cb_onUnit (iu_emit ThreatUpdate) (if c then cb_slowMoveSpeed env d ?cb else ?cb))" for c d
    by (rule cb_emit_inv [OF 2]) (simp add: assms(2))
  have "cb_inv env beans rest n (if c then cb_resetHealthRegenTimer x else x)" "cb_inv env beans rest n (if c then cb_reconceal env cfg x else x)"
    if "cb_inv env beans rest n x" for x c using that by (simp_all add: cb_timers_inv cb_reconceal_inv)
  note step = this
  show ?thesis unfolding cb_receiveDamage_def Let_def by (rule step(2), rule step(1), rule 3)
qed

lemma cb_setDead_inv:
  assumes "items_ok env" and "cb_books env beans cb" and "rwm_sim rest (cb_rewards cb) l" and "cu_spawnId (cb_carrier cb) \<le> n"
    and "length (cb_awards cb) = 1"
  obtains cb1 where "cb_setDead env cfg cb = Some cb1" "cb_inv env beans rest n cb1"
proof -
  let ?r = "cb_restoreMoveSpeed env (cb\<lparr>cb_isAlive := False\<rparr>)"
  have "cb_books env beans (cb\<lparr>cb_isAlive := False\<rparr>)" by (rule cb_books_cong [OF assms(2)]) simp_all
  from cb_restore_books [OF this] have r: "cb_books env beans ?r" "cb_same ?r (cb\<lparr>cb_isAlive := False\<rparr>)" "\<not> cb_isSlowMoveEnabled ?r" by simp_all
  obtain cu where cu: "cu_die env (cb_carrier ?r) = Some cu" "cu_inv env (\<lambda>st mt. beans st mt + combat_stats ?r st mt) cu"
      "cu_spawnId cu = cu_spawnId (cb_carrier ?r)"
    by (rule cu_die_inv [OF assms(1) r(1) [unfolded cb_books_def]])
  have h: "iu_health (cu_unit cu) = 0" using cu(1) by (auto simp: cu_die_def Let_def split: option.splits)
  have "cb_books env beans (?r\<lparr>cb_carrier := cu\<rparr>)" unfolding cb_books_def by simp (rule cu_inv_base [OF cu(2)], simp add: combat_stats_def)
  from cb_expose_books [OF this, of cfg] have "cb_inv env beans rest n (cb_expose env cfg (?r\<lparr>cb_carrier := cu\<rparr>))"
    using r cu assms(3-5) h by (auto simp: cb_inv_def cb_same_def cb_placed_def cb_life_def)
  then have "cb_inv env beans rest n (cb_resetHealthLossTimer cfg (cb_resetHealthRegenTimer (cb_releaseDangerState cfg (cb_expose env cfg (?r\<lparr>cb_carrier := cu\<rparr>)))))"
    by (intro cb_timers_inv)
  then show thesis using that cu(1) by (simp add: cb_setDead_def Let_def)
qed

lemma cb_died_inv:
  assumes "items_ok env" and "cb_inv env beans rest n cb" and "cb_isAlive cb"
  obtains cb1 where "cb_died env cfg now cb = Some cb1" "cb_inv env beans rest n cb1"
proof -
  obtain l where "rwm_sim rest (cb_rewards cb) l" using assms(2) by (auto simp: cb_inv_def)
  from rwm_award_sim [OF this, of now] obtain champion out rm
    where w: "rwm_awardAllAwardees now (cb_rewards cb) = Some (champion, out, rm)" "rwm_sim rest rm []" by blast
  let ?cb = "cb\<lparr>cb_rewards := rm, cb_awards := cb_awards cb @ [(champion, out)]\<rparr>"
  have c: "rwm_sim rest (cb_rewards ?cb) []" "cu_spawnId (cb_carrier ?cb) \<le> n" "length (cb_awards ?cb) = 1"
    using assms(2,3) w(2) by (simp_all add: cb_inv_def cb_life_def)
  have b: "cb_books env beans ?cb" by (rule cb_books_cong [of env beans cb]) (use assms(2) in \<open>simp_all add: cb_inv_def\<close>)
  obtain cb1 where "cb_setDead env cfg ?cb = Some cb1" "cb_inv env beans rest n cb1"
    by (rule cb_setDead_inv [OF assms(1) b c])
  then show thesis using that w(1) by (simp add: cb_died_def)
qed

lemma cb_dealDamage_inv:
  assumes "items_ok env" and "cb_inv env beans rest n cb" and "cb_isAlive cb" and "0 < damage" and "damage \<le> rest"
  obtains cb1 where "cb_dealDamage env cfg attacker damage now cb = Some cb1" "cb_inv env beans (rest - damage) n cb1"
proof -
  let ?h = "iu_health (cb_unit cb)"
  let ?cb = "cb\<lparr>cb_rewards := rwm_addDamage attacker (min damage ?h) now (cb_rewards cb)\<rparr>"
  have h: "0 < ?h" using assms(2,3) by (simp add: cb_inv_def cb_life_def hp_ok_def)
  obtain l where "rwm_sim rest (cb_rewards cb) l" using assms(2) by (auto simp: cb_inv_def)
  then have "rwm_sim (rest - min damage ?h) (cb_rewards ?cb) (led_add attacker (min damage ?h) now l)"
    using rwm_addDamage_sim [of rest _ l "min damage ?h"] h assms(4,5) by simp
  then have sim: "rwm_sim (rest - damage) (cb_rewards ?cb) (led_add attacker (min damage ?h) now l)"
    using assms(5) by (auto simp: rwm_sim_def)
  have b: "cb_books env beans ?cb" by (rule cb_books_cong [of env beans cb]) (use assms(2) in \<open>simp_all add: cb_inv_def\<close>)
  have inv: "cb_inv env beans (rest - damage) n ?cb" using b sim assms(2) by (auto simp: cb_inv_def cb_placed_def cb_life_def)
  show thesis
  proof (cases "?h > damage")
    case True
    have "cb_inv env beans (rest - damage) n (cb_receiveDamage env cfg True damage ?cb)"
      by (rule cb_receiveDamage_inv [OF inv]) (use assms True in simp_all)
    then show thesis using that True assms(4) by (simp add: cb_dealDamage_def Let_def)
  next
    case False
    obtain cb1 where "cb_died env cfg now ?cb = Some cb1" "cb_inv env beans (rest - damage) n cb1"
      by (rule cb_died_inv [OF assms(1) inv]) (simp_all add: assms(3))
    then show thesis using that False assms(4) by (simp add: cb_dealDamage_def Let_def)
  qed
qed

lemma cb_regen_inv:
  assumes "cb_inv env beans rest n cb" and "cb_isAlive cb" and "cfg_ok cfg"
  shows "cb_inv env beans rest n (cb_updateHealthRegenTimer cfg diff cb)"
proof -
  let ?h = "iu_health (cb_unit cb)" and ?m = "iu_stats (cb_unit cb) STAT_MAX_HEALTH" and ?t = "delay_update diff (cb_healthRegenTimer cb)"
  let ?p = "cc_regenPoints cfg (delay_getElapsed ?t) (iu_stats (cb_unit cb) STAT_HEALTH_REGEN_RATE) ?m"
  have h: "0 < ?h" "?h < 1073741824" "0 < ?m" "?m < 1073741824" using assms(1,2) by (simp_all add: cb_inv_def cb_life_def hp_ok_def)
  have p: "0 \<le> ?p" "?p < 1073741824" using assms(3) by (auto simp: cfg_ok_def)
  have n: "i32 (?h + ?p) = ?h + ?p" using h p by (intro i32_nonneg) auto
  have t: "cb_inv env beans rest n (cb\<lparr>cb_healthRegenTimer := ?t\<rparr>)" by (rule cb_inv_frame [OF assms(1)]) simp_all
  have v: "cb_inv env beans rest n (cb_onUnit (iu_emit ThreatUpdate) (cb_resetHealthRegenTimer (cb_setHealth v (cb\<lparr>cb_healthRegenTimer := ?t\<rparr>))))"
    if "0 < v" "v < 1073741824" for v
    using cb_emit_inv [OF cb_timers_inv(1) [OF cb_setHealth_inv [OF t _ that]]] assms(2) by simp
  show ?thesis using assms(1) t h p by (auto simp: cb_updateHealthRegenTimer_def Let_def n intro!: v)
qed

lemma cb_loss_inv:
  assumes "items_ok env" and "cb_inv env beans rest n cb" and "cb_isAlive cb" and "cfg_ok cfg"
  obtains cb1 where "cb_updateHealthLossTimer env cfg diff now cb = Some cb1" "cb_inv env beans rest n cb1"
proof -
  let ?t = "delay_update diff (cb_healthLossTimer cb)"
  let ?cb = "cb\<lparr>cb_healthLossTimer := ?t\<rparr>" and ?p = "cc_lossPoints cfg (delay_getElapsed ?t)"
  have t: "cb_inv env beans rest n ?cb" by (rule cb_inv_frame [OF assms(2)]) simp_all
  have a: "cb_isAlive ?cb" using assms(3) by simp
  consider "cb_dangerState cb \<noteq> DANGER_STATE_ENTERED" | "cb_dangerState cb = DANGER_STATE_ENTERED" "\<not> delay_passed ?t"
    | (hurt) "cb_dangerState cb = DANGER_STATE_ENTERED" "delay_passed ?t" "iu_health (cb_unit cb) > ?p"
    | (dies) "cb_dangerState cb = DANGER_STATE_ENTERED" "delay_passed ?t" "\<not> iu_health (cb_unit cb) > ?p" by blast
  then show thesis
  proof cases
    case hurt
    have "cb_inv env beans rest n (cb_resetHealthLossTimer cfg (cb_receiveDamage env cfg False ?p ?cb))"
      by (rule cb_timers_inv, rule cb_receiveDamage_inv [OF t]) (use assms(3,4) hurt in \<open>simp_all add: cfg_ok_def\<close>)
    then show thesis using that hurt by (simp add: cb_updateHealthLossTimer_def Let_def)
  next
    case dies
    obtain cb1 where "cb_died env cfg now ?cb = Some cb1" "cb_inv env beans rest n cb1" by (rule cb_died_inv [OF assms(1) t a])
    then show thesis using that dies cb_timers_inv(2) by (simp add: cb_updateHealthLossTimer_def Let_def)
  qed (use that assms(2) t in \<open>simp_all add: cb_updateHealthLossTimer_def Let_def\<close>)
qed

lemma cb_update_inv:
  assumes "items_ok env" and "hp_env env" and "cfg_ok cfg" and "cb_inv env beans rest n cb"
  obtains cb1 where "cb_update env cfg diff now cb = Some cb1" "cb_inv env beans rest n cb1"
proof (cases "cb_isAlive cb")
  case True
  let ?c = "cb\<lparr>cb_carrier := cu_update env diff (cb_carrier cb)\<rparr>"
  let ?r = "cb_updateHealthRegenTimer cfg diff ?c"
  have i: "cu_inv env (\<lambda>st mt. beans st mt + combat_stats cb st mt) (cb_carrier cb)" "cu_spawnId (cb_carrier cb) \<le> n" "hp_ok (cb_unit cb)"
    using assms(4) True by (simp_all add: cb_inv_def cb_books_def cb_life_def)
  have c: "cb_inv env beans rest n ?c"
    by (rule cb_carrier_inv [OF assms(4)]) (use cu_update_inv [OF i(1), of diff] i True in \<open>simp_all\<close>, simp add: cu_update_def cp_update_def hp_updateApps assms(2))
  have r: "cb_inv env beans rest n ?r" "cb_isAlive ?r"
    using cb_regen_inv [OF c _ assms(3)] True by (simp_all add: cb_updateHealthRegenTimer_def Let_def)
  obtain cb2 where l: "cb_updateHealthLossTimer env cfg diff now ?r = Some cb2" "cb_inv env beans rest n cb2"
    by (rule cb_loss_inv [OF assms(1) r assms(3)])
  obtain l where "rwm_sim rest (cb_rewards cb2) l" using l(2) by (auto simp: cb_inv_def)
  from rwm_update_sim(1) [OF this, of now] have "\<exists>l. rwm_sim rest (rwm_update now (cb_rewards cb2)) l" by blast
  moreover have "cb_books env beans (cb2\<lparr>cb_rewards := rwm_update now (cb_rewards cb2)\<rparr>)"
    by (rule cb_books_cong [of env beans cb2]) (use l(2) in \<open>simp_all add: cb_inv_def\<close>)
  ultimately have "cb_inv env beans rest n (cb2\<lparr>cb_rewards := rwm_update now (cb_rewards cb2)\<rparr>)"
    using l(2) by (simp add: cb_inv_def cb_placed_def cb_life_def)
  then obtain cb3 where "cb_updateConcealmentTimer env diff (cb2\<lparr>cb_rewards := rwm_update now (cb_rewards cb2)\<rparr>) = Some cb3"
      "cb_inv env beans rest n cb3" by (rule cb_concealTimer_inv)
  then show thesis using that True l(1) cb_slowTimer_inv [OF cb_timers_inv(8)] by (simp add: cb_update_def Let_def)
qed (use that assms(4) in \<open>simp add: cb_update_def\<close>)

section \<open>Whole battles\<close>

fun combat_event_ok :: "item_env \<Rightarrow> combat_event \<Rightarrow> bool" where
  "combat_event_ok env (BReceive k cnt) = (en_items env k \<noteq> None \<and> 0 < cnt \<and> cnt < 1073741824)"
| "combat_event_ok env e = True"

fun event_damage :: "combat_event \<Rightarrow> int" where
  "event_damage (BHit attacker damage now) = max 0 damage"
| "event_damage e = 0"

fun event_beans :: "item_env \<Rightarrow> combat_event list \<Rightarrow> stat_type \<Rightarrow> stat_modifier_type \<Rightarrow> int" where
  "event_beans env [] st mt = 0"
| "event_beans env (BReceive k cnt # es) st mt = bean_stats env [CReceive k cnt] st mt + event_beans env es st mt"
| "event_beans env (e # es) st mt = event_beans env es st mt"

definition combat_damage :: "combat_event list \<Rightarrow> int" where
  "combat_damage es = sum_list (map event_damage es)"

lemma cb_inv_Suc: "cb_inv env beans rest n cb \<Longrightarrow> cb_inv env beans rest (Suc n) cb"
  by (auto simp: cb_inv_def)

lemma cb_inv_beans: "cb_inv env beans rest n cb \<Longrightarrow> (\<And>st mt. beans1 st mt = beans st mt) \<Longrightarrow> cb_inv env beans1 rest n cb"
  unfolding cb_inv_def cb_books_def by (auto intro: cu_inv_base)

lemma cb_gone_inv:
  assumes "cb_inv env beans rest n cb"
  shows "cb_inv env beans rest n (cb\<lparr>cb_rewards := rwm_targetGone a (cb_rewards cb)\<rparr>)"
proof -
  have "cb_books env beans (cb\<lparr>cb_rewards := rwm_targetGone a (cb_rewards cb)\<rparr>)"
    by (rule cb_books_cong [of env beans cb]) (use assms in \<open>simp_all add: cb_inv_def\<close>)
  then show ?thesis using assms rwm_targetGone_sim [of rest "cb_rewards cb" _ a] by (auto simp: cb_inv_def cb_placed_def cb_life_def)
qed

lemma cb_receive_inv:
  assumes "items_ok env" and "hp_env env" and "cb_inv env beans rest n cb" and "cb_isAlive cb" and "combat_event_ok env (BReceive k cnt)" and "n < 16777215"
  obtains cb1 where "cb_step env cfg (BReceive k cnt) cb = Some cb1" "cb_inv env (\<lambda>st mt. beans st mt + event_beans env [BReceive k cnt] st mt) rest (n + 1) cb1"
proof -
  have i: "cu_inv env (\<lambda>st mt. beans st mt + combat_stats cb st mt) (cb_carrier cb)" "cu_spawnId (cb_carrier cb) < 16777215" "hp_ok (cb_unit cb)"
    using assms(3,4,6) by (simp_all add: cb_inv_def cb_books_def cb_life_def)
  have ok: "carrier_op_ok env (CReceive k cnt)" using assms(5) by simp
  obtain cu where cu: "cu_apply env (CReceive k cnt) (cb_carrier cb) = Some cu"
      "cu_inv env (\<lambda>st mt. beans st mt + combat_stats cb st mt + bean_stats env [CReceive k cnt] st mt) cu"
      "cu_spawnId cu \<le> cu_spawnId (cb_carrier cb) + 1"
    by (rule cu_apply_inv [OF assms(1) i(1) ok i(2)])
  have "cu_inv env (\<lambda>st mt. beans st mt + event_beans env [BReceive k cnt] st mt + combat_stats cb st mt) cu"
    by (rule cu_inv_base [OF cu(2)]) simp
  then have "cb_inv env (\<lambda>st mt. beans st mt + event_beans env [BReceive k cnt] st mt) rest (n + 1) (cb\<lparr>cb_carrier := cu\<rparr>)"
    by (rule cb_carrier_inv [OF assms(3)]) (use assms(2-4) cu i hp_receiveItem [of env "cb_carrier cb" k cnt cu] in \<open>auto simp: cb_inv_def\<close>)
  then show thesis using that cu(1) assms(4) by simp
qed

lemma cb_use_inv:
  assumes "items_ok env" and "hp_env env" and "cb_inv env beans rest n cb" and "cb_isAlive cb"
  obtains cb1 where "cb_step env cfg (BUse slot guid) cb = Some cb1" "cb_inv env beans rest n cb1"
proof -
  have i: "cu_inv env (\<lambda>st mt. beans st mt + combat_stats cb st mt) (cb_carrier cb)" "cu_spawnId (cb_carrier cb) \<le> n" "hp_ok (cb_unit cb)"
    using assms(3,4) by (simp_all add: cb_inv_def cb_books_def cb_life_def)
  obtain cu where cu: "cu_handleUseItem env slot guid (cb_carrier cb) = Some cu"
      "cu_inv env (\<lambda>st mt. beans st mt + combat_stats cb st mt) cu" "cu_spawnId cu = cu_spawnId (cb_carrier cb)"
    by (rule cu_handleUseItem_inv [OF assms(1) i(1)])
  have "cb_inv env beans rest n (cb\<lparr>cb_carrier := cu\<rparr>)"
    by (rule cb_carrier_inv [OF assms(3) cu(2)]) (use cu i assms(4) hp_handleUseItem [OF assms(2) i(3)] in auto)
  then show thesis using that cu(1) assms(4) by simp
qed

lemma cb_step_inv:
  assumes "items_ok env" and "hp_env env" and "cfg_ok cfg" and "cb_inv env beans rest n cb" and "cb_isAlive cb"
    and "combat_event_ok env e" and "n < 16777215" and "event_damage e \<le> rest"
  obtains cb1 where "cb_step env cfg e cb = Some cb1" "cb_inv env (\<lambda>st mt. beans st mt + event_beans env [e] st mt) (rest - event_damage e) (n + 1) cb1"
proof (cases e)
  case (BHit attacker damage now)
  show thesis
  proof (cases "damage > 0")
    case True
    then have "damage \<le> rest" using assms(8) BHit by simp
    obtain cb1 where "cb_dealDamage env cfg attacker damage now cb = Some cb1" "cb_inv env beans (rest - damage) n cb1"
      by (rule cb_dealDamage_inv [OF assms(1,4,5) True \<open>damage \<le> rest\<close>])
    then show thesis using that [of cb1] BHit assms(5) True by (simp add: cb_inv_Suc)
  next
    case False
    then show thesis using that [of cb] BHit assms(4,5) by (simp add: cb_dealDamage_def cb_inv_Suc)
  qed
next
  case (BTick diff now)
  obtain cb1 where "cb_update env cfg diff now cb = Some cb1" "cb_inv env beans rest n cb1" by (rule cb_update_inv [OF assms(1-4)])
  then show thesis using that [of cb1] BTick by (simp add: cb_inv_Suc)
next
  case (BRelocate b)
  then show thesis using that [of "cb_relocate env cfg b cb"] cb_relocate_inv [OF assms(4)] by (simp add: cb_inv_Suc)
next
  case (BTransport b)
  then show thesis using that [of "cb_transport env cfg b cb"] cb_transport_inv [OF assms(4)] by (simp add: cb_inv_Suc)
next
  case (BSafeZone b)
  then show thesis using that [of "cb_updateDangerState cfg b cb"] cb_timers_inv(7) [OF assms(4)] by (simp add: cb_inv_Suc)
next
  case BAttack
  then show thesis using that [of "cb_reconceal env cfg cb"] cb_reconceal_inv [OF assms(4)] assms(5) by (simp add: cb_inv_Suc)
next
  case (BReceive k cnt)
  obtain cb1 where "cb_step env cfg (BReceive k cnt) cb = Some cb1"
      "cb_inv env (\<lambda>st mt. beans st mt + event_beans env [BReceive k cnt] st mt) rest (n + 1) cb1"
    by (rule cb_receive_inv [OF assms(1,2,4,5) _ assms(7)]) (use assms(6) BReceive in simp)
  then show thesis using that [of cb1] BReceive by (simp only: event_damage.simps diff_0_right)
next
  case (BUse slot guid)
  obtain cb1 where "cb_step env cfg (BUse slot guid) cb = Some cb1" "cb_inv env beans rest n cb1" by (rule cb_use_inv [OF assms(1,2,4,5)])
  then show thesis using that [of cb1] BUse by (simp add: cb_inv_Suc)
next
  case (BGone a)
  then show thesis using that cb_gone_inv [OF assms(4)] by (simp add: cb_inv_Suc)
qed

lemma cb_dead_step:
  assumes "cb_inv env beans rest n cb" and "\<not> cb_isAlive cb"
  shows "\<exists>cb1. cb_step env cfg e cb = Some cb1 \<and> cb_inv env beans rest n cb1 \<and> \<not> cb_isAlive cb1"
proof (cases e)
  case (BRelocate b)
  then show ?thesis using cb_relocate_inv [OF assms(1)] assms(2) by (simp add: cb_relocate_def cb_updateConcealmentState_def)
next
  case (BTransport b)
  then show ?thesis using cb_transport_inv [OF assms(1)] assms(2) by (simp add: cb_transport_def Let_def)
next
  case (BGone a)
  then show ?thesis using cb_gone_inv [OF assms(1)] assms(2) by simp
qed (use assms in \<open>simp_all add: cb_update_def cb_updateDangerState_def\<close>)

lemma cb_dead_run:
  "cb_inv env beans rest n cb \<Longrightarrow> \<not> cb_isAlive cb \<Longrightarrow> \<exists>cb1. cb_run env cfg es cb = Some cb1 \<and> cb_inv env beans rest n cb1 \<and> \<not> cb_isAlive cb1"
proof (induction es arbitrary: cb)
  case (Cons e es)
  obtain cb1 where "cb_step env cfg e cb = Some cb1" "cb_inv env beans rest n cb1" "\<not> cb_isAlive cb1"
    using cb_dead_step [OF Cons.prems] by blast
  then show ?case using Cons.IH by simp
qed simp

lemma event_beans_Cons: "event_beans env (e # es) st mt = event_beans env [e] st mt + event_beans env es st mt"
  by (cases e) simp_all

lemma event_damage_nonneg: "0 \<le> event_damage e" by (cases e) simp_all

lemma combat_damage_nonneg: "0 \<le> combat_damage es"
  unfolding combat_damage_def by (rule sum_list_nonneg) (auto simp: event_damage_nonneg)

lemma cb_run_inv:
  assumes "items_ok env" and "hp_env env" and "cfg_ok cfg"
  shows "cb_inv env beans rest n cb \<Longrightarrow> cb_isAlive cb \<Longrightarrow> list_all (combat_event_ok env) es \<Longrightarrow> n + length es < 16777216 \<Longrightarrow> combat_damage es \<le> rest \<Longrightarrow>
    \<exists>cb1 es1 es2 m r. cb_run env cfg es cb = Some cb1 \<and> es = es1 @ es2 \<and> (cb_isAlive cb1 \<longrightarrow> es2 = [])
      \<and> cb_inv env (\<lambda>st mt. beans st mt + event_beans env es1 st mt) r m cb1"
proof (induction es arbitrary: cb beans rest n)
  case Nil
  then show ?case by (auto intro!: exI [of _ rest] exI [of _ n])
next
  case (Cons e es)
  have pre: "combat_event_ok env e" "n < 16777215" "event_damage e \<le> rest"
    using Cons.prems combat_damage_nonneg [of es] by (auto simp: combat_damage_def)
  obtain cb1 where s: "cb_step env cfg e cb = Some cb1"
      "cb_inv env (\<lambda>st mt. beans st mt + event_beans env [e] st mt) (rest - event_damage e) (n + 1) cb1" (is "cb_inv _ ?beans _ _ _")
    by (rule cb_step_inv [OF assms Cons.prems(1,2) pre])
  show ?case
  proof (cases "cb_isAlive cb1")
    case True
    have c: "list_all (combat_event_ok env) es" "n + 1 + length es < 16777216" "combat_damage es \<le> rest - event_damage e"
      using Cons.prems(3-5) by (auto simp: combat_damage_def)
    obtain cb2 es1 es2 m r where i: "cb_run env cfg es cb1 = Some cb2" "es = es1 @ es2" "cb_isAlive cb2 \<longrightarrow> es2 = []"
        "cb_inv env (\<lambda>st mt. ?beans st mt + event_beans env es1 st mt) r m cb2"
      using Cons.IH [OF s(2) True c] by blast
    have "cb_inv env (\<lambda>st mt. beans st mt + event_beans env (e # es1) st mt) r m cb2"
      by (rule cb_inv_beans [OF i(4)]) (metis event_beans_Cons add.assoc)
    then show ?thesis using s(1) i(1-3) by (intro exI [of _ cb2] exI [of _ "e # es1"] exI [of _ es2] exI [of _ m] exI [of _ r]) auto
  next
    case False
    obtain cb2 where d: "cb_run env cfg es cb1 = Some cb2" "cb_inv env ?beans (rest - event_damage e) (n + 1) cb2" "\<not> cb_isAlive cb2"
      using cb_dead_run [OF s(2) False] by blast
    then show ?thesis using s(1)
      by (intro exI [of _ cb2] exI [of _ "[e]"] exI [of _ es] exI [of _ "n + 1"] exI [of _ "rest - event_damage e"]) auto
  qed
qed

lemma cb_new_inv:
  assumes "hp_env env" and "0 < health" and "health < 1073741824" and "0 \<le> rest" and "rest \<le> 2147483647"
  shows "cb_inv env (\<lambda>st mt. 0) rest 0 (cb_new env cfg health)"
proof -
  have "cu_inv env (\<lambda>st mt. 0) ((cu_new env)\<lparr>cu_unit := (cu_unit (cu_new env))\<lparr>iu_health := health\<rparr>\<rparr>)" by (rule cu_inv_health [OF cu_new_inv])
  then have "cb_books env (\<lambda>st mt. 0) (cb_new env cfg health)"
    unfolding cb_books_def by (simp add: cb_new_def cb_timer_defs cb_setHealth_def cb_onUnit_def combat_stats_def)
  then show ?thesis using assms
    by (simp add: cb_inv_def cb_placed_def cb_life_def hp_ok_def cb_new_def cb_timer_defs cb_setHealth_def cb_onUnit_def cu_new_def rwm_sim_def rwm_new_def ar_abs_def hp_env_def)
qed


definition arena_env :: item_env where
  "arena_env = shop_env\<lparr>en_calc := (\<lambda>st p v. 1000), en_percent := (\<lambda>v m. 0)\<rparr>"

definition arena_cfg :: combat_config where
  "arena_cfg = \<lparr>cc_concealedDelay = 2000, cc_dangerDelay = 3000, cc_lossInterval = 1000, cc_isTrainingGround = False,
     cc_regenPoints = (\<lambda>t r m. 10), cc_lossPoints = (\<lambda>t. 5)\<rparr>"

definition arena_events :: "combat_event list" where
  "arena_events = [BReceive 5 2, BRelocate True, BTick 2000 2000, BHit 7 300 2100, BTick 100 2200, BHit 8 900 2300, BReceive 5 1]"

lemma arena_ok: "items_ok arena_env" "hp_env arena_env" "cfg_ok arena_cfg"
  by (auto simp: items_ok_def instants_ok_def hp_env_def cfg_ok_def arena_env_def arena_cfg_def shop_env_def item_constants
      ITEM_APPLICATION_NONE_def ITEM_APP_DURATION_PERMANENT_def)

lemma arena_run:
  "map_option cb_isAlive (cb_run arena_env arena_cfg arena_events (cb_new arena_env arena_cfg 1000)) = Some False
   \<and> map_option cb_concealmentState (cb_run arena_env arena_cfg (take 3 arena_events) (cb_new arena_env arena_cfg 1000)) = Some CONCEALMENT_STATE_CONCEALED"
  by code_simp


end
