(* ===== verification/Target_Lists.thy ===== *)
theory Target_Lists
  imports Prelude "HOL-Library.Multiset"
begin

text \<open>
  The lists a robot keeps of what interests it: hostile units, hostile projectiles and items it wishes for
  (\<^verbatim>\<open>game/combat/UnitThreatManager\<close>, \<^verbatim>\<open>ProjectileThreatManager\<close>, \<^verbatim>\<open>game/collection/WishManager\<close> and their references). Each
  is a linked list of references beside a hash table from the guid of the target to the node of the list. A target that
  leaves unlinks its reference, which stays in the list, invalid, until the manager is updated. The values are floating
  point numbers the source computes with \<^verbatim>\<open>float\<close>: they are elements of an ordered type, the arithmetic is an argument.
  \<open>None\<close> is a failed assertion, an iterator that dangles, or a null pointer that is followed.
\<close>

section \<open>A list of references with a table of nodes\<close>

record 'r ref_table =
  rt_list :: "(nat \<times> 'r) list"
  rt_lookup :: "nat \<Rightarrow> nat option"
  rt_isDirty :: bool
  rt_fresh :: nat

definition rt_new :: "'r ref_table" where
  "rt_new = \<lparr>rt_list = [], rt_lookup = (\<lambda>g. None), rt_isDirty = False, rt_fresh = 0\<rparr>"

definition rt_getReferenceByTarget :: "nat \<Rightarrow> 'r ref_table \<Rightarrow> (nat \<times> 'r) option option" where
  \<comment> \<open>the node and what it holds; the outer \<open>None\<close> is an iterator whose node is gone\<close>
  "rt_getReferenceByTarget g t =
     (case rt_lookup t g of
        None \<Rightarrow> Some None
      | Some n \<Rightarrow> (case map_of (rt_list t) n of None \<Rightarrow> None | Some r \<Rightarrow> Some (Some (n, r))))"

definition rt_emplace :: "nat \<Rightarrow> 'r \<Rightarrow> 'r ref_table \<Rightarrow> 'r ref_table option" where
  "rt_emplace g r t =
     (if rt_lookup t g \<noteq> None then None
      else Some (t\<lparr>rt_list := rt_list t @ [(rt_fresh t, r)], rt_lookup := (rt_lookup t)(g \<mapsto> rt_fresh t), rt_fresh := rt_fresh t + 1\<rparr>))"

definition rt_write :: "nat \<Rightarrow> 'r \<Rightarrow> 'r ref_table \<Rightarrow> 'r ref_table" where
  \<comment> \<open>the object a node points to is changed in place\<close>
  "rt_write n r t = t\<lparr>rt_list := map (\<lambda>(n1, r1). if n1 = n then (n, r) else (n1, r1)) (rt_list t)\<rparr>"

fun rt_purgeLoop :: "('r \<Rightarrow> bool) \<Rightarrow> ('r \<Rightarrow> nat) \<Rightarrow> ('r \<Rightarrow> 'r option) \<Rightarrow> bool \<Rightarrow> (nat \<times> 'r) list \<Rightarrow> (nat \<Rightarrow> nat option)
    \<Rightarrow> ((nat \<times> 'r) list \<times> (nat \<Rightarrow> nat option)) option" where
  "rt_purgeLoop valid key refresh checked [] lk = Some ([], lk)"
| "rt_purgeLoop valid key refresh checked ((n, r) # xs) lk =
     (if \<not> valid r
      then (if checked \<and> lk (key r) = None then None else rt_purgeLoop valid key refresh checked xs (lk(key r := None)))
      else
        (case refresh r of
           None \<Rightarrow> None
         | Some r1 \<Rightarrow> map_option (\<lambda>(ys, lk1). ((n, r1) # ys, lk1)) (rt_purgeLoop valid key refresh checked xs lk)))"

fun rt_clearLoop :: "('r \<Rightarrow> bool) \<Rightarrow> ('r \<Rightarrow> nat) \<Rightarrow> bool \<Rightarrow> (nat \<times> 'r) list \<Rightarrow> 'r ref_table \<Rightarrow> 'r ref_table option" where
  \<comment> \<open>\<^verbatim>\<open>unlink\<close> of a valid reference marks the manager\<close>
  "rt_clearLoop valid key checked [] t = Some (t\<lparr>rt_list := []\<rparr>)"
| "rt_clearLoop valid key checked ((n, r) # xs) t =
     (if checked \<and> rt_lookup t (key r) = None then None
      else rt_clearLoop valid key checked xs
             (t\<lparr>rt_list := xs, rt_lookup := (rt_lookup t)(key r := None), rt_isDirty := (rt_isDirty t \<or> valid r)\<rparr>))"

definition rt_removeAll :: "('r \<Rightarrow> bool) \<Rightarrow> ('r \<Rightarrow> nat) \<Rightarrow> bool \<Rightarrow> 'r ref_table \<Rightarrow> 'r ref_table option" where
  "rt_removeAll valid key checked t = rt_clearLoop valid key checked (rt_list t) t"

fun rt_select :: "('r \<Rightarrow> bool) \<Rightarrow> ('r \<Rightarrow> bool) \<Rightarrow> (nat \<times> 'r) list \<Rightarrow> 'r option option" where
  "rt_select valid can [] = Some None"
| "rt_select valid can ((n, r) # xs) = (if \<not> valid r then None else if can r then Some (Some r) else rt_select valid can xs)"

definition rt_targetGone :: "('r \<Rightarrow> bool) \<Rightarrow> ('r \<Rightarrow> nat) \<Rightarrow> ('r \<Rightarrow> 'r) \<Rightarrow> nat \<Rightarrow> 'r ref_table \<Rightarrow> 'r ref_table" where
  \<comment> \<open>\<^verbatim>\<open>clearReferences\<close> of the target: the reference it holds of this manager is unlinked\<close>
  "rt_targetGone valid key unlink g t =
     t\<lparr>rt_list := map (\<lambda>(n, r). if key r = g \<and> valid r then (n, unlink r) else (n, r)) (rt_list t),
       rt_isDirty := (rt_isDirty t \<or> (\<exists>(n, r) \<in> set (rt_list t). key r = g \<and> valid r))\<rparr>"

definition sort_desc :: "('a \<Rightarrow> 'f::linorder) \<Rightarrow> 'a list \<Rightarrow> 'a list" where
  \<comment> \<open>\<^verbatim>\<open>std::list::sort\<close> by the descending order, which is stable\<close>
  "sort_desc f xs = rev (sort_key f (rev xs))"

lemma sort_desc_facts [simp]: "set (sort_desc f xs) = set xs" "mset (sort_desc f xs) = mset xs" "length (sort_desc f xs) = length xs"
  by (simp_all add: sort_desc_def)

lemma sort_desc_distinct: "distinct (map h (sort_desc f xs)) = distinct (map h xs)"
proof -
  have "mset (map h (sort_desc f xs)) = mset (map h xs)" by simp
  then show ?thesis by (rule mset_eq_imp_distinct_iff)
qed

lemma sort_desc_sorted: "sorted_wrt (\<lambda>a b. f b \<le> f a) (sort_desc f xs)"
  unfolding sort_desc_def using sorted_sort_key [of f "rev xs"] by (simp add: sorted_wrt_rev sorted_wrt_map)

section \<open>The contract of a reference\<close>

lemma rt_write_mem: "(m, x) \<in> set (rt_list (rt_write n r t)) \<longleftrightarrow> (\<exists>y. (m, y) \<in> set (rt_list t) \<and> x = (if m = n then r else y))"
proof -
  have "(m, x) \<in> set (map (\<lambda>(n1, r1). if n1 = n then (n, r) else (n1, r1)) xs) \<longleftrightarrow> (\<exists>y. (m, y) \<in> set xs \<and> x = (if m = n then r else y))" for xs
    by (induction xs) (auto split: if_splits)
  then show ?thesis by (simp add: rt_write_def)
qed

definition rt_ok :: "('r \<Rightarrow> bool) \<Rightarrow> ('r \<Rightarrow> nat) \<Rightarrow> 'r ref_table \<Rightarrow> bool" where
  \<comment> \<open>the table finds the node of every reference and nothing else, and a manager that is not marked holds no invalid one\<close>
  "rt_ok valid key t \<longleftrightarrow> distinct (map fst (rt_list t)) \<and> distinct (map (\<lambda>(n, r). key r) (rt_list t))
     \<and> (\<forall>g n. rt_lookup t g = Some n \<longleftrightarrow> (\<exists>r. (n, r) \<in> set (rt_list t) \<and> key r = g))
     \<and> (\<forall>(n, r) \<in> set (rt_list t). n < rt_fresh t) \<and> (rt_isDirty t \<or> (\<forall>(n, r) \<in> set (rt_list t). valid r))"

locale reference =
  fixes valid :: "'r \<Rightarrow> bool" and key :: "'r \<Rightarrow> nat" and unlink :: "'r \<Rightarrow> 'r"
  assumes unlink_key: "key (unlink r) = key r"
    and unlink_invalid: "\<not> valid (unlink r)"
begin

lemma ok_new: "rt_ok valid key rt_new"
  by (simp add: rt_ok_def rt_new_def)

lemma get_present:
  assumes "rt_ok valid key t" and "(n, r) \<in> set (rt_list t)"
  shows "rt_getReferenceByTarget (key r) t = Some (Some (n, r))"
proof -
  have "rt_lookup t (key r) = Some n" "map_of (rt_list t) n = Some r" using assms by (auto simp: rt_ok_def)
  then show ?thesis by (simp add: rt_getReferenceByTarget_def)
qed

lemma get_absent:
  assumes "rt_ok valid key t" and "\<forall>(n, r) \<in> set (rt_list t). key r \<noteq> g"
  shows "rt_lookup t g = None" and "rt_getReferenceByTarget g t = Some None"
proof -
  show "rt_lookup t g = None" using assms by (cases "rt_lookup t g") (auto simp: rt_ok_def)
  then show "rt_getReferenceByTarget g t = Some None" by (simp add: rt_getReferenceByTarget_def)
qed

lemma emplace_ok:
  assumes "rt_ok valid key t" and "\<forall>(n, r) \<in> set (rt_list t). key r \<noteq> key s" and "valid s"
  shows "\<exists>t1. rt_emplace (key s) s t = Some t1 \<and> rt_ok valid key t1 \<and> rt_list t1 = rt_list t @ [(rt_fresh t, s)] \<and> rt_isDirty t1 = rt_isDirty t"
proof -
  have "rt_lookup t (key s) = None" by (rule get_absent [OF assms(1,2)])
  moreover have "rt_fresh t \<notin> fst ` set (rt_list t)" using assms(1) by (force simp: rt_ok_def)
  ultimately show ?thesis using assms unfolding rt_ok_def rt_emplace_def by (fastforce simp: less_Suc_eq)
qed

lemma write_ok:
  assumes "rt_ok valid key t" and "(n, r) \<in> set (rt_list t)" and "key r1 = key r" and "valid r1 = valid r"
  shows "rt_ok valid key (rt_write n r1 t)"
    and "set (rt_list (rt_write n r1 t)) = insert (n, r1) (set (rt_list t) - {(n, r)})"
proof -
  have one: "s = r" if "(n, s) \<in> set (rt_list t)" for s using assms(1,2) that by (auto simp: rt_ok_def dest: eq_key_imp_eq_value)
  show s: "set (rt_list (rt_write n r1 t)) = insert (n, r1) (set (rt_list t) - {(n, r)})"
  proof -
    have "(m, x) \<in> set (rt_list (rt_write n r1 t)) \<longleftrightarrow> (m, x) \<in> insert (n, r1) (set (rt_list t) - {(n, r)})" for m x
    proof (cases "m = n")
      case True
      then have "(m, x) \<in> set (rt_list (rt_write n r1 t)) \<longleftrightarrow> x = r1" using assms(2) by (auto simp: rt_write_mem)
      moreover have "(m, x) \<in> insert (n, r1) (set (rt_list t) - {(n, r)}) \<longleftrightarrow> x = r1" using True one by blast
      ultimately show ?thesis by simp
    qed (simp add: rt_write_mem)
    then show ?thesis by auto
  qed
  have k: "map (\<lambda>(n, r). key r) (rt_list (rt_write n r1 t)) = map (\<lambda>(n, r). key r) (rt_list t)"
    using one assms(3) by (auto simp: rt_write_def)
  have f: "map fst (rt_list (rt_write n r1 t)) = map fst (rt_list t)" by (auto simp: rt_write_def)
  have m: "(\<exists>x. (n1, x) \<in> set (rt_list (rt_write n r1 t)) \<and> key x = g) \<longleftrightarrow> (\<exists>x. (n1, x) \<in> set (rt_list t) \<and> key x = g)" for n1 g
  proof (cases "n1 = n")
    case True
    have "(\<exists>x. (n, x) \<in> set (rt_list t) \<and> key x = g) \<longleftrightarrow> key r = g" using assms(2) one by blast
    then show ?thesis using True assms(2,3) by (auto simp: rt_write_mem)
  qed (simp add: rt_write_mem)
  have w: "rt_lookup (rt_write n r1 t) = rt_lookup t" "rt_fresh (rt_write n r1 t) = rt_fresh t" "rt_isDirty (rt_write n r1 t) = rt_isDirty t"
    by (simp_all add: rt_write_def)
  have "\<forall>(n, r) \<in> set (rt_list (rt_write n r1 t)). n < rt_fresh t" "rt_isDirty t \<or> (\<forall>(n, r) \<in> set (rt_list (rt_write n r1 t)). valid r)"
    using assms unfolding s by (auto simp: rt_ok_def)
  then show "rt_ok valid key (rt_write n r1 t)" using assms(1) unfolding rt_ok_def k f w m by simp
qed

lemma purge_result:
  assumes "\<And>r. valid r \<Longrightarrow> refresh r \<noteq> None" and "distinct (map (\<lambda>(n, r). key r) xs)" and "\<forall>(n, r) \<in> set xs. lk (key r) \<noteq> None"
  shows "rt_purgeLoop valid key refresh checked xs lk =
    Some (map (\<lambda>(n, r). (n, the (refresh r))) (filter (\<lambda>(n, r). valid r) xs), \<lambda>g. if \<exists>(n, r) \<in> set xs. key r = g \<and> \<not> valid r then None else lk g)"
  using assms(2,3)
proof (induction xs arbitrary: lk)
  case (Cons p xs)
  obtain n r where p: "p = (n, r)" by force
  show ?case
  proof (cases "valid r")
    case True
    have "\<exists>r1. refresh r = Some r1" using assms(1) [of r] True by auto
    moreover have "rt_purgeLoop valid key refresh checked xs lk =
        Some (map (\<lambda>(n, r). (n, the (refresh r))) (filter (\<lambda>(n, r). valid r) xs), \<lambda>g. if \<exists>(n, r) \<in> set xs. key r = g \<and> \<not> valid r then None else lk g)"
      using Cons.prems p by (intro Cons.IH) auto
    ultimately show ?thesis using True p by auto
  next
    case False
    have "rt_purgeLoop valid key refresh checked xs (lk(key r := None)) = Some (map (\<lambda>(n, r). (n, the (refresh r))) (filter (\<lambda>(n, r). valid r) xs),
        \<lambda>g. if \<exists>(n, r) \<in> set xs. key r = g \<and> \<not> valid r then None else (lk(key r := None)) g)"
      using Cons.prems p by (intro Cons.IH) force+
    moreover have "(\<lambda>g. if \<exists>(n, r) \<in> set xs. key r = g \<and> \<not> valid r then None else (lk(key r := None)) g)
        = (\<lambda>g. if \<exists>(n, r) \<in> set (p # xs). key r = g \<and> \<not> valid r then None else lk g)"
      using False p by (intro ext) auto
    ultimately show ?thesis using False p Cons.prems(2) by simp
  qed
qed simp

lemma purge_ok:
  assumes "rt_ok valid key t" and "\<And>r. valid r \<Longrightarrow> \<exists>r1. refresh r = Some r1 \<and> key r1 = key r \<and> valid r1"
  obtains xs lk where "rt_purgeLoop valid key refresh checked (rt_list t) (rt_lookup t) = Some (xs, lk)"
    and "xs = map (\<lambda>(n, r). (n, the (refresh r))) (filter (\<lambda>(n, r). valid r) (rt_list t))"
    and "\<And>ys d. mset ys = mset xs \<Longrightarrow> rt_ok valid key (t\<lparr>rt_list := ys, rt_lookup := lk, rt_isDirty := d\<rparr>)"
proof -
  let ?xs = "map (\<lambda>(n, r). (n, the (refresh r))) (filter (\<lambda>(n, r). valid r) (rt_list t))"
  let ?lk = "\<lambda>g. if \<exists>(n, r) \<in> set (rt_list t). key r = g \<and> \<not> valid r then None else rt_lookup t g"
  have look: "rt_lookup t g = Some n \<longleftrightarrow> (\<exists>r. (n, r) \<in> set (rt_list t) \<and> key r = g)" for g n using assms(1) by (simp add: rt_ok_def)
  have inj: "r = s \<and> n = m" if "(n, r) \<in> set (rt_list t)" "(m, s) \<in> set (rt_list t)" "key r = key s" for n r m s
    using assms(1) that by (auto simp: rt_ok_def distinct_map inj_on_def)
  have ref: "key (the (refresh r)) = key r" "valid (the (refresh r))" "refresh r \<noteq> None" if "valid r" for r using assms(2) [OF that] by auto
  have 1: "rt_purgeLoop valid key refresh checked (rt_list t) (rt_lookup t) = Some (?xs, ?lk)"
    by (rule purge_result) (use assms(1) ref(3) in \<open>auto simp: rt_ok_def\<close>)
  have 2: "rt_ok valid key (t\<lparr>rt_list := ys, rt_lookup := ?lk, rt_isDirty := d\<rparr>)" if ys: "mset ys = mset ?xs" for ys d
  proof -
    have m: "(n, s) \<in> set ys \<longleftrightarrow> (\<exists>r. (n, r) \<in> set (rt_list t) \<and> valid r \<and> s = the (refresh r))" for n s
      using mset_eq_setD [OF ys] by force
    have l: "?lk g = Some n \<longleftrightarrow> (\<exists>s. (n, s) \<in> set ys \<and> key s = g)" for g n
    proof -
      have "(\<exists>s. (n, s) \<in> set ys \<and> key s = g) \<longleftrightarrow> (\<exists>r. (n, r) \<in> set (rt_list t) \<and> valid r \<and> key r = g)" unfolding m using ref(1) by auto
      also have "\<dots> \<longleftrightarrow> ?lk g = Some n"
      proof -
        have "\<not> (\<exists>(m, s) \<in> set (rt_list t). key s = g \<and> \<not> valid s)" if r: "(n, r) \<in> set (rt_list t)" "valid r" "key r = g" for r
          using inj [OF r(1)] r(2,3) by force
        then show ?thesis using look [of g n] by auto
      qed
      finally show ?thesis by simp
    qed
    have f: "mset (map fst ys) = mset (map fst (filter (\<lambda>(n, r). valid r) (rt_list t)))"
      using ys by (simp add: comp_def case_prod_unfold image_mset.compositionality)
    have "map (\<lambda>(n, r). key r) ?xs = map (\<lambda>(n, r). key r) (filter (\<lambda>(n, r). valid r) (rt_list t))"
      by (auto simp: ref(1))
    then have k: "mset (map (\<lambda>(n, r). key r) ys) = mset (map (\<lambda>(n, r). key r) (filter (\<lambda>(n, r). valid r) (rt_list t)))"
      using ys by (metis mset_map)
    have "distinct (map fst ys)" "distinct (map (\<lambda>(n, r). key r) ys)"
      using mset_eq_imp_distinct_iff [OF f] mset_eq_imp_distinct_iff [OF k] assms(1) by (simp_all add: rt_ok_def distinct_map_filter)
    moreover have "\<forall>(n, s) \<in> set ys. n < rt_fresh t \<and> valid s" using m assms(1) ref(2) by (fastforce simp: rt_ok_def)
    ultimately show ?thesis unfolding rt_ok_def using l by auto
  qed
  show thesis by (rule that [OF 1 refl 2])
qed

lemma clear_result:
  assumes "distinct (map (\<lambda>(n, r). key r) xs)" and "\<forall>(n, r) \<in> set xs. rt_lookup t (key r) \<noteq> None"
  shows "\<exists>t1. rt_clearLoop valid key checked xs t = Some t1 \<and> rt_list t1 = [] \<and> rt_fresh t1 = rt_fresh t
    \<and> rt_lookup t1 = (\<lambda>g. if \<exists>(n, r) \<in> set xs. key r = g then None else rt_lookup t g)"
  using assms
proof (induction xs arbitrary: t)
  case (Cons p xs)
  obtain n r where p: "p = (n, r)" by force
  let ?t = "t\<lparr>rt_list := xs, rt_lookup := (rt_lookup t)(key r := None), rt_isDirty := (rt_isDirty t \<or> valid r)\<rparr>"
  have "\<exists>t1. rt_clearLoop valid key checked xs ?t = Some t1 \<and> rt_list t1 = [] \<and> rt_fresh t1 = rt_fresh ?t
      \<and> rt_lookup t1 = (\<lambda>g. if \<exists>(n, r) \<in> set xs. key r = g then None else rt_lookup ?t g)"
    by (rule Cons.IH) (use Cons.prems p in \<open>force+\<close>)
  moreover have "(\<lambda>g. if \<exists>(n, r) \<in> set xs. key r = g then None else rt_lookup ?t g)
      = (\<lambda>g. if \<exists>(n, r) \<in> set (p # xs). key r = g then None else rt_lookup t g)"
    using p by (intro ext) auto
  ultimately show ?case using p Cons.prems(2) by simp
qed simp

lemma clear_ok:
  assumes "rt_ok valid key t"
  shows "\<exists>t1. rt_removeAll valid key checked t = Some t1 \<and> rt_ok valid key t1 \<and> rt_list t1 = []"
proof -
  have "distinct (map (\<lambda>(n, r). key r) (rt_list t))" "\<forall>(n, r) \<in> set (rt_list t). rt_lookup t (key r) \<noteq> None"
    using assms by (auto simp: rt_ok_def)
  from clear_result [OF this] obtain t1 where t1: "rt_clearLoop valid key checked (rt_list t) t = Some t1" "rt_list t1 = []"
      "rt_lookup t1 = (\<lambda>g. if \<exists>(n, r) \<in> set (rt_list t). key r = g then None else rt_lookup t g)" by blast
  have "rt_lookup t1 g = None" for g
  proof (cases "\<exists>(n, r) \<in> set (rt_list t). key r = g")
    case False
    then show ?thesis using t1(3) get_absent(1) [OF assms, of g] by auto
  qed (simp add: t1(3))
  then show ?thesis using t1 by (simp add: rt_removeAll_def rt_ok_def)
qed

lemma select_result: "\<forall>(n, r) \<in> set xs. valid r \<Longrightarrow> rt_select valid can xs = Some (find can (map snd xs))"
  by (induction xs) auto

lemma gone_ok:
  assumes "rt_ok valid key t"
  shows "rt_ok valid key (rt_targetGone valid key unlink g t)"
    and "(n, r) \<in> set (rt_list (rt_targetGone valid key unlink g t)) \<and> valid r \<longleftrightarrow> (n, r) \<in> set (rt_list t) \<and> valid r \<and> key r \<noteq> g"
proof -
  let ?f = "\<lambda>(n, r). if key r = g \<and> valid r then (n, unlink r) else (n, r)"
  let ?xs = "map ?f (rt_list t)"
  have k: "map (\<lambda>(n, r). key r) ?xs = map (\<lambda>(n, r). key r) (rt_list t)" "map fst ?xs = map fst (rt_list t)"
    by (auto simp: unlink_key)
  have mem: "(m, s) \<in> set ?xs \<longleftrightarrow> (\<exists>r. (m, r) \<in> set (rt_list t) \<and> s = (if key r = g \<and> valid r then unlink r else r))" for m s
  proof -
    have "(m, s) \<in> set (map ?f ys) \<longleftrightarrow> (\<exists>r. (m, r) \<in> set ys \<and> s = (if key r = g \<and> valid r then unlink r else r))" for ys
      by (induction ys) (auto split: if_splits)
    then show ?thesis .
  qed
  have m: "(\<exists>s. (m, s) \<in> set ?xs \<and> key s = h) \<longleftrightarrow> (\<exists>s. (m, s) \<in> set (rt_list t) \<and> key s = h)" for m h
  proof -
    have "key (if c then unlink s else s) = key s" for c s by (simp add: unlink_key)
    then show ?thesis unfolding mem by metis
  qed
  have l: "rt_list (rt_targetGone valid key unlink g t) = ?xs" by (simp add: rt_targetGone_def)
  have "\<forall>(m, s) \<in> set ?xs. m < rt_fresh t" using assms by (auto simp: rt_ok_def split: if_splits)
  moreover have "(rt_isDirty t \<or> (\<exists>(n, r) \<in> set (rt_list t). key r = g \<and> valid r)) \<or> (\<forall>(n, r) \<in> set ?xs. valid r)"
    using assms by (fastforce simp: rt_ok_def)
  ultimately show "rt_ok valid key (rt_targetGone valid key unlink g t)"
    using assms unfolding rt_ok_def l k m by (simp add: rt_targetGone_def)
  show "(n, r) \<in> set (rt_list (rt_targetGone valid key unlink g t)) \<and> valid r \<longleftrightarrow> (n, r) \<in> set (rt_list t) \<and> valid r \<and> key r \<noteq> g"
    unfolding l mem using unlink_invalid by auto
qed

end

section \<open>Ranked references\<close>

definition rank_sorted :: "('r \<Rightarrow> 'f::linorder) \<Rightarrow> (nat \<times> 'r) list \<Rightarrow> bool" where
  "rank_sorted rank xs \<longleftrightarrow> sorted_wrt (\<lambda>a b. b \<le> a) (map (\<lambda>(n, r). rank r) xs)"

definition tm_inv :: "('r \<Rightarrow> bool) \<Rightarrow> ('r \<Rightarrow> nat) \<Rightarrow> ('r \<Rightarrow> 'f::linorder) \<Rightarrow> ('r \<Rightarrow> bool) \<Rightarrow> nat set \<Rightarrow> nat set \<Rightarrow> 'r ref_table \<Rightarrow> bool" where
  \<comment> \<open>\<open>live\<close> are the targets the manager holds, \<open>stale\<close> those that left and are not yet purged\<close>
  "tm_inv valid key rank good live stale t \<longleftrightarrow> rt_ok valid key t \<and> (\<forall>(n, r) \<in> set (rt_list t). good r)
     \<and> (rt_isDirty t \<or> rank_sorted rank (rt_list t))
     \<and> (\<forall>g. g \<in> live \<longleftrightarrow> (\<exists>(n, r) \<in> set (rt_list t). valid r \<and> key r = g))
     \<and> (\<forall>g. g \<in> stale \<longleftrightarrow> (\<exists>(n, r) \<in> set (rt_list t). \<not> valid r \<and> key r = g))"

definition rt_update :: "('r \<Rightarrow> bool) \<Rightarrow> ('r \<Rightarrow> nat) \<Rightarrow> ('r \<Rightarrow> 'f::linorder) \<Rightarrow> ('r \<Rightarrow> 'r option) \<Rightarrow> bool \<Rightarrow> 'r ref_table \<Rightarrow> 'r ref_table option" where
  \<comment> \<open>the purge and the sort that a marked list gets\<close>
  "rt_update valid key rank refresh checked t =
     (if rt_isDirty t then
        (case rt_purgeLoop valid key refresh checked (rt_list t) (rt_lookup t) of
           None \<Rightarrow> None
         | Some (xs, lk) \<Rightarrow>
             Some (t\<lparr>rt_list := (if length xs > 1 then sort_desc (\<lambda>(n, r). rank r) xs else xs), rt_lookup := lk, rt_isDirty := False\<rparr>))
      else Some (t\<lparr>rt_isDirty := False\<rparr>))"

definition rt_getTarget :: "('r \<Rightarrow> bool) \<Rightarrow> ('r \<Rightarrow> nat option) \<Rightarrow> (nat \<Rightarrow> bool) \<Rightarrow> 'r ref_table \<Rightarrow> nat option option" where
  "rt_getTarget valid target can t =
     map_option (\<lambda>sel. case sel of None \<Rightarrow> None | Some r \<Rightarrow> target r) (rt_select valid (\<lambda>r. can (the (target r))) (rt_list t))"

lemma bex_swap: "x \<in> S \<Longrightarrow> P y = P x \<Longrightarrow> (\<exists>z \<in> insert y (S - {x}). P z) \<longleftrightarrow> (\<exists>z \<in> S. P z)"
  by auto

lemma find_sorted:
  assumes "rank_sorted f xs" and "find P (map snd xs) = Some r"
  shows "P r \<and> (\<exists>n. (n, r) \<in> set xs) \<and> (\<forall>(m, s) \<in> set xs. P s \<longrightarrow> f s \<le> f r)"
  using assms unfolding rank_sorted_def by (induction xs) (auto split: if_splits)

lemma rank_sorted_write:
  assumes "distinct (map fst (rt_list t))" and "(n, r) \<in> set (rt_list t)" and "rank r1 = rank r"
  shows "rank_sorted rank (rt_list (rt_write n r1 t)) = rank_sorted rank (rt_list t)"
proof -
  have "x = r" if "(n, x) \<in> set (rt_list t)" for x using assms(1,2) that by (auto dest: eq_key_imp_eq_value)
  then have "map (\<lambda>(n, r). rank r) (rt_list (rt_write n r1 t)) = map (\<lambda>(n, r). rank r) (rt_list t)"
    using assms(3) by (auto simp: rt_write_def)
  then show ?thesis by (simp add: rank_sorted_def)
qed

lemma rank_sorted_sort: "rank_sorted rank (if length xs > 1 then sort_desc (\<lambda>(n, r). rank r) xs else xs)"
proof (cases "length xs > 1")
  case True
  then show ?thesis using sort_desc_sorted [of "\<lambda>(n, r). rank r" xs] by (simp add: rank_sorted_def sorted_wrt_map)
next
  case False
  then have "length xs = 0 \<or> length xs = 1" by linarith
  then show ?thesis using False by (auto simp: rank_sorted_def length_Suc_conv)
qed

locale ranked_reference = reference valid key unlink
  for valid :: "'r \<Rightarrow> bool" and key :: "'r \<Rightarrow> nat" and unlink :: "'r \<Rightarrow> 'r" +
  fixes target :: "'r \<Rightarrow> nat option" and rank :: "'r \<Rightarrow> 'f::linorder" and good :: "'r \<Rightarrow> bool"
  assumes good_target: "good r \<Longrightarrow> valid r \<Longrightarrow> target r = Some (key r)"
    and good_unlink: "good r \<Longrightarrow> good (unlink r)"
begin

lemma new_inv: "tm_inv valid key rank good {} {} rt_new"
  using ok_new by (simp add: tm_inv_def) (simp add: rt_new_def rank_sorted_def)

lemma mark_inv:
  "tm_inv valid key rank good live stale t \<Longrightarrow> tm_inv valid key rank good live stale (t\<lparr>rt_isDirty := True\<rparr>)"
  by (simp add: tm_inv_def rt_ok_def)

lemma write_inv:
  assumes "tm_inv valid key rank good live stale t" and "(n, r) \<in> set (rt_list t)" and "good r1" and "valid r" and "valid r1"
    and "key r1 = key r" and "rt_isDirty t1 \<or> rank r1 = rank r \<and> rt_isDirty t1 = rt_isDirty t" and "t1 = (rt_write n r1 t)\<lparr>rt_isDirty := rt_isDirty t1\<rparr>"
  shows "tm_inv valid key rank good live stale t1"
proof -
  have ok: "rt_ok valid key t" using assms(1) by (simp add: tm_inv_def)
  have v: "valid r1 = valid r" using assms(4,5) by simp
  note w = write_ok [OF ok assms(2,6) v]
  have t1: "rt_list t1 = rt_list (rt_write n r1 t)" "rt_lookup t1 = rt_lookup (rt_write n r1 t)" "rt_fresh t1 = rt_fresh (rt_write n r1 t)"
    by (subst assms(8), simp)+
  have "rt_isDirty (rt_write n r1 t) = rt_isDirty t" by (simp add: rt_write_def)
  then have "rt_ok valid key t1" using w(1) assms(7) unfolding rt_ok_def t1 by auto
  moreover have "rt_isDirty t1 \<or> rank_sorted rank (rt_list t1)"
    using rank_sorted_write [of t n r rank r1] assms(1,2,7) ok by (auto simp: tm_inv_def rt_ok_def t1)
  moreover have "(\<exists>(m, x) \<in> set (rt_list t1). Q (valid x) \<and> key x = g) \<longleftrightarrow> (\<exists>(m, x) \<in> set (rt_list t). Q (valid x) \<and> key x = g)" for Q g
    unfolding t1 w(2) by (rule bex_swap [OF assms(2)]) (simp add: v assms(6))
  note this [of "\<lambda>b. b"] this [of Not]
  moreover have "\<forall>(m, x) \<in> set (rt_list t1). good x" unfolding t1 w(2) using assms(1,3) by (auto simp: tm_inv_def)
  ultimately show ?thesis using assms(1) by (simp add: tm_inv_def)
qed

lemma emplace_inv:
  assumes "tm_inv valid key rank good live stale t" and "key s \<notin> live" and "key s \<notin> stale" and "valid s" and "good s"
    and "\<forall>(n, r) \<in> set (rt_list t). rank s \<le> rank r \<or> rt_isDirty t"
  obtains t1 where "rt_emplace (key s) s t = Some t1" "tm_inv valid key rank good (insert (key s) live) stale t1"
    "(rt_fresh t, s) \<in> set (rt_list t1)" "rt_getReferenceByTarget (key s) t = Some None" "rt_list t1 = rt_list t @ [(rt_fresh t, s)]" "rt_isDirty t1 = rt_isDirty t"
proof -
  have ok: "rt_ok valid key t" using assms(1) by (simp add: tm_inv_def)
  have new: "\<forall>(n, r) \<in> set (rt_list t). key r \<noteq> key s" using assms(1-3) unfolding tm_inv_def by blast
  obtain t1 where t1: "rt_emplace (key s) s t = Some t1" "rt_ok valid key t1" "rt_list t1 = rt_list t @ [(rt_fresh t, s)]" "rt_isDirty t1 = rt_isDirty t"
    using emplace_ok [OF ok new assms(4)] by blast
  have "rank_sorted rank (rt_list t1)" if "rank_sorted rank (rt_list t)" "\<not> rt_isDirty t"
    using that assms(6) by (auto simp: rank_sorted_def t1(3) sorted_wrt_append)
  then have "tm_inv valid key rank good (insert (key s) live) stale t1"
    using assms(1,4,5) t1(2-4) by (auto simp: tm_inv_def)
  then show thesis using that t1 get_absent(2) [OF ok new] by simp
qed

lemma gone_inv:
  assumes "tm_inv valid key rank good live stale t"
  shows "tm_inv valid key rank good (live - {g}) (stale \<union> (live \<inter> {g})) (rt_targetGone valid key unlink g t)"
proof -
  let ?t = "rt_targetGone valid key unlink g t"
  have ok: "rt_ok valid key t" using assms by (simp add: tm_inv_def)
  note gone = gone_ok [OF ok, where g = g]
  have inv: "(m, x) \<in> set (rt_list ?t) \<longleftrightarrow> (\<exists>r. (m, r) \<in> set (rt_list t) \<and> x = (if key r = g \<and> valid r then unlink r else r))" for m x
    by (auto simp: rt_targetGone_def image_iff Bex_def split: if_splits)
  have good: "\<forall>(m, x) \<in> set (rt_list ?t). good x"
  proof -
    have "good r" if "(m, r) \<in> set (rt_list t)" for m r using that assms by (auto simp: tm_inv_def)
    then show ?thesis using good_unlink by (auto simp: inv)
  qed
  have st: "(\<exists>(m, x) \<in> set (rt_list ?t). \<not> valid x \<and> key x = h) \<longleftrightarrow> h \<in> stale \<union> (live \<inter> {g})" for h
    using assms unlink_key unlink_invalid unfolding tm_inv_def by (auto simp: inv Bex_def split: if_splits) metis+
  have "(\<exists>(m, x) \<in> set (rt_list ?t). valid x \<and> key x = h) \<longleftrightarrow> (\<exists>(m, x) \<in> set (rt_list t). valid x \<and> key x = h \<and> h \<noteq> g)" for h
    using gone(2) by blast
  then have lv: "(\<exists>(m, x) \<in> set (rt_list ?t). valid x \<and> key x = h) \<longleftrightarrow> h \<in> live - {g}" for h using assms by (auto simp: tm_inv_def)
  have "rt_isDirty ?t \<or> rt_list ?t = rt_list t \<and> rt_isDirty ?t = rt_isDirty t"
    by (auto simp: rt_targetGone_def intro!: map_idI)
  then have "rt_isDirty ?t \<or> rank_sorted rank (rt_list ?t)" using assms by (auto simp: tm_inv_def)
  then show ?thesis using gone(1) good st lv by (simp add: tm_inv_def)
qed

lemma clear_inv:
  assumes "tm_inv valid key rank good live stale t"
  shows "\<exists>t1. rt_removeAll valid key checked t = Some t1 \<and> tm_inv valid key rank good {} {} t1"
proof -
  obtain t1 where "rt_removeAll valid key checked t = Some t1" "rt_ok valid key t1" "rt_list t1 = []"
    using clear_ok [of t checked] assms by (auto simp: tm_inv_def)
  then show ?thesis by (auto simp: tm_inv_def rank_sorted_def)
qed

lemma refresh_inv:
  assumes "tm_inv valid key rank good live stale t"
    and "\<And>r. valid r \<Longrightarrow> \<exists>r1. refresh r = Some r1 \<and> key r1 = key r \<and> valid r1 \<and> (good r \<longrightarrow> good r1)"
  obtains t1 where "rt_update valid key rank refresh checked t = Some t1" "tm_inv valid key rank good live {} t1" "rank_sorted rank (rt_list t1)"
    "set (rt_list t1) = {(n, if rt_isDirty t then the (refresh r) else r) | n r. (n, r) \<in> set (rt_list t) \<and> valid r}"
proof (cases "rt_isDirty t")
  case True
  have ok: "rt_ok valid key t" using assms by (simp add: tm_inv_def)
  have ref: "\<exists>r1. refresh r = Some r1 \<and> key r1 = key r \<and> valid r1" if "valid r" for r using assms(2) [OF that] by blast
  obtain xs lk where p: "rt_purgeLoop valid key refresh checked (rt_list t) (rt_lookup t) = Some (xs, lk)"
      "xs = map (\<lambda>(n, r). (n, the (refresh r))) (filter (\<lambda>(n, r). valid r) (rt_list t))"
      and pok: "\<And>ys d. mset ys = mset xs \<Longrightarrow> rt_ok valid key (t\<lparr>rt_list := ys, rt_lookup := lk, rt_isDirty := d\<rparr>)"
    by (rule purge_ok [OF ok ref, of checked]) auto
  let ?ys = "if length xs > 1 then sort_desc (\<lambda>(n, r). rank r) xs else xs"
  let ?t = "t\<lparr>rt_list := ?ys, rt_lookup := lk, rt_isDirty := False\<rparr>"
  have u: "rt_update valid key rank refresh checked t = Some ?t" using True p(1) by (simp add: rt_update_def)
  have s: "set ?ys = {(n, the (refresh r)) | n r. (n, r) \<in> set (rt_list t) \<and> valid r}" using p(2) by force
  have kg: "key (the (refresh r)) = key r \<and> valid (the (refresh r)) \<and> good (the (refresh r))" if "(n, r) \<in> set (rt_list t)" "valid r" for n r
  proof -
    have "good r" using that(1) assms(1) by (auto simp: tm_inv_def)
    then show ?thesis using assms(2) [OF that(2)] by auto
  qed
  have all: "\<forall>(n, x) \<in> set ?ys. valid x \<and> good x" unfolding s using kg by blast
  have "(\<exists>(n, x) \<in> set ?ys. valid x \<and> key x = g)
      \<longleftrightarrow> (\<exists>n r. (n, r) \<in> set (rt_list t) \<and> valid r \<and> valid (the (refresh r)) \<and> key (the (refresh r)) = g)" for g unfolding s by auto
  moreover have "(\<exists>n r. (n, r) \<in> set (rt_list t) \<and> valid r \<and> valid (the (refresh r)) \<and> key (the (refresh r)) = g)
      \<longleftrightarrow> (\<exists>n r. (n, r) \<in> set (rt_list t) \<and> valid r \<and> key r = g)" for g using kg by metis
  moreover have "(\<exists>n r. (n, r) \<in> set (rt_list t) \<and> valid r \<and> key r = g) \<longleftrightarrow> (\<exists>(n, r) \<in> set (rt_list t). valid r \<and> key r = g)" for g by auto
  ultimately have lv: "\<forall>g. g \<in> live \<longleftrightarrow> (\<exists>(n, x) \<in> set ?ys. valid x \<and> key x = g)" using assms(1) by (simp add: tm_inv_def)
  have st: "\<forall>g. g \<in> {} \<longleftrightarrow> (\<exists>(n, x) \<in> set ?ys. \<not> valid x \<and> key x = g)" using all by blast
  have g: "\<forall>(n, x) \<in> set ?ys. good x" using all by blast
  have ok1: "rt_ok valid key ?t" by (rule pok) simp
  have l: "rt_list ?t = ?ys" by simp
  have inv: "tm_inv valid key rank good live {} ?t"
    unfolding tm_inv_def l by (intro conjI ok1 lv st g disjI2 rank_sorted_sort)
  have srt: "rank_sorted rank (rt_list ?t)" unfolding l by (rule rank_sorted_sort)
  have "set (rt_list ?t) = {(n, if rt_isDirty t then the (refresh r) else r) | n r. (n, r) \<in> set (rt_list t) \<and> valid r}"
    unfolding l s using True by simp
  then show thesis by (rule that [OF u inv srt])
next
  case False
  then have "rt_update valid key rank refresh checked t = Some t" by (simp add: rt_update_def)
  moreover have s: "rank_sorted rank (rt_list t)" "\<forall>(n, r) \<in> set (rt_list t). valid r" using assms(1) False by (auto simp: tm_inv_def rt_ok_def)
  moreover have "tm_inv valid key rank good live {} t" using assms(1) s(2) by (auto simp: tm_inv_def)
  ultimately show thesis using that [of t] False by auto
qed

lemma select_inv:
  assumes "tm_inv valid key rank good live {} t" and "rank_sorted rank (rt_list t)"
  obtains res where "rt_getTarget valid target can t = Some res" "res = None \<longleftrightarrow> \<not> (\<exists>g \<in> live. can g)"
    "\<And>g. res = Some g \<Longrightarrow> g \<in> live \<and> can g \<and> (\<exists>(n, r) \<in> set (rt_list t). target r = Some g
       \<and> (\<forall>(m, s) \<in> set (rt_list t). can (key s) \<longrightarrow> rank s \<le> rank r))"
proof -
  let ?can = "\<lambda>r. can (the (target r))"
  let ?sel = "find ?can (map snd (rt_list t))"
  let ?res = "case ?sel of None \<Rightarrow> None | Some r \<Rightarrow> target r"
  have valid: "valid r" if "(n, r) \<in> set (rt_list t)" for n r using that assms(1) unfolding tm_inv_def by blast
  have tgt: "target r = Some (key r)" if "(n, r) \<in> set (rt_list t)" for n r
    using that assms(1) valid [OF that] good_target by (auto simp: tm_inv_def)
  have get: "rt_getTarget valid target can t = Some ?res"
    using select_result [of "rt_list t" ?can] valid by (auto simp: rt_getTarget_def)
  have live: "g \<in> live \<longleftrightarrow> (\<exists>n r. (n, r) \<in> set (rt_list t) \<and> key r = g)" for g using assms(1) valid unfolding tm_inv_def by blast
  have best: "g \<in> live \<and> can g \<and> (\<exists>(n, r) \<in> set (rt_list t). target r = Some g
       \<and> (\<forall>(m, s) \<in> set (rt_list t). can (key s) \<longrightarrow> rank s \<le> rank r))" if a: "?res = Some g" for g
  proof -
    obtain r where r: "?sel = Some r" "target r = Some g" using a by (auto split: option.splits)
    from find_sorted [OF assms(2) r(1)] obtain n
      where n: "(n, r) \<in> set (rt_list t)" and m: "\<forall>(m, s) \<in> set (rt_list t). ?can s \<longrightarrow> rank s \<le> rank r" and c: "?can r" by auto
    have "\<forall>(m, s) \<in> set (rt_list t). can (key s) \<longrightarrow> rank s \<le> rank r" using m tgt by fastforce
    then show ?thesis using n c r(2) tgt [OF n] live by auto
  qed
  have "target r \<noteq> None" if "?sel = Some r" for r using find_sorted [OF assms(2) that] tgt by auto
  then have "?res = None \<longleftrightarrow> ?sel = None" by (auto split: option.splits)
  also have "\<dots> \<longleftrightarrow> (\<forall>(n, r) \<in> set (rt_list t). \<not> ?can r)" by (auto simp: find_None_iff)
  also have "\<dots> \<longleftrightarrow> \<not> (\<exists>g \<in> live. can g)" using live tgt by force
  finally show thesis using that [OF get _ best] by simp
qed

end

end
