(* ===== verification/Unit_Threats.thy ===== *)
theory Unit_Threats
  imports Target_Lists
begin

text \<open>
  The hostile units and projectiles a robot knows of, \<^verbatim>\<open>game/combat/UnitThreatManager\<close>, \<^verbatim>\<open>UnitHostileReference\<close>,
  \<^verbatim>\<open>ProjectileThreatManager\<close> and \<^verbatim>\<open>ProjectileHostileReference\<close>. What the robot computes about a victim is an argument of the calls.
\<close>

section \<open>Hostile units\<close>

datatype unit_threat_type = UNITTHREAT_DISTANCE | UNITTHREAT_ENEMY_HEALTH | UNITTHREAT_RECEIVED_DAMAGE | UNITTHREAT_ENEMY_CHARGED_POWER

record 'f hostile_ref =
  hr_target :: "nat option"
  hr_targetGuid :: nat
  hr_totalDamage :: 'f
  hr_threatParts :: "unit_threat_type \<Rightarrow> 'f"
  hr_threat :: 'f

record 'f threat_env =
  \<comment> \<open>floating point, and what the robot computes about a victim\<close>
  te_zero :: 'f
  te_add :: "'f \<Rightarrow> 'f \<Rightarrow> 'f"
  te_calcThreat :: "nat \<Rightarrow> unit_threat_type \<Rightarrow> 'f \<Rightarrow> 'f"
  te_applyThreatModifier :: "unit_threat_type \<Rightarrow> 'f \<Rightarrow> 'f"

definition hr_isValid :: "'f hostile_ref \<Rightarrow> bool" where
  "hr_isValid r = (hr_target r \<noteq> None)"

definition hr_new :: "'f threat_env \<Rightarrow> nat \<Rightarrow> 'f hostile_ref" where
  "hr_new env victim =
     \<lparr>hr_target = Some victim, hr_targetGuid = victim, hr_totalDamage = te_zero env, hr_threatParts = (\<lambda>t. te_zero env), hr_threat = te_zero env\<rparr>"

definition hr_unlink :: "'f hostile_ref \<Rightarrow> 'f hostile_ref" where
  "hr_unlink r = r\<lparr>hr_target := None\<rparr>"

definition hr_calcThreatSum :: "'f threat_env \<Rightarrow> 'f hostile_ref \<Rightarrow> 'f" where
  "hr_calcThreatSum env r =
     foldl (\<lambda>threat t. te_add env threat (te_applyThreatModifier env t (hr_threatParts r t))) (te_zero env)
       [UNITTHREAT_DISTANCE, UNITTHREAT_ENEMY_HEALTH, UNITTHREAT_RECEIVED_DAMAGE, UNITTHREAT_ENEMY_CHARGED_POWER]"

definition hr_updateThreat :: "'f threat_env \<Rightarrow> unit_threat_type \<Rightarrow> 'f \<Rightarrow> 'f hostile_ref \<Rightarrow> (bool \<times> 'f hostile_ref) option" where
  \<comment> \<open>whether the manager is marked, and the reference; the source and the target of an invalid reference are null\<close>
  "hr_updateThreat env type variant r =
     (case hr_target r of
        None \<Rightarrow> None
      | Some victim \<Rightarrow>
          let r1 = (if type = UNITTHREAT_RECEIVED_DAMAGE then r\<lparr>hr_totalDamage := te_add env (hr_totalDamage r) variant\<rparr> else r);
              threatPart = (if type = UNITTHREAT_RECEIVED_DAMAGE then te_calcThreat env victim type (hr_totalDamage r1)
                            else te_calcThreat env victim type (te_zero env));
              r2 = r1\<lparr>hr_threatParts := (hr_threatParts r1)(type := threatPart)\<rparr>;
              threat = hr_calcThreatSum env r2
          in Some (if threat \<noteq> hr_threat r2 then (True, r2\<lparr>hr_threat := threat\<rparr>) else (False, r2)))"

type_synonym 'f unit_threat_manager = "'f hostile_ref ref_table"

definition um_mark :: "bool \<Rightarrow> 'r ref_table \<Rightarrow> 'r ref_table" where
  "um_mark isDirty t = (if isDirty then t\<lparr>rt_isDirty := True\<rparr> else t)"

definition um_addThreat :: "'f threat_env \<Rightarrow> nat \<Rightarrow> unit_threat_type \<Rightarrow> 'f \<Rightarrow> 'f unit_threat_manager \<Rightarrow> 'f unit_threat_manager option" where
  "um_addThreat env victim type variant t =
     (case rt_getReferenceByTarget victim t of
        None \<Rightarrow> None
      | Some None \<Rightarrow>
          (case rt_emplace victim (hr_new env victim) t of
             None \<Rightarrow> None
           | Some t1 \<Rightarrow>
               map_option (\<lambda>(d, r). um_mark d (rt_write (rt_fresh t) r t1)) (hr_updateThreat env type variant (hr_new env victim)))
      | Some (Some (n, r)) \<Rightarrow> map_option (\<lambda>(d, r1). um_mark d (rt_write n r1 t)) (hr_updateThreat env type variant r))"

definition um_isHostileTarget :: "nat \<Rightarrow> 'f unit_threat_manager \<Rightarrow> bool" where
  "um_isHostileTarget victim t = (rt_lookup t victim \<noteq> None)"

fun um_updateLoop :: "'f threat_env \<Rightarrow> unit_threat_type \<Rightarrow> 'f \<Rightarrow> (nat \<times> 'f hostile_ref) list \<Rightarrow> 'f unit_threat_manager \<Rightarrow> 'f unit_threat_manager option" where
  "um_updateLoop env type variant [] t = Some t"
| "um_updateLoop env type variant ((n, r) # xs) t =
     (if \<not> hr_isValid r then um_updateLoop env type variant xs t
      else
        (case hr_updateThreat env type variant r of
           None \<Rightarrow> None
         | Some (d, r1) \<Rightarrow> um_updateLoop env type variant xs (um_mark d (rt_write n r1 t))))"

definition um_updateAllThreats :: "'f threat_env \<Rightarrow> unit_threat_type \<Rightarrow> 'f \<Rightarrow> 'f unit_threat_manager \<Rightarrow> 'f unit_threat_manager option" where
  "um_updateAllThreats env type variant t = um_updateLoop env type variant (rt_list t) t"

definition um_update :: "('f::linorder) unit_threat_manager \<Rightarrow> 'f unit_threat_manager option" where
  "um_update t =
     (if rt_isDirty t then
        (case rt_purgeLoop hr_isValid hr_targetGuid Some True (rt_list t) (rt_lookup t) of
           None \<Rightarrow> None
         | Some (xs, lk) \<Rightarrow>
             Some (t\<lparr>rt_list := (if length xs > 1 then sort_desc (\<lambda>(n, r). hr_threat r) xs else xs), rt_lookup := lk, rt_isDirty := False\<rparr>))
      else Some (t\<lparr>rt_isDirty := False\<rparr>))"

definition um_removeAllThreats :: "'f unit_threat_manager \<Rightarrow> 'f unit_threat_manager option" where
  "um_removeAllThreats t = rt_removeAll hr_isValid hr_targetGuid True t"

definition um_selectNextHostileRef :: "(nat \<Rightarrow> bool) \<Rightarrow> 'f unit_threat_manager \<Rightarrow> 'f hostile_ref option option" where
  "um_selectNextHostileRef canCombatWith t = rt_select hr_isValid (\<lambda>r. canCombatWith (the (hr_target r))) (rt_list t)"

definition um_getHostileTarget :: "(nat \<Rightarrow> bool) \<Rightarrow> ('f::linorder) unit_threat_manager \<Rightarrow> (nat option \<times> 'f unit_threat_manager) option" where
  "um_getHostileTarget canCombatWith t =
     (case um_update t of
        None \<Rightarrow> None
      | Some t1 \<Rightarrow> map_option (\<lambda>sel. (case sel of None \<Rightarrow> None | Some r \<Rightarrow> hr_target r, t1)) (um_selectNextHostileRef canCombatWith t1))"

definition um_targetUpdate :: "'f threat_env \<Rightarrow> unit_threat_type \<Rightarrow> 'f \<Rightarrow> nat \<Rightarrow> 'f unit_threat_manager \<Rightarrow> 'f unit_threat_manager option" where
  \<comment> \<open>\<^verbatim>\<open>UnitHostileRefManager::updateThreat\<close> of a unit, for the reference of this manager in its list\<close>
  "um_targetUpdate env type variant victim t =
     um_updateLoop env type variant (filter (\<lambda>(n, r). hr_target r = Some victim) (rt_list t)) t"

definition um_targetGone :: "nat \<Rightarrow> 'f unit_threat_manager \<Rightarrow> 'f unit_threat_manager" where
  "um_targetGone victim t = rt_targetGone hr_isValid hr_targetGuid hr_unlink victim t"

definition te_ok :: "('f::linorder) \<Rightarrow> 'f threat_env \<Rightarrow> bool" where
  \<comment> \<open>no part of a threat, no weight and no sum is negative\<close>
  "te_ok z env \<longleftrightarrow> te_zero env = z \<and> (\<forall>g t v. z \<le> te_calcThreat env g t v) \<and> (\<forall>t x. z \<le> x \<longrightarrow> z \<le> te_applyThreatModifier env t x)
     \<and> (\<forall>x y. z \<le> x \<longrightarrow> z \<le> y \<longrightarrow> z \<le> te_add env x y)"

definition hr_good :: "('f::linorder) \<Rightarrow> 'f hostile_ref \<Rightarrow> bool" where
  "hr_good z r \<longleftrightarrow> hr_target r \<in> {None, Some (hr_targetGuid r)} \<and> (\<forall>t. z \<le> hr_threatParts r t) \<and> z \<le> hr_threat r"

interpretation hr: ranked_reference hr_isValid hr_targetGuid hr_unlink hr_target hr_threat "hr_good z" for z
  by unfold_locales (auto simp: hr_isValid_def hr_unlink_def hr_good_def)

abbreviation um_inv :: "('f::linorder) \<Rightarrow> nat set \<Rightarrow> nat set \<Rightarrow> 'f unit_threat_manager \<Rightarrow> bool" where
  "um_inv z \<equiv> tm_inv hr_isValid hr_targetGuid hr_threat (hr_good z)"

lemma hr_updateThreat_good:
  assumes "te_ok z env" and "hr_good z r" and "hr_isValid r"
  obtains d r1 where "hr_updateThreat env type variant r = Some (d, r1)" "hr_good z r1" "hr_isValid r1" "hr_targetGuid r1 = hr_targetGuid r"
    "d \<or> hr_threat r1 = hr_threat r"
proof -
  obtain g where g: "hr_target r = Some g" using assms(3) by (auto simp: hr_isValid_def)
  have sum: "z \<le> hr_calcThreatSum env x" if "\<forall>t. z \<le> hr_threatParts x t" for x
    using assms(1) that by (simp add: hr_calcThreatSum_def te_ok_def)
  have calc: "z \<le> te_calcThreat env g t v" for t v using assms(1) by (simp add: te_ok_def)
  obtain p where p: "hr_updateThreat env type variant r = Some p" using g by (simp add: hr_updateThreat_def Let_def)
  obtain d r1 where "p = (d, r1)" by force
  with p have u: "hr_updateThreat env type variant r = Some (d, r1)" by simp
  have "hr_good z r1 \<and> hr_isValid r1 \<and> hr_targetGuid r1 = hr_targetGuid r \<and> (d \<or> hr_threat r1 = hr_threat r)"
    using u g assms(2,3) calc by (auto simp: hr_updateThreat_def Let_def hr_good_def hr_isValid_def split: if_splits intro!: sum)
  then show thesis using that u by blast
qed

lemma um_write_inv:
  assumes "te_ok z env" and "um_inv z live stale t" and "(n, r) \<in> set (rt_list t)" and "hr_isValid r"
  obtains d r1 where "hr_updateThreat env type variant r = Some (d, r1)" "um_inv z live stale (um_mark d (rt_write n r1 t))"
    "set (rt_list (um_mark d (rt_write n r1 t))) = insert (n, r1) (set (rt_list t) - {(n, r)})"
proof -
  have ok: "rt_ok hr_isValid hr_targetGuid t" and good: "hr_good z r" using assms(2,3) by (auto simp: tm_inv_def)
  obtain d r1 where u: "hr_updateThreat env type variant r = Some (d, r1)" "hr_good z r1" "hr_isValid r1" "hr_targetGuid r1 = hr_targetGuid r"
      "d \<or> hr_threat r1 = hr_threat r" by (rule hr_updateThreat_good [OF assms(1) good assms(4)])
  have d: "rt_isDirty (um_mark d (rt_write n r1 t)) \<or> hr_threat r1 = hr_threat r \<and> rt_isDirty (um_mark d (rt_write n r1 t)) = rt_isDirty t"
    using u(5) by (auto simp: um_mark_def rt_write_def)
  have "um_inv z live stale (um_mark d (rt_write n r1 t))"
    by (rule hr.write_inv [OF assms(2,3) u(2) assms(4) u(3,4) d]) (simp add: um_mark_def)
  moreover have "set (rt_list (um_mark d (rt_write n r1 t))) = insert (n, r1) (set (rt_list t) - {(n, r)})"
    using hr.write_ok(2) [OF ok assms(3) u(4)] u(3) assms(4) by (simp add: um_mark_def)
  ultimately show thesis using that u(1) by blast
qed

lemma um_updateLoop_inv:
  assumes "te_ok z env" and "um_inv z live stale t" and "set xs \<subseteq> set (rt_list t)" and "distinct (map fst xs)"
  shows "\<exists>t1. um_updateLoop env type variant xs t = Some t1 \<and> um_inv z live stale t1"
  using assms(2-4)
proof (induction xs arbitrary: t)
  case (Cons p xs)
  obtain n r where p: "p = (n, r)" by force
  show ?case
  proof (cases "hr_isValid r")
    case True
    have mem: "(n, r) \<in> set (rt_list t)" using Cons.prems(2) p by simp
    obtain d r1 where u: "hr_updateThreat env type variant r = Some (d, r1)" "um_inv z live stale (um_mark d (rt_write n r1 t))"
        "set (rt_list (um_mark d (rt_write n r1 t))) = insert (n, r1) (set (rt_list t) - {(n, r)})"
      by (rule um_write_inv [OF assms(1) Cons.prems(1) mem True])
    have "set xs \<subseteq> set (rt_list (um_mark d (rt_write n r1 t)))" unfolding u(3) using Cons.prems(2,3) p by force
    from Cons.IH [OF u(2) this] show ?thesis using Cons.prems(3) p True u(1) by simp
  next
    case False
    then show ?thesis using Cons p by simp
  qed
qed simp

lemma um_updateAll_inv: "te_ok z env \<Longrightarrow> um_inv z live stale t \<Longrightarrow> \<exists>t1. um_updateAllThreats env type variant t = Some t1 \<and> um_inv z live stale t1"
  unfolding um_updateAllThreats_def by (rule um_updateLoop_inv) (simp_all add: tm_inv_def rt_ok_def)

lemma um_targetUpdate_inv: "te_ok z env \<Longrightarrow> um_inv z live stale t \<Longrightarrow> \<exists>t1. um_targetUpdate env type variant g t = Some t1 \<and> um_inv z live stale t1"
  unfolding um_targetUpdate_def by (rule um_updateLoop_inv) (auto simp: tm_inv_def rt_ok_def distinct_map_filter)

lemma um_add_live:
  assumes "te_ok z env" and "um_inv z live stale t" and "g \<in> live"
  shows "\<exists>t1. um_addThreat env g type variant t = Some t1 \<and> um_inv z live stale t1"
proof -
  obtain n r where r: "(n, r) \<in> set (rt_list t)" "hr_isValid r" "hr_targetGuid r = g" using assms(2,3) by (auto simp: tm_inv_def)
  have ok: "rt_ok hr_isValid hr_targetGuid t" using assms(2) by (simp add: tm_inv_def)
  obtain d r1 where "hr_updateThreat env type variant r = Some (d, r1)" "um_inv z live stale (um_mark d (rt_write n r1 t))"
    by (rule um_write_inv [OF assms(1,2) r(1,2)])
  then show ?thesis using hr.get_present [OF ok r(1)] r(3) by (simp add: um_addThreat_def)
qed

lemma um_add_stale:
  assumes "um_inv z live stale t" and "g \<in> stale"
  shows "um_addThreat env g type variant t = None"
proof -
  obtain n r where r: "(n, r) \<in> set (rt_list t)" "\<not> hr_isValid r" "hr_targetGuid r = g" using assms by (auto simp: tm_inv_def)
  have "rt_ok hr_isValid hr_targetGuid t" using assms(1) by (simp add: tm_inv_def)
  from hr.get_present [OF this r(1)] show ?thesis using r by (simp add: um_addThreat_def hr_updateThreat_def hr_isValid_def)
qed

lemma um_add_new:
  assumes "te_ok z env" and "um_inv z live stale t" and "g \<notin> live" and "g \<notin> stale"
  shows "\<exists>t1. um_addThreat env g type variant t = Some t1 \<and> um_inv z (insert g live) stale t1"
proof -
  let ?r = "hr_new env g"
  have r: "hr_isValid ?r" "hr_good z ?r" "hr_targetGuid ?r = g" "hr_threat ?r = z"
    using assms(1) by (simp_all add: hr_new_def hr_isValid_def hr_good_def te_ok_def)
  have low: "\<forall>(n, s) \<in> set (rt_list t). hr_threat ?r \<le> hr_threat s \<or> rt_isDirty t"
    using assms(2) r(4) by (auto simp: tm_inv_def hr_good_def)
  obtain t1 where t1: "rt_emplace g ?r t = Some t1" "um_inv z (insert g live) stale t1" "(rt_fresh t, ?r) \<in> set (rt_list t1)"
      "rt_getReferenceByTarget g t = Some None"
    by (rule hr.emplace_inv [OF assms(2) _ _ r(1,2) low]) (use r(3) assms(3,4) in auto)
  obtain d r1 where "hr_updateThreat env type variant ?r = Some (d, r1)" "um_inv z (insert g live) stale (um_mark d (rt_write (rt_fresh t) r1 t1))"
    by (rule um_write_inv [OF assms(1) t1(2,3) r(1)])
  then show ?thesis using t1(1,4) by (simp add: um_addThreat_def)
qed

lemma um_update_generic: "um_update t = rt_update hr_isValid hr_targetGuid hr_threat Some True t"
  by (simp add: um_update_def rt_update_def)

lemma um_select_inv:
  assumes "um_inv z live stale t"
  obtains res t1 where "um_getHostileTarget can t = Some (res, t1)" "um_inv z live {} t1"
    "res = None \<longleftrightarrow> \<not> (\<exists>g \<in> live. can g)" "set (rt_list t1) = {(n, r) \<in> set (rt_list t). hr_isValid r}"
    "\<And>g. res = Some g \<Longrightarrow> g \<in> live \<and> can g \<and> (\<exists>(n, r) \<in> set (rt_list t1). hr_target r = Some g
       \<and> (\<forall>(m, s) \<in> set (rt_list t1). can (hr_targetGuid s) \<longrightarrow> hr_threat s \<le> hr_threat r))"
proof -
  obtain t1 where u: "um_update t = Some t1" "um_inv z live {} t1" "rank_sorted hr_threat (rt_list t1)"
      "set (rt_list t1) = {(n, if rt_isDirty t then the (Some r) else r) | n r. (n, r) \<in> set (rt_list t) \<and> hr_isValid r}"
    unfolding um_update_generic by (rule hr.refresh_inv [OF assms, of Some True]) auto
  obtain res where r: "rt_getTarget hr_isValid hr_target can t1 = Some res" "res = None \<longleftrightarrow> \<not> (\<exists>g \<in> live. can g)"
      and best: "\<And>g. res = Some g \<Longrightarrow> g \<in> live \<and> can g \<and> (\<exists>(n, r) \<in> set (rt_list t1). hr_target r = Some g
       \<and> (\<forall>(m, s) \<in> set (rt_list t1). can (hr_targetGuid s) \<longrightarrow> hr_threat s \<le> hr_threat r))"
    by (rule hr.select_inv [OF u(2,3), where can = can]) blast
  have "um_getHostileTarget can t = Some (res, t1)"
    using u(1) r(1) by (auto simp: um_getHostileTarget_def rt_getTarget_def um_selectNextHostileRef_def)
  moreover have "set (rt_list t1) = {(n, r) \<in> set (rt_list t). hr_isValid r}" using u(4) by auto
  ultimately show thesis using that u(2) r(2) best by blast
qed

datatype 'f hostile_event =
    HAdd "'f threat_env" nat unit_threat_type 'f
  | HUpdateAll "'f threat_env" unit_threat_type 'f
  | HTargetUpdate "'f threat_env" unit_threat_type 'f nat
  | HGone nat
  | HSelect "nat \<Rightarrow> bool"
  | HRemoveAll

fun um_step :: "('f::linorder) hostile_event \<Rightarrow> 'f unit_threat_manager \<Rightarrow> 'f unit_threat_manager option" where
  "um_step (HAdd env g type variant) t = um_addThreat env g type variant t"
| "um_step (HUpdateAll env type variant) t = um_updateAllThreats env type variant t"
| "um_step (HTargetUpdate env type variant g) t = um_targetUpdate env type variant g t"
| "um_step (HGone g) t = Some (um_targetGone g t)"
| "um_step (HSelect can) t = map_option snd (um_getHostileTarget can t)"
| "um_step HRemoveAll t = um_removeAllThreats t"

fun um_run :: "('f::linorder) hostile_event list \<Rightarrow> 'f unit_threat_manager \<Rightarrow> 'f unit_threat_manager option" where
  "um_run [] t = Some t"
| "um_run (e # es) t = (case um_step e t of None \<Rightarrow> None | Some t1 \<Rightarrow> um_run es t1)"

fun hostile_env_ok :: "('f::linorder) \<Rightarrow> 'f hostile_event \<Rightarrow> bool" where
  "hostile_env_ok z (HAdd env g type variant) = te_ok z env"
| "hostile_env_ok z (HUpdateAll env type variant) = te_ok z env"
| "hostile_env_ok z (HTargetUpdate env type variant g) = te_ok z env"
| "hostile_env_ok z e = True"

fun hostile_track :: "'f hostile_event list \<Rightarrow> nat set \<Rightarrow> nat set \<Rightarrow> (nat set \<times> nat set) option" where
  \<comment> \<open>the targets held and those that left since the list was last updated; \<open>None\<close> once one of the latter is added again\<close>
  "hostile_track [] live stale = Some (live, stale)"
| "hostile_track (HAdd env g type variant # es) live stale = (if g \<in> stale then None else hostile_track es (insert g live) stale)"
| "hostile_track (HGone g # es) live stale = hostile_track es (live - {g}) (stale \<union> (live \<inter> {g}))"
| "hostile_track (HSelect can # es) live stale = hostile_track es live {}"
| "hostile_track (HRemoveAll # es) live stale = hostile_track es {} {}"
| "hostile_track (e # es) live stale = hostile_track es live stale"

lemma um_run_track:
  assumes "list_all (hostile_env_ok z) es" and "um_inv z live stale t"
  shows "case hostile_track es live stale of None \<Rightarrow> um_run es t = None | Some (live1, stale1) \<Rightarrow> \<exists>t1. um_run es t = Some t1 \<and> um_inv z live1 stale1 t1"
  using assms
proof (induction es arbitrary: live stale t)
  case (Cons e es)
  have step: ?case if "um_step e t = Some t1" "hostile_track (e # es) live stale = hostile_track es l s" "um_inv z l s t1" for l s t1
  proof -
    have "um_run (e # es) t = um_run es t1" using that(1) by simp
    then show ?thesis using Cons.IH [OF _ that(3)] Cons.prems(1) that(2) by (simp only: list.pred_inject)
  qed
  show ?case
  proof (cases e)
    case (HAdd env g type variant)
    have env: "te_ok z env" using Cons.prems(1) HAdd by simp
    consider "g \<in> stale" | "g \<notin> stale" "g \<in> live" | "g \<notin> stale" "g \<notin> live" by blast
    then show ?thesis
    proof cases
      case 1
      then show ?thesis using um_add_stale [OF Cons.prems(2) 1] HAdd by simp
    next
      case 2
      obtain t1 where "um_addThreat env g type variant t = Some t1" "um_inv z live stale t1" using um_add_live [OF env Cons.prems(2) 2(2)] by blast
      then show ?thesis using step [of t1 live stale] HAdd 2 by (simp add: insert_absorb)
    next
      case 3
      obtain t1 where "um_addThreat env g type variant t = Some t1" "um_inv z (insert g live) stale t1"
        using um_add_new [OF env Cons.prems(2) 3(2,1)] by blast
      then show ?thesis using step [of t1 "insert g live" stale] HAdd 3 by simp
    qed
  next
    case (HUpdateAll env type variant)
    then obtain t1 where "um_updateAllThreats env type variant t = Some t1" "um_inv z live stale t1"
      using um_updateAll_inv [OF _ Cons.prems(2), of env] Cons.prems(1) by auto
    then show ?thesis using step [of t1 live stale] HUpdateAll by simp
  next
    case (HTargetUpdate env type variant g)
    then have env: "te_ok z env" using Cons.prems(1) by simp
    obtain t1 where "um_targetUpdate env type variant g t = Some t1" "um_inv z live stale t1"
      using um_targetUpdate_inv [OF env Cons.prems(2)] by blast
    then show ?thesis using step [of t1 live stale] HTargetUpdate by simp
  next
    case (HGone g)
    then show ?thesis using step [OF _ _ hr.gone_inv [OF Cons.prems(2)], of g] by (simp add: um_targetGone_def)
  next
    case (HSelect can)
    obtain res t1 where "um_getHostileTarget can t = Some (res, t1)" "um_inv z live {} t1" by (rule um_select_inv [OF Cons.prems(2)])
    then show ?thesis using step [of t1 live "{}"] HSelect by simp
  next
    case HRemoveAll
    obtain t1 where "um_removeAllThreats t = Some t1" "um_inv z {} {} t1" using hr.clear_inv [OF Cons.prems(2), of True] unfolding um_removeAllThreats_def by blast
    then show ?thesis using step [of t1 "{}" "{}"] HRemoveAll by simp
  qed
qed simp


definition duel_env :: "int threat_env" where
  "duel_env = \<lparr>te_zero = 0, te_add = (+), te_calcThreat = (\<lambda>g t v. if t = UNITTHREAT_RECEIVED_DAMAGE then max 0 v else 0), te_applyThreatModifier = (\<lambda>t x. x)\<rparr>"

definition duel_events :: "int hostile_event list" where
  "duel_events = [HAdd duel_env 4 UNITTHREAT_RECEIVED_DAMAGE 10, HAdd duel_env 5 UNITTHREAT_RECEIVED_DAMAGE 30, HAdd duel_env 6 UNITTHREAT_RECEIVED_DAMAGE 50,
     HAdd duel_env 4 UNITTHREAT_RECEIVED_DAMAGE 25, HGone 6]"

lemma duel_selects: "um_run duel_events rt_new \<noteq> None \<and> map_option fst (um_getHostileTarget (\<lambda>g. True) (the (um_run duel_events rt_new))) = Some (Some 4)"
  by code_simp

lemma stale_threat_crashes: "um_run (duel_events @ [HAdd duel_env 6 UNITTHREAT_RECEIVED_DAMAGE 1]) rt_new = None"
  by code_simp


section \<open>Hostile projectiles\<close>

record projectile_ref =
  pr_target :: "nat option"
  pr_guid :: nat

definition pr_isValid :: "projectile_ref \<Rightarrow> bool" where
  "pr_isValid r = (pr_target r \<noteq> None)"

definition pr_new :: "nat \<Rightarrow> projectile_ref" where
  "pr_new proj = \<lparr>pr_target = Some proj, pr_guid = proj\<rparr>"

definition pr_unlink :: "projectile_ref \<Rightarrow> projectile_ref" where
  "pr_unlink r = r\<lparr>pr_target := None\<rparr>"

definition pm_addThreat :: "nat \<Rightarrow> projectile_ref ref_table \<Rightarrow> projectile_ref ref_table option" where
  "pm_addThreat proj t =
     (case rt_getReferenceByTarget proj t of
        None \<Rightarrow> None
      | Some None \<Rightarrow> rt_emplace proj (pr_new proj) t
      | Some (Some x) \<Rightarrow> Some t)"

definition pm_isHostileTarget :: "nat \<Rightarrow> projectile_ref ref_table \<Rightarrow> bool option" where
  "pm_isHostileTarget proj t = map_option (\<lambda>x. x \<noteq> None) (rt_getReferenceByTarget proj t)"

definition pm_removeAllThreats :: "projectile_ref ref_table \<Rightarrow> projectile_ref ref_table option" where
  "pm_removeAllThreats t = rt_removeAll pr_isValid pr_guid False t"

definition pm_update :: "projectile_ref ref_table \<Rightarrow> projectile_ref ref_table option" where
  "pm_update t =
     (if rt_isDirty t then
        map_option (\<lambda>(xs, lk). t\<lparr>rt_list := xs, rt_lookup := lk, rt_isDirty := False\<rparr>)
          (rt_purgeLoop pr_isValid pr_guid Some False (rt_list t) (rt_lookup t))
      else Some (t\<lparr>rt_isDirty := False\<rparr>))"

definition pm_selectNextHostileRef :: "(nat \<Rightarrow> bool) \<Rightarrow> projectile_ref ref_table \<Rightarrow> projectile_ref option option" where
  "pm_selectNextHostileRef isPotentialThreat t = rt_select pr_isValid (\<lambda>r. isPotentialThreat (the (pr_target r))) (rt_list t)"

definition pm_getHostileTarget :: "(nat \<Rightarrow> bool) \<Rightarrow> projectile_ref ref_table \<Rightarrow> nat option option" where
  \<comment> \<open>the list is not updated first\<close>
  "pm_getHostileTarget isPotentialThreat t =
     map_option (\<lambda>sel. case sel of None \<Rightarrow> None | Some r \<Rightarrow> pr_target r) (pm_selectNextHostileRef isPotentialThreat t)"

definition pm_targetGone :: "nat \<Rightarrow> projectile_ref ref_table \<Rightarrow> projectile_ref ref_table" where
  "pm_targetGone proj t = rt_targetGone pr_isValid pr_guid pr_unlink proj t"

interpretation pr: reference pr_isValid pr_guid pr_unlink
  by unfold_locales (simp_all add: pr_isValid_def pr_unlink_def)

lemma pm_update_select:
  assumes "rt_ok pr_isValid pr_guid t"
  obtains t1 where "pm_update t = Some t1" "rt_ok pr_isValid pr_guid t1" "pm_getHostileTarget can t1 \<noteq> None"
proof -
  obtain xs lk where p: "rt_purgeLoop pr_isValid pr_guid Some False (rt_list t) (rt_lookup t) = Some (xs, lk)"
      "xs = map (\<lambda>(n, r). (n, the (Some r))) (filter (\<lambda>(n, r). pr_isValid r) (rt_list t))"
      and pok: "\<And>ys d. mset ys = mset xs \<Longrightarrow> rt_ok pr_isValid pr_guid (t\<lparr>rt_list := ys, rt_lookup := lk, rt_isDirty := d\<rparr>)"
    by (rule pr.purge_ok [OF assms, of Some False]) auto
  have sel: "pm_getHostileTarget can t1 \<noteq> None" if "\<forall>(n, r) \<in> set (rt_list t1). pr_isValid r" for t1
    unfolding pm_getHostileTarget_def pm_selectNextHostileRef_def by (subst pr.select_result [OF that]) simp
  show thesis
  proof (cases "rt_isDirty t")
    case True
    let ?t = "t\<lparr>rt_list := xs, rt_lookup := lk, rt_isDirty := False\<rparr>"
    have "pm_update t = Some ?t" using True p(1) by (simp add: pm_update_def)
    moreover have "rt_ok pr_isValid pr_guid ?t" by (rule pok) simp
    moreover have "pm_getHostileTarget can ?t \<noteq> None" by (rule sel) (auto simp: p(2))
    ultimately show thesis by (rule that)
  next
    case False
    then show thesis using that [of t] sel [of t] assms by (auto simp: pm_update_def rt_ok_def)
  qed
qed

lemma projectile_gone_asserts:
  \<comment> \<open>between two updates the selection relies on no projectile having left\<close>
  "map_option (\<lambda>t. pm_getHostileTarget (\<lambda>g. False) (pm_targetGone 7 t)) (pm_addThreat 7 rt_new) = Some None"
  by code_simp

end
