(* ===== verification/Wish_Manager.thy ===== *)
theory Wish_Manager
  imports Target_Lists Inventory
begin

text \<open>
  The items a robot would like to collect, \<^verbatim>\<open>game/collection/WishManager\<close> and \<^verbatim>\<open>InterestedReference\<close>. The class and the count of
  an item, the table of templates, whether the robot can collect an item and the sum in floating point are arguments.
\<close>

section \<open>How much an item is wished for\<close>

definition EQUIPMENT_LEVEL_MAX :: int where "EQUIPMENT_LEVEL_MAX = 3"

datatype wish_priority =
    WISH_PRIORITY_NONE | WISH_PRIORITY_GOLD | WISH_PRIORITY_CONSUMABLE_OTHER | WISH_PRIORITY_MAGIC_BEAN | WISH_PRIORITY_EQUIPMENT | WISH_PRIORITY_FIRST_AID

fun priority_value :: "wish_priority \<Rightarrow> int" where
  "priority_value WISH_PRIORITY_NONE = 0"
| "priority_value WISH_PRIORITY_GOLD = 1"
| "priority_value WISH_PRIORITY_CONSUMABLE_OTHER = 2"
| "priority_value WISH_PRIORITY_MAGIC_BEAN = 3"
| "priority_value WISH_PRIORITY_EQUIPMENT = 4"
| "priority_value WISH_PRIORITY_FIRST_AID = 5"

definition MAX_GOLD_STACKS :: int where "MAX_GOLD_STACKS = 5"
definition MAX_MAGICBEAN_STYLES :: int where "MAX_MAGICBEAN_STYLES = 2"

definition ir_getGoldStackSize :: "int \<Rightarrow> int" where
  "ir_getGoldStackSize golds = (if golds < 20 then 0 else if golds < 50 then 1 else if golds < 100 then 2 else if golds < 200 then 3 else 4)"

definition ir_getMagicBeanStyle :: "int \<Rightarrow> int" where
  "ir_getMagicBeanStyle cnt = (if cnt > 1 then 1 else 0)"

record 'f wish_env =
  we_items :: item_env
  we_item :: "nat \<Rightarrow> nat \<times> int"
  we_sum :: "int \<Rightarrow> int \<Rightarrow> int \<Rightarrow> 'f"
    \<comment> \<open>\<^verbatim>\<open>priority + 0.9f * (a / b)\<close>\<close>

definition ir_rate :: "item_template \<Rightarrow> int \<Rightarrow> wish_priority \<times> int \<times> int" where
  \<comment> \<open>the priority, and the numerator and the denominator of \<^verbatim>\<open>normalize\<close>\<close>
  "ir_rate tmpl cnt =
     (if it_class tmpl = ITEM_CLASS_CONSUMABLE
      then (if it_subClass tmpl = ITEM_SUBCLASS_FIRST_AID then WISH_PRIORITY_FIRST_AID else WISH_PRIORITY_CONSUMABLE_OTHER, 1, 1)
      else if it_class tmpl = ITEM_CLASS_EQUIPMENT
      then (WISH_PRIORITY_EQUIPMENT, if it_level tmpl > 0 then int (it_level tmpl) else EQUIPMENT_LEVEL_MAX, EQUIPMENT_LEVEL_MAX)
      else if it_class tmpl = ITEM_CLASS_MAGIC_BEAN then (WISH_PRIORITY_MAGIC_BEAN, ir_getMagicBeanStyle cnt + 1, MAX_MAGICBEAN_STYLES)
      else if it_class tmpl = ITEM_CLASS_GOLD then (WISH_PRIORITY_GOLD, ir_getGoldStackSize cnt + 1, MAX_GOLD_STACKS)
      else (WISH_PRIORITY_NONE, 0, 1))"

record 'f interested_ref =
  ir_target :: "nat option"
  ir_targetGuid :: nat
  ir_wish :: 'f

definition ir_isValid :: "'f interested_ref \<Rightarrow> bool" where
  "ir_isValid r = (ir_target r \<noteq> None)"

definition ir_new :: "'f \<Rightarrow> nat \<Rightarrow> 'f interested_ref" where
  "ir_new zero item = \<lparr>ir_target = Some item, ir_targetGuid = item, ir_wish = zero\<rparr>"

definition ir_unlink :: "'f interested_ref \<Rightarrow> 'f interested_ref" where
  "ir_unlink r = r\<lparr>ir_target := None\<rparr>"

definition ir_update :: "'f wish_env \<Rightarrow> 'f interested_ref \<Rightarrow> 'f interested_ref option" where
  "ir_update env r =
     (case ir_target r of
        None \<Rightarrow> None
      | Some item \<Rightarrow>
          (case en_items (we_items env) (fst (we_item env item)) of
             None \<Rightarrow> None
           | Some tmpl \<Rightarrow>
               (case ir_rate tmpl (snd (we_item env item)) of
                  (priority, a, b) \<Rightarrow> Some (r\<lparr>ir_wish := we_sum env (priority_value priority) a b\<rparr>))))"

section \<open>The manager\<close>

type_synonym 'f wish_manager = "'f interested_ref ref_table"

definition wm_addWish :: "'f \<Rightarrow> nat \<Rightarrow> 'f wish_manager \<Rightarrow> 'f wish_manager option" where
  "wm_addWish zero item t =
     (case rt_getReferenceByTarget item t of
        None \<Rightarrow> None
      | Some None \<Rightarrow> map_option (\<lambda>t1. t1\<lparr>rt_isDirty := True\<rparr>) (rt_emplace item (ir_new zero item) t)
      | Some (Some x) \<Rightarrow> Some t)"

definition wm_isInterestedTarget :: "nat \<Rightarrow> 'f wish_manager \<Rightarrow> bool" where
  "wm_isInterestedTarget item t = (rt_lookup t item \<noteq> None)"

definition wm_update :: "('f::linorder) wish_env \<Rightarrow> 'f wish_manager \<Rightarrow> 'f wish_manager option" where
  "wm_update env t =
     (if rt_isDirty t then
        (case rt_purgeLoop ir_isValid ir_targetGuid (ir_update env) True (rt_list t) (rt_lookup t) of
           None \<Rightarrow> None
         | Some (xs, lk) \<Rightarrow>
             Some (t\<lparr>rt_list := (if length xs > 1 then sort_desc (\<lambda>(n, r). ir_wish r) xs else xs), rt_lookup := lk, rt_isDirty := False\<rparr>))
      else Some (t\<lparr>rt_isDirty := False\<rparr>))"

definition wm_removeAllWishes :: "'f wish_manager \<Rightarrow> 'f wish_manager option" where
  "wm_removeAllWishes t = rt_removeAll ir_isValid ir_targetGuid True t"

definition wm_selectNextInterestedRef :: "(nat \<Rightarrow> bool) \<Rightarrow> 'f wish_manager \<Rightarrow> 'f interested_ref option option" where
  "wm_selectNextInterestedRef canCollect t = rt_select ir_isValid (\<lambda>r. canCollect (the (ir_target r))) (rt_list t)"

definition wm_getInterestedTarget :: "('f::linorder) wish_env \<Rightarrow> (nat \<Rightarrow> bool) \<Rightarrow> 'f wish_manager \<Rightarrow> (nat option \<times> 'f wish_manager) option" where
  "wm_getInterestedTarget env canCollect t =
     (case wm_update env t of
        None \<Rightarrow> None
      | Some t1 \<Rightarrow> map_option (\<lambda>sel. (case sel of None \<Rightarrow> None | Some r \<Rightarrow> ir_target r, t1)) (wm_selectNextInterestedRef canCollect t1))"

definition wm_targetGone :: "nat \<Rightarrow> 'f wish_manager \<Rightarrow> 'f wish_manager" where
  "wm_targetGone item t = rt_targetGone ir_isValid ir_targetGuid ir_unlink item t"

section \<open>Correctness\<close>

definition ir_good :: "'f interested_ref \<Rightarrow> bool" where
  "ir_good r \<longleftrightarrow> ir_target r \<in> {None, Some (ir_targetGuid r)}"

interpretation ir: ranked_reference ir_isValid ir_targetGuid ir_unlink ir_target ir_wish ir_good
  by unfold_locales (auto simp: ir_isValid_def ir_unlink_def ir_good_def)

abbreviation wm_inv :: "nat set \<Rightarrow> nat set \<Rightarrow> ('f::linorder) wish_manager \<Rightarrow> bool" where
  "wm_inv \<equiv> tm_inv ir_isValid ir_targetGuid ir_wish ir_good"

definition we_ok :: "'f wish_env \<Rightarrow> bool" where
  \<comment> \<open>the item of every guid has a template\<close>
  "we_ok env \<longleftrightarrow> (\<forall>item. \<exists>tmpl. en_items (we_items env) (fst (we_item env item)) = Some tmpl \<and> int (it_level tmpl) \<le> EQUIPMENT_LEVEL_MAX)"

definition wish_rate :: "'f wish_env \<Rightarrow> nat \<Rightarrow> wish_priority \<times> int \<times> int" where
  "wish_rate env item = ir_rate (the (en_items (we_items env) (fst (we_item env item)))) (snd (we_item env item))"

definition wish_value :: "'f wish_env \<Rightarrow> nat \<Rightarrow> 'f" where
  "wish_value env item = (case wish_rate env item of (priority, a, b) \<Rightarrow> we_sum env (priority_value priority) a b)"

definition wish_sum_ok :: "('f::linorder) wish_env \<Rightarrow> bool" where
  \<comment> \<open>a fraction between 0 and 1, scaled by 0.9, does not reach the next priority\<close>
  "wish_sum_ok env \<longleftrightarrow> (\<forall>p q a b c d. p < q \<and> 0 \<le> a \<and> a \<le> b \<and> 0 < b \<and> 0 \<le> c \<and> c \<le> d \<and> 0 < d \<longrightarrow> we_sum env p a b < we_sum env q c d)"

lemma wish_rate_fraction:
  assumes "we_ok env"
  obtains p a b where "wish_rate env item = (p, a, b)" "0 \<le> a" "a \<le> b" "0 < b"
proof -
  obtain tmpl where t: "en_items (we_items env) (fst (we_item env item)) = Some tmpl" "int (it_level tmpl) \<le> EQUIPMENT_LEVEL_MAX"
    using assms unfolding we_ok_def by blast
  obtain p a b where r: "ir_rate tmpl (snd (we_item env item)) = (p, a, b)" by (cases "ir_rate tmpl (snd (we_item env item))")
  then have "0 \<le> a \<and> a \<le> b \<and> 0 < b"
    using t(2) by (auto simp: ir_rate_def ir_getMagicBeanStyle_def ir_getGoldStackSize_def EQUIPMENT_LEVEL_MAX_def MAX_GOLD_STACKS_def MAX_MAGICBEAN_STYLES_def
        split: if_splits)
  then show thesis using that r t(1) by (simp add: wish_rate_def)
qed

lemma wish_value_priority:
  assumes "we_ok env" and "wish_sum_ok env" and "wish_value env h \<le> wish_value env g"
  shows "priority_value (fst (wish_rate env h)) \<le> priority_value (fst (wish_rate env g))"
proof (rule ccontr)
  assume less: "\<not> ?thesis"
  obtain p a b where h: "wish_rate env h = (p, a, b)" "0 \<le> a" "a \<le> b" "0 < b" by (rule wish_rate_fraction [OF assms(1)])
  obtain q c d where g: "wish_rate env g = (q, c, d)" "0 \<le> c" "c \<le> d" "0 < d" by (rule wish_rate_fraction [OF assms(1)])
  have "we_sum env (priority_value q) c d < we_sum env (priority_value p) a b"
    using less assms(2) h g unfolding wish_sum_ok_def by (metis fst_conv not_le)
  then show False using assms(3) h(1) g(1) by (simp add: wish_value_def)
qed

lemma ir_update_ok:
  assumes "we_ok env" and "ir_isValid r"
  shows "\<exists>r1. ir_update env r = Some r1 \<and> ir_targetGuid r1 = ir_targetGuid r \<and> ir_isValid r1 \<and> (ir_good r \<longrightarrow> ir_good r1)"
proof -
  obtain item where i: "ir_target r = Some item" using assms(2) by (auto simp: ir_isValid_def)
  obtain tmpl where "en_items (we_items env) (fst (we_item env item)) = Some tmpl" using assms(1) unfolding we_ok_def by blast
  then show ?thesis using i by (auto simp: ir_update_def ir_isValid_def ir_good_def split: prod.splits)
qed

lemma ir_update_wish:
  assumes "ir_update env r = Some r1" and "ir_target r = Some item"
  shows "ir_update env r1 = Some r1" and "ir_wish r1 = wish_value env item"
  using assms by (auto simp: ir_update_def wish_value_def wish_rate_def split: option.splits prod.splits)

lemma wm_update_generic: "wm_update env t = rt_update ir_isValid ir_targetGuid ir_wish (ir_update env) True t"
  by (simp add: wm_update_def rt_update_def)

lemma wm_add_inv:
  assumes "wm_inv live stale t"
  shows "\<exists>t1. wm_addWish zero g t = Some t1 \<and> wm_inv (if g \<in> stale then live else insert g live) stale t1 \<and> (g \<in> live \<union> stale \<or> rt_isDirty t1)"
proof (cases "g \<in> live \<union> stale")
  case True
  then obtain n r where r: "(n, r) \<in> set (rt_list t)" "ir_targetGuid r = g" using assms by (auto simp: tm_inv_def)
  have "rt_ok ir_isValid ir_targetGuid t" using assms by (simp add: tm_inv_def)
  from ir.get_present [OF this r(1)] have "wm_addWish zero g t = Some t" using r(2) by (simp add: wm_addWish_def)
  then show ?thesis using assms True by (auto simp: insert_absorb)
next
  case False
  let ?r = "ir_new zero g" and ?t = "t\<lparr>rt_isDirty := True\<rparr>"
  have r: "ir_isValid ?r" "ir_good ?r" "ir_targetGuid ?r = g" by (simp_all add: ir_new_def ir_isValid_def ir_good_def)
  obtain t1 where t1: "rt_emplace g ?r ?t = Some t1" "wm_inv (insert g live) stale t1" "rt_getReferenceByTarget g ?t = Some None" "rt_isDirty t1 = rt_isDirty ?t"
    by (rule ir.emplace_inv [OF ir.mark_inv [OF assms] _ _ r(1,2)]) (use r(3) False in auto)
  have "map_option (\<lambda>t1. t1\<lparr>rt_isDirty := True\<rparr>) (rt_emplace g ?r t) = rt_emplace g ?r ?t" by (simp add: rt_emplace_def)
  moreover have "rt_getReferenceByTarget g t = rt_getReferenceByTarget g ?t" by (simp add: rt_getReferenceByTarget_def split: option.split)
  ultimately have "wm_addWish zero g t = Some t1" unfolding wm_addWish_def using t1(1,3) by (simp only: option.case)
  then show ?thesis using t1 False by simp
qed

lemma wm_select_inv:
  assumes "we_ok env" and "wm_inv live stale t"
  obtains res t1 where "wm_getInterestedTarget env can t = Some (res, t1)" "wm_inv live {} t1" "res = None \<longleftrightarrow> \<not> (\<exists>g \<in> live. can g)"
    "rt_isDirty t \<Longrightarrow> \<forall>(n, r) \<in> set (rt_list t1). ir_wish r = wish_value env (ir_targetGuid r)"
    "\<And>g. res = Some g \<Longrightarrow> g \<in> live \<and> can g \<and> (\<exists>(n, r) \<in> set (rt_list t1). ir_target r = Some g
       \<and> (\<forall>(m, s) \<in> set (rt_list t1). can (ir_targetGuid s) \<longrightarrow> ir_wish s \<le> ir_wish r))"
proof -
  obtain t1 where u: "wm_update env t = Some t1" "wm_inv live {} t1" "rank_sorted ir_wish (rt_list t1)"
      "set (rt_list t1) = {(n, if rt_isDirty t then the (ir_update env r) else r) | n r. (n, r) \<in> set (rt_list t) \<and> ir_isValid r}"
    unfolding wm_update_generic by (rule ir.refresh_inv [OF assms(2) ir_update_ok [OF assms(1)], of True])
  obtain res where r: "rt_getTarget ir_isValid ir_target can t1 = Some res" "res = None \<longleftrightarrow> \<not> (\<exists>g \<in> live. can g)"
      and best: "\<And>g. res = Some g \<Longrightarrow> g \<in> live \<and> can g \<and> (\<exists>(n, r) \<in> set (rt_list t1). ir_target r = Some g
       \<and> (\<forall>(m, s) \<in> set (rt_list t1). can (ir_targetGuid s) \<longrightarrow> ir_wish s \<le> ir_wish r))"
    by (rule ir.select_inv [OF u(2,3), where can = can]) blast
  have "wm_getInterestedTarget env can t = Some (res, t1)"
    using u(1) r(1) by (auto simp: wm_getInterestedTarget_def rt_getTarget_def wm_selectNextInterestedRef_def)
  moreover have "\<forall>(n, r) \<in> set (rt_list t1). ir_wish r = wish_value env (ir_targetGuid r)" if "rt_isDirty t"
  proof -
    have "ir_wish (the (ir_update env r)) = wish_value env (ir_targetGuid (the (ir_update env r)))" if m: "(n, r) \<in> set (rt_list t)" "ir_isValid r" for n r
    proof -
      obtain r1 where r1: "ir_update env r = Some r1" "ir_targetGuid r1 = ir_targetGuid r" using ir_update_ok [OF assms(1) m(2)] by blast
      have "ir_target r = Some (ir_targetGuid r)" using m assms(2) by (auto simp: tm_inv_def ir_good_def ir_isValid_def)
      then show ?thesis using ir_update_wish(2) [OF r1(1)] r1 by simp
    qed
    then show ?thesis unfolding u(4) using that by auto
  qed
  ultimately show thesis using that u(2) r(2) best by blast
qed

datatype 'f wish_event = WAdd 'f nat | WGone nat | WSelect "'f wish_env" "nat \<Rightarrow> bool" | WRemoveAll

fun wm_step :: "('f::linorder) wish_event \<Rightarrow> 'f wish_manager \<Rightarrow> 'f wish_manager option" where
  "wm_step (WAdd zero g) t = wm_addWish zero g t"
| "wm_step (WGone g) t = Some (wm_targetGone g t)"
| "wm_step (WSelect env can) t = map_option snd (wm_getInterestedTarget env can t)"
| "wm_step WRemoveAll t = wm_removeAllWishes t"

fun wm_run :: "('f::linorder) wish_event list \<Rightarrow> 'f wish_manager \<Rightarrow> 'f wish_manager option" where
  "wm_run [] t = Some t"
| "wm_run (e # es) t = (case wm_step e t of None \<Rightarrow> None | Some t1 \<Rightarrow> wm_run es t1)"

fun wish_env_ok :: "'f wish_event \<Rightarrow> bool" where
  "wish_env_ok (WSelect env can) = we_ok env"
| "wish_env_ok e = True"

fun wish_track :: "'f wish_event list \<Rightarrow> nat set \<Rightarrow> nat set \<Rightarrow> nat set" where
  \<comment> \<open>the items wished for; one that left is not taken back before the list is used again\<close>
  "wish_track [] live stale = live"
| "wish_track (WAdd zero g # es) live stale = wish_track es (if g \<in> stale then live else insert g live) stale"
| "wish_track (WGone g # es) live stale = wish_track es (live - {g}) (stale \<union> (live \<inter> {g}))"
| "wish_track (WSelect env can # es) live stale = wish_track es live {}"
| "wish_track (WRemoveAll # es) live stale = wish_track es {} {}"

lemma wm_run_track:
  "list_all wish_env_ok es \<Longrightarrow> wm_inv live stale t \<Longrightarrow> \<exists>t1 stale1. wm_run es t = Some t1 \<and> wm_inv (wish_track es live stale) stale1 t1"
proof (induction es arbitrary: live stale t)
  case (Cons e es)
  have step: ?case if "wm_step e t = Some t1" "wish_track (e # es) live stale = wish_track es l s" "wm_inv l s t1" for l s t1
    using Cons.IH [OF _ that(3)] Cons.prems(1) that(1,2) by simp
  show ?case
  proof (cases e)
    case (WAdd zero g)
    obtain t1 where "wm_addWish zero g t = Some t1" "wm_inv (if g \<in> stale then live else insert g live) stale t1"
      using wm_add_inv [OF Cons.prems(2), of zero g] by blast
    then show ?thesis using step [of t1 "if g \<in> stale then live else insert g live" stale] WAdd by simp
  next
    case (WGone g)
    then show ?thesis using step [OF _ _ ir.gone_inv [OF Cons.prems(2)], of g] by (simp add: wm_targetGone_def)
  next
    case (WSelect env can)
    then have ok: "we_ok env" using Cons.prems(1) by simp
    obtain res t1 where "wm_getInterestedTarget env can t = Some (res, t1)" "wm_inv live {} t1" by (rule wm_select_inv [OF ok Cons.prems(2)])
    then show ?thesis using step [of t1 live "{}"] WSelect by simp
  next
    case WRemoveAll
    obtain t1 where "wm_removeAllWishes t = Some t1" "wm_inv {} {} t1"
      using ir.clear_inv [OF Cons.prems(2), of True] unfolding wm_removeAllWishes_def by blast
    then show ?thesis using step [of t1 "{}" "{}"] WRemoveAll by simp
  qed
qed auto

text \<open>
  C36: After any wishes and any items that leave, the assertions of a robot's wish list hold, an item is chosen whenever one of
  those wished for can be collected, and when the list changed since it was last used no item that can be collected has a
  higher priority: first aid goes before equipment, equipment before beans, beans before other consumables and gold.
\<close>
theorem interested_target_is_best:
  assumes "list_all wish_env_ok es" and "we_ok env" and "wish_sum_ok env"
  shows "\<exists>t res t1. wm_run es rt_new = Some t \<and> wm_getInterestedTarget env can t = Some (res, t1)
    \<and> (\<forall>g. wm_isInterestedTarget g t1 = (g \<in> wish_track es {} {}))
    \<and> (case res of None \<Rightarrow> \<forall>g. g \<in> wish_track es {} {} \<longrightarrow> \<not> can g
       | Some g \<Rightarrow> g \<in> wish_track es {} {} \<and> can g \<and> (rt_isDirty t \<longrightarrow> (\<forall>h. h \<in> wish_track es {} {} \<and> can h \<longrightarrow>
           priority_value (fst (wish_rate env h)) \<le> priority_value (fst (wish_rate env g)))))"
proof -
  let ?live = "wish_track es {} {}"
  obtain t stale where t: "wm_run es rt_new = Some t" "wm_inv ?live stale t" using wm_run_track [OF assms(1) ir.new_inv] by blast
  obtain res t1 where s: "wm_getInterestedTarget env can t = Some (res, t1)" "wm_inv ?live {} t1" "res = None \<longleftrightarrow> \<not> (\<exists>g \<in> ?live. can g)"
    and w: "rt_isDirty t \<Longrightarrow> \<forall>(n, r) \<in> set (rt_list t1). ir_wish r = wish_value env (ir_targetGuid r)"
    and best: "\<And>g. res = Some g \<Longrightarrow> g \<in> ?live \<and> can g \<and> (\<exists>(n, r) \<in> set (rt_list t1). ir_target r = Some g
       \<and> (\<forall>(m, s) \<in> set (rt_list t1). can (ir_targetGuid s) \<longrightarrow> ir_wish s \<le> ir_wish r))"
    by (rule wm_select_inv [OF assms(2) t(2), where can = can]) blast
  have keys: "h \<in> ?live \<longleftrightarrow> (\<exists>n r. (n, r) \<in> set (rt_list t1) \<and> ir_targetGuid r = h)" for h using s(2) unfolding tm_inv_def by blast
  have "wm_isInterestedTarget g t1 \<longleftrightarrow> (\<exists>n r. (n, r) \<in> set (rt_list t1) \<and> ir_targetGuid r = g)" for g
    using s(2) by (auto simp: wm_isInterestedTarget_def tm_inv_def rt_ok_def)
  then have iff: "wm_isInterestedTarget g t1 = (g \<in> ?live)" for g using keys by blast
  have "priority_value (fst (wish_rate env h)) \<le> priority_value (fst (wish_rate env g))"
    if a: "res = Some g" "rt_isDirty t" "h \<in> ?live" "can h" for g h
  proof -
    obtain n r where r: "(n, r) \<in> set (rt_list t1)" "ir_target r = Some g" "\<forall>(m, s) \<in> set (rt_list t1). can (ir_targetGuid s) \<longrightarrow> ir_wish s \<le> ir_wish r"
      using best [OF a(1)] by blast
    obtain m x where x: "(m, x) \<in> set (rt_list t1)" "ir_targetGuid x = h" using keys a(3) by blast
    have g: "ir_targetGuid r = g" using r(1,2) s(2) by (auto simp: tm_inv_def ir_good_def)
    have "ir_wish x \<le> ir_wish r" using r(3) x a(4) by auto
    moreover have "ir_wish x = wish_value env h" "ir_wish r = wish_value env g" using w [OF a(2)] r(1) x g by auto
    ultimately have "wish_value env h \<le> wish_value env g" by simp
    then show ?thesis by (rule wish_value_priority [OF assms(2,3)])
  qed
  then show ?thesis using t(1) s(1,3) iff best by (cases res) (auto intro!: exI [of _ t] exI [of _ res] exI [of _ t1])
qed

definition pantry_env :: "int wish_env" where
  \<comment> \<open>items 1 and 2 are first aid and a potion, everything else is a heap of beans\<close>
  "pantry_env = \<lparr>we_items = shop_env, we_item = (\<lambda>g. if g = 1 then (1, 1) else if g = 2 then (2, 1) else (5, int g)), we_sum = (\<lambda>p a b. 10 * p + 9 * a div b)\<rparr>"

lemma pantry_ok: "we_ok pantry_env" "wish_sum_ok pantry_env"
proof -
  show "we_ok pantry_env" by (simp add: we_ok_def pantry_env_def shop_env_def EQUIPMENT_LEVEL_MAX_def)
  have "10 * p + 9 * a div b < 10 * q + 9 * c div d" if "p < q" "0 \<le> a" "a \<le> b" "0 < b" "0 \<le> c" "c \<le> d" "0 < d" for p q a b c d :: int
  proof -
    have "9 * a div b \<le> 9" using that(3,4) zdiv_mono1 [of "9 * a" "9 * b" b] by simp
    moreover have "0 \<le> 9 * c div d" using that(5,7) by (simp add: pos_imp_zdiv_nonneg_iff)
    ultimately show ?thesis using that(1) by linarith
  qed
  then show "wish_sum_ok pantry_env" unfolding wish_sum_ok_def by (simp add: pantry_env_def)
qed

definition pantry_events :: "int wish_event list" where
  "pantry_events = [WAdd 0 2, WAdd 0 1, WSelect pantry_env (\<lambda>g. True), WAdd 0 8, WGone 1]"

lemma pantry_selects: "map_option (\<lambda>t. map_option fst (wm_getInterestedTarget pantry_env (\<lambda>g. True) t)) (wm_run pantry_events rt_new) = Some (Some (Some 8))"
  by code_simp

theorem interested_target_is_best_witness:
  "list_all wish_env_ok pantry_events \<and> wish_track pantry_events {} {} = {2, 8}
   \<and> (\<exists>t t1. wm_run pantry_events rt_new = Some t \<and> wm_getInterestedTarget pantry_env (\<lambda>g. True) t = Some (Some 8, t1)
       \<and> wm_isInterestedTarget 2 t1 \<and> \<not> wm_isInterestedTarget 1 t1)"
proof -
  have ok: "list_all wish_env_ok pantry_events" using pantry_ok by (simp add: pantry_events_def)
  have tr: "wish_track pantry_events {} {} = {2, 8}" by (auto simp: pantry_events_def)
  obtain t res t1 where "wm_run pantry_events rt_new = Some t" "wm_getInterestedTarget pantry_env (\<lambda>g. True) t = Some (res, t1)"
      "\<forall>g. wm_isInterestedTarget g t1 = (g \<in> {2, 8})"
    using interested_target_is_best [OF ok pantry_ok, of "\<lambda>g. True"] tr by auto
  then show ?thesis using ok tr pantry_selects by auto
qed

end
