(* ===== verification/Network_Threads.thy ===== *)
theory Network_Threads
  imports Queues "HOL-Library.Multiset"
begin

text \<open>
  The threads that serve the sockets and the acceptor that feeds them, \<^verbatim>\<open>common/networking/NetworkThread.h\<close>,
  \<^verbatim>\<open>AsyncAcceptor.h\<close> and \<^verbatim>\<open>SocketMgr.h\<close>. The acceptor runs beside the network threads: an operation below is what one of
  them does without another seeing the middle of it, so that the counter of a thread is raised in one operation and the
  socket is queued in the next; the comparison of the counters is one operation. Whether a socket is open, and what Boost.Asio
  reports, are arguments. A socket is a number. Stopping a thread includes waiting for the end of its \<^verbatim>\<open>run\<close>.
\<close>

section \<open>A network thread\<close>

datatype net_event = SocketAdded nat | SocketStarted nat | SocketUpdated nat | SocketRemoved nat

record net_thread =
  nt_connections :: int
  nt_isStopped :: bool
  nt_hasThread :: bool
  nt_timerWaits :: bool
  nt_draining :: bool
  nt_sockets :: "nat list"
  nt_pendingSockets :: "nat concurrent_queue"
  nt_events :: "net_event list"

definition nt_new :: net_thread where
  "nt_new = \<lparr>nt_connections = 0, nt_isStopped = False, nt_hasThread = False, nt_timerWaits = False, nt_draining = False, nt_sockets = [],
     nt_pendingSockets = cq_new, nt_events = []\<rparr>"

definition nt_scheduleUpdateTimer :: "bool \<Rightarrow> net_thread \<Rightarrow> net_thread" where
  "nt_scheduleUpdateTimer ec nt = (if \<not> ec then nt\<lparr>nt_timerWaits := True\<rparr> else nt)"

definition nt_start :: "bool \<Rightarrow> net_thread \<Rightarrow> bool \<times> net_thread" where
  \<comment> \<open>with what the new thread does in \<^verbatim>\<open>run\<close> before it waits for events\<close>
  "nt_start ec nt = (if nt_hasThread nt then (False, nt) else (True, nt_scheduleUpdateTimer ec (nt\<lparr>nt_hasThread := True\<rparr>)))"

definition nt_runEnd :: "net_thread \<Rightarrow> net_thread" where
  "nt_runEnd nt = nt\<lparr>nt_timerWaits := False, nt_draining := False, nt_pendingSockets := cq_clear (nt_pendingSockets nt), nt_sockets := []\<rparr>"

definition nt_stop :: "net_thread \<Rightarrow> net_thread" where
  "nt_stop nt =
     (if nt_isStopped nt then nt
      else let nt1 = nt\<lparr>nt_isStopped := True\<rparr> in if nt_hasThread nt1 then (nt_runEnd nt1)\<lparr>nt_hasThread := False\<rparr> else nt1)"

definition nt_countSocket :: "net_thread \<Rightarrow> net_thread" where
  "nt_countSocket nt = nt\<lparr>nt_connections := i32 (nt_connections nt + 1)\<rparr>"

definition nt_queueSocket :: "nat \<Rightarrow> net_thread \<Rightarrow> net_thread" where
  "nt_queueSocket s nt = nt\<lparr>nt_pendingSockets := cq_add s (nt_pendingSockets nt)\<rparr>"

definition nt_addSocket :: "nat \<Rightarrow> net_thread \<Rightarrow> net_thread" where
  "nt_addSocket s nt = nt_queueSocket s (nt_countSocket nt)"

definition nt_removed :: "nat \<Rightarrow> net_thread \<Rightarrow> net_thread" where
  "nt_removed s nt = nt\<lparr>nt_events := nt_events nt @ [SocketRemoved s], nt_connections := i32 (nt_connections nt - 1)\<rparr>"

definition nt_drainStep :: "(nat \<Rightarrow> bool) \<Rightarrow> net_thread \<Rightarrow> net_thread option" where
  \<comment> \<open>one turn of \<^verbatim>\<open>processPendingSockets\<close>; \<open>None\<close> when the queue is empty\<close>
  "nt_drainStep isOpen nt =
     (case cq_next (nt_pendingSockets nt) of
        (None, q) \<Rightarrow> None
      | (Some s, q) \<Rightarrow>
          let nt1 = nt\<lparr>nt_pendingSockets := q\<rparr>
          in Some (if \<not> isOpen s then nt_removed s nt1
                   else nt1\<lparr>nt_sockets := nt_sockets nt1 @ [s], nt_events := nt_events nt1 @ [SocketAdded s, SocketStarted s]\<rparr>))"

definition nt_updateBegin :: "bool \<Rightarrow> bool \<Rightarrow> net_thread \<Rightarrow> net_thread" where
  \<comment> \<open>\<^verbatim>\<open>update\<close> up to the loop over the pending sockets\<close>
  "nt_updateBegin error ec nt =
     (let nt1 = nt\<lparr>nt_timerWaits := False\<rparr>
      in if error then nt1 else if nt_isStopped nt1 then nt1 else (nt_scheduleUpdateTimer ec nt1)\<lparr>nt_draining := True\<rparr>)"

fun nt_sweepLoop :: "(nat \<Rightarrow> bool) \<Rightarrow> nat list \<Rightarrow> net_thread \<Rightarrow> nat list \<times> net_thread" where
  "nt_sweepLoop isOpen [] nt = ([], nt)"
| "nt_sweepLoop isOpen (s # ss) nt =
     (if isOpen s
      then (case nt_sweepLoop isOpen ss (nt\<lparr>nt_events := nt_events nt @ [SocketUpdated s]\<rparr>) of (kept, nt1) \<Rightarrow> (s # kept, nt1))
      else nt_sweepLoop isOpen ss (nt_removed s nt))"

definition nt_sweep :: "(nat \<Rightarrow> bool) \<Rightarrow> net_thread \<Rightarrow> net_thread" where
  "nt_sweep isOpen nt = (case nt_sweepLoop isOpen (nt_sockets nt) nt of (kept, nt1) \<Rightarrow> nt1\<lparr>nt_sockets := kept, nt_draining := False\<rparr>)"

section \<open>The acceptor and the manager\<close>

record acceptor =
  ac_tcpNoDelay :: bool
  ac_sendBufferSize :: int
  ac_closed :: bool
  ac_accepting :: "nat option"
  ac_adding :: "(nat \<times> nat) option"
    \<comment> \<open>the thread of the accept that waits, and the socket that is counted but not queued\<close>

record socket_mgr =
  sm_acceptor :: "acceptor option"
  sm_threads :: "net_thread list option"
  sm_threadCount :: nat

definition sm_new :: socket_mgr where
  "sm_new = \<lparr>sm_acceptor = None, sm_threads = None, sm_threadCount = 0\<rparr>"

definition ac_new :: "int \<Rightarrow> bool \<Rightarrow> acceptor" where
  "ac_new outKBuff noDelay = \<lparr>ac_tcpNoDelay = noDelay, ac_sendBufferSize = outKBuff, ac_closed = True, ac_accepting = None, ac_adding = None\<rparr>"

record listen_result =
  \<comment> \<open>the error codes, and whether the option is supported\<close>
  lr_open :: bool
  lr_sendBuffer :: bool
  lr_sendBufferSupported :: bool
  lr_noDelay :: bool
  lr_bind :: bool
  lr_listen :: bool

definition ac_setSocketOptions :: "listen_result \<Rightarrow> acceptor \<Rightarrow> bool" where
  "ac_setSocketOptions lr ac =
     (if ac_sendBufferSize ac \<ge> 0 \<and> lr_sendBuffer lr \<and> lr_sendBufferSupported lr then False
      else if ac_tcpNoDelay ac \<and> lr_noDelay lr then False else True)"

definition ac_listen :: "listen_result \<Rightarrow> acceptor \<Rightarrow> bool \<times> acceptor" where
  "ac_listen lr ac =
     (if lr_open lr then (False, ac)
      else if \<not> ac_setSocketOptions lr ac then (False, ac)
      else if lr_bind lr then (False, ac)
      else if lr_listen lr then (False, ac)
      else (True, ac\<lparr>ac_closed := False\<rparr>))"

fun sm_selectLoop :: "(nat \<Rightarrow> int) \<Rightarrow> nat list \<Rightarrow> nat \<Rightarrow> nat" where
  "sm_selectLoop connections [] low = low"
| "sm_selectLoop connections (i # is) low = sm_selectLoop connections is (if connections i < connections low then i else low)"

definition sm_selectThreadWithMinConnections :: "net_thread list \<Rightarrow> nat" where
  "sm_selectThreadWithMinConnections ts = sm_selectLoop (\<lambda>i. nt_connections (ts ! i)) [1..<length ts] 0"

definition ac_accept :: "net_thread list \<Rightarrow> acceptor \<Rightarrow> acceptor" where
  \<comment> \<open>the socket and the thread come from \<^verbatim>\<open>getSocketForAccept\<close>\<close>
  "ac_accept ts ac = ac\<lparr>ac_accepting := Some (sm_selectThreadWithMinConnections ts)\<rparr>"

definition ac_close :: "acceptor \<Rightarrow> acceptor" where
  "ac_close ac = ac\<lparr>ac_closed := True\<rparr>"

datatype start_result = StartAssertion | StartFailed socket_mgr | Started socket_mgr

definition sm_startNetwork :: "bool \<Rightarrow> int \<Rightarrow> listen_result \<Rightarrow> (nat \<Rightarrow> bool) \<Rightarrow> nat \<Rightarrow> socket_mgr \<Rightarrow> start_result" where
  "sm_startNetwork noDelay outKBuff lr ec threadCount sm =
     (if threadCount = 0 then StartAssertion
      else if sm_acceptor sm \<noteq> None then StartAssertion
      else
        (case ac_listen lr (ac_new outKBuff noDelay) of
           (False, ac) \<Rightarrow> StartFailed (sm\<lparr>sm_acceptor := Some ac\<rparr>)
         | (True, ac) \<Rightarrow>
             if sm_threads sm \<noteq> None then StartAssertion
             else
               (let ts = map (\<lambda>i. snd (nt_start (ec i) nt_new)) [0..<threadCount]
                in Started (sm\<lparr>sm_acceptor := Some (ac_accept ts ac), sm_threads := Some ts, sm_threadCount := threadCount\<rparr>))))"

definition sm_stopThreads :: "socket_mgr \<Rightarrow> socket_mgr" where
  "sm_stopThreads sm = (case sm_threads sm of None \<Rightarrow> sm | Some ts \<Rightarrow> sm\<lparr>sm_threads := None, sm_threadCount := 0\<rparr>)"

definition sm_closeAcceptor :: "socket_mgr \<Rightarrow> socket_mgr" where
  "sm_closeAcceptor sm = (case sm_acceptor sm of None \<Rightarrow> sm | Some ac \<Rightarrow> sm\<lparr>sm_acceptor := None\<rparr>)"

definition sm_stopNetwork :: "socket_mgr \<Rightarrow> socket_mgr" where
  "sm_stopNetwork sm = sm_stopThreads (sm_closeAcceptor sm)"

section \<open>The acceptor beside the threads\<close>

type_synonym network = "acceptor \<times> net_thread list \<times> nat"
  \<comment> \<open>the acceptor, the threads and the sockets accepted so far\<close>

datatype net_op =
    OAccepted bool bool
  | OQueue
  | OUpdate nat bool bool
  | ODrain nat "nat \<Rightarrow> bool"
  | OSweep nat "nat \<Rightarrow> bool"

fun net_apply :: "net_op \<Rightarrow> network \<Rightarrow> network option" where
  \<comment> \<open>\<open>None\<close> when it is not the turn of the operation\<close>
  "net_apply (OAccepted error failed) (ac, ts, n) =
     (case ac_accepting ac of
        None \<Rightarrow> None
      | Some i \<Rightarrow>
          let ac1 = ac\<lparr>ac_accepting := None\<rparr>
          in if error \<or> failed then Some (if \<not> ac_closed ac1 then ac_accept ts ac1 else ac1, ts, n)
             else Some (ac1\<lparr>ac_adding := Some (n, i)\<rparr>, ts[i := nt_countSocket (ts ! i)], n + 1))"
| "net_apply OQueue (ac, ts, n) =
     (case ac_adding ac of
        None \<Rightarrow> None
      | Some (s, i) \<Rightarrow>
          let ac1 = ac\<lparr>ac_adding := None\<rparr>; ts1 = ts[i := nt_queueSocket s (ts ! i)]
          in Some (if \<not> ac_closed ac1 then ac_accept ts1 ac1 else ac1, ts1, n))"
| "net_apply (OUpdate i error ec) (ac, ts, n) =
     (if i < length ts \<and> nt_timerWaits (ts ! i) \<and> \<not> nt_draining (ts ! i) then Some (ac, ts[i := nt_updateBegin error ec (ts ! i)], n) else None)"
| "net_apply (ODrain i isOpen) (ac, ts, n) =
     (if i < length ts \<and> nt_draining (ts ! i) then map_option (\<lambda>t. (ac, ts[i := t], n)) (nt_drainStep isOpen (ts ! i)) else None)"
| "net_apply (OSweep i isOpen) (ac, ts, n) =
     (if i < length ts \<and> nt_draining (ts ! i) \<and> nt_drainStep isOpen (ts ! i) = None then Some (ac, ts[i := nt_sweep isOpen (ts ! i)], n) else None)"

fun net_run :: "net_op list \<Rightarrow> network \<Rightarrow> network option" where
  "net_run [] net = Some net"
| "net_run (p # ps) net = (case net_apply p net of None \<Rightarrow> None | Some net1 \<Rightarrow> net_run ps net1)"

section \<open>Invariant\<close>

definition nt_gone :: "net_thread \<Rightarrow> nat list" where
  "nt_gone nt = concat (map (\<lambda>e. case e of SocketRemoved s \<Rightarrow> [s] | _ \<Rightarrow> []) (nt_events nt))"

definition nt_begun :: "net_thread \<Rightarrow> nat list" where
  "nt_begun nt = concat (map (\<lambda>e. case e of SocketStarted s \<Rightarrow> [s] | _ \<Rightarrow> []) (nt_events nt))"

definition nt_here :: "net_thread \<Rightarrow> nat multiset" where
  "nt_here nt = mset (cq_container (nt_pendingSockets nt)) + mset (nt_sockets nt) + mset (nt_gone nt)"

definition ac_flight :: "acceptor \<Rightarrow> nat multiset" where
  "ac_flight ac = (case ac_adding ac of None \<Rightarrow> {#} | Some (s, i) \<Rightarrow> {#s#})"

definition nt_held :: "acceptor \<Rightarrow> nat \<Rightarrow> net_thread \<Rightarrow> int" where
  "nt_held ac i nt = int (length (cq_container (nt_pendingSockets nt))) + int (length (nt_sockets nt))
     + (case ac_adding ac of None \<Rightarrow> 0 | Some (s, j) \<Rightarrow> if j = i then 1 else 0)"

definition nt_ok :: "net_thread \<Rightarrow> bool" where
  "nt_ok nt \<longleftrightarrow> distinct (nt_begun nt) \<and> set (nt_sockets nt) \<subseteq> set (nt_begun nt) \<and> set (nt_begun nt) \<subseteq> set (nt_sockets nt) \<union> set (nt_gone nt)"

definition net_ok :: "network \<Rightarrow> bool" where
  "net_ok net \<longleftrightarrow> (case net of (ac, ts, n) \<Rightarrow>
     ac_flight ac + sum_list (map nt_here ts) = mset [0..<n]
     \<and> (\<forall>i < length ts. nt_connections (ts ! i) = nt_held ac i (ts ! i) \<and> nt_ok (ts ! i))
     \<and> (\<forall>i. ac_accepting ac = Some i \<longrightarrow> i < length ts \<and> ac_adding ac = None)
     \<and> (\<forall>s i. ac_adding ac = Some (s, i) \<longrightarrow> i < length ts \<and> ac_accepting ac = None))"

lemma nt_log [simp]:
  "nt_gone (nt\<lparr>nt_events := es @ [SocketRemoved s]\<rparr>) = nt_gone (nt\<lparr>nt_events := es\<rparr>) @ [s]"
  "nt_gone (nt\<lparr>nt_events := es @ [SocketUpdated s]\<rparr>) = nt_gone (nt\<lparr>nt_events := es\<rparr>)"
  "nt_gone (nt\<lparr>nt_events := es @ [SocketAdded s, SocketStarted s]\<rparr>) = nt_gone (nt\<lparr>nt_events := es\<rparr>)"
  "nt_begun (nt\<lparr>nt_events := es @ [SocketRemoved s]\<rparr>) = nt_begun (nt\<lparr>nt_events := es\<rparr>)"
  "nt_begun (nt\<lparr>nt_events := es @ [SocketUpdated s]\<rparr>) = nt_begun (nt\<lparr>nt_events := es\<rparr>)"
  "nt_begun (nt\<lparr>nt_events := es @ [SocketAdded s, SocketStarted s]\<rparr>) = nt_begun (nt\<lparr>nt_events := es\<rparr>) @ [s]"
  by (simp_all add: nt_gone_def nt_begun_def)

lemma nt_log_cong: "nt_events nt1 = nt_events nt \<Longrightarrow> nt_gone nt1 = nt_gone nt" "nt_events nt1 = nt_events nt \<Longrightarrow> nt_begun nt1 = nt_begun nt"
  by (simp_all add: nt_gone_def nt_begun_def)

lemma nt_removed_log [simp]: "nt_gone (nt_removed s nt) = nt_gone nt @ [s]" "nt_begun (nt_removed s nt) = nt_begun nt"
  by (simp_all add: nt_removed_def nt_gone_def nt_begun_def)

lemma nt_removed_fields [simp]: "nt_pendingSockets (nt_removed s nt) = nt_pendingSockets nt" "nt_sockets (nt_removed s nt) = nt_sockets nt"
  "nt_connections (nt_removed s nt) = i32 (nt_connections nt - 1)"
  by (simp_all add: nt_removed_def)

lemma nt_sweepLoop_result:
  assumes "nt_sweepLoop isOpen ss nt = (kept, nt1)" and "int (length ss) \<le> nt_connections nt" and "nt_connections nt \<le> 2147483647"
  shows "kept = filter isOpen ss \<and> nt_pendingSockets nt1 = nt_pendingSockets nt \<and> nt_begun nt1 = nt_begun nt
    \<and> nt_gone nt1 = nt_gone nt @ filter (\<lambda>s. \<not> isOpen s) ss \<and> nt_connections nt1 = nt_connections nt - int (length (filter (\<lambda>s. \<not> isOpen s) ss))"
  using assms
proof (induction ss arbitrary: nt kept)
  case (Cons s ss)
  show ?case
  proof (cases "isOpen s")
    case True
    let ?nt = "nt\<lparr>nt_events := nt_events nt @ [SocketUpdated s]\<rparr>"
    obtain kept2 where k: "nt_sweepLoop isOpen ss ?nt = (kept2, nt1)" "kept = s # kept2"
      using Cons.prems(1) True by (auto split: prod.splits)
    from Cons.IH [OF k(1)] Cons.prems(2,3) show ?thesis using True k(2) by simp
  next
    case False
    then have k: "nt_sweepLoop isOpen ss (nt_removed s nt) = (kept, nt1)" using Cons.prems(1) by simp
    have "i32 (nt_connections nt - 1) = nt_connections nt - 1" using Cons.prems(2,3) by (intro i32_nonneg) auto
    then show ?thesis using Cons.IH [OF k] Cons.prems(2,3) False by simp
  qed
qed simp

lemma mset_filter_split: "mset (filter P xs) + mset (filter (\<lambda>x. \<not> P x) xs) = mset xs"
  by (induction xs) auto

lemma length_filter_split: "length (filter P xs) + length (filter (\<lambda>x. \<not> P x) xs) = length xs"
  by (induction xs) auto

lemma nt_sweep_ok:
  assumes "nt_connections nt = nt_held ac i nt" and "nt_held ac i nt \<le> 2147483647" and "nt_ok nt"
  shows "nt_here (nt_sweep isOpen nt) = nt_here nt" and "nt_connections (nt_sweep isOpen nt) = nt_held ac i (nt_sweep isOpen nt)"
    and "nt_ok (nt_sweep isOpen nt)" and "nt_sockets (nt_sweep isOpen nt) = filter isOpen (nt_sockets nt)"
    and "set (nt_gone nt) \<subseteq> set (nt_gone (nt_sweep isOpen nt))"
proof -
  obtain kept nt1 where k: "nt_sweepLoop isOpen (nt_sockets nt) nt = (kept, nt1)" by force
  have "int (length (nt_sockets nt)) \<le> nt_connections nt" using assms(1) by (auto simp: nt_held_def split: option.splits)
  from nt_sweepLoop_result [OF k this] assms(1,2)
  have r: "kept = filter isOpen (nt_sockets nt)" "nt_pendingSockets nt1 = nt_pendingSockets nt" "nt_begun nt1 = nt_begun nt"
      "nt_gone nt1 = nt_gone nt @ filter (\<lambda>s. \<not> isOpen s) (nt_sockets nt)"
      "nt_connections nt1 = nt_connections nt - int (length (filter (\<lambda>s. \<not> isOpen s) (nt_sockets nt)))" by simp_all
  have s: "nt_sweep isOpen nt = nt1\<lparr>nt_sockets := kept, nt_draining := False\<rparr>" using k by (simp add: nt_sweep_def)
  have l: "nt_gone (nt_sweep isOpen nt) = nt_gone nt1" "nt_begun (nt_sweep isOpen nt) = nt_begun nt1"
    by (simp_all add: s nt_gone_def nt_begun_def)
  show "nt_here (nt_sweep isOpen nt) = nt_here nt"
    using mset_filter_split [of isOpen "nt_sockets nt"] by (simp add: nt_here_def l r(4)) (simp add: s r(1,2))
  have "length (filter isOpen (nt_sockets nt)) + length (filter (\<lambda>s. \<not> isOpen s) (nt_sockets nt)) = length (nt_sockets nt)"
    by (rule length_filter_split)
  then show "nt_connections (nt_sweep isOpen nt) = nt_held ac i (nt_sweep isOpen nt)"
    using assms(1) r by (auto simp: s nt_held_def)
  show "nt_ok (nt_sweep isOpen nt)" using assms(3) r(1) by (auto simp: nt_ok_def l r(3,4)) (auto simp: s)
  show "nt_sockets (nt_sweep isOpen nt) = filter isOpen (nt_sockets nt)" by (simp add: s r(1))
  show "set (nt_gone nt) \<subseteq> set (nt_gone (nt_sweep isOpen nt))" by (simp add: l r(4))
qed

lemma nt_drain_ok:
  assumes "nt_drainStep isOpen nt = Some nt1" and "nt_connections nt = nt_held ac i nt" and "nt_held ac i nt \<le> 2147483647" and "nt_ok nt"
    and "\<And>s. count (nt_here nt) s \<le> 1"
  shows "nt_here nt1 = nt_here nt" and "nt_connections nt1 = nt_held ac i nt1" and "nt_ok nt1" and "set (nt_gone nt) \<subseteq> set (nt_gone nt1)"
proof -
  obtain s xs where q: "cq_container (nt_pendingSockets nt) = s # xs" using assms(1) by (auto simp: nt_drainStep_def cq_next_def split: list.splits)
  let ?nt = "nt\<lparr>nt_pendingSockets := (nt_pendingSockets nt)\<lparr>cq_container := xs\<rparr>\<rparr>"
  have n: "nt1 = (if \<not> isOpen s then nt_removed s ?nt
      else ?nt\<lparr>nt_sockets := nt_sockets nt @ [s], nt_events := nt_events nt @ [SocketAdded s, SocketStarted s]\<rparr>)"
    using assms(1) q by (auto simp: nt_drainStep_def cq_next_def Let_def)
  have c: "1 \<le> nt_connections nt" using assms(2) q by (auto simp: nt_held_def split: option.splits)
  have i: "i32 (nt_connections nt - 1) = nt_connections nt - 1" using c assms(2,3) by (intro i32_nonneg) auto
  have "count (nt_here nt) s \<le> 1" by (rule assms(5))
  then have new: "s \<notin> set (nt_sockets nt)" "s \<notin> set (nt_gone nt)" using q by (auto simp: nt_here_def simp flip: count_greater_zero_iff)
  then have nb: "s \<notin> set (nt_begun nt)" using assms(4) by (auto simp: nt_ok_def)
  have log: "nt_gone ?nt = nt_gone nt" "nt_begun ?nt = nt_begun nt" by (simp_all add: nt_gone_def nt_begun_def)
  have log1: "nt_gone nt1 = (if isOpen s then nt_gone nt else nt_gone nt @ [s])" "nt_begun nt1 = (if isOpen s then nt_begun nt @ [s] else nt_begun nt)"
    by (auto simp: n log) (simp_all add: nt_gone_def nt_begun_def)
  show "nt_here nt1 = nt_here nt" using q by (simp add: nt_here_def log1) (simp add: n)
  show "nt_connections nt1 = nt_held ac i nt1" using assms(2) q i by (auto simp: n nt_held_def split: option.splits)
  show "nt_ok nt1" using assms(4) nb by (auto simp: nt_ok_def log1) (auto simp: n split: if_splits)
  show "set (nt_gone nt) \<subseteq> set (nt_gone nt1)" by (auto simp: log1)
qed

lemma sum_list_put:
  "i < length ts \<Longrightarrow> sum_list (map f (ts[i := t])) + f (ts ! i) = sum_list (map f ts) + (f t :: 'a multiset)"
proof (induction ts arbitrary: i)
  case (Cons x ts)
  then show ?case by (cases i) (simp_all add: add.commute add.left_commute)
qed simp

lemma nt_here_part: "i < length ts \<Longrightarrow> nt_here (ts ! i) \<subseteq># sum_list (map nt_here ts)"
proof (induction ts arbitrary: i)
  case (Cons x ts)
  then show ?case by (cases i) (auto simp: subset_mset.add_increasing)
qed simp

lemma net_ok_thread:
  assumes "net_ok (ac, ts, n)" and "i < length ts" and "nt_here t = nt_here (ts ! i)" and "nt_connections t = nt_held ac i t" and "nt_ok t"
  shows "net_ok (ac, ts[i := t], n)"
proof -
  have "sum_list (map nt_here (ts[i := t])) = sum_list (map nt_here ts)" using sum_list_put [OF assms(2), of nt_here t] assms(3) by simp
  then show ?thesis using assms by (auto simp: net_ok_def nth_list_update)
qed

lemma net_ok_count:
  assumes "net_ok (ac, ts, n)" and "i < length ts"
  shows "count (nt_here (ts ! i)) s \<le> 1" and "nt_held ac i (ts ! i) \<le> int n"
proof -
  have m: "ac_flight ac + sum_list (map nt_here ts) = mset [0..<n]" using assms(1) by (simp add: net_ok_def)
  have sub: "nt_here (ts ! i) \<subseteq># mset [0..<n]" using nt_here_part [OF assms(2)] unfolding m [symmetric] by (simp add: subset_mset.add_increasing)
  have "count (mset [0..<n]) s \<le> 1" using distinct_count_atmost_1 [of "[0..<n]"] by (auto simp del: upt_conv_Cons)
  then show "count (nt_here (ts ! i)) s \<le> 1" using mset_subset_eq_count [OF sub, of s] by linarith
  have "ac_flight ac + nt_here (ts ! i) \<subseteq># mset [0..<n]" using nt_here_part [OF assms(2)] unfolding m [symmetric] by simp
  from size_mset_mono [OF this] have "size (ac_flight ac) + size (nt_here (ts ! i)) \<le> n" by simp
  then show "nt_held ac i (ts ! i) \<le> int n" by (auto simp: nt_held_def nt_here_def ac_flight_def split: option.splits if_splits)
qed

lemma sm_selectLoop_min:
  "sm_selectLoop c is low \<in> insert low (set is) \<and> c (sm_selectLoop c is low) \<le> c low \<and> (\<forall>i\<in>set is. c (sm_selectLoop c is low) \<le> c i)"
proof (induction "is" arbitrary: low)
  case (Cons j js)
  show ?case using Cons.IH [of "if c j < c low then j else low"] by (cases "c j < c low") auto
qed simp

lemma sm_select_min:
  assumes "ts \<noteq> []"
  shows "sm_selectThreadWithMinConnections ts < length ts"
    and "i < length ts \<Longrightarrow> nt_connections (ts ! sm_selectThreadWithMinConnections ts) \<le> nt_connections (ts ! i)"
  using assms sm_selectLoop_min [of "\<lambda>i. nt_connections (ts ! i)" "[1..<length ts]" 0]
  by (cases i; auto simp: sm_selectThreadWithMinConnections_def)+

lemma net_ok_accept: "net_ok (ac, ts, n) \<Longrightarrow> ac_adding ac = None \<Longrightarrow> ts \<noteq> [] \<Longrightarrow> net_ok (ac_accept ts ac, ts, n)"
  using sm_select_min(1) [of ts] by (simp add: net_ok_def ac_accept_def ac_flight_def nt_held_def)

lemma nt_held_idle: "ac_adding ac1 = ac_adding ac \<Longrightarrow> nt_held ac1 i nt = nt_held ac i nt"
  by (simp add: nt_held_def)

lemma net_accepted_ok:
  assumes "net_ok (ac, ts, n)" and "ac_accepting ac = Some i" and "n < 2147483647"
  shows "net_ok (ac\<lparr>ac_accepting := None, ac_adding := Some (n, i)\<rparr>, ts[i := nt_countSocket (ts ! i)], n + 1)"
proof -
  let ?ac = "ac\<lparr>ac_accepting := None, ac_adding := Some (n, i)\<rparr>" and ?t = "nt_countSocket (ts ! i)"
  have i: "i < length ts" "ac_adding ac = None" using assms(1,2) by (auto simp: net_ok_def)
  have h: "nt_here ?t = nt_here (ts ! i)" "nt_ok ?t = nt_ok (ts ! i)"
    by (simp_all add: nt_here_def nt_ok_def nt_countSocket_def nt_gone_def nt_begun_def)
  have "sum_list (map nt_here (ts[i := ?t])) = sum_list (map nt_here ts)" using sum_list_put [OF i(1), of nt_here ?t] h(1) by simp
  then have m: "ac_flight ?ac + sum_list (map nt_here (ts[i := ?t])) = mset [0..<n + 1]"
    using assms(1) i(2) by (simp add: net_ok_def ac_flight_def)
  have le: "nt_held ac i (ts ! i) \<le> int n" by (rule net_ok_count(2) [OF assms(1) i(1)])
  have c: "nt_connections (ts ! i) = nt_held ac i (ts ! i)" using assms(1) i(1) by (simp add: net_ok_def)
  have "0 \<le> nt_held ac i (ts ! i)" by (simp add: nt_held_def split: option.split)
  then have "i32 (nt_connections (ts ! i) + 1) = nt_connections (ts ! i) + 1" using le c assms(3) by (intro i32_nonneg) auto
  then have "nt_connections ?t = nt_held ?ac i ?t" using c i(2) by (simp add: nt_countSocket_def nt_held_def)
  moreover have "nt_connections (ts ! j) = nt_held ?ac j (ts ! j)" if "j < length ts" "j \<noteq> i" for j
    using that assms(1) i(2) by (simp add: net_ok_def nt_held_def)
  ultimately show ?thesis using m assms(1) i(1) h(2) by (auto simp: net_ok_def nth_list_update atLeast0_lessThan_Suc)
qed

lemma net_queue_ok:
  assumes "net_ok (ac, ts, n)" and "ac_adding ac = Some (s, i)"
  shows "net_ok (ac\<lparr>ac_adding := None\<rparr>, ts[i := nt_queueSocket s (ts ! i)], n)"
proof -
  let ?ac = "ac\<lparr>ac_adding := None\<rparr>" and ?t = "nt_queueSocket s (ts ! i)"
  have i: "i < length ts" "ac_accepting ac = None" using assms by (auto simp: net_ok_def)
  have h: "nt_here ?t = add_mset s (nt_here (ts ! i))" "nt_ok ?t = nt_ok (ts ! i)"
    by (simp_all add: nt_here_def nt_ok_def nt_queueSocket_def cq_add_def nt_gone_def nt_begun_def)
  have "sum_list (map nt_here (ts[i := ?t])) = add_mset s (sum_list (map nt_here ts))"
    using sum_list_put [OF i(1), of nt_here ?t] h(1) by simp
  then have m: "ac_flight ?ac + sum_list (map nt_here (ts[i := ?t])) = mset [0..<n]"
    using assms by (simp add: net_ok_def ac_flight_def)
  have "nt_connections ?t = nt_held ?ac i ?t"
    using assms i(1) by (simp add: net_ok_def nt_queueSocket_def nt_held_def cq_add_def)
  moreover have "nt_connections (ts ! j) = nt_held ?ac j (ts ! j)" if "j < length ts" "j \<noteq> i" for j
    using that assms by (simp add: net_ok_def nt_held_def)
  ultimately show ?thesis using m assms(1) i h(2) by (auto simp: net_ok_def nth_list_update)
qed

lemma net_apply_ok:
  assumes "net_ok (ac, ts, n)" and "ts \<noteq> []" and "n < 2147483647" and "net_apply p (ac, ts, n) = Some (ac1, ts1, n1)"
  shows "net_ok (ac1, ts1, n1) \<and> ts1 \<noteq> [] \<and> n1 \<le> n + 1"
proof (cases p)
  case (OAccepted error failed)
  obtain i where i: "ac_accepting ac = Some i" using assms(4) OAccepted by (auto split: option.splits)
  have idle: "ac_adding ac = None" using assms(1) i by (simp add: net_ok_def)
  have "net_ok (ac\<lparr>ac_accepting := None\<rparr>, ts, n)" using assms(1) idle by (simp add: net_ok_def ac_flight_def nt_held_def)
  then show ?thesis
    using assms OAccepted i idle net_accepted_ok [OF assms(1) i assms(3)] net_ok_accept [of "ac\<lparr>ac_accepting := None\<rparr>" ts n]
    by (auto simp: Let_def split: if_splits)
next
  case OQueue
  obtain s i where i: "ac_adding ac = Some (s, i)" using assms(4) OQueue by (auto split: option.splits)
  have "net_ok (ac\<lparr>ac_adding := None\<rparr>, ts[i := nt_queueSocket s (ts ! i)], n)" by (rule net_queue_ok [OF assms(1) i])
  then show ?thesis
    using assms(2,4) OQueue i net_ok_accept [of "ac\<lparr>ac_adding := None\<rparr>" "ts[i := nt_queueSocket s (ts ! i)]" n]
    by (auto simp: Let_def split: if_splits)
next
  case (OUpdate i error ec)
  have i: "i < length ts" and r: "ac1 = ac" "ts1 = ts[i := nt_updateBegin error ec (ts ! i)]" "n1 = n"
    using assms(4) OUpdate by (auto split: if_splits)
  let ?t = "nt_updateBegin error ec (ts ! i)"
  have f: "nt_connections ?t = nt_connections (ts ! i)" "nt_pendingSockets ?t = nt_pendingSockets (ts ! i)" "nt_sockets ?t = nt_sockets (ts ! i)"
      "nt_gone ?t = nt_gone (ts ! i)" "nt_begun ?t = nt_begun (ts ! i)"
    by (simp_all add: nt_updateBegin_def nt_scheduleUpdateTimer_def nt_gone_def nt_begun_def Let_def)
  have "net_ok (ac, ts[i := ?t], n)"
    by (rule net_ok_thread [OF assms(1) i]) (use assms(1) i in \<open>auto simp: f nt_here_def net_ok_def nt_held_def nt_ok_def\<close>)
  then show ?thesis using r assms(2) by simp
next
  case (ODrain i isOpen)
  obtain t where i: "i < length ts" and t: "nt_drainStep isOpen (ts ! i) = Some t" and r: "ac1 = ac" "ts1 = ts[i := t]" "n1 = n"
    using assms(4) ODrain by (auto split: if_splits)
  have c: "nt_connections (ts ! i) = nt_held ac i (ts ! i)" "nt_ok (ts ! i)" "nt_held ac i (ts ! i) \<le> 2147483647"
    using assms(1,3) i net_ok_count(2) [OF assms(1) i] by (simp_all add: net_ok_def)
  note d = nt_drain_ok [OF t c(1,3,2) net_ok_count(1) [OF assms(1) i]]
  show ?thesis using net_ok_thread [OF assms(1) i d(1-3)] r assms(2) by simp
next
  case (OSweep i isOpen)
  have i: "i < length ts" and r: "ac1 = ac" "ts1 = ts[i := nt_sweep isOpen (ts ! i)]" "n1 = n"
    using assms(4) OSweep by (auto split: if_splits)
  have c: "nt_connections (ts ! i) = nt_held ac i (ts ! i)" "nt_ok (ts ! i)" "nt_held ac i (ts ! i) \<le> 2147483647"
    using assms(1,3) i net_ok_count(2) [OF assms(1) i] by (simp_all add: net_ok_def)
  note d = nt_sweep_ok [OF c(1,3,2), of isOpen]
  show ?thesis using net_ok_thread [OF assms(1) i d(1-3)] r assms(2) by simp
qed

definition net_balanced :: "network \<Rightarrow> bool" where
  \<comment> \<open>as long as no socket was removed, the threads have the same number of connections, up to one\<close>
  "net_balanced net \<longleftrightarrow> (case net of (ac, ts, n) \<Rightarrow> (\<forall>t \<in> set ts. nt_gone t = []) \<longrightarrow>
     (\<forall>i < length ts. \<forall>j < length ts. nt_connections (ts ! i) \<le> nt_connections (ts ! j) + 1)
     \<and> (\<forall>i. ac_accepting ac = Some i \<longrightarrow> (\<forall>j < length ts. nt_connections (ts ! i) \<le> nt_connections (ts ! j))))"

lemma net_balanced_frame:
  assumes "net_balanced (ac, ts, n)" and "i < length ts" and "set (nt_gone (ts ! i)) \<subseteq> set (nt_gone t)"
    and "nt_gone t = [] \<Longrightarrow> nt_connections t = nt_connections (ts ! i)" and "ac_accepting ac1 \<in> {None, ac_accepting ac}"
  shows "net_balanced (ac1, ts[i := t], n1)"
proof (cases "\<forall>u \<in> set (ts[i := t]). nt_gone u = []")
  case True
  have t: "nt_gone t = []" using True assms(2) set_update_memI [of i ts t] by blast
  have "nt_gone u = []" if u: "u \<in> set ts" for u
  proof -
    obtain j where j: "j < length ts" "u = ts ! j" using u by (auto simp: in_set_conv_nth)
    show ?thesis
    proof (cases "j = i")
      case False
      then have "ts[i := t] ! j = u" using j by simp
      then show ?thesis using True j(1) by (metis length_list_update nth_mem)
    qed (use t assms(3) j in simp)
  qed
  then have "\<forall>u \<in> set ts. nt_gone u = []" by blast
  moreover have "nt_connections (ts[i := t] ! j) = nt_connections (ts ! j)" for j using assms(2,4) t by (cases "j = i") simp_all
  ultimately show ?thesis using assms(1,5) by (auto simp: net_balanced_def)
next
  case False
  then show ?thesis unfolding net_balanced_def by blast
qed

lemma net_balanced_accept:
  assumes "net_balanced (ac, ts, n)" and "ts \<noteq> []"
  shows "net_balanced (ac_accept ts ac, ts, n)"
  using assms sm_select_min [of ts] by (auto simp: net_balanced_def ac_accept_def)

lemma net_apply_balanced:
  assumes "net_ok (ac, ts, n)" and "ts \<noteq> []" and "n < 2147483647" and "net_apply p (ac, ts, n) = Some (ac1, ts1, n1)" and "net_balanced (ac, ts, n)"
  shows "net_balanced (ac1, ts1, n1)"
proof (cases p)
  case (OAccepted error failed)
  obtain i where i: "ac_accepting ac = Some i" using assms(4) OAccepted by (auto split: option.splits)
  have il: "i < length ts" using assms(1) i by (simp add: net_ok_def)
  show ?thesis
  proof (cases "error \<or> failed")
    case True
    have "net_balanced (ac\<lparr>ac_accepting := None\<rparr>, ts, n)" using assms(5) by (auto simp: net_balanced_def)
    then show ?thesis using True assms(2,4) OAccepted i net_balanced_accept by (auto simp: Let_def split: if_splits)
  next
    case False
    let ?t = "nt_countSocket (ts ! i)"
    have r: "ac1 = ac\<lparr>ac_accepting := None, ac_adding := Some (n, i)\<rparr>" "ts1 = ts[i := ?t]" "n1 = n + 1"
      using False assms(4) OAccepted i by (simp_all add: Let_def)
    have c: "nt_connections (ts ! i) = nt_held ac i (ts ! i)" "nt_held ac i (ts ! i) \<le> int n"
      using assms(1) il net_ok_count(2) [OF assms(1) il] by (simp_all add: net_ok_def)
    have "0 \<le> nt_held ac i (ts ! i)" by (simp add: nt_held_def split: option.split)
    then have t: "nt_connections ?t = nt_connections (ts ! i) + 1" using c assms(3) by (simp add: nt_countSocket_def i32_nonneg)
    have g: "nt_gone ?t = nt_gone (ts ! i)" by (simp add: nt_countSocket_def nt_gone_def)
    have "nt_gone u = []" if u: "u \<in> set ts" "\<forall>u \<in> set ts1. nt_gone u = []" for u
    proof -
      obtain j where "j < length ts" "u = ts ! j" using u(1) by (auto simp: in_set_conv_nth)
      then show ?thesis using u(2) il g by (cases "j = i") (auto simp: r(2) all_set_conv_all_nth)
    qed
    then have all: "\<forall>u \<in> set ts. nt_gone u = []" if "\<forall>u \<in> set ts1. nt_gone u = []" using that by blast
    have "nt_connections (ts1 ! j) \<le> nt_connections (ts1 ! k) + 1" if g: "\<forall>u \<in> set ts1. nt_gone u = []" "j < length ts" "k < length ts" for j k
    proof -
      have "nt_connections (ts ! j) \<le> nt_connections (ts ! k) + 1" "nt_connections (ts ! i) \<le> nt_connections (ts ! k)"
          "nt_connections (ts ! j) \<le> nt_connections (ts ! i) + 1"
        using all [OF g(1)] assms(5) i il g(2,3) unfolding net_balanced_def by auto
      then show ?thesis by (cases "j = i"; cases "k = i") (simp_all add: r(2) t il)
    qed
    then show ?thesis by (simp add: net_balanced_def r(1)) (simp add: r(2))
  qed
next
  case OQueue
  obtain s i where i: "ac_adding ac = Some (s, i)" using assms(4) OQueue by (auto split: option.splits)
  have il: "i < length ts" "ac_accepting ac = None" using assms(1) i by (simp_all add: net_ok_def)
  have "net_balanced (ac\<lparr>ac_adding := None\<rparr>, ts[i := nt_queueSocket s (ts ! i)], n)"
    by (rule net_balanced_frame [OF assms(5) il(1)]) (simp_all add: nt_queueSocket_def nt_gone_def)
  then show ?thesis using assms(2,4) OQueue i net_balanced_accept by (auto simp: Let_def split: if_splits)
next
  case (OUpdate i error ec)
  then have i: "i < length ts" and r: "ac1 = ac" "ts1 = ts[i := nt_updateBegin error ec (ts ! i)]"
    using assms(4) by (auto split: if_splits)
  show ?thesis unfolding r
    by (rule net_balanced_frame [OF assms(5) i]) (simp_all add: nt_updateBegin_def nt_scheduleUpdateTimer_def nt_gone_def Let_def)
next
  case (ODrain i isOpen)
  obtain t where i: "i < length ts" and t: "nt_drainStep isOpen (ts ! i) = Some t" and r: "ac1 = ac" "ts1 = ts[i := t]"
    using assms(4) ODrain by (auto split: if_splits)
  have "set (nt_gone (ts ! i)) \<subseteq> set (nt_gone t) \<and> (nt_gone t = [] \<longrightarrow> nt_connections t = nt_connections (ts ! i))"
    using t by (auto simp: nt_drainStep_def Let_def cq_next_def split: list.splits if_splits) (simp_all add: nt_gone_def)
  then show ?thesis unfolding r using net_balanced_frame [OF assms(5) i, of t ac n1] by simp
next
  case (OSweep i isOpen)
  have i: "i < length ts" and r: "ac1 = ac" "ts1 = ts[i := nt_sweep isOpen (ts ! i)]" using assms(4) OSweep by (auto split: if_splits)
  have c: "nt_connections (ts ! i) = nt_held ac i (ts ! i)" "nt_ok (ts ! i)" "nt_held ac i (ts ! i) \<le> 2147483647"
    using assms(1,3) i net_ok_count(2) [OF assms(1) i] by (simp_all add: net_ok_def)
  note d = nt_sweep_ok [OF c(1,3,2), of isOpen]
  have "nt_connections (nt_sweep isOpen (ts ! i)) = nt_connections (ts ! i)" if g: "nt_gone (nt_sweep isOpen (ts ! i)) = []"
  proof -
    have "nt_gone (ts ! i) = []" using d(5) g by simp
    then have "mset (cq_container (nt_pendingSockets (nt_sweep isOpen (ts ! i)))) + mset (nt_sockets (nt_sweep isOpen (ts ! i)))
        = mset (cq_container (nt_pendingSockets (ts ! i))) + mset (nt_sockets (ts ! i))" using d(1) g by (simp add: nt_here_def)
    from arg_cong [OF this, of size] show ?thesis using d(2) c(1) by (simp add: nt_held_def)
  qed
  then show ?thesis unfolding r using net_balanced_frame [OF assms(5) i d(5)] by simp
qed

lemma net_run_ok:
  assumes "net_ok (ac, ts, n)" and "ts \<noteq> []" and "n + length ps < 2147483648" and "net_balanced (ac, ts, n)" and "net_run ps (ac, ts, n) = Some (ac1, ts1, n1)"
  shows "net_ok (ac1, ts1, n1) \<and> net_balanced (ac1, ts1, n1) \<and> n1 \<le> n + length ps"
  using assms
proof (induction ps arbitrary: ac ts n)
  case (Cons p ps)
  obtain ac2 ts2 n2 where s: "net_apply p (ac, ts, n) = Some (ac2, ts2, n2)" "net_run ps (ac2, ts2, n2) = Some (ac1, ts1, n1)"
    using Cons.prems(5) by (auto split: option.splits)
  have n: "n < 2147483647" using Cons.prems(3) by simp
  have o: "net_ok (ac2, ts2, n2)" "ts2 \<noteq> []" "n2 \<le> n + 1" using net_apply_ok [OF Cons.prems(1,2) n s(1)] by simp_all
  have "n2 + length ps < 2147483648" using o(3) Cons.prems(3) by simp
  from Cons.IH [OF o(1,2) this net_apply_balanced [OF Cons.prems(1,2) n s(1) Cons.prems(4)] s(2)] show ?case using o(3) by simp
qed simp

lemma net_apply_threads: "net_apply p (ac, ts, n) = Some (ac1, ts1, n1) \<Longrightarrow> length ts1 = length ts"
  by (cases p) (auto simp: Let_def split: option.splits if_splits)

lemma net_run_threads: "net_run ps (ac, ts, n) = Some (ac1, ts1, n1) \<Longrightarrow> length ts1 = length ts"
proof (induction ps arbitrary: ac ts n)
  case (Cons p ps)
  obtain ac2 ts2 n2 where s: "net_apply p (ac, ts, n) = Some (ac2, ts2, n2)" "net_run ps (ac2, ts2, n2) = Some (ac1, ts1, n1)"
    using Cons.prems by (auto split: option.splits)
  show ?case using Cons.IH [OF s(2)] net_apply_threads [OF s(1)] by simp
qed simp

lemma nt_started: "nt_connections (snd (nt_start ec nt_new)) = 0" "nt_sockets (snd (nt_start ec nt_new)) = []"
    "nt_pendingSockets (snd (nt_start ec nt_new)) = cq_new" "nt_events (snd (nt_start ec nt_new)) = []"
  by (simp_all add: nt_start_def nt_new_def nt_scheduleUpdateTimer_def)

lemma sum_list_zero: "(\<And>x. x \<in> set xs \<Longrightarrow> f x = {#}) \<Longrightarrow> sum_list (map f xs) = {#}"
  by (induction xs) auto

lemma sm_started:
  assumes "sm_startNetwork noDelay outKBuff lr ec threadCount sm_new = Started sm" and "sm_acceptor sm = Some ac" and "sm_threads sm = Some ts"
  shows "length ts = threadCount" and "ts \<noteq> []" and "net_ok (ac, ts, 0)" and "net_balanced (ac, ts, 0)"
proof -
  let ?ts = "map (\<lambda>i. snd (nt_start (ec i) nt_new)) [0..<threadCount]"
  have c: "threadCount \<noteq> 0" and ts: "ts = ?ts" and ac: "\<exists>ac1. ac = ac_accept ?ts ac1 \<and> ac_adding ac1 = None"
    using assms by (auto simp: sm_startNetwork_def sm_new_def ac_listen_def ac_new_def Let_def split: if_splits)
  obtain ac1 where ac1: "ac = ac_accept ts ac1" "ac_adding ac1 = None" using ac ts by blast
  show l: "length ts = threadCount" and ne: "ts \<noteq> []" using ts c by simp_all
  have t: "nt_connections t = 0" "nt_here t = {#}" "nt_ok t" "nt_held a i t = (case ac_adding a of None \<Rightarrow> 0 | Some (s, j) \<Rightarrow> if j = i then 1 else 0)"
    if "t \<in> set ts" for t a i
    using that by (auto simp: ts nt_started nt_here_def nt_ok_def nt_gone_def nt_begun_def nt_held_def cq_new_def)
  have sel: "sm_selectThreadWithMinConnections ts < length ts" by (rule sm_select_min(1) [OF ne])
  show "net_ok (ac, ts, 0)" using t ac1(2) sel nth_mem [of _ ts]
    by (auto simp: net_ok_def ac1(1) ac_accept_def ac_flight_def sum_list_zero)
  show "net_balanced (ac, ts, 0)" using t(1) nth_mem [of _ ts] sel by (auto simp: net_balanced_def ac1(1) ac_accept_def)
qed

text \<open>
  C37: However the acceptor and the network threads interleave, every connection that was accepted is in one place - on its way
  to a thread, waiting there, served there, or removed, once; the counter of each thread is the number of its connections; a
  socket is started at most once and before it is served; as long as no connection has ended the threads differ by at most
  one; and the update of a thread leaves it the open ones of its sockets, in their order.
\<close>
theorem connections_accounted:
  assumes "sm_startNetwork noDelay outKBuff lr ec threadCount sm_new = Started sm" and "sm_acceptor sm = Some ac0" and "sm_threads sm = Some ts0"
    and "net_run ps (ac0, ts0, 0) = Some (ac, ts, n)" and "length ps < 2147483648"
  shows "length ts = threadCount \<and> ac_flight ac + sum_list (map nt_here ts) = mset [0..<n]
    \<and> (\<forall>i < threadCount. nt_connections (ts ! i) = nt_held ac i (ts ! i) \<and> nt_ok (ts ! i)
        \<and> nt_sockets (nt_sweep isOpen (ts ! i)) = filter isOpen (nt_sockets (ts ! i)))
    \<and> ((\<forall>t \<in> set ts. nt_gone t = []) \<longrightarrow>
        (\<forall>i < threadCount. \<forall>j < threadCount. nt_connections (ts ! i) \<le> nt_connections (ts ! j) + 1))"
proof -
  note st = sm_started [OF assms(1-3)]
  have r: "net_ok (ac, ts, n)" "net_balanced (ac, ts, n)" "n \<le> length ps"
    using net_run_ok [OF st(3,2) _ st(4) assms(4)] assms(5) by simp_all
  have l: "length ts = threadCount" using net_run_threads [OF assms(4)] st(1) by simp
  have "nt_sockets (nt_sweep isOpen (ts ! i)) = filter isOpen (nt_sockets (ts ! i))" if "i < threadCount" for i
  proof -
    have i: "i < length ts" using that l by simp
    have "nt_held ac i (ts ! i) \<le> 2147483647" using net_ok_count(2) [OF r(1) i] r(3) assms(5) by simp
    then show ?thesis using nt_sweep_ok(4) r(1) i unfolding net_ok_def by blast
  qed
  then show ?thesis using r(1,2) l unfolding net_ok_def net_balanced_def by auto
qed

definition nw_listen :: listen_result where
  "nw_listen = \<lparr>lr_open = False, lr_sendBuffer = True, lr_sendBufferSupported = False, lr_noDelay = False, lr_bind = False, lr_listen = False\<rparr>"

definition nw_acceptor :: "nat option \<Rightarrow> acceptor" where
  "nw_acceptor i = \<lparr>ac_tcpNoDelay = True, ac_sendBufferSize = 4096, ac_closed = False, ac_accepting = i, ac_adding = None\<rparr>"

definition nw_ops :: "net_op list" where
  \<comment> \<open>four connections for two threads, one of them closed while it waits and one after it was served\<close>
  "nw_ops = [OAccepted False False, OUpdate 0 False False, OQueue, OAccepted True False, OAccepted False False, ODrain 0 (\<lambda>s. True), OQueue,
     OSweep 0 (\<lambda>s. True), OAccepted False False, OQueue, OUpdate 0 False False, ODrain 0 (\<lambda>s. s \<noteq> 2), OSweep 0 (\<lambda>s. s \<noteq> 0), OAccepted False False]"

definition nw_start :: socket_mgr where
  "nw_start = (case sm_startNetwork True 4096 nw_listen (\<lambda>i. False) 2 sm_new of Started sm \<Rightarrow> sm | _ \<Rightarrow> sm_new)"

definition nw_end :: network where
  "nw_end = the (net_run nw_ops (the (sm_acceptor nw_start), the (sm_threads nw_start), 0))"

theorem connections_accounted_witness:
  "map nt_connections (fst (snd nw_end)) = [0, 2] \<and> map nt_gone (fst (snd nw_end)) = [[2, 0], []] \<and> length (fst (snd nw_end)) = 2
     \<and> ac_flight (fst nw_end) + sum_list (map nt_here (fst (snd nw_end))) = mset [0..<snd (snd nw_end)]"
proof -
  have s: "sm_startNetwork True 4096 nw_listen (\<lambda>i. False) 2 sm_new = Started nw_start" by code_simp
  have a: "sm_acceptor nw_start = Some (the (sm_acceptor nw_start))" by code_simp
  have t: "sm_threads nw_start = Some (the (sm_threads nw_start))" by code_simp
  have "net_run nw_ops (the (sm_acceptor nw_start), the (sm_threads nw_start), 0) \<noteq> None" by code_simp
  then have r: "net_run nw_ops (the (sm_acceptor nw_start), the (sm_threads nw_start), 0) = Some (fst nw_end, fst (snd nw_end), snd (snd nw_end))"
    by (auto simp: nw_end_def)
  have l: "length nw_ops < 2147483648" by (simp add: nw_ops_def)
  have e: "map nt_connections (fst (snd nw_end)) = [0, 2] \<and> map nt_gone (fst (snd nw_end)) = [[2, 0], []]" by code_simp
  show ?thesis using connections_accounted [OF s a t r l, of "\<lambda>s. True"] e by blast
qed

lemma failed_listen_blocks_restart:
  \<comment> \<open>the acceptor of a listen that failed is kept until \<^verbatim>\<open>stopNetwork\<close>\<close>
  assumes "fst (ac_listen lr (ac_new outKBuff noDelay)) = False" and "threadCount \<noteq> 0" and "sm_acceptor sm = None"
  shows "\<exists>sm1. sm_startNetwork noDelay outKBuff lr ec threadCount sm = StartFailed sm1
    \<and> sm_startNetwork noDelay2 outKBuff2 lr2 ec2 threadCount2 sm1 = StartAssertion
    \<and> sm_acceptor (sm_stopNetwork sm1) = None"
  using assms by (cases "ac_listen lr (ac_new outKBuff noDelay)")
    (auto simp: sm_startNetwork_def sm_stopNetwork_def sm_stopThreads_def sm_closeAcceptor_def split: option.splits)

end
