(* ===== verification/Robot_Stamina.thy ===== *)
theory Robot_Stamina
  imports Timers Floats "HOL-Library.Monad_Syntax"
begin

unbundle bit_operations_syntax

text \<open>
  The stamina of a robot, \<^verbatim>\<open>combat/RobotStaminaUpdater.cpp\<close>: it regenerates, and it is drained while the robot charges an
  attack. The state holds the updater together with what it reads and writes of its owner, the fields of
  \<^verbatim>\<open>StaminaInfo\<close> and the unit state \<^verbatim>\<open>UNIT_STATE_CHARGING\<close>. A failed \<^verbatim>\<open>NS_ASSERT\<close> is \<open>None\<close>; \<open>fl\<close> rounds to single
  precision. Dividing by a rate of zero gives an infinity in the code, whose cast to an integer is undefined; here it gives
  a duration of zero.
\<close>

section \<open>Data\<close>

abbreviation "STAMINA_FLAG_NONE \<equiv> (0 :: u32)"
abbreviation "STAMINA_FLAG_ATTACK \<equiv> (1 :: u32)"
abbreviation "STAMINA_FLAG_CHARGING \<equiv> (2 :: u32)"

datatype charge_state = CHARGE_STATE_NONE | CHARGE_STATE_CHARGING | CHARGE_STATE_FULLY

record stamina_data =
  sd_flags :: u32
  sd_stamina :: int
  sd_maxStamina :: int
  sd_staminaRegenRate :: rat
  sd_chargeStartStamina :: int
  sd_chargedStamina :: int
  sd_chargeConsumesStamina :: int
  sd_attackTakesStamina :: int

definition sd_hasStaminaFlag :: "u32 \<Rightarrow> stamina_data \<Rightarrow> bool" where
  "sd_hasStaminaFlag flag d = (sd_flags d AND flag \<noteq> 0)"

definition sd_addStaminaFlag :: "u32 \<Rightarrow> stamina_data \<Rightarrow> stamina_data" where
  "sd_addStaminaFlag flag d = (if \<not> sd_hasStaminaFlag flag d then d\<lparr>sd_flags := sd_flags d OR flag\<rparr> else d)"

definition sd_clearStaminaFlag :: "u32 \<Rightarrow> stamina_data \<Rightarrow> stamina_data" where
  "sd_clearStaminaFlag flag d = (if sd_hasStaminaFlag flag d then d\<lparr>sd_flags := sd_flags d AND NOT flag\<rparr> else d)"

datatype stamina_event =
    SentChargeStart stamina_data
  | SentChargeStop stamina_data
  | SentStaminaSync stamina_data
  | ThreatUpdated

record stamina_updater =
  su_data :: stamina_data
  su_isCharging :: bool
  su_startStamina :: int
  su_diffStamina :: int
  su_staminaTimer :: delay_timer
  su_chargeState :: charge_state
  su_staminaSyncTimer :: interval_timer
  su_events :: "stamina_event list"

definition STAMINA_SYNC_INTERVAL :: NSTime where
  "STAMINA_SYNC_INTERVAL = 200"

definition su_new :: "stamina_data \<Rightarrow> stamina_updater" where
  "su_new d = \<lparr>su_data = d, su_isCharging = False, su_startStamina = 0, su_diffStamina = 0, su_staminaTimer = delay_new,
     su_chargeState = CHARGE_STATE_NONE, su_staminaSyncTimer = interval_setInterval STAMINA_SYNC_INTERVAL (interval_new True), su_events = []\<rparr>"

definition su_isInCharge :: "stamina_updater \<Rightarrow> bool" where
  "su_isInCharge u = (su_chargeState u \<noteq> CHARGE_STATE_NONE)"

definition su_canAttack :: "stamina_updater \<Rightarrow> bool" where
  "su_canAttack u =
     (if su_chargeState u = CHARGE_STATE_NONE then sd_stamina (su_data u) \<ge> sd_attackTakesStamina (su_data u)
      else su_chargeState u = CHARGE_STATE_FULLY)"

section \<open>Operations\<close>

definition su_event :: "stamina_event \<Rightarrow> stamina_updater \<Rightarrow> stamina_updater" where
  "su_event e u = u\<lparr>su_events := su_events u @ [e]\<rparr>"

definition su_sendSyncStamina :: "u32 \<Rightarrow> stamina_updater \<Rightarrow> stamina_updater" where
  "su_sendSyncStamina flags u = su_event (SentStaminaSync ((su_data u)\<lparr>sd_flags := flags\<rparr>)) u"

definition su_stopRegenStamina :: "stamina_updater \<Rightarrow> stamina_updater option" where
  "su_stopRegenStamina u =
     (if su_diffStamina u \<le> 0 then Some u
      else if su_chargeState u \<noteq> CHARGE_STATE_NONE then None
      else Some (u\<lparr>su_diffStamina := 0, su_startStamina := 0, su_staminaTimer := delay_reset (su_staminaTimer u)\<rparr>))"

definition su_stopChargeProgress :: "stamina_updater \<Rightarrow> stamina_updater option" where
  "su_stopChargeProgress u =
     (if su_chargeState u = CHARGE_STATE_NONE then Some u
      else if su_diffStamina u > 0 then None
      else
        let d = sd_clearStaminaFlag STAMINA_FLAG_CHARGING ((su_data u)\<lparr>sd_chargeStartStamina := 0, sd_chargedStamina := 0\<rparr>);
            u1 = su_event ThreatUpdated (u\<lparr>su_data := d, su_isCharging := False\<rparr>)
        in Some (u1\<lparr>su_chargeState := CHARGE_STATE_NONE, su_diffStamina := 0, su_startStamina := 0,
                    su_staminaTimer := delay_reset (su_staminaTimer u1)\<rparr>))"

definition su_chargeDuration :: "(rat \<Rightarrow> rat) \<Rightarrow> int \<Rightarrow> int \<Rightarrow> NSTime" where
  \<comment> \<open>also the time after which an amount has been charged\<close>
  "su_chargeDuration fl stamina consumes = trunc (fl (fl (fl (of_int stamina) / fl (of_int consumes)) * 1000))"

definition su_charge :: "(rat \<Rightarrow> rat) \<Rightarrow> stamina_updater \<Rightarrow> stamina_updater option" where
  "su_charge fl u =
     (if su_chargeState u \<noteq> CHARGE_STATE_NONE then Some u
      else do {
        u1 \<leftarrow> su_stopRegenStamina u;
        if su_diffStamina u1 \<noteq> 0 then None
        else
          let d = su_data u1;
              duration = max 0 (i32 (su_chargeDuration fl (sd_stamina d) (sd_chargeConsumesStamina d)));
              u2 = u1\<lparr>su_startStamina := sd_stamina d, su_diffStamina := i32 (- sd_stamina d),
                      su_staminaTimer := delay_setDuration duration (su_staminaTimer u1),
                      su_data := d\<lparr>sd_chargeStartStamina := sd_stamina d\<rparr>, su_isCharging := True\<rparr>;
              u3 = su_event ThreatUpdated u2;
              u4 = u3\<lparr>su_chargeState := CHARGE_STATE_CHARGING, su_data := sd_addStaminaFlag STAMINA_FLAG_CHARGING (su_data u3),
                      su_staminaSyncTimer := interval_reset (su_staminaSyncTimer u3)\<rparr>
          in Some (su_event (SentChargeStart (su_data u4)) u4)
      })"

definition su_chargeUpdate :: "(rat \<Rightarrow> rat) \<Rightarrow> stamina_updater \<Rightarrow> stamina_updater" where
  "su_chargeUpdate fl u =
     (if su_chargeState u \<noteq> CHARGE_STATE_CHARGING then u
      else
        let start = sd_chargeStartStamina (su_data u); charged = sd_chargedStamina (su_data u);
            consumes = sd_chargeConsumesStamina (su_data u);
            timer = delay_setDuration (max 0 (i32 (su_chargeDuration fl start consumes))) (su_staminaTimer u);
            timer1 = (if charged > 0 then delay_update (i32 (su_chargeDuration fl charged consumes)) timer else timer)
        in u\<lparr>su_startStamina := start, su_diffStamina := i32 (- start), su_staminaTimer := timer1,
             su_staminaSyncTimer := interval_reset (su_staminaSyncTimer u)\<rparr>)"

definition su_regenDuration :: "(rat \<Rightarrow> rat) \<Rightarrow> int \<Rightarrow> rat \<Rightarrow> int \<Rightarrow> NSTime" where
  "su_regenDuration fl diff rate maxStamina = trunc (fl (fl (fl (of_int diff) / fl (rate * fl (of_int maxStamina))) * 1000))"

definition su_startRegenStamina :: "(rat \<Rightarrow> rat) \<Rightarrow> stamina_updater \<Rightarrow> stamina_updater option" where
  "su_startRegenStamina fl u = do {
     u1 \<leftarrow> su_stopChargeProgress u;
     u2 \<leftarrow> su_stopRegenStamina u1;
     let stamina = sd_stamina (su_data u2); maxStamina = sd_maxStamina (su_data u2); diff = i32 (maxStamina - stamina)
     in if stamina \<ge> maxStamina then Some u2
        else Some (u2\<lparr>su_staminaTimer := delay_setDuration (i32 (su_regenDuration fl diff (sd_staminaRegenRate (su_data u2)) maxStamina)) (su_staminaTimer u2),
                      su_diffStamina := diff, su_startStamina := stamina\<rparr>)
   }"

definition su_chargeStop :: "(rat \<Rightarrow> rat) \<Rightarrow> stamina_updater \<Rightarrow> stamina_updater option" where
  "su_chargeStop fl u =
     (if su_chargeState u = CHARGE_STATE_NONE then Some u
      else
        let u1 = u\<lparr>su_data := sd_clearStaminaFlag STAMINA_FLAG_CHARGING (su_data u), su_staminaSyncTimer := interval_reset (su_staminaSyncTimer u)\<rparr>
        in su_startRegenStamina fl (su_event (SentChargeStop (su_data u1)) u1))"

definition su_stop :: "stamina_updater \<Rightarrow> stamina_updater option" where
  "su_stop u = do {
     u1 \<leftarrow> su_stopRegenStamina u;
     u2 \<leftarrow> su_stopChargeProgress u1;
     Some (u2\<lparr>su_staminaSyncTimer := interval_reset (su_staminaSyncTimer u2)\<rparr>)
   }"

definition calcConsumedStamina :: "bool \<Rightarrow> stamina_data \<Rightarrow> int" where
  "calcConsumedStamina charging d =
     (let points = (if charging
                    then if sd_chargedStamina d < sd_attackTakesStamina d then i32 (sd_attackTakesStamina d - sd_chargedStamina d) else 0
                    else sd_attackTakesStamina d)
      in min (sd_stamina d) points)"

definition su_deductStaminaForAttack :: "(rat \<Rightarrow> rat) \<Rightarrow> stamina_updater \<Rightarrow> stamina_updater option" where
  "su_deductStaminaForAttack fl u =
     (let u1 = (if su_chargeState u \<noteq> CHARGE_STATE_NONE
                then let u0 = su_sendSyncStamina STAMINA_FLAG_ATTACK (u\<lparr>su_data := sd_clearStaminaFlag STAMINA_FLAG_CHARGING (su_data u)\<rparr>)
                     in u0\<lparr>su_staminaSyncTimer := interval_reset (su_staminaSyncTimer u0)\<rparr>
                else u);
          newStamina = i32 (sd_stamina (su_data u1) - calcConsumedStamina (su_isCharging u1) (su_data u1))
      in if newStamina < 0 then None else su_startRegenStamina fl (u1\<lparr>su_data := (su_data u1)\<lparr>sd_stamina := newStamina\<rparr>\<rparr>))"

definition su_scale :: "(rat \<Rightarrow> rat) \<Rightarrow> delay_timer \<Rightarrow> rat" where
  \<comment> \<open>a duration of zero makes the quotient a NaN, of which \<^verbatim>\<open>std::min(1.0f, NaN)\<close> is one\<close>
  "su_scale fl t = (if dt_duration t = 0 then 1 else min 1 (fl (fl (of_int (delay_getRemainder t)) / fl (of_int (dt_duration t)))))"

definition su_updateStamina :: "(rat \<Rightarrow> rat) \<Rightarrow> NSTime \<Rightarrow> stamina_updater \<Rightarrow> stamina_updater" where
  "su_updateStamina fl diff u =
     (let u1 = u\<lparr>su_staminaTimer := delay_update diff (su_staminaTimer u)\<rparr>;
          newStamina = i32 (su_startStamina u1 + trunc (fl (fl (of_int (su_diffStamina u1)) * fl (1 - su_scale fl (su_staminaTimer u1)))));
          u2 = u1\<lparr>su_data := (su_data u1)\<lparr>sd_stamina := newStamina\<rparr>\<rparr>;
          u3 = (if su_chargeState u2 = CHARGE_STATE_CHARGING
                then u2\<lparr>su_data := (su_data u2)\<lparr>sd_chargedStamina := i32 (su_startStamina u2 - newStamina)\<rparr>\<rparr> else u2)
      in if delay_passed (su_staminaTimer u3)
         then let u4 = (if su_chargeState u3 = CHARGE_STATE_CHARGING then u3\<lparr>su_chargeState := CHARGE_STATE_FULLY\<rparr> else u3)
              in u4\<lparr>su_diffStamina := 0, su_startStamina := 0, su_staminaTimer := delay_reset (su_staminaTimer u4),
                    su_staminaSyncTimer := interval_setPassed (su_staminaSyncTimer u4)\<rparr>
         else u3)"

definition su_updateDt :: "NSTime \<Rightarrow> interval_timer \<Rightarrow> NSTime" where
  "su_updateDt diff t =
     (let elapsed = i32 (it_current t + diff)
      in if i32 (elapsed + it_remainder t) \<ge> it_interval t then i32 (it_interval t - it_current t) else diff)"

definition su_update :: "(rat \<Rightarrow> rat) \<Rightarrow> NSTime \<Rightarrow> stamina_updater \<Rightarrow> stamina_updater" where
  "su_update fl diff u =
     (if su_diffStamina u = 0 then u
      else if su_chargeState u = CHARGE_STATE_NONE then su_updateStamina fl diff u
      else
        let u1 = su_updateStamina fl (su_updateDt diff (su_staminaSyncTimer u)) u;
            u2 = u1\<lparr>su_staminaSyncTimer := interval_update diff (su_staminaSyncTimer u1)\<rparr>
        in if interval_passed (su_staminaSyncTimer u2)
           then let u3 = su_sendSyncStamina STAMINA_FLAG_NONE u2 in u3\<lparr>su_staminaSyncTimer := interval_reset (su_staminaSyncTimer u3)\<rparr>
           else u2)"

section \<open>The state machine\<close>

definition STAMINA_LIMIT :: int where
  \<comment> \<open>the integers a \<^verbatim>\<open>float\<close> holds exactly\<close>
  "STAMINA_LIMIT = 16777216"

definition sd_ok :: "stamina_data \<Rightarrow> bool" where
  "sd_ok d \<longleftrightarrow> 0 \<le> sd_stamina d \<and> sd_stamina d \<le> STAMINA_LIMIT \<and> 0 \<le> sd_maxStamina d \<and> sd_maxStamina d \<le> STAMINA_LIMIT
     \<and> 0 \<le> sd_attackTakesStamina d \<and> sd_attackTakesStamina d \<le> STAMINA_LIMIT \<and> 0 \<le> sd_chargedStamina d
     \<and> sd_chargedStamina d \<le> sd_chargeStartStamina d \<and> sd_chargeStartStamina d \<le> STAMINA_LIMIT"

definition su_ok :: "stamina_updater \<Rightarrow> bool" where
  "su_ok u \<longleftrightarrow> sd_ok (su_data u) \<and> (dt_duration (su_staminaTimer u) < 0 \<longrightarrow> dt_current (su_staminaTimer u) \<le> 0)
     \<and> (case su_chargeState u of
          CHARGE_STATE_NONE \<Rightarrow> \<not> su_isCharging u \<and> \<not> sd_hasStaminaFlag STAMINA_FLAG_CHARGING (su_data u)
            \<and> sd_chargeStartStamina (su_data u) = 0 \<and> 0 \<le> su_diffStamina u
            \<and> (0 < su_diffStamina u \<longrightarrow> 0 \<le> su_startStamina u \<and> su_startStamina u + su_diffStamina u \<le> STAMINA_LIMIT)
        | CHARGE_STATE_CHARGING \<Rightarrow> su_isCharging u \<and> sd_hasStaminaFlag STAMINA_FLAG_CHARGING (su_data u)
            \<and> su_startStamina u = sd_chargeStartStamina (su_data u) \<and> su_diffStamina u = - su_startStamina u
        | CHARGE_STATE_FULLY \<Rightarrow> su_isCharging u \<and> sd_hasStaminaFlag STAMINA_FLAG_CHARGING (su_data u) \<and> su_diffStamina u = 0)"

lemma stamina_flags [simp]:
  "sd_hasStaminaFlag STAMINA_FLAG_CHARGING (sd_addStaminaFlag STAMINA_FLAG_CHARGING d)"
  "\<not> sd_hasStaminaFlag STAMINA_FLAG_CHARGING (sd_clearStaminaFlag STAMINA_FLAG_CHARGING d)"
  by (simp_all add: sd_hasStaminaFlag_def sd_addStaminaFlag_def sd_clearStaminaFlag_def bit.conj_disj_distrib2 and.assoc)

lemma stamina_flags_frame [simp]:
  "sd_stamina (sd_addStaminaFlag f d) = sd_stamina d" "sd_stamina (sd_clearStaminaFlag f d) = sd_stamina d"
  "sd_maxStamina (sd_addStaminaFlag f d) = sd_maxStamina d" "sd_maxStamina (sd_clearStaminaFlag f d) = sd_maxStamina d"
  "sd_staminaRegenRate (sd_addStaminaFlag f d) = sd_staminaRegenRate d" "sd_staminaRegenRate (sd_clearStaminaFlag f d) = sd_staminaRegenRate d"
  "sd_chargeStartStamina (sd_addStaminaFlag f d) = sd_chargeStartStamina d" "sd_chargeStartStamina (sd_clearStaminaFlag f d) = sd_chargeStartStamina d"
  "sd_chargedStamina (sd_addStaminaFlag f d) = sd_chargedStamina d" "sd_chargedStamina (sd_clearStaminaFlag f d) = sd_chargedStamina d"
  "sd_chargeConsumesStamina (sd_addStaminaFlag f d) = sd_chargeConsumesStamina d"
  "sd_chargeConsumesStamina (sd_clearStaminaFlag f d) = sd_chargeConsumesStamina d"
  "sd_attackTakesStamina (sd_addStaminaFlag f d) = sd_attackTakesStamina d" "sd_attackTakesStamina (sd_clearStaminaFlag f d) = sd_attackTakesStamina d"
  by (simp_all add: sd_addStaminaFlag_def sd_clearStaminaFlag_def)

lemma hasStaminaFlag_frame [simp]:
  "sd_hasStaminaFlag f (d\<lparr>sd_stamina := a\<rparr>) = sd_hasStaminaFlag f d" "sd_hasStaminaFlag f (d\<lparr>sd_chargeStartStamina := a\<rparr>) = sd_hasStaminaFlag f d"
  "sd_hasStaminaFlag f (d\<lparr>sd_chargedStamina := a\<rparr>) = sd_hasStaminaFlag f d" "sd_hasStaminaFlag f (d\<lparr>sd_maxStamina := a\<rparr>) = sd_hasStaminaFlag f d"
  "sd_hasStaminaFlag f (d\<lparr>sd_staminaRegenRate := r\<rparr>) = sd_hasStaminaFlag f d"
  "sd_hasStaminaFlag f (d\<lparr>sd_chargeConsumesStamina := a\<rparr>) = sd_hasStaminaFlag f d"
  by (simp_all add: sd_hasStaminaFlag_def)

lemma i32_limit: "- STAMINA_LIMIT \<le> x \<Longrightarrow> x \<le> STAMINA_LIMIT \<Longrightarrow> i32 x = x"
  by (intro i32_id) (simp add: int32_range_def STAMINA_LIMIT_def)

lemma su_event_fields [simp]:
  "su_data (su_event e u) = su_data u" "su_isCharging (su_event e u) = su_isCharging u" "su_startStamina (su_event e u) = su_startStamina u"
  "su_diffStamina (su_event e u) = su_diffStamina u" "su_staminaTimer (su_event e u) = su_staminaTimer u"
  "su_chargeState (su_event e u) = su_chargeState u" "su_staminaSyncTimer (su_event e u) = su_staminaSyncTimer u"
  by (simp_all add: su_event_def)

lemma su_stopRegen_ok:
  assumes "su_ok u"
  shows "\<exists>u1. su_stopRegenStamina u = Some u1 \<and> su_ok u1 \<and> su_diffStamina u1 \<le> 0 \<and> su_data u1 = su_data u \<and> su_chargeState u1 = su_chargeState u"
  using assms by (cases "su_chargeState u") (auto simp: su_stopRegenStamina_def su_ok_def delay_reset_def sd_ok_def)

lemma su_stopChargeProgress_ok:
  assumes "sd_ok (su_data u)" and "dt_duration (su_staminaTimer u) < 0 \<longrightarrow> dt_current (su_staminaTimer u) \<le> 0"
    and "su_chargeState u = CHARGE_STATE_NONE \<Longrightarrow> su_ok u" and "su_chargeState u \<noteq> CHARGE_STATE_NONE \<Longrightarrow> su_diffStamina u \<le> 0"
  shows "\<exists>u1. su_stopChargeProgress u = Some u1 \<and> su_ok u1 \<and> su_chargeState u1 = CHARGE_STATE_NONE
    \<and> sd_stamina (su_data u1) = sd_stamina (su_data u) \<and> sd_maxStamina (su_data u1) = sd_maxStamina (su_data u)"
  using assms by (cases "su_chargeState u = CHARGE_STATE_NONE")
    (auto simp: su_stopChargeProgress_def su_ok_def sd_ok_def delay_reset_def Let_def)

lemma su_startRegen_ok:
  assumes "sd_ok (su_data u)" and "dt_duration (su_staminaTimer u) < 0 \<longrightarrow> dt_current (su_staminaTimer u) \<le> 0"
    and "su_chargeState u = CHARGE_STATE_NONE \<Longrightarrow> su_ok u" and "su_chargeState u \<noteq> CHARGE_STATE_NONE \<Longrightarrow> su_diffStamina u \<le> 0"
  shows "\<exists>u1. su_startRegenStamina fl u = Some u1 \<and> su_ok u1 \<and> su_chargeState u1 = CHARGE_STATE_NONE \<and> sd_stamina (su_data u1) = sd_stamina (su_data u)"
proof -
  obtain u1 where u1: "su_stopChargeProgress u = Some u1" "su_ok u1" "su_chargeState u1 = CHARGE_STATE_NONE" "sd_stamina (su_data u1) = sd_stamina (su_data u)"
    using su_stopChargeProgress_ok [OF assms] by blast
  obtain u2 where u2: "su_stopRegenStamina u1 = Some u2" "su_ok u2" "su_data u2 = su_data u1" "su_chargeState u2 = CHARGE_STATE_NONE"
    using su_stopRegen_ok [OF u1(2)] u1(3) by auto
  have r: "0 \<le> sd_stamina (su_data u2)" "sd_maxStamina (su_data u2) \<le> STAMINA_LIMIT" using u2(2) by (simp_all add: su_ok_def sd_ok_def)
  then have d: "i32 (sd_maxStamina (su_data u2) - sd_stamina (su_data u2)) = sd_maxStamina (su_data u2) - sd_stamina (su_data u2)"
    if "sd_stamina (su_data u2) < sd_maxStamina (su_data u2)"
    using that by (intro i32_limit) (auto simp: STAMINA_LIMIT_def)
  show ?thesis using u1 u2 r d by (auto simp: su_startRegenStamina_def su_ok_def delay_setDuration_def Let_def)
qed

lemma su_charge_ok:
  assumes "su_ok u"
  shows "\<exists>u1. su_charge fl u = Some u1 \<and> su_ok u1 \<and> su_isInCharge u1"
proof (cases "su_chargeState u = CHARGE_STATE_NONE")
  case True
  obtain u1 where u1: "su_stopRegenStamina u = Some u1" "su_ok u1" "su_diffStamina u1 \<le> 0" "su_chargeState u1 = CHARGE_STATE_NONE"
    using su_stopRegen_ok [OF assms] True by auto
  have z: "su_diffStamina u1 = 0" and r: "0 \<le> sd_stamina (su_data u1)" "sd_stamina (su_data u1) \<le> STAMINA_LIMIT"
    using u1(2-4) by (simp_all add: su_ok_def sd_ok_def)
  have "i32 (- sd_stamina (su_data u1)) = - sd_stamina (su_data u1)" using r by (intro i32_limit) auto
  then show ?thesis using u1 z True
    by (auto simp: su_charge_def su_ok_def sd_ok_def su_isInCharge_def delay_setDuration_def Let_def)
next
  case False
  then show ?thesis using assms by (simp add: su_charge_def su_isInCharge_def)
qed

lemma su_chargeUpdate_ok:
  assumes "su_ok u"
  shows "su_ok (su_chargeUpdate fl u)" and "su_chargeState (su_chargeUpdate fl u) = su_chargeState u" and "su_data (su_chargeUpdate fl u) = su_data u"
proof -
  have "i32 (- sd_chargeStartStamina (su_data u)) = - sd_chargeStartStamina (su_data u)" if "sd_ok (su_data u)"
    using that by (intro i32_limit) (auto simp: sd_ok_def STAMINA_LIMIT_def)
  then show "su_ok (su_chargeUpdate fl u)"
    using assms by (auto simp: su_chargeUpdate_def su_ok_def delay_setDuration_def delay_update_def Let_def)
  show "su_chargeState (su_chargeUpdate fl u) = su_chargeState u" "su_data (su_chargeUpdate fl u) = su_data u"
    by (simp_all add: su_chargeUpdate_def Let_def)
qed

lemma su_chargeStop_ok:
  assumes "su_ok u"
  shows "\<exists>u1. su_chargeStop fl u = Some u1 \<and> su_ok u1 \<and> su_chargeState u1 = CHARGE_STATE_NONE \<and> sd_stamina (su_data u1) = sd_stamina (su_data u)"
proof (cases "su_chargeState u = CHARGE_STATE_NONE")
  case True
  then show ?thesis using assms by (simp add: su_chargeStop_def)
next
  case False
  let ?u = "su_event (SentChargeStop (sd_clearStaminaFlag STAMINA_FLAG_CHARGING (su_data u)))
    (u\<lparr>su_data := sd_clearStaminaFlag STAMINA_FLAG_CHARGING (su_data u), su_staminaSyncTimer := interval_reset (su_staminaSyncTimer u)\<rparr>)"
  have "sd_ok (su_data ?u)" "dt_duration (su_staminaTimer ?u) < 0 \<longrightarrow> dt_current (su_staminaTimer ?u) \<le> 0" "su_diffStamina ?u \<le> 0"
      "su_chargeState ?u \<noteq> CHARGE_STATE_NONE"
    using assms False by (auto simp: su_ok_def sd_ok_def split: charge_state.splits)
  from su_startRegen_ok [OF this(1,2), of fl] this(3,4) show ?thesis using False by (simp add: su_chargeStop_def Let_def)
qed

lemma su_stop_ok:
  assumes "su_ok u"
  shows "\<exists>u1. su_stop u = Some u1 \<and> su_ok u1 \<and> su_chargeState u1 = CHARGE_STATE_NONE \<and> su_diffStamina u1 = 0 \<and> sd_stamina (su_data u1) = sd_stamina (su_data u)"
proof -
  obtain u1 where u1: "su_stopRegenStamina u = Some u1" "su_ok u1" "su_diffStamina u1 \<le> 0" "su_data u1 = su_data u"
    using su_stopRegen_ok [OF assms] by auto
  have ok: "sd_ok (su_data u1)" "dt_duration (su_staminaTimer u1) < 0 \<longrightarrow> dt_current (su_staminaTimer u1) \<le> 0" using u1(2) by (simp_all add: su_ok_def)
  show ?thesis
  proof (cases "su_chargeState u1 = CHARGE_STATE_NONE")
    case True
    then have "su_diffStamina u1 = 0" using u1(2,3) by (simp add: su_ok_def)
    then show ?thesis using True u1 by (simp add: su_stop_def su_stopChargeProgress_def su_ok_def)
  next
    case False
    then show ?thesis using ok u1 by (auto simp: su_stop_def su_stopChargeProgress_def su_ok_def sd_ok_def delay_reset_def Let_def)
  qed
qed

lemma su_scale_bounds:
  assumes "float_rounding fl" and "dt_duration t < 0 \<longrightarrow> dt_current t \<le> 0"
  shows "0 \<le> su_scale fl t" "su_scale fl t \<le> 1"
    and "0 < dt_duration t \<Longrightarrow> dt_current t \<le> 0 \<Longrightarrow> su_scale fl t = 0"
    and "0 < dt_duration t \<Longrightarrow> dt_current t = dt_duration t \<Longrightarrow> su_scale fl t = 1"
proof -
  note fl = float_roundingD [OF assms(1)] and un = float_rounding_unit [OF assms(1)]
  have d: "1 \<le> fl (of_int (dt_duration t))" if "0 < dt_duration t" using un(4) that by simp
  have "0 \<le> fl (of_int (delay_getRemainder t)) / fl (of_int (dt_duration t))" if "dt_duration t \<noteq> 0"
  proof (cases "0 < dt_duration t")
    case True
    then show ?thesis using d un(1) [of "of_int (delay_getRemainder t)"] by (simp add: delay_getRemainder_def)
  next
    case False
    then show ?thesis using that assms(2) fl(2) by (simp add: delay_getRemainder_def)
  qed
  then show "0 \<le> su_scale fl t" using un(1) by (simp add: su_scale_def)
  show "su_scale fl t \<le> 1" by (simp add: su_scale_def)
  show "su_scale fl t = 0" if "0 < dt_duration t" "dt_current t \<le> 0" using that fl(2) by (simp add: su_scale_def delay_getRemainder_def)
  show "su_scale fl t = 1" if "0 < dt_duration t" "dt_current t = dt_duration t"
    using that d fl(3) by (simp add: su_scale_def delay_getRemainder_def)
qed

lemma su_updateStamina_ok:
  assumes "float_rounding fl" and "su_ok u" and "su_diffStamina u \<noteq> 0"
  shows "su_ok (su_updateStamina fl diff u)"
    and "su_chargeState (su_updateStamina fl diff u) \<noteq> su_chargeState u \<Longrightarrow>
      su_chargeState u = CHARGE_STATE_CHARGING \<and> su_chargeState (su_updateStamina fl diff u) = CHARGE_STATE_FULLY"
proof -
  let ?t = "delay_update diff (su_staminaTimer u)"
  let ?x = "trunc (fl (fl (of_int (su_diffStamina u)) * fl (1 - su_scale fl ?t)))"
  have t: "dt_duration ?t < 0 \<longrightarrow> dt_current ?t \<le> 0" using assms(2) by (auto simp: su_ok_def delay_update_def)
  have c: "\<bar>su_diffStamina u\<bar> \<le> 16777216" using assms(2) by (auto simp: su_ok_def sd_ok_def STAMINA_LIMIT_def split: charge_state.splits)
  note sc = trunc_scaled(1,2) [OF assms(1) c su_scale_bounds(1,2) [OF assms(1) t]]
  show "su_chargeState (su_updateStamina fl diff u) \<noteq> su_chargeState u \<Longrightarrow>
      su_chargeState u = CHARGE_STATE_CHARGING \<and> su_chargeState (su_updateStamina fl diff u) = CHARGE_STATE_FULLY"
    by (auto simp: su_updateStamina_def Let_def split: if_splits)
  show "su_ok (su_updateStamina fl diff u)"
  proof (cases "su_chargeState u")
    case CHARGE_STATE_NONE
    then have s: "0 < su_diffStamina u" "0 \<le> su_startStamina u" "su_startStamina u + su_diffStamina u \<le> STAMINA_LIMIT"
      using assms(2,3) by (simp_all add: su_ok_def)
    then have "0 \<le> su_startStamina u + ?x" "su_startStamina u + ?x \<le> STAMINA_LIMIT" using sc(1) by simp_all
    moreover from this have "i32 (su_startStamina u + ?x) = su_startStamina u + ?x" by (intro i32_limit) (auto simp: STAMINA_LIMIT_def)
    ultimately show ?thesis using CHARGE_STATE_NONE assms(2) s t
      by (auto simp: su_updateStamina_def su_ok_def sd_ok_def delay_reset_def Let_def)
  next
    case CHARGE_STATE_CHARGING
    then have s: "su_startStamina u = sd_chargeStartStamina (su_data u)" "su_diffStamina u = - su_startStamina u" "0 \<le> su_startStamina u"
        "su_startStamina u \<le> STAMINA_LIMIT"
      using assms(2) by (simp_all add: su_ok_def sd_ok_def)
    then have x: "- su_startStamina u \<le> ?x" "?x \<le> 0" using sc(2) by simp_all
    then have "i32 (su_startStamina u + ?x) = su_startStamina u + ?x" "i32 (su_startStamina u - (su_startStamina u + ?x)) = - ?x"
      using s(3,4) by (auto intro!: i32_limit simp: STAMINA_LIMIT_def)
    then show ?thesis using CHARGE_STATE_CHARGING assms(2) s t x
      by (auto simp: su_updateStamina_def su_ok_def sd_ok_def delay_reset_def Let_def)
  next
    case CHARGE_STATE_FULLY
    then show ?thesis using assms(2,3) by (simp add: su_ok_def)
  qed
qed

lemma su_ok_sync: "su_ok (u\<lparr>su_staminaSyncTimer := t\<rparr>) = su_ok u" "su_ok (su_event e u) = su_ok u"
  by (cases "su_chargeState u"; simp add: su_ok_def)+

lemma su_update_ok:
  assumes "float_rounding fl" and "su_ok u"
  shows "su_ok (su_update fl diff u)"
  using assms su_updateStamina_ok(1) [OF assms]
  by (auto simp: su_update_def su_ok_sync su_sendSyncStamina_def Let_def)

lemma su_deduct_ok:
  assumes "su_ok u"
  shows "\<exists>u1. su_deductStaminaForAttack fl u = Some u1 \<and> su_ok u1 \<and> su_chargeState u1 = CHARGE_STATE_NONE
    \<and> sd_stamina (su_data u1) = sd_stamina (su_data u) - calcConsumedStamina (su_isCharging u) (su_data u)"
proof -
  have d: "sd_ok (su_data u)" using assms by (simp add: su_ok_def)
  have "i32 (sd_attackTakesStamina (su_data u) - sd_chargedStamina (su_data u)) = sd_attackTakesStamina (su_data u) - sd_chargedStamina (su_data u)"
    using d by (intro i32_limit) (auto simp: sd_ok_def STAMINA_LIMIT_def)
  then have c: "0 \<le> calcConsumedStamina (su_isCharging u) (su_data u)" "calcConsumedStamina (su_isCharging u) (su_data u) \<le> sd_stamina (su_data u)"
    using d by (auto simp: calcConsumedStamina_def sd_ok_def Let_def)
  have n: "i32 (sd_stamina (su_data u) - calcConsumedStamina (su_isCharging u) (su_data u))
      = sd_stamina (su_data u) - calcConsumedStamina (su_isCharging u) (su_data u)"
    using c d by (intro i32_limit) (auto simp: sd_ok_def STAMINA_LIMIT_def)
  have f: "calcConsumedStamina b (sd_clearStaminaFlag f d) = calcConsumedStamina b d" for b f d
    by (simp add: calcConsumedStamina_def)
  define u1 where "u1 = (if su_chargeState u \<noteq> CHARGE_STATE_NONE
                then let u0 = su_sendSyncStamina STAMINA_FLAG_ATTACK (u\<lparr>su_data := sd_clearStaminaFlag STAMINA_FLAG_CHARGING (su_data u)\<rparr>)
                     in u0\<lparr>su_staminaSyncTimer := interval_reset (su_staminaSyncTimer u0)\<rparr>
                else u)"
  let ?n = "sd_stamina (su_data u) - calcConsumedStamina (su_isCharging u) (su_data u)"
  let ?u = "u1\<lparr>su_data := (su_data u1)\<lparr>sd_stamina := ?n\<rparr>\<rparr>"
  have u1: "sd_stamina (su_data u1) = sd_stamina (su_data u)" "su_isCharging u1 = su_isCharging u"
      "calcConsumedStamina (su_isCharging u) (su_data u1) = calcConsumedStamina (su_isCharging u) (su_data u)"
    by (auto simp: u1_def su_sendSyncStamina_def Let_def f)
  have "sd_ok (su_data ?u)" "dt_duration (su_staminaTimer ?u) < 0 \<longrightarrow> dt_current (su_staminaTimer ?u) \<le> 0"
      "su_chargeState ?u = CHARGE_STATE_NONE \<Longrightarrow> su_ok ?u" "su_chargeState ?u \<noteq> CHARGE_STATE_NONE \<Longrightarrow> su_diffStamina ?u \<le> 0"
    using assms c by (auto simp: u1_def su_ok_def sd_ok_def su_sendSyncStamina_def Let_def split: charge_state.splits)
  from su_startRegen_ok [OF this, of fl] show ?thesis using c(2) n by (simp add: su_deductStaminaForAttack_def Let_def flip: u1_def) (simp add: u1 n)
qed

section \<open>Time\<close>

definition charging :: "int \<Rightarrow> NSTime \<Rightarrow> NSTime \<Rightarrow> stamina_updater \<Rightarrow> bool" where
  \<comment> \<open>\<open>e\<close> milliseconds into a charge of the stamina \<open>s\<close>, which takes \<open>D\<close>\<close>
  "charging s D e u \<longleftrightarrow> (let t = su_staminaTimer u; sync = su_staminaSyncTimer u in
     su_chargeState u = CHARGE_STATE_CHARGING \<and> su_startStamina u = s \<and> su_diffStamina u = - s \<and> dt_duration t = D \<and> 0 < dt_current t
     \<and> dt_current t \<le> D \<and> it_interval sync = STAMINA_SYNC_INTERVAL \<and> it_makeUpForLostTime sync \<and> 0 \<le> it_current sync \<and> 0 \<le> it_remainder sync
     \<and> it_current sync + it_remainder sync < STAMINA_SYNC_INTERVAL \<and> D - dt_current t + it_remainder sync = e)"

definition charged :: "int \<Rightarrow> NSTime \<Rightarrow> NSTime \<Rightarrow> stamina_updater \<Rightarrow> bool" where
  "charged s D e u \<longleftrightarrow> su_chargeState u = CHARGE_STATE_FULLY \<and> su_diffStamina u = 0 \<and> sd_stamina (su_data u) = 0
     \<and> sd_chargedStamina (su_data u) = s \<and> D \<le> e"

lemma sync_step:
  assumes "it_interval sync = STAMINA_SYNC_INTERVAL" and "it_makeUpForLostTime sync" and "0 \<le> it_current sync" and "0 \<le> it_remainder sync"
    and "it_current sync + it_remainder sync < STAMINA_SYNC_INTERVAL" and "0 \<le> d" and "d \<le> STAMINA_SYNC_INTERVAL"
  shows "0 \<le> su_updateDt d sync \<and> su_updateDt d sync \<le> STAMINA_SYNC_INTERVAL"
    and "interval_passed (interval_update d sync) \<Longrightarrow>
      su_updateDt d sync + it_remainder (interval_reset (interval_update d sync)) = it_remainder sync + d
      \<and> 0 \<le> it_remainder (interval_reset (interval_update d sync)) \<and> it_remainder (interval_reset (interval_update d sync)) < STAMINA_SYNC_INTERVAL
      \<and> it_current (interval_reset (interval_update d sync)) = 0"
    and "\<not> interval_passed (interval_update d sync) \<Longrightarrow>
      su_updateDt d sync = d \<and> it_current (interval_update d sync) + it_remainder (interval_update d sync) < STAMINA_SYNC_INTERVAL
      \<and> it_remainder (interval_update d sync) = it_remainder sync \<and> it_current (interval_update d sync) = it_current sync + d"
proof -
  have w: "i32 (it_current sync + d) = it_current sync + d" "i32 (it_current sync + d + it_remainder sync) = it_current sync + d + it_remainder sync"
      "i32 (it_interval sync - it_current sync) = it_interval sync - it_current sync"
      "i32 (it_current sync + d + it_remainder sync - it_interval sync) = it_current sync + d + it_remainder sync - it_interval sync"
    using assms by (auto intro!: i32_limit simp: STAMINA_LIMIT_def STAMINA_SYNC_INTERVAL_def)
  note w2 = w(3,4) [unfolded assms(1), unfolded STAMINA_SYNC_INTERVAL_def]
  note defs = w w2 su_updateDt_def interval_passed_def interval_update_def interval_reset_def Let_def STAMINA_SYNC_INTERVAL_def
  show "0 \<le> su_updateDt d sync \<and> su_updateDt d sync \<le> STAMINA_SYNC_INTERVAL" using assms by (auto simp: defs)
  show "su_updateDt d sync + it_remainder (interval_reset (interval_update d sync)) = it_remainder sync + d
      \<and> 0 \<le> it_remainder (interval_reset (interval_update d sync)) \<and> it_remainder (interval_reset (interval_update d sync)) < STAMINA_SYNC_INTERVAL
      \<and> it_current (interval_reset (interval_update d sync)) = 0" if "interval_passed (interval_update d sync)"
    using that assms by (auto simp: defs split: if_splits)
  show "su_updateDt d sync = d \<and> it_current (interval_update d sync) + it_remainder (interval_update d sync) < STAMINA_SYNC_INTERVAL
      \<and> it_remainder (interval_update d sync) = it_remainder sync \<and> it_current (interval_update d sync) = it_current sync + d"
    if "\<not> interval_passed (interval_update d sync)"
    using that assms by (auto simp: defs split: if_splits)
qed

lemma interval_fields [simp]:
  "it_interval (interval_update d t) = it_interval t" "it_makeUpForLostTime (interval_update d t) = it_makeUpForLostTime t"
  "it_interval (interval_reset t) = it_interval t" "it_makeUpForLostTime (interval_reset t) = it_makeUpForLostTime t"
  by (simp_all add: interval_update_def interval_reset_def Let_def)

lemma updateStamina_charging:
  assumes "float_rounding fl" and "charging s D e u" and "0 < s" and "s \<le> STAMINA_LIMIT" and "0 \<le> dt" and "dt \<le> STAMINA_SYNC_INTERVAL"
    and "int32_range D"
  shows "dt_current (su_staminaTimer u) \<le> dt \<Longrightarrow>
      su_chargeState (su_updateStamina fl dt u) = CHARGE_STATE_FULLY \<and> su_diffStamina (su_updateStamina fl dt u) = 0
      \<and> sd_stamina (su_data (su_updateStamina fl dt u)) = 0 \<and> sd_chargedStamina (su_data (su_updateStamina fl dt u)) = s"
    and "dt < dt_current (su_staminaTimer u) \<Longrightarrow>
      su_chargeState (su_updateStamina fl dt u) = CHARGE_STATE_CHARGING \<and> su_startStamina (su_updateStamina fl dt u) = s
      \<and> su_diffStamina (su_updateStamina fl dt u) = - s \<and> dt_duration (su_staminaTimer (su_updateStamina fl dt u)) = D
      \<and> dt_current (su_staminaTimer (su_updateStamina fl dt u)) = dt_current (su_staminaTimer u) - dt
      \<and> su_staminaSyncTimer (su_updateStamina fl dt u) = su_staminaSyncTimer u"
proof -
  let ?t = "delay_update dt (su_staminaTimer u)"
  have u: "su_chargeState u = CHARGE_STATE_CHARGING" "su_startStamina u = s" "su_diffStamina u = - s" "dt_duration (su_staminaTimer u) = D"
      "0 < dt_current (su_staminaTimer u)" "dt_current (su_staminaTimer u) \<le> D"
    using assms(2) by (simp_all add: charging_def Let_def)
  have w: "i32 (dt_current (su_staminaTimer u) - dt) = dt_current (su_staminaTimer u) - dt"
    using u(5,6) assms(5-7) by (intro i32_id) (simp add: int32_range_def STAMINA_SYNC_INTERVAL_def)
  have t: "dt_duration ?t = D" "dt_current ?t = dt_current (su_staminaTimer u) - dt" using u w by (simp_all add: delay_update_def)
  have D: "0 < D" using u(5,6) by simp
  show "su_chargeState (su_updateStamina fl dt u) = CHARGE_STATE_FULLY \<and> su_diffStamina (su_updateStamina fl dt u) = 0
      \<and> sd_stamina (su_data (su_updateStamina fl dt u)) = 0 \<and> sd_chargedStamina (su_data (su_updateStamina fl dt u)) = s"
    if p: "dt_current (su_staminaTimer u) \<le> dt"
  proof -
    have sc: "su_scale fl ?t = 0" using su_scale_bounds(3) [OF assms(1), of ?t] t D p by simp
    have b: "\<bar>- s\<bar> \<le> 16777216" using assms(3,4) by (simp add: STAMINA_LIMIT_def)
    have "trunc (fl (fl (of_int (- s)) * fl (1 - su_scale fl ?t))) = - s"
      using trunc_scaled(3) [OF assms(1) b, of "su_scale fl ?t"] sc by simp
    moreover have "i32 0 = 0" "i32 s = s" using assms(3,4) by (auto intro!: i32_limit simp: STAMINA_LIMIT_def)
    ultimately show ?thesis using u t p by (simp add: su_updateStamina_def delay_passed_def Let_def)
  qed
  show "su_chargeState (su_updateStamina fl dt u) = CHARGE_STATE_CHARGING \<and> su_startStamina (su_updateStamina fl dt u) = s
      \<and> su_diffStamina (su_updateStamina fl dt u) = - s \<and> dt_duration (su_staminaTimer (su_updateStamina fl dt u)) = D
      \<and> dt_current (su_staminaTimer (su_updateStamina fl dt u)) = dt_current (su_staminaTimer u) - dt
      \<and> su_staminaSyncTimer (su_updateStamina fl dt u) = su_staminaSyncTimer u"
    if "dt < dt_current (su_staminaTimer u)"
    using that u t by (simp add: su_updateStamina_def delay_passed_def Let_def)
qed

lemma su_update_charging:
  assumes "float_rounding fl" and "charging s D e u" and "0 < s" and "s \<le> STAMINA_LIMIT" and "0 \<le> d" and "d \<le> STAMINA_SYNC_INTERVAL"
    and "int32_range D"
  shows "charging s D (e + d) (su_update fl d u) \<or> charged s D (e + d) (su_update fl d u)"
proof -
  let ?sync = "su_staminaSyncTimer u" and ?dt = "su_updateDt d (su_staminaSyncTimer u)"
  let ?u = "su_updateStamina fl ?dt u"
  let ?u2 = "?u\<lparr>su_staminaSyncTimer := interval_update d (su_staminaSyncTimer ?u)\<rparr>"
  have c: "it_interval ?sync = STAMINA_SYNC_INTERVAL" "it_makeUpForLostTime ?sync" "0 \<le> it_current ?sync" "0 \<le> it_remainder ?sync"
      "it_current ?sync + it_remainder ?sync < STAMINA_SYNC_INTERVAL" "D - dt_current (su_staminaTimer u) + it_remainder ?sync = e"
      "su_diffStamina u \<noteq> 0" "su_chargeState u \<noteq> CHARGE_STATE_NONE" "dt_current (su_staminaTimer u) \<le> D"
    using assms(2,3) by (simp_all add: charging_def Let_def)
  note st = sync_step [OF c(1-5) assms(5,6)]
  note up = updateStamina_charging [OF assms(1-4) st(1) [THEN conjunct1] st(1) [THEN conjunct2] assms(7)]
  have r: "su_update fl d u = (if interval_passed (su_staminaSyncTimer ?u2)
      then (su_sendSyncStamina STAMINA_FLAG_NONE ?u2)\<lparr>su_staminaSyncTimer := interval_reset (su_staminaSyncTimer ?u2)\<rparr> else ?u2)"
    using c(7,8) by (simp add: su_update_def su_sendSyncStamina_def Let_def)
  show ?thesis
  proof (cases "dt_current (su_staminaTimer u) \<le> ?dt")
    case True
    have "it_remainder ?sync + d \<ge> ?dt"
      using st(2,3) c(4) by (cases "interval_passed (interval_update d ?sync)") auto
    then have "D \<le> e + d" using True c(6) by simp
    then have "charged s D (e + d) (su_update fl d u)" using up(1) [OF True] by (simp add: r charged_def su_sendSyncStamina_def)
    then show ?thesis ..
  next
    case False
    then have f: "?dt < dt_current (su_staminaTimer u)" by simp
    note q = up(2) [OF f]
    have y: "su_staminaSyncTimer ?u = ?sync" using q by simp
    have "charging s D (e + d) (su_update fl d u)"
      using q st(1,2,3) c assms(5) f
      by (cases "interval_passed (interval_update d ?sync)") (auto simp: r y charging_def su_sendSyncStamina_def Let_def)
    then show ?thesis ..
  qed
qed

lemma su_updates_charging:
  assumes "float_rounding fl" and "0 < s" and "s \<le> STAMINA_LIMIT" and "int32_range D"
    and "list_all (\<lambda>d. 0 \<le> d \<and> d \<le> STAMINA_SYNC_INTERVAL) ds" and "charging s D e u \<or> charged s D e u"
  shows "charging s D (e + sum_list ds) (fold (su_update fl) ds u) \<or> charged s D (e + sum_list ds) (fold (su_update fl) ds u)"
  using assms(5,6)
proof (induction ds arbitrary: e u)
  case (Cons d ds)
  have d: "0 \<le> d" "d \<le> STAMINA_SYNC_INTERVAL" using Cons.prems(1) by simp_all
  have "charging s D (e + d) (su_update fl d u) \<or> charged s D (e + d) (su_update fl d u)"
  proof (cases "charging s D e u")
    case True
    then show ?thesis using su_update_charging assms(1-4) d by blast
  next
    case False
    then have "charged s D e u" using Cons.prems(2) by blast
    then show ?thesis using d by (simp add: charged_def su_update_def)
  qed
  from Cons.IH [OF _ this] Cons.prems(1) show ?case by (simp add: add.assoc)
qed simp

text \<open>
  C39: A robot that starts to charge with some stamina and is updated at least every 200 milliseconds is not charged before the
  time its stamina lasts, and is charged at most 200 milliseconds after it; all of its stamina is in the attack then.
\<close>
theorem charging_takes_its_time:
  assumes "float_rounding fl" and "su_ok u" and "su_chargeState u = CHARGE_STATE_NONE" and "0 < sd_stamina (su_data u)"
    and "D = i32 (su_chargeDuration fl (sd_stamina (su_data u)) (sd_chargeConsumesStamina (su_data u)))" and "0 < D"
    and "it_interval (su_staminaSyncTimer u) = STAMINA_SYNC_INTERVAL" and "it_makeUpForLostTime (su_staminaSyncTimer u)"
    and "i32 (it_current (su_staminaSyncTimer u) + it_remainder (su_staminaSyncTimer u)) \<le> STAMINA_SYNC_INTERVAL"
    and "list_all (\<lambda>d. 0 \<le> d \<and> d \<le> STAMINA_SYNC_INTERVAL) ds"
  shows "\<exists>u1. su_charge fl u = Some u1 \<and> (let u2 = fold (su_update fl) ds u1 in
     (sum_list ds < D \<longrightarrow> su_chargeState u2 = CHARGE_STATE_CHARGING)
     \<and> (D + STAMINA_SYNC_INTERVAL \<le> sum_list ds \<longrightarrow> su_chargeState u2 = CHARGE_STATE_FULLY)
     \<and> (su_chargeState u2 = CHARGE_STATE_FULLY \<longrightarrow> sd_stamina (su_data u2) = 0 \<and> sd_chargedStamina (su_data u2) = sd_stamina (su_data u)))"
proof -
  let ?s = "sd_stamina (su_data u)"
  obtain u0 where u0: "su_stopRegenStamina u = Some u0" "su_ok u0" "su_diffStamina u0 \<le> 0" "su_data u0 = su_data u" "su_chargeState u0 = CHARGE_STATE_NONE"
    using su_stopRegen_ok [OF assms(2)] assms(3) by auto
  have y: "su_staminaSyncTimer u0 = su_staminaSyncTimer u" using u0(1) by (auto simp: su_stopRegenStamina_def split: if_splits)
  have z: "su_diffStamina u0 = 0" using u0(2,3,5) by (simp add: su_ok_def)
  have s: "?s \<le> STAMINA_LIMIT" "i32 (- ?s) = - ?s" using assms(2,4) by (auto simp: su_ok_def sd_ok_def intro!: i32_limit)
  have R: "int32_range D" unfolding assms(5) by (rule i32_range)
  obtain u1 where u1: "su_charge fl u = Some u1" "charging ?s D 0 u1"
    using u0 z s(2) assms(3-9)
    by (auto simp: su_charge_def charging_def delay_setDuration_def interval_reset_def y STAMINA_SYNC_INTERVAL_def Let_def)
  let ?u2 = "fold (su_update fl) ds u1"
  have "charging ?s D (sum_list ds) ?u2 \<or> charged ?s D (sum_list ds) ?u2"
    using su_updates_charging [OF assms(1,4) s(1) R assms(10), of 0 u1] u1(2) by simp
  then show ?thesis using u1(1) by (auto simp: charging_def charged_def Let_def)
qed

definition sw_data :: stamina_data where
  "sw_data = \<lparr>sd_flags = 0, sd_stamina = 100, sd_maxStamina = 120, sd_staminaRegenRate = 1 / 4, sd_chargeStartStamina = 0, sd_chargedStamina = 0,
     sd_chargeConsumesStamina = 80, sd_attackTakesStamina = 30\<rparr>"

theorem charging_takes_its_time_witness:
  "\<exists>u1. su_charge id (su_new sw_data) = Some u1 \<and> su_chargeState (fold (su_update id) (replicate 10 150) u1) = CHARGE_STATE_FULLY
     \<and> sd_chargedStamina (su_data (fold (su_update id) (replicate 10 150) u1)) = 100"
proof -
  have ok: "su_ok (su_new sw_data)"
    by (simp add: su_ok_def su_new_def sd_ok_def sw_data_def sd_hasStaminaFlag_def delay_new_def STAMINA_LIMIT_def)
  have t: "1250 = i32 (su_chargeDuration id (sd_stamina (su_data (su_new sw_data))) (sd_chargeConsumesStamina (su_data (su_new sw_data))))"
    by code_simp
  have i: "i32 (it_current (su_staminaSyncTimer (su_new sw_data)) + it_remainder (su_staminaSyncTimer (su_new sw_data))) \<le> STAMINA_SYNC_INTERVAL"
    by code_simp
  have n: "su_chargeState (su_new sw_data) = CHARGE_STATE_NONE" "0 < sd_stamina (su_data (su_new sw_data))" "sd_stamina (su_data (su_new sw_data)) = 100"
      "it_interval (su_staminaSyncTimer (su_new sw_data)) = STAMINA_SYNC_INTERVAL" "it_makeUpForLostTime (su_staminaSyncTimer (su_new sw_data))"
    by (simp_all add: su_new_def sw_data_def interval_new_def interval_setInterval_def)
  have l: "list_all (\<lambda>d. 0 \<le> d \<and> d \<le> STAMINA_SYNC_INTERVAL) (replicate 10 (150 :: int))" by (simp add: STAMINA_SYNC_INTERVAL_def eval_nat_numeral)
  have "1250 + STAMINA_SYNC_INTERVAL \<le> sum_list (replicate 10 (150 :: int))" by (simp add: STAMINA_SYNC_INTERVAL_def eval_nat_numeral)
  with charging_takes_its_time [OF float_rounding_id ok n(1,2) t _ n(4,5) i l]
  show ?thesis by (auto simp: n(3) Let_def)
qed

lemma regen_step:
  assumes "float_rounding fl" and "su_ok u" and "su_chargeState u = CHARGE_STATE_NONE" and "su_startStamina u + su_diffStamina u = m" and "0 < su_diffStamina u"
    and "0 < dt_current (su_staminaTimer u)" and "dt_current (su_staminaTimer u) \<le> dt_duration (su_staminaTimer u)"
    and "int32_range (dt_duration (su_staminaTimer u))" and "0 \<le> d" and "int32_range d"
  shows "dt_current (su_staminaTimer u) \<le> d \<Longrightarrow>
      su_diffStamina (su_update fl d u) = 0 \<and> sd_stamina (su_data (su_update fl d u)) = m \<and> su_chargeState (su_update fl d u) = CHARGE_STATE_NONE"
    and "d < dt_current (su_staminaTimer u) \<Longrightarrow>
      su_chargeState (su_update fl d u) = CHARGE_STATE_NONE \<and> su_startStamina (su_update fl d u) = su_startStamina u
      \<and> su_diffStamina (su_update fl d u) = su_diffStamina u \<and> dt_duration (su_staminaTimer (su_update fl d u)) = dt_duration (su_staminaTimer u)
      \<and> dt_current (su_staminaTimer (su_update fl d u)) = dt_current (su_staminaTimer u) - d"
proof -
  let ?t = "delay_update d (su_staminaTimer u)"
  have w: "i32 (dt_current (su_staminaTimer u) - d) = dt_current (su_staminaTimer u) - d"
    using assms(6-10) by (intro i32_id) (simp add: int32_range_def)
  have t: "dt_duration ?t = dt_duration (su_staminaTimer u)" "dt_current ?t = dt_current (su_staminaTimer u) - d"
    using assms(6) w by (simp_all add: delay_update_def)
  have b: "\<bar>su_diffStamina u\<bar> \<le> 16777216" "i32 m = m"
    using assms(2-5) by (auto simp: su_ok_def STAMINA_LIMIT_def intro!: i32_limit)
  show "su_diffStamina (su_update fl d u) = 0 \<and> sd_stamina (su_data (su_update fl d u)) = m \<and> su_chargeState (su_update fl d u) = CHARGE_STATE_NONE"
    if p: "dt_current (su_staminaTimer u) \<le> d"
  proof -
    have sc: "su_scale fl ?t = 0" using su_scale_bounds(3) [OF assms(1), of ?t] t assms(6,7) p by simp
    have "trunc (fl (fl (of_int (su_diffStamina u)) * fl (1 - su_scale fl ?t))) = su_diffStamina u"
      using trunc_scaled(3) [OF assms(1) b(1), of "su_scale fl ?t"] sc by simp
    then show ?thesis using assms(3-5) t p b(2) by (simp add: su_update_def su_updateStamina_def delay_passed_def Let_def)
  qed
  show "su_chargeState (su_update fl d u) = CHARGE_STATE_NONE \<and> su_startStamina (su_update fl d u) = su_startStamina u
      \<and> su_diffStamina (su_update fl d u) = su_diffStamina u \<and> dt_duration (su_staminaTimer (su_update fl d u)) = dt_duration (su_staminaTimer u)
      \<and> dt_current (su_staminaTimer (su_update fl d u)) = dt_current (su_staminaTimer u) - d"
    if "d < dt_current (su_staminaTimer u)"
    using that assms(3,5) t by (simp add: su_update_def su_updateStamina_def delay_passed_def Let_def)
qed

lemma regen_reaches_maximum:
  \<comment> \<open>regeneration ends exactly with the duration computed at its start, at the maximum\<close>
  assumes "float_rounding fl" and "su_ok u" and "su_chargeState u = CHARGE_STATE_NONE" and "su_startStamina u + su_diffStamina u = m" and "0 < su_diffStamina u"
    and "0 < dt_current (su_staminaTimer u)" and "dt_current (su_staminaTimer u) \<le> dt_duration (su_staminaTimer u)"
    and "int32_range (dt_duration (su_staminaTimer u))" and "list_all (\<lambda>d. 0 \<le> d \<and> int32_range d) ds"
  shows "(dt_current (su_staminaTimer u) \<le> sum_list ds \<longrightarrow> sd_stamina (su_data (fold (su_update fl) ds u)) = m)
    \<and> (su_diffStamina (fold (su_update fl) ds u) = 0 \<longleftrightarrow> dt_current (su_staminaTimer u) \<le> sum_list ds)"
  using assms(2-)
proof (induction ds arbitrary: u)
  case (Cons d ds)
  have d: "0 \<le> d" "int32_range d" "list_all (\<lambda>d. 0 \<le> d \<and> int32_range d) ds" using Cons.prems(8) by simp_all
  have nn: "0 \<le> sum_list ds" using d(3) by (auto simp: list_all_iff intro!: sum_list_nonneg)
  note st = regen_step [OF assms(1) Cons.prems(1-7) d(1,2)]
  have ok: "su_ok (su_update fl d u)" by (rule su_update_ok [OF assms(1) Cons.prems(1)])
  show ?case
  proof (cases "dt_current (su_staminaTimer u) \<le> d")
    case True
    have "su_diffStamina (fold (su_update fl) ds v) = 0 \<and> sd_stamina (su_data (fold (su_update fl) ds v)) = sd_stamina (su_data v)"
      if "su_diffStamina v = 0" for v
      using that by (induction ds arbitrary: v) (simp_all add: su_update_def)
    from this [of "su_update fl d u"] show ?thesis using st(1) [OF True] True nn by simp
  next
    case False
    then have f: "d < dt_current (su_staminaTimer u)" by simp
    note q = st(2) [OF f]
    from Cons.IH [OF ok] q Cons.prems(2-7) d f show ?thesis by auto
  qed
qed simp

end
