(* ===== verification/Robot_Attack.thy ===== *)
theory Robot_Attack
  imports Robot_Stamina "HOL-Library.Signed_Division"
begin

text \<open>
  How a robot attacks, \<^verbatim>\<open>behaviors/Robot.cpp\<close>: it throws at intervals, in a burst, or once after charging; before the
  first throw it raises its hand and some time after the last it lowers it. The stamina it spends is
  \<open>Robot_Stamina\<close>. A failed assertion, those of debug builds included, and a division by zero are \<open>None\<close>. Where it aims,
  random numbers and what the robot sees are arguments. The projectile itself, the reference to it and the end of a
  concealment are not in the state; a message about the hand is an event.
\<close>

section \<open>State\<close>

datatype attack_speed = ATTACK_SPEED_NONE | ATTACK_SPEED_FAST | ATTACK_SPEED_SLOW

datatype projectile_type = PROJECTILE_TYPE_NORMAL | PROJECTILE_TYPE_CHARGED | PROJECTILE_TYPE_INTENSIFIED

datatype robot_event =
    MoveSync bool
  | Launched projectile_type rat int charge_state
    \<comment> \<open>direction, charged stamina and the charge state at the launch\<close>

definition ATTACK_INTERVAL :: NSTime where "ATTACK_INTERVAL = 100"
definition EXPECTED_NUMBER_OF_ATTACKS_MIN :: int where "EXPECTED_NUMBER_OF_ATTACKS_MIN = 2"
definition NORMAL_ATTACK_MIN_INTERVAL :: NSTime where "NORMAL_ATTACK_MIN_INTERVAL = 120"
definition NORMAL_ATTACK_MAX_INTERVAL :: NSTime where "NORMAL_ATTACK_MAX_INTERVAL = 150"
definition CHARGE_START_STAMINA_RATIO :: rat where "CHARGE_START_STAMINA_RATIO = 4 / 5"
definition HAND_DOWN_DELAY :: NSTime where "HAND_DOWN_DELAY = 500"

record robot =
  rb_stamina :: stamina_updater
  rb_isAlive :: bool
  rb_isInWorld :: bool
  rb_isHandUp :: bool
  rb_isAttackingState :: bool
  rb_target :: "nat option"
  rb_attacking :: "nat option"
  rb_attackerOf :: "nat set"
  rb_watcherOf :: "nat set"
  rb_isAttackModeDirty :: bool
  rb_attackTimer :: NSTime
  rb_attackLostTime :: NSTime
  rb_attackInterval :: NSTime
  rb_attackMinInterval :: NSTime
  rb_attackMaxInterval :: NSTime
  rb_attackSpeed :: attack_speed
  rb_numAttacks :: int
  rb_isContinuousAttack :: bool
  rb_attackDirection :: "rat option"
    \<comment> \<open>\<open>None\<close> is \<^verbatim>\<open>FLT_MAX\<close>\<close>
  rb_attackDelayTimer :: delay_timer
  rb_isAttackDelayed :: bool
  rb_isHandDownTimerEnabled :: bool
  rb_handDownTimer :: delay_timer
  rb_events :: "robot_event list"

definition rb_new :: "stamina_data \<Rightarrow> robot" where
  "rb_new d = \<lparr>rb_stamina = su_new d, rb_isAlive = True, rb_isInWorld = False, rb_isHandUp = False, rb_isAttackingState = False, rb_target = None,
     rb_attacking = None, rb_attackerOf = {}, rb_watcherOf = {}, rb_isAttackModeDirty = False, rb_attackTimer = 0, rb_attackLostTime = 0,
     rb_attackInterval = 0, rb_attackMinInterval = 0, rb_attackMaxInterval = 0, rb_attackSpeed = ATTACK_SPEED_NONE, rb_numAttacks = 0,
     rb_isContinuousAttack = False, rb_attackDirection = Some 0, rb_attackDelayTimer = delay_new, rb_isAttackDelayed = False,
     rb_isHandDownTimerEnabled = False, rb_handDownTimer = delay_new, rb_events = []\<rparr>"

abbreviation rb_data :: "robot \<Rightarrow> stamina_data" where
  "rb_data rb \<equiv> su_data (rb_stamina rb)"

definition rb_setStamina :: "robot \<Rightarrow> stamina_updater \<Rightarrow> robot" where
  "rb_setStamina rb u = rb\<lparr>rb_stamina := u\<rparr>"

definition rb_event :: "robot_event \<Rightarrow> robot \<Rightarrow> robot" where
  "rb_event e rb = rb\<lparr>rb_events := rb_events rb @ [e]\<rparr>"

definition rb_sendMoveSync :: "robot \<Rightarrow> robot" where
  "rb_sendMoveSync rb = rb_event (MoveSync (rb_isHandUp rb)) rb"

section \<open>Targets\<close>

definition rb_relocateAttackTarget :: "bool \<Rightarrow> robot \<Rightarrow> robot" where
  "rb_relocateAttackTarget lineOfSight rb =
     (case rb_attacking rb of
        None \<Rightarrow> rb
      | Some t \<Rightarrow> rb\<lparr>rb_watcherOf := (if lineOfSight then insert t (rb_watcherOf rb) else rb_watcherOf rb - {t}), rb_isAttackModeDirty := True\<rparr>)"

definition rb_setAttackTarget :: "nat \<Rightarrow> bool \<Rightarrow> robot \<Rightarrow> bool \<times> robot" where
  "rb_setAttackTarget target lineOfSight rb =
     (if rb_attacking rb = Some target then (False, rb)
      else
        let rb1 = (case rb_attacking rb of
                     None \<Rightarrow> rb
                   | Some t \<Rightarrow> rb\<lparr>rb_watcherOf := rb_watcherOf rb - {t}, rb_attackerOf := rb_attackerOf rb - {t}\<rparr>);
            rb2 = rb_relocateAttackTarget lineOfSight (rb1\<lparr>rb_attackerOf := insert target (rb_attackerOf rb1), rb_attacking := Some target\<rparr>)
        in (True, rb2\<lparr>rb_target := Some target\<rparr>))"

section \<open>Timers\<close>

definition rb_setAttackTimer :: "NSTime \<Rightarrow> NSTime \<Rightarrow> robot \<Rightarrow> robot" where
  "rb_setAttackTimer interval delay rb = rb\<lparr>rb_attackTimer := delay, rb_attackInterval := interval, rb_attackLostTime := 0\<rparr>"

definition rb_resetAttackTimer :: "robot \<Rightarrow> robot" where
  "rb_resetAttackTimer rb = rb\<lparr>rb_attackTimer := rb_attackInterval rb\<rparr>"

definition rb_updateAttackTimer :: "NSTime \<Rightarrow> robot \<Rightarrow> robot" where
  "rb_updateAttackTimer diff rb =
     (if rb_attackSpeed rb = ATTACK_SPEED_NONE \<and> \<not> rb_isContinuousAttack rb then rb
      else if rb_attackTimer rb > 0 then
        if diff < i32 (rb_attackTimer rb - rb_attackLostTime rb) then rb\<lparr>rb_attackTimer := i32 (rb_attackTimer rb - diff)\<rparr>
        else rb\<lparr>rb_attackLostTime := i32 (diff - i32 (rb_attackTimer rb - rb_attackLostTime rb)), rb_attackTimer := 0\<rparr>
      else rb)"

definition rb_stopAttackDelayTimer :: "robot \<Rightarrow> robot" where
  "rb_stopAttackDelayTimer rb = rb\<lparr>rb_attackDelayTimer := delay_reset (rb_attackDelayTimer rb), rb_isAttackDelayed := False\<rparr>"

definition rb_startHandDownTimer :: "robot \<Rightarrow> robot option" where
  "rb_startHandDownTimer rb =
     (if \<not> rb_isHandUp rb then None
      else Some (rb\<lparr>rb_handDownTimer := delay_setDuration HAND_DOWN_DELAY (rb_handDownTimer rb), rb_isHandDownTimerEnabled := True\<rparr>))"

definition rb_stopHandDownTimer :: "robot \<Rightarrow> robot" where
  "rb_stopHandDownTimer rb = rb\<lparr>rb_handDownTimer := delay_reset (rb_handDownTimer rb), rb_isHandDownTimerEnabled := False\<rparr>"

definition rb_updateHandDownTimer :: "NSTime \<Rightarrow> robot \<Rightarrow> robot option" where
  "rb_updateHandDownTimer diff rb =
     (if \<not> rb_isHandDownTimerEnabled rb then Some rb
      else
        let rb1 = rb\<lparr>rb_handDownTimer := delay_update diff (rb_handDownTimer rb)\<rparr>
        in if \<not> delay_passed (rb_handDownTimer rb1) then Some rb1
           else if \<not> rb_isHandUp rb1 then None
           else if su_isInCharge (rb_stamina rb1) then None
           else if rb_isAttackDelayed rb1 then None
           else Some (rb_stopHandDownTimer (rb_sendMoveSync (rb1\<lparr>rb_isHandUp := False\<rparr>))))"

section \<open>Modes\<close>

definition rb_stopContinuousAttack :: "robot \<Rightarrow> robot" where
  "rb_stopContinuousAttack rb =
     (if \<not> rb_isContinuousAttack rb then rb
      else rb_resetAttackTimer (rb\<lparr>rb_isContinuousAttack := False, rb_numAttacks := 0, rb_attackDirection := None\<rparr>))"

definition rb_stopNormalAttack :: "robot \<Rightarrow> robot" where
  "rb_stopNormalAttack rb =
     (if rb_attackSpeed rb = ATTACK_SPEED_NONE then rb
      else rb_resetAttackTimer (rb\<lparr>rb_attackSpeed := ATTACK_SPEED_NONE, rb_attackMinInterval := 0, rb_attackMaxInterval := 0\<rparr>))"

definition rb_regenSpeed :: "(rat \<Rightarrow> rat) \<Rightarrow> stamina_data \<Rightarrow> rat" where
  "rb_regenSpeed fl d = fl (sd_staminaRegenRate d * fl (of_int (sd_maxStamina d)))"

definition rb_startNormalAttack :: "(rat \<Rightarrow> rat) \<Rightarrow> attack_speed \<Rightarrow> robot \<Rightarrow> robot" where
  "rb_startNormalAttack fl speed rb =
     (if rb_attackSpeed rb = speed then rb
      else
        let rb1 = rb_stopContinuousAttack (rb\<lparr>rb_attackSpeed := speed\<rparr>);
            rb2 = (case speed of
                     ATTACK_SPEED_SLOW \<Rightarrow>
                       let attackInr = i32 \<lceil>fl (fl (fl (of_int (sd_attackTakesStamina (rb_data rb1))) / rb_regenSpeed fl (rb_data rb1)) * 1000)\<rceil>;
                           attackInr = max NORMAL_ATTACK_MIN_INTERVAL attackInr
                       in rb1\<lparr>rb_attackMinInterval := attackInr, rb_attackMaxInterval := i32 (attackInr * 2)\<rparr>
                   | ATTACK_SPEED_FAST \<Rightarrow>
                       rb1\<lparr>rb_attackMinInterval := NORMAL_ATTACK_MIN_INTERVAL, rb_attackMaxInterval := NORMAL_ATTACK_MAX_INTERVAL\<rparr>
                   | ATTACK_SPEED_NONE \<Rightarrow> rb1)
        in rb_setAttackTimer 0 (rb_attackMinInterval rb2) rb2)"

definition int_div :: "int \<Rightarrow> int \<Rightarrow> int option" where
  "int_div x y = (if y = 0 then None else Some (i32 (x sdiv y)))"

definition rb_startContinuousAttack :: "(rat \<Rightarrow> rat) \<Rightarrow> int \<Rightarrow> robot \<Rightarrow> (bool \<times> robot) option" where
  \<comment> \<open>the random delay follows the proficiency of the robot\<close>
  "rb_startContinuousAttack fl delay rb =
     (if rb_isContinuousAttack rb then Some (True, rb)
      else
        let rb1 = rb_stopNormalAttack rb; d = rb_data rb1; regenSpeed = rb_regenSpeed fl d;
            regenPoints = i32 (trunc (fl (regenSpeed * fl (fl (of_int delay) / 1000))) + sd_stamina d);
            regenPoints = min (sd_maxStamina d) regenPoints
        in do {
             nAttacks \<leftarrow> int_div regenPoints (sd_attackTakesStamina d);
             if nAttacks > 0 then do {
               more \<leftarrow> int_div (trunc (fl (regenSpeed * fl (fl (of_int (nAttacks - 1)) * fl (of_int ATTACK_INTERVAL / 1000))))) (sd_attackTakesStamina d);
               let nAttacks = i32 (nAttacks + more)
               in if nAttacks \<ge> EXPECTED_NUMBER_OF_ATTACKS_MIN
                  then Some (True, rb_setAttackTimer ATTACK_INTERVAL delay
                         (rb1\<lparr>rb_numAttacks := nAttacks, rb_isContinuousAttack := True, rb_attackDirection := None\<rparr>))
                  else Some (False, rb1)
             } else Some (False, rb1)
           })"

definition rb_charge :: "(rat \<Rightarrow> rat) \<Rightarrow> robot \<Rightarrow> robot option" where
  "rb_charge fl rb =
     (if su_isInCharge (rb_stamina rb) then Some rb
      else
        let rb1 = rb_stopAttackDelayTimer (rb_stopContinuousAttack (rb_stopNormalAttack rb));
            rb2 = (if rb_isHandDownTimerEnabled rb1 then rb_stopHandDownTimer rb1
                   else if \<not> rb_isHandUp rb1 then rb_sendMoveSync (rb1\<lparr>rb_isHandUp := True\<rparr>)
                   else rb1)
        in if \<not> rb_isHandUp rb2 then None else map_option (rb_setStamina rb2) (su_charge fl (rb_stamina rb2)))"

definition rb_chargeStop :: "(rat \<Rightarrow> rat) \<Rightarrow> robot \<Rightarrow> robot option" where
  "rb_chargeStop fl rb =
     (if \<not> su_isInCharge (rb_stamina rb) then Some rb
      else
        let rb1 = (if rb_isHandUp rb then rb_sendMoveSync (rb\<lparr>rb_isHandUp := False\<rparr>) else rb)
        in map_option (rb_setStamina rb1) (su_chargeStop fl (rb_stamina rb1)))"

definition rb_canCharge :: "(rat \<Rightarrow> rat) \<Rightarrow> bool \<Rightarrow> bool \<Rightarrow> robot \<Rightarrow> bool" where
  \<comment> \<open>a maximum of zero makes the ratio a NaN or an infinity, which is not below the limit\<close>
  "rb_canCharge fl chargedAttackEnabled moving rb =
     (if \<not> chargedAttackEnabled then False
      else if su_isInCharge (rb_stamina rb) then False
      else if rb_attacking rb \<noteq> None \<and> \<not> moving then False
      else if sd_maxStamina (rb_data rb) \<noteq> 0
              \<and> fl (fl (of_int (sd_stamina (rb_data rb))) / fl (of_int (sd_maxStamina (rb_data rb)))) < fl CHARGE_START_STAMINA_RATIO then False
      else True)"

definition rb_isAttackReady :: "robot \<Rightarrow> bool" where
  "rb_isAttackReady rb =
     (if su_canAttack (rb_stamina rb) then
        if su_isInCharge (rb_stamina rb) then True
        else (rb_attackSpeed rb \<noteq> ATTACK_SPEED_NONE \<or> rb_isContinuousAttack rb) \<and> \<not> rb_isAttackDelayed rb \<and> rb_attackTimer rb \<le> 0
      else False)"

record attack_view =
  \<comment> \<open>what a robot sees when it chooses a mode\<close>
  av_isFastTarget :: bool
    \<comment> \<open>not a unit, near, not moving, or the robot is slow\<close>
  av_isWithinChargedDist :: bool
  av_chargedAttackEnabled :: bool
  av_moving :: bool
  av_delay :: int

definition rb_updateAttackMode :: "(rat \<Rightarrow> rat) \<Rightarrow> attack_view \<Rightarrow> robot \<Rightarrow> robot option" where
  "rb_updateAttackMode fl v rb =
     (if \<not> rb_isAttackModeDirty rb then Some rb
      else
        let rb1 = rb\<lparr>rb_isAttackModeDirty := False\<rparr>
        in if rb_attacking rb1 = None then Some rb1
           else if rb_isAttackDelayed rb1 then Some rb1
           else if su_isInCharge (rb_stamina rb1) then Some rb1
           else if av_isFastTarget v then Some (rb_startNormalAttack fl ATTACK_SPEED_FAST rb1)
           else if av_isWithinChargedDist v \<and> rb_canCharge fl (av_chargedAttackEnabled v) (av_moving v) rb1 then rb_charge fl rb1
           else map_option (\<lambda>(started, rb2). if \<not> started then rb_startNormalAttack fl ATTACK_SPEED_SLOW rb2 else rb2)
                  (rb_startContinuousAttack fl (av_delay v) rb1))"

section \<open>Attacks\<close>

record aim =
  \<comment> \<open>the aimed direction, the direction to the target, the roll for an intensified projectile and the random interval\<close>
  am_aimed :: rat
  am_facing :: rat
  am_intensified :: bool
  am_delay :: NSTime

definition rb_attackInternal :: "(rat \<Rightarrow> rat) \<Rightarrow> aim \<Rightarrow> robot \<Rightarrow> robot option" where
  "rb_attackInternal fl am rb =
     (if rb_attacking rb = None then Some rb
      else if rb_isContinuousAttack rb \<and> \<not> (\<not> su_isInCharge (rb_stamina rb) \<and> rb_attackSpeed rb = ATTACK_SPEED_NONE) then None
      else
        let rb1 = (if rb_isContinuousAttack rb \<and> rb_attackDirection rb = None then rb\<lparr>rb_attackDirection := Some (am_aimed am)\<rparr> else rb);
            direction = (if rb_isContinuousAttack rb1 then the (rb_attackDirection rb1)
                         else if su_isInCharge (rb_stamina rb1) then am_aimed am else am_facing am);
            projectile = (if su_isInCharge (rb_stamina rb1) then PROJECTILE_TYPE_CHARGED
                          else if am_intensified am then PROJECTILE_TYPE_INTENSIFIED else PROJECTILE_TYPE_NORMAL);
            rb2 = rb_event (Launched projectile direction (sd_chargedStamina (rb_data rb1)) (su_chargeState (rb_stamina rb1)))
                    (rb1\<lparr>rb_isAttackingState := True\<rparr>)
        in do {
             rb3 \<leftarrow>
               (if \<not> su_isInCharge (rb_stamina rb2) then
                  if rb_isContinuousAttack rb2 then
                    let rb3 = rb2\<lparr>rb_numAttacks := i32 (rb_numAttacks rb2 - 1)\<rparr>;
                        rb4 = (if rb_numAttacks rb3 \<le> 0 \<or> sd_stamina (rb_data rb3) < sd_attackTakesStamina (rb_data rb3)
                               then rb3\<lparr>rb_numAttacks := 0, rb_isContinuousAttack := False, rb_attackDirection := None, rb_isAttackModeDirty := True\<rparr>
                               else rb3)
                    in Some (rb_resetAttackTimer rb4)
                  else if rb_attackSpeed rb2 = ATTACK_SPEED_NONE then None
                  else Some (rb_setAttackTimer 0 (am_delay am) rb2)
                else Some (rb2\<lparr>rb_isAttackModeDirty := True\<rparr>));
             u \<leftarrow> su_deductStaminaForAttack fl (rb_stamina rb3);
             rb_startHandDownTimer (rb_setStamina rb3 u)
           })"

definition rb_attackDelayed :: "robot \<Rightarrow> robot option" where
  "rb_attackDelayed rb =
     (if rb_isAttackDelayed rb then Some rb
      else if su_isInCharge (rb_stamina rb) then None
      else
        let rb1 = (rb_sendMoveSync (rb\<lparr>rb_isHandUp := True\<rparr>))\<lparr>rb_attackLostTime := 0\<rparr>
        in Some (rb1\<lparr>rb_attackDelayTimer := delay_setDuration ATTACK_INTERVAL (rb_attackDelayTimer rb1), rb_isAttackDelayed := True\<rparr>))"

definition rb_attack :: "(rat \<Rightarrow> rat) \<Rightarrow> aim \<Rightarrow> robot \<Rightarrow> robot option" where
  "rb_attack fl am rb =
     (if rb_attacking rb = None then Some rb
      else if rb_isHandUp rb then rb_attackInternal fl am rb
      else if su_isInCharge (rb_stamina rb) then None
      else if rb_isHandDownTimerEnabled rb then None
      else rb_attackDelayed rb)"

definition rb_updateAttackDelayTimer :: "(rat \<Rightarrow> rat) \<Rightarrow> NSTime \<Rightarrow> aim \<Rightarrow> robot \<Rightarrow> robot option" where
  "rb_updateAttackDelayTimer fl diff am rb =
     (if \<not> rb_isAttackDelayed rb then Some rb
      else
        let rb1 = rb\<lparr>rb_attackDelayTimer := delay_update diff (rb_attackDelayTimer rb)\<rparr>
        in if delay_passed (rb_attackDelayTimer rb1) then map_option rb_stopAttackDelayTimer (rb_attackInternal fl am rb1) else Some rb1)"

definition rb_attackStop :: "robot \<Rightarrow> (bool \<times> robot) option" where
  "rb_attackStop rb =
     (case rb_attacking rb of
        None \<Rightarrow> Some (False, rb)
      | Some t \<Rightarrow>
          let rb1 = rb_stopContinuousAttack (rb_stopNormalAttack
                      (rb\<lparr>rb_target := None, rb_watcherOf := rb_watcherOf rb - {t}, rb_attackerOf := rb_attackerOf rb - {t}\<rparr>))
          in do {
               rb2 \<leftarrow>
                 (if rb_isAlive rb1 then
                    if rb_isAttackDelayed rb1 then
                      if su_isInCharge (rb_stamina rb1) \<or> \<not> rb_isHandUp rb1 then None
                      else Some (rb_sendMoveSync (rb1\<lparr>rb_isHandUp := False\<rparr>))
                    else Some rb1
                  else Some ((rb_stopHandDownTimer rb1)\<lparr>rb_isHandUp := False\<rparr>));
               let rb3 = rb_stopAttackDelayTimer rb2
               in Some (True, rb3\<lparr>rb_isAttackModeDirty := False, rb_attacking := None, rb_isAttackingState := False\<rparr>)
             })"

definition rb_combatStop :: "(rat \<Rightarrow> rat) \<Rightarrow> robot \<Rightarrow> robot option" where
  \<comment> \<open>without the combat target, the combat state and the AI\<close>
  "rb_combatStop fl rb = do { rb1 \<leftarrow> rb_chargeStop fl rb; map_option snd (rb_attackStop rb1) }"

definition rb_unlockStop :: "(rat \<Rightarrow> rat) \<Rightarrow> robot \<Rightarrow> robot option" where
  \<comment> \<open>without the unlock target, the unlock state and the AI\<close>
  "rb_unlockStop fl rb = do { r \<leftarrow> rb_attackStop rb; rb_chargeStop fl (snd r) }"

definition rb_stopStaminaUpdate :: "robot \<Rightarrow> robot option" where
  "rb_stopStaminaUpdate rb = map_option (rb_setStamina rb) (su_stop (rb_stamina rb))"

definition rb_unregisterChargedAttack :: "(rat \<Rightarrow> rat) \<Rightarrow> robot \<Rightarrow> robot option" where
  \<comment> \<open>\<^verbatim>\<open>unregisterItemEffect\<close> for \<^verbatim>\<open>ITEM_EFFECT_CHARGED_ATTACK_ENABLED\<close>\<close>
  "rb_unregisterChargedAttack fl rb =
     (if su_isInCharge (rb_stamina rb) then map_option (\<lambda>rb1. rb1\<lparr>rb_isAttackModeDirty := True\<rparr>) (rb_chargeStop fl rb) else Some rb)"

section \<open>Stats, death and reuse\<close>

definition rb_staminaChanged :: "(rat \<Rightarrow> rat) \<Rightarrow> stamina_updater \<Rightarrow> robot \<Rightarrow> robot option" where
  "rb_staminaChanged fl u rb = do {
     u1 \<leftarrow> (if su_isInCharge u then Some (su_chargeUpdate fl u) else su_startRegenStamina fl u);
     Some ((rb_setStamina rb u1)\<lparr>rb_isAttackModeDirty := True\<rparr>)
   }"

definition rb_modifyMaxStamina :: "(rat \<Rightarrow> rat) \<Rightarrow> int \<Rightarrow> robot \<Rightarrow> robot option" where
  "rb_modifyMaxStamina fl stamina rb =
     (let d = (rb_data rb)\<lparr>sd_stamina := min (sd_stamina (rb_data rb)) stamina, sd_maxStamina := stamina\<rparr>
      in rb_staminaChanged fl ((rb_stamina rb)\<lparr>su_data := d\<rparr>) rb)"

definition rb_modifyStaminaRegenRate :: "(rat \<Rightarrow> rat) \<Rightarrow> rat \<Rightarrow> robot \<Rightarrow> robot option" where
  "rb_modifyStaminaRegenRate fl rate rb =
     rb_staminaChanged fl ((rb_stamina rb)\<lparr>su_data := (rb_data rb)\<lparr>sd_staminaRegenRate := rate\<rparr>\<rparr>) rb"

definition rb_modifyChargeConsumesStamina :: "(rat \<Rightarrow> rat) \<Rightarrow> int \<Rightarrow> robot \<Rightarrow> robot option" where
  "rb_modifyChargeConsumesStamina fl stamina rb =
     rb_staminaChanged fl ((rb_stamina rb)\<lparr>su_data := (rb_data rb)\<lparr>sd_chargeConsumesStamina := stamina\<rparr>\<rparr>) rb"

datatype stat_change = ModifyMaxStamina int | ModifyStaminaRegenRate rat | ModifyChargeConsumesStamina int

fun rb_modify :: "(rat \<Rightarrow> rat) \<Rightarrow> stat_change \<Rightarrow> robot \<Rightarrow> robot option" where
  "rb_modify fl (ModifyMaxStamina stamina) rb = rb_modifyMaxStamina fl stamina rb"
| "rb_modify fl (ModifyStaminaRegenRate rate) rb = rb_modifyStaminaRegenRate fl rate rb"
| "rb_modify fl (ModifyChargeConsumesStamina stamina) rb = rb_modifyChargeConsumesStamina fl stamina rb"

fun rb_modifyAll :: "(rat \<Rightarrow> rat) \<Rightarrow> stat_change list \<Rightarrow> robot \<Rightarrow> robot option" where
  "rb_modifyAll fl [] rb = Some rb"
| "rb_modifyAll fl (c # cs) rb = do { rb1 \<leftarrow> rb_modify fl c rb; rb_modifyAll fl cs rb1 }"

definition rb_setDead :: "(rat \<Rightarrow> rat) \<Rightarrow> stat_change list \<Rightarrow> robot \<Rightarrow> robot option" where
  \<comment> \<open>\<^verbatim>\<open>setDeathState(DEATH_STATE_DEAD)\<close>; the changes are what taking away the items does to the stats\<close>
  "rb_setDead fl changes rb = do {
     rb1 \<leftarrow> rb_combatStop fl (rb\<lparr>rb_isAlive := False\<rparr>);
     rb2 \<leftarrow> rb_unlockStop fl rb1;
     rb3 \<leftarrow> rb_stopStaminaUpdate rb2;
     rb4 \<leftarrow> rb_modifyAll fl changes rb3;
     Some (rb_setStamina rb4 ((rb_stamina rb4)\<lparr>su_data := (rb_data rb4)\<lparr>sd_stamina := 0\<rparr>\<rparr>))
   }"

definition rb_addToWorld :: "robot \<Rightarrow> robot" where
  "rb_addToWorld rb = (if rb_isInWorld rb then rb else rb\<lparr>rb_isInWorld := True\<rparr>)"

definition rb_removeFromWorld :: "(rat \<Rightarrow> rat) \<Rightarrow> robot \<Rightarrow> robot option" where
  "rb_removeFromWorld fl rb =
     (if \<not> rb_isInWorld rb then Some rb
      else do {
        rb1 \<leftarrow> rb_combatStop fl (if rb_isAlive rb then (rb_stopHandDownTimer (rb_stopAttackDelayTimer rb))\<lparr>rb_isHandUp := False\<rparr> else rb);
        rb2 \<leftarrow> rb_unlockStop fl rb1;
        rb3 \<leftarrow> rb_stopStaminaUpdate rb2;
        Some (rb3\<lparr>rb_isInWorld := False\<rparr>)
      })"

definition rb_reloadData :: "int \<Rightarrow> rat \<Rightarrow> int \<Rightarrow> int \<Rightarrow> robot \<Rightarrow> robot option" where
  "rb_reloadData maxStamina rate takes consumes rb =
     (let d = (rb_data rb)\<lparr>sd_stamina := maxStamina, sd_maxStamina := maxStamina, sd_staminaRegenRate := rate, sd_attackTakesStamina := takes,
                           sd_chargeConsumesStamina := consumes\<rparr>;
          rb1 = (rb_setStamina rb ((rb_stamina rb)\<lparr>su_data := d\<rparr>))\<lparr>rb_isAlive := True, rb_attackMinInterval := 0, rb_attackMaxInterval := 0\<rparr>
      in if su_isCharging (rb_stamina rb1) \<or> rb_isAttackingState rb1 then None else Some rb1)"

section \<open>Life of a robot\<close>

datatype robot_op =
    RUpdateStamina NSTime
  | RUpdateAttackTimer NSTime
  | RUpdateAttackDelayTimer NSTime aim
  | RUpdateAttackMode attack_view
  | RUpdateHandDownTimer NSTime
  | RSetAttackTarget nat bool
  | RAttackIfReady aim
  | RRelocateAttackTarget bool
  | RTargetGone
  | RCombatStop
  | RUnlockStop
  | RUnregisterChargedAttack
  | RModify stat_change
  | RDie "stat_change list"
  | RAddToWorld
  | RRemoveFromWorld
  | RReload int rat int int

fun rb_apply :: "(rat \<Rightarrow> rat) \<Rightarrow> robot_op \<Rightarrow> robot \<Rightarrow> robot option" where
  \<comment> \<open>the robot is updated, and its AI acts, while it lives in the world; it is reloaded while it does not\<close>
  "rb_apply fl (RUpdateStamina d) rb =
     (if rb_isInWorld rb \<and> rb_isAlive rb then Some (rb_setStamina rb (su_update fl d (rb_stamina rb))) else Some rb)"
| "rb_apply fl (RUpdateAttackTimer d) rb = (if rb_isInWorld rb \<and> rb_isAlive rb then Some (rb_updateAttackTimer d rb) else Some rb)"
| "rb_apply fl (RUpdateAttackDelayTimer d am) rb = (if rb_isInWorld rb \<and> rb_isAlive rb then rb_updateAttackDelayTimer fl d am rb else Some rb)"
| "rb_apply fl (RUpdateAttackMode v) rb = (if rb_isInWorld rb \<and> rb_isAlive rb then rb_updateAttackMode fl v rb else Some rb)"
| "rb_apply fl (RUpdateHandDownTimer d) rb = (if rb_isInWorld rb \<and> rb_isAlive rb then rb_updateHandDownTimer d rb else Some rb)"
| "rb_apply fl (RSetAttackTarget t los) rb = (if rb_isInWorld rb \<and> rb_isAlive rb then Some (snd (rb_setAttackTarget t los rb)) else Some rb)"
| "rb_apply fl (RAttackIfReady am) rb =
     (if rb_isInWorld rb \<and> rb_isAlive rb \<and> rb_isAttackReady rb then rb_attack fl am rb else Some rb)"
| "rb_apply fl (RRelocateAttackTarget los) rb = Some (rb_relocateAttackTarget los rb)"
| "rb_apply fl RTargetGone rb = map_option snd (rb_attackStop rb)"
| "rb_apply fl RCombatStop rb = rb_combatStop fl rb"
| "rb_apply fl RUnlockStop rb = rb_unlockStop fl rb"
| "rb_apply fl RUnregisterChargedAttack rb = rb_unregisterChargedAttack fl rb"
| "rb_apply fl (RModify c) rb = (if rb_isInWorld rb then rb_modify fl c rb else Some rb)"
| "rb_apply fl (RDie changes) rb = (if rb_isInWorld rb \<and> rb_isAlive rb then rb_setDead fl changes rb else Some rb)"
| "rb_apply fl RAddToWorld rb = Some (rb_addToWorld rb)"
| "rb_apply fl RRemoveFromWorld rb = rb_removeFromWorld fl rb"
| "rb_apply fl (RReload maxStamina rate takes consumes) rb =
     (if \<not> rb_isInWorld rb then rb_reloadData maxStamina rate takes consumes rb else Some rb)"

fun rb_run :: "(rat \<Rightarrow> rat) \<Rightarrow> robot_op list \<Rightarrow> robot \<Rightarrow> robot option" where
  "rb_run fl [] rb = Some rb"
| "rb_run fl (p # ps) rb = do { rb1 \<leftarrow> rb_apply fl p rb; rb_run fl ps rb1 }"

section \<open>Invariant\<close>

definition rb_modes :: "robot \<Rightarrow> bool" where
  "rb_modes rb \<longleftrightarrow>
     (rb_isHandDownTimerEnabled rb \<longrightarrow> rb_isHandUp rb \<and> \<not> su_isInCharge (rb_stamina rb) \<and> \<not> rb_isAttackDelayed rb)
     \<and> (rb_isAttackDelayed rb \<longrightarrow> rb_isHandUp rb \<and> \<not> su_isInCharge (rb_stamina rb) \<and> rb_attacking rb \<noteq> None
          \<and> (rb_attackSpeed rb \<noteq> ATTACK_SPEED_NONE \<or> rb_isContinuousAttack rb))
     \<and> (su_isInCharge (rb_stamina rb) \<longrightarrow> rb_isHandUp rb \<and> rb_attackSpeed rb = ATTACK_SPEED_NONE \<and> \<not> rb_isContinuousAttack rb)
     \<and> (rb_isHandUp rb \<longrightarrow> rb_isHandDownTimerEnabled rb \<or> rb_isAttackDelayed rb \<or> su_isInCharge (rb_stamina rb))
     \<and> (rb_isContinuousAttack rb \<longrightarrow> rb_attackSpeed rb = ATTACK_SPEED_NONE)
     \<and> (rb_attacking rb = None \<longrightarrow> rb_attackSpeed rb = ATTACK_SPEED_NONE \<and> \<not> rb_isContinuousAttack rb \<and> \<not> rb_isAttackingState rb)"

definition rb_refs :: "robot \<Rightarrow> bool" where
  "rb_refs rb \<longleftrightarrow> rb_target rb = rb_attacking rb \<and> rb_attackerOf rb = set_option (rb_attacking rb) \<and> rb_watcherOf rb \<subseteq> rb_attackerOf rb"

definition rb_life :: "robot \<Rightarrow> bool" where
  "rb_life rb \<longleftrightarrow> (\<not> rb_isAlive rb \<longrightarrow> rb_attacking rb = None \<and> \<not> su_isInCharge (rb_stamina rb))
     \<and> (\<not> rb_isInWorld rb \<longrightarrow> rb_attacking rb = None \<and> \<not> su_isInCharge (rb_stamina rb) \<and> su_diffStamina (rb_stamina rb) = 0)"

definition rb_fair :: "robot \<Rightarrow> bool" where
  "rb_fair rb \<longleftrightarrow> (\<forall>direction stamina st. Launched PROJECTILE_TYPE_CHARGED direction stamina st \<in> set (rb_events rb) \<longrightarrow> st = CHARGE_STATE_FULLY)"

definition rb_spends :: "robot \<Rightarrow> bool" where
  "rb_spends rb \<longleftrightarrow> su_ok (rb_stamina rb) \<and> 0 < sd_attackTakesStamina (rb_data rb)"

definition rb_ok :: "robot \<Rightarrow> bool" where
  "rb_ok rb \<longleftrightarrow> rb_spends rb \<and> rb_modes rb \<and> rb_refs rb \<and> rb_life rb \<and> rb_fair rb"

lemma su_takes:
  "su_stopRegenStamina u = Some u1 \<Longrightarrow> sd_attackTakesStamina (su_data u1) = sd_attackTakesStamina (su_data u)"
  "su_stopChargeProgress u = Some u1 \<Longrightarrow> sd_attackTakesStamina (su_data u1) = sd_attackTakesStamina (su_data u)"
  "sd_attackTakesStamina (su_data (su_chargeUpdate fl u)) = sd_attackTakesStamina (su_data u)"
  "sd_attackTakesStamina (su_data (su_updateStamina fl diff u)) = sd_attackTakesStamina (su_data u)"
  by (auto simp: su_stopRegenStamina_def su_stopChargeProgress_def su_chargeUpdate_def su_updateStamina_def Let_def split: if_splits)

lemma su_takes_regen:
  "su_startRegenStamina fl u = Some u1 \<Longrightarrow> sd_attackTakesStamina (su_data u1) = sd_attackTakesStamina (su_data u)"
  by (auto simp: su_startRegenStamina_def Let_def split: bind_splits if_splits dest!: su_takes(1,2))

lemma su_takes_all:
  "su_charge fl u = Some u1 \<Longrightarrow> sd_attackTakesStamina (su_data u1) = sd_attackTakesStamina (su_data u)"
  "su_chargeStop fl u = Some u1 \<Longrightarrow> sd_attackTakesStamina (su_data u1) = sd_attackTakesStamina (su_data u)"
  "su_stop u = Some u1 \<Longrightarrow> sd_attackTakesStamina (su_data u1) = sd_attackTakesStamina (su_data u)"
  "su_deductStaminaForAttack fl u = Some u1 \<Longrightarrow> sd_attackTakesStamina (su_data u1) = sd_attackTakesStamina (su_data u)"
  "sd_attackTakesStamina (su_data (su_update fl diff u)) = sd_attackTakesStamina (su_data u)"
  by (auto simp: su_charge_def su_chargeStop_def su_stop_def su_deductStaminaForAttack_def su_update_def su_sendSyncStamina_def su_takes(4) Let_def
      split: bind_splits if_splits dest!: su_takes(1,2) su_takes_regen)

lemma rb_setStamina_fields [simp]:
  "rb_stamina (rb_setStamina rb u) = u" "rb_isAlive (rb_setStamina rb u) = rb_isAlive rb" "rb_isInWorld (rb_setStamina rb u) = rb_isInWorld rb"
  "rb_isHandUp (rb_setStamina rb u) = rb_isHandUp rb" "rb_isAttackingState (rb_setStamina rb u) = rb_isAttackingState rb"
  "rb_target (rb_setStamina rb u) = rb_target rb" "rb_attacking (rb_setStamina rb u) = rb_attacking rb"
  "rb_attackerOf (rb_setStamina rb u) = rb_attackerOf rb" "rb_watcherOf (rb_setStamina rb u) = rb_watcherOf rb"
  "rb_attackSpeed (rb_setStamina rb u) = rb_attackSpeed rb" "rb_isContinuousAttack (rb_setStamina rb u) = rb_isContinuousAttack rb"
  "rb_isAttackDelayed (rb_setStamina rb u) = rb_isAttackDelayed rb" "rb_isHandDownTimerEnabled (rb_setStamina rb u) = rb_isHandDownTimerEnabled rb"
  "rb_events (rb_setStamina rb u) = rb_events rb"
  by (simp_all add: rb_setStamina_def)

lemma rb_stopModes_fields [simp]:
  "rb_attackSpeed (rb_stopNormalAttack rb) = ATTACK_SPEED_NONE" "\<not> rb_isContinuousAttack (rb_stopContinuousAttack rb)"
  "rb_isContinuousAttack (rb_stopNormalAttack rb) = rb_isContinuousAttack rb" "rb_attackSpeed (rb_stopContinuousAttack rb) = rb_attackSpeed rb"
  by (simp_all add: rb_stopNormalAttack_def rb_stopContinuousAttack_def rb_resetAttackTimer_def)

lemma rb_stopNormal_frame [simp]:
  "rb_stamina (rb_stopNormalAttack rb) = rb_stamina rb" "rb_isAlive (rb_stopNormalAttack rb) = rb_isAlive rb"
  "rb_isInWorld (rb_stopNormalAttack rb) = rb_isInWorld rb" "rb_isHandUp (rb_stopNormalAttack rb) = rb_isHandUp rb"
  "rb_isAttackingState (rb_stopNormalAttack rb) = rb_isAttackingState rb" "rb_target (rb_stopNormalAttack rb) = rb_target rb"
  "rb_attacking (rb_stopNormalAttack rb) = rb_attacking rb" "rb_attackerOf (rb_stopNormalAttack rb) = rb_attackerOf rb"
  "rb_watcherOf (rb_stopNormalAttack rb) = rb_watcherOf rb" "rb_isAttackDelayed (rb_stopNormalAttack rb) = rb_isAttackDelayed rb"
  "rb_isHandDownTimerEnabled (rb_stopNormalAttack rb) = rb_isHandDownTimerEnabled rb" "rb_events (rb_stopNormalAttack rb) = rb_events rb"
  by (simp_all add: rb_stopNormalAttack_def rb_resetAttackTimer_def)

lemma rb_stopContinuous_frame [simp]:
  "rb_stamina (rb_stopContinuousAttack rb) = rb_stamina rb" "rb_isAlive (rb_stopContinuousAttack rb) = rb_isAlive rb"
  "rb_isInWorld (rb_stopContinuousAttack rb) = rb_isInWorld rb" "rb_isHandUp (rb_stopContinuousAttack rb) = rb_isHandUp rb"
  "rb_isAttackingState (rb_stopContinuousAttack rb) = rb_isAttackingState rb" "rb_target (rb_stopContinuousAttack rb) = rb_target rb"
  "rb_attacking (rb_stopContinuousAttack rb) = rb_attacking rb" "rb_attackerOf (rb_stopContinuousAttack rb) = rb_attackerOf rb"
  "rb_watcherOf (rb_stopContinuousAttack rb) = rb_watcherOf rb" "rb_isAttackDelayed (rb_stopContinuousAttack rb) = rb_isAttackDelayed rb"
  "rb_isHandDownTimerEnabled (rb_stopContinuousAttack rb) = rb_isHandDownTimerEnabled rb" "rb_events (rb_stopContinuousAttack rb) = rb_events rb"
  by (simp_all add: rb_stopContinuousAttack_def rb_resetAttackTimer_def)

lemmas rb_small = rb_event_def rb_sendMoveSync_def rb_stopAttackDelayTimer_def rb_stopHandDownTimer_def rb_setAttackTimer_def rb_resetAttackTimer_def

lemmas rb_ok_defs = rb_ok_def rb_spends_def rb_modes_def rb_refs_def rb_life_def rb_fair_def

lemma rb_charge_ok:
  assumes "rb_ok rb" and "rb_isAlive rb" and "rb_isInWorld rb"
  shows "\<exists>rb1. rb_charge fl rb = Some rb1 \<and> rb_ok rb1"
proof (cases "su_isInCharge (rb_stamina rb)")
  case True
  then show ?thesis using assms(1) by (simp add: rb_charge_def)
next
  case False
  obtain u where u: "su_charge fl (rb_stamina rb) = Some u" "su_ok u" "su_isInCharge u"
    using su_charge_ok [of "rb_stamina rb" fl] assms(1) by (auto simp: rb_ok_def rb_spends_def)
  show ?thesis using assms u False su_takes_all(1) [OF u(1)]
    by (auto simp: rb_charge_def rb_small rb_ok_defs Let_def)
qed

definition rb_core :: "robot \<Rightarrow> bool" where
  "rb_core rb \<longleftrightarrow> rb_spends rb \<and> rb_modes rb \<and> rb_refs rb \<and> rb_fair rb"

lemma rb_ok_core: "rb_ok rb \<longleftrightarrow> rb_core rb \<and> rb_life rb"
  by (auto simp: rb_ok_def rb_core_def)

lemmas rb_core_defs = rb_core_def rb_spends_def rb_modes_def rb_refs_def rb_fair_def

definition rb_kept :: "robot \<Rightarrow> robot \<Rightarrow> bool" where
  "rb_kept rb rb1 \<longleftrightarrow> rb_isAlive rb1 = rb_isAlive rb \<and> rb_isInWorld rb1 = rb_isInWorld rb"

lemma rb_chargeStop_core:
  \<comment> \<open>the hand may have been lowered before, as when a robot leaves the world\<close>
  assumes "rb_spends rb" and "rb_refs rb" and "rb_fair rb" and "\<not> su_isInCharge (rb_stamina rb) \<Longrightarrow> rb_modes rb"
    and "su_isInCharge (rb_stamina rb) \<Longrightarrow> \<not> rb_isHandDownTimerEnabled rb \<and> \<not> rb_isAttackDelayed rb \<and> rb_attackSpeed rb = ATTACK_SPEED_NONE
      \<and> \<not> rb_isContinuousAttack rb \<and> (rb_attacking rb = None \<longrightarrow> \<not> rb_isAttackingState rb)"
  shows "\<exists>rb1. rb_chargeStop fl rb = Some rb1 \<and> rb_core rb1 \<and> \<not> su_isInCharge (rb_stamina rb1) \<and> rb_attacking rb1 = rb_attacking rb \<and> rb_kept rb rb1"
proof (cases "su_isInCharge (rb_stamina rb)")
  case True
  obtain u where u: "su_chargeStop fl (rb_stamina rb) = Some u" "su_ok u" "\<not> su_isInCharge u"
    using su_chargeStop_ok [of "rb_stamina rb" fl] assms(1) by (auto simp: rb_spends_def su_isInCharge_def)
  show ?thesis using assms u True su_takes_all(2) [OF u(1)]
    by (auto simp: rb_chargeStop_def rb_small rb_core_defs rb_kept_def Let_def)
next
  case False
  then show ?thesis using assms by (simp add: rb_chargeStop_def rb_core_def rb_kept_def)
qed

lemma rb_chargeStop_core1:
  assumes "rb_core rb"
  shows "\<exists>rb1. rb_chargeStop fl rb = Some rb1 \<and> rb_core rb1 \<and> \<not> su_isInCharge (rb_stamina rb1) \<and> rb_attacking rb1 = rb_attacking rb \<and> rb_kept rb rb1"
  by (rule rb_chargeStop_core) (use assms in \<open>auto simp: rb_core_def rb_modes_def\<close>)

lemma rb_attackStop_core:
  assumes "rb_core rb" and "rb_isAlive rb \<or> \<not> su_isInCharge (rb_stamina rb)"
  shows "\<exists>b rb1. rb_attackStop rb = Some (b, rb1) \<and> rb_core rb1 \<and> rb_attacking rb1 = None \<and> rb_stamina rb1 = rb_stamina rb \<and> rb_kept rb rb1"
proof (cases "rb_attacking rb")
  case None
  then show ?thesis using assms by (auto simp: rb_attackStop_def rb_kept_def)
next
  case (Some t)
  then show ?thesis using assms by (cases "rb_isAlive rb") (auto simp: rb_attackStop_def rb_small rb_core_defs rb_kept_def Let_def)
qed

lemma rb_combatStop_core:
  assumes "\<exists>rb1. rb_chargeStop fl rb = Some rb1 \<and> rb_core rb1 \<and> \<not> su_isInCharge (rb_stamina rb1) \<and> rb_attacking rb1 = rb_attacking rb \<and> rb_kept rb rb1"
  shows "\<exists>rb1. rb_combatStop fl rb = Some rb1 \<and> rb_core rb1 \<and> rb_attacking rb1 = None \<and> \<not> su_isInCharge (rb_stamina rb1) \<and> rb_kept rb rb1"
proof -
  obtain rb1 where 1: "rb_chargeStop fl rb = Some rb1" "rb_core rb1" "\<not> su_isInCharge (rb_stamina rb1)" "rb_kept rb rb1" using assms by blast
  obtain b rb2 where 2: "rb_attackStop rb1 = Some (b, rb2)" "rb_core rb2" "rb_attacking rb2 = None" "rb_stamina rb2 = rb_stamina rb1" "rb_kept rb1 rb2"
    using rb_attackStop_core [OF 1(2)] 1(3) by blast
  show ?thesis using 1 2 by (auto simp: rb_combatStop_def rb_kept_def)
qed

lemma rb_unlockStop_core:
  assumes "rb_core rb" and "rb_isAlive rb \<or> \<not> su_isInCharge (rb_stamina rb)"
  shows "\<exists>rb1. rb_unlockStop fl rb = Some rb1 \<and> rb_core rb1 \<and> rb_attacking rb1 = None \<and> \<not> su_isInCharge (rb_stamina rb1) \<and> rb_kept rb rb1"
proof -
  obtain b rb1 where 1: "rb_attackStop rb = Some (b, rb1)" "rb_core rb1" "rb_attacking rb1 = None" "rb_kept rb rb1"
    using rb_attackStop_core [OF assms] by blast
  obtain rb2 where 2: "rb_chargeStop fl rb1 = Some rb2" "rb_core rb2" "\<not> su_isInCharge (rb_stamina rb2)" "rb_attacking rb2 = rb_attacking rb1" "rb_kept rb1 rb2"
    using rb_chargeStop_core1 [OF 1(2)] by blast
  show ?thesis using 1 2 by (auto simp: rb_unlockStop_def rb_kept_def)
qed

lemma rb_stopStaminaUpdate_core:
  assumes "rb_core rb" and "\<not> su_isInCharge (rb_stamina rb)"
  shows "\<exists>rb1. rb_stopStaminaUpdate rb = Some rb1 \<and> rb_core rb1 \<and> rb_attacking rb1 = rb_attacking rb \<and> \<not> su_isInCharge (rb_stamina rb1)
    \<and> su_diffStamina (rb_stamina rb1) = 0 \<and> rb_kept rb rb1"
proof -
  obtain u where u: "su_stop (rb_stamina rb) = Some u" "su_ok u" "su_chargeState u = CHARGE_STATE_NONE" "su_diffStamina u = 0"
    using su_stop_ok [of "rb_stamina rb"] assms(1) by (auto simp: rb_core_def rb_spends_def)
  show ?thesis using assms u su_takes_all(3) [OF u(1)]
    by (auto simp: rb_stopStaminaUpdate_def rb_core_defs rb_kept_def su_isInCharge_def)
qed

definition stat_ok :: "stat_change \<Rightarrow> bool" where
  "stat_ok c \<longleftrightarrow> (case c of ModifyMaxStamina n \<Rightarrow> 0 \<le> n \<and> n \<le> STAMINA_LIMIT | _ \<Rightarrow> True)"

lemma rb_staminaChanged_core:
  assumes "rb_core rb" and "su_ok u" and "0 < sd_attackTakesStamina (su_data u)" and "su_chargeState u = su_chargeState (rb_stamina rb)"
  shows "\<exists>rb1. rb_staminaChanged fl u rb = Some rb1 \<and> rb_core rb1 \<and> rb_attacking rb1 = rb_attacking rb
    \<and> su_isInCharge (rb_stamina rb1) = su_isInCharge (rb_stamina rb) \<and> rb_kept rb rb1"
proof (cases "su_isInCharge u")
  case True
  note c = su_chargeUpdate_ok(1,2) [OF assms(2), of fl]
  have i: "su_isInCharge (su_chargeUpdate fl u)" using True c(2) by (simp add: su_isInCharge_def)
  show ?thesis using assms True i c su_takes(3) [of fl u]
    by (auto simp: rb_staminaChanged_def rb_core_defs rb_kept_def su_isInCharge_def)
next
  case False
  have "\<exists>u1. su_startRegenStamina fl u = Some u1 \<and> su_ok u1 \<and> su_chargeState u1 = CHARGE_STATE_NONE \<and> sd_stamina (su_data u1) = sd_stamina (su_data u)"
    by (rule su_startRegen_ok) (use assms(2) False in \<open>auto simp: su_ok_def su_isInCharge_def\<close>)
  then obtain u1 where u1: "su_startRegenStamina fl u = Some u1" "su_ok u1" "su_chargeState u1 = CHARGE_STATE_NONE" by blast
  show ?thesis using assms False u1 su_takes_regen [OF u1(1)]
    by (auto simp: rb_staminaChanged_def rb_core_defs rb_kept_def su_isInCharge_def)
qed

lemma su_ok_data:
  assumes "su_ok u" and "sd_ok d" and "sd_flags d = sd_flags (su_data u)" and "sd_chargeStartStamina d = sd_chargeStartStamina (su_data u)"
  shows "su_ok (u\<lparr>su_data := d\<rparr>)"
  using assms by (cases "su_chargeState u") (auto simp: su_ok_def sd_hasStaminaFlag_def)

lemma rb_modify_core:
  assumes "rb_core rb" and "stat_ok c"
  shows "\<exists>rb1. rb_modify fl c rb = Some rb1 \<and> rb_core rb1 \<and> rb_attacking rb1 = rb_attacking rb
    \<and> su_isInCharge (rb_stamina rb1) = su_isInCharge (rb_stamina rb) \<and> rb_kept rb rb1"
proof -
  have u: "su_ok (rb_stamina rb)" "sd_ok (rb_data rb)" "0 < sd_attackTakesStamina (rb_data rb)"
    using assms(1) by (auto simp: rb_core_def rb_spends_def su_ok_def)
  show ?thesis
  proof (cases c)
    case (ModifyMaxStamina n)
    have n: "0 \<le> n" "n \<le> STAMINA_LIMIT" using assms(2) ModifyMaxStamina by (simp_all add: stat_ok_def)
    show ?thesis unfolding ModifyMaxStamina rb_modify.simps rb_modifyMaxStamina_def Let_def
      by (rule rb_staminaChanged_core [OF assms(1)]) (use u n in \<open>auto intro!: su_ok_data simp: sd_ok_def\<close>)
  next
    case (ModifyStaminaRegenRate r)
    show ?thesis unfolding ModifyStaminaRegenRate rb_modify.simps rb_modifyStaminaRegenRate_def
      by (rule rb_staminaChanged_core [OF assms(1)]) (use u in \<open>auto intro!: su_ok_data simp: sd_ok_def\<close>)
  next
    case (ModifyChargeConsumesStamina n)
    show ?thesis unfolding ModifyChargeConsumesStamina rb_modify.simps rb_modifyChargeConsumesStamina_def
      by (rule rb_staminaChanged_core [OF assms(1)]) (use u in \<open>auto intro!: su_ok_data simp: sd_ok_def\<close>)
  qed
qed

lemma rb_modifyAll_core:
  assumes "rb_core rb" and "list_all stat_ok cs"
  shows "\<exists>rb1. rb_modifyAll fl cs rb = Some rb1 \<and> rb_core rb1 \<and> rb_attacking rb1 = rb_attacking rb
    \<and> su_isInCharge (rb_stamina rb1) = su_isInCharge (rb_stamina rb) \<and> rb_kept rb rb1"
  using assms
proof (induction cs arbitrary: rb)
  case (Cons c cs)
  obtain rb1 where 1: "rb_modify fl c rb = Some rb1" "rb_core rb1" "rb_attacking rb1 = rb_attacking rb"
      "su_isInCharge (rb_stamina rb1) = su_isInCharge (rb_stamina rb)" "rb_kept rb rb1"
    using rb_modify_core [of rb c fl] Cons.prems by auto
  then show ?case using Cons.IH [OF 1(2)] Cons.prems(2) by (auto simp: rb_kept_def)
qed (simp add: rb_kept_def)

lemma rb_setDead_ok:
  assumes "rb_core rb" and "rb_isInWorld rb" and "list_all stat_ok changes"
  shows "\<exists>rb1. rb_setDead fl changes rb = Some rb1 \<and> rb_ok rb1 \<and> \<not> rb_isAlive rb1 \<and> sd_stamina (rb_data rb1) = 0"
proof -
  let ?rb = "rb\<lparr>rb_isAlive := False\<rparr>"
  have c: "rb_core ?rb" using assms(1) by (auto simp: rb_core_defs)
  obtain rb1 where 1: "rb_combatStop fl ?rb = Some rb1" "rb_core rb1" "rb_attacking rb1 = None" "\<not> su_isInCharge (rb_stamina rb1)" "rb_kept ?rb rb1"
    using rb_combatStop_core [OF rb_chargeStop_core1 [OF c]] by blast
  have d: "rb_isAlive rb1 \<or> \<not> su_isInCharge (rb_stamina rb1)" using 1(4) by simp
  obtain rb2 where 2: "rb_unlockStop fl rb1 = Some rb2" "rb_core rb2" "rb_attacking rb2 = None" "\<not> su_isInCharge (rb_stamina rb2)" "rb_kept rb1 rb2"
    using rb_unlockStop_core [OF 1(2) d] by blast
  obtain rb3 where 3: "rb_stopStaminaUpdate rb2 = Some rb3" "rb_core rb3" "rb_attacking rb3 = None" "\<not> su_isInCharge (rb_stamina rb3)" "rb_kept rb2 rb3"
    using rb_stopStaminaUpdate_core [OF 2(2,4)] 2(3) by auto
  obtain rb4 where 4: "rb_modifyAll fl changes rb3 = Some rb4" "rb_core rb4" "rb_attacking rb4 = None" "\<not> su_isInCharge (rb_stamina rb4)" "rb_kept rb3 rb4"
    using rb_modifyAll_core [OF 3(2) assms(3), of fl] 3(3,4) by auto
  let ?rb5 = "rb_setStamina rb4 ((rb_stamina rb4)\<lparr>su_data := (rb_data rb4)\<lparr>sd_stamina := 0\<rparr>\<rparr>)"
  have u: "su_ok (rb_stamina rb4)" "sd_ok (rb_data rb4)" using 4(2) by (auto simp: rb_core_def rb_spends_def su_ok_def)
  have "su_ok (rb_stamina ?rb5)" using u by (auto intro!: su_ok_data simp: sd_ok_def STAMINA_LIMIT_def)
  then have "rb_ok ?rb5" using 1(5) 2(5) 3(5) 4 assms(2)
    by (auto simp: rb_ok_core rb_core_defs rb_life_def rb_kept_def su_isInCharge_def)
  moreover have "rb_setDead fl changes rb = Some ?rb5" using 1(1) 2(1) 3(1) 4(1) by (simp add: rb_setDead_def)
  ultimately show ?thesis using 1(5) 2(5) 3(5) 4(5) by (auto simp: rb_kept_def)
qed

lemma rb_removeFromWorld_ok:
  assumes "rb_ok rb"
  shows "\<exists>rb1. rb_removeFromWorld fl rb = Some rb1 \<and> rb_ok rb1 \<and> \<not> rb_isInWorld rb1"
proof (cases "rb_isInWorld rb")
  case True
  let ?rb = "if rb_isAlive rb then (rb_stopHandDownTimer (rb_stopAttackDelayTimer rb))\<lparr>rb_isHandUp := False\<rparr> else rb"
  have "\<exists>rb1. rb_chargeStop fl ?rb = Some rb1 \<and> rb_core rb1 \<and> \<not> su_isInCharge (rb_stamina rb1) \<and> rb_attacking rb1 = rb_attacking ?rb \<and> rb_kept ?rb rb1"
    by (rule rb_chargeStop_core) (use assms in \<open>auto simp: rb_ok_defs rb_small\<close>)
  from rb_combatStop_core [OF this] obtain rb1 where 1: "rb_combatStop fl ?rb = Some rb1" "rb_core rb1" "\<not> su_isInCharge (rb_stamina rb1)"
    by blast
  have d: "rb_isAlive rb1 \<or> \<not> su_isInCharge (rb_stamina rb1)" using 1(3) by simp
  obtain rb2 where 2: "rb_unlockStop fl rb1 = Some rb2" "rb_core rb2" "rb_attacking rb2 = None" "\<not> su_isInCharge (rb_stamina rb2)"
    using rb_unlockStop_core [OF 1(2) d] by blast
  obtain rb3 where 3: "rb_stopStaminaUpdate rb2 = Some rb3" "rb_core rb3" "rb_attacking rb3 = None" "\<not> su_isInCharge (rb_stamina rb3)"
      "su_diffStamina (rb_stamina rb3) = 0"
    using rb_stopStaminaUpdate_core [OF 2(2,4)] 2(3) by auto
  have "rb_removeFromWorld fl rb = Some (rb3\<lparr>rb_isInWorld := False\<rparr>)" using True 1(1) 2(1) 3(1) by (simp add: rb_removeFromWorld_def)
  moreover have "rb_ok (rb3\<lparr>rb_isInWorld := False\<rparr>)" using 3 by (auto simp: rb_ok_core rb_core_defs rb_life_def)
  ultimately show ?thesis by simp
next
  case False
  then show ?thesis using assms by (simp add: rb_removeFromWorld_def)
qed

lemma rb_reloadData_ok:
  assumes "rb_ok rb" and "\<not> rb_isInWorld rb" and "0 \<le> maxStamina" and "maxStamina \<le> STAMINA_LIMIT" and "0 < takes" and "takes \<le> STAMINA_LIMIT"
  shows "\<exists>rb1. rb_reloadData maxStamina rate takes consumes rb = Some rb1 \<and> rb_ok rb1"
proof -
  have n: "su_chargeState (rb_stamina rb) = CHARGE_STATE_NONE" "su_ok (rb_stamina rb)" "rb_attacking rb = None"
    using assms(1,2) by (auto simp: rb_ok_def rb_life_def rb_spends_def su_isInCharge_def)
  then have "\<not> su_isCharging (rb_stamina rb)" "\<not> rb_isAttackingState rb" using assms(1) by (auto simp: rb_ok_def rb_modes_def su_ok_def)
  moreover have "su_ok ((rb_stamina rb)\<lparr>su_data := (rb_data rb)\<lparr>sd_stamina := maxStamina, sd_maxStamina := maxStamina, sd_staminaRegenRate := rate,
      sd_attackTakesStamina := takes, sd_chargeConsumesStamina := consumes\<rparr>\<rparr>)"
    using n(1,2) assms(3-6) by (intro su_ok_data) (auto simp: su_ok_def sd_ok_def)
  ultimately show ?thesis using assms(1,2,5)
    by (auto simp: rb_reloadData_def rb_ok_core rb_core_defs rb_life_def su_isInCharge_def Let_def)
qed

lemma rb_attackInternal_core:
  assumes "rb_core rb" and "rb_isHandUp rb" and "su_isInCharge (rb_stamina rb) \<Longrightarrow> su_chargeState (rb_stamina rb) = CHARGE_STATE_FULLY"
    and "rb_attacking rb \<noteq> None" and "\<not> su_isInCharge (rb_stamina rb) \<Longrightarrow> rb_attackSpeed rb \<noteq> ATTACK_SPEED_NONE \<or> rb_isContinuousAttack rb"
  shows "\<exists>rb1. rb_attackInternal fl am rb = Some rb1 \<and> rb_core (rb_stopAttackDelayTimer rb1) \<and> rb_isAttackDelayed rb1 = rb_isAttackDelayed rb
    \<and> rb_attacking rb1 = rb_attacking rb \<and> rb_kept rb rb1"
proof -
  obtain u where u: "su_deductStaminaForAttack fl (rb_stamina rb) = Some u" "su_ok u" "su_chargeState u = CHARGE_STATE_NONE"
    using su_deduct_ok [of "rb_stamina rb" fl] assms(1) by (auto simp: rb_core_def rb_spends_def)
  note t = su_takes_all(4) [OF u(1)]
  note defs = rb_attackInternal_def rb_startHandDownTimer_def rb_small rb_core_defs rb_kept_def Let_def
  have n: "\<not> su_isInCharge u" using u(3) by (simp add: su_isInCharge_def)
  show ?thesis
  proof (cases "su_isInCharge (rb_stamina rb)")
    case True
    then have "\<not> rb_isContinuousAttack rb" using assms(1) by (simp add: rb_core_def rb_modes_def)
    then show ?thesis using assms u(1,2) n t True by (auto simp: defs)
  next
    case False
    show ?thesis
    proof (cases "rb_isContinuousAttack rb")
      case True
      then have "rb_attackSpeed rb = ATTACK_SPEED_NONE" using assms(1) by (simp add: rb_core_def rb_modes_def)
      then show ?thesis using assms(1,2,4) u(1,2) n t True False by (auto simp: defs)
    next
      case c: False
      then have "rb_attackSpeed rb \<noteq> ATTACK_SPEED_NONE" using assms(5) False by blast
      then show ?thesis using assms(1,2,4) u(1,2) n t c False by (auto simp: defs)
    qed
  qed
qed

lemma rb_core_delayTimer:
  "rb_core (rb_stopAttackDelayTimer rb) \<Longrightarrow> \<not> rb_isAttackDelayed rb \<Longrightarrow> rb_core rb"
  by (auto simp: rb_core_defs rb_stopAttackDelayTimer_def)

lemma rb_attack_ok:
  assumes "rb_ok rb" and "rb_isAlive rb" and "rb_isInWorld rb" and "rb_isAttackReady rb"
  shows "\<exists>rb1. rb_attack fl am rb = Some rb1 \<and> rb_ok rb1"
proof (cases "rb_attacking rb = None \<or> \<not> rb_isHandUp rb")
  case True
  then show ?thesis using assms
    by (auto simp: rb_attack_def rb_attackDelayed_def rb_isAttackReady_def rb_small rb_ok_defs Let_def split: if_splits)
next
  case False
  have c: "rb_core rb" using assms(1) by (simp add: rb_ok_core)
  have f: "su_isInCharge (rb_stamina rb) \<Longrightarrow> su_chargeState (rb_stamina rb) = CHARGE_STATE_FULLY"
    using assms(4) by (auto simp: rb_isAttackReady_def su_canAttack_def su_isInCharge_def split: if_splits)
  have m: "\<not> su_isInCharge (rb_stamina rb) \<Longrightarrow> rb_attackSpeed rb \<noteq> ATTACK_SPEED_NONE \<or> rb_isContinuousAttack rb"
    using assms(4) by (auto simp: rb_isAttackReady_def split: if_splits)
  have h: "rb_isHandUp rb" "rb_attacking rb \<noteq> None" using False by simp_all
  have d: "\<not> rb_isAttackDelayed rb"
    using assms(4) c by (auto simp: rb_isAttackReady_def rb_core_def rb_modes_def split: if_splits)
  obtain rb1 where 1: "rb_attackInternal fl am rb = Some rb1" "rb_core (rb_stopAttackDelayTimer rb1)" "rb_isAttackDelayed rb1 = rb_isAttackDelayed rb"
      "rb_attacking rb1 = rb_attacking rb" "rb_kept rb rb1"
    using rb_attackInternal_core [OF c h(1) f h(2) m, of fl am] by blast
  have "rb_core rb1" using rb_core_delayTimer 1(2,3) d by simp
  then show ?thesis using 1 False assms(2,3) by (auto simp: rb_attack_def rb_ok_core rb_life_def rb_kept_def)
qed

lemma rb_updateAttackDelayTimer_ok:
  assumes "rb_ok rb" and "rb_isAlive rb" and "rb_isInWorld rb"
  shows "\<exists>rb1. rb_updateAttackDelayTimer fl d am rb = Some rb1 \<and> rb_ok rb1"
proof (cases "rb_isAttackDelayed rb")
  case True
  let ?rb = "rb\<lparr>rb_attackDelayTimer := delay_update d (rb_attackDelayTimer rb)\<rparr>"
  have c: "rb_core ?rb" using assms(1) by (auto simp: rb_ok_core rb_core_defs)
  have h: "rb_isHandUp ?rb" "rb_attacking ?rb \<noteq> None" "\<not> su_isInCharge (rb_stamina ?rb)"
      "rb_attackSpeed ?rb \<noteq> ATTACK_SPEED_NONE \<or> rb_isContinuousAttack ?rb"
    using True assms(1) by (auto simp: rb_ok_def rb_modes_def)
  obtain rb1 where 1: "rb_attackInternal fl am ?rb = Some rb1" "rb_core (rb_stopAttackDelayTimer rb1)" "rb_kept ?rb rb1"
    using rb_attackInternal_core [OF c h(1) _ h(2), of fl am] h(3,4) by blast
  have "rb_ok (rb_stopAttackDelayTimer rb1)" using 1(2,3) assms(2,3)
    by (auto simp: rb_ok_core rb_life_def rb_kept_def rb_stopAttackDelayTimer_def)
  moreover have "rb_ok ?rb" using c assms(1) by (auto simp: rb_ok_core rb_life_def)
  ultimately show ?thesis using True 1(1) by (simp add: rb_updateAttackDelayTimer_def Let_def)
next
  case False
  then show ?thesis using assms(1) by (simp add: rb_updateAttackDelayTimer_def)
qed

lemma rb_startNormal_fields [simp]:
  "rb_stamina (rb_startNormalAttack fl sp rb) = rb_stamina rb" "rb_isAlive (rb_startNormalAttack fl sp rb) = rb_isAlive rb"
  "rb_isInWorld (rb_startNormalAttack fl sp rb) = rb_isInWorld rb" "rb_isHandUp (rb_startNormalAttack fl sp rb) = rb_isHandUp rb"
  "rb_isAttackingState (rb_startNormalAttack fl sp rb) = rb_isAttackingState rb" "rb_target (rb_startNormalAttack fl sp rb) = rb_target rb"
  "rb_attacking (rb_startNormalAttack fl sp rb) = rb_attacking rb" "rb_attackerOf (rb_startNormalAttack fl sp rb) = rb_attackerOf rb"
  "rb_watcherOf (rb_startNormalAttack fl sp rb) = rb_watcherOf rb" "rb_isAttackDelayed (rb_startNormalAttack fl sp rb) = rb_isAttackDelayed rb"
  "rb_isHandDownTimerEnabled (rb_startNormalAttack fl sp rb) = rb_isHandDownTimerEnabled rb" "rb_events (rb_startNormalAttack fl sp rb) = rb_events rb"
  "rb_attackSpeed (rb_startNormalAttack fl sp rb) = sp"
  by (cases sp; simp add: rb_startNormalAttack_def rb_setAttackTimer_def Let_def)+

lemma rb_startNormal_cont:
  "rb_isContinuousAttack (rb_startNormalAttack fl sp rb) \<Longrightarrow> rb_attackSpeed rb = sp \<and> rb_isContinuousAttack rb"
  by (cases sp) (auto simp: rb_startNormalAttack_def rb_setAttackTimer_def Let_def split: if_splits)

lemma rb_startNormal_ok:
  assumes "rb_ok rb" and "rb_attacking rb \<noteq> None" and "\<not> su_isInCharge (rb_stamina rb)" and "\<not> rb_isAttackDelayed rb" and "sp \<noteq> ATTACK_SPEED_NONE"
  shows "rb_ok (rb_startNormalAttack fl sp rb)"
proof -
  have "\<not> rb_isContinuousAttack (rb_startNormalAttack fl sp rb)"
    using rb_startNormal_cont [of fl sp rb] assms(1,5) by (auto simp: rb_ok_def rb_modes_def)
  then show ?thesis using assms by (auto simp: rb_ok_defs)
qed

lemma rb_startContinuous_ok:
  assumes "rb_ok rb" and "rb_attacking rb \<noteq> None" and "\<not> su_isInCharge (rb_stamina rb)" and "\<not> rb_isAttackDelayed rb"
  shows "\<exists>b rb1. rb_startContinuousAttack fl delay rb = Some (b, rb1) \<and> rb_ok rb1 \<and> rb_attacking rb1 = rb_attacking rb
    \<and> rb_stamina rb1 = rb_stamina rb \<and> \<not> rb_isAttackDelayed rb1"
proof (cases "rb_isContinuousAttack rb")
  case True
  then show ?thesis using assms by (auto simp: rb_startContinuousAttack_def)
next
  case False
  have t: "sd_attackTakesStamina (rb_data rb) \<noteq> 0" using assms(1) by (simp add: rb_ok_def rb_spends_def)
  have n: "rb_ok (rb_stopNormalAttack rb)" using assms False by (auto simp: rb_ok_defs)
  have c: "rb_ok (rb_setAttackTimer ATTACK_INTERVAL delay
      ((rb_stopNormalAttack rb)\<lparr>rb_numAttacks := k, rb_isContinuousAttack := True, rb_attackDirection := None\<rparr>))" for k
    using assms by (auto simp: rb_ok_defs rb_setAttackTimer_def)
  show ?thesis using n c t False assms(4) by (auto simp: rb_startContinuousAttack_def int_div_def rb_setAttackTimer_def Let_def)
qed

lemma rb_updateAttackMode_ok:
  assumes "rb_ok rb" and "rb_isAlive rb" and "rb_isInWorld rb"
  shows "\<exists>rb1. rb_updateAttackMode fl v rb = Some rb1 \<and> rb_ok rb1"
proof -
  let ?rb = "rb\<lparr>rb_isAttackModeDirty := False\<rparr>"
  have k: "rb_ok ?rb" "rb_isAlive ?rb" "rb_isInWorld ?rb" using assms by (auto simp: rb_ok_defs)
  show ?thesis
  proof (cases "\<not> rb_isAttackModeDirty rb \<or> rb_attacking rb = None \<or> rb_isAttackDelayed rb \<or> su_isInCharge (rb_stamina rb)")
    case True
    then show ?thesis using assms(1) k by (auto simp: rb_updateAttackMode_def Let_def)
  next
    case False
    then have h: "rb_attacking ?rb \<noteq> None" "\<not> su_isInCharge (rb_stamina ?rb)" "\<not> rb_isAttackDelayed ?rb" "rb_isAttackModeDirty rb" by simp_all
    obtain b rb1 where 1: "rb_startContinuousAttack fl (av_delay v) ?rb = Some (b, rb1)" "rb_ok rb1" "rb_attacking rb1 \<noteq> None"
        "\<not> su_isInCharge (rb_stamina rb1)" "\<not> rb_isAttackDelayed rb1"
      using rb_startContinuous_ok [OF k(1) h(1-3), of fl "av_delay v"] h(1,2) by auto
    have "rb_ok (rb_startNormalAttack fl ATTACK_SPEED_FAST ?rb)" "rb_ok (rb_startNormalAttack fl ATTACK_SPEED_SLOW rb1)"
      using rb_startNormal_ok k(1) h(1-3) 1(2-5) by blast+
    then show ?thesis using rb_charge_ok [OF k, of fl] h 1(1,2) by (auto simp: rb_updateAttackMode_def Let_def)
  qed
qed

lemma rb_ok_timers [simp]:
  "rb_ok (rb\<lparr>rb_handDownTimer := t\<rparr>) = rb_ok rb" "rb_ok (rb\<lparr>rb_attackTimer := x\<rparr>) = rb_ok rb" "rb_ok (rb\<lparr>rb_attackLostTime := x\<rparr>) = rb_ok rb"
  "rb_ok (rb\<lparr>rb_isAttackModeDirty := b\<rparr>) = rb_ok rb"
  by (simp_all add: rb_ok_defs)

lemma rb_updateHandDownTimer_ok:
  assumes "rb_ok rb"
  shows "\<exists>rb1. rb_updateHandDownTimer d rb = Some rb1 \<and> rb_ok rb1"
proof (cases "rb_isHandDownTimerEnabled rb")
  case True
  let ?rb = "rb\<lparr>rb_handDownTimer := delay_update d (rb_handDownTimer rb)\<rparr>"
  have e: "rb_isHandUp rb" "\<not> su_isInCharge (rb_stamina rb)" "\<not> rb_isAttackDelayed rb"
    using True assms unfolding rb_ok_def rb_modes_def by blast+
  have 1: "rb_ok ?rb" using assms by (simp)
  have 2: "rb_ok (rb_stopHandDownTimer (rb_sendMoveSync (?rb\<lparr>rb_isHandUp := False\<rparr>)))"
    using assms e by (auto simp: rb_ok_defs rb_small)
  show ?thesis
  proof (cases "delay_passed (rb_handDownTimer ?rb)")
    case p: True
    have "rb_updateHandDownTimer d rb = Some (rb_stopHandDownTimer (rb_sendMoveSync (?rb\<lparr>rb_isHandUp := False\<rparr>)))"
      using True e p by (simp add: rb_updateHandDownTimer_def)
    then show ?thesis using 2 by blast
  next
    case False
    have "rb_updateHandDownTimer d rb = Some ?rb" using True e False by (simp add: rb_updateHandDownTimer_def)
    then show ?thesis using 1 by blast
  qed
next
  case False
  then show ?thesis using assms by (simp add: rb_updateHandDownTimer_def)
qed

lemma rb_setAttackTarget_ok:
  assumes "rb_ok rb" and "rb_isAlive rb" and "rb_isInWorld rb"
  shows "rb_ok (snd (rb_setAttackTarget t los rb))"
  using assms by (cases "rb_attacking rb") (auto simp: rb_setAttackTarget_def rb_relocateAttackTarget_def rb_ok_defs Let_def)

lemma rb_relocateAttackTarget_ok: "rb_ok rb \<Longrightarrow> rb_ok (rb_relocateAttackTarget los rb)"
  by (cases "rb_attacking rb") (auto simp: rb_relocateAttackTarget_def rb_ok_defs)

lemma rb_updateAttackTimer_ok: "rb_ok rb \<Longrightarrow> rb_ok (rb_updateAttackTimer d rb)"
  by (simp add: rb_updateAttackTimer_def)

definition rop_ok :: "robot_op \<Rightarrow> bool" where
  "rop_ok p \<longleftrightarrow> (case p of
     RModify c \<Rightarrow> stat_ok c
   | RDie changes \<Rightarrow> list_all stat_ok changes
   | RReload maxStamina rate takes consumes \<Rightarrow> 0 \<le> maxStamina \<and> maxStamina \<le> STAMINA_LIMIT \<and> 0 < takes \<and> takes \<le> STAMINA_LIMIT
   | _ \<Rightarrow> True)"

lemma su_update_inCharge:
  assumes "float_rounding fl" and "su_ok u"
  shows "su_isInCharge (su_update fl d u) = su_isInCharge u"
proof (cases "su_diffStamina u = 0")
  case False
  have "su_isInCharge (su_updateStamina fl e u) = su_isInCharge u" for e
    using su_updateStamina_ok(2) [OF assms False, of e]
    by (cases "su_chargeState (su_updateStamina fl e u) = su_chargeState u") (simp_all add: su_isInCharge_def)
  then show ?thesis by (simp add: su_update_def su_sendSyncStamina_def su_isInCharge_def Let_def)
qed (simp add: su_update_def)

lemma rb_updateStamina_ok:
  assumes "float_rounding fl" and "rb_ok rb" and "rb_isAlive rb" and "rb_isInWorld rb"
  shows "rb_ok (rb_setStamina rb (su_update fl d (rb_stamina rb)))"
proof -
  have u: "su_ok (rb_stamina rb)" using assms(2) by (simp add: rb_ok_def rb_spends_def)
  show ?thesis using assms(2-4) su_update_ok [OF assms(1) u, of d] su_update_inCharge [OF assms(1) u, of d] su_takes_all(5) [of fl d "rb_stamina rb"]
    by (auto simp: rb_ok_defs)
qed

lemma rb_kept_ok: "rb_ok rb \<Longrightarrow> rb_core rb1 \<Longrightarrow> rb_attacking rb1 = None \<Longrightarrow> \<not> su_isInCharge (rb_stamina rb1) \<Longrightarrow> rb_kept rb rb1 \<Longrightarrow>
  (rb_isInWorld rb \<or> su_diffStamina (rb_stamina rb1) = 0) \<Longrightarrow> rb_ok rb1"
  by (auto simp: rb_ok_core rb_life_def rb_kept_def)

lemma rb_idle:
  assumes "rb_ok rb" and "\<not> rb_isInWorld rb"
  shows "rb_attackStop rb = Some (False, rb)" "rb_combatStop fl rb = Some rb" "rb_unlockStop fl rb = Some rb" "rb_unregisterChargedAttack fl rb = Some rb"
proof -
  have i: "rb_attacking rb = None" "\<not> su_isInCharge (rb_stamina rb)" using assms by (auto simp: rb_ok_def rb_life_def)
  show "rb_attackStop rb = Some (False, rb)" "rb_combatStop fl rb = Some rb" "rb_unlockStop fl rb = Some rb" "rb_unregisterChargedAttack fl rb = Some rb"
    using i by (simp_all add: rb_attackStop_def rb_combatStop_def rb_unlockStop_def rb_unregisterChargedAttack_def rb_chargeStop_def)
qed

lemma rb_stops_ok:
  assumes "rb_ok rb"
  shows "\<exists>r. rb_attackStop rb = Some r \<and> rb_ok (snd r)" "\<exists>rb1. rb_combatStop fl rb = Some rb1 \<and> rb_ok rb1"
    and "\<exists>rb1. rb_unlockStop fl rb = Some rb1 \<and> rb_ok rb1" "\<exists>rb1. rb_unregisterChargedAttack fl rb = Some rb1 \<and> rb_ok rb1"
proof -
  have c: "rb_core rb" "rb_life rb" using assms by (simp_all add: rb_ok_core)
  then have a: "rb_isAlive rb \<or> \<not> su_isInCharge (rb_stamina rb)" by (auto simp: rb_life_def)
  show "\<exists>r. rb_attackStop rb = Some r \<and> rb_ok (snd r)"
    using rb_attackStop_core [OF c(1) a] c(2) by (force simp: rb_ok_core rb_life_def rb_kept_def)
  show "\<exists>rb1. rb_combatStop fl rb = Some rb1 \<and> rb_ok rb1"
  proof (cases "rb_isInWorld rb")
    case True
    then show ?thesis using rb_combatStop_core [OF rb_chargeStop_core1 [OF c(1)], of fl] rb_kept_ok [OF assms] by blast
  qed (use rb_idle [OF assms] assms in simp)
  show "\<exists>rb1. rb_unlockStop fl rb = Some rb1 \<and> rb_ok rb1"
  proof (cases "rb_isInWorld rb")
    case True
    then show ?thesis using rb_unlockStop_core [OF c(1) a, of fl] rb_kept_ok [OF assms] by blast
  qed (use rb_idle [OF assms] assms in simp)
  show "\<exists>rb1. rb_unregisterChargedAttack fl rb = Some rb1 \<and> rb_ok rb1"
  proof (cases "rb_isInWorld rb")
    case True
    obtain rb1 where 1: "rb_chargeStop fl rb = Some rb1" "rb_core rb1" "\<not> su_isInCharge (rb_stamina rb1)" "rb_attacking rb1 = rb_attacking rb" "rb_kept rb rb1"
      using rb_chargeStop_core1 [OF c(1), of fl] by blast
    have "rb_ok rb1" using 1 c(2) True by (auto simp: rb_ok_core rb_life_def rb_kept_def)
    then show ?thesis using 1(1) assms by (simp add: rb_unregisterChargedAttack_def)
  qed (use rb_idle [OF assms] assms in simp)
qed

lemma rb_apply_ok:
  assumes "float_rounding fl" and "rb_ok rb" and "rop_ok p"
  shows "\<exists>rb1. rb_apply fl p rb = Some rb1 \<and> rb_ok rb1"
proof (cases p)
  case (RModify c)
  have c: "rb_core rb" "rb_life rb" "stat_ok c" using assms(2,3) RModify by (simp_all add: rb_ok_core rop_ok_def)
  show ?thesis
  proof (cases "rb_isInWorld rb")
    case True
    then show ?thesis using rb_modify_core [OF c(1,3), of fl] c(2) RModify by (auto simp: rb_ok_core rb_life_def rb_kept_def)
  qed (use assms(2) RModify in simp)
next
  case (RDie changes)
  then show ?thesis using rb_setDead_ok [of rb changes fl] assms(2,3) by (auto simp: rb_ok_core rop_ok_def)
next
  case (RReload maxStamina rate takes consumes)
  then show ?thesis using rb_reloadData_ok [OF assms(2), of maxStamina takes rate consumes] assms(2,3) by (auto simp: rop_ok_def)
next
  case RAddToWorld
  then show ?thesis using assms(2) by (auto simp: rb_addToWorld_def rb_ok_defs)
next
  case RRemoveFromWorld
  then show ?thesis using rb_removeFromWorld_ok [OF assms(2), of fl] by auto
next
  case RTargetGone
  then show ?thesis using rb_stops_ok(1) [OF assms(2)] by auto
qed (use assms(1,2) rb_updateStamina_ok rb_updateAttackTimer_ok rb_updateAttackDelayTimer_ok rb_updateAttackMode_ok rb_updateHandDownTimer_ok
      rb_setAttackTarget_ok rb_attack_ok rb_relocateAttackTarget_ok rb_stops_ok in simp_all)

lemma rb_run_ok:
  assumes "float_rounding fl" and "rb_ok rb" and "list_all rop_ok ps"
  shows "\<exists>rb1. rb_run fl ps rb = Some rb1 \<and> rb_ok rb1"
  using assms(2,3)
proof (induction ps arbitrary: rb)
  case (Cons p ps)
  then show ?case using rb_apply_ok [OF assms(1), of rb p] by fastforce
qed simp

lemma rb_new_ok:
  assumes "sd_ok d" and "sd_chargeStartStamina d = 0" and "sd_flags d = 0" and "0 < sd_attackTakesStamina d"
  shows "rb_ok (rb_new d)"
  using assms by (simp add: rb_ok_defs rb_new_def su_new_def su_ok_def su_isInCharge_def sd_hasStaminaFlag_def delay_new_def)


definition rw_view :: attack_view where
  "rw_view = \<lparr>av_isFastTarget = False, av_isWithinChargedDist = True, av_chargedAttackEnabled = True, av_moving = True, av_delay = 300\<rparr>"

definition rw_aim :: aim where
  "rw_aim = \<lparr>am_aimed = 1, am_facing = 2, am_intensified = False, am_delay = 130\<rparr>"

definition rw_ops :: "robot_op list" where
  \<comment> \<open>a robot charges, throws, lowers its hand, throws again at a near target and dies\<close>
  "rw_ops = [RAddToWorld, RSetAttackTarget 7 True, RUpdateAttackMode rw_view] @ replicate 8 (RUpdateStamina 200)
     @ [RAttackIfReady rw_aim, RUpdateHandDownTimer 500, RUpdateStamina 4000, RUpdateAttackMode (rw_view\<lparr>av_isFastTarget := True\<rparr>), RUpdateAttackTimer 130,
        RAttackIfReady rw_aim, RUpdateAttackDelayTimer 100 rw_aim, RDie [ModifyMaxStamina 90], RRemoveFromWorld, RReload 80 1 20 40]"


lemma attack_timer_loses_no_time:
  \<comment> \<open>what a tick was too long by shortens the next interval of a burst\<close>
  assumes "rb_attackSpeed rb \<noteq> ATTACK_SPEED_NONE \<or> rb_isContinuousAttack rb" and "0 < rb_attackTimer rb"
    and "int32_range (rb_attackTimer rb - rb_attackLostTime rb)" and "int32_range (d - (rb_attackTimer rb - rb_attackLostTime rb))"
    and "int32_range (rb_attackTimer rb - d)"
  shows "rb_attackTimer (rb_updateAttackTimer d rb) - rb_attackLostTime (rb_updateAttackTimer d rb) = rb_attackTimer rb - rb_attackLostTime rb - d"
  using assms(1,2) by (auto simp: rb_updateAttackTimer_def i32_id [OF assms(3)] i32_id [OF assms(4)] i32_id [OF assms(5)])

lemma hand_stays_up_after_death:
  \<comment> \<open>the robot loses its target before it can lower its hand, dies, leaves the world, is reused, and enters it with its hand up\<close>
  "map_option (\<lambda>rb. (rb_isInWorld rb, rb_isHandUp rb, rb_isHandDownTimerEnabled rb))
     (rb_run id [RAddToWorld, RSetAttackTarget 7 True, RUpdateAttackMode (rw_view\<lparr>av_isFastTarget := True\<rparr>), RUpdateAttackTimer 130, RAttackIfReady rw_aim,
        RUpdateAttackDelayTimer 100 rw_aim, RTargetGone, RDie [], RRemoveFromWorld, RReload 80 1 20 40, RAddToWorld] (rb_new sw_data))
   = Some (True, True, True)"
  by code_simp

lemma stamina_over_maximum:
  \<comment> \<open>the maximum drops while the robot charges\<close>
  "map_option (\<lambda>rb. (sd_stamina (rb_data rb), sd_maxStamina (rb_data rb)))
     (rb_run id [RAddToWorld, RSetAttackTarget 7 True, RUpdateAttackMode rw_view, RUpdateStamina 100, RModify (ModifyMaxStamina 50), RUpdateStamina 100]
        (rb_new sw_data))
   = Some (84, 50)"
  by code_simp

end
