(* ===== verification/Player_Stamina.thy ===== *)
theory Player_Stamina
  imports Robot_Attack Parcels
begin

text \<open>
  The stamina of a player, \<^verbatim>\<open>handlers/CombatHandler.cpp\<close> and \<^verbatim>\<open>behaviors/Player.cpp\<close>. The client computes the stamina and
  the server checks what it reports: a message is ignored if it is older than the last change of the stats, corrected by
  the attacks the client had not seen, and answered by kicking the client if the change is more than one interval allows.
  Whether the player is in the world, alive and in a battle, the clock and the players nearby are arguments. A failed
  assertion and a division by zero are \<open>None\<close>. The projectile, the concealment and the threat of others are not in the state.
\<close>

section \<open>State\<close>

datatype stamina_opcode = MSG_CHARGE_START | MSG_CHARGE_STOP | MSG_STAMINA_SYNC

datatype player_event =
    Acknowledged stamina_opcode stamina_info
  | Broadcast nat stamina_opcode stamina_info
  | LaunchFailed u32
  | LaunchedSnowball rat u32 int u32
    \<comment> \<open>direction, counter of the attack message, consumed stamina and attack counter\<close>

record player_stamina =
  ps_data :: stamina_data
  ps_staminaCounter :: u32
  ps_attackCounter :: u32
  ps_consumedStaminaTotal :: u32
  ps_attackInfoCounter :: u32
  ps_movementCounter :: u32
  ps_isCharging :: bool
  ps_isAttacking :: bool
  ps_isInCombat :: bool
  ps_isContinuousAttack :: bool
  ps_numAttacks :: int
  ps_attackDirection :: rat
  ps_attackTimer :: interval_timer
  ps_kicked :: bool
  ps_events :: "player_event list"

definition ps_event :: "player_event \<Rightarrow> player_stamina \<Rightarrow> player_stamina" where
  "ps_event e ps = ps\<lparr>ps_events := ps_events ps @ [e]\<rparr>"

definition ps_new :: "stamina_data \<Rightarrow> player_stamina" where
  "ps_new d = \<lparr>ps_data = d, ps_staminaCounter = 0, ps_attackCounter = 0, ps_consumedStaminaTotal = 0, ps_attackInfoCounter = 0,
     ps_movementCounter = 0, ps_isCharging = False, ps_isAttacking = False, ps_isInCombat = False, ps_isContinuousAttack = False,
     ps_numAttacks = 0, ps_attackDirection = 0, ps_attackTimer = interval_new True, ps_kicked = False, ps_events = []\<rparr>"

section \<open>Charging and attacking\<close>

definition ps_stopContinuousAttack :: "player_stamina \<Rightarrow> player_stamina" where
  "ps_stopContinuousAttack ps =
     (if \<not> ps_isContinuousAttack ps then ps
      else ps\<lparr>ps_attackTimer := interval_reset (ps_attackTimer ps), ps_isContinuousAttack := False, ps_numAttacks := 0, ps_attackDirection := 0\<rparr>)"

definition ps_charge :: "player_stamina \<Rightarrow> player_stamina" where
  "ps_charge ps = (ps_stopContinuousAttack ps)\<lparr>ps_isCharging := True\<rparr>"

definition ps_chargeStop :: "player_stamina \<Rightarrow> player_stamina" where
  "ps_chargeStop ps = ps\<lparr>ps_data := (ps_data ps)\<lparr>sd_chargeStartStamina := 0, sd_chargedStamina := 0\<rparr>, ps_isCharging := False\<rparr>"

definition ps_launch :: "rat \<Rightarrow> u32 \<Rightarrow> player_stamina \<Rightarrow> player_stamina option" where
  \<comment> \<open>\<^verbatim>\<open>Player::attack(float, uint32)\<close>, without the projectile\<close>
  "ps_launch direction counter ps =
     (let consumed = calcConsumedStamina (ps_isCharging ps) (ps_data ps);
          ps1 = ps\<lparr>ps_consumedStaminaTotal := ps_consumedStaminaTotal ps + word_of_int consumed, ps_attackCounter := ps_attackCounter ps + 1\<rparr>;
          newStamina = i32 (sd_stamina (ps_data ps1) - consumed)
      in if newStamina < 0 then None
         else Some (ps_event (LaunchedSnowball direction counter consumed (ps_attackCounter ps1))
                (ps1\<lparr>ps_data := (ps_data ps1)\<lparr>sd_stamina := newStamina\<rparr>\<rparr>)))"

definition ps_attack :: "(rat \<Rightarrow> rat) \<Rightarrow> bool \<Rightarrow> rat \<Rightarrow> player_stamina \<Rightarrow> player_stamina option" where
  \<comment> \<open>\<^verbatim>\<open>Player::attack(AttackInfo)\<close>, without the concealment and the statistics\<close>
  "ps_attack fl allOut direction ps =
     (let ps1 = ps\<lparr>ps_isAttacking := True\<rparr>; d = ps_data ps1
      in do {
           r \<leftarrow>
             (if \<not> ps_isCharging ps1 \<and> allOut then do {
                nAttacks \<leftarrow> int_div (sd_stamina d) (sd_attackTakesStamina d);
                if nAttacks > 1 then do {
                  more \<leftarrow> int_div (trunc (fl (rb_regenSpeed fl d * fl (fl (of_int nAttacks) * fl (of_int ATTACK_INTERVAL / 1000))))) (sd_attackTakesStamina d);
                  Some (0, ps1\<lparr>ps_numAttacks := i32 (i32 (nAttacks + more) - 1), ps_attackTimer := interval_setInterval ATTACK_INTERVAL (ps_attackTimer ps1),
                               ps_isContinuousAttack := True, ps_attackDirection := direction\<rparr>)
                } else Some (ps_attackInfoCounter ps1, ps1)
              } else Some (ps_attackInfoCounter ps1, ps1));
           ps2 \<leftarrow> ps_launch direction (fst r) (snd r);
           Some (if ps_isCharging ps2 then ps_chargeStop ps2 else ps2)
         })"

definition ps_updateAttackTimer :: "NSTime \<Rightarrow> player_stamina \<Rightarrow> player_stamina option" where
  "ps_updateAttackTimer diff ps =
     (if \<not> ps_isContinuousAttack ps then Some ps
      else
        let ps1 = ps\<lparr>ps_attackTimer := interval_update diff (ps_attackTimer ps)\<rparr>
        in if \<not> interval_passed (ps_attackTimer ps1) then Some ps1
           else
             let ps2 = ps1\<lparr>ps_attackTimer := interval_reset (ps_attackTimer ps1), ps_numAttacks := i32 (ps_numAttacks ps1 - 1)\<rparr>; d = ps_data ps2
             in if ps_numAttacks ps2 \<le> 0 \<or> i32 (sd_stamina d - sd_attackTakesStamina d) < sd_attackTakesStamina d
                then map_option (\<lambda>ps3. ps3\<lparr>ps_numAttacks := 0, ps_isContinuousAttack := False, ps_attackDirection := 0\<rparr>)
                       (ps_launch (ps_attackDirection ps2) (ps_attackInfoCounter ps2) ps2)
                else ps_launch (ps_attackDirection ps2) 0 ps2)"

definition ps_attackStop :: "player_stamina \<Rightarrow> player_stamina" where
  \<comment> \<open>and the flag of the raised hand, which the client sets\<close>
  "ps_attackStop ps = (ps_stopContinuousAttack ps)\<lparr>ps_isAttacking := False\<rparr>"

definition ps_stopStaminaUpdate :: "player_stamina \<Rightarrow> player_stamina" where
  "ps_stopStaminaUpdate ps = ps_chargeStop ps"

fun ps_modify :: "stat_change \<Rightarrow> player_stamina \<Rightarrow> player_stamina" where
  \<comment> \<open>each also sends the stamina to the client\<close>
  "ps_modify (ModifyMaxStamina stamina) ps =
     ps\<lparr>ps_data := (ps_data ps)\<lparr>sd_stamina := min (sd_stamina (ps_data ps)) stamina, sd_maxStamina := stamina\<rparr>, ps_staminaCounter := ps_staminaCounter ps + 1\<rparr>"
| "ps_modify (ModifyStaminaRegenRate rate) ps =
     ps\<lparr>ps_data := (ps_data ps)\<lparr>sd_staminaRegenRate := rate\<rparr>, ps_staminaCounter := ps_staminaCounter ps + 1\<rparr>"
| "ps_modify (ModifyChargeConsumesStamina stamina) ps =
     ps\<lparr>ps_data := (ps_data ps)\<lparr>sd_chargeConsumesStamina := stamina\<rparr>, ps_staminaCounter := ps_staminaCounter ps + 1\<rparr>"

section \<open>Messages\<close>

definition ps_handleAttackInfo :: "(rat \<Rightarrow> rat) \<Rightarrow> bool \<Rightarrow> u32 \<Rightarrow> u32 \<Rightarrow> bool \<Rightarrow> rat \<Rightarrow> player_stamina \<Rightarrow> player_stamina option" where
  "ps_handleAttackInfo fl active movementCounter counter allOut direction ps =
     (if \<not> active then Some ps
      else if ps_movementCounter ps \<noteq> movementCounter then Some ps
      else
        let ps1 = ps_stopContinuousAttack ps
        in if \<not> ps_isCharging ps1 \<and> sd_stamina (ps_data ps1) < sd_attackTakesStamina (ps_data ps1) then Some (ps_event (LaunchFailed counter) ps1)
           else ps_attack fl allOut direction (ps1\<lparr>ps_attackInfoCounter := counter, ps_isInCombat := True\<rparr>))"

definition ps_regenLimit :: "(rat \<Rightarrow> rat) \<Rightarrow> stamina_data \<Rightarrow> int" where
  "ps_regenLimit fl d = i32 \<lceil>fl (fl (1 / 5) * rb_regenSpeed fl d)\<rceil>"

definition ps_chargeLimit :: "(rat \<Rightarrow> rat) \<Rightarrow> stamina_data \<Rightarrow> int" where
  "ps_chargeLimit fl d = i32 \<lceil>fl (fl (1 / 5) * fl (of_int (sd_chargeConsumesStamina d)))\<rceil>"

definition ps_broadcastStamina :: "u32 \<Rightarrow> (nat \<times> u32) list \<Rightarrow> stamina_opcode \<Rightarrow> stamina_info \<Rightarrow> player_stamina \<Rightarrow> player_stamina" where
  \<comment> \<open>the times of the clients of the player and of the players nearby\<close>
  "ps_broadcastStamina now nearby opcode info ps =
     (let d = ps_data ps;
          info1 = info\<lparr>si_flags := sd_flags d, si_chargeStartStamina := word_of_int (sd_chargeStartStamina d)\<rparr>;
          info2 = info1\<lparr>si_time := now, si_attackCounter := ps_attackCounter ps, si_consumedStaminaTotal := ps_consumedStaminaTotal ps\<rparr>;
          ps1 = ps_event (Acknowledged opcode info2) ps
      in if ps_isCharging ps1 \<or> opcode = MSG_CHARGE_START \<or> opcode = MSG_CHARGE_STOP
         then let info3 = info2\<lparr>si_stamina := word_of_int (sd_stamina d), si_chargedStamina := word_of_int (sd_chargedStamina d),
                               si_chargeConsumesStamina := word_of_int (sd_chargeConsumesStamina d), si_attackCounter := 0, si_consumedStaminaTotal := 0\<rparr>
              in fold (\<lambda>(player, time). ps_event (Broadcast player opcode (info3\<lparr>si_time := time\<rparr>))) nearby ps1
         else ps1)"

definition ps_reported :: "stamina_info \<Rightarrow> player_stamina \<Rightarrow> int" where
  "ps_reported info ps =
     (if si_attackCounter info < ps_attackCounter ps
      then i32 (sint (si_stamina info) - sint (ps_consumedStaminaTotal ps - si_consumedStaminaTotal info))
      else sint (si_stamina info))"

definition ps_handleStaminaInfo ::
    "(rat \<Rightarrow> rat) \<Rightarrow> bool \<Rightarrow> bool \<Rightarrow> u32 \<Rightarrow> (nat \<times> u32) list \<Rightarrow> stamina_opcode \<Rightarrow> stamina_info \<Rightarrow> player_stamina \<Rightarrow> player_stamina" where
  "ps_handleStaminaInfo fl active chargedAttackEnabled now nearby opcode info ps =
     (if \<not> active then ps
      else if si_counter info \<noteq> ps_staminaCounter ps then ps
      else
        let newStamina = ps_reported info ps;
            accepted = (\<lambda>ps1.
              let ps2 = ps_broadcastStamina now nearby opcode info
                          (ps1\<lparr>ps_data := (ps_data ps1)\<lparr>sd_stamina := newStamina, sd_flags := si_flags info\<rparr>\<rparr>)
              in case opcode of MSG_CHARGE_START \<Rightarrow> ps_charge ps2 | MSG_CHARGE_STOP \<Rightarrow> ps_chargeStop ps2 | MSG_STAMINA_SYNC \<Rightarrow> ps2)
        in if \<not> ps_isCharging ps then
             let staminaDiff = i32 (newStamina - sd_stamina (ps_data ps))
             in if staminaDiff < 0 \<or> staminaDiff > ps_regenLimit fl (ps_data ps) then ps\<lparr>ps_kicked := True\<rparr>
                else if opcode = MSG_CHARGE_START then
                  if chargedAttackEnabled then accepted (ps\<lparr>ps_data := (ps_data ps)\<lparr>sd_chargeStartStamina := newStamina\<rparr>\<rparr>) else ps
                else accepted ps
           else
             let staminaDiff = i32 (sd_stamina (ps_data ps) - newStamina)
             in if staminaDiff < 0 \<or> staminaDiff > ps_chargeLimit fl (ps_data ps) then ps\<lparr>ps_kicked := True\<rparr>
                else accepted (ps\<lparr>ps_data := (ps_data ps)\<lparr>sd_chargedStamina := i32 (sd_chargeStartStamina (ps_data ps) - newStamina)\<rparr>\<rparr>))"

section \<open>What a message can do\<close>

definition ps_bounded :: "(rat \<Rightarrow> rat) \<Rightarrow> player_stamina \<Rightarrow> bool" where
  "ps_bounded fl ps \<longleftrightarrow> - 1073741824 \<le> sd_stamina (ps_data ps) \<and> sd_stamina (ps_data ps) \<le> 1073741824
     \<and> 0 \<le> ps_regenLimit fl (ps_data ps) \<and> ps_regenLimit fl (ps_data ps) < 1073741824
     \<and> 0 \<le> ps_chargeLimit fl (ps_data ps) \<and> ps_chargeLimit fl (ps_data ps) < 1073741824
     \<and> 0 < sd_attackTakesStamina (ps_data ps) \<and> sd_attackTakesStamina (ps_data ps) \<le> STAMINA_LIMIT
     \<and> - 1073741824 \<le> sd_chargedStamina (ps_data ps)"

lemma i32_cases: "- 6442450944 < x \<Longrightarrow> x < 6442450944 \<Longrightarrow> i32 x = x \<or> i32 x = x - 4294967296 \<or> i32 x = x + 4294967296"
proof -
  assume a: "- 6442450944 < x" "x < 6442450944"
  have r: "i32 (x + 4294967296) = i32 x" "i32 (x - 4294967296) = i32 x"
    using signed_take_bit_add [of 31 x 4294967296] signed_take_bit_diff [of 31 x 4294967296] by (simp_all add: i32_def)
  consider "- 2147483648 \<le> x \<and> x \<le> 2147483647" | "2147483647 < x" | "x < - 2147483648" by linarith
  then show ?thesis
  proof cases
    case 1
    then show ?thesis by (simp add: i32_id int32_range_def)
  next
    case 2
    then have "i32 (x - 4294967296) = x - 4294967296" using a by (intro i32_id) (simp add: int32_range_def)
    then show ?thesis using r(2) by simp
  next
    case 3
    then have "i32 (x + 4294967296) = x + 4294967296" using a by (intro i32_id) (simp add: int32_range_def)
    then show ?thesis using r(1) by simp
  qed
qed

lemma i32_small_diff:
  assumes "int32_range a" and "- 1073741824 \<le> b" and "b \<le> 1073741824" and "0 \<le> i32 (a - b)" and "i32 (a - b) < 1073741824"
  shows "i32 (a - b) = a - b"
  using i32_cases [of "a - b"] assms by (auto simp: int32_range_def)

lemma i32_small_diff2:
  assumes "int32_range a" and "- 1073741824 \<le> b" and "b \<le> 1073741824" and "0 \<le> i32 (b - a)" and "i32 (b - a) < 1073741824"
  shows "i32 (b - a) = b - a"
  using i32_cases [of "b - a"] assms by (auto simp: int32_range_def)

lemma ps_reported_range: "int32_range (ps_reported info ps)"
  using i32_range sint_greater_eq [of "si_stamina info"] sint_less [of "si_stamina info"]
  by (auto simp: ps_reported_def int32_range_def)

lemma ps_event_fields [simp]:
  "ps_data (ps_event e ps) = ps_data ps" "ps_isCharging (ps_event e ps) = ps_isCharging ps" "ps_kicked (ps_event e ps) = ps_kicked ps"
  "ps_staminaCounter (ps_event e ps) = ps_staminaCounter ps"
  by (simp_all add: ps_event_def)

lemma ps_events_fields [simp]:
  "ps_data (fold (\<lambda>(player, time). ps_event (e player time)) xs ps) = ps_data ps"
  "ps_isCharging (fold (\<lambda>(player, time). ps_event (e player time)) xs ps) = ps_isCharging ps"
  "ps_kicked (fold (\<lambda>(player, time). ps_event (e player time)) xs ps) = ps_kicked ps"
  by (induction xs arbitrary: ps) auto

lemma ps_broadcast_fields [simp]:
  "ps_data (ps_broadcastStamina now nearby opcode info ps) = ps_data ps"
  "ps_isCharging (ps_broadcastStamina now nearby opcode info ps) = ps_isCharging ps"
  "ps_kicked (ps_broadcastStamina now nearby opcode info ps) = ps_kicked ps"
  by (simp_all add: ps_broadcastStamina_def Let_def)

lemma ps_charge_fields [simp]:
  "ps_data (ps_charge ps) = ps_data ps" "ps_isCharging (ps_charge ps)" "ps_kicked (ps_charge ps) = ps_kicked ps"
  by (simp_all add: ps_charge_def ps_stopContinuousAttack_def)

lemma ps_chargeStop_fields [simp]:
  "sd_stamina (ps_data (ps_chargeStop ps)) = sd_stamina (ps_data ps)" "\<not> ps_isCharging (ps_chargeStop ps)" "ps_kicked (ps_chargeStop ps) = ps_kicked ps"
  by (simp_all add: ps_chargeStop_def)

lemma ps_launch_ok:
  assumes "ps_bounded fl ps"
  shows "\<exists>ps1. ps_launch direction counter ps = Some ps1 \<and> ps_isCharging ps1 = ps_isCharging ps
    \<and> sd_stamina (ps_data ps1) = max 0 (sd_stamina (ps_data ps)
        - (if ps_isCharging ps then max 0 (sd_attackTakesStamina (ps_data ps) - sd_chargedStamina (ps_data ps)) else sd_attackTakesStamina (ps_data ps)))"
proof -
  let ?d = "ps_data ps"
  let ?c = "calcConsumedStamina (ps_isCharging ps) ?d"
  define p where "p = (if ps_isCharging ps then max 0 (sd_attackTakesStamina ?d - sd_chargedStamina ?d) else sd_attackTakesStamina ?d)"
  have b: "- 1073741824 \<le> sd_stamina ?d" "sd_stamina ?d \<le> 1073741824" "0 < sd_attackTakesStamina ?d" "sd_attackTakesStamina ?d \<le> 16777216"
      "- 1073741824 \<le> sd_chargedStamina ?d"
    using assms by (simp_all add: ps_bounded_def STAMINA_LIMIT_def)
  have "i32 (sd_attackTakesStamina ?d - sd_chargedStamina ?d) = sd_attackTakesStamina ?d - sd_chargedStamina ?d"
    if "sd_chargedStamina ?d < sd_attackTakesStamina ?d"
    using that b by (intro i32_id) (simp add: int32_range_def)
  then have c: "?c = min (sd_stamina ?d) p" using b by (auto simp: calcConsumedStamina_def p_def)
  have p: "0 \<le> p" using b by (simp add: p_def)
  have "sd_stamina ?d - ?c = max 0 (sd_stamina ?d - p)" using c by linarith
  moreover have "i32 (max 0 (sd_stamina ?d - p)) = max 0 (sd_stamina ?d - p)" using b(2) p by (intro i32_nonneg) auto
  ultimately have "i32 (sd_stamina ?d - ?c) = max 0 (sd_stamina ?d - p)" by simp
  then show ?thesis by (simp add: ps_launch_def Let_def flip: p_def)
qed

lemma ps_attack_ok:
  assumes "ps_bounded fl ps"
  shows "\<exists>ps1. ps_attack fl allOut direction ps = Some ps1 \<and> 0 \<le> sd_stamina (ps_data ps1) \<and> \<not> ps_isCharging ps1"
proof -
  have t: "sd_attackTakesStamina (ps_data ps) \<noteq> 0" using assms by (simp add: ps_bounded_def)
  have l: "\<exists>ps2. ps_launch direction counter ps1 = Some ps2 \<and> 0 \<le> sd_stamina (ps_data ps2) \<and> ps_isCharging ps2 = ps_isCharging ps1"
    if "ps_data ps1 = ps_data ps" for counter ps1
  proof -
    have "ps_bounded fl ps1" using assms that by (simp add: ps_bounded_def)
    from ps_launch_ok [OF this, of direction counter] show ?thesis by (metis max.cobounded1)
  qed
  let ?ps = "ps\<lparr>ps_isAttacking := True\<rparr>"
  obtain counter ps1 where 1: "ps_data ps1 = ps_data ps" "ps_attack fl allOut direction ps
      = do { ps2 \<leftarrow> ps_launch direction counter ps1; Some (if ps_isCharging ps2 then ps_chargeStop ps2 else ps2) }"
  proof (cases "\<not> ps_isCharging ps \<and> allOut \<and> i32 (sd_stamina (ps_data ps) sdiv sd_attackTakesStamina (ps_data ps)) > 1")
    case True
    define ps1 where "ps1 = snd (the (do {
        nAttacks \<leftarrow> int_div (sd_stamina (ps_data ps)) (sd_attackTakesStamina (ps_data ps));
        more \<leftarrow> int_div (trunc (fl (rb_regenSpeed fl (ps_data ps) * fl (fl (of_int nAttacks) * fl (of_int ATTACK_INTERVAL / 1000))))) (sd_attackTakesStamina (ps_data ps));
        Some (0 :: u32, ?ps\<lparr>ps_numAttacks := i32 (i32 (nAttacks + more) - 1), ps_attackTimer := interval_setInterval ATTACK_INTERVAL (ps_attackTimer ps),
                   ps_isContinuousAttack := True, ps_attackDirection := direction\<rparr>) }))"
    show ?thesis by (rule that [of ps1 0]) (use True t in \<open>simp_all add: ps1_def ps_attack_def int_div_def Let_def\<close>)
  next
    case False
    show ?thesis by (rule that [of ?ps "ps_attackInfoCounter ps"]) (use False t in \<open>auto simp: ps_attack_def int_div_def Let_def\<close>)
  qed
  from l [OF 1(1), of counter] obtain ps2 where "ps_launch direction counter ps1 = Some ps2" "0 \<le> sd_stamina (ps_data ps2)" by blast
  then show ?thesis by (simp add: 1(2))
qed


definition pw_report :: "int \<Rightarrow> stamina_info" where
  "pw_report stamina = si_clear\<lparr>si_stamina := word_of_int stamina\<rparr>"

definition pw_player :: player_stamina where
  "pw_player = ps_new sw_data"


lemma stamina_reported_over_maximum:
  \<comment> \<open>the time between two messages and the maximum are not checked\<close>
  "(let ps = fold (\<lambda>stamina. ps_handleStaminaInfo id True True 0 [] MSG_STAMINA_SYNC (pw_report stamina)) [106, 112, 118, 124, 130, 136] pw_player
    in (ps_kicked ps, sd_stamina (ps_data ps), sd_maxStamina (ps_data ps))) = (False, 136, 120)"
  by code_simp

lemma stamina_reported_below_zero:
  \<comment> \<open>so that a client can charge more than it has\<close>
  "(let ps = fold (\<lambda>(opcode, stamina). ps_handleStaminaInfo id True True 0 [] opcode (pw_report stamina))
       ((MSG_CHARGE_START, 100) # map (\<lambda>n. (MSG_STAMINA_SYNC, 100 - 16 * int n)) [1..<9]) pw_player
    in (ps_kicked ps, sd_stamina (ps_data ps), sd_chargeStartStamina (ps_data ps), sd_chargedStamina (ps_data ps))) = (False, - 28, 100, 128)"
  by code_simp

end
