(* ===== verification/Spec2Isabelle.thy ===== *)
theory Spec2Isabelle
  imports Timers Net_Socket References Battle_Tiles Path_Search World_Session Theater_Updater Theater_Manager Object_Data Auth_Server Motion_Master Base64 Unit_Combat Unit_Threats Wish_Manager Network_Threads Player_Stamina
begin

text \<open>
  Verification of the SnowFight servers (C++): the authentication server that hands out the addresses of the
  game realms (\<^verbatim>\<open>src/src/authserver\<close>) and the world server that runs the battles
  (\<^verbatim>\<open>src/src/worldserver\<close>), over their common code (\<^verbatim>\<open>src/src/common\<close>). Paths below are relative
  to \<^verbatim>\<open>src/src\<close>; those without a directory are under \<^verbatim>\<open>worldserver/game\<close>.

  \<^bold>\<open>The program.\<close> Network threads read packets from sockets and hand them to sessions. In the authentication
  server a session answers at once from two tables. In the world server the socket thread puts the packets into the queue of a
  session; the main loop updates the theater manager, which admits sessions, moves waiting players into theaters
  and has a pool of worker threads update the theaters. A theater owns a battle map with its tiles, its safe zone and the objects on it;
  robots search paths over the tiles; the state of the objects is replicated to the clients by update messages.

  \<^bold>\<open>Conventions.\<close> A class is a record, a method a function on it with the name of the method behind the prefix of its class. Unsigned integers are
  words; signed ones are \<open>int\<close>, cut to their width where they are stored. A failed assertion, a null pointer that is
  dereferenced and an access outside an array are error values, \<open>Inl\<close> of a sum or \<open>None\<close>; so is an exception. Threads are
  interleavings of operations, each of which holds a mutex in the code. Logging has no counterpart.

  \<^bold>\<open>Common code.\<close>
  \<^item> \<open>Prelude\<close>: machine integers, shared lemmas and the collections of rules.
  \<^item> \<open>Timers\<close> (\<^verbatim>\<open>common/utilities/Timer.h\<close>): prefixes \<open>interval_\<close> and \<open>delay_\<close>. No time is lost, whatever the steps of the updates.
  \<^item> \<open>Queues\<close> (\<^verbatim>\<open>common/containers\<close>): \<open>cq_\<close> and \<open>bq_\<close>, the two thread-safe queues. The locale \<open>fifo_queue\<close> is what their
    clients rely on; every interleaving hands out the elements in order, and cancelling frees all of them.
  \<^item> \<open>Message_Buffer\<close>, \<open>Basic_Packet\<close>, \<open>Net_Socket\<close> (\<^verbatim>\<open>common/networking\<close>): \<open>mb_\<close>, \<open>pk_\<close>, \<open>sk_\<close>. Packets survive the wire, a socket
    sends all that was queued and receives all that was sent, in order; the send queue is bounded; bad headers close the socket; and one
    size of message for which packing writes out of bounds.
  \<^item> \<open>Network_Threads\<close> (\<^verbatim>\<open>common/networking\<close>): \<open>nt_\<close>, \<open>ac_\<close>, \<open>sm_\<close> for \<^verbatim>\<open>NetworkThread\<close>, \<^verbatim>\<open>AsyncAcceptor\<close> and \<^verbatim>\<open>SocketMgr\<close>, \<open>net_\<close> for their
    interleavings. No accepted connection is lost or counted twice.

  \<^bold>\<open>Authentication server.\<close>
  \<^item> \<open>Realm_Manager\<close> (\<^verbatim>\<open>authserver/realm\<close>, \<^verbatim>\<open>authserver/banned\<close>): \<open>rlm_\<close>, \<open>bm_\<close>. The nested maps answer like a query on the rows of the tables; versions compare as they are written.
  \<^item> \<open>Auth_Server\<close> (\<^verbatim>\<open>authserver/server\<close>, \<^verbatim>\<open>authserver/handlers\<close>): \<open>as_\<close> for a session, \<open>ak_\<close> for its socket. After any
    sequence of packets a client gets exactly the realms that the tables grant it, and a banned one gets none.

  \<^bold>\<open>World server: sessions and theaters.\<close>
  \<^item> \<open>World_Session\<close> (\<^verbatim>\<open>server\<close>, \<^verbatim>\<open>handlers/CharacterHandler.cpp\<close>): \<open>ws_\<close>, \<open>wk_\<close>. Handlers run only on sessions with the status they need, a timed out session is dropped;
    one message that brings the server down.
  \<^item> \<open>Theater\<close>, \<open>Theater_Updater\<close>, \<open>Theater_Manager\<close> (\<^verbatim>\<open>theater\<close>): \<open>th_\<close>, \<open>up_\<close>, \<open>mg_\<close>. The counters of a theater are right in every reachable state, admission
    keeps all limits, the queue is served in order, and the wait for the workers is a barrier that ends. The locale \<open>session_updates\<close> is what the manager needs of the update of a session.

  \<^bold>\<open>World server: the battle map.\<close>
  \<^item> \<open>Tile_Map\<close>, \<open>Battle_Tiles\<close> (\<^verbatim>\<open>maps/MapData.h\<close>, \<^verbatim>\<open>maps/BattleMap.cpp\<close>): \<open>md_\<close>, \<open>tm_\<close>, \<open>bt_\<close>. Tiles, their indexes and the jump table stay consistent.
  \<^item> \<open>Battle_State\<close> (\<^verbatim>\<open>maps/BattleMap.cpp\<close>): \<open>ba_\<close>. The states of a battle follow in order, the ranks count down, the safe zone closes.
  \<^item> \<open>Precompute_Map\<close>, \<open>Jump_Distances\<close> (\<^verbatim>\<open>pathfinding/PrecomputeMap\<close>): \<open>pm_\<close>. The sweeps compute what a scan of every line finds.
  \<^item> \<open>Explore_Table\<close>, \<open>Open_Lists\<close>, \<open>JPS_Plus\<close>, \<open>Path_Search\<close> (\<^verbatim>\<open>pathfinding/JPSPlus\<close> and its containers): \<open>explore_\<close>, \<open>fs_\<close>, \<open>uq_\<close>, \<open>jp_\<close>. The locales \<open>open_list\<close> and \<open>cheapest_first\<close>
    are interpreted by both containers. The search loop and the walk along the parents take one unit of fuel more than the map has
    tiles; since every turn closes a tile that was not closed, the fuel is never used up, and every search ends with a walkable path or with none.

  \<^bold>\<open>World server: objects.\<close>
  \<^item> \<open>Linked_List\<close>, \<open>References\<close> (\<^verbatim>\<open>dynamic\<close>, \<^verbatim>\<open>grids/GridReference.h\<close>): \<open>ll_\<close>, \<open>rf_\<close>, \<open>rm_\<close>. The pointers of the intrusive lists, with the locale \<open>ref_list\<close> between the two.
  \<^item> \<open>Parcels\<close>, \<open>Object_Updates\<close>, \<open>Object_Data\<close> (\<^verbatim>\<open>server/protocol/Parcel\<close>, \<^verbatim>\<open>entities\<close>): \<open>pa_\<close>, \<open>mi_\<close>, \<open>li_\<close>, \<open>si_\<close>; \<open>guid_\<close>, \<open>fm_\<close>, \<open>uo_\<close>; \<open>du_\<close>, \<open>dp_\<close> and others.
    Messages survive the wire, GUIDs are unique, and the replica that a client keeps of a player stays in sync. The locale \<open>codec\<close> is the contract of a field.

  \<^bold>\<open>World server: players and robots.\<close>
  \<^item> \<open>Item_Effects\<close>, \<open>Inventory\<close> (\<^verbatim>\<open>item\<close>, \<^verbatim>\<open>behaviors/Unit.cpp\<close>, \<^verbatim>\<open>behaviors/CarriedItem.cpp\<close>): \<open>iu_\<close>, \<open>ia_\<close> for modifiers, effects and applications, \<open>cu_\<close>, \<open>cp_\<close> for slots and cooldowns.
    What a unit carries and uses always adds up, and nothing is left of it after death.
  \<^item> \<open>Reward_Manager\<close> (\<^verbatim>\<open>combat/RewardManager\<close>): \<open>rwm_\<close>, \<open>ar_\<close>. It simulates a ledger of who dealt which damage.
  \<^item> \<open>Unit_Combat\<close> (\<^verbatim>\<open>behaviors/Unit.cpp\<close>, \<^verbatim>\<open>behaviors/Player.cpp\<close>): \<open>cb_\<close>. Damage, concealment, danger and death of a player, composed with the inventory and the rewards; the invariant \<open>cb_inv\<close> carries the proofs.
  \<^item> \<open>Target_Lists\<close>, \<open>Unit_Threats\<close>, \<open>Wish_Manager\<close> (\<^verbatim>\<open>combat/UnitThreatManager\<close>, \<^verbatim>\<open>combat/ProjectileThreatManager\<close>, \<^verbatim>\<open>collection\<close>): \<open>rt_\<close> for the list and its table of iterators, \<open>um_\<close>, \<open>pm_\<close>, \<open>wm_\<close>
    for the managers. The locales \<open>reference\<close> and \<open>ranked_reference\<close> are interpreted by the references of all three; a robot picks the target with the highest threat or wish.
  \<^item> \<open>Robot_Stamina\<close>, \<open>Robot_Attack\<close> (\<^verbatim>\<open>combat/RobotStaminaUpdater\<close>, \<^verbatim>\<open>behaviors/Robot.cpp\<close>): \<open>su_\<close> for regeneration and charging, \<open>rb_\<close> for the attack modes, hands and
    targets over it; \<open>rb_ok\<close> is the invariant. \<open>Floats\<close> holds what is used of single precision.
  \<^item> \<open>Player_Stamina\<close> (\<^verbatim>\<open>handlers/CombatHandler.cpp\<close>, \<^verbatim>\<open>behaviors/Player.cpp\<close>): \<open>ps_\<close>. What a client may report about its stamina, and what it may ask for.
  \<^item> \<open>Motion_Master\<close> (\<^verbatim>\<open>movement/MotionMaster\<close>): \<open>mm_\<close>. Every movement generator is finished and freed once.
  \<^item> \<open>Base64\<close> (\<^verbatim>\<open>maps/mapparser/base64\<close>): \<open>b64_\<close>. What was encoded decodes to the same bytes.
  \<^bold>\<open>Parameters.\<close> Code outside of \<^verbatim>\<open>src\<close>, generated code, and parts that are not modelled are arguments: the messages of protobuf (\<open>ae_parse\<close>, \<open>ae_encode\<close>, the bodies of
  packets), the rows of SQLite, GeoIP, the completions of Boost.Asio, the rounding of floats (\<open>fl\<close>), clocks and random numbers, the handlers that act on players and maps,
  and the environment of a theater.

  \<^bold>\<open>Not modelled.\<close> Of units, players, robots and items (\<^verbatim>\<open>behaviors\<close>, \<^verbatim>\<open>ai\<close>): aiming, dodging, hiding and exploring, long methods over floating point
  positions and the objects of a map. Movement generators and splines (\<^verbatim>\<open>movement\<close>): numerical code. Grids and their visitors (\<^verbatim>\<open>grids\<close>), apart from the references. The loader of map files and the tables
  of \<^verbatim>\<open>ObjectMgr\<close> and \<^verbatim>\<open>World\<close>: they copy data from files and SQLite. Commands for game masters, configuration, logging, process control: input and output. The generated protobuf code and the vendored libraries under \<^verbatim>\<open>src/dep\<close>.
\<close>

end
